(* ===== verification/Prelude.thy ===== *)
theory Prelude
  imports Main "HOL-Library.Word" "HOL-Library.AList" "HOL-Library.Multiset" "HOL-Library.Signed_Division"
begin

unbundle bit_operations_syntax

text \<open>
  The part of the Go language and of its standard library that the node's code uses:
  machine integers, byte slices, fixed-size arrays, maps, errors and panics, and the
  \<^verbatim>\<open>encoding/binary\<close> byte orders.

  \<^item> An \<^verbatim>\<open>intN\<close> is an \<open>N word\<close>: \<open>+\<close>, \<open>-\<close> and \<open>*\<close> wrap as Go's do and
    \<open>sint\<close> reads the signed value, so that a Go comparison \<open>a < b\<close> is
    \<open>sint a < sint b\<close>.
  \<^item> A \<^verbatim>\<open>[]byte\<close> and a \<^verbatim>\<open>[n]byte\<close> are lists of bytes.  A slice expression past the
    length of its operand is a panic (the buffers of the model have no spare capacity).
  \<^item> A Go map is an association list with distinct keys.  The order of the list is the order
    in which one \<^verbatim>\<open>range\<close> statement visits the map; Go leaves that order open, and so do
    the theorems, which hold for every list.
  \<^item> A function that may fail returns a \<open>result\<close>: \<open>Ok\<close> with its value, \<open>Err\<close> with the
    message of the error, or \<open>Panic\<close> for a run-time panic.
\<close>

section \<open>Types of the model\<close>

type_synonym byte = "8 word"
type_synonym bytes = "byte list"
type_synonym i16 = "16 word"
type_synonym i32 = "32 word"
type_synonym i64 = "64 word"

datatype 'a result = Ok 'a | Err string | Panic

primrec rbind :: "'a result \<Rightarrow> ('a \<Rightarrow> 'b result) \<Rightarrow> 'b result" where
  "rbind (Ok x) f = f x"
| "rbind (Err e) f = Err e"
| "rbind Panic f = Panic"

primrec is_ok :: "'a result \<Rightarrow> bool" where
  "is_ok (Ok x) = True"
| "is_ok (Err e) = False"
| "is_ok Panic = False"

named_theorems effects \<open>which effects preserve an invariant\<close>
named_theorems codec \<open>encoders, decoders and the lemmas that invert one by the other\<close>
named_theorems ledger \<open>operations on the ledger and what they do to its totals\<close>

lemma rbind_Ok_iff: "rbind r f = Ok y \<longleftrightarrow> (\<exists>x. r = Ok x \<and> f x = Ok y)"
  by (cases r) auto

lemma rbind_cong [fundef_cong]:
  "r = r' \<Longrightarrow> (\<And>x. r' = Ok x \<Longrightarrow> f x = g x) \<Longrightarrow> rbind r f = rbind r' g"
  by (cases r') auto

section \<open>Machine integers\<close>

text \<open>Go's integer division truncates towards zero.\<close>

definition i64_div :: "i64 \<Rightarrow> i64 \<Rightarrow> i64" where
  "i64_div a b = word_of_int (sint a sdiv sint b)"

text \<open>The length of a slice as an \<^verbatim>\<open>int64\<close>.\<close>

abbreviation len64 :: "'a list \<Rightarrow> i64" where
  "len64 xs \<equiv> word_of_nat (length xs)"

lemma sint_i64_bounds: "- (2 ^ 63) \<le> sint (x :: i64)" "sint (x :: i64) < 2 ^ 63"
  using sint_ge [of x] sint_lt [of x] by simp_all

lemma sint_i64_eq_iff: "(x :: i64) = y \<longleftrightarrow> sint x = sint y"
  by (auto simp: signed_word_eqI)

text \<open>A sum or difference that fits in 64 bits is the mathematical one.\<close>

lemma sint_i64_of_int:
  assumes "- (2 ^ 63) \<le> k" and "k < 2 ^ 63"
  shows "sint (word_of_int k :: i64) = k"
  using assms by (simp add: signed_of_int signed_take_bit_int_eq_self)

lemma sint_i64_add:
  assumes "- (2 ^ 63) \<le> sint a + sint b" and "sint a + sint b < 2 ^ 63"
  shows "sint ((a :: i64) + b) = sint a + sint b"
  using assms by (simp add: sint_word_ariths signed_take_bit_int_eq_self)

lemma sint_i64_diff:
  assumes "- (2 ^ 63) \<le> sint a - sint b" and "sint a - sint b < 2 ^ 63"
  shows "sint ((a :: i64) - b) = sint a - sint b"
  using assms by (simp add: sint_word_ariths signed_take_bit_int_eq_self)

lemma sint_i64_mult:
  assumes "- (2 ^ 63) \<le> sint a * sint b" and "sint a * sint b < 2 ^ 63"
  shows "sint ((a :: i64) * b) = sint a * sint b"
  using assms by (simp add: sint_word_ariths signed_take_bit_int_eq_self)

section \<open>Byte orders\<close>

text \<open>
  \<^verbatim>\<open>binary.LittleEndian.PutUintN\<close> and \<^verbatim>\<open>UintN\<close>, for any width: the low byte comes first.
  The big-endian forms reverse the bytes.
\<close>

fun le_bytes :: "nat \<Rightarrow> 'a::len word \<Rightarrow> bytes" where
  "le_bytes 0 w = []"
| "le_bytes (Suc n) w = ucast w # le_bytes n (drop_bit 8 w)"

fun le_word :: "bytes \<Rightarrow> 'a::len word" where
  "le_word [] = 0"
| "le_word (b # bs) = ucast b OR push_bit 8 (le_word bs)"

definition be_bytes :: "nat \<Rightarrow> 'a::len word \<Rightarrow> bytes" where
  "be_bytes n w = rev (le_bytes n w)"

definition be_word :: "bytes \<Rightarrow> 'a::len word" where
  "be_word bs = le_word (rev bs)"

lemma length_le_bytes [simp]: "length (le_bytes n w) = n"
  by (induction n arbitrary: w) auto

lemma length_be_bytes [simp]: "length (be_bytes n w) = n"
  by (simp add: be_bytes_def)

lemma le_word_le_bytes: "le_word (le_bytes n w) = take_bit (8 * n) w"
proof (induction n arbitrary: w)
  case 0
  then show ?case by simp
next
  case (Suc n)
  show ?case
    by (rule bit_word_eqI)
      (auto simp: Suc bit_or_iff bit_push_bit_iff bit_take_bit_iff bit_drop_bit_eq
        bit_ucast_iff)
qed

lemma be_word_be_bytes: "be_word (be_bytes n w) = take_bit (8 * n) w"
  by (simp add: be_word_def be_bytes_def le_word_le_bytes)

lemma take_bit_word_full: "LENGTH('a) \<le> k \<Longrightarrow> take_bit k (w :: 'a::len word) = w"
  by (rule bit_word_eqI) (auto simp: bit_take_bit_iff)

text \<open>The other way round: bytes are what their word is written as, when the word has room.\<close>

lemma le_bytes_le_word:
  assumes "8 * length bs \<le> LENGTH('a::len)"
  shows "le_bytes (length bs) (le_word bs :: 'a word) = bs"
  using assms
proof (induction bs)
  case Nil
  then show ?case by simp
next
  case (Cons b bs)
  let ?w = "le_word bs :: 'a word"
  have low: "ucast (ucast b OR push_bit 8 ?w :: 'a word) = b"
    by (rule bit_word_eqI) (use Cons.prems in \<open>auto simp: bit_or_iff bit_push_bit_iff bit_ucast_iff\<close>)
  have low_bits: "?w = take_bit (8 * length bs) ?w"
    using le_word_le_bytes [of "length bs" ?w] Cons by simp
  have "8 * length bs \<le> LENGTH('a) - 8" using Cons.prems by simp
  then have "take_bit (LENGTH('a) - 8) (take_bit (8 * length bs) ?w) = take_bit (8 * length bs) ?w"
    by (simp only: take_bit_take_bit min_absorb2)
  with low_bits have bound: "take_bit (LENGTH('a) - 8) ?w = ?w" by metis
  have "drop_bit 8 (ucast b OR push_bit 8 ?w :: 'a word) = ?w"
  proof (rule bit_word_eqI)
    fix n
    assume "n < LENGTH('a)"
    have "bit ?w n \<Longrightarrow> n < LENGTH('a) - 8"
      by (subst (asm) bound [symmetric]) (simp add: bit_take_bit_iff)
    then show "bit (drop_bit 8 (ucast b OR push_bit 8 ?w :: 'a word)) n = bit ?w n"
      by (auto simp: bit_or_iff bit_push_bit_iff bit_ucast_iff bit_drop_bit_eq
          dest: bit_imp_le_length)
  qed
  with low Cons show ?case by simp
qed

lemma be_bytes_be_word:
  assumes "8 * length bs \<le> LENGTH('a::len)"
  shows "be_bytes (length bs) (be_word bs :: 'a word) = bs"
  using le_bytes_le_word [of "rev bs", where 'a = 'a] assms by (simp add: be_bytes_def be_word_def)

section \<open>Slices\<close>

text \<open>\<^verbatim>\<open>b[i:j]\<close> and \<^verbatim>\<open>b[i:]\<close>.\<close>

definition slice :: "'a list \<Rightarrow> nat \<Rightarrow> nat \<Rightarrow> 'a list result" where
  "slice b i j = (if i \<le> j \<and> j \<le> length b then Ok (take (j - i) (drop i b)) else Panic)"

definition slice_from :: "'a list \<Rightarrow> nat \<Rightarrow> 'a list result" where
  "slice_from b i = slice b i (length b)"

text \<open>
  \<^verbatim>\<open>copy(dst[:], src)\<close> into an array: the bytes of \<^verbatim>\<open>src\<close>, at most as many as the array
  holds, over the front of the array.
\<close>

definition copy_into :: "'a list \<Rightarrow> 'a list \<Rightarrow> 'a list" where
  "copy_into dst src = take (length dst) src @ drop (length src) dst"

text \<open>\<^verbatim>\<open>buffer.Next(n)\<close> of a \<^verbatim>\<open>bytes.Buffer\<close>: at most \<open>n\<close> bytes, and what is left.\<close>

definition buf_next :: "nat \<Rightarrow> bytes \<Rightarrow> bytes \<times> bytes" where
  "buf_next n b = (take n b, drop n b)"

lemma slice_append_left [simp]:
  "j \<le> length xs \<Longrightarrow> slice (xs @ ys) i j = slice xs i j"
  by (auto simp: slice_def)

lemma slice_all [simp]: "slice xs 0 (length xs) = Ok xs"
  by (simp add: slice_def)

lemma length_copy_into [simp]: "length (copy_into dst src) = length dst"
  by (auto simp: copy_into_def)

lemma copy_into_same_length [simp]: "length src = length dst \<Longrightarrow> copy_into dst src = src"
  by (simp add: copy_into_def)

lemma buf_next_append [simp]:
  "length xs = n \<Longrightarrow> buf_next n (xs @ ys) = (xs, ys)"
  by (simp add: buf_next_def)

text \<open>The first \<open>n\<close> consecutive blocks of \<open>w\<close> bytes.\<close>

fun chunks :: "nat \<Rightarrow> nat \<Rightarrow> 'a list \<Rightarrow> 'a list list" where
  "chunks w 0 b = []"
| "chunks w (Suc n) b = take w b # chunks w n (drop w b)"

lemma chunks_concat [simp, codec]:
  assumes "\<forall>x \<in> set xs. length x = w"
  shows "chunks w (length xs) (concat xs @ rest) = xs"
  using assms by (induction xs) auto

lemmas chunks_concat_nil [simp, codec] = chunks_concat [where rest = "[]", simplified]

lemma length_concat_const:
  "\<forall>x \<in> set xs. length x = w \<Longrightarrow> length (concat xs) = w * length xs"
  by (induction xs) auto

section \<open>Go maps\<close>

type_synonym ('k, 'v) gomap = "('k \<times> 'v) list"

text \<open>The value a Go map expression \<^verbatim>\<open>m[k]\<close> has: the zero value when the key is absent.\<close>

definition mgetd :: "'v \<Rightarrow> ('k, 'v) gomap \<Rightarrow> 'k \<Rightarrow> 'v" where
  "mgetd z m k = (case map_of m k of None \<Rightarrow> z | Some v \<Rightarrow> v)"

abbreviation mput :: "'k \<Rightarrow> 'v \<Rightarrow> ('k, 'v) gomap \<Rightarrow> ('k, 'v) gomap" where
  "mput \<equiv> AList.update"

abbreviation mdel :: "'k \<Rightarrow> ('k, 'v) gomap \<Rightarrow> ('k, 'v) gomap" where
  "mdel \<equiv> AList.delete"

abbreviation gomap_ok :: "('k, 'v) gomap \<Rightarrow> bool" where
  "gomap_ok m \<equiv> distinct (map fst m)"

text \<open>The sum of a field over all the entries, as the supply counters compute it.\<close>

definition msum :: "('v \<Rightarrow> 'n::comm_monoid_add) \<Rightarrow> ('k, 'v) gomap \<Rightarrow> 'n" where
  "msum f m = sum_list (map (\<lambda>(k, v). f v) m)"

lemma msum_simps [simp]:
  "msum f [] = 0"
  "msum f ((k, v) # m) = f v + msum f m"
  by (simp_all add: msum_def)

lemma msum_mset: "mset m = mset m' \<Longrightarrow> msum f m = msum f m'"
  unfolding msum_def by (metis mset_map sum_mset_sum_list)

lemma mgetd_update [simp]:
  "mgetd z (mput k v m) k' = (if k' = k then v else mgetd z m k')"
  by (simp add: mgetd_def update_conv')

lemma map_of_mput: "map_of (mput k v m) k' = (if k' = k then Some v else map_of m k')"
  by (simp add: update_conv')

lemma gomap_ok_mput [simp, intro]: "gomap_ok m \<Longrightarrow> gomap_ok (mput k v m)"
  by (rule distinct_update)

lemma mput_new [simp]: "k \<notin> fst ` set m \<Longrightarrow> mput k v m = m @ [(k, v)]"
  by (induction m) auto

lemma map_of_None_notin: "map_of m k = None \<longleftrightarrow> k \<notin> fst ` set m"
  by (rule map_of_eq_None_iff)

text \<open>Storing a value changes a sum by the difference of the new and the old summand.\<close>

lemma msum_mput:
  fixes f :: "'v \<Rightarrow> 'n::ab_group_add"
  assumes "gomap_ok m"
  shows "msum f (mput k v m) =
    msum f m + f v - (case map_of m k of None \<Rightarrow> 0 | Some w \<Rightarrow> f w)"
  using assms
proof (induction m)
  case Nil
  then show ?case by simp
next
  case (Cons p m)
  obtain k' w where p: "p = (k', w)" by (cases p)
  show ?case
  proof (cases "k' = k")
    case True
    with p show ?thesis by (simp add: algebra_simps)
  next
    case False
    with Cons p show ?thesis by (simp add: algebra_simps)
  qed
qed

lemma msum_mput_zero:
  fixes f :: "'v \<Rightarrow> 'n::ab_group_add"
  assumes "gomap_ok m" and "f z = 0"
  shows "msum f (mput k v m) = msum f m + f v - f (mgetd z m k)"
  using assms by (simp add: msum_mput mgetd_def split: option.split)

section \<open>Effects\<close>

text \<open>
  Code that changes state takes the state and returns its result beside the new state: what a
  failing call has already written stays written, as in Go.
\<close>

type_synonym ('s, 'a) op = "'s \<Rightarrow> 'a result \<times> 's"

definition sret :: "'a \<Rightarrow> ('s, 'a) op" where
  "sret x s = (Ok x, s)"

definition serr :: "string \<Rightarrow> ('s, 'a) op" where
  "serr e s = (Err e, s)"

definition sget :: "('s \<Rightarrow> 'a) \<Rightarrow> ('s, 'a) op" where
  "sget f s = (Ok (f s), s)"

definition supd :: "('s \<Rightarrow> 's) \<Rightarrow> ('s, unit) op" where
  "supd f s = (Ok (), f s)"

definition slift :: "'a result \<Rightarrow> ('s, 'a) op" where
  "slift r s = (r, s)"

definition sbind :: "('s, 'a) op \<Rightarrow> ('a \<Rightarrow> ('s, 'b) op) \<Rightarrow> ('s, 'b) op" where
  "sbind m f s = (case m s of
     (Ok x, s') \<Rightarrow> f x s' | (Err e, s') \<Rightarrow> (Err e, s') | (Panic, s') \<Rightarrow> (Panic, s'))"

text \<open>A call whose error the caller logs and drops.\<close>

definition sdrop :: "('s, 'a) op \<Rightarrow> ('s, unit) op" where
  "sdrop m s = (case m s of (Panic, s') \<Rightarrow> (Panic, s') | (_, s') \<Rightarrow> (Ok (), s'))"

text \<open>A call whose error the caller looks at and handles.\<close>

definition scatch :: "('s, 'a) op \<Rightarrow> ('s, 'a result) op" where
  "scatch m s = (case m s of
     (Ok x, s') \<Rightarrow> (Ok (Ok x), s') | (Err e, s') \<Rightarrow> (Ok (Err e), s') | (Panic, s') \<Rightarrow> (Panic, s'))"

text \<open>
  An operation on one part of a larger state, which \<open>get\<close> reads and \<open>upd\<close> updates.
\<close>

definition zoom :: "('s \<Rightarrow> 't) \<Rightarrow> (('t \<Rightarrow> 't) \<Rightarrow> 's \<Rightarrow> 's) \<Rightarrow> ('t, 'a) op \<Rightarrow> ('s, 'a) op" where
  "zoom get upd m s = (case m (get s) of (r, t) \<Rightarrow> (r, upd (\<lambda>_. t) s))"

text \<open>A \<^verbatim>\<open>for _, x := range xs { ... }\<close> whose body may return early with an error.\<close>

fun sfor :: "('a \<Rightarrow> ('s, unit) op) \<Rightarrow> 'a list \<Rightarrow> ('s, unit) op" where
  "sfor f [] = sret ()"
| "sfor f (x # xs) = sbind (f x) (\<lambda>_. sfor f xs)"

lemmas effect_defs = sret_def serr_def sget_def supd_def slift_def sbind_def sdrop_def
  scatch_def zoom_def

lemma sbind_cong [fundef_cong]:
  assumes "m s = m' s'" and "\<And>x t. m' s' = (Ok x, t) \<Longrightarrow> f x t = g x t" and "s = s'"
  shows "sbind m f s = sbind m' g s'"
  using assms by (auto simp: sbind_def split: result.splits prod.splits)

text \<open>Inversion of a successful run of a sequence of effects.\<close>

lemma sbind_OkE:
  assumes "sbind m f s = (Ok y, s')"
  obtains x t where "m s = (Ok x, t)" and "f x t = (Ok y, s')"
  using assms by (auto simp: sbind_def split: prod.splits result.splits)

lemma slift_Ok [simp]: "slift r s = (Ok x, s') \<longleftrightarrow> r = Ok x \<and> s' = s"
  by (auto simp: slift_def)

lemma serr_not_Ok [simp]: "serr e s \<noteq> (Ok x, s')"
  by (simp add: serr_def)

lemma sget_Ok [simp]: "sget f s = (Ok x, s') \<longleftrightarrow> x = f s \<and> s' = s"
  by (auto simp: sget_def)

lemma sret_Ok [simp]: "sret y s = (Ok x, s') \<longleftrightarrow> x = y \<and> s' = s"
  by (auto simp: sret_def)

lemma supd_Ok [simp]: "supd f s = (Ok x, s') \<longleftrightarrow> s' = f s"
  by (auto simp: supd_def)

lemma zoom_Ok: "zoom get upd m s = (Ok x, s') \<longleftrightarrow>
    (\<exists>t. m (get s) = (Ok x, t) \<and> s' = upd (\<lambda>_. t) s)"
  by (auto simp: zoom_def split: prod.splits)

lemma scatch_Ok: "scatch m s = (Ok r, s') \<longleftrightarrow> m s = (r, s') \<and> r \<noteq> Panic"
  by (auto simp: scatch_def split: prod.splits result.splits)

lemma sdrop_Ok: "sdrop m s = (Ok x, s') \<longleftrightarrow> (\<exists>r. m s = (r, s') \<and> r \<noteq> Panic)"
  by (auto simp: sdrop_def split: prod.splits result.splits)

text \<open>
  Triples: from a state with \<open>P\<close>, an operation that returns normally does so in a state and
  with a value that satisfy \<open>Q\<close>.
\<close>

definition triple :: "('s \<Rightarrow> bool) \<Rightarrow> ('s, 'a) op \<Rightarrow> ('a \<Rightarrow> 's \<Rightarrow> bool) \<Rightarrow> bool" where
  "triple P m Q \<longleftrightarrow> (\<forall>s x s'. P s \<longrightarrow> m s = (Ok x, s') \<longrightarrow> Q x s')"

lemma tripleI: "(\<And>s x s'. P s \<Longrightarrow> m s = (Ok x, s') \<Longrightarrow> Q x s') \<Longrightarrow> triple P m Q"
  by (auto simp: triple_def)

lemma tripleD: "triple P m Q \<Longrightarrow> P s \<Longrightarrow> m s = (Ok x, s') \<Longrightarrow> Q x s'"
  by (auto simp: triple_def)

lemma triple_conseq:
  assumes "triple P m Q" and "\<And>s. P' s \<Longrightarrow> P s" and "\<And>x s. Q x s \<Longrightarrow> Q' x s"
  shows "triple P' m Q'"
  using assms unfolding triple_def by blast

lemma triple_bind:
  assumes "triple P m R" and "\<And>x. triple (R x) (f x) Q"
  shows "triple P (sbind m f) Q"
  using assms
  by (fastforce simp: triple_def sbind_def split: prod.splits result.splits)

lemma triple_sret: "(\<And>s. P s \<Longrightarrow> Q x s) \<Longrightarrow> triple P (sret x) Q"
  by (simp add: triple_def sret_def)

lemma triple_serr: "triple P (serr e) Q"
  by (simp add: triple_def serr_def)

lemma triple_sget: "(\<And>s. P s \<Longrightarrow> Q (f s) s) \<Longrightarrow> triple P (sget f) Q"
  by (simp add: triple_def sget_def)

lemma triple_supd: "(\<And>s. P s \<Longrightarrow> Q () (f s)) \<Longrightarrow> triple P (supd f) Q"
  by (simp add: triple_def supd_def)

lemma triple_slift: "(\<And>s x. P s \<Longrightarrow> r = Ok x \<Longrightarrow> Q x s) \<Longrightarrow> triple P (slift r) Q"
  by (simp add: triple_def slift_def)

lemma triple_zoom:
  assumes "\<And>s. P s \<Longrightarrow> triple (\<lambda>t. t = get s) m (\<lambda>x t. Q x (upd (\<lambda>_. t) s))"
  shows "triple P (zoom get upd m) Q"
  using assms by (fastforce simp: triple_def zoom_Ok)

lemma triple_if:
  "(b \<Longrightarrow> triple P m Q) \<Longrightarrow> (\<not> b \<Longrightarrow> triple P m' Q) \<Longrightarrow> triple P (if b then m else m') Q"
  by simp

text \<open>
  Invariants: \<open>preserves I m\<close> when no outcome of \<open>m\<close>, an error or a panic included, leaves \<open>I\<close>;
  \<open>keeps f m\<close> when no outcome changes what \<open>f\<close> reads.
\<close>

definition preserves :: "('s \<Rightarrow> bool) \<Rightarrow> ('s, 'a) op \<Rightarrow> bool" where
  "preserves I m \<longleftrightarrow> (\<forall>s. I s \<longrightarrow> I (snd (m s)))"

definition keeps :: "('s \<Rightarrow> 'v) \<Rightarrow> ('s, 'a) op \<Rightarrow> bool" where
  "keeps f m \<longleftrightarrow> (\<forall>s. f (snd (m s)) = f s)"

lemma preservesD: "preserves I m \<Longrightarrow> I s \<Longrightarrow> m s = (r, s') \<Longrightarrow> I s'"
  by (auto simp: preserves_def)

lemma keepsD: "keeps f m \<Longrightarrow> m s = (r, s') \<Longrightarrow> f s' = f s"
  by (metis keeps_def snd_conv)

lemma keeps_preserves: "keeps f m \<Longrightarrow> preserves (\<lambda>s. I (f s)) m"
  by (simp add: preserves_def keeps_def)

lemma preserves_conj: "preserves I m \<Longrightarrow> preserves J m \<Longrightarrow> preserves (\<lambda>s. I s \<and> J s) m"
  by (simp add: preserves_def)

lemma preserves_effects [effects]:
  "preserves I (sret x)" "preserves I (serr e)" "preserves I (sget g)" "preserves I (slift r)"
  by (simp_all add: preserves_def sret_def serr_def sget_def slift_def)

lemma preserves_sbind [effects]:
  "preserves I m \<Longrightarrow> (\<And>x. preserves I (f x)) \<Longrightarrow> preserves I (sbind m f)"
  by (auto simp: preserves_def sbind_def split: prod.splits result.splits; force)

lemma preserves_wrap [effects]:
  "preserves I m \<Longrightarrow> preserves I (sdrop m)" "preserves I m \<Longrightarrow> preserves I (scatch m)"
  by (auto simp: preserves_def sdrop_def scatch_def split: prod.splits result.splits; force)+

lemma preserves_if: "preserves I m \<Longrightarrow> preserves I m' \<Longrightarrow> preserves I (if b then m else m')"
  by simp

lemma preserves_supd: "(\<And>s. I s \<Longrightarrow> I (g s)) \<Longrightarrow> preserves I (supd g)"
  by (simp add: preserves_def supd_def)

lemma keeps_effects [effects]:
  "keeps h (sret x)" "keeps h (serr e)" "keeps h (sget g)" "keeps h (slift r)"
  by (simp_all add: keeps_def sret_def serr_def sget_def slift_def)

lemma keeps_sbind [effects]:
  "keeps h m \<Longrightarrow> (\<And>x. keeps h (f x)) \<Longrightarrow> keeps h (sbind m f)"
  by (auto simp: keeps_def sbind_def split: prod.splits result.splits; metis snd_conv)

lemma keeps_wrap [effects]: "keeps h m \<Longrightarrow> keeps h (sdrop m)" "keeps h m \<Longrightarrow> keeps h (scatch m)"
  by (auto simp: keeps_def sdrop_def scatch_def split: prod.splits result.splits; metis snd_conv)+

lemma keeps_sfor [effects]: "(\<And>x. keeps h (f x)) \<Longrightarrow> keeps h (sfor f xs)"
  by (induction xs) (auto intro: effects)

lemma keeps_zoom: "(\<And>t s. h (upd (\<lambda>_. t) s) = h s) \<Longrightarrow> keeps h (zoom get upd m)"
  by (simp add: keeps_def zoom_def split: prod.split)

lemma preserves_zoom:
  assumes "preserves J m" and "\<And>s. I s \<Longrightarrow> J (get s)"
    and "\<And>t s. I s \<Longrightarrow> J t \<Longrightarrow> I (upd (\<lambda>_. t) s)"
  shows "preserves I (zoom get upd m)"
  using assms by (auto simp: preserves_def zoom_def split: prod.split; metis snd_conv)

lemma triple_preserves: "preserves I m \<Longrightarrow> triple I m (\<lambda>_. I)"
  by (auto simp: preserves_def triple_def; metis snd_conv)

text \<open>A loop keeps what its body keeps, with a ghost value that each round moves on.\<close>

lemma triple_sfor:
  assumes "\<And>x g. triple (I g) (f x) (\<lambda>_. I (step x g))"
  shows "triple (I g) (sfor f xs) (\<lambda>_. I (fold step xs g))"
proof (induction xs arbitrary: g)
  case Nil
  then show ?case by (simp add: triple_sret)
next
  case (Cons x xs)
  have "triple (I g) (sbind (f x) (\<lambda>_. sfor f xs)) (\<lambda>_. I (fold step xs (step x g)))"
    by (rule triple_bind [where R = "\<lambda>_. I (step x g)"]) (use assms Cons in auto)
  then show ?case by simp
qed

text \<open>A read that may fail.\<close>

definition sread :: "('s \<Rightarrow> 'a result) \<Rightarrow> ('s, 'a) op" where
  "sread f = sbind (sget f) slift"

lemma sread_eq: "sread f s = (f s, s)"
  by (auto simp: sread_def sbind_def sget_def slift_def)

lemma keeps_sread [effects]: "keeps h (sread f)"
  by (simp add: keeps_def sread_eq)

lemma preserves_sread [effects]: "preserves I (sread f)"
  by (simp add: preserves_def sread_eq)

end
