(* ===== verification/Partial.thy ===== *)
theory Partial
  imports Prelude
begin

text \<open>
  Calls that may not return.  The searches for a stored height and the interpreter of contracts loop on data that
  others provide; an outcome of \<open>None\<close> is a call that does not return.  The lemmas carry what a call keeps, what it
  re-establishes and that it returns over a sequence of calls.
\<close>

section \<open>Calls that may not return\<close>

type_synonym ('s, 'a) pop = "'s \<Rightarrow> ('a result \<times> 's) option"

definition pdo :: "('s, 'a) op \<Rightarrow> ('s, 'a) pop" where
  "pdo m s = Some (m s)"

definition pbind :: "('s, 'a) pop \<Rightarrow> ('a \<Rightarrow> ('s, 'b) pop) \<Rightarrow> ('s, 'b) pop" where
  "pbind m f s = (case m s of
     None \<Rightarrow> None
   | Some (Ok x, s') \<Rightarrow> f x s' | Some (Err e, s') \<Rightarrow> Some (Err e, s') | Some (Panic, s') \<Rightarrow> Some (Panic, s'))"

text \<open>A function without a result: an error of its body is an early return.\<close>

definition pvoid :: "('s, unit) pop \<Rightarrow> ('s, unit) pop" where
  "pvoid m s = (case m s of Some (Err e, s') \<Rightarrow> Some (Ok (), s') | r \<Rightarrow> r)"

lemma pbind_SomeE:
  assumes "pbind m f s = Some (Ok y, s')"
  obtains x t where "m s = Some (Ok x, t)" and "f x t = Some (Ok y, s')"
  using assms by (auto simp: pbind_def split: option.splits prod.splits result.splits)

lemma pbind_Some: "m s = Some (Ok x, s') \<Longrightarrow> pbind m f s = f x s'"
  by (simp add: pbind_def)

lemma pbind_pdo: "pbind (pdo m) f s = (case m s of
   (Ok x, s') \<Rightarrow> f x s' | (Err e, s') \<Rightarrow> Some (Err e, s') | (Panic, s') \<Rightarrow> Some (Panic, s'))"
  by (simp add: pbind_def pdo_def)

lemma pdo_Some [simp]: "pdo m s = Some r \<longleftrightarrow> m s = r"
  by (simp add: pdo_def)

section \<open>Frames\<close>

definition pkeeps :: "('s \<Rightarrow> 'v) \<Rightarrow> ('s, 'a) pop \<Rightarrow> bool" where
  "pkeeps f m \<longleftrightarrow> (\<forall>s r s'. m s = Some (r, s') \<longrightarrow> f s' = f s)"

lemma pkeeps_pdo [effects]: "keeps f m \<Longrightarrow> pkeeps f (pdo m)"
  unfolding pkeeps_def keeps_def by (metis pdo_Some snd_conv)

lemma pkeeps_pbind [effects]: "pkeeps f m \<Longrightarrow> (\<And>x. pkeeps f (g x)) \<Longrightarrow> pkeeps f (pbind m g)"
  unfolding pkeeps_def pbind_def by (auto split: option.splits prod.splits result.splits)

lemma pkeepsD: "pkeeps f m \<Longrightarrow> m s = Some (r, s') \<Longrightarrow> f s' = f s"
  by (auto simp: pkeeps_def)

section \<open>Calls that return\<close>

text \<open>
  \<open>returns I m\<close>: from a state in \<open>I\<close> the call returns, in a state in \<open>I\<close>.
\<close>

definition returns :: "('s \<Rightarrow> bool) \<Rightarrow> ('s, 'a) pop \<Rightarrow> bool" where
  "returns I m \<longleftrightarrow> (\<forall>s. I s \<longrightarrow> (\<exists>r s'. m s = Some (r, s') \<and> I s'))"

lemma returns_pdo [effects]: "preserves I m \<Longrightarrow> returns I (pdo m)"
  unfolding returns_def preserves_def by (metis pdo_Some surjective_pairing)

lemma returns_pbind [effects]:
  assumes "returns I m" and "\<And>x. returns I (f x)"
  shows "returns I (pbind m f)"
  unfolding returns_def
proof (intro allI impI)
  fix s assume "I s"
  then obtain r t where "m s = Some (r, t)" "I t" using assms(1) by (auto simp: returns_def)
  then show "\<exists>r s'. pbind m f s = Some (r, s') \<and> I s'"
    using assms(2) by (cases r) (auto simp: pbind_def returns_def)
qed

section \<open>Invariants\<close>

text \<open>\<open>pinv I m\<close>: no outcome of the call but a panic leaves \<open>I\<close>.\<close>

definition pinv :: "('s \<Rightarrow> bool) \<Rightarrow> ('s, 'a) pop \<Rightarrow> bool" where
  "pinv I m \<longleftrightarrow> (\<forall>s r s'. I s \<longrightarrow> m s = Some (r, s') \<longrightarrow> r \<noteq> Panic \<longrightarrow> I s')"

lemma pinv_pdo [effects]: "preserves I m \<Longrightarrow> pinv I (pdo m)"
  unfolding pinv_def preserves_def by (metis pdo_Some snd_conv)

lemma pinv_pbind [effects]:
  assumes "pinv I m" and "\<And>x. pinv I (f x)"
  shows "pinv I (pbind m f)"
  unfolding pinv_def
proof (intro allI impI)
  fix s r s' assume s: "I s" "pbind m f s = Some (r, s')" "r \<noteq> Panic"
  then obtain r1 t where t: "m s = Some (r1, t)" by (auto simp: pbind_def split: option.splits)
  with s have "r1 \<noteq> Panic" by (auto simp: pbind_def)
  with assms(1) s(1) t have "I t" by (auto simp: pinv_def)
  then show "I s'" using assms(2) s t by (cases r1) (auto simp: pbind_def pinv_def)
qed

lemma pinv_pvoid: "pinv I m \<Longrightarrow> pinv I (pvoid m)"
  unfolding pinv_def pvoid_def by (force split: option.splits prod.splits result.splits)

section \<open>Total specifications\<close>

text \<open>\<open>pspec P m Q\<close>: from a state in \<open>P\<close> the call returns, and if it succeeds then with a value and a state in \<open>Q\<close>.\<close>

definition pspec :: "('s \<Rightarrow> bool) \<Rightarrow> ('s, 'a) pop \<Rightarrow> ('a \<Rightarrow> 's \<Rightarrow> bool) \<Rightarrow> bool" where
  "pspec P m Q \<longleftrightarrow> (\<forall>s. P s \<longrightarrow> (\<exists>r s'. m s = Some (r, s') \<and> (\<forall>x. r = Ok x \<longrightarrow> Q x s')))"

lemma pspecI: "(\<And>s. P s \<Longrightarrow> \<exists>r s'. m s = Some (r, s') \<and> (\<forall>x. r = Ok x \<longrightarrow> Q x s')) \<Longrightarrow> pspec P m Q"
  by (simp add: pspec_def)

lemma pspecE:
  assumes "pspec P m Q" "P s"
  obtains r s' where "m s = Some (r, s')" "\<And>x. r = Ok x \<Longrightarrow> Q x s'"
  using assms unfolding pspec_def by blast

lemma pspec_conseq: "pspec P m Q \<Longrightarrow> (\<And>s. P' s \<Longrightarrow> P s) \<Longrightarrow> (\<And>x s. Q x s \<Longrightarrow> Q' x s) \<Longrightarrow> pspec P' m Q'"
  unfolding pspec_def by meson

lemma pspec_pdo: "triple P m Q \<Longrightarrow> pspec P (pdo m) Q"
  unfolding pspec_def triple_def pdo_def by (metis surjective_pairing)

lemma pspec_pbind:
  assumes "pspec P m R" and "\<And>x. pspec (R x) (f x) Q"
  shows "pspec P (pbind m f) Q"
proof (rule pspecI)
  fix s assume "P s"
  then obtain r t where t: "m s = Some (r, t)" "\<And>x. r = Ok x \<Longrightarrow> R x t"
    using assms(1) unfolding pspec_def by blast
  show "\<exists>r s'. pbind m f s = Some (r, s') \<and> (\<forall>x. r = Ok x \<longrightarrow> Q x s')"
  proof (cases r)
    case (Ok x)
    with t assms(2) [of x] show ?thesis by (auto simp: pbind_def pspec_def)
  qed (use t in \<open>auto simp: pbind_def\<close>)
qed

lemma pspec_pret: "(\<And>s. P s \<Longrightarrow> Q x s) \<Longrightarrow> pspec P (pdo (sret x)) Q"
  by (rule pspec_pdo, rule triple_sret)

end
