(* ===== verification/Common.thy ===== *)
theory Common
  imports Prelude
begin

text \<open>
  The package \<^verbatim>\<open>src/common\<close>: fixed-width integers as bytes, length-prefixed byte strings,
  addresses, hashes, keys and signatures (\<^verbatim>\<open>types.go\<close>, \<^verbatim>\<open>typeAddress.go\<close>, \<^verbatim>\<open>helper.go\<close>), the
  process-wide encryption configuration (\<^verbatim>\<open>types.go\<close>, \<^verbatim>\<open>const.go\<close>) and the addresses that
  stand for delegated accounts (\<^verbatim>\<open>helper.go\<close> and \<^verbatim>\<open>account/helper.go\<close>).  The 160-bit
  Blake2b digest is the argument \<open>H160\<close> of the definitions that use it.

  The lemmas invert every encoder by its decoder, and characterise exactly which addresses
  are delegated accounts.
\<close>

section \<open>Integers as bytes\<close>

definition GetByteInt32 :: "i32 \<Rightarrow> bytes" where
  "GetByteInt32 u = le_bytes 4 u"

definition GetByteInt16 :: "i16 \<Rightarrow> bytes" where
  "GetByteInt16 u = le_bytes 2 u"

definition GetByteInt64 :: "i64 \<Rightarrow> bytes" where
  "GetByteInt64 u = le_bytes 8 u"

definition GetByteUInt64 :: "i64 \<Rightarrow> bytes" where
  "GetByteUInt64 u = le_bytes 8 u"

text \<open>\<^verbatim>\<open>binary.LittleEndian.Uint64\<close> reads the first eight bytes and panics on fewer.\<close>

definition GetInt64FromByte :: "bytes \<Rightarrow> i64 result" where
  "GetInt64FromByte bs = (if length bs < 8 then Panic else Ok (le_word (take 8 bs)))"

definition GetInt32FromByte :: "bytes \<Rightarrow> i32 result" where
  "GetInt32FromByte bs = (if length bs < 4 then Panic else Ok (le_word (take 4 bs)))"

definition GetInt16FromByte :: "bytes \<Rightarrow> i16 result" where
  "GetInt16FromByte bs = (if length bs < 2 then Panic else Ok (le_word (take 2 bs)))"

lemma length_GetByteInt [simp]:
  "length (GetByteInt64 a) = 8" "length (GetByteInt32 b) = 4" "length (GetByteInt16 c) = 2"
  by (simp_all add: GetByteInt64_def GetByteInt32_def GetByteInt16_def)

lemma GetInt64FromByte_GetByteInt64 [simp, codec]:
  "GetInt64FromByte (GetByteInt64 a @ rest) = Ok a"
  by (simp add: GetInt64FromByte_def GetByteInt64_def le_word_le_bytes take_bit_word_full)

lemma GetInt32FromByte_GetByteInt32 [simp, codec]:
  "GetInt32FromByte (GetByteInt32 a @ rest) = Ok a"
  by (simp add: GetInt32FromByte_def GetByteInt32_def le_word_le_bytes take_bit_word_full)

lemma GetInt16FromByte_GetByteInt16 [simp, codec]:
  "GetInt16FromByte (GetByteInt16 a @ rest) = Ok a"
  by (simp add: GetInt16FromByte_def GetByteInt16_def le_word_le_bytes take_bit_word_full)

lemmas GetInt_GetByteInt [simp, codec] =
  GetInt64FromByte_GetByteInt64 [where rest = "[]", simplified]
  GetInt32FromByte_GetByteInt32 [where rest = "[]", simplified]
  GetInt16FromByte_GetByteInt16 [where rest = "[]", simplified]

lemma GetByteInt64_inj [simp]: "GetByteInt64 a = GetByteInt64 b \<longleftrightarrow> a = b"
  by (metis GetInt64FromByte_GetByteInt64 result.inject(1))

section \<open>Length-prefixed byte strings\<close>

definition BytesToLenAndBytes :: "bytes \<Rightarrow> bytes" where
  "BytesToLenAndBytes b = be_bytes 4 (word_of_nat (length b) :: i32) @ b"

definition BytesWithLenToBytes :: "bytes \<Rightarrow> (bytes \<times> bytes) result" where
  "BytesWithLenToBytes b =
     (if length b < 4 then Err ''input byte slice is too short''
      else let lb = unat (be_word (take 4 b) :: i32) in
        if int lb > int (length b) - 4 then Err ''length value in byte slice is incorrect''
        else Ok (take lb (drop 4 b), drop (4 + lb) b))"

lemma length_BytesToLenAndBytes [simp]: "length (BytesToLenAndBytes b) = 4 + length b"
  by (simp add: BytesToLenAndBytes_def)

lemma BytesWithLenToBytes_BytesToLenAndBytes [simp, codec]:
  assumes "length b < 2 ^ 32"
  shows "BytesWithLenToBytes (BytesToLenAndBytes b @ rest) = Ok (b, rest)"
proof -
  have "unat (be_word (be_bytes 4 (word_of_nat (length b) :: i32)) :: i32) = length b"
    using assms
    by (simp add: be_word_be_bytes take_bit_word_full unsigned_of_nat take_bit_nat_eq_self)
  then show ?thesis
    by (simp add: BytesWithLenToBytes_def BytesToLenAndBytes_def)
qed

lemmas BytesWithLenToBytes_BytesToLenAndBytes_nil [simp, codec] =
  BytesWithLenToBytes_BytesToLenAndBytes [where rest = "[]", simplified]

text \<open>What a successful decoding consumed: the input is the prefix, the payload and the rest.\<close>

lemma BytesWithLenToBytes_OkD:
  assumes "BytesWithLenToBytes b = Ok (v, rest)"
  shows "length v < 2 ^ 32 \<and> length b = 4 + length v + length rest \<and> drop 4 b = v @ rest"
proof -
  define lb where "lb = unat (be_word (take 4 b) :: i32)"
  have "lb < 2 ^ 32" unfolding lb_def
    using unsigned_less [of "be_word (take 4 b) :: i32", where 'a = nat] by simp
  moreover have "4 \<le> length b" "int lb \<le> int (length b) - 4"
    "v = take lb (drop 4 b)" "rest = drop (4 + lb) b"
    using assms by (auto simp: BytesWithLenToBytes_def Let_def lb_def split: if_splits)
  moreover have "drop 4 b = take lb (drop 4 b) @ drop (4 + lb) b"
    by (metis append_take_drop_id drop_drop add.commute)
  ultimately show ?thesis by (auto simp: add.commute)
qed

definition BoolToByte :: "bool \<Rightarrow> byte" where
  "BoolToByte b = (if b then 1 else 0)"

fun ContainsKey :: "string list \<Rightarrow> string \<Rightarrow> bool" where
  "ContainsKey [] searchKey = False"
| "ContainsKey (key # keys) searchKey =
     (if key = searchKey then True else ContainsKey keys searchKey)"

lemma ContainsKey_iff: "ContainsKey keys k \<longleftrightarrow> k \<in> set keys"
  by (induction keys) auto

section \<open>Hashes\<close>

definition AddressLength :: nat where "AddressLength = 20"
definition HashLength :: nat where "HashLength = 32"

lemmas lengths [simp] = AddressLength_def HashLength_def

type_synonym hash = bytes
type_synonym addr20 = bytes

definition EmptyHash :: hash where
  "EmptyHash = replicate 32 0"

definition Hash_Set :: "hash \<Rightarrow> bytes \<Rightarrow> hash" where
  "Hash_Set h b = copy_into h b"

definition GetHashFromBytes :: "bytes \<Rightarrow> hash" where
  "GetHashFromBytes b = Hash_Set EmptyHash b"

lemma length_EmptyHash [simp]: "length EmptyHash = 32"
  by (simp add: EmptyHash_def)

lemma length_GetHashFromBytes [simp]: "length (GetHashFromBytes b) = 32"
  by (simp add: GetHashFromBytes_def Hash_Set_def)

lemma GetHashFromBytes_id [simp, codec]: "length b = 32 \<Longrightarrow> GetHashFromBytes b = b"
  by (simp add: GetHashFromBytes_def Hash_Set_def)

section \<open>Addresses\<close>

record Address =
  addr_ByteValue :: addr20
  addr_Primary :: bool

text \<open>The zero value of the struct, and the address \<^verbatim>\<open>EmptyAddress()\<close> builds.\<close>

definition zero_Address :: Address where
  "zero_Address = \<lparr>addr_ByteValue = replicate 20 0, addr_Primary = False\<rparr>"

definition Address_ok :: "Address \<Rightarrow> bool" where
  "Address_ok a \<longleftrightarrow> length (addr_ByteValue a) = AddressLength"

definition Address_Init :: "Address \<Rightarrow> bytes \<Rightarrow> Address result" where
  "Address_Init a b =
     (if length b \<noteq> AddressLength \<and> length b \<noteq> AddressLength + 1
      then Err ''error Address initialization with wrong length''
      else if length b = AddressLength + 1
      then Ok \<lparr>addr_ByteValue = copy_into (addr_ByteValue a) (tl b), addr_Primary = (hd b = 0)\<rparr>
      else Ok \<lparr>addr_ByteValue = copy_into (addr_ByteValue a) b, addr_Primary = True\<rparr>)"

definition BytesToAddress :: "bytes \<Rightarrow> Address result" where
  "BytesToAddress b = Address_Init zero_Address b"

definition GetBytesWithPrimary :: "Address \<Rightarrow> bytes" where
  "GetBytesWithPrimary a = (if \<not> addr_Primary a then [1] else [0]) @ addr_ByteValue a"

definition PubKeyToAddress :: "(bytes \<Rightarrow> bytes) \<Rightarrow> bytes \<Rightarrow> bool \<Rightarrow> Address result" where
  "PubKeyToAddress H160 pb primary =
     BytesToAddress ((if \<not> primary then [1] else [0]) @ H160 pb)"

definition EmptyAddress :: Address where
  "EmptyAddress = (case Address_Init zero_Address (replicate (AddressLength + 1) 0) of
     Ok a \<Rightarrow> a | _ \<Rightarrow> zero_Address)"

lemma EmptyAddress_eq:
  "EmptyAddress = \<lparr>addr_ByteValue = replicate 20 0, addr_Primary = True\<rparr>"
  by (simp add: EmptyAddress_def Address_Init_def zero_Address_def copy_into_def)

lemma Address_ok_zero [simp]: "Address_ok zero_Address"
  by (simp add: Address_ok_def zero_Address_def)

lemma length_GetBytesWithPrimary [simp]:
  "Address_ok a \<Longrightarrow> length (GetBytesWithPrimary a) = 21"
  by (simp add: GetBytesWithPrimary_def Address_ok_def)

lemma BytesToAddress_ok: "BytesToAddress b = Ok a \<Longrightarrow> Address_ok a"
  by (auto simp: BytesToAddress_def Address_Init_def Address_ok_def zero_Address_def
      split: if_splits)

lemma BytesToAddress_GetBytesWithPrimary [simp, codec]:
  assumes "Address_ok a"
  shows "BytesToAddress (GetBytesWithPrimary a) = Ok a"
  using assms
  by (cases a) (auto simp: BytesToAddress_def Address_Init_def GetBytesWithPrimary_def
      Address_ok_def zero_Address_def)

lemma Address_Init_GetBytesWithPrimary [simp, codec]:
  assumes "Address_ok a" and "Address_ok z"
  shows "Address_Init z (GetBytesWithPrimary a) = Ok a"
  using assms by (cases a) (auto simp: Address_Init_def GetBytesWithPrimary_def Address_ok_def)

text \<open>Twenty bytes carry no flag, so decoding them always gives a primary address.\<close>

lemma BytesToAddress_ByteValue [simp, codec]:
  assumes "Address_ok a"
  shows "BytesToAddress (addr_ByteValue a) = Ok (a\<lparr>addr_Primary := True\<rparr>)"
  using assms
  by (cases a) (auto simp: BytesToAddress_def Address_Init_def Address_ok_def zero_Address_def)

lemma PubKeyToAddress_Ok:
  assumes "length (H160 pb) = AddressLength"
  shows "PubKeyToAddress H160 pb primary =
    Ok \<lparr>addr_ByteValue = H160 pb, addr_Primary = primary\<rparr>"
  using assms by (simp add: PubKeyToAddress_def BytesToAddress_def Address_Init_def zero_Address_def)

section \<open>The encryption configuration\<close>

text \<open>
  One process-wide value holds the parameters of the two signature schemes.  Its getters and
  setters hold a mutex for their whole body, so each is one atomic step.
\<close>

record EncryptionConfig =
  pubKeyLength :: i32
  privateKeyLength :: i32
  signatureLength :: i32
  sigName :: string
  isPaused :: i32
  pubKeyLength2 :: i32
  privateKeyLength2 :: i32
  signatureLength2 :: i32
  sigName2 :: string
  isPaused2 :: i32

definition initEncryptionConfigInstance :: EncryptionConfig where
  "initEncryptionConfigInstance =
     \<lparr>pubKeyLength = 897, privateKeyLength = 1281, signatureLength = 752,
      sigName = ''Falcon-512'', isPaused = 0,
      pubKeyLength2 = 5554, privateKeyLength2 = 40, signatureLength2 = 964,
      sigName2 = ''MAYO-5'', isPaused2 = 0\<rparr>"

definition SetEncryption ::
  "string \<Rightarrow> int \<Rightarrow> int \<Rightarrow> int \<Rightarrow> bool \<Rightarrow> bool \<Rightarrow> EncryptionConfig \<Rightarrow> EncryptionConfig" where
  "SetEncryption name pubLen privLen sigLen paused primary ec =
     (if primary
      then ec\<lparr>sigName := name, pubKeyLength := word_of_int pubLen,
        privateKeyLength := word_of_int privLen, signatureLength := word_of_int sigLen,
        isPaused := (if paused then 1 else 0)\<rparr>
      else ec\<lparr>sigName2 := name, pubKeyLength2 := word_of_int pubLen,
        privateKeyLength2 := word_of_int privLen, signatureLength2 := word_of_int sigLen,
        isPaused2 := (if paused then 1 else 0)\<rparr>)"

definition SetIsPaused :: "bool \<Rightarrow> bool \<Rightarrow> EncryptionConfig \<Rightarrow> EncryptionConfig" where
  "SetIsPaused paused primary ec =
     (if primary then ec\<lparr>isPaused := (if paused then 1 else 0)\<rparr>
      else ec\<lparr>isPaused2 := (if paused then 1 else 0)\<rparr>)"

definition IsPaused :: "EncryptionConfig \<Rightarrow> bool" where
  "IsPaused ec = (isPaused ec = 1)"

definition IsPaused2 :: "EncryptionConfig \<Rightarrow> bool" where
  "IsPaused2 ec = (isPaused2 ec = 1)"

definition PubKeyLength :: "EncryptionConfig \<Rightarrow> int" where
  "PubKeyLength ec = sint (pubKeyLength ec)"

definition PubKeyLength2 :: "EncryptionConfig \<Rightarrow> int" where
  "PubKeyLength2 ec = sint (pubKeyLength2 ec)"

definition PrivateKeyLength :: "EncryptionConfig \<Rightarrow> int" where
  "PrivateKeyLength ec = sint (privateKeyLength ec)"

definition PrivateKeyLength2 :: "EncryptionConfig \<Rightarrow> int" where
  "PrivateKeyLength2 ec = sint (privateKeyLength2 ec)"

definition SignatureLength :: "EncryptionConfig \<Rightarrow> int" where
  "SignatureLength ec = sint (signatureLength ec)"

definition SignatureLength2 :: "EncryptionConfig \<Rightarrow> int" where
  "SignatureLength2 ec = sint (signatureLength2 ec)"

text \<open>
  Which of the two keys signs: \<open>coin\<close> is the bit \<^verbatim>\<open>rand.Intn(2) == 0\<close> of this call and
  \<open>nodeSignPrimary\<close> the configured preference.
\<close>

definition GetNodeSignPrimary :: "EncryptionConfig \<Rightarrow> bool \<Rightarrow> bool \<Rightarrow> i64 \<Rightarrow> bool" where
  "GetNodeSignPrimary ec nodeSignPrimary coin height =
     (if height = 0 then True
      else if \<not> IsPaused ec \<and> \<not> IsPaused2 ec then coin
      else if nodeSignPrimary \<and> \<not> IsPaused ec then True
      else if \<not> nodeSignPrimary \<and> \<not> IsPaused2 ec then False
      else if \<not> IsPaused ec then True
      else if \<not> IsPaused2 ec then False
      else True)"

section \<open>Keys and signatures\<close>

record PubKey =
  pk_ByteValue :: bytes
  pk_Address :: Address
  pk_MainAddress :: Address
  pk_Primary :: bool

definition zero_PubKey :: PubKey where
  "zero_PubKey = \<lparr>pk_ByteValue = [], pk_Address = zero_Address, pk_MainAddress = zero_Address,
     pk_Primary = False\<rparr>"

definition PubKey_Init ::
  "(bytes \<Rightarrow> bytes) \<Rightarrow> EncryptionConfig \<Rightarrow> bytes \<Rightarrow> Address \<Rightarrow> PubKey result" where
  "PubKey_Init H160 ec b mainAddress =
     (if int (length b) \<noteq> PubKeyLength ec \<and> int (length b) \<noteq> PubKeyLength2 ec
         \<and> isPaused ec = 0 \<and> isPaused2 ec = 0
      then Err ''error Pubkey initialization with wrong length''
      else let primary = (int (length b) = PubKeyLength ec) in
        rbind (PubKeyToAddress H160 b primary) (\<lambda>addr.
          Ok \<lparr>pk_ByteValue = b, pk_Address = addr, pk_MainAddress = mainAddress,
              pk_Primary = primary\<rparr>))"

record PrivKey =
  sk_ByteValue :: bytes
  sk_Address :: Address
  sk_Primary :: bool

definition PrivKey_Init :: "EncryptionConfig \<Rightarrow> bytes \<Rightarrow> Address \<Rightarrow> PrivKey result" where
  "PrivKey_Init ec b address =
     (if int (length b) \<noteq> PrivateKeyLength ec \<and> int (length b) \<noteq> PrivateKeyLength2 ec
         \<and> isPaused ec = 0 \<and> isPaused2 ec = 0
      then Err ''error Private key initialization with wrong length''
      else Ok \<lparr>sk_ByteValue = b, sk_Address = address,
        sk_Primary = (int (length b) = PrivateKeyLength ec)\<rparr>)"

record Signature =
  sig_ByteValue :: bytes
  sig_Address :: Address
  sig_Primary :: bool

definition zero_Signature :: Signature where
  "zero_Signature = \<lparr>sig_ByteValue = [], sig_Address = zero_Address, sig_Primary = False\<rparr>"

definition Signature_Init :: "EncryptionConfig \<Rightarrow> bytes \<Rightarrow> Address \<Rightarrow> Signature result" where
  "Signature_Init ec b address =
     (if length b = 0 then Err ''error Signature initialization with wrong length''
      else let primary = (hd b = 0) in
        if primary \<and> int (length b) > SignatureLength ec + 1
        then Err ''error Signature initialization with wrong length''
        else if \<not> primary \<and> int (length b) > SignatureLength2 ec + 1
        then Err ''error Signature 2 initialization with wrong length''
        else Ok \<lparr>sig_ByteValue = b, sig_Address = address, sig_Primary = primary\<rparr>)"

definition GetSignatureFromBytes :: "EncryptionConfig \<Rightarrow> bytes \<Rightarrow> Address \<Rightarrow> Signature result" where
  "GetSignatureFromBytes ec b address = Signature_Init ec b address"

definition EmptySignature :: "EncryptionConfig \<Rightarrow> Signature" where
  "EmptySignature ec =
     (case Signature_Init ec (replicate (nat (SignatureLength ec + 1)) 0) EmptyAddress of
        Ok s \<Rightarrow> s | _ \<Rightarrow> zero_Signature)"

text \<open>
  A signature value that \<^verbatim>\<open>Init\<close> can have produced: its bytes are not empty, fit the scheme
  that the first byte names, and the flag agrees with that byte.
\<close>

definition Signature_ok :: "EncryptionConfig \<Rightarrow> Signature \<Rightarrow> bool" where
  "Signature_ok ec s \<longleftrightarrow> sig_ByteValue s \<noteq> [] \<and> sig_Primary s = (hd (sig_ByteValue s) = 0) \<and>
     int (length (sig_ByteValue s)) \<le>
       (if sig_Primary s then SignatureLength ec else SignatureLength2 ec) + 1"

lemma GetSignatureFromBytes_Ok [simp, codec]:
  assumes "Signature_ok ec s" and "sig_Address s = a"
  shows "GetSignatureFromBytes ec (sig_ByteValue s) a = Ok s"
  using assms by (cases s) (auto simp: GetSignatureFromBytes_def Signature_Init_def
      Signature_ok_def Let_def split: if_splits)

lemma Signature_Init_ok: "Signature_Init ec b a = Ok s \<Longrightarrow> Signature_ok ec s"
  by (auto simp: Signature_Init_def Signature_ok_def Let_def split: if_splits)

section \<open>Addresses of delegated accounts\<close>

text \<open>\<^verbatim>\<open>panic(err)\<close> on a failed \<^verbatim>\<open>Init\<close> cannot happen: the slice has 20 bytes.\<close>

definition GetDelegatedAccountAddress :: "i16 \<Rightarrow> Address result" where
  "GetDelegatedAccountAddress n =
     (case Address_Init zero_Address (be_bytes 2 n @ replicate (AddressLength - 2) 0) of
        Ok a \<Rightarrow> Ok a | _ \<Rightarrow> Panic)"

definition GetIDFromDelegatedAccountAddress :: "Address \<Rightarrow> i16 result" where
  "GetIDFromDelegatedAccountAddress a =
     rbind (slice (addr_ByteValue a) 0 2) (\<lambda>b. Ok (be_word b))"

definition NumericalDelegatedAccountAddress :: "Address \<Rightarrow> i16 result" where
  "NumericalDelegatedAccountAddress daddr =
     (case GetIDFromDelegatedAccountAddress daddr of
        Ok n \<Rightarrow> Ok (if sint n > 0 \<and> sint n < 256 then n else 0)
      | Err e \<Rightarrow> Ok 0 | Panic \<Rightarrow> Panic)"

text \<open>
  \<^verbatim>\<open>account.IntDelegatedAccountFromAddress\<close> returns the number together with its error, and
  callers look at the number even after an error, when it is \<open>-1\<close>.
\<close>

definition IntDelegatedAccountFromAddress :: "Address \<Rightarrow> (int \<times> string option) result" where
  "IntDelegatedAccountFromAddress a =
     (if length (addr_ByteValue a) < 2 then Panic
      else let n = (be_word (take 2 (addr_ByteValue a)) :: i16) in
        if uint n < 1 then Ok (-1, Some ''this is not correct delegated account'')
        else if \<exists>b \<in> set (drop 2 (addr_ByteValue a)). b \<noteq> 0
        then Ok (-1, Some ''this is not correct delegated account'')
        else rbind (GetDelegatedAccountAddress n) (\<lambda>da.
          if addr_ByteValue da = addr_ByteValue a then Ok (uint n, None)
          else Ok (-1, Some ''wrongly formated delegated account'')))"

definition GetDexAccountAddress :: Address where
  "GetDexAccountAddress =
     \<lparr>addr_ByteValue = [0x01, 0x23, 0x45, 0x67, 0x89, 0x01, 0x23, 0x45, 0x67, 0x89,
        0x01, 0x23, 0x45, 0x67, 0x89, 0x01, 0x23, 0x45, 0x67, 0x89], addr_Primary = True\<rparr>"

lemma GetDelegatedAccountAddress_Ok:
  "GetDelegatedAccountAddress n =
     Ok \<lparr>addr_ByteValue = be_bytes 2 n @ replicate 18 0, addr_Primary = True\<rparr>"
  by (simp add: GetDelegatedAccountAddress_def Address_Init_def zero_Address_def)

lemma GetIDFromDelegatedAccountAddress_inverse [simp, codec]:
  "rbind (GetDelegatedAccountAddress n) GetIDFromDelegatedAccountAddress = Ok n"
  by (simp add: GetDelegatedAccountAddress_Ok GetIDFromDelegatedAccountAddress_def
      slice_def be_word_be_bytes take_bit_word_full)

text \<open>The bytes of a two-byte word determine it, so they rebuild the first two bytes.\<close>

lemma be_bytes_2_be_word:
  assumes "length b = 2"
  shows "be_bytes 2 (be_word b :: i16) = b"
  using be_bytes_be_word [of b, where 'a = 16] assms by simp

definition is_delegated :: "Address \<Rightarrow> int \<Rightarrow> bool" where
  "is_delegated a n \<longleftrightarrow> 1 \<le> n \<and> n < 65536 \<and>
     addr_ByteValue a = be_bytes 2 (word_of_int n :: i16) @ replicate 18 0"

lemma all_zero_replicate: "(\<forall>b \<in> set xs. b = z) \<longleftrightarrow> xs = replicate (length xs) z"
  by (metis in_set_replicate replicate_length_same)

lemma IntDelegatedAccountFromAddress_cases:
  assumes "Address_ok a"
  shows "(\<exists>n. is_delegated a n \<and> IntDelegatedAccountFromAddress a = Ok (n, None)) \<or>
    ((\<nexists>n. is_delegated a n) \<and> (\<exists>e. IntDelegatedAccountFromAddress a = Ok (-1, Some e)))"
proof -
  let ?b = "addr_ByteValue a"
  let ?n = "be_word (take 2 ?b) :: i16"
  have len: "length ?b = 20" using assms by (simp add: Address_ok_def)
  have split: "?b = be_bytes 2 ?n @ drop 2 ?b"
    using len by (simp add: be_bytes_2_be_word)
  have zeros: "(\<forall>b \<in> set (drop 2 ?b). b = 0) \<longleftrightarrow> drop 2 ?b = replicate 18 0"
    using len all_zero_replicate [of "drop 2 ?b" 0] by simp
  have uniq: "is_delegated a n \<Longrightarrow> n = uint ?n \<and> drop 2 ?b = replicate 18 0" for n
    by (auto simp: is_delegated_def be_word_be_bytes take_bit_word_full uint_word_of_int)
  have b16: "uint ?n < 65536" using unsigned_less [of ?n, where 'a = int] by simp
  show ?thesis
  proof (cases "1 \<le> uint ?n \<and> drop 2 ?b = replicate 18 0")
    case True
    then have del: "is_delegated a (uint ?n)"
      using split b16 by (simp add: is_delegated_def)
    have eq: "be_bytes 2 ?n @ replicate 18 0 = ?b" using split True by simp
    have "IntDelegatedAccountFromAddress a = Ok (uint ?n, None)"
      using True len zeros eq
      by (auto simp: IntDelegatedAccountFromAddress_def GetDelegatedAccountAddress_Ok Let_def)
    with del show ?thesis by blast
  next
    case False
    then have "\<nexists>n. is_delegated a n" using uniq by (auto simp: is_delegated_def)
    moreover have "\<exists>e. IntDelegatedAccountFromAddress a = Ok (-1, Some e)"
      using False len zeros by (auto simp: IntDelegatedAccountFromAddress_def Let_def)
    ultimately show ?thesis by blast
  qed
qed

lemma is_delegated_unique:
  assumes "is_delegated a n" and "is_delegated a m"
  shows "n = m"
proof -
  have "be_word (be_bytes 2 (word_of_int n :: i16)) = (be_word (be_bytes 2 (word_of_int m :: i16)) :: i16)"
    using assms by (auto simp: is_delegated_def)
  then have "(word_of_int n :: i16) = word_of_int m"
    by (simp add: be_word_be_bytes take_bit_word_full)
  then have "uint (word_of_int n :: i16) = uint (word_of_int m :: i16)" by simp
  with assms show ?thesis by (simp add: is_delegated_def uint_word_of_int)
qed

lemma IntDelegatedAccountFromAddress_None_iff:
  assumes "Address_ok a"
  shows "IntDelegatedAccountFromAddress a = Ok (n, None) \<longleftrightarrow> is_delegated a n"
  using IntDelegatedAccountFromAddress_cases [OF assms] is_delegated_unique by fastforce

section \<open>Properties\<close>

text \<open>
  \<^verbatim>\<open>BytesWithLenToBytes\<close> accepts exactly the strings that \<^verbatim>\<open>BytesToLenAndBytes\<close> writes, with
  anything after them, and splits them into the payload and what follows: the encoding is
  unambiguous, and every other input is an error and not a wrong value.
\<close>

lemma BytesWithLenToBytes_iff:
  "BytesWithLenToBytes b = Ok (v, rest) \<longleftrightarrow> length v < 2 ^ 32 \<and> b = BytesToLenAndBytes v @ rest"
proof
  assume dec: "BytesWithLenToBytes b = Ok (v, rest)"
  note D = BytesWithLenToBytes_OkD [OF dec]
  let ?w = "be_word (take 4 b) :: i32"
  have l4: "4 \<le> length b" using D by simp
  obtain lb where lb: "lb = unat ?w" by simp
  have "v = take lb (drop 4 b)" and "int lb \<le> int (length b) - 4"
    using dec by (auto simp: BytesWithLenToBytes_def Let_def lb split: if_splits)
  then have "length v = unat ?w" using l4 by (simp add: lb [symmetric])
  then have "(word_of_nat (length v) :: i32) = ?w" by simp
  moreover have "be_bytes 4 ?w = take 4 b"
    using be_bytes_be_word [of "take 4 b", where 'a = 32] l4 by (simp add: min_absorb2)
  ultimately have "BytesToLenAndBytes v @ rest = take 4 b @ drop 4 b"
    using D by (simp add: BytesToLenAndBytes_def)
  then have "b = BytesToLenAndBytes v @ rest" by (simp only: append_take_drop_id)
  then show "length v < 2 ^ 32 \<and> b = BytesToLenAndBytes v @ rest" using D by simp
qed simp

text \<open>
  an address is decoded as delegated account \<open>n\<close>, with no error, exactly when it is the
  address that \<^verbatim>\<open>GetDelegatedAccountAddress\<close> builds for that number and the number is one of
  1 to 65535; every other address gives the number -1 and an error, and no address panics.
\<close>

lemma IntDelegatedAccountFromAddress_exact:
  assumes "Address_ok a"
  shows "(\<exists>n. 1 \<le> n \<and> n < 65536 \<and> IntDelegatedAccountFromAddress a = Ok (n, None) \<and>
      (\<exists>da. GetDelegatedAccountAddress (word_of_int n) = Ok da \<and> addr_ByteValue da = addr_ByteValue a))
    \<or> (\<exists>e. IntDelegatedAccountFromAddress a = Ok (-1, Some e) \<and>
      (\<forall>n da. GetDelegatedAccountAddress n = Ok da \<and> addr_ByteValue da = addr_ByteValue a \<longrightarrow> n = 0))"
  using IntDelegatedAccountFromAddress_cases [OF assms]
proof (elim disjE exE conjE)
  fix n
  assume "is_delegated a n" "IntDelegatedAccountFromAddress a = Ok (n, None)"
  then show ?thesis by (auto simp: is_delegated_def GetDelegatedAccountAddress_Ok)
next
  fix e
  assume none: "\<nexists>n. is_delegated a n" and r: "IntDelegatedAccountFromAddress a = Ok (-1, Some e)"
  have "n = 0" if "addr_ByteValue a = be_bytes 2 n @ replicate 18 0" for n :: i16
  proof (rule ccontr)
    assume "n \<noteq> 0"
    then have "uint n \<noteq> 0" by (simp add: uint_0_iff)
    then have "1 \<le> uint n" using uint_nonnegative [of n] by linarith
    moreover have "uint n < 65536" using unsigned_less [of n, where 'a = int] by simp
    ultimately have "is_delegated a (uint n)" using that by (simp add: is_delegated_def)
    with none show False by blast
  qed
  with r show ?thesis by (auto simp: GetDelegatedAccountAddress_Ok)
qed

lemma IntDelegatedAccountFromAddress_exact_example:
  "\<exists>a. GetDelegatedAccountAddress 5 = Ok a \<and> Address_ok a \<and>
    (\<exists>n. IntDelegatedAccountFromAddress a = Ok (n, None))"
proof -
  let ?a = "\<lparr>addr_ByteValue = be_bytes 2 (5 :: i16) @ replicate 18 0, addr_Primary = True\<rparr>"
  have da: "GetDelegatedAccountAddress 5 = Ok ?a" by (rule GetDelegatedAccountAddress_Ok)
  moreover have ok: "Address_ok ?a" by (simp add: Address_ok_def)
  moreover have "\<exists>n. IntDelegatedAccountFromAddress ?a = Ok (n, None)"
    using IntDelegatedAccountFromAddress_exact [OF ok] da by fastforce
  ultimately show ?thesis by blast
qed

text \<open>
  After the first block a node signs with a scheme that is not paused whenever one of the two
  is live, whatever its configured preference and the random choice were.
\<close>

lemma GetNodeSignPrimary_live:
  assumes "height \<noteq> 0" and "\<not> (IsPaused ec \<and> IsPaused2 ec)"
  shows "if GetNodeSignPrimary ec pref coin height then \<not> IsPaused ec else \<not> IsPaused2 ec"
  using assms by (auto simp: GetNodeSignPrimary_def)

lemma GetNodeSignPrimary_live_example:
  "GetNodeSignPrimary (SetIsPaused True True initEncryptionConfigInstance) True True 7 = False"
  using GetNodeSignPrimary_live [of 7 "SetIsPaused True True initEncryptionConfigInstance" True True]
  by (auto simp: SetIsPaused_def IsPaused_def IsPaused2_def initEncryptionConfigInstance_def)

end
