(* ===== verification/Database.thy ===== *)
theory Database
  imports Common
begin

text \<open>
  The package \<^verbatim>\<open>src/database\<close>: the wrapper \<^verbatim>\<open>BlockchainDB\<close> around RocksDB, and the loops
  that look for the last height stored under a family of keys, which five packages repeat.

  RocksDB itself is third-party code.  It is the argument \<open>K\<close> of the definitions: its three
  calls on a handle of some type \<open>'d\<close>.  The locale \<open>rocksdb\<close> states what the node relies on,
  that a get returns what was last put and not deleted; \<open>mem_kv\<close> is a handle that keeps
  its promises, used in the witnesses.  The handle is open: closing the database is not modelled.
\<close>

section \<open>RocksDB\<close>

record 'd kv =
  kv_put :: "bytes \<Rightarrow> bytes \<Rightarrow> 'd \<Rightarrow> unit result \<times> 'd"
  kv_get :: "bytes \<Rightarrow> 'd \<Rightarrow> bytes option result"
  kv_delete :: "bytes \<Rightarrow> 'd \<Rightarrow> unit result \<times> 'd"

section \<open>The wrapper\<close>

definition DB_Put :: "'d kv \<Rightarrow> bytes \<Rightarrow> bytes \<Rightarrow> 'd \<Rightarrow> unit result \<times> 'd" where
  "DB_Put K k v d = (if length k = 0 then (Err ''key cannot be empty'', d) else kv_put K k v d)"

definition DB_Get :: "'d kv \<Rightarrow> bytes \<Rightarrow> 'd \<Rightarrow> bytes result" where
  "DB_Get K key d = rbind (kv_get K key d) (\<lambda>value.
     case value of None \<Rightarrow> Err ''key not found'' | Some data \<Rightarrow> Ok data)"

definition DB_IsKey :: "'d kv \<Rightarrow> bytes \<Rightarrow> 'd \<Rightarrow> bool result" where
  "DB_IsKey K key d = (if length key = 0 then Err ''key cannot be empty''
     else rbind (kv_get K key d) (\<lambda>value. Ok (value \<noteq> None)))"

definition DB_Delete :: "'d kv \<Rightarrow> bytes \<Rightarrow> 'd \<Rightarrow> unit result \<times> 'd" where
  "DB_Delete K key d = (if length key = 0 then (Err ''key cannot be empty'', d)
     else kv_delete K key d)"

section \<open>The last stored height\<close>

text \<open>
  \<^verbatim>\<open>for { isKey, err := db.IsKey(mk(i)); if err ... ; if !isKey break; i++ }; return i - 1\<close>.
  \<open>None\<close> is a loop that never leaves.  The error is returned beside the height.
\<close>

partial_function (option) last_height_loop ::
  "'d kv \<Rightarrow> (i64 \<Rightarrow> bytes) \<Rightarrow> i64 \<Rightarrow> 'd \<Rightarrow> (i64 \<times> string option) result option" where
  "last_height_loop K mk i d =
     (case DB_IsKey K (mk i) d of
        Err e \<Rightarrow> Some (Ok (i - 1, Some e))
      | Panic \<Rightarrow> Some Panic
      | Ok isKey \<Rightarrow> if \<not> isKey then Some (Ok (i - 1, None)) else last_height_loop K mk (i + 1) d)"

definition AccountsDBPrefix :: bytes where "AccountsDBPrefix = [0x41, 0x43]"
definition StakingAccountsDBPrefix :: bytes where "StakingAccountsDBPrefix = [0x53, 0x41]"
definition DexAccountsDBPrefix :: bytes where "DexAccountsDBPrefix = [0x44, 0x41]"
definition BlocksDBPrefix :: bytes where "BlocksDBPrefix = [0x42, 0x49]"
definition BlockByHeightDBPrefix :: bytes where "BlockByHeightDBPrefix = [0x42, 0x48]"
definition MerkleNodeDBPrefix :: bytes where "MerkleNodeDBPrefix = [0x4E, 0x4E]"
definition RootHashMerkleTreeDBPrefix :: bytes where "RootHashMerkleTreeDBPrefix = [0x52, 0x52]"
definition TransactionsHashesByHeightDBPrefix :: bytes where
  "TransactionsHashesByHeightDBPrefix = [0x52, 0x48]"
definition TransactionDBPrefix :: bytes where "TransactionDBPrefix = [0x54, 0x54]"
definition TransactionPoolHashesDBPrefix :: bytes where
  "TransactionPoolHashesDBPrefix = [0x44, 0x30]"

lemmas db_prefixes [simp] =
  AccountsDBPrefix_def StakingAccountsDBPrefix_def DexAccountsDBPrefix_def BlocksDBPrefix_def
  BlockByHeightDBPrefix_def MerkleNodeDBPrefix_def RootHashMerkleTreeDBPrefix_def
  TransactionsHashesByHeightDBPrefix_def TransactionDBPrefix_def TransactionPoolHashesDBPrefix_def

definition LastHeightStoredInAccounts ::
  "'d kv \<Rightarrow> 'd \<Rightarrow> (i64 \<times> string option) result option" where
  "LastHeightStoredInAccounts K d =
     last_height_loop K (\<lambda>i. AccountsDBPrefix @ GetByteInt64 i) 0 d"

definition LastHeightStoredInStakingAccounts ::
  "'d kv \<Rightarrow> 'd \<Rightarrow> (i64 \<times> string option) result option" where
  "LastHeightStoredInStakingAccounts K d =
     last_height_loop K (\<lambda>i. StakingAccountsDBPrefix @ GetByteInt64 i @ [1]) 0 d"

definition LastHeightStoredInDexAccounts ::
  "'d kv \<Rightarrow> 'd \<Rightarrow> (i64 \<times> string option) result option" where
  "LastHeightStoredInDexAccounts K d =
     last_height_loop K (\<lambda>i. DexAccountsDBPrefix @ GetByteInt64 i) 0 d"

definition LastHeightStoredInBlocks ::
  "'d kv \<Rightarrow> 'd \<Rightarrow> (i64 \<times> string option) result option" where
  "LastHeightStoredInBlocks K d =
     last_height_loop K (\<lambda>i. BlockByHeightDBPrefix @ GetByteInt64 i) 0 d"

definition LastHeightStoredInMerleTrie ::
  "'d kv \<Rightarrow> 'd \<Rightarrow> (i64 \<times> string option) result option" where
  "LastHeightStoredInMerleTrie K d =
     last_height_loop K (\<lambda>i. RootHashMerkleTreeDBPrefix @ GetByteInt64 i) 0 d"

section \<open>What the node relies on\<close>

locale rocksdb =
  fixes K :: "'d kv"
    and content :: "'d \<Rightarrow> bytes \<Rightarrow> bytes option"
  assumes get_content: "kv_get K k d = Ok (content d k)"
    and put_content: "kv_put K k v d = (r, d') \<Longrightarrow> r = Ok () \<and> content d' = (content d)(k := Some v)"
    and delete_content: "kv_delete K k d = (r, d') \<Longrightarrow> r = Ok () \<and> content d' = (content d)(k := None)"
begin

lemma DB_Get_content: "DB_Get K k d =
  (case content d k of None \<Rightarrow> Err ''key not found'' | Some v \<Rightarrow> Ok v)"
  by (simp add: DB_Get_def get_content)

lemma DB_IsKey_content: "k \<noteq> [] \<Longrightarrow> DB_IsKey K k d = Ok (content d k \<noteq> None)"
  by (simp add: DB_IsKey_def get_content)

lemma DB_Put_Ok: "k \<noteq> [] \<Longrightarrow>
  fst (DB_Put K k v d) = Ok () \<and> content (snd (DB_Put K k v d)) = (content d)(k := Some v)"
  using put_content [of k v d] by (cases "kv_put K k v d") (auto simp: DB_Put_def)

lemma DB_Delete_Ok: "k \<noteq> [] \<Longrightarrow>
  fst (DB_Delete K k d) = Ok () \<and> content (snd (DB_Delete K k d)) = (content d)(k := None)"
  using delete_content [of k d] by (cases "kv_delete K k d") (auto simp: DB_Delete_def)

lemma DB_Put_run:
  assumes "k \<noteq> []"
  obtains d' where "DB_Put K k v d = (Ok (), d')" and "content d' = (content d)(k \<mapsto> v)"
  using DB_Put_Ok [OF assms, of v d] that [of "snd (DB_Put K k v d)"] by (simp add: prod_eq_iff)

lemma DB_Delete_run:
  assumes "k \<noteq> []"
  obtains d' where "DB_Delete K k d = (Ok (), d')" and "content d' = (content d)(k := None)"
  using DB_Delete_Ok [OF assms, of d] that [of "snd (DB_Delete K k d)"] by (simp add: prod_eq_iff)

lemma DB_Get_Put: "k \<noteq> [] \<Longrightarrow> DB_Get K k (snd (DB_Put K k v d)) = Ok v"
  by (simp add: DB_Get_content DB_Put_Ok)

lemma DB_Get_Put_other: "k \<noteq> [] \<Longrightarrow> k' \<noteq> k \<Longrightarrow> DB_Get K k' (snd (DB_Put K k v d)) = DB_Get K k' d"
  by (simp add: DB_Get_content DB_Put_Ok)

lemma DB_Get_Delete: "k \<noteq> [] \<Longrightarrow> DB_Get K k (snd (DB_Delete K k d)) = Err ''key not found''"
  by (simp add: DB_Get_content DB_Delete_Ok)

text \<open>The loop stops at the first height from \<open>i\<close> on whose key is absent.\<close>

lemma last_height_loop_stops:
  assumes "\<And>i. mk i \<noteq> []"
    and "content d (mk (i + word_of_nat n)) = None"
    and "\<And>m. m < n \<Longrightarrow> content d (mk (i + word_of_nat m)) \<noteq> None"
  shows "last_height_loop K mk i d = Some (Ok (i + word_of_nat n - 1, None))"
  using assms(2,3)
proof (induction n arbitrary: i)
  case 0
  then show ?case
    by (subst last_height_loop.simps) (simp add: DB_IsKey_content assms(1))
next
  case (Suc n)
  have "content d (mk i) \<noteq> None" using Suc.prems(2) [of 0] by simp
  moreover have "last_height_loop K mk (i + 1) d = Some (Ok (i + 1 + word_of_nat n - 1, None))"
  proof (rule Suc.IH)
    show "content d (mk (i + 1 + word_of_nat n)) = None"
      using Suc.prems(1) by (simp add: algebra_simps)
    show "content d (mk (i + 1 + word_of_nat m)) \<noteq> None" if "m < n" for m
      using Suc.prems(2) [of "Suc m"] that by (simp add: algebra_simps)
  qed
  ultimately show ?case
    by (subst last_height_loop.simps) (simp add: DB_IsKey_content assms(1) algebra_simps)
qed

text \<open>So it ends as soon as one height is missing, at the end of the run of keys from height 0.\<close>

lemma last_height_loop_first:
  assumes "\<And>i. mk i \<noteq> []" and "content d (mk h) = None"
  shows "\<exists>n. last_height_loop K mk 0 d = Some (Ok (word_of_nat n - 1, None)) \<and>
    content d (mk (word_of_nat n)) = None \<and> (\<forall>m < n. content d (mk (word_of_nat m)) \<noteq> None)"
proof -
  let ?gone = "\<lambda>n :: nat. content d (mk (word_of_nat n)) = None"
  have ex: "?gone (unat h)" using assms(2) by simp
  define n where "n = (LEAST n. ?gone n)"
  have n: "?gone n" "\<And>m. m < n \<Longrightarrow> \<not> ?gone m"
    unfolding n_def by (rule LeastI [of ?gone, OF ex], rule not_less_Least)
  have "last_height_loop K mk 0 d = Some (Ok (0 + word_of_nat n - 1, None))"
    using assms(1) by (rule last_height_loop_stops) (use n in simp_all)
  with n show ?thesis by auto
qed

end

section \<open>A handle that keeps its promises\<close>

type_synonym memdb = "(bytes, bytes) gomap"

definition mem_kv :: "memdb kv" where
  "mem_kv = \<lparr>kv_put = (\<lambda>k v d. (Ok (), mput k v d)),
     kv_get = (\<lambda>k d. Ok (map_of d k)),
     kv_delete = (\<lambda>k d. (Ok (), mdel k d))\<rparr>"

interpretation memdb: rocksdb mem_kv map_of
  by unfold_locales (auto simp: mem_kv_def update_conv' delete_conv')

section \<open>Properties\<close>

text \<open>
  the search for the last stored height ends whenever some height is missing, and gives the
  last height of the unbroken run of keys that starts at height 0 (-1 when height 0 is missing).
\<close>

lemma LastHeightStoredInBlocks_contiguous:
  assumes "rocksdb K content"
    and "\<exists>h. content d (BlockByHeightDBPrefix @ GetByteInt64 h) = None"
  shows "\<exists>n. LastHeightStoredInBlocks K d = Some (Ok (word_of_nat n - 1, None)) \<and>
    content d (BlockByHeightDBPrefix @ GetByteInt64 (word_of_nat n)) = None \<and>
    (\<forall>m < n. content d (BlockByHeightDBPrefix @ GetByteInt64 (word_of_nat m)) \<noteq> None)"
  using rocksdb.last_height_loop_first [OF assms(1), of "\<lambda>i. BlockByHeightDBPrefix @ GetByteInt64 i" d] assms(2)
  unfolding LastHeightStoredInBlocks_def by auto

lemma LastHeightStoredInBlocks_contiguous_example:
  "rocksdb mem_kv map_of \<and> LastHeightStoredInBlocks mem_kv [] = Some (Ok (-1, None))"
proof -
  obtain n where "LastHeightStoredInBlocks mem_kv [] = Some (Ok (word_of_nat n - 1, None))"
    and "\<forall>m < n. map_of [] (BlockByHeightDBPrefix @ GetByteInt64 (word_of_nat m)) \<noteq> (None :: bytes option)"
    using LastHeightStoredInBlocks_contiguous [OF memdb.rocksdb_axioms, of "[]"] by auto
  then show ?thesis using memdb.rocksdb_axioms by (cases n) auto
qed

end
