(* ===== verification/Account.thy ===== *)
theory Account
  imports Database
begin

text \<open>
  Coin accounts: the package \<^verbatim>\<open>src/account\<close> (\<^verbatim>\<open>baseAccount.go\<close>, \<^verbatim>\<open>accountsStates.go\<close>) and the
  balance operations of \<^verbatim>\<open>src/blocks/blockAccountState.go\<close>.  The global variable \<^verbatim>\<open>Accounts\<close> is
  the state \<open>AccountsType\<close> that the operations take and return.

  The lemmas: every operation keeps the accounts well formed (distinct 20-byte keys, each
  account stored under its own address, no negative balance); \<open>AddBalance\<close> moves the total by
  exactly the amount it is given, or changes no balance; an account and a whole account table
  come back from their bytes, and which tables do not.
\<close>

section \<open>Accounts\<close>

record Account =
  Balance :: i64
  acc_Address :: addr20
  TransactionDelay :: i64
  MultiSignNumber :: byte
  MultiSignAddresses :: "addr20 list"

definition zero_Account :: Account where
  "zero_Account = \<lparr>Balance = 0, acc_Address = replicate 20 0, TransactionDelay = 0,
     MultiSignNumber = 0, MultiSignAddresses = []\<rparr>"

record AccountsType =
  AllAccounts :: "(addr20, Account) gomap"
  acs_Height :: i64

definition MaxTransactionDelay :: i64 where "MaxTransactionDelay = 60480"

definition GetAccountByAddressBytes :: "bytes \<Rightarrow> AccountsType \<Rightarrow> Account result" where
  "GetAccountByAddressBytes address s =
     rbind (slice address 0 AddressLength) (\<lambda>b.
       Ok (mgetd zero_Account (AllAccounts s) (copy_into (replicate 20 0) b)))"

definition CanBeModifiedAccount :: "bytes \<Rightarrow> AccountsType \<Rightarrow> bool result" where
  "CanBeModifiedAccount address s = rbind (GetAccountByAddressBytes address s) (\<lambda>acc.
     Ok (MultiSignNumber acc = 0 \<and> TransactionDelay acc = 0))"

definition SetBalance :: "addr20 \<Rightarrow> i64 \<Rightarrow> AccountsType \<Rightarrow> AccountsType" where
  "SetBalance address balance s =
     (let acc = mgetd zero_Account (AllAccounts s) address
      in s\<lparr>AllAccounts := mput address (acc\<lparr>Balance := balance\<rparr>) (AllAccounts s)\<rparr>)"

definition GetBalance :: "addr20 \<Rightarrow> AccountsType \<Rightarrow> i64" where
  "GetBalance address s = Balance (mgetd zero_Account (AllAccounts s) address)"

text \<open>The two methods take a pointer to the caller's copy: they return it changed.\<close>

definition ModifyAccountToEscrow :: "i64 \<Rightarrow> Account \<Rightarrow> (AccountsType, Account) op" where
  "ModifyAccountToEscrow transactionDelay a s =
     (if sint (TransactionDelay a) > 0
      then (Err ''account is just escrow and cannot be modified'', s)
      else if transactionDelay = 0
      then (Err ''transaction delay in escrow must be larger than 0'', s)
      else if sint transactionDelay > sint MaxTransactionDelay
      then (Err ''transaction delay in escrow must be less than the maximum'', s)
      else let a' = a\<lparr>TransactionDelay := transactionDelay\<rparr>
        in (Ok a', s\<lparr>AllAccounts := mput (acc_Address a') a' (AllAccounts s)\<rparr>))"

definition ModifyAccountToMultiSign ::
  "byte \<Rightarrow> Address list \<Rightarrow> Account \<Rightarrow> (AccountsType, Account) op" where
  "ModifyAccountToMultiSign numApprovals addresses a s =
     (if unat (MultiSignNumber a) > 0
      then (Err ''account is just MultiSign and cannot be modified'', s)
      else if unat numApprovals = 0
      then (Err ''MultiSign must have at least 1 Approval account'', s)
      else if unat numApprovals > length addresses
      then (Err ''number of MultiSign approval addresses must be larger than number of Approvals'', s)
      else let a' = a\<lparr>MultiSignNumber := numApprovals,
          MultiSignAddresses := map (\<lambda>x. copy_into (replicate 20 0) (addr_ByteValue x)) addresses\<rparr>
        in (Ok a', s\<lparr>AllAccounts := mput (acc_Address a') a' (AllAccounts s)\<rparr>))"

definition SetAccountByAddressBytes :: "bytes \<Rightarrow> (AccountsType, Account) op" where
  "SetAccountByAddressBytes address s =
     (case GetAccountByAddressBytes address s of
        Ok acc \<Rightarrow>
          if acc_Address acc \<noteq> address
          then let addrb = copy_into (replicate 20 0) (take AddressLength address);
                   acc' = zero_Account\<lparr>acc_Address := addrb\<rparr>
               in (Ok acc', s\<lparr>AllAccounts := mput addrb acc' (AllAccounts s)\<rparr>)
          else (Ok acc, s)
      | Err e \<Rightarrow> (Err e, s)
      | Panic \<Rightarrow> (Panic, s))"

section \<open>Balances and supply\<close>

definition AddBalance :: "addr20 \<Rightarrow> i64 \<Rightarrow> (AccountsType, unit) op" where
  "AddBalance address addedAmount s =
     (let (balance, s1) =
        (case map_of (AllAccounts s) address of
           Some acc \<Rightarrow> (Balance acc, s)
         | None \<Rightarrow> (0, s\<lparr>AllAccounts :=
             mput address (zero_Account\<lparr>Balance := 0, acc_Address := address\<rparr>) (AllAccounts s)\<rparr>))
      in if sint (balance + addedAmount) < 0 then (Err ''Not enough funds on account'', s1)
         else (Ok (), SetBalance address (balance + addedAmount) s1))"

definition GetSupplyInAccounts :: "AccountsType \<Rightarrow> i64" where
  "GetSupplyInAccounts s = msum Balance (AllAccounts s)"

text \<open>Accounts as the node keeps them.\<close>

definition accounts_ok :: "AccountsType \<Rightarrow> bool" where
  "accounts_ok s \<longleftrightarrow> gomap_ok (AllAccounts s) \<and>
     (\<forall>(k, a) \<in> set (AllAccounts s). length k = 20 \<and> acc_Address a = k \<and> 0 \<le> sint (Balance a))"

lemma zero_Account_Balance [simp]: "Balance zero_Account = 0"
  by (simp add: zero_Account_def)

lemma GetAccountByAddressBytes_Ok [simp]:
  "length a = 20 \<Longrightarrow> GetAccountByAddressBytes a s = Ok (mgetd zero_Account (AllAccounts s) a)"
  by (simp add: GetAccountByAddressBytes_def slice_def)

lemma accounts_ok_gomap [dest]: "accounts_ok s \<Longrightarrow> gomap_ok (AllAccounts s)"
  by (simp add: accounts_ok_def)

lemma accounts_ok_lookup:
  "accounts_ok s \<Longrightarrow> map_of (AllAccounts s) k = Some a \<Longrightarrow>
    length k = 20 \<and> acc_Address a = k \<and> 0 \<le> sint (Balance a)"
  by (auto simp: accounts_ok_def dest!: map_of_SomeD)

lemma accounts_ok_mgetd: "accounts_ok s \<Longrightarrow> 0 \<le> sint (GetBalance k s)"
  by (auto simp: GetBalance_def mgetd_def split: option.split dest: accounts_ok_lookup)

lemma set_mput: "gomap_ok m \<Longrightarrow> set (mput k v m) = insert (k, v) {(k', w) \<in> set m. k' \<noteq> k}"
  by (induction m) (auto split: if_splits simp: image_iff)

lemma accounts_ok_mput:
  assumes "accounts_ok s" and "length k = 20" and "acc_Address a = k" and "0 \<le> sint (Balance a)"
  shows "accounts_ok (s\<lparr>AllAccounts := mput k a (AllAccounts s)\<rparr>)"
  using assms by (auto simp: accounts_ok_def set_mput)

lemma GetSupplyInAccounts_mput [ledger]:
  "accounts_ok s \<Longrightarrow> GetSupplyInAccounts (s\<lparr>AllAccounts := mput k a (AllAccounts s)\<rparr>) =
    GetSupplyInAccounts s + Balance a - GetBalance k s"
  by (auto simp: GetSupplyInAccounts_def GetBalance_def msum_mput_zero [where z = zero_Account])

text \<open>
  A Go check \<open>balance + x < 0\<close> is enough to rule out wrap-around as long as the balance was
  not negative: an addition that overflows upwards turns negative.
\<close>

lemma nonneg_add_exact:
  assumes "0 \<le> sint (b :: i64)" and "0 \<le> sint (b + x)"
  shows "sint (b + x) = sint b + sint x"
proof (cases "sint b + sint x < 2 ^ 63")
  case True
  moreover have "- (2 ^ 63) \<le> sint b + sint x" using assms(1) sint_i64_bounds(1) [of x] by linarith
  ultimately show ?thesis by (intro sint_i64_add) auto
next
  case False
  have lt: "sint b + sint x < 2 ^ 64"
    using sint_i64_bounds(2) [of b] sint_i64_bounds(2) [of x] by simp
  have eq: "b + x = word_of_int (sint b + sint x - 2 ^ 64)" by simp
  have "sint (b + x) = sint b + sint x - 2 ^ 64"
    unfolding eq using False lt by (intro sint_i64_of_int) auto
  then have "sint (b + x) < 0" using lt by simp
  with assms(2) show ?thesis by simp
qed

lemma AddBalance_Ok_state:
  assumes "accounts_ok s" and "AddBalance a x s = (Ok (), s')"
  shows "\<exists>acc. s' = s\<lparr>AllAccounts := mput a (acc\<lparr>Balance := GetBalance a s + x\<rparr>) (AllAccounts s)\<rparr> \<and>
    acc = (case map_of (AllAccounts s) a of Some acc \<Rightarrow> acc
      | None \<Rightarrow> zero_Account\<lparr>acc_Address := a\<rparr>) \<and> 0 \<le> sint (GetBalance a s + x)"
proof (cases "map_of (AllAccounts s) a")
  case None
  then have "mput a v (mput a w (AllAccounts s)) = mput a v (AllAccounts s)" for v w
    by (simp add: update_last)
  with None assms(2) show ?thesis
    by (auto simp: AddBalance_def SetBalance_def GetBalance_def mgetd_def map_of_mput
        zero_Account_def Let_def split: if_splits)
next
  case (Some acc)
  with assms(2) show ?thesis
    by (auto simp: AddBalance_def SetBalance_def GetBalance_def mgetd_def Let_def split: if_splits)
qed

lemma AddBalance_Ok [ledger]:
  assumes "accounts_ok s" and "length a = 20" and "AddBalance a x s = (Ok (), s')"
  shows "accounts_ok s'"
    and "GetSupplyInAccounts s' = GetSupplyInAccounts s + x"
    and "GetBalance b s' = (if b = a then GetBalance a s + x else GetBalance b s)"
    and "sint (GetBalance a s') = sint (GetBalance a s) + sint x"
proof -
  obtain acc where s': "s' = s\<lparr>AllAccounts := mput a (acc\<lparr>Balance := GetBalance a s + x\<rparr>) (AllAccounts s)\<rparr>"
    and acc: "acc = (case map_of (AllAccounts s) a of Some acc \<Rightarrow> acc
      | None \<Rightarrow> zero_Account\<lparr>acc_Address := a\<rparr>)"
    and nonneg: "0 \<le> sint (GetBalance a s + x)"
    using AddBalance_Ok_state [OF assms(1,3)] by blast
  have "acc_Address acc = a"
    using accounts_ok_lookup [OF assms(1), of a] by (auto simp: acc split: option.splits)
  with assms nonneg show "accounts_ok s'" by (simp add: s' accounts_ok_mput)
  show "GetSupplyInAccounts s' = GetSupplyInAccounts s + x"
    using assms(1) by (simp add: s' GetSupplyInAccounts_mput)
  show "GetBalance b s' = (if b = a then GetBalance a s + x else GetBalance b s)" for b
    by (simp add: s' GetBalance_def)
  then show "sint (GetBalance a s') = sint (GetBalance a s) + sint x"
    using nonneg_add_exact [OF accounts_ok_mgetd [OF assms(1)] nonneg] by simp
qed

lemma AddBalance_Err [ledger]:
  assumes "accounts_ok s" and "length a = 20" and "AddBalance a x s = (Err e, s')"
  shows "accounts_ok s'" and "GetSupplyInAccounts s' = GetSupplyInAccounts s"
    and "GetBalance b s' = GetBalance b s" and "sint (GetBalance a s + x) < 0"
proof -
  have s': "s' = s \<or> map_of (AllAccounts s) a = None \<and>
      s' = s\<lparr>AllAccounts := mput a (zero_Account\<lparr>Balance := 0, acc_Address := a\<rparr>) (AllAccounts s)\<rparr>"
    and neg: "sint (GetBalance a s + x) < 0"
    using assms(3) by (auto simp: AddBalance_def GetBalance_def mgetd_def Let_def split: option.splits if_splits)
  show "accounts_ok s'" using s' assms by (auto simp: accounts_ok_mput)
  have absent: "map_of (AllAccounts s) a = None \<Longrightarrow> GetBalance a s = 0"
    by (simp add: GetBalance_def mgetd_def)
  show "GetSupplyInAccounts s' = GetSupplyInAccounts s"
    using s' assms(1) absent by (auto simp: GetSupplyInAccounts_mput)
  show "GetBalance b s' = GetBalance b s"
    using s' absent by (auto simp: GetBalance_def)
  show "sint (GetBalance a s + x) < 0" by (rule neg)
qed

lemma AddBalance_result:
  "fst (AddBalance a x s) =
    (if sint (GetBalance a s + x) < 0 then Err ''Not enough funds on account'' else Ok ())"
  by (auto simp: AddBalance_def GetBalance_def mgetd_def Let_def split: option.splits)

text \<open>The coins in accounts as a plain integer, with no wrap-around.\<close>

definition held_coins :: "AccountsType \<Rightarrow> int" where
  "held_coins s = msum (\<lambda>a. sint (Balance a)) (AllAccounts s)"

lemma held_coins_mput:
  "accounts_ok s \<Longrightarrow> held_coins (s\<lparr>AllAccounts := mput k a (AllAccounts s)\<rparr>) =
    held_coins s + sint (Balance a) - sint (GetBalance k s)"
  by (auto simp: held_coins_def GetBalance_def msum_mput_zero [where z = zero_Account])

lemma AddBalance_held [ledger]:
  assumes "accounts_ok s" and "length a = 20" and "AddBalance a x s = (Ok (), s')"
  shows "held_coins s' = held_coins s + sint x"
proof -
  obtain acc where s': "s' = s\<lparr>AllAccounts := mput a (acc\<lparr>Balance := GetBalance a s + x\<rparr>) (AllAccounts s)\<rparr>"
    and nonneg: "0 \<le> sint (GetBalance a s + x)"
    using AddBalance_Ok_state [OF assms(1,3)] by blast
  show ?thesis
    using nonneg_add_exact [OF accounts_ok_mgetd [OF assms(1)] nonneg]
    by (simp add: s' held_coins_mput [OF assms(1)])
qed

lemma AddBalance_Err_held [ledger]:
  assumes "accounts_ok s" and "AddBalance a x s = (Err e, s')"
  shows "held_coins s' = held_coins s"
proof -
  have "s' = s \<or> map_of (AllAccounts s) a = None \<and>
      s' = s\<lparr>AllAccounts := mput a (zero_Account\<lparr>Balance := 0, acc_Address := a\<rparr>) (AllAccounts s)\<rparr>"
    using assms(2) by (auto simp: AddBalance_def Let_def split: option.splits if_splits)
  then show ?thesis
    using assms(1) by (auto simp: held_coins_mput GetBalance_def mgetd_def)
qed

lemma balance_le_held:
  assumes "accounts_ok s"
  shows "sint (GetBalance a s) \<le> held_coins s"
proof -
  have nonneg: "\<forall>x \<in> set (map (\<lambda>(k, v). sint (Balance v)) (AllAccounts s)). 0 \<le> x"
    using assms by (auto simp: accounts_ok_def)
  show ?thesis
  proof (cases "map_of (AllAccounts s) a")
    case None
    then show ?thesis
      using sum_list_nonneg [of "map (\<lambda>(k, v). sint (Balance v)) (AllAccounts s)"] nonneg
      by (simp add: GetBalance_def mgetd_def held_coins_def msum_def)
  next
    case (Some acc)
    then have "sint (Balance acc) \<in> set (map (\<lambda>(k, v). sint (Balance v)) (AllAccounts s))"
      by (force dest: map_of_SomeD)
    then have "sint (Balance acc) \<le> sum_list (map (\<lambda>(k, v). sint (Balance v)) (AllAccounts s))"
      using member_le_sum_list nonneg by metis
    with Some show ?thesis by (simp add: GetBalance_def mgetd_def held_coins_def msum_def)
  qed
qed

lemma AddBalance_triple [ledger]:
  assumes "length a = 20"
  shows "triple (\<lambda>s. accounts_ok s \<and> GetSupplyInAccounts s = t) (AddBalance a x)
    (\<lambda>_ s. accounts_ok s \<and> GetSupplyInAccounts s = t + x)"
  using assms AddBalance_Ok(1,2) by (fastforce simp: triple_def)

text \<open>Turning an account into an escrow or multi-signature account keeps every balance.\<close>

lemma ModifyAccountToEscrow_triple [ledger]:
  "triple (\<lambda>s. accounts_ok s \<and> GetSupplyInAccounts s = t \<and> length (acc_Address a) = 20 \<and>
      GetBalance (acc_Address a) s = Balance a)
    (ModifyAccountToEscrow d a)
    (\<lambda>a' s. accounts_ok s \<and> GetSupplyInAccounts s = t \<and> length (acc_Address a') = 20 \<and>
      GetBalance (acc_Address a') s = Balance a')"
  by (rule tripleI)
    (auto simp: ModifyAccountToEscrow_def Let_def GetSupplyInAccounts_mput GetBalance_def
      split: if_splits intro!: accounts_ok_mput dest: accounts_ok_mgetd [where k = "acc_Address a"])

lemma ModifyAccountToMultiSign_triple [ledger]:
  "triple (\<lambda>s. accounts_ok s \<and> GetSupplyInAccounts s = t \<and> length (acc_Address a) = 20 \<and>
      GetBalance (acc_Address a) s = Balance a)
    (ModifyAccountToMultiSign n as a)
    (\<lambda>a' s. accounts_ok s \<and> GetSupplyInAccounts s = t)"
  by (rule tripleI)
    (auto simp: ModifyAccountToMultiSign_def Let_def GetSupplyInAccounts_mput GetBalance_def
      split: if_splits intro!: accounts_ok_mput dest: accounts_ok_mgetd [where k = "acc_Address a"])

lemma SetAccountByAddressBytes_triple [ledger]:
  assumes "length a = 20"
  shows "triple (\<lambda>s. accounts_ok s \<and> GetSupplyInAccounts s = t) (SetAccountByAddressBytes a)
    (\<lambda>acc s. accounts_ok s \<and> GetSupplyInAccounts s = t \<and> acc_Address acc = a \<and>
      GetBalance (acc_Address acc) s = Balance acc)"
proof (rule tripleI)
  fix s acc s'
  assume P: "accounts_ok s \<and> GetSupplyInAccounts s = t"
    and run: "SetAccountByAddressBytes a s = (Ok acc, s')"
  let ?old = "mgetd zero_Account (AllAccounts s) a"
  let ?new = "zero_Account\<lparr>acc_Address := a\<rparr>"
  show "accounts_ok s' \<and> GetSupplyInAccounts s' = t \<and> acc_Address acc = a \<and>
      GetBalance (acc_Address acc) s' = Balance acc"
  proof (cases "acc_Address ?old = a")
    case True
    with run P assms show ?thesis
      by (auto simp: SetAccountByAddressBytes_def GetBalance_def)
  next
    case False
    have "map_of (AllAccounts s) a = None"
    proof (rule ccontr)
      assume "map_of (AllAccounts s) a \<noteq> None"
      then obtain old where "map_of (AllAccounts s) a = Some old" by blast
      with False accounts_ok_lookup [of s a old] P show False by (simp add: mgetd_def)
    qed
    then have "GetBalance a s = 0" by (simp add: GetBalance_def mgetd_def)
    moreover have "acc = ?new" "s' = s\<lparr>AllAccounts := mput a ?new (AllAccounts s)\<rparr>"
      using False run assms by (auto simp: SetAccountByAddressBytes_def Let_def)
    ultimately show ?thesis
      using P assms by (auto simp: GetSupplyInAccounts_mput GetBalance_def intro!: accounts_ok_mput)
  qed
qed

section \<open>Accounts as bytes\<close>

definition Account_Marshal :: "Account \<Rightarrow> bytes" where
  "Account_Marshal a = GetByteInt64 (Balance a) @ acc_Address a @
     GetByteInt64 (TransactionDelay a) @ [MultiSignNumber a] @ concat (MultiSignAddresses a)"

definition Account_Unmarshal :: "bytes \<Rightarrow> Account result" where
  "Account_Unmarshal data =
     (if length data < 37 then Err ''wrong number of bytes in unmarshal account''
      else rbind (GetInt64FromByte (take 8 data)) (\<lambda>bal.
        rbind (GetInt64FromByte (take 8 (drop 28 data))) (\<lambda>delay.
        let a = \<lparr>Balance = bal, acc_Address = copy_into (replicate 20 0) (take 20 (drop 8 data)),
              TransactionDelay = delay, MultiSignNumber = data ! 36, MultiSignAddresses = []\<rparr>
        in if length data > 37
          then let rest = drop 37 data; lenAccMS = length rest div 20
            in if unat (MultiSignNumber a) > lenAccMS
              then Err ''wrongly defined multisign account''
              else Ok (a\<lparr>MultiSignAddresses := chunks 20 lenAccMS rest\<rparr>)
          else Ok a)))"

definition AccountsType_Marshal :: "AccountsType \<Rightarrow> bytes" where
  "AccountsType_Marshal s = GetByteInt64 (len64 (AllAccounts s)) @
     concat (map (\<lambda>(address, acc). address @ Account_Marshal acc) (AllAccounts s)) @
     GetByteInt64 (acs_Height s)"

text \<open>The loop of \<^verbatim>\<open>Unmarshal\<close>: \<open>n\<close> more entries from the buffer into the receiver's map.\<close>

fun AccountsType_read :: "nat \<Rightarrow> bytes \<Rightarrow> (AccountsType, bytes) op" where
  "AccountsType_read 0 b s = (Ok b, s)"
| "AccountsType_read (Suc n) b s =
     (if length b < AddressLength then (Err ''failed to read address'', s)
      else let (address, b1) = buf_next AddressLength b;
               (accountData, b2) = buf_next (AddressLength + 17) b1
        in if length accountData \<noteq> AddressLength + 17
          then (Err ''incorrect account data length'', s)
          else case Account_Unmarshal accountData of
              Ok acc \<Rightarrow> AccountsType_read n b2
                (s\<lparr>AllAccounts := mput address acc (AllAccounts s)\<rparr>)
            | Err e \<Rightarrow> (Err (''failed to unmarshal account: '' @ e), s)
            | Panic \<Rightarrow> (Panic, s))"

definition AccountsType_Unmarshal :: "bytes \<Rightarrow> (AccountsType, unit) op" where
  "AccountsType_Unmarshal data =
     (let (h, b) = buf_next 8 data in
      sbind (slift (GetInt64FromByte h)) (\<lambda>accountCount.
      sbind (supd (\<lambda>s. s\<lparr>AllAccounts := []\<rparr>)) (\<lambda>_.
      sbind (AccountsType_read (nat (sint accountCount)) b) (\<lambda>b'.
      sbind (slift (GetInt64FromByte (fst (buf_next 8 b')))) (\<lambda>ht.
      supd (\<lambda>s. s\<lparr>acs_Height := ht\<rparr>))))))"

lemma Account_Unmarshal_Marshal [codec]:
  assumes "length (acc_Address a) = 20" and "\<forall>x \<in> set (MultiSignAddresses a). length x = 20"
    and "MultiSignAddresses a = [] \<or> unat (MultiSignNumber a) \<le> length (MultiSignAddresses a)"
  shows "Account_Unmarshal (Account_Marshal a) = Ok a"
proof -
  have len: "length (concat (MultiSignAddresses a)) = 20 * length (MultiSignAddresses a)"
    using assms(2) by (rule length_concat_const)
  show ?thesis
    using assms len
    by (cases a) (auto simp: Account_Unmarshal_def Account_Marshal_def Let_def nth_append)
qed

text \<open>
  The table decoder always takes 37 bytes per account, so it reads back what \<^verbatim>\<open>Marshal\<close> wrote
  only for accounts without multi-signature addresses.
\<close>

definition plain_account :: "addr20 \<times> Account \<Rightarrow> bool" where
  "plain_account p \<longleftrightarrow> length (fst p) = 20 \<and> length (acc_Address (snd p)) = 20 \<and>
     MultiSignAddresses (snd p) = []"

lemma AccountsType_read_concat:
  assumes "\<forall>p \<in> set xs. plain_account p"
    and "distinct (map fst (AllAccounts s) @ map fst xs)"
  shows "AccountsType_read (length xs) (concat (map (\<lambda>(k, a). k @ Account_Marshal a) xs) @ rest) s
    = (Ok rest, s\<lparr>AllAccounts := AllAccounts s @ xs\<rparr>)"
  using assms
proof (induction xs arbitrary: s)
  case Nil
  then show ?case by simp
next
  case (Cons p xs)
  obtain k a where p: "p = (k, a)" by (cases p)
  have ka: "length k = 20" "length (acc_Address a) = 20" "MultiSignAddresses a = []"
    using Cons.prems(1) p by (auto simp: plain_account_def)
  have "length (Account_Marshal a) = 37" using ka by (simp add: Account_Marshal_def)
  moreover have "Account_Unmarshal (Account_Marshal a) = Ok a"
    using ka by (intro Account_Unmarshal_Marshal) auto
  moreover have "mput k a (AllAccounts s) = AllAccounts s @ [(k, a)]"
    using Cons.prems(2) p by (intro mput_new) auto
  ultimately show ?case
    using Cons ka p by simp
qed

lemma AccountsType_Unmarshal_Marshal [codec]:
  assumes "gomap_ok (AllAccounts s)" and "\<forall>p \<in> set (AllAccounts s). plain_account p"
    and "length (AllAccounts s) < 2 ^ 63"
  shows "AccountsType_Unmarshal (AccountsType_Marshal s) s0 = (Ok (), s)"
proof -
  have "nat (sint (len64 (AllAccounts s) :: i64)) = length (AllAccounts s)"
    using assms(3) sint_i64_of_int [of "int (length (AllAccounts s))"] by simp
  moreover have "AccountsType_read (length (AllAccounts s))
      (concat (map (\<lambda>(k, a). k @ Account_Marshal a) (AllAccounts s)) @ GetByteInt64 (acs_Height s))
      (s0\<lparr>AllAccounts := []\<rparr>) = (Ok (GetByteInt64 (acs_Height s)), s0\<lparr>AllAccounts := AllAccounts s\<rparr>)"
    using AccountsType_read_concat [OF assms(2), of "s0\<lparr>AllAccounts := []\<rparr>"] assms(1) by simp
  ultimately show ?thesis
    by (cases s, cases s0)
      (simp add: AccountsType_Unmarshal_def AccountsType_Marshal_def effect_defs buf_next_def)
qed

section \<open>Accounts in the database\<close>

text \<open>\<open>current\<close> is the value of \<^verbatim>\<open>common.GetHeight()\<close>.\<close>

definition StoreAccounts :: "'d kv \<Rightarrow> i64 \<Rightarrow> i64 \<Rightarrow> AccountsType \<Rightarrow> 'd \<Rightarrow> unit result \<times> 'd" where
  "StoreAccounts K current height s d =
     (let height' = (if sint height < 0 then current else height)
      in DB_Put K (AccountsDBPrefix @ GetByteInt64 height') (AccountsType_Marshal s) d)"

definition RemoveAccountsFromDB :: "'d kv \<Rightarrow> i64 \<Rightarrow> 'd \<Rightarrow> unit result \<times> 'd" where
  "RemoveAccountsFromDB K height d = DB_Delete K (AccountsDBPrefix @ GetByteInt64 height) d"

text \<open>
  A negative height asks for the last one stored; the outcome is \<open>None\<close> when that search does
  not end.  A failed search is logged and its height used all the same.
\<close>

definition LoadAccounts ::
  "'d kv \<Rightarrow> i64 \<Rightarrow> 'd \<Rightarrow> AccountsType \<Rightarrow> (unit result \<times> AccountsType) option" where
  "LoadAccounts K height d s =
     (case (if sint height < 0 then LastHeightStoredInAccounts K d else Some (Ok (height, None))) of
        None \<Rightarrow> None
      | Some Panic \<Rightarrow> Some (Panic, s)
      | Some (Err e) \<Rightarrow> Some (Err e, s)
      | Some (Ok (h, _)) \<Rightarrow>
          (case DB_Get K (AccountsDBPrefix @ GetByteInt64 h) d of
             Ok b \<Rightarrow> Some (AccountsType_Unmarshal b s)
           | Err e \<Rightarrow> Some (Err e, s)
           | Panic \<Rightarrow> Some (Panic, s)))"

text \<open>Tables that the byte format can carry: no account with multi-signature addresses.\<close>

definition accounts_storable :: "AccountsType \<Rightarrow> bool" where
  "accounts_storable s \<longleftrightarrow> gomap_ok (AllAccounts s) \<and> (\<forall>p \<in> set (AllAccounts s). plain_account p) \<and>
     length (AllAccounts s) < 2 ^ 63"

context rocksdb
begin

lemma LoadAccounts_content:
  assumes "accounts_storable s" and "0 \<le> sint height"
    and "content d (AccountsDBPrefix @ GetByteInt64 height) = Some (AccountsType_Marshal s)"
  shows "LoadAccounts K height d s0 = Some (Ok (), s)"
  using assms AccountsType_Unmarshal_Marshal [of s s0]
  by (simp add: LoadAccounts_def DB_Get_content accounts_storable_def)

lemma LoadAccounts_StoreAccounts:
  assumes "accounts_storable s" and "0 \<le> sint height"
  shows "LoadAccounts K height (snd (StoreAccounts K current height s d)) s0 = Some (Ok (), s)"
  using assms by (intro LoadAccounts_content) (simp_all add: StoreAccounts_def Let_def DB_Put_Ok)

end

section \<open>Properties\<close>

text \<open>
  C20: adding an amount, of either sign, to an account succeeds exactly when the mathematical
  sum is neither negative nor past the range of \<^verbatim>\<open>int64\<close>; it then moves that balance and the supply by
  exactly the amount, and otherwise it moves no balance at all.  No other balance changes, and
  the table stays well formed: no balance is ever negative.
\<close>

theorem AddBalance_effect:
  assumes "accounts_ok s" and "length a = 20" and "AddBalance a x s = (r, s')"
  shows "accounts_ok s' \<and> (\<forall>b. b \<noteq> a \<longrightarrow> GetBalance b s' = GetBalance b s) \<and>
    (if 0 \<le> sint (GetBalance a s) + sint x \<and> sint (GetBalance a s) + sint x < 2 ^ 63
     then r = Ok () \<and> sint (GetBalance a s') = sint (GetBalance a s) + sint x \<and>
       GetSupplyInAccounts s' = GetSupplyInAccounts s + x
     else r = Err ''Not enough funds on account'' \<and> GetBalance a s' = GetBalance a s \<and>
       GetSupplyInAccounts s' = GetSupplyInAccounts s)"
proof -
  let ?b = "GetBalance a s"
  have nonneg: "0 \<le> sint ?b" by (rule accounts_ok_mgetd [OF assms(1)])
  have range: "sint (?b + x) < 0 \<longleftrightarrow> \<not> (0 \<le> sint ?b + sint x \<and> sint ?b + sint x < 2 ^ 63)"
  proof
    assume "sint (?b + x) < 0"
    then show "\<not> (0 \<le> sint ?b + sint x \<and> sint ?b + sint x < 2 ^ 63)"
      using sint_i64_add [of ?b x] by linarith
  next
    assume out: "\<not> (0 \<le> sint ?b + sint x \<and> sint ?b + sint x < 2 ^ 63)"
    show "sint (?b + x) < 0"
    proof (rule ccontr)
      assume "\<not> sint (?b + x) < 0"
      with nonneg_add_exact [OF nonneg, of x] sint_i64_bounds(2) [of "?b + x"] out
      show False by linarith
    qed
  qed
  have r: "r = (if sint (?b + x) < 0 then Err ''Not enough funds on account'' else Ok ())"
    using AddBalance_result [of a x s] assms(3) by simp
  show ?thesis
  proof (cases "sint (?b + x) < 0")
    case True
    with r assms(3) have "AddBalance a x s = (Err ''Not enough funds on account'', s')" by simp
    from AddBalance_Err [OF assms(1,2) this] True r range show ?thesis by auto
  next
    case False
    with r assms(3) have run: "AddBalance a x s = (Ok (), s')" by simp
    have "GetBalance b s' = (if b = a then ?b + x else GetBalance b s)" for b
      by (rule AddBalance_Ok(3) [OF assms(1,2) run])
    with AddBalance_Ok(1,2,4) [OF assms(1,2) run] False r range show ?thesis by auto
  qed
qed

definition sample_addr :: "byte \<Rightarrow> addr20" where
  "sample_addr b = replicate 19 0 @ [b]"

lemma length_sample_addr [simp]: "length (sample_addr b) = 20"
  by (simp add: sample_addr_def)

definition sample_accounts :: AccountsType where
  "sample_accounts = \<lparr>AllAccounts =
     [(sample_addr 1, zero_Account\<lparr>Balance := 10, acc_Address := sample_addr 1\<rparr>)], acs_Height = 3\<rparr>"

lemma sample_accounts_ok: "accounts_ok sample_accounts"
  by (simp add: accounts_ok_def sample_accounts_def sample_addr_def)

theorem AddBalance_effect_witness:
  "sint (GetBalance (sample_addr 1) (snd (AddBalance (sample_addr 1) (-4) sample_accounts))) = 6"
  using AddBalance_effect [OF sample_accounts_ok, of "sample_addr 1" "-4",
      OF _ surjective_pairing]
  by (simp add: sample_accounts_def sample_addr_def GetBalance_def mgetd_def)

text \<open>
  a table whose accounts hold no multi-signature addresses comes back from the database as
  it was stored, whatever the receiver held before.
\<close>

lemma LoadAccounts_after_StoreAccounts:
  assumes "rocksdb K content"
    and "gomap_ok (AllAccounts s)" and "\<forall>p \<in> set (AllAccounts s). plain_account p"
    and "length (AllAccounts s) < 2 ^ 63" and "0 \<le> sint height"
  shows "LoadAccounts K height (snd (StoreAccounts K current height s d)) s0 = Some (Ok (), s)"
  using assms by (intro rocksdb.LoadAccounts_StoreAccounts) (auto simp: accounts_storable_def)

lemma LoadAccounts_after_StoreAccounts_example:
  "LoadAccounts mem_kv 3 (snd (StoreAccounts mem_kv 9 3 sample_accounts []))
     \<lparr>AllAccounts = [], acs_Height = 0\<rparr> = Some (Ok (), sample_accounts)"
  by (rule LoadAccounts_after_StoreAccounts [OF memdb.rocksdb_axioms])
    (simp_all add: sample_accounts_def plain_account_def zero_Account_def)

text \<open>
  a table with one multi-signature account does not survive storing: \<^verbatim>\<open>Unmarshal\<close> reports
  success, but the addresses that may sign are gone, and the height is made of the first eight
  bytes of the first of them.
\<close>

lemma Unmarshal_loses_MultiSignAddresses:
  assumes "length k = 20" and "length (acc_Address a) = 20"
    and "MultiSignAddresses a = m # ms" and "length m = 20"
  shows "AccountsType_Unmarshal (AccountsType_Marshal \<lparr>AllAccounts = [(k, a)], acs_Height = h\<rparr>) s0 =
    (Ok (), \<lparr>AllAccounts = [(k, a\<lparr>MultiSignAddresses := []\<rparr>)], acs_Height = le_word (take 8 m)\<rparr>)"
proof -
  have "nat (sint (1 :: i64)) = 1" by simp
  with assms show ?thesis
    by (cases s0, cases a) (simp add: AccountsType_Unmarshal_def AccountsType_Marshal_def
        Account_Marshal_def Account_Unmarshal_def effect_defs buf_next_def nth_append Let_def
        GetInt64FromByte_def [of "take 8 _"] numeral_eq_Suc [of num.One])
qed

lemma Unmarshal_loses_MultiSignAddresses_example:
  "\<exists>s. AccountsType_Unmarshal (AccountsType_Marshal \<lparr>AllAccounts = [(sample_addr 1,
       zero_Account\<lparr>acc_Address := sample_addr 1, MultiSignNumber := 1,
         MultiSignAddresses := [sample_addr 2]\<rparr>)], acs_Height = 5\<rparr>) sample_accounts = (Ok (), s) \<and>
     acs_Height s = 0 \<and> (\<forall>p \<in> set (AllAccounts s). MultiSignAddresses (snd p) = [])"
proof -
  have "le_word (take 8 (sample_addr 2)) = (0 :: i64)"
    by (simp add: sample_addr_def numeral_eq_Suc)
  then show ?thesis
    using Unmarshal_loses_MultiSignAddresses [of "sample_addr 1"
        "zero_Account\<lparr>acc_Address := sample_addr 1, MultiSignNumber := 1,
         MultiSignAddresses := [sample_addr 2]\<rparr>" "sample_addr 2" "[]" 5 sample_accounts]
    by simp
qed

end
