(* ===== verification/Float64.thy ===== *)
theory Float64
  imports Prelude Complex_Main
begin

text \<open>
  Go's \<^verbatim>\<open>float64\<close> as far as the node computes with it: IEEE 754 binary64 with rounding to
  nearest, ties to even.  A finite value is its exact rational; the two zeros are one value,
  which no operation used here can tell apart.  Converting a value outside the range of
  \<^verbatim>\<open>int64\<close> gives what the amd64 instruction gives, the smallest \<^verbatim>\<open>int64\<close>.

  The lemmas bound the rounding error from above without looking at exponents, which is all
  the supply bound of the node needs, and show small integers to be exact.
\<close>

datatype f64 = Fin rat | PInf | NInf | NaN

section \<open>Rounding\<close>

definition round_even :: "rat \<Rightarrow> int" where
  "round_even y = (let f = \<lfloor>y\<rfloor>; d = y - of_int f
     in if d < 1 / 2 then f else if d > 1 / 2 then f + 1 else if even f then f else f + 1)"

fun bitlen_nat :: "nat \<Rightarrow> nat" where
  "bitlen_nat n = (if n = 0 then 0 else Suc (bitlen_nat (n div 2)))"

declare bitlen_nat.simps [simp del]

definition pow2 :: "int \<Rightarrow> rat" where
  "pow2 e = (if e \<ge> 0 then 2 ^ nat e else 1 / 2 ^ nat (- e))"

text \<open>The exponent of the leading bit of a positive rational.\<close>

definition lead_exp :: "rat \<Rightarrow> int" where
  "lead_exp x = (let (p, q) = quotient_of x;
       e = int (bitlen_nat (nat p)) - int (bitlen_nat (nat q))
     in if pow2 e \<le> x then e else e - 1)"

definition f64_round :: "rat \<Rightarrow> f64" where
  "f64_round x =
     (if x = 0 then Fin 0
      else let e = max (lead_exp \<bar>x\<bar> - 52) (- 1074);
               v = of_int (round_even (x / pow2 e)) * pow2 e
        in if v \<ge> pow2 1024 then PInf else if v \<le> - pow2 1024 then NInf else Fin v)"

section \<open>Operations\<close>

fun f64_neg :: "f64 \<Rightarrow> f64" where
  "f64_neg (Fin x) = Fin (- x)"
| "f64_neg PInf = NInf"
| "f64_neg NInf = PInf"
| "f64_neg NaN = NaN"

definition inf_of_sign :: "rat \<Rightarrow> f64" where
  "inf_of_sign s = (if s > 0 then PInf else if s < 0 then NInf else NaN)"

fun f64_sign :: "f64 \<Rightarrow> rat" where
  "f64_sign (Fin x) = sgn x"
| "f64_sign PInf = 1"
| "f64_sign NInf = - 1"
| "f64_sign NaN = 0"

definition f64_mul :: "f64 \<Rightarrow> f64 \<Rightarrow> f64" where
  "f64_mul a b = (case (a, b) of
     (Fin x, Fin y) \<Rightarrow> f64_round (x * y)
   | (NaN, _) \<Rightarrow> NaN
   | (_, NaN) \<Rightarrow> NaN
   | _ \<Rightarrow> inf_of_sign (f64_sign a * f64_sign b))"

definition f64_div :: "f64 \<Rightarrow> f64 \<Rightarrow> f64" where
  "f64_div a b = (case (a, b) of
     (Fin x, Fin y) \<Rightarrow> if y = 0 then inf_of_sign (sgn x) else f64_round (x / y)
   | (Fin x, PInf) \<Rightarrow> Fin 0
   | (Fin x, NInf) \<Rightarrow> Fin 0
   | (PInf, Fin y) \<Rightarrow> if y < 0 then NInf else PInf
   | (NInf, Fin y) \<Rightarrow> if y < 0 then PInf else NInf
   | _ \<Rightarrow> NaN)"

definition f64_sub :: "f64 \<Rightarrow> f64 \<Rightarrow> f64" where
  "f64_sub a b = (case (a, b) of
     (Fin x, Fin y) \<Rightarrow> f64_round (x - y)
   | (NaN, _) \<Rightarrow> NaN
   | (_, NaN) \<Rightarrow> NaN
   | (PInf, PInf) \<Rightarrow> NaN
   | (NInf, NInf) \<Rightarrow> NaN
   | (PInf, _) \<Rightarrow> PInf
   | (NInf, _) \<Rightarrow> NInf
   | (Fin x, PInf) \<Rightarrow> NInf
   | (Fin x, NInf) \<Rightarrow> PInf)"

fun f64_less :: "f64 \<Rightarrow> f64 \<Rightarrow> bool" where
  "f64_less (Fin x) (Fin y) = (x < y)"
| "f64_less NInf (Fin y) = True"
| "f64_less (Fin x) PInf = True"
| "f64_less NInf PInf = True"
| "f64_less _ _ = False"

fun f64_le :: "f64 \<Rightarrow> f64 \<Rightarrow> bool" where
  "f64_le NaN b = False"
| "f64_le a NaN = False"
| "f64_le a b = (a = b \<or> f64_less a b)"

text \<open>\<^verbatim>\<open>float64(x)\<close> for an \<^verbatim>\<open>int64\<close>, \<^verbatim>\<open>int64(f)\<close> and \<^verbatim>\<open>math.Round\<close>.\<close>

definition i64_to_f64 :: "i64 \<Rightarrow> f64" where
  "i64_to_f64 x = f64_round (of_int (sint x))"

definition rat_trunc :: "rat \<Rightarrow> int" where
  "rat_trunc x = (if x < 0 then - \<lfloor>- x\<rfloor> else \<lfloor>x\<rfloor>)"

fun f64_to_i64 :: "f64 \<Rightarrow> i64" where
  "f64_to_i64 (Fin x) = (let t = rat_trunc x
     in if - (2 ^ 63) \<le> t \<and> t < 2 ^ 63 then word_of_int t else 0x8000000000000000)"
| "f64_to_i64 _ = 0x8000000000000000"

fun f64_Round :: "f64 \<Rightarrow> f64" where
  "f64_Round (Fin x) = Fin (if x < 0 then - of_int \<lfloor>- x + 1 / 2\<rfloor> else of_int \<lfloor>x + 1 / 2\<rfloor>)"
| "f64_Round v = v"

section \<open>Bounds on rounding\<close>

lemma pow2_pos [simp]: "0 < pow2 e"
  by (simp add: pow2_def)

lemma round_even_bounds: "y - 1 / 2 \<le> of_int (round_even y)" "of_int (round_even y) \<le> y + 1 / 2"
  by (simp_all add: round_even_def Let_def) linarith+

lemma round_even_nonneg: "0 \<le> y \<Longrightarrow> 0 \<le> round_even y"
  by (auto simp: round_even_def Let_def)

lemma round_even_le_double: "0 \<le> y \<Longrightarrow> of_int (round_even y) \<le> 2 * y"
proof (cases "y \<le> 1 / 2")
  case True
  assume "0 \<le> y"
  with True have "\<lfloor>y\<rfloor> = 0" by (simp add: floor_eq_iff)
  with True \<open>0 \<le> y\<close> show ?thesis by (simp add: round_even_def Let_def)
next
  case False
  with round_even_bounds(2) [of y] show ?thesis by simp
qed

lemma round_even_of_int [simp]: "round_even (of_int n) = n"
  by (simp add: round_even_def)

text \<open>A non-negative value rounds to a non-negative value of at most twice its size.\<close>

lemma f64_round_nonneg:
  assumes "0 \<le> x" and "x < pow2 1023"
  shows "\<exists>v. f64_round x = Fin v \<and> 0 \<le> v \<and> v \<le> 2 * x"
proof (cases "x = 0")
  case True
  then show ?thesis by (simp add: f64_round_def)
next
  case False
  define e where "e = max (lead_exp \<bar>x\<bar> - 52) (- 1074)"
  define v where "v = of_int (round_even (x / pow2 e)) * pow2 e"
  have y: "0 \<le> x / pow2 e" using assms(1) by (simp add: less_imp_le)
  have v: "0 \<le> v"
    using round_even_nonneg [OF y] by (simp add: v_def less_imp_le)
  have v2: "v \<le> 2 * x"
    using round_even_le_double [OF y] pos_le_divide_eq [OF pow2_pos] by (simp add: v_def)
  moreover have "2 * x < pow2 1024"
  proof -
    have "pow2 1024 = 2 * pow2 1023" by (simp add: pow2_def flip: power_Suc)
    with assms(2) show ?thesis by simp
  qed
  moreover have "f64_round x = Fin v"
  proof -
    have "v < pow2 1024" using v2 \<open>2 * x < pow2 1024\<close> by linarith
    moreover have "- pow2 1024 < v" using v pow2_pos [of 1024] by linarith
    ultimately show ?thesis
      using False by (simp add: f64_round_def e_def v_def Let_def not_le)
  qed
  ultimately show ?thesis using v by blast
qed

text \<open>Integers below \<open>2 ^ 53\<close> are exact.\<close>

lemma bitlen_nat_le: "n < 2 ^ k \<Longrightarrow> bitlen_nat n \<le> k"
proof (induction k arbitrary: n)
  case 0
  then show ?case by (simp add: bitlen_nat.simps)
next
  case (Suc k)
  have "n div 2 < 2 ^ k" using Suc.prems by auto
  from Suc.IH [OF this] show ?case by (simp add: bitlen_nat.simps [of n])
qed

lemma f64_round_of_int:
  assumes "\<bar>n\<bar> < 2 ^ 53"
  shows "f64_round (of_int n) = Fin (of_int n)"
proof (cases "n = 0")
  case True
  then show ?thesis by (simp add: f64_round_def)
next
  case False
  define e where "e = max (lead_exp (of_int \<bar>n\<bar>) - 52) (- 1074)"
  have "quotient_of (of_int \<bar>n\<bar>) = (\<bar>n\<bar>, 1)"
    by (rule quotient_of_rat_of_int)
  moreover have "bitlen_nat (nat \<bar>n\<bar>) \<le> 53" using assms by (intro bitlen_nat_le) simp
  moreover have "bitlen_nat (nat 1) = 1" by (simp add: bitlen_nat.simps)
  ultimately have "lead_exp (of_int \<bar>n\<bar>) \<le> 52"
    by (simp add: lead_exp_def Let_def)
  then have e: "e \<le> 0" by (simp add: e_def)
  have "(of_int n :: rat) / pow2 e = of_int (n * 2 ^ nat (- e))"
    using e by (cases "e = 0") (auto simp: pow2_def)
  then have "round_even (of_int n / pow2 e) = n * 2 ^ nat (- e)"
    by (simp del: of_int_mult)
  moreover have "of_int (n * 2 ^ nat (- e)) * pow2 e = (of_int n :: rat)"
    using e by (cases "e = 0") (auto simp: pow2_def)
  ultimately have v: "of_int (round_even (of_int n / pow2 e)) * pow2 e = (of_int n :: rat)"
    by simp
  have "of_int \<bar>n\<bar> < (of_int (2 ^ 53) :: rat)" using assms by (simp only: of_int_less_iff)
  also have "\<dots> \<le> pow2 1024" by (simp add: pow2_def)
  finally have "of_int \<bar>n\<bar> < pow2 1024" .
  then have lt: "of_int n < pow2 1024" "- pow2 1024 < of_int n" by linarith+
  have abs: "\<bar>of_int n :: rat\<bar> = of_int \<bar>n\<bar>" by simp
  show ?thesis
    unfolding f64_round_def Let_def abs e_def [symmetric] v using False lt by (simp add: not_le)
qed

section \<open>The relative error\<close>

lemma bitlen_nat_bounds: "0 < n \<Longrightarrow> 2 ^ (bitlen_nat n - 1) \<le> n \<and> n < 2 ^ bitlen_nat n \<and> 0 < bitlen_nat n"
proof (induction n rule: bitlen_nat.induct)
  case (1 n)
  show ?case
  proof (cases "n div 2 = 0")
    case True
    with 1(2) have "n = 1" by simp
    then show ?thesis by (simp add: bitlen_nat.simps)
  next
    case False
    with 1 have IH: "2 ^ (bitlen_nat (n div 2) - 1) \<le> n div 2" "n div 2 < 2 ^ bitlen_nat (n div 2)"
      "0 < bitlen_nat (n div 2)" by auto
    obtain b where b: "bitlen_nat (n div 2) = Suc b" using IH(3) gr0_implies_Suc by blast
    have "bitlen_nat n = Suc (Suc b)" using 1(2) b by (simp add: bitlen_nat.simps [of n])
    with IH b show ?thesis by auto
  qed
qed

lemma pow2_powi: "pow2 e = 2 powi e"
  by (simp add: pow2_def power_int_def inverse_eq_divide power_one_over)

lemma pow2_add: "pow2 (a + b) = pow2 a * pow2 b"
  by (simp add: pow2_powi power_int_add)

lemma pow2_nat [simp]: "pow2 (int n) = 2 ^ n"
  by (simp add: pow2_def)

lemma lead_exp_le:
  assumes "0 < x"
  shows "pow2 (lead_exp x) \<le> x"
proof -
  obtain p q where pq: "quotient_of x = (p, q)" by (cases "quotient_of x")
  have q: "0 < q" using pq by (rule quotient_of_denom_pos)
  have x: "x = of_int p / of_int q" using pq by (rule quotient_of_div)
  have p: "0 < p" using assms q by (simp add: x zero_less_divide_iff)
  define a b where "a = bitlen_nat (nat p)" and "b = bitlen_nat (nat q)"
  have pa: "2 ^ (a - 1) \<le> nat p" "0 < a" and qb: "nat q < 2 ^ b"
    using bitlen_nat_bounds [of "nat p"] bitlen_nat_bounds [of "nat q"] p q by (auto simp: a_def b_def)
  show ?thesis
  proof (cases "pow2 (int a - int b) \<le> x")
    case True
    then show ?thesis by (simp add: lead_exp_def pq Let_def a_def b_def)
  next
    case False
    have "int a - int b - 1 + int b = int (a - 1)" using pa(2) by linarith
    then have "pow2 (int a - int b - 1) * pow2 (int b) = pow2 (int (a - 1))"
      by (simp only: pow2_add [symmetric])
    then have eq: "pow2 (int a - int b - 1) * 2 ^ b = 2 ^ (a - 1)" by simp
    have "(2 :: rat) ^ (a - 1) \<le> of_int p"
    proof -
      have "int (2 ^ (a - 1)) \<le> p" using pa(1) p by linarith
      then have "rat_of_int (int (2 ^ (a - 1))) \<le> of_int p" by (simp only: of_int_le_iff)
      then show ?thesis by simp
    qed
    moreover have "(of_int q :: rat) \<le> 2 ^ b"
    proof -
      have "q \<le> int (2 ^ b)" using qb q by linarith
      then have "of_int q \<le> rat_of_int (int (2 ^ b))" by (simp only: of_int_le_iff)
      then show ?thesis by simp
    qed
    ultimately have "pow2 (int a - int b - 1) * of_int q \<le> of_int p"
      using eq mult_left_mono [of "of_int q" "2 ^ b" "pow2 (int a - int b - 1)"] pow2_pos
      by (smt (verit) less_imp_le order_trans)
    then have "pow2 (int a - int b - 1) \<le> x" using q by (simp add: x field_simps)
    with False show ?thesis by (simp add: lead_exp_def pq Let_def a_def b_def)
  qed
qed

text \<open>The relative error of rounding a normal value is at most \<open>2 ^ - 53\<close>.\<close>

lemma f64_round_error:
  assumes "pow2 (- 1000) \<le> x" and "x < pow2 1023"
  shows "\<exists>v. f64_round x = Fin v \<and> \<bar>v - x\<bar> \<le> x / 2 ^ 53"
proof -
  have x0: "0 < x" using assms(1) pow2_pos [of "- 1000"] by linarith
  obtain v where v: "f64_round x = Fin v" using f64_round_nonneg [of x] x0 assms(2) by auto
  define e where "e = max (lead_exp x - 52) (- 1074)"
  have e52: "pow2 e \<le> x / 2 ^ 52"
  proof -
    have "pow2 (lead_exp x - 52) * 2 ^ 52 = pow2 (lead_exp x)"
      using pow2_add [of "lead_exp x - 52" 52] pow2_nat [of 52] by simp
    then have "pow2 (lead_exp x - 52) \<le> x / 2 ^ 52"
      using lead_exp_le [OF x0] by (simp add: field_simps)
    moreover have "pow2 (- 1074) \<le> x / 2 ^ 52"
    proof -
      have "pow2 (- 1074) * 2 ^ 52 \<le> pow2 (- 1000)"
        by (simp add: pow2_def field_simps)
      then show ?thesis using assms(1) by (simp add: field_simps)
    qed
    ultimately show ?thesis by (simp add: e_def max_def)
  qed
  have veq: "v = of_int (round_even (x / pow2 e)) * pow2 e"
    using v x0 by (auto simp: f64_round_def Let_def e_def abs_of_pos split: if_splits)
  have "\<bar>of_int (round_even (x / pow2 e)) - x / pow2 e\<bar> \<le> 1 / 2"
    using round_even_bounds [of "x / pow2 e"] by linarith
  then have "\<bar>of_int (round_even (x / pow2 e)) - x / pow2 e\<bar> * pow2 e \<le> 1 / 2 * pow2 e"
    by (intro mult_right_mono) (auto simp: less_imp_le)
  moreover have "\<bar>of_int (round_even (x / pow2 e)) - x / pow2 e\<bar> * pow2 e = \<bar>v - x\<bar>"
  proof -
    have p: "0 < pow2 e" "pow2 e \<noteq> 0" by (rule pow2_pos, metis less_irrefl pow2_pos)
    have "(of_int (round_even (x / pow2 e)) - x / pow2 e) * pow2 e = v - x"
      using p by (simp add: veq left_diff_distrib)
    moreover have "\<bar>r\<bar> * pow2 e = \<bar>r * pow2 e\<bar>" for r
      by (simp add: abs_mult abs_of_pos [OF p(1)])
    ultimately show ?thesis by metis
  qed
  ultimately have "\<bar>v - x\<bar> \<le> x / 2 ^ 53" using e52 by simp
  with v show ?thesis by blast
qed

text \<open>Rounding keeps the sign, and does not reach minus infinity from a moderate value.\<close>

lemma f64_round_not_NaN: "f64_round x \<noteq> NaN"
  by (simp add: f64_round_def Let_def)

lemma f64_round_nonpos:
  assumes "x \<le> 0"
  shows "f64_round x \<noteq> PInf" and "f64_round x = Fin v \<Longrightarrow> v \<le> 0"
proof -
  have le: "of_int (round_even (x / pow2 e)) * pow2 e \<le> 0" for e
  proof -
    have "x / pow2 e \<le> 0" using assms by (simp add: divide_nonpos_pos)
    then have "(of_int (round_even (x / pow2 e)) :: rat) \<le> 1 / 2"
      using round_even_bounds(2) [of "x / pow2 e"] by linarith
    then have "round_even (x / pow2 e) \<le> 0" by linarith
    then show ?thesis by (simp add: mult_nonpos_nonneg less_imp_le)
  qed
  have "\<not> pow2 1024 \<le> of_int (round_even (x / pow2 e)) * pow2 e" for e
    using le [of e] pow2_pos [of 1024] by linarith
  then show "f64_round x \<noteq> PInf" by (simp add: f64_round_def Let_def)
  show "f64_round x = Fin v \<Longrightarrow> v \<le> 0" using le by (auto simp: f64_round_def Let_def split: if_splits)
qed

lemma f64_round_not_NInf:
  assumes "- (2 ^ 40) \<le> x"
  shows "f64_round x \<noteq> NInf"
proof (cases "0 \<le> x")
  case True
  have "0 \<le> of_int (round_even (x / pow2 e)) * pow2 e" for e
    using round_even_nonneg [of "x / pow2 e"] True by (simp add: less_imp_le)
  then have "\<not> of_int (round_even (x / pow2 e)) * pow2 e \<le> - pow2 1024" for e
    using pow2_pos [of 1024] by (metis neg_less_0_iff_less not_less order_less_le_trans)
  then show ?thesis by (simp add: f64_round_def Let_def)
next
  case False
  define e where "e = max (lead_exp \<bar>x\<bar> - 52) (- 1074)"
  have "pow2 e \<le> \<bar>x\<bar> + 1"
  proof (cases "lead_exp \<bar>x\<bar> - 52 \<le> - 1074")
    case True
    moreover have "pow2 (- 1074) \<le> 1" by (simp add: pow2_def field_simps)
    ultimately show ?thesis by (simp add: e_def max_def)
  next
    case lead: False
    have "pow2 (lead_exp \<bar>x\<bar> - 52) * 2 ^ 52 = pow2 (lead_exp \<bar>x\<bar>)"
      using pow2_add [of "lead_exp \<bar>x\<bar> - 52" 52] pow2_nat [of 52] by simp
    then have "pow2 (lead_exp \<bar>x\<bar> - 52) * 1 \<le> pow2 (lead_exp \<bar>x\<bar>)"
      by (metis less_imp_le mult_left_mono one_le_numeral one_le_power pow2_pos)
    also have "\<dots> \<le> \<bar>x\<bar>" using False by (intro lead_exp_le) simp
    finally show ?thesis using lead by (simp add: e_def max_def)
  qed
  moreover have "x - pow2 e / 2 \<le> of_int (round_even (x / pow2 e)) * pow2 e"
  proof -
    have p: "0 < pow2 e" by (rule pow2_pos)
    have "(x / pow2 e - 1 / 2) * pow2 e \<le> of_int (round_even (x / pow2 e)) * pow2 e"
      using round_even_bounds(1) [of "x / pow2 e"] less_imp_le [OF p] by (rule mult_right_mono)
    moreover have "pow2 e \<noteq> 0" using p by linarith
    then have "(x / pow2 e - 1 / 2) * pow2 e = x - pow2 e / 2" by (simp add: field_simps)
    ultimately show ?thesis by simp
  qed
  moreover have "(2 :: rat) ^ 43 < pow2 1024" by (simp add: pow2_def)
  ultimately have "\<not> of_int (round_even (x / pow2 e)) * pow2 e \<le> - pow2 1024"
    using assms False by (simp add: abs_if) 
  then show ?thesis using False by (simp add: f64_round_def Let_def e_def)
qed

end
