(* ===== verification/Staking.thy ===== *)
theory Staking
  imports Account Float64
begin

text \<open>
  Staking: \<^verbatim>\<open>src/account/stakeAccount.go\<close>, \<^verbatim>\<open>accountsStakingStates.go\<close>, \<^verbatim>\<open>reward.go\<close> and the staking
  sums of \<^verbatim>\<open>src/blocks/blockAccountState.go\<close>.  The global array \<^verbatim>\<open>StakingAccounts\<close> is a list of
  256 maps, the state that the operations take and return; its maps are never nil, as after
  genesis.  \<open>now\<close> is the clock reading \<^verbatim>\<open>time.Now().Unix()\<close> of a call.

  The lemmas: every operation keeps the table well formed; staking, unstaking, rewarding and
  withdrawing move the two totals by exactly the amount given; an unstake never reaches into
  what is still locked; and what the removal of expired locks really removes.
\<close>

section \<open>The reward for a block\<close>

definition MaxTotalSupply :: i64 where "MaxTotalSupply = 230000000000000000"
definition RewardRatio :: f64 where "RewardRatio = f64_round (1 / 10 ^ 7)"

definition getRemainingSupply :: "i64 \<Rightarrow> i64" where
  "getRemainingSupply supply = MaxTotalSupply - supply"

definition GetReward :: "i64 \<Rightarrow> i64" where
  "GetReward supply =
     f64_to_i64 (f64_Round (f64_mul RewardRatio (i64_to_f64 (getRemainingSupply supply))))"

text \<open>The rounding of the product can at most double it, which is far from the remaining supply.\<close>

lemma reward_of_remaining:
  fixes R :: int
  assumes "0 \<le> R" and "R \<le> 230000000000000000"
  obtains r where "f64_Round (f64_mul RewardRatio (f64_round (of_int R))) = Fin (of_int r)"
    and "0 \<le> r" and "r \<le> R"
proof -
  have big: "(10 :: rat) ^ 20 < pow2 1023" by (simp add: pow2_def)
  obtain c where c: "RewardRatio = Fin c" "0 \<le> c" "c \<le> 2 / 10 ^ 7"
    using f64_round_nonneg [of "1 / 10 ^ 7"] big by (auto simp: RewardRatio_def)
  have Rb: "(of_int R :: rat) \<le> 230000000000000000" using assms(2) by linarith
  obtain v1 where v1: "f64_round (of_int R) = Fin v1" "0 \<le> v1" "v1 \<le> 2 * of_int R"
    using f64_round_nonneg [of "of_int R"] assms(1) Rb big by auto
  have cv: "c * v1 \<le> 2 / 10 ^ 7 * (2 * of_int R)"
    using c v1 by (intro mult_mono) auto
  then have "c * v1 < pow2 1023" using Rb big by simp
  then obtain v2 where v2: "f64_round (c * v1) = Fin v2" "0 \<le> v2" "v2 \<le> 2 * (c * v1)"
    using f64_round_nonneg [of "c * v1"] c(2) v1(2) by auto
  define r where "r = \<lfloor>v2 + 1 / 2\<rfloor>"
  have v2b: "v2 \<le> 8 / 10 ^ 7 * of_int R" using v2(3) cv by simp
  have r0: "0 \<le> r" using v2(2) by (simp add: r_def)
  have rle: "of_int r \<le> v2 + 1 / 2" by (simp add: r_def)
  have "r \<le> R"
  proof (cases "r \<le> 0")
    case True
    then show ?thesis using assms(1) by linarith
  next
    case False
    then have "(1 :: rat) \<le> of_int r" by linarith
    then have "1 / 2 \<le> v2" using rle by linarith
    then have "(of_int r :: rat) \<le> of_int R" using rle v2b by (simp add: field_simps)
    then show ?thesis by (simp only: of_int_le_iff)
  qed
  moreover have "f64_Round (f64_mul RewardRatio (f64_round (of_int R))) = Fin (of_int r)"
    unfolding v1(1) c(1) r_def using v2(1,2) by (simp add: f64_mul_def)
  ultimately show thesis using r0 that by blast
qed

lemma GetReward_remaining:
  assumes "0 \<le> sint (getRemainingSupply supply)"
    and "sint (getRemainingSupply supply) \<le> 230000000000000000"
  shows "0 \<le> sint (GetReward supply) \<and>
    sint (GetReward supply) \<le> sint (getRemainingSupply supply)"
proof -
  obtain r where r: "f64_Round (f64_mul RewardRatio (i64_to_f64 (getRemainingSupply supply))) = Fin (of_int r)"
    and b: "0 \<le> r" "r \<le> sint (getRemainingSupply supply)"
    unfolding i64_to_f64_def using reward_of_remaining [OF assms] by blast
  have "GetReward supply = word_of_int r"
    using r b assms(2) by (simp add: GetReward_def rat_trunc_def Let_def)
  moreover have "sint (word_of_int r :: i64) = r"
    using b assms(2) by (intro sint_i64_of_int) auto
  ultimately show ?thesis using b by simp
qed

lemma GetReward_bounds:
  assumes "0 \<le> sint supply" and "sint supply \<le> sint MaxTotalSupply"
  shows "0 \<le> sint (GetReward supply)"
    and "sint supply + sint (GetReward supply) \<le> sint MaxTotalSupply"
    and "sint (supply + GetReward supply) = sint supply + sint (GetReward supply)"
proof -
  have rem: "sint (getRemainingSupply supply) = sint MaxTotalSupply - sint supply"
    unfolding getRemainingSupply_def using assms
    by (intro sint_i64_diff) (auto simp: MaxTotalSupply_def)
  then have b: "0 \<le> sint (GetReward supply)"
      "sint supply + sint (GetReward supply) \<le> sint MaxTotalSupply"
    using GetReward_remaining [of "supply"] assms by (auto simp: MaxTotalSupply_def)
  then show "0 \<le> sint (GetReward supply)"
    and "sint supply + sint (GetReward supply) \<le> sint MaxTotalSupply" by auto
  show "sint (supply + GetReward supply) = sint supply + sint (GetReward supply)"
    using b assms by (intro sint_i64_add) (auto simp: MaxTotalSupply_def)
qed

section \<open>Staking accounts\<close>

record StakingDetail =
  sd_Amount :: i64
  sd_Reward :: i64
  sd_LastUpdated :: i64

record StakingAccount =
  StakedBalance :: i64
  StakingRewards :: i64
  LockedAmount :: "i64 list"
  ReleasePerBlock :: "i64 list"
  LockedInitBlock :: "i64 list"
  sa_DelegatedAccount :: addr20
  sa_Address :: addr20
  OperationalAccount :: bool
  StakingDetails :: "(i64, StakingDetail list) gomap"

definition zero_StakingAccount :: StakingAccount where
  "zero_StakingAccount = \<lparr>StakedBalance = 0, StakingRewards = 0, LockedAmount = [],
     ReleasePerBlock = [], LockedInitBlock = [], sa_DelegatedAccount = replicate 20 0,
     sa_Address = replicate 20 0, OperationalAccount = False, StakingDetails = []\<rparr>"

type_synonym staking_map = "(addr20, StakingAccount) gomap"
type_synonym staking = "staking_map list"

text \<open>\<^verbatim>\<open>StakingAccounts[i]\<close>: an index out of range panics.\<close>

definition staking_at :: "int \<Rightarrow> staking \<Rightarrow> staking_map result" where
  "staking_at i s = (if 0 \<le> i \<and> i < int (length s) then Ok (s ! nat i) else Panic)"

definition staking_store :: "int \<Rightarrow> addr20 \<Rightarrow> StakingAccount \<Rightarrow> (staking, unit) op" where
  "staking_store i a acc s = (case staking_at i s of
     Ok m \<Rightarrow> (Ok (), s[nat i := mput a acc m]) | Err e \<Rightarrow> (Err e, s) | Panic \<Rightarrow> (Panic, s))"

definition GetStakingAccountByAddressBytes :: "bytes \<Rightarrow> int \<Rightarrow> staking \<Rightarrow> StakingAccount result" where
  "GetStakingAccountByAddressBytes address delegatedAccount s =
     rbind (slice address 0 AddressLength) (\<lambda>b.
     rbind (staking_at delegatedAccount s) (\<lambda>m.
       Ok (mgetd zero_StakingAccount m (copy_into (replicate 20 0) b))))"

text \<open>
  The sum of what is still locked at a height, and the positions of the locks that have run
  out: the loop that \<^verbatim>\<open>GetLockedAmount\<close> and \<^verbatim>\<open>Unstake\<close> share.
\<close>

definition lock_at :: "StakingAccount \<Rightarrow> i64 \<Rightarrow> nat \<Rightarrow> i64 result" where
  "lock_at acc height ind =
     (if ind < length (LockedAmount acc) \<and> ind < length (LockedInitBlock acc)
         \<and> ind < length (ReleasePerBlock acc)
      then Ok (LockedAmount acc ! ind -
        (height - LockedInitBlock acc ! ind) * (ReleasePerBlock acc ! ind))
      else Panic)"

fun locked_scan ::
  "StakingAccount \<Rightarrow> i64 \<Rightarrow> nat list \<Rightarrow> i64 \<times> nat list \<Rightarrow> (i64 \<times> nat list) result" where
  "locked_scan acc height [] st = Ok st"
| "locked_scan acc height (ind # inds) (locked, toRemove) =
     rbind (lock_at acc height ind) (\<lambda>lock.
       if sint lock \<le> 0 then locked_scan acc height inds (locked + 0, toRemove @ [ind])
       else locked_scan acc height inds (locked + lock, toRemove))"

definition GetLockedAmount :: "bytes \<Rightarrow> i64 \<Rightarrow> int \<Rightarrow> staking \<Rightarrow> i64 result" where
  "GetLockedAmount accb height delegatedAccount s =
     (if length accb \<noteq> AddressLength then Err ''wrong address length''
      else rbind (GetStakingAccountByAddressBytes accb delegatedAccount s) (\<lambda>acc.
        rbind (locked_scan acc height [0..<length (LockedAmount acc)] (0, [])) (\<lambda>(locked, _).
          Ok locked)))"

text \<open>
  \<^verbatim>\<open>if _, ok := acc.StakingDetails[height]; !ok { acc.StakingDetails = map{}; ... }\<close> and the append:
  the details of other heights are dropped when the height is new.
\<close>

definition add_detail :: "i64 \<Rightarrow> StakingDetail \<Rightarrow> StakingAccount \<Rightarrow> StakingAccount" where
  "add_detail height sd acc =
     (let details = (case map_of (StakingDetails acc) height of
          Some _ \<Rightarrow> StakingDetails acc | None \<Rightarrow> [(height, [])])
      in acc\<lparr>StakingDetails := mput height (mgetd [] details height @ [sd]) details\<rparr>)"

definition Stake ::
  "bytes \<Rightarrow> i64 \<Rightarrow> i64 \<Rightarrow> int \<Rightarrow> bool \<Rightarrow> i64 \<Rightarrow> i64 \<Rightarrow> i64 \<Rightarrow> (staking, unit) op" where
  "Stake accb amount height delegatedAccount operational lockedAmount releasePerBlock now =
     (if length accb \<noteq> AddressLength then serr ''wrong address length''
      else
      sbind (sget (GetStakingAccountByAddressBytes accb delegatedAccount)) (\<lambda>r.
      sbind (slift r) (\<lambda>acc0.
      let acc = (if sa_Address acc0 \<noteq> accb
                 then acc0\<lparr>sa_Address := copy_into (sa_Address acc0) accb\<rparr> else acc0) in
      if sint amount < 0 then serr ''staked amount has to be larger or equal than 0''
      else if sint releasePerBlock < 0 then serr ''releasePerBlock has to be larger or equal than 0''
      else if sint releasePerBlock > sint lockedAmount
      then serr ''releasePerBlock cannot be larger than lockedAmount''
      else if sint lockedAmount < 0 then serr ''lockedAmount has to be larger or equal than 0''
      else if sint lockedAmount > sint amount then serr ''locked amount cannot be larger than amount''
      else let
        acc1 = (if lockedAmount = 0 \<and> \<not> OperationalAccount acc
                then acc\<lparr>OperationalAccount := operational\<rparr> else acc);
        acc2 = acc1\<lparr>StakedBalance := StakedBalance acc1 + amount\<rparr>;
        acc3 = (if sint lockedAmount > 0
                then acc2\<lparr>LockedInitBlock := LockedInitBlock acc2 @ [height],
                  LockedAmount := LockedAmount acc2 @ [lockedAmount],
                  ReleasePerBlock := ReleasePerBlock acc2 @ [releasePerBlock]\<rparr>
                else acc2);
        acc4 = add_detail height \<lparr>sd_Amount = amount, sd_Reward = 0, sd_LastUpdated = now\<rparr> acc3
      in sbind (slift (GetDelegatedAccountAddress (word_of_int delegatedAccount))) (\<lambda>da.
        let acc5 = acc4\<lparr>sa_DelegatedAccount := copy_into (sa_DelegatedAccount acc4) (addr_ByteValue da),
              sa_Address := copy_into (sa_Address acc4) accb\<rparr>
        in staking_store delegatedAccount (sa_Address acc5) acc5))))"

text \<open>
  \<^verbatim>\<open>append(xs[:ind], xs[ind+1:]...)\<close>, and the loop that applies it to the three lists at each
  recorded position, in increasing order.
\<close>

definition remove_at :: "nat \<Rightarrow> 'a list \<Rightarrow> 'a list result" where
  "remove_at ind xs = (if ind < length xs then Ok (take ind xs @ drop (Suc ind) xs) else Panic)"

fun remove_locks :: "nat list \<Rightarrow> StakingAccount \<Rightarrow> StakingAccount result" where
  "remove_locks [] acc = Ok acc"
| "remove_locks (ind # inds) acc =
     rbind (remove_at ind (LockedAmount acc)) (\<lambda>la.
     rbind (remove_at ind (ReleasePerBlock acc)) (\<lambda>rp.
     rbind (remove_at ind (LockedInitBlock acc)) (\<lambda>li.
       remove_locks inds (acc\<lparr>LockedAmount := la, ReleasePerBlock := rp, LockedInitBlock := li\<rparr>))))"

definition Unstake :: "bytes \<Rightarrow> i64 \<Rightarrow> i64 \<Rightarrow> int \<Rightarrow> i64 \<Rightarrow> (staking, unit) op" where
  "Unstake accb amount height delegatedAccount now =
     (if length accb \<noteq> AddressLength then serr ''wrong address length''
      else
      sbind (sget (GetStakingAccountByAddressBytes accb delegatedAccount)) (\<lambda>r.
      sbind (slift r) (\<lambda>acc.
      if sa_Address acc \<noteq> accb then serr ''no account present in unstaking account''
      else if sint amount \<ge> 0 then serr ''unstaked amount has to be larger than 0''
      else if sint (StakedBalance acc + amount) < 0 then serr ''insufficient staked balance''
      else
      sbind (slift (locked_scan acc height [0..<length (LockedAmount acc)] (0, [])))
        (\<lambda>(locked, toRemoveLockedInd).
      if sint (StakedBalance acc - locked + amount) < 0
      then serr ''insufficient staked balance after locking''
      else
      sbind (slift (remove_locks toRemoveLockedInd acc)) (\<lambda>acc1.
      let acc2 = acc1\<lparr>StakedBalance := StakedBalance acc1 + amount\<rparr>;
          acc3 = (if StakedBalance acc2 = 0 then acc2\<lparr>OperationalAccount := False\<rparr> else acc2);
          acc4 = add_detail height \<lparr>sd_Amount = amount, sd_Reward = 0, sd_LastUpdated = now\<rparr> acc3
      in staking_store delegatedAccount (sa_Address acc4) acc4)))))"

definition Reward :: "bytes \<Rightarrow> i64 \<Rightarrow> i64 \<Rightarrow> int \<Rightarrow> i64 \<Rightarrow> (staking, unit) op" where
  "Reward accb reward height delegatedAccount now =
     (if length accb \<noteq> AddressLength then serr ''wrong address length''
      else
      sbind (sget (GetStakingAccountByAddressBytes accb delegatedAccount)) (\<lambda>r.
      sbind (slift r) (\<lambda>acc.
      if sa_Address acc \<noteq> accb then serr ''no account present in rewarding account''
      else if sint reward < 0 then serr ''reward has to be larger than 0''
      else let
        acc1 = acc\<lparr>StakingRewards := StakingRewards acc + reward\<rparr>;
        acc2 = add_detail height \<lparr>sd_Amount = 0, sd_Reward = reward, sd_LastUpdated = now\<rparr> acc1
      in staking_store delegatedAccount (sa_Address acc2) acc2)))"

definition WithdrawReward :: "bytes \<Rightarrow> i64 \<Rightarrow> i64 \<Rightarrow> int \<Rightarrow> i64 \<Rightarrow> (staking, unit) op" where
  "WithdrawReward accb amount height delegatedAccount now =
     (if length accb \<noteq> AddressLength then serr ''wrong address length''
      else
      sbind (sget (GetStakingAccountByAddressBytes accb delegatedAccount)) (\<lambda>r.
      sbind (slift r) (\<lambda>acc.
      if sa_Address acc \<noteq> accb then serr ''no account present in withdraw rewarding''
      else if sint amount \<ge> 0 then serr ''withdraw amount has to be larger than 0''
      else if sint (StakingRewards acc + amount) < 0
      then serr ''insufficient rewards balance to withdraw''
      else let
        acc1 = acc\<lparr>StakingRewards := StakingRewards acc + amount\<rparr>;
        acc2 = add_detail height \<lparr>sd_Amount = 0, sd_Reward = amount, sd_LastUpdated = now\<rparr> acc1
      in staking_store delegatedAccount (sa_Address acc2) acc2)))"

section \<open>Totals\<close>

text \<open>\<^verbatim>\<open>account.GetStakedInAllDelegatedAccounts\<close> and \<^verbatim>\<open>blocks.GetSupplyInStakedAccounts\<close>.\<close>

definition GetStakedInAllDelegatedAccounts :: "staking \<Rightarrow> i64" where
  "GetStakedInAllDelegatedAccounts s = sum_list (map (msum StakedBalance) s)"

definition GetSupplyInStakedAccounts :: "staking \<Rightarrow> i64 \<times> i64" where
  "GetSupplyInStakedAccounts s =
     (sum_list (map (msum StakedBalance) s), sum_list (map (msum StakingRewards) s))"

text \<open>
  \<^verbatim>\<open>GetStakedInDelegatedAccount\<close>: the accounts that stake with delegated account \<open>n\<close>, their sum as a
  float, and the operational account with the largest stake, in the order of the map.
\<close>

fun staked_scan ::
  "staking_map \<Rightarrow> Account list \<times> i64 \<times> Account \<Rightarrow> Account list \<times> i64 \<times> Account" where
  "staked_scan [] st = st"
| "staked_scan ((k, sa) # m) (accs, sumv, intAcc) =
     (let acc = zero_Account\<lparr>Balance := StakedBalance sa,
            acc_Address := copy_into (replicate 20 0) (sa_Address sa)\<rparr>;
          intAcc' = (if sint (Balance intAcc) < sint (StakedBalance sa) \<and> OperationalAccount sa
            then intAcc\<lparr>Balance := StakedBalance sa,
              acc_Address := copy_into (acc_Address intAcc) (sa_Address sa)\<rparr>
            else intAcc)
      in staked_scan m (accs @ [acc], sumv + StakedBalance sa, intAcc'))"

definition GetStakedInDelegatedAccount :: "int \<Rightarrow> staking \<Rightarrow> (Account list \<times> f64 \<times> Account) result" where
  "GetStakedInDelegatedAccount n s = rbind (staking_at n s) (\<lambda>m.
     let (accs, sumv, intAcc) = staked_scan m ([], 0, zero_Account)
     in Ok (accs, i64_to_f64 sumv, intAcc))"

section \<open>Well-formed staking tables\<close>

definition sa_ok :: "addr20 \<Rightarrow> StakingAccount \<Rightarrow> bool" where
  "sa_ok k a \<longleftrightarrow> length k = 20 \<and> length (sa_Address a) = 20 \<and> length (sa_DelegatedAccount a) = 20 \<and>
     length (ReleasePerBlock a) = length (LockedAmount a) \<and>
     length (LockedInitBlock a) = length (LockedAmount a)"

definition staking_ok :: "staking \<Rightarrow> bool" where
  "staking_ok s \<longleftrightarrow> length s = 256 \<and>
     (\<forall>m \<in> set s. gomap_ok m \<and> (\<forall>(k, a) \<in> set m. sa_ok k a))"

lemma zero_StakingAccount_fields [simp]:
  "StakedBalance zero_StakingAccount = 0" "StakingRewards zero_StakingAccount = 0"
  "LockedAmount zero_StakingAccount = []" "ReleasePerBlock zero_StakingAccount = []"
  "LockedInitBlock zero_StakingAccount = []"
  "length (sa_DelegatedAccount zero_StakingAccount) = 20"
  "sa_Address zero_StakingAccount = replicate 20 0"
  by (simp_all add: zero_StakingAccount_def)

lemma staking_at_Ok: "staking_at i s = Ok m \<longleftrightarrow> 0 \<le> i \<and> i < int (length s) \<and> m = s ! nat i"
  by (auto simp: staking_at_def)

lemma staking_ok_at:
  assumes "staking_ok s" and "staking_at i s = Ok m"
  shows "gomap_ok m" and "\<forall>(k, a) \<in> set m. sa_ok k a" and "m \<in> set s"
  using assms by (auto simp: staking_ok_def staking_at_Ok)

text \<open>An entry that the lookup returns is well formed, and so is the zero value it returns otherwise.\<close>

lemma staking_lookup_fields:
  assumes "staking_ok s" and "staking_at i s = Ok m"
  shows "length (sa_DelegatedAccount (mgetd zero_StakingAccount m k)) = 20"
    and "length (ReleasePerBlock (mgetd zero_StakingAccount m k)) =
      length (LockedAmount (mgetd zero_StakingAccount m k))"
    and "length (LockedInitBlock (mgetd zero_StakingAccount m k)) =
      length (LockedAmount (mgetd zero_StakingAccount m k))"
    and "length (sa_Address (mgetd zero_StakingAccount m k)) = 20"
  using staking_ok_at(2) [OF assms]
  by (auto simp: mgetd_def sa_ok_def split: option.split dest!: map_of_SomeD)

lemma GetStakingAccountByAddressBytes_Ok [simp]:
  "length a = 20 \<Longrightarrow> GetStakingAccountByAddressBytes a i s =
    rbind (staking_at i s) (\<lambda>m. Ok (mgetd zero_StakingAccount m a))"
  by (simp add: GetStakingAccountByAddressBytes_def slice_def)

lemma add_detail_fields [simp]:
  "StakedBalance (add_detail h d a) = StakedBalance a"
  "StakingRewards (add_detail h d a) = StakingRewards a"
  "LockedAmount (add_detail h d a) = LockedAmount a"
  "ReleasePerBlock (add_detail h d a) = ReleasePerBlock a"
  "LockedInitBlock (add_detail h d a) = LockedInitBlock a"
  "sa_DelegatedAccount (add_detail h d a) = sa_DelegatedAccount a"
  "sa_Address (add_detail h d a) = sa_Address a"
  "OperationalAccount (add_detail h d a) = OperationalAccount a"
  by (simp_all add: add_detail_def Let_def)

text \<open>
  What all four operations do to the table: one entry is replaced, its stake and its rewards
  moved by given amounts.
\<close>

definition staking_moves :: "int \<Rightarrow> addr20 \<Rightarrow> i64 \<Rightarrow> i64 \<Rightarrow> staking \<Rightarrow> staking \<Rightarrow> bool" where
  "staking_moves i a ds dr s s' \<longleftrightarrow> (\<exists>m acc'. staking_at i s = Ok m \<and>
     s' = s[nat i := mput a acc' m] \<and> sa_ok a acc' \<and>
     StakedBalance acc' = StakedBalance (mgetd zero_StakingAccount m a) + ds \<and>
     StakingRewards acc' = StakingRewards (mgetd zero_StakingAccount m a) + dr)"

lemma sum_list_update_group:
  fixes xs :: "'n::ab_group_add list"
  shows "i < length xs \<Longrightarrow> sum_list (xs[i := y]) = sum_list xs + y - xs ! i"
  by (induction xs arbitrary: i) (auto simp: nth_Cons split: nat.split simp: algebra_simps)

lemma staking_sum_update:
  fixes f :: "StakingAccount \<Rightarrow> i64"
  assumes "staking_ok s" and "staking_at i s = Ok m" and "f zero_StakingAccount = 0"
  shows "sum_list (map (msum f) (s[nat i := mput a acc' m])) =
    sum_list (map (msum f) s) + f acc' - f (mgetd zero_StakingAccount m a)"
proof -
  have i: "nat i < length s" "m = s ! nat i" using assms(2) by (auto simp: staking_at_Ok)
  have "msum f (mput a acc' m) = msum f m + f acc' - f (mgetd zero_StakingAccount m a)"
    using assms staking_ok_at(1) by (intro msum_mput_zero) auto
  with i show ?thesis by (simp add: map_update sum_list_update_group)
qed

lemma staking_moves_totals:
  assumes "staking_ok s" and "staking_moves i a ds dr s s'"
  shows "staking_ok s'"
    and "GetSupplyInStakedAccounts s' =
      (fst (GetSupplyInStakedAccounts s) + ds, snd (GetSupplyInStakedAccounts s) + dr)"
proof -
  obtain m acc' where at: "staking_at i s = Ok m" and s': "s' = s[nat i := mput a acc' m]"
    and ok: "sa_ok a acc'"
    and bal: "StakedBalance acc' = StakedBalance (mgetd zero_StakingAccount m a) + ds"
    "StakingRewards acc' = StakingRewards (mgetd zero_StakingAccount m a) + dr"
    using assms(2) by (auto simp: staking_moves_def)
  have "gomap_ok (mput a acc' m)" "\<forall>(k, b) \<in> set (mput a acc' m). sa_ok k b"
    using staking_ok_at [OF assms(1) at] ok by (auto simp: set_mput)
  then show "staking_ok s'"
    using assms(1) s' by (auto simp: staking_ok_def dest!: set_update_subset_insert [THEN subsetD])
  show "GetSupplyInStakedAccounts s' =
      (fst (GetSupplyInStakedAccounts s) + ds, snd (GetSupplyInStakedAccounts s) + dr)"
    using staking_sum_update [OF assms(1) at] bal
    by (simp add: GetSupplyInStakedAccounts_def s')
qed

section \<open>What the operations do\<close>

lemma staking_store_Ok:
  "staking_store i a acc s = (Ok (), s') \<longleftrightarrow>
    (\<exists>m. staking_at i s = Ok m \<and> s' = s[nat i := mput a acc m])"
  by (auto simp: staking_store_def split: result.splits)

lemma staking_movesI:
  assumes "staking_at i s = Ok m" and "staking_store i a acc' s = (Ok (), s')" and "sa_ok a acc'"
    and "StakedBalance acc' = StakedBalance (mgetd zero_StakingAccount m a) + ds"
    and "StakingRewards acc' = StakingRewards (mgetd zero_StakingAccount m a) + dr"
  shows "staking_moves i a ds dr s s'"
  using assms by (auto simp: staking_moves_def staking_store_Ok)

lemma remove_locks_fields:
  assumes "remove_locks inds acc = Ok acc'"
    and "length (ReleasePerBlock acc) = length (LockedAmount acc)"
    and "length (LockedInitBlock acc) = length (LockedAmount acc)"
  shows "StakedBalance acc' = StakedBalance acc \<and> StakingRewards acc' = StakingRewards acc \<and>
    sa_Address acc' = sa_Address acc \<and> sa_DelegatedAccount acc' = sa_DelegatedAccount acc \<and>
    OperationalAccount acc' = OperationalAccount acc \<and>
    length (ReleasePerBlock acc') = length (LockedAmount acc') \<and>
    length (LockedInitBlock acc') = length (LockedAmount acc')"
  using assms
proof (induction inds arbitrary: acc)
  case Nil
  then show ?case by simp
next
  case (Cons ind inds)
  from Cons.prems(1) obtain la rp li where
    "remove_at ind (LockedAmount acc) = Ok la" "remove_at ind (ReleasePerBlock acc) = Ok rp"
    "remove_at ind (LockedInitBlock acc) = Ok li"
    "remove_locks inds (acc\<lparr>LockedAmount := la, ReleasePerBlock := rp, LockedInitBlock := li\<rparr>) = Ok acc'"
    by (auto simp: rbind_Ok_iff)
  with Cons.IH [of "acc\<lparr>LockedAmount := la, ReleasePerBlock := rp, LockedInitBlock := li\<rparr>"]
    Cons.prems(2,3) show ?case by (auto simp: remove_at_def split: if_splits)
qed

lemma Stake_moves [ledger]:
  assumes "staking_ok s"
    and "Stake accb amount height i op la rpb now s = (Ok (), s')"
  shows "staking_moves i accb amount 0 s s'"
proof -
  from assms(2) have len: "length accb = 20" by (auto simp: Stake_def serr_def split: if_splits)
  with assms(2) obtain m where at: "staking_at i s = Ok m"
    by (auto simp: Stake_def elim!: sbind_OkE split: if_splits simp: rbind_Ok_iff)
  note F = staking_lookup_fields [OF assms(1) at, of accb]
  obtain acc' where "staking_store i accb acc' s = (Ok (), s')" "sa_ok accb acc'"
    "StakedBalance acc' = StakedBalance (mgetd zero_StakingAccount m accb) + amount"
    "StakingRewards acc' = StakingRewards (mgetd zero_StakingAccount m accb)"
    using assms(2) len at F
    by (auto simp: Stake_def Let_def GetDelegatedAccountAddress_Ok sa_ok_def
        elim!: sbind_OkE split: if_splits)
  with at show ?thesis by (intro staking_movesI [where m = m and acc' = acc']) simp_all
qed

text \<open>The three operations on a present account: their checks, and the entry they store.\<close>

lemma Unstake_OkE:
  assumes "staking_ok s" and "Unstake accb amount height i now s = (Ok (), s')"
  obtains m acc locked gone acc1 acc' where "length accb = 20" and "staking_at i s = Ok m"
    and "acc = mgetd zero_StakingAccount m accb" and "sa_Address acc = accb"
    and "sint amount < 0" and "0 \<le> sint (StakedBalance acc + amount)"
    and "locked_scan acc height [0..<length (LockedAmount acc)] (0, []) = Ok (locked, gone)"
    and "0 \<le> sint (StakedBalance acc - locked + amount)"
    and "remove_locks gone acc = Ok acc1"
    and "acc' = add_detail height \<lparr>sd_Amount = amount, sd_Reward = 0, sd_LastUpdated = now\<rparr>
      (acc1\<lparr>StakedBalance := StakedBalance acc1 + amount,
        OperationalAccount := OperationalAccount acc1 \<and> StakedBalance acc1 + amount \<noteq> 0\<rparr>)"
    and "staking_store i (sa_Address acc') acc' s = (Ok (), s')"
proof -
  from assms(2) have len: "length accb = 20" by (auto simp: Unstake_def serr_def split: if_splits)
  from assms(2) len obtain m acc where acc: "staking_at i s = Ok m"
      "acc = mgetd zero_StakingAccount m accb"
    by (auto simp: Unstake_def elim!: sbind_OkE split: if_splits simp: rbind_Ok_iff)
  with assms(2) len have g: "sa_Address acc = accb" "sint amount < 0"
      "0 \<le> sint (StakedBalance acc + amount)"
    by (auto simp: Unstake_def elim!: sbind_OkE split: if_splits)
  obtain locked gone acc1 where l:
    "locked_scan acc height [0..<length (LockedAmount acc)] (0, []) = Ok (locked, gone)"
    "0 \<le> sint (StakedBalance acc - locked + amount)" "remove_locks gone acc = Ok acc1"
    using assms(2) len acc
    by (auto simp: Unstake_def elim!: sbind_OkE split: if_splits)
  let ?acc' = "add_detail height \<lparr>sd_Amount = amount, sd_Reward = 0, sd_LastUpdated = now\<rparr>
      (acc1\<lparr>StakedBalance := StakedBalance acc1 + amount,
        OperationalAccount := OperationalAccount acc1 \<and> StakedBalance acc1 + amount \<noteq> 0\<rparr>)"
  have eq: "(if b = 0 then acc1\<lparr>StakedBalance := b, OperationalAccount := False\<rparr>
      else acc1\<lparr>StakedBalance := b\<rparr>)
    = acc1\<lparr>StakedBalance := b, OperationalAccount := OperationalAccount acc1 \<and> b \<noteq> 0\<rparr>" for b
    by (cases acc1) auto
  have "staking_store i (sa_Address ?acc') ?acc' s = (Ok (), s')"
    using assms(2) len acc l g
    by (auto simp: Unstake_def Let_def eq elim!: sbind_OkE)
  then show thesis by (rule that [OF len acc g l refl])
qed

lemma Unstake_moves [ledger]:
  assumes "staking_ok s" and "Unstake accb amount height i now s = (Ok (), s')"
  shows "staking_moves i accb amount 0 s s'"
  using assms
proof (rule Unstake_OkE)
  fix m acc locked gone acc1 acc'
  assume len: "length accb = 20" and at: "staking_at i s = Ok m"
    and acc: "acc = mgetd zero_StakingAccount m accb" "sa_Address acc = accb"
    and rem: "remove_locks gone acc = Ok acc1"
    and acc': "acc' = add_detail height \<lparr>sd_Amount = amount, sd_Reward = 0, sd_LastUpdated = now\<rparr>
      (acc1\<lparr>StakedBalance := StakedBalance acc1 + amount,
        OperationalAccount := OperationalAccount acc1 \<and> StakedBalance acc1 + amount \<noteq> 0\<rparr>)"
    and st: "staking_store i (sa_Address acc') acc' s = (Ok (), s')"
  note F = staking_lookup_fields [OF assms(1) at, of accb, folded acc(1)]
  from remove_locks_fields [OF rem F(2,3)] F acc len show ?thesis
    using at st acc' by (intro staking_movesI [where m = m and acc' = acc']) (auto simp: sa_ok_def)
qed

lemma Reward_moves [ledger]:
  assumes "staking_ok s" and "Reward accb r height i now s = (Ok (), s')"
  shows "staking_moves i accb 0 r s s'" and "0 \<le> sint r"
proof -
  from assms(2) have len: "length accb = 20" by (auto simp: Reward_def serr_def split: if_splits)
  with assms(2) obtain m where at: "staking_at i s = Ok m"
    by (auto simp: Reward_def elim!: sbind_OkE split: if_splits simp: rbind_Ok_iff)
  note F = staking_lookup_fields [OF assms(1) at, of accb]
  obtain acc' where "staking_store i accb acc' s = (Ok (), s')" "sa_ok accb acc'"
    "StakedBalance acc' = StakedBalance (mgetd zero_StakingAccount m accb)"
    "StakingRewards acc' = StakingRewards (mgetd zero_StakingAccount m accb) + r"
    using assms(2) len at F
    by (auto simp: Reward_def Let_def sa_ok_def elim!: sbind_OkE split: if_splits)
  with at show "staking_moves i accb 0 r s s'"
    by (intro staking_movesI [where m = m and acc' = acc']) simp_all
  show "0 \<le> sint r" using assms(2) len
    by (auto simp: Reward_def Let_def elim!: sbind_OkE split: if_splits)
qed

lemma WithdrawReward_moves [ledger]:
  assumes "staking_ok s" and "WithdrawReward accb amount height i now s = (Ok (), s')"
  shows "staking_moves i accb 0 amount s s'"
proof -
  from assms(2) have len: "length accb = 20" by (auto simp: WithdrawReward_def serr_def split: if_splits)
  with assms(2) obtain m where at: "staking_at i s = Ok m"
    by (auto simp: WithdrawReward_def elim!: sbind_OkE split: if_splits simp: rbind_Ok_iff)
  note F = staking_lookup_fields [OF assms(1) at, of accb]
  obtain acc' where "staking_store i accb acc' s = (Ok (), s')" "sa_ok accb acc'"
    "StakedBalance acc' = StakedBalance (mgetd zero_StakingAccount m accb)"
    "StakingRewards acc' = StakingRewards (mgetd zero_StakingAccount m accb) + amount"
    using assms(2) len at F
    by (auto simp: WithdrawReward_def Let_def sa_ok_def elim!: sbind_OkE split: if_splits)
  with at show ?thesis by (intro staking_movesI [where m = m and acc' = acc']) simp_all
qed

section \<open>Locks\<close>

text \<open>An unstake leaves at least the locked amount behind.\<close>

lemma Unstake_keeps_locked:
  assumes "staking_ok s" and "Unstake accb amount height i now s = (Ok (), s')"
    and "GetLockedAmount accb height i s = Ok locked" and "0 \<le> sint locked"
    and "staking_at i s = Ok m" and "0 \<le> sint (StakedBalance (mgetd zero_StakingAccount m accb))"
    and "staking_at i s' = Ok m'"
  shows "sint locked \<le> sint (StakedBalance (mgetd zero_StakingAccount m' accb))"
  using assms(1,2)
proof (rule Unstake_OkE)
  fix m1 acc locked' gone acc1 acc'
  assume len: "length accb = 20" and at: "staking_at i s = Ok m1"
    and acc: "acc = mgetd zero_StakingAccount m1 accb" "sa_Address acc = accb"
    and neg: "sint amount < 0" and pos: "0 \<le> sint (StakedBalance acc + amount)"
    and scan: "locked_scan acc height [0..<length (LockedAmount acc)] (0, []) = Ok (locked', gone)"
    and enough: "0 \<le> sint (StakedBalance acc - locked' + amount)"
  let ?b = "StakedBalance acc"
  have l: "locked' = locked"
    using assms(3) len at acc scan by (simp add: GetLockedAmount_def)
  have b0: "0 \<le> sint ?b" using assms(5,6) at acc by simp
  have new: "StakedBalance (mgetd zero_StakingAccount m' accb) = ?b + amount"
    using Unstake_moves [OF assms(1,2)] assms(7) at acc
    by (auto simp: staking_moves_def staking_at_Ok)
  have e1: "sint (?b + amount) = sint ?b + sint amount"
    using nonneg_add_exact [OF b0 pos] .
  have "sint (?b + amount - locked) = sint (?b + amount) - sint locked"
    using pos assms(4) sint_i64_bounds [of "?b + amount"] sint_i64_bounds [of locked]
    by (intro sint_i64_diff) auto
  moreover have "0 \<le> sint (?b + amount - locked)" using enough l by (simp add: algebra_simps)
  ultimately show ?thesis using new by simp
qed

text \<open>What an unstake stores for the account, as a later lookup sees it.\<close>

lemma Unstake_lookup:
  assumes "staking_ok s" and "Unstake accb amount height i now s = (Ok (), s')"
    and "staking_at i s = Ok m" and "acc = mgetd zero_StakingAccount m accb"
    and "locked_scan acc height [0..<length (LockedAmount acc)] (0, []) = Ok (locked, gone)"
    and "remove_locks gone acc = Ok acc1"
  obtains m' where "staking_at i s' = Ok m'"
    and "LockedAmount (mgetd zero_StakingAccount m' accb) = LockedAmount acc1"
    and "ReleasePerBlock (mgetd zero_StakingAccount m' accb) = ReleasePerBlock acc1"
    and "LockedInitBlock (mgetd zero_StakingAccount m' accb) = LockedInitBlock acc1"
  using assms(1,2)
proof (rule Unstake_OkE)
  fix n bcc locked' gone' bcc1 acc'
  assume *: "staking_at i s = Ok n" "bcc = mgetd zero_StakingAccount n accb" "sa_Address bcc = accb"
    "locked_scan bcc height [0..<length (LockedAmount bcc)] (0, []) = Ok (locked', gone')"
    "remove_locks gone' bcc = Ok bcc1"
    "acc' = add_detail height \<lparr>sd_Amount = amount, sd_Reward = 0, sd_LastUpdated = now\<rparr>
      (bcc1\<lparr>StakedBalance := StakedBalance bcc1 + amount,
        OperationalAccount := OperationalAccount bcc1 \<and> StakedBalance bcc1 + amount \<noteq> 0\<rparr>)"
    "staking_store i (sa_Address acc') acc' s = (Ok (), s')"
  have same: "bcc = acc" "gone' = gone" "bcc1 = acc1" using * assms(3-6) by auto
  have "sa_Address acc1 = accb"
    using remove_locks_fields [OF assms(6)] staking_lookup_fields [OF assms(1,3), of accb] * same
    by (simp add: assms(4))
  with * same have "staking_at i s' = Ok (mput accb acc' m)"
    using assms(3) by (auto simp: staking_store_Ok staking_at_Ok)
  then show thesis using * same by (intro that [of "mput accb acc' m"]) simp_all
qed

text \<open>
  Removing positions in increasing order from lists that shrink under the loop: after the
  first removal every later position is off by one.
\<close>

lemma remove_locks_0_1:
  assumes "LockedAmount acc = a # b # c # as" and "ReleasePerBlock acc = ra # rb # rc # rs"
    and "LockedInitBlock acc = ia # ib # ic # is"
  shows "remove_locks [0, 1] acc = Ok (acc\<lparr>LockedAmount := b # as, ReleasePerBlock := rb # rs,
    LockedInitBlock := ib # is\<rparr>)"
  using assms by (simp add: remove_at_def)


lemma upt_2_3: "[0..<2] = [0, 1 :: nat]" "[0..<3] = [0, 1, 2 :: nat]"
  by (simp_all add: upt_rec)

lemma length_3: "length xs = 3 \<Longrightarrow> \<exists>a b c. xs = [a, b, c]"
  by (auto simp: numeral_3_eq_3 length_Suc_conv)

lemma length_2: "length xs = 2 \<Longrightarrow> \<exists>a b. xs = [a, b]"
  by (auto simp: numeral_2_eq_2 length_Suc_conv)

section \<open>Sequences of staking operations\<close>

text \<open>
  The staking table as a state machine: a step is one successful operation, labelled with what
  it adds to the staked and to the reward total.  Other goroutines see the table only between
  steps, since each operation holds the staking mutex.
\<close>

inductive staking_step :: "staking \<Rightarrow> i64 \<times> i64 \<Rightarrow> staking \<Rightarrow> bool" where
  step_stake: "Stake accb amount height i op la rpb now s = (Ok (), s') \<Longrightarrow> staking_step s (amount, 0) s'"
| step_unstake: "Unstake accb amount height i now s = (Ok (), s') \<Longrightarrow> staking_step s (amount, 0) s'"
| step_reward: "Reward accb r height i now s = (Ok (), s') \<Longrightarrow> staking_step s (0, r) s'"
| step_withdraw: "WithdrawReward accb r height i now s = (Ok (), s') \<Longrightarrow> staking_step s (0, r) s'"

inductive staking_run :: "staking \<Rightarrow> (i64 \<times> i64) list \<Rightarrow> staking \<Rightarrow> bool" where
  run_nil: "staking_run s [] s"
| run_step: "staking_step s l t \<Longrightarrow> staking_run t ls u \<Longrightarrow> staking_run s (l # ls) u"

inductive_cases staking_stepE: "staking_step s l s'"
inductive_simps staking_run_simps: "staking_run s [] s'" "staking_run s (l # ls) s'"

lemma staking_step_moves:
  assumes "staking_step s (ds, dr) s'" and "staking_ok s"
  shows "\<exists>i a. staking_moves i a ds dr s s'"
  using assms(1)
  by (rule staking_stepE)
    (use assms(2) in \<open>auto dest: Stake_moves Unstake_moves Reward_moves(1) WithdrawReward_moves\<close>)

lemma staking_step_totals:
  assumes "staking_step s l s'" and "staking_ok s"
  shows "staking_ok s'" and "GetSupplyInStakedAccounts s' =
      (fst (GetSupplyInStakedAccounts s) + fst l, snd (GetSupplyInStakedAccounts s) + snd l)"
proof -
  obtain i a where "staking_moves i a (fst l) (snd l) s s'"
    using staking_step_moves [of s "fst l" "snd l" s'] assms by auto
  from staking_moves_totals [OF assms(2) this] show "staking_ok s'"
    and "GetSupplyInStakedAccounts s' =
      (fst (GetSupplyInStakedAccounts s) + fst l, snd (GetSupplyInStakedAccounts s) + snd l)" by auto
qed

section \<open>Properties\<close>

text \<open>
  C19: for every supply up to the maximum, the reward of a block is not negative and never takes
  the supply past the maximum, and adding it does not overflow: the floating-point arithmetic of
  \<^verbatim>\<open>GetReward\<close> keeps the cap of the currency.
\<close>

theorem GetReward_keeps_cap:
  assumes "0 \<le> sint supply" and "sint supply \<le> sint MaxTotalSupply"
  shows "0 \<le> sint (GetReward supply) \<and>
    sint supply \<le> sint (supply + GetReward supply) \<and>
    sint (supply + GetReward supply) \<le> sint MaxTotalSupply"
  using GetReward_bounds [OF assms] by simp

theorem GetReward_keeps_cap_witness:
  "sint (MaxTotalSupply + GetReward MaxTotalSupply) = sint MaxTotalSupply"
proof -
  have "0 \<le> sint MaxTotalSupply" by (simp add: MaxTotalSupply_def)
  from GetReward_keeps_cap [OF this order_refl] show ?thesis by linarith
qed

text \<open>
  C21: over any sequence of successful staking operations, by any accounts with any delegated
  accounts, the table stays well formed and the two totals that the supply check reads move by
  exactly the sum of the amounts of the operations: nothing is created or lost between accounts.
\<close>

theorem staking_run_totals:
  assumes "staking_run s ls s'" and "staking_ok s"
  shows "staking_ok s' \<and> GetSupplyInStakedAccounts s' =
    (fst (GetSupplyInStakedAccounts s) + sum_list (map fst ls),
     snd (GetSupplyInStakedAccounts s) + sum_list (map snd ls))"
  using assms
proof (induction rule: staking_run.induct)
  case (run_nil s)
  then show ?case by simp
next
  case (run_step s l t ls u)
  with staking_step_totals [OF run_step.hyps(1) run_step.prems] show ?case
    by (simp add: algebra_simps)
qed

definition empty_staking :: staking where
  "empty_staking = replicate 256 []"

lemma empty_staking_ok: "staking_ok empty_staking"
  by (simp add: staking_ok_def empty_staking_def)

definition sample_staking :: staking where
  "sample_staking = snd (Stake (sample_addr 1) 50 7 3 True 0 0 1000 empty_staking)"

lemma sample_staking_run: "staking_run empty_staking [(50, 0)] sample_staking"
proof -
  have "fst (Stake (sample_addr 1) 50 7 3 True 0 0 1000 empty_staking) = Ok ()"
    by (simp add: Stake_def effect_defs Let_def staking_at_def empty_staking_def staking_store_def
        GetDelegatedAccountAddress_Ok)
  then have "staking_step empty_staking (50, 0) sample_staking"
    by (auto simp: sample_staking_def prod_eq_iff intro: step_stake)
  then show ?thesis by (auto intro: run_nil run_step)
qed

theorem staking_run_totals_witness:
  "staking_ok sample_staking \<and> GetSupplyInStakedAccounts sample_staking = (50, 0)"
  using staking_run_totals [OF sample_staking_run empty_staking_ok]
  by (simp add: GetSupplyInStakedAccounts_def empty_staking_def sum_list_replicate)


definition locked_account :: "i64 list \<Rightarrow> StakingAccount" where
  "locked_account ls = zero_StakingAccount\<lparr>StakedBalance := 100, sa_Address := sample_addr 1,
     LockedAmount := ls, ReleasePerBlock := map (\<lambda>_. 1) ls, LockedInitBlock := map (\<lambda>_. 0) ls\<rparr>"

definition locked_staking :: "i64 list \<Rightarrow> staking" where
  "locked_staking ls = empty_staking[3 := [(sample_addr 1, locked_account ls)]]"

lemma locked_staking_ok: "staking_ok (locked_staking ls)"
  using empty_staking_ok
  by (auto simp: staking_ok_def locked_staking_def locked_account_def sa_ok_def
      dest!: set_update_subset_insert [THEN subsetD])

lemma length_locked_staking [simp]: "length (locked_staking ls) = 256"
  by (simp add: locked_staking_def empty_staking_def)

lemma locked_staking_at [simp]:
  "staking_at 3 (locked_staking ls) = Ok [(sample_addr 1, locked_account ls)]"
  by (simp add: staking_at_def locked_staking_def empty_staking_def)

lemma locked_account_mgetd [simp]:
  "mgetd zero_StakingAccount [(sample_addr 1, locked_account ls)] (sample_addr 1) = locked_account ls"
  by (simp add: mgetd_def)

lemma locked_account_fields [simp]:
  "sa_Address (locked_account ls) = sample_addr 1" "StakedBalance (locked_account ls) = 100"
  "LockedAmount (locked_account ls) = ls"
  "ReleasePerBlock (locked_account ls) = map (\<lambda>_. 1) ls"
  "LockedInitBlock (locked_account ls) = map (\<lambda>_. 0) ls"
  by (simp_all add: locked_account_def)

lemma Unstake_locked_70:
  "Unstake (sample_addr 1) (-20) 10 3 0 (locked_staking [70]) =
    (Ok (), snd (Unstake (sample_addr 1) (-20) 10 3 0 (locked_staking [70])))"
  by (simp add: Unstake_def effect_defs lock_at_def staking_store_def Let_def)


text \<open>
  when the first two of three locks have run out and the third has not, an unstake removes
  the first and the third: the coins that were locked before it are not locked after it.
\<close>

lemma Unstake_drops_active_lock:
  assumes "staking_ok s" and "Unstake accb amount height i now s = (Ok (), s')"
    and "staking_at i s = Ok m" and "acc = mgetd zero_StakingAccount m accb"
    and "length (LockedAmount acc) = 3"
    and "lock_at acc height 0 = Ok l0" and "sint l0 \<le> 0"
    and "lock_at acc height 1 = Ok l1" and "sint l1 \<le> 0"
    and "lock_at acc height 2 = Ok l2" and "0 < sint l2"
  shows "GetLockedAmount accb height i s = Ok l2 \<and> GetLockedAmount accb height i s' = Ok 0"
proof -
  have len: "length accb = 20" using assms(2) by (auto simp: Unstake_def serr_def split: if_splits)
  have scan: "locked_scan acc height [0..<length (LockedAmount acc)] (0, []) = Ok (l2, [0, 1])"
    using assms(5-11) by (simp add: upt_2_3)
  note F = staking_lookup_fields [OF assms(1,3), of accb, folded assms(4)]
  obtain a b c ra rb rc ia ib ic where lists: "LockedAmount acc = [a, b, c]"
    "ReleasePerBlock acc = [ra, rb, rc]" "LockedInitBlock acc = [ia, ib, ic]"
    using F assms(5) length_3 [of "LockedAmount acc"] length_3 [of "ReleasePerBlock acc"]
      length_3 [of "LockedInitBlock acc"] by auto
  obtain m' where m': "staking_at i s' = Ok m'"
    "LockedAmount (mgetd zero_StakingAccount m' accb) = [b]"
    "ReleasePerBlock (mgetd zero_StakingAccount m' accb) = [rb]"
    "LockedInitBlock (mgetd zero_StakingAccount m' accb) = [ib]"
    using Unstake_lookup [OF assms(1-4) scan remove_locks_0_1 [OF lists]] by auto
  have "lock_at (mgetd zero_StakingAccount m' accb) height 0 = Ok l1"
    using m' lists assms(8) by (simp add: lock_at_def)
  then have "GetLockedAmount accb height i s' = Ok 0"
    using len m' assms(9) by (simp add: GetLockedAmount_def)
  moreover have "GetLockedAmount accb height i s = Ok l2"
    using len assms(3,4) scan by (simp add: GetLockedAmount_def)
  ultimately show ?thesis by simp
qed

lemma Unstake_locked_three:
  "Unstake (sample_addr 1) (-1) 10 3 0 (locked_staking [5, 6, 70]) =
    (Ok (), snd (Unstake (sample_addr 1) (-1) 10 3 0 (locked_staking [5, 6, 70])))"
  by (simp add: Unstake_def effect_defs lock_at_def staking_store_def Let_def upt_2_3 remove_at_def)

lemma Unstake_drops_active_lock_example:
  "GetLockedAmount (sample_addr 1) 10 3 (locked_staking [5, 6, 70]) = Ok 60 \<and>
   GetLockedAmount (sample_addr 1) 10 3
     (snd (Unstake (sample_addr 1) (-1) 10 3 0 (locked_staking [5, 6, 70]))) = Ok 0"
  using Unstake_drops_active_lock [OF locked_staking_ok Unstake_locked_three locked_staking_at refl]
  by (simp add: lock_at_def)

text \<open>
  when both of two locks have run out, an unstake that passes every check panics in the
  removal of the second, so that such an account can never unstake again.
\<close>

lemma Unstake_panics_on_two_expired:
  assumes "staking_ok s" and "length accb = 20" and "staking_at i s = Ok m"
    and "acc = mgetd zero_StakingAccount m accb" and "sa_Address acc = accb"
    and "sint amount < 0" and "0 \<le> sint (StakedBalance acc + amount)"
    and "length (LockedAmount acc) = 2"
    and "lock_at acc height 0 = Ok l0" and "sint l0 \<le> 0"
    and "lock_at acc height 1 = Ok l1" and "sint l1 \<le> 0"
  shows "fst (Unstake accb amount height i now s) = Panic"
proof -
  have scan: "locked_scan acc height [0..<2] (0, []) = Ok (0, [0, 1])"
    using assms(9-12) by (simp add: upt_2_3)
  note F = staking_lookup_fields [OF assms(1,3), of accb, folded assms(4)]
  obtain a b ra rb ia ib where lists: "LockedAmount acc = [a, b]"
    "ReleasePerBlock acc = [ra, rb]" "LockedInitBlock acc = [ia, ib]"
    using F assms(8) length_2 [of "LockedAmount acc"] length_2 [of "ReleasePerBlock acc"]
      length_2 [of "LockedInitBlock acc"] by auto
  then have "remove_locks [0, 1] acc = Panic" by (simp add: remove_at_def)
  then show ?thesis
    using assms scan by (simp add: Unstake_def effect_defs)
qed

lemma Unstake_panics_on_two_expired_example:
  "fst (Unstake (sample_addr 1) (-1) 10 3 0 (locked_staking [5, 6])) = Panic"
  by (rule Unstake_panics_on_two_expired [OF locked_staking_ok _ locked_staking_at refl,
        where ?l0.0 = "-5" and ?l1.0 = "-4"])
    (simp_all add: lock_at_def)

end
