(* ===== verification/Heap.thy ===== *)
theory Heap
  imports Prelude
begin

text \<open>
  Go's \<^verbatim>\<open>container/heap\<close>, which the transaction pool builds on: a binary heap in a slice,
  with \<^verbatim>\<open>up\<close>, \<^verbatim>\<open>down\<close>, \<^verbatim>\<open>Push\<close>, \<^verbatim>\<open>Pop\<close> and \<^verbatim>\<open>Remove\<close> as that package writes them, over the
  \<^verbatim>\<open>Less\<close> of its user.

  The locale \<open>go_heap\<close> asks of \<^verbatim>\<open>Less\<close> what the package asks, a strict weak order, and shows that
  the operations keep the heap order and the multiset of elements, and that the element at the
  front is not behind any other.
\<close>

section \<open>The operations\<close>

definition heap_swap :: "'a list \<Rightarrow> nat \<Rightarrow> nat \<Rightarrow> 'a list" where
  "heap_swap xs i j = xs[i := xs ! j, j := xs ! i]"

function heap_up :: "('a \<Rightarrow> 'a \<Rightarrow> bool) \<Rightarrow> 'a list \<Rightarrow> nat \<Rightarrow> 'a list" where
  "heap_up lt xs j =
     (let i = (j - 1) div 2 in
      if i = j \<or> \<not> lt (xs ! j) (xs ! i) then xs
      else heap_up lt (heap_swap xs i j) i)"
  by auto
termination
  by (relation "measure (\<lambda>(_, _, j). j)") auto

function heap_down :: "('a \<Rightarrow> 'a \<Rightarrow> bool) \<Rightarrow> 'a list \<Rightarrow> nat \<Rightarrow> nat \<Rightarrow> 'a list \<times> nat" where
  "heap_down lt xs i n =
     (let j1 = 2 * i + 1 in
      if j1 \<ge> n then (xs, i)
      else let j2 = j1 + 1;
               j = (if j2 < n \<and> lt (xs ! j2) (xs ! j1) then j2 else j1)
           in if \<not> lt (xs ! j) (xs ! i) then (xs, i)
              else heap_down lt (heap_swap xs i j) j n)"
  by auto
termination
  by (relation "measure (\<lambda>(_, _, i, n). n - i)") (auto split: if_splits)

declare heap_up.simps [simp del] heap_down.simps [simp del]

definition heap_Push :: "('a \<Rightarrow> 'a \<Rightarrow> bool) \<Rightarrow> 'a \<Rightarrow> 'a list \<Rightarrow> 'a list" where
  "heap_Push lt x xs = heap_up lt (xs @ [x]) (length xs)"

definition heap_Pop :: "('a \<Rightarrow> 'a \<Rightarrow> bool) \<Rightarrow> 'a list \<Rightarrow> ('a \<times> 'a list) result" where
  "heap_Pop lt xs =
     (if xs = [] then Panic
      else let n = length xs - 1; ys = fst (heap_down lt (heap_swap xs 0 n) 0 n)
           in Ok (ys ! n, take n ys))"

text \<open>An index past the end panics in \<^verbatim>\<open>Swap\<close>.\<close>

definition heap_Remove :: "('a \<Rightarrow> 'a \<Rightarrow> bool) \<Rightarrow> nat \<Rightarrow> 'a list \<Rightarrow> ('a \<times> 'a list) result" where
  "heap_Remove lt i xs =
     (if length xs \<le> i then Panic
      else let n = length xs - 1;
               ys = (if n \<noteq> i
                 then (let (zs, k) = heap_down lt (heap_swap xs i n) i n
                       in if k > i then zs else heap_up lt zs i)
                 else xs)
           in Ok (ys ! n, take n ys))"

section \<open>Elements are only moved\<close>

lemma length_heap_swap [simp]: "length (heap_swap xs i j) = length xs"
  by (simp add: heap_swap_def)

lemma mset_heap_swap [simp]:
  "i < length xs \<Longrightarrow> j < length xs \<Longrightarrow> mset (heap_swap xs i j) = mset xs"
  unfolding heap_swap_def using mset_swap [of i xs j] by (metis list_update_swap list_update_id list_update_overwrite)

lemma nth_heap_swap:
  "i < length xs \<Longrightarrow> j < length xs \<Longrightarrow> k < length xs \<Longrightarrow>
    heap_swap xs i j ! k = (if k = i then xs ! j else if k = j then xs ! i else xs ! k)"
  by (auto simp: heap_swap_def nth_list_update)

lemma drop_heap_swap [simp]: "i < n \<Longrightarrow> j < n \<Longrightarrow> drop n (heap_swap xs i j) = drop n xs"
  by (simp add: heap_swap_def drop_update_cancel)

lemma heap_up_mset: "j < length xs \<Longrightarrow> mset (heap_up lt xs j) = mset xs"
proof (induction lt xs j rule: heap_up.induct)
  case (1 lt xs j)
  then show ?case
    by (subst heap_up.simps) (auto simp: Let_def)
qed

lemma heap_up_length [simp]: "length (heap_up lt xs j) = length xs"
proof (induction lt xs j rule: heap_up.induct)
  case (1 lt xs j)
  then show ?case
    by (subst heap_up.simps) (auto simp: Let_def)
qed

lemma heap_up_drop: "j < n \<Longrightarrow> drop n (heap_up lt xs j) = drop n xs"
proof (induction lt xs j rule: heap_up.induct)
  case (1 lt xs j)
  then show ?case
    by (subst heap_up.simps) (auto simp: Let_def)
qed

lemma heap_down_props:
  assumes "i < n" and "n \<le> length xs"
  shows "mset (fst (heap_down lt xs i n)) = mset xs" (is ?A)
    and "length (fst (heap_down lt xs i n)) = length xs" (is ?B)
    and "drop n (fst (heap_down lt xs i n)) = drop n xs" (is ?C)
    and "i \<le> snd (heap_down lt xs i n)" (is ?D)
proof -
  have "?A \<and> ?B \<and> ?C \<and> ?D"
    using assms
  proof (induction lt xs i n rule: heap_down.induct)
    case (1 lt xs i n)
    show ?case
    proof (cases "n \<le> 2 * i + 1")
      case True
      then show ?thesis by (subst (1 2 3 4) heap_down.simps) simp
    next
      case False
      define j where "j = (if 2 * i + 2 < n \<and> lt (xs ! (2 * i + 2)) (xs ! (2 * i + 1))
        then 2 * i + 2 else 2 * i + 1)"
      have step: "heap_down lt xs i n = (if \<not> lt (xs ! j) (xs ! i) then (xs, i)
          else heap_down lt (heap_swap xs i j) j n)"
        using False by (subst heap_down.simps) (simp add: Let_def j_def)
      have j: "i < j" "j < n" using False by (auto simp: j_def)
      show ?thesis
      proof (cases "lt (xs ! j) (xs ! i)")
        case True
        have jd: "j = (if 2 * i + 1 + 1 < n \<and> lt (xs ! (2 * i + 1 + 1)) (xs ! (2 * i + 1))
            then 2 * i + 1 + 1 else 2 * i + 1)" by (simp add: j_def)
        have "mset (fst (heap_down lt (heap_swap xs i j) j n)) = mset (heap_swap xs i j) \<and>
          length (fst (heap_down lt (heap_swap xs i j) j n)) = length (heap_swap xs i j) \<and>
          drop n (fst (heap_down lt (heap_swap xs i j) j n)) = drop n (heap_swap xs i j) \<and>
          j \<le> snd (heap_down lt (heap_swap xs i j) j n)"
          by (rule 1(1) [OF refl _ refl jd]) (use True False j 1(2,3) in auto)
        with True j 1(2,3) show ?thesis by (auto simp: step)
      qed (simp add: step)
    qed
  qed
  then show ?A ?B ?C ?D by auto
qed

section \<open>Heap order\<close>

definition parent :: "nat \<Rightarrow> nat" where
  "parent k = (k - 1) div 2"

definition heap_ord :: "('a \<Rightarrow> 'a \<Rightarrow> bool) \<Rightarrow> 'a list \<Rightarrow> nat \<Rightarrow> bool" where
  "heap_ord lt xs n \<longleftrightarrow> (\<forall>k. 0 < k \<and> k < n \<longrightarrow> \<not> lt (xs ! k) (xs ! parent k))"

abbreviation is_heap :: "('a \<Rightarrow> 'a \<Rightarrow> bool) \<Rightarrow> 'a list \<Rightarrow> bool" where
  "is_heap lt xs \<equiv> heap_ord lt xs (length xs)"

lemma parent_less: "0 < k \<Longrightarrow> parent k < k"
  by (simp add: parent_def)

lemma parent_eq_iff: "0 < k \<Longrightarrow> parent k = i \<longleftrightarrow> k = 2 * i + 1 \<or> k = 2 * i + 2"
  by (auto simp: parent_def)

text \<open>The child that a sift down compares with, and one round of it.\<close>

definition best_child :: "('a \<Rightarrow> 'a \<Rightarrow> bool) \<Rightarrow> 'a list \<Rightarrow> nat \<Rightarrow> nat \<Rightarrow> nat" where
  "best_child lt xs i n = (if 2 * i + 2 < n \<and> lt (xs ! (2 * i + 2)) (xs ! (2 * i + 1))
     then 2 * i + 2 else 2 * i + 1)"

lemma best_child_bounds:
  "\<not> n \<le> 2 * i + 1 \<Longrightarrow> i < best_child lt xs i n \<and> best_child lt xs i n < n \<and>
    parent (best_child lt xs i n) = i \<and> 0 < best_child lt xs i n"
  by (auto simp: best_child_def parent_def)

lemma heap_down_step:
  "heap_down lt xs i n =
    (if n \<le> 2 * i + 1 \<or> \<not> lt (xs ! best_child lt xs i n) (xs ! i) then (xs, i)
     else heap_down lt (heap_swap xs i (best_child lt xs i n)) (best_child lt xs i n) n)"
  by (subst heap_down.simps) (simp add: Let_def best_child_def)

text \<open>A sift down that ends where it began has changed nothing.\<close>

lemma heap_down_stays:
  assumes "snd (heap_down lt xs i n) = i" and "n \<le> length xs"
  shows "heap_down lt xs i n = (xs, i) \<and>
    (n \<le> 2 * i + 1 \<or> \<not> lt (xs ! best_child lt xs i n) (xs ! i))"
proof -
  let ?j = "best_child lt xs i n"
  have "n \<le> 2 * i + 1 \<or> \<not> lt (xs ! ?j) (xs ! i)"
  proof (rule ccontr)
    assume go: "\<not> (n \<le> 2 * i + 1 \<or> \<not> lt (xs ! ?j) (xs ! i))"
    then have j: "?j < n" "i < ?j" using best_child_bounds [of n i lt xs] by auto
    then have "?j \<le> snd (heap_down lt (heap_swap xs i ?j) ?j n)"
      using assms(2) by (intro heap_down_props(4)) auto
    moreover have "heap_down lt xs i n = heap_down lt (heap_swap xs i ?j) ?j n"
      using go heap_down_step [of lt xs i n] by simp
    ultimately show False using assms(1) j by simp
  qed
  then show ?thesis using heap_down_step [of lt xs i n] by auto
qed

text \<open>\<^verbatim>\<open>Less\<close> must be a strict weak order.\<close>

locale go_heap =
  fixes lt :: "'a \<Rightarrow> 'a \<Rightarrow> bool"
  assumes asym: "lt a b \<Longrightarrow> \<not> lt b a"
    and neg_trans: "\<not> lt a b \<Longrightarrow> \<not> lt b c \<Longrightarrow> \<not> lt a c"
begin

lemma heap_up_ord:
  assumes "j < n" and "n \<le> length xs"
    and "\<And>k. 0 < k \<Longrightarrow> k < n \<Longrightarrow> k \<noteq> j \<Longrightarrow> \<not> lt (xs ! k) (xs ! parent k)"
    and "\<And>k. 0 < k \<Longrightarrow> k < n \<Longrightarrow> parent k = j \<Longrightarrow> 0 < j \<Longrightarrow> \<not> lt (xs ! k) (xs ! parent j)"
  shows "heap_ord lt (heap_up lt xs j) n"
  using assms
proof (induction j arbitrary: xs rule: less_induct)
  case (less j)
  define i where "i = parent j"
  have step: "heap_up lt xs j = (if i = j \<or> \<not> lt (xs ! j) (xs ! i) then xs
      else heap_up lt (heap_swap xs i j) i)"
    by (subst heap_up.simps) (simp add: Let_def i_def parent_def)
  show ?case
  proof (cases "i = j \<or> \<not> lt (xs ! j) (xs ! i)")
    case True
    then have "j = 0 \<or> \<not> lt (xs ! j) (xs ! parent j)"
      using parent_less [of j] by (auto simp: i_def)
    with True less.prems(3) show ?thesis unfolding step heap_ord_def by auto
  next
    case False
    then have ij: "i < j" "0 < j" and lt: "lt (xs ! j) (xs ! i)"
      using parent_less [of j] by (auto simp: i_def parent_def split: if_splits)
    have nth: "k < n \<Longrightarrow> heap_swap xs i j ! k = (if k = i then xs ! j else if k = j then xs ! i else xs ! k)" for k
      using less.prems(1,2) ij by (intro nth_heap_swap) auto
    have p: "0 < k \<Longrightarrow> k < n \<Longrightarrow> parent k < n" for k using parent_less [of k] by simp
    have pj: "parent j = i" by (simp add: i_def)
    have "heap_ord lt (heap_up lt (heap_swap xs i j) i) n"
    proof (rule less.IH [OF ij(1)])
      fix k
      assume k: "0 < k" "k < n" "k \<noteq> i"
      show "\<not> lt (heap_swap xs i j ! k) (heap_swap xs i j ! parent k)"
        using k less.prems(3) [of k] less.prems(4) [of k, folded i_def] asym [OF lt]
          neg_trans [of "xs ! k" "xs ! i" "xs ! j"] ij p [of k] parent_less [of k]
        by (auto simp: nth pj)
    next
      fix k
      assume k: "0 < k" "k < n" "parent k = i" "0 < i"
      then show "\<not> lt (heap_swap xs i j ! k) (heap_swap xs i j ! parent i)"
        using less.prems(3) [of k] less.prems(3) [of i] less.prems(1) ij parent_less [of i] parent_less [of k]
          neg_trans [of "xs ! k" "xs ! i" "xs ! parent i"]
        by (auto simp: nth)
    qed (use less.prems(1,2) ij in auto)
    with False show ?thesis by (simp add: step)
  qed
qed

lemma best_child_best:
  "0 < k \<Longrightarrow> k < n \<Longrightarrow> parent k = i \<Longrightarrow> \<not> lt (xs ! k) (xs ! best_child lt xs i n)"
  using asym [of "xs ! (2 * i + 2)" "xs ! (2 * i + 1)"] asym [of "xs ! k" "xs ! k"]
  by (auto simp: parent_eq_iff best_child_def split: if_splits)

text \<open>A node that is not behind its best child is not behind any child.\<close>

lemma children_ok:
  assumes "n \<le> 2 * i + 1 \<or> \<not> lt (xs ! best_child lt xs i n) (xs ! i)"
    and "0 < k" and "k < n" and "parent k = i"
  shows "\<not> lt (xs ! k) (xs ! i)"
proof -
  have "\<not> n \<le> 2 * i + 1" using assms(2-4) by (auto simp: parent_eq_iff)
  with assms(1) have "\<not> lt (xs ! best_child lt xs i n) (xs ! i)" by simp
  with best_child_best [OF assms(2-4), of xs] show ?thesis by (rule neg_trans)
qed

lemma heap_down_ord:
  assumes "i < n" and "n \<le> length xs"
    and "\<And>k. 0 < k \<Longrightarrow> k < n \<Longrightarrow> parent k \<noteq> i \<Longrightarrow> \<not> lt (xs ! k) (xs ! parent k)"
    and "\<And>k. 0 < k \<Longrightarrow> k < n \<Longrightarrow> parent k = i \<Longrightarrow> 0 < i \<Longrightarrow> \<not> lt (xs ! k) (xs ! parent i)"
  shows "heap_ord lt (fst (heap_down lt xs i n)) n"
  using assms
proof (induction "n - i" arbitrary: i xs rule: less_induct)
  case less
  define j where "j = best_child lt xs i n"
  note step = heap_down_step [of lt xs i n, folded j_def]
  have best: "0 < k \<Longrightarrow> k < n \<Longrightarrow> parent k = i \<Longrightarrow> \<not> lt (xs ! k) (xs ! j)" for k
    unfolding j_def by (rule best_child_best)
  show ?case
  proof (cases "n \<le> 2 * i + 1 \<or> \<not> lt (xs ! j) (xs ! i)")
    case True
    have "\<not> lt (xs ! k) (xs ! parent k)" if "0 < k" "k < n" for k
      using that less.prems(3) [of k] children_ok [OF True [unfolded j_def], of k] by blast
    with True show ?thesis by (simp add: step heap_ord_def)
  next
    case False
    then have lt: "lt (xs ! j) (xs ! i)" by simp
    have j: "i < j" "j < n" "parent j = i" "0 < j"
      using False best_child_bounds [of n i lt xs] by (auto simp: j_def)
    have nth: "k < n \<Longrightarrow> heap_swap xs i j ! k = (if k = i then xs ! j else if k = j then xs ! i else xs ! k)" for k
      using less.prems(1,2) j by (intro nth_heap_swap) auto
    have p: "0 < k \<Longrightarrow> k < n \<Longrightarrow> parent k < n" for k using parent_less [of k] by simp
    have "heap_ord lt (fst (heap_down lt (heap_swap xs i j) j n)) n"
    proof (rule less.hyps)
      fix k
      assume k: "0 < k" "k < n" "parent k \<noteq> j"
      show "\<not> lt (heap_swap xs i j ! k) (heap_swap xs i j ! parent k)"
      proof (cases "parent k = i")
        case True
        with k j best [of k] asym [OF lt] p [of k] parent_less [of k] show ?thesis by (auto simp: nth)
      next
        case False
        with k j less.prems(3) [of k] less.prems(4) [of j] p [of k] show ?thesis by (auto simp: nth)
      qed
    next
      fix k
      assume k: "0 < k" "k < n" "parent k = j"
      with j less.prems(3) [of k] parent_less [of k] p [of k]
      show "\<not> lt (heap_swap xs i j ! k) (heap_swap xs i j ! parent j)" by (auto simp: nth)
    qed (use less.prems(1,2) j in auto)
    with False show ?thesis by (simp add: step)
  qed
qed

text \<open>The front of a heap is not behind any other element.\<close>

lemma heap_front: "heap_ord lt xs n \<Longrightarrow> k < n \<Longrightarrow> \<not> lt (xs ! k) (xs ! 0)"
proof (induction k rule: less_induct)
  case (less k)
  show ?case
  proof (cases "k = 0")
    case True
    then show ?thesis using asym [of "xs ! 0" "xs ! 0"] by auto
  next
    case False
    then show ?thesis
      using less.IH [of "parent k"] less.prems parent_less [of k]
        neg_trans [of "xs ! k" "xs ! parent k" "xs ! 0"]
      by (auto simp: heap_ord_def)
  qed
qed

lemma heap_ord_take: "heap_ord lt xs n \<Longrightarrow> n \<le> length xs \<Longrightarrow> is_heap lt (take n xs)"
proof -
  assume heap: "heap_ord lt xs n" and n: "n \<le> length xs"
  have "\<not> lt (take n xs ! k) (take n xs ! parent k)" if "0 < k" "k < n" for k
    using heap that parent_less [of k] by (auto simp: heap_ord_def)
  with n show "is_heap lt (take n xs)" by (simp add: heap_ord_def min_absorb2)
qed

lemma heap_Push_props:
  assumes "is_heap lt xs"
  shows "is_heap lt (heap_Push lt x xs)" and "mset (heap_Push lt x xs) = add_mset x (mset xs)"
    and "length (heap_Push lt x xs) = Suc (length xs)"
proof -
  have "heap_ord lt (heap_up lt (xs @ [x]) (length xs)) (Suc (length xs))"
  proof (rule heap_up_ord)
    fix k
    assume "0 < k" "k < Suc (length xs)" "k \<noteq> length xs"
    with assms parent_less [of k] show "\<not> lt ((xs @ [x]) ! k) ((xs @ [x]) ! parent k)"
      by (auto simp: heap_ord_def nth_append)
  next
    fix k
    assume "0 < k" "k < Suc (length xs)" "parent k = length xs"
    with parent_less [of k] show "\<not> lt ((xs @ [x]) ! k) ((xs @ [x]) ! parent (length xs))" by simp
  qed auto
  then show "is_heap lt (heap_Push lt x xs)" by (simp add: heap_Push_def)
  show "mset (heap_Push lt x xs) = add_mset x (mset xs)"
    by (simp add: heap_Push_def heap_up_mset)
  show "length (heap_Push lt x xs) = Suc (length xs)" by (simp add: heap_Push_def)
qed

lemma take_last_mset:
  assumes "length ys = Suc n" and "drop n ys = [y]"
  shows "ys ! n = y" and "mset ys = add_mset y (mset (take n ys))"
proof -
  have eq: "ys = take n ys @ [y]" using assms(2) by (metis append_take_drop_id)
  have "length (take n ys) = n" using assms(1) by simp
  with eq show "ys ! n = y" by (metis nth_append_length)
  have "mset ys = mset (take n ys @ [y])" using eq by metis
  then show "mset ys = add_mset y (mset (take n ys))" by simp
qed

lemma heap_Pop_props:
  assumes "is_heap lt xs" and "xs \<noteq> []"
  obtains ys where "heap_Pop lt xs = Ok (xs ! 0, ys)" and "is_heap lt ys"
    and "mset xs = add_mset (xs ! 0) (mset ys)" and "\<And>y. y \<in> set xs \<Longrightarrow> \<not> lt y (xs ! 0)"
proof -
  define n where "n = length xs - 1"
  define zs where "zs = heap_swap xs 0 n"
  define ys where "ys = fst (heap_down lt zs 0 n)"
  have len: "length xs = Suc n" using assms(2) by (cases xs) (auto simp: n_def)
  have lz: "length zs = Suc n" by (simp add: zs_def len)
  have nth: "k < Suc n \<Longrightarrow> zs ! k = (if k = 0 then xs ! n else if k = n then xs ! 0 else xs ! k)" for k
    unfolding zs_def using len by (intro nth_heap_swap) auto
  have facts: "length ys = Suc n \<and> drop n ys = [xs ! 0] \<and> mset ys = mset xs \<and> heap_ord lt ys n"
  proof (cases "n = 0")
    case True
    then have "zs = xs" using len by (simp add: zs_def heap_swap_def)
    moreover have "ys = zs" using True by (simp add: ys_def heap_down.simps)
    moreover have "drop n xs = [xs ! 0]" using True len by (cases xs) auto
    ultimately show ?thesis using True len by (simp add: heap_ord_def)
  next
    case False
    have "drop n zs = [zs ! n]" using lz by (simp flip: Cons_nth_drop_Suc)
    then have "drop n ys = [xs ! 0]"
      using False heap_down_props(3) [of 0 n zs lt] lz nth [of n] by (simp add: ys_def)
    moreover have "length ys = Suc n" "mset ys = mset xs"
      using False heap_down_props(1,2) [of 0 n zs lt] lz len by (simp_all add: ys_def zs_def)
    moreover have "heap_ord lt ys n"
      unfolding ys_def
    proof (rule heap_down_ord)
      fix k
      assume k: "0 < k" "k < n" "parent k \<noteq> 0"
      with assms(1) nth [of k] nth [of "parent k"] parent_less [of k] len
      show "\<not> lt (zs ! k) (zs ! parent k)" by (auto simp: heap_ord_def)
    qed (use False lz in auto)
    ultimately show ?thesis by simp
  qed
  have "heap_Pop lt xs = Ok (ys ! n, take n ys)"
    using assms(2) by (simp add: heap_Pop_def Let_def n_def ys_def zs_def)
  moreover have "is_heap lt (take n ys)" using facts by (intro heap_ord_take) auto
  moreover have "\<not> lt y (xs ! 0)" if "y \<in> set xs" for y
    using that heap_front [OF assms(1)] by (auto simp: in_set_conv_nth)
  ultimately show thesis
    using that [of "take n ys"] take_last_mset [of ys n "xs ! 0"] facts by auto
qed

lemma heap_Remove_props:
  assumes "is_heap lt xs" and "i < length xs"
  obtains ys where "heap_Remove lt i xs = Ok (xs ! i, ys)" and "is_heap lt ys"
    and "mset xs = add_mset (xs ! i) (mset ys)"
proof -
  define n where "n = length xs - 1"
  have len: "length xs = Suc n" using assms(2) by (simp add: n_def)
  have heap: "\<And>k. 0 < k \<Longrightarrow> k < Suc n \<Longrightarrow> \<not> lt (xs ! k) (xs ! parent k)"
    using assms(1) len by (simp add: heap_ord_def)
  have ex: "\<exists>ys. heap_Remove lt i xs = Ok (ys ! n, take n ys) \<and> length ys = Suc n \<and>
      drop n ys = [xs ! i] \<and> mset ys = mset xs \<and> heap_ord lt ys n"
  proof (cases "n = i")
    case True
    moreover have "drop n xs = [xs ! i]" using len True by (simp flip: Cons_nth_drop_Suc)
    ultimately show ?thesis
      using heap len assms(2) by (auto simp: heap_Remove_def n_def [symmetric] heap_ord_def)
  next
    case False
    define zs where "zs = heap_swap xs i n"
    have i: "i < n" using False assms(2) len by simp
    have lz: "length zs = Suc n" by (simp add: zs_def len)
    have nth: "k < Suc n \<Longrightarrow> zs ! k = (if k = i then xs ! n else if k = n then xs ! i else xs ! k)" for k
      unfolding zs_def using len i by (intro nth_heap_swap) auto
    have dz: "drop n zs = [xs ! i]" using lz nth [of n] i by (simp flip: Cons_nth_drop_Suc)
    have mz: "mset zs = mset xs" using i len by (simp add: zs_def)
    have A: "\<not> lt (zs ! k) (zs ! parent k)" if "0 < k" "k < n" "k \<noteq> i" "parent k \<noteq> i" for k
      using that heap [of k] nth [of k] nth [of "parent k"] parent_less [of k] by auto
    have B: "\<not> lt (zs ! k) (zs ! parent i)" if "0 < k" "k < n" "parent k = i" "0 < i" for k
      using that heap [of k] heap [of i] nth [of k] nth [of "parent i"] parent_less [of k] parent_less [of i] i
        neg_trans [of "xs ! k" "xs ! i" "xs ! parent i"] by auto
    obtain ds m where down: "heap_down lt zs i n = (ds, m)" by (cases "heap_down lt zs i n")
    have dprops: "mset ds = mset zs" "length ds = length zs" "drop n ds = drop n zs" "i \<le> m"
      using heap_down_props [of i n zs lt] i lz down by auto
    define ys where "ys = (if m > i then ds else heap_up lt ds i)"
    have run: "heap_Remove lt i xs = Ok (ys ! n, take n ys)"
      using assms(2) False down by (simp add: heap_Remove_def Let_def n_def ys_def zs_def)
    have stay: "ds = zs \<and> (\<forall>k. 0 < k \<and> k < n \<and> parent k = i \<longrightarrow> \<not> lt (zs ! k) (zs ! i))" if "m = i"
    proof -
      have st: "heap_down lt zs i n = (zs, i)"
        "n \<le> 2 * i + 1 \<or> \<not> lt (zs ! best_child lt zs i n) (zs ! i)"
        using heap_down_stays [of lt zs i n] down that lz by auto
      then show ?thesis using down children_ok [OF st(2)] by auto
    qed
    have ord: "heap_ord lt ys n"
    proof (cases "m > i")
      case True
      have top: "\<not> lt (zs ! i) (zs ! parent i)" if "0 < i"
      proof
        assume up: "lt (zs ! i) (zs ! parent i)"
        have "\<not> lt (zs ! k) (zs ! i)" if "0 < k" "k < n" "parent k = i" for k
          using B [OF that \<open>0 < i\<close>] neg_trans [OF _ asym [OF up]] by blast
        then have "heap_down lt zs i n = (zs, i)"
          using heap_down_step [of lt zs i n] best_child_bounds [of n i lt zs] by auto
        with down True show False by simp
      qed
      have "heap_ord lt (fst (heap_down lt zs i n)) n"
        by (rule heap_down_ord) (use i lz A B top in auto)
      with True down show ?thesis by (simp add: ys_def)
    next
      case False
      with dprops(4) have "m = i" by simp
      note st = stay [OF this]
      have "heap_ord lt (heap_up lt zs i) n"
        by (rule heap_up_ord) (use i lz A B st in auto)
      with False st show ?thesis by (simp add: ys_def)
    qed
    have "length ys = Suc n \<and> drop n ys = [xs ! i] \<and> mset ys = mset xs"
      using dprops dz mz lz i by (simp add: ys_def heap_up_drop heap_up_mset)
    with run ord show ?thesis by blast
  qed
  then obtain ys where ys: "heap_Remove lt i xs = Ok (ys ! n, take n ys)" "length ys = Suc n"
      "drop n ys = [xs ! i]" "mset ys = mset xs" "heap_ord lt ys n" by blast
  show thesis
    by (rule that [of "take n ys"])
      (use ys take_last_mset [OF ys(2,3)] heap_ord_take [OF ys(5)] in auto)
qed

end

end
