(* ===== verification/Merkle.thy ===== *)
theory Merkle
  imports Database
begin

text \<open>
  Merkle trees: \<^verbatim>\<open>src/transactionsPool/merkleTree.go\<close>, whose leaves are the hashes of the
  transactions of a block, and its copy \<^verbatim>\<open>src/pubkeys/pubKeysTrie.go\<close>.  \<open>H\<close> is the 256-bit
  Blake2b digest \<^verbatim>\<open>CalcHashToByte\<close> (which cannot fail: it is called without a key), and
  \<open>enc\<close>, \<open>dec\<close> are the JSON encoder and decoder for a list of nodes.  The tree and its
  database handle exist, as after start-up.

  The lemmas: the construction ends with one root; a lookup finds exactly the data of the
  nodes; two lists of the same length have the same root only if the digest collides on
  strings hashed on the way; and the root does not determine the number of leaves.
\<close>

section \<open>Nodes and construction\<close>

datatype MerkleNode = MerkleNode
  (node_Left: "MerkleNode option") (node_Right: "MerkleNode option") (node_Data: bytes)

type_synonym digest = "bytes \<Rightarrow> bytes"

definition NewMerkleNode ::
  "digest \<Rightarrow> MerkleNode option \<Rightarrow> MerkleNode option \<Rightarrow> bytes \<Rightarrow> MerkleNode result" where
  "NewMerkleNode H left right data =
     (case (left, right) of
        (None, None) \<Rightarrow> Ok (MerkleNode left right (H data))
      | (Some l, Some r) \<Rightarrow> Ok (MerkleNode left right (H (node_Data l @ node_Data r)))
      | _ \<Rightarrow> Panic)"

fun merkle_leaves :: "digest \<Rightarrow> bytes list \<Rightarrow> MerkleNode list result" where
  "merkle_leaves H [] = Ok []"
| "merkle_leaves H (d # ds) = rbind (NewMerkleNode H None None d) (\<lambda>n.
     rbind (merkle_leaves H ds) (\<lambda>ns. Ok (n # ns)))"

fun merkle_level :: "digest \<Rightarrow> MerkleNode list \<Rightarrow> MerkleNode list result" where
  "merkle_level H [] = Ok []"
| "merkle_level H [x] = Panic"
| "merkle_level H (x # y # ns) = rbind (NewMerkleNode H (Some x) (Some y) []) (\<lambda>n.
     rbind (merkle_level H ns) (\<lambda>level. Ok (n # level)))"

definition pad_last :: "'a list \<Rightarrow> 'a list" where
  "pad_last xs = (if length xs mod 2 \<noteq> 0 then xs @ [last xs] else xs)"

lemma merkle_level_length:
  "merkle_level H ns = Ok level \<Longrightarrow> length ns = 2 * length level"
  by (induction H ns arbitrary: level rule: merkle_level.induct)
    (auto simp: rbind_Ok_iff)

lemma length_pad_last: "length (pad_last xs) = 2 * ((length xs + 1) div 2)"
  by (auto simp: pad_last_def) presburger+

function merkle_loop :: "digest \<Rightarrow> MerkleNode list \<Rightarrow> MerkleNode list result" where
  "merkle_loop H nodes =
     (if length nodes > 1 then rbind (merkle_level H (pad_last nodes)) (merkle_loop H)
      else Ok nodes)"
  by auto
termination
  by (relation "measure (length \<circ> snd)")
    (auto dest!: merkle_level_length simp: length_pad_last)

definition NewMerkleTree :: "digest \<Rightarrow> bytes list \<Rightarrow> MerkleNode list result" where
  "NewMerkleTree H data = rbind (merkle_leaves H data) (merkle_loop H)"

record MerkleTree =
  Root :: "MerkleNode list"
  TxHashes :: "bytes list"

definition BuildMerkleTree :: "digest \<Rightarrow> bytes list \<Rightarrow> MerkleTree result" where
  "BuildMerkleTree H hashes = rbind (NewMerkleTree H hashes) (\<lambda>nodes.
     Ok \<lparr>Root = nodes, TxHashes = hashes\<rparr>)"

definition GetRootHash :: "MerkleTree \<Rightarrow> bytes" where
  "GetRootHash t = (case Root t of n # _ \<Rightarrow> node_Data n | [] \<Rightarrow> EmptyHash)"

section \<open>Lookup\<close>

text \<open>The method on a nil pointer answers no, so it is defined on the pointer.\<close>

fun containsTxHash :: "MerkleNode option \<Rightarrow> i64 \<Rightarrow> bytes \<Rightarrow> bool \<times> i64" where
  "containsTxHash None index hash = (False, index - 1)"
| "containsTxHash (Some (MerkleNode l r d)) index hash =
     (let index' = index + 1 in
      if d = hash then (True, index' - 1)
      else let (left, indexLeft) = containsTxHash l index' hash;
               (right, indexRight) = containsTxHash r index' hash;
               ind = index' - 1;
               ind1 = (if left then indexLeft else ind);
               ind2 = (if right then indexRight else ind1)
           in (left \<or> right, ind2))"

definition IsTxHashInTree :: "MerkleTree \<Rightarrow> bytes \<Rightarrow> bool result" where
  "IsTxHashInTree t hash =
     (case Root t of
        [] \<Rightarrow> Panic
      | n # ns \<Rightarrow>
          if fst (containsTxHash (Some n) 0 hash) then Ok True
          else Ok (case ns of [] \<Rightarrow> False | m # _ \<Rightarrow> fst (containsTxHash (Some m) 0 hash)))"

section \<open>Trees in the database\<close>

type_synonym nodes_enc = "MerkleNode list \<Rightarrow> bytes"
type_synonym nodes_dec = "bytes \<Rightarrow> MerkleNode list result"

definition nodes_Marshal :: "nodes_enc \<Rightarrow> MerkleNode list \<Rightarrow> bytes" where
  "nodes_Marshal enc ns = MerkleNodeDBPrefix @ enc ns"

text \<open>\<^verbatim>\<open>common.Unmarshal\<close> into a nil slice: fewer than two bytes leave it nil.\<close>

definition nodes_Unmarshal :: "nodes_dec \<Rightarrow> bytes \<Rightarrow> MerkleNode list result" where
  "nodes_Unmarshal dec b = (if length b < 2 then Ok [] else dec (drop 2 b))"

definition StoreTree ::
  "'d kv \<Rightarrow> nodes_enc \<Rightarrow> MerkleTree \<Rightarrow> i64 \<Rightarrow> ('d, unit) op" where
  "StoreTree K enc t height =
     sbind (DB_Put K (MerkleNodeDBPrefix @ GetByteInt64 height) (nodes_Marshal enc (Root t))) (\<lambda>_.
     sbind (DB_Put K (RootHashMerkleTreeDBPrefix @ GetByteInt64 height) (GetRootHash t)) (\<lambda>_.
     DB_Put K (TransactionsHashesByHeightDBPrefix @ GetByteInt64 height) (concat (TxHashes t))))"

definition LoadTxHashes :: "'d kv \<Rightarrow> i64 \<Rightarrow> 'd \<Rightarrow> bytes list result" where
  "LoadTxHashes K height d =
     rbind (DB_Get K (TransactionsHashesByHeightDBPrefix @ GetByteInt64 height) d) (\<lambda>txbytes.
       Ok (chunks HashLength (length txbytes div HashLength) txbytes))"

definition LoadHashMerkleTreeByHeight :: "'d kv \<Rightarrow> i64 \<Rightarrow> 'd \<Rightarrow> bytes result" where
  "LoadHashMerkleTreeByHeight K height d =
     DB_Get K (RootHashMerkleTreeDBPrefix @ GetByteInt64 height) d"

text \<open>A stored tree with no node comes back as an empty tree and no error.\<close>

definition LoadTreeWithoutTxHashes :: "'d kv \<Rightarrow> nodes_dec \<Rightarrow> i64 \<Rightarrow> 'd \<Rightarrow> MerkleTree result" where
  "LoadTreeWithoutTxHashes K dec height d =
     rbind (DB_Get K (MerkleNodeDBPrefix @ GetByteInt64 height) d) (\<lambda>treeb.
     rbind (nodes_Unmarshal dec treeb) (\<lambda>nodes.
     rbind (DB_Get K (RootHashMerkleTreeDBPrefix @ GetByteInt64 height) d) (\<lambda>rootHash.
       case nodes of [] \<Rightarrow> Ok \<lparr>Root = [], TxHashes = []\<rparr>
       | MerkleNode l r _ # ns \<Rightarrow> Ok \<lparr>Root = MerkleNode l r rootHash # ns, TxHashes = []\<rparr>)))"

definition FindTransactionInBlocks ::
  "'d kv \<Rightarrow> nodes_dec \<Rightarrow> bytes \<Rightarrow> i64 \<Rightarrow> 'd \<Rightarrow> i64 result" where
  "FindTransactionInBlocks K dec targetHash height d =
     rbind (LoadTreeWithoutTxHashes K dec height d) (\<lambda>tree.
       case Root tree of
         [] \<Rightarrow> Err ''no merkle tree root hash''
       | n # ns \<Rightarrow>
           (case containsTxHash (Some n) 0 targetHash of
              (True, hl) \<Rightarrow> Ok hl
            | (False, _) \<Rightarrow>
                (case ns of
                   [] \<Rightarrow> Err ''tx hash not found''
                 | m # _ \<Rightarrow> (case containsTxHash (Some m) 0 targetHash of
                     (True, hr) \<Rightarrow> Ok hr | (False, _) \<Rightarrow> Err ''tx hash not found''))))"

definition RemoveMerkleTrieFromDB :: "'d kv \<Rightarrow> i64 \<Rightarrow> ('d, unit) op" where
  "RemoveMerkleTrieFromDB K height =
     sbind (DB_Delete K (RootHashMerkleTreeDBPrefix @ GetByteInt64 height)) (\<lambda>_.
     sbind (DB_Delete K (MerkleNodeDBPrefix @ GetByteInt64 height)) (\<lambda>_.
     DB_Delete K (TransactionsHashesByHeightDBPrefix @ GetByteInt64 height)))"

section \<open>The construction on the level of digests\<close>

fun pair_up :: "bytes list \<Rightarrow> bytes list" where
  "pair_up (x # y # zs) = (x @ y) # pair_up zs"
| "pair_up _ = []"

lemma length_pair_up [simp]: "length (pair_up xs) = length xs div 2"
  by (induction xs rule: pair_up.induct) auto

text \<open>
  One level: each pair is hashed.  \<open>hroot\<close> is what the loop leaves, \<open>hinputs\<close> the strings it
  hashes on the way, \<open>hashed\<close> all the strings hashed for a list of leaves.
\<close>

definition hlevel :: "digest \<Rightarrow> bytes list \<Rightarrow> bytes list" where
  "hlevel H xs = map H (pair_up (pad_last xs))"

lemma length_hlevel [simp]: "length (hlevel H xs) = (length xs + 1) div 2"
  by (simp add: hlevel_def length_pad_last)

function hroot :: "digest \<Rightarrow> bytes list \<Rightarrow> bytes list" where
  "hroot H xs = (if length xs > 1 then hroot H (hlevel H xs) else xs)"
  by auto
termination
  by (relation "measure (length \<circ> snd)") auto

function hinputs :: "digest \<Rightarrow> bytes list \<Rightarrow> bytes set" where
  "hinputs H xs = (if length xs > 1
     then set (pair_up (pad_last xs)) \<union> hinputs H (hlevel H xs) else {})"
  by auto
termination
  by (relation "measure (length \<circ> snd)") auto

declare hroot.simps [simp del] hinputs.simps [simp del] merkle_loop.simps [simp del]

definition hashed :: "digest \<Rightarrow> bytes list \<Rightarrow> bytes set" where
  "hashed H xs = set xs \<union> hinputs H (map H xs)"

fun node_datas :: "MerkleNode option \<Rightarrow> bytes set" where
  "node_datas None = {}"
| "node_datas (Some (MerkleNode l r d)) = insert d (node_datas l \<union> node_datas r)"

definition forest_datas :: "MerkleNode list \<Rightarrow> bytes set" where
  "forest_datas ns = (\<Union>n \<in> set ns. node_datas (Some n))"

lemma forest_datas_simps [simp]:
  "forest_datas [] = {}"
  "forest_datas (n # ns) = node_datas (Some n) \<union> forest_datas ns"
  "forest_datas (ns @ ms) = forest_datas ns \<union> forest_datas ms"
  by (auto simp: forest_datas_def)

lemma forest_datas_pad [simp]: "forest_datas (pad_last ns) = forest_datas ns"
proof (cases "ns = []")
  case False
  then have "last ns \<in> set ns" by simp
  then have "node_datas (Some (last ns)) \<subseteq> forest_datas ns" by (auto simp: forest_datas_def)
  then show ?thesis by (auto simp: pad_last_def)
qed (simp add: pad_last_def)

lemma map_pad_last: "map f (pad_last xs) = pad_last (map f xs)"
  by (cases "xs = []") (auto simp: pad_last_def last_map)

lemma even_pad_last: "even (length (pad_last xs))"
  by (simp add: length_pad_last)

lemma merkle_level_even:
  assumes "even (length ns)"
  shows "\<exists>level. merkle_level H ns = Ok level \<and>
    map node_Data level = map H (pair_up (map node_Data ns)) \<and>
    forest_datas level = forest_datas ns \<union> set (map H (pair_up (map node_Data ns)))"
  using assms by (induction H ns rule: merkle_level.induct) (auto simp: NewMerkleNode_def)

lemma merkle_loop_data:
  "\<exists>out. merkle_loop H ns = Ok out \<and> map node_Data out = hroot H (map node_Data ns) \<and>
    forest_datas out = forest_datas ns \<union> H ` hinputs H (map node_Data ns)"
proof (induction "length ns" arbitrary: ns rule: less_induct)
  case less
  show ?case
  proof (cases "length ns > 1")
    case False
    then show ?thesis
      by (simp add: merkle_loop.simps [of H ns] hroot.simps [of H "map node_Data ns"]
          hinputs.simps [of H "map node_Data ns"])
  next
    case True
    obtain level where lv: "merkle_level H (pad_last ns) = Ok level"
      "map node_Data level = hlevel H (map node_Data ns)"
      "forest_datas level = forest_datas ns \<union> set (hlevel H (map node_Data ns))"
      using merkle_level_even [OF even_pad_last, of H ns] by (auto simp: hlevel_def map_pad_last)
    have "length level < length ns"
      using arg_cong [OF lv(2), of length] True by simp
    from less.hyps [OF this] obtain out where "merkle_loop H level = Ok out"
      "map node_Data out = hroot H (hlevel H (map node_Data ns))"
      "forest_datas out = forest_datas level \<union> H ` hinputs H (hlevel H (map node_Data ns))"
      by (auto simp: lv(2))
    with True lv show ?thesis
      by (auto simp: merkle_loop.simps [of H ns] hroot.simps [of H "map node_Data ns"]
          hinputs.simps [of H "map node_Data ns"] hlevel_def)
  qed
qed

lemma merkle_leaves_data:
  "\<exists>ns. merkle_leaves H ds = Ok ns \<and> map node_Data ns = map H ds \<and> forest_datas ns = H ` set ds"
  by (induction ds) (auto simp: NewMerkleNode_def)

lemma NewMerkleTree_data:
  "\<exists>ns. NewMerkleTree H ds = Ok ns \<and> map node_Data ns = hroot H (map H ds) \<and>
    forest_datas ns = H ` hashed H ds"
proof -
  obtain ls where ls: "merkle_leaves H ds = Ok ls" "map node_Data ls = map H ds"
    "forest_datas ls = H ` set ds"
    using merkle_leaves_data by blast
  show ?thesis
    using merkle_loop_data [of H ls] ls by (auto simp: NewMerkleTree_def hashed_def)
qed

lemma length_hroot: "length (hroot H xs) = min 1 (length xs)"
proof (induction "length xs" arbitrary: xs rule: less_induct)
  case less
  show ?case
    using less [of "hlevel H xs"] by (cases "length xs > 1") (auto simp: hroot.simps [of H xs])
qed

lemma BuildMerkleTree_Ok:
  assumes "BuildMerkleTree H xs = Ok t"
  shows "forest_datas (Root t) = H ` hashed H xs" and "length (Root t) = min 1 (length xs)"
    and "GetRootHash t = (if xs = [] then EmptyHash else hd (hroot H (map H xs)))"
    and "TxHashes t = xs"
proof -
  obtain ns where ns: "NewMerkleTree H xs = Ok ns" "map node_Data ns = hroot H (map H xs)"
    "forest_datas ns = H ` hashed H xs" using NewMerkleTree_data by blast
  with assms have t: "t = \<lparr>Root = ns, TxHashes = xs\<rparr>" by (auto simp: BuildMerkleTree_def)
  show "forest_datas (Root t) = H ` hashed H xs" and "TxHashes t = xs" using t ns by auto
  have "length (map node_Data ns) = min 1 (length xs)" by (simp add: ns length_hroot)
  then show len: "length (Root t) = min 1 (length xs)" using t by simp
  show "GetRootHash t = (if xs = [] then EmptyHash else hd (hroot H (map H xs)))"
  proof (cases "xs = []")
    case False
    with len t have "ns \<noteq> []" by (auto simp: min_def split: if_splits)
    then have "hd (hroot H (map H xs)) = node_Data (hd ns)" by (metis hd_map ns(2))
    with False \<open>ns \<noteq> []\<close> t show ?thesis by (cases ns) (simp_all add: GetRootHash_def)
  qed (use t len in \<open>simp add: GetRootHash_def\<close>)
qed

lemma BuildMerkleTree_total: "\<exists>t. BuildMerkleTree H xs = Ok t"
  using NewMerkleTree_data [of H xs] by (auto simp: BuildMerkleTree_def)

section \<open>What a lookup finds\<close>

lemma containsTxHash_iff: "fst (containsTxHash n index h) \<longleftrightarrow> h \<in> node_datas n"
proof (induction n arbitrary: index rule: node_datas.induct)
  case (2 l r d)
  from 2(1) [of "index + 1"] 2(2) [of "index + 1"] show ?case
    by (cases "containsTxHash l (index + 1) h"; cases "containsTxHash r (index + 1) h") (auto simp: Let_def)
qed simp

fun node_depth :: "MerkleNode option \<Rightarrow> nat" where
  "node_depth None = 0"
| "node_depth (Some (MerkleNode l r d)) = Suc (max (node_depth l) (node_depth r))"

text \<open>The index is the depth at which the hash was found.\<close>

lemma containsTxHash_index:
  "containsTxHash n index h = (True, j) \<Longrightarrow> \<exists>k < node_depth n. j = index + word_of_nat k"
proof (induction n index h arbitrary: j rule: containsTxHash.induct)
  case (1 index hash)
  then show ?case by simp
next
  case (2 l r d index hash)
  have up: "\<exists>k < node_depth (Some (MerkleNode l r d)). j = index + word_of_nat k"
    if "\<exists>k < node_depth c. j = index + 1 + word_of_nat k" and "c = l \<or> c = r" for c
  proof -
    from that(1) obtain k where "k < node_depth c" "j = index + 1 + word_of_nat k" by blast
    then show ?thesis using that(2) by (intro exI [of _ "Suc k"]) (auto simp: algebra_simps)
  qed
  show ?case
  proof (cases "d = hash")
    case True
    with 2(3) show ?thesis by (auto intro!: exI [of _ 0])
  next
    case False
    show ?thesis
      using 2 False up [of l] up [of r] by (auto simp: Let_def split: prod.splits if_splits)
  qed
qed

section \<open>What the root determines\<close>

lemma pair_up_inject:
  assumes "even (length xs)" and "length xs = length ys"
    and "\<forall>x \<in> set xs \<union> set ys. length x = w" and "pair_up xs = pair_up ys"
  shows "xs = ys"
  using assms
proof (induction xs arbitrary: ys rule: pair_up.induct)
  case (1 x y zs)
  then obtain x' y' zs' where ys: "ys = x' # y' # zs'"
    by (metis length_Suc_conv list.size(4) Suc_length_conv)
  with 1 show ?case by auto
qed auto

lemma pad_last_inject: "length xs = length ys \<Longrightarrow> pad_last xs = pad_last ys \<Longrightarrow> xs = ys"
  by (auto simp: pad_last_def split: if_splits)

lemma set_pad_last [simp]: "set (pad_last xs) = set xs"
  by (cases "xs = []") (auto simp: pad_last_def)

lemma map_inject_on:
  assumes "map f xs = map f ys" and "\<forall>x \<in> set xs. \<forall>y \<in> set ys. f x = f y \<longrightarrow> x = y"
  shows "xs = ys"
  using assms by (induction xs arbitrary: ys) (auto simp: map_eq_Cons_conv Cons_eq_map_conv)

lemma hroot_binding:
  assumes "\<forall>x. length (H x) = w" and "length xs = length ys"
    and "\<forall>x \<in> set xs \<union> set ys. length x = w" and "hroot H xs = hroot H ys"
    and "\<forall>x \<in> hinputs H xs. \<forall>y \<in> hinputs H ys. H x = H y \<longrightarrow> x = y"
  shows "xs = ys"
  using assms(2-)
proof (induction "length xs" arbitrary: xs ys rule: less_induct)
  case less
  show ?case
  proof (cases "length xs > 1")
    case False
    with less.prems show ?thesis by (simp add: hroot.simps [of H xs] hroot.simps [of H ys])
  next
    case True
    have same: "hlevel H xs = hlevel H ys"
    proof (rule less.hyps)
      show "hroot H (hlevel H xs) = hroot H (hlevel H ys)"
        using less.prems(1,3) True by (simp add: hroot.simps [of H xs] hroot.simps [of H ys])
      show "\<forall>x \<in> hinputs H (hlevel H xs). \<forall>y \<in> hinputs H (hlevel H ys). H x = H y \<longrightarrow> x = y"
        using less.prems(1,4) True by (simp add: hinputs.simps [of H xs] hinputs.simps [of H ys])
      show "\<forall>x \<in> set (hlevel H xs) \<union> set (hlevel H ys). length x = w"
        using assms(1) by (auto simp: hlevel_def)
    qed (use less.prems(1) True in simp_all)
    then have "pair_up (pad_last xs) = pair_up (pad_last ys)"
      unfolding hlevel_def
      by (rule map_inject_on)
        (use less.prems(1,4) True in \<open>simp add: hinputs.simps [of H xs] hinputs.simps [of H ys]\<close>)
    then have "pad_last xs = pad_last ys"
      by (rule pair_up_inject [where w = w, rotated 3])
        (use less.prems(1,2) in \<open>simp_all add: even_pad_last length_pad_last\<close>)
    with less.prems(1) show ?thesis by (rule pad_last_inject)
  qed
qed

lemma hroot_pad_last: "length xs > 1 \<Longrightarrow> hroot H (pad_last xs) = hroot H xs"
proof -
  assume "length xs > 1"
  moreover have "pad_last (pad_last xs) = pad_last xs"
    using even_pad_last [of xs] by (simp add: pad_last_def [of "pad_last xs"] even_iff_mod_2_eq_zero)
  moreover have "length xs \<le> length (pad_last xs)" by (simp add: pad_last_def)
  ultimately show ?thesis
    by (simp add: hroot.simps [of H xs] hroot.simps [of H "pad_last xs"] hlevel_def)
qed

section \<open>Properties\<close>

text \<open>
  C23: the Merkle root of a block binds its list of transactions: two lists of the same length
  with the same root are equal, unless the digest gives the same value for two different strings
  among those hashed for the two trees.
\<close>

theorem root_binds_transactions:
  assumes "\<forall>x. length (H x) = 32"
    and "BuildMerkleTree H xs = Ok t" and "BuildMerkleTree H ys = Ok u"
    and "length xs = length ys" and "GetRootHash t = GetRootHash u"
    and "\<forall>x \<in> hashed H xs. \<forall>y \<in> hashed H ys. H x = H y \<longrightarrow> x = y"
  shows "xs = ys"
proof (cases "xs = []")
  case False
  with assms(4) have ne: "xs \<noteq> []" "ys \<noteq> []" by auto
  then have "length (hroot H (map H xs)) = 1" "length (hroot H (map H ys)) = 1"
    by (simp_all add: length_hroot Suc_le_eq)
  moreover have "hd (hroot H (map H xs)) = hd (hroot H (map H ys))"
    using assms(5) BuildMerkleTree_Ok(3) [OF assms(2)] BuildMerkleTree_Ok(3) [OF assms(3)] ne by simp
  ultimately have root: "hroot H (map H xs) = hroot H (map H ys)"
    by (auto simp: length_Suc_conv)
  have "map H xs = map H ys"
    by (rule hroot_binding [where w = 32 and H = H])
      (use assms(1,4,6) root in \<open>auto simp: hashed_def\<close>)
  then show ?thesis
    by (rule map_inject_on) (use assms(6) in \<open>simp add: hashed_def\<close>)
qed (use assms(4) in simp)

definition sample_digest :: digest where
  "sample_digest x = copy_into EmptyHash x"

theorem root_binds_transactions_witness:
  "\<exists>t u. BuildMerkleTree sample_digest [[7]] = Ok t \<and> BuildMerkleTree sample_digest [[7]] = Ok u \<and>
    GetRootHash t = GetRootHash u \<and> [[7 :: byte]] = [[7]]"
proof -
  obtain t where t: "BuildMerkleTree sample_digest [[7]] = Ok t" using BuildMerkleTree_total by blast
  have "hashed sample_digest [[7]] = {[7]}" by (simp add: hashed_def hinputs.simps)
  then have "[[7 :: byte]] = [[7]]"
    by (intro root_binds_transactions [OF _ t t]) (auto simp: sample_digest_def)
  with t show ?thesis by blast
qed

text \<open>
  the root does not determine how many transactions there are: a list of odd length, from
  three on, has the same root as the list with its last hash repeated.
\<close>

lemma root_ignores_repeated_last:
  assumes "odd (length xs)" and "3 \<le> length xs"
    and "BuildMerkleTree H xs = Ok t" and "BuildMerkleTree H (xs @ [last xs]) = Ok u"
  shows "GetRootHash t = GetRootHash u"
proof -
  have ne: "xs \<noteq> []" using assms(2) by auto
  have "map H (xs @ [last xs]) = pad_last (map H xs)"
    using assms(1) ne by (simp add: pad_last_def last_map odd_iff_mod_2_eq_one)
  then have "hroot H (map H (xs @ [last xs])) = hroot H (map H xs)"
    using hroot_pad_last [of "map H xs" H] assms(2) by simp
  with ne show ?thesis
    using BuildMerkleTree_Ok(3) [OF assms(3)] BuildMerkleTree_Ok(3) [OF assms(4)] by simp
qed

lemma root_ignores_repeated_last_example:
  "\<exists>t u. BuildMerkleTree sample_digest [[1], [2], [3]] = Ok t \<and>
    BuildMerkleTree sample_digest [[1], [2], [3], [3]] = Ok u \<and> GetRootHash t = GetRootHash u"
proof -
  obtain t u where tu: "BuildMerkleTree sample_digest [[1], [2], [3]] = Ok t"
    "BuildMerkleTree sample_digest ([[1], [2], [3]] @ [last [[1], [2], [3]]]) = Ok u"
    using BuildMerkleTree_total by blast
  from root_ignores_repeated_last [OF _ _ tu] tu show ?thesis by simp
qed

text \<open>
  a lookup in the tree of a block with transactions finds exactly the digests of the strings
  hashed for the tree: the digest of every listed hash is found, and a string that is no such
  digest, such as a listed hash itself, is not.
\<close>

lemma IsTxHashInTree_exact:
  assumes "xs \<noteq> []" and "BuildMerkleTree H xs = Ok t"
  shows "IsTxHashInTree t h = Ok (h \<in> H ` hashed H xs) \<and> (\<forall>x \<in> set xs. IsTxHashInTree t (H x) = Ok True)"
proof -
  have "length (Root t) = 1" using BuildMerkleTree_Ok(2) [OF assms(2)] assms(1) by (cases xs) auto
  then obtain n where root: "Root t = [n]" by (auto simp: length_Suc_conv)
  with BuildMerkleTree_Ok(1) [OF assms(2)] have "node_datas (Some n) = H ` hashed H xs" by simp
  then have all: "IsTxHashInTree t k = Ok (k \<in> H ` hashed H xs)" for k
    by (simp add: IsTxHashInTree_def root containsTxHash_iff)
  moreover have "H x \<in> H ` hashed H xs" if "x \<in> set xs" for x using that by (auto simp: hashed_def)
  ultimately show ?thesis by auto
qed

lemma IsTxHashInTree_exact_example:
  "\<exists>t. BuildMerkleTree sample_digest [[7]] = Ok t \<and>
    IsTxHashInTree t [7] = Ok False \<and> IsTxHashInTree t (sample_digest [7]) = Ok True"
proof -
  obtain t where t: "BuildMerkleTree sample_digest [[7]] = Ok t" using BuildMerkleTree_total by blast
  have "hashed sample_digest [[7]] = {[7]}" by (simp add: hashed_def hinputs.simps)
  moreover have "length (sample_digest [7]) = 32" by (simp add: sample_digest_def)
  then have "sample_digest [7] \<noteq> [7]" by (metis length_Cons list.size(3) numeral_eq_one_iff One_nat_def semiring_norm(85))
  ultimately show ?thesis using IsTxHashInTree_exact [OF _ t, of "[7]"] t by auto
qed

end
