(* ===== verification/Pubkeys.thy ===== *)
theory Pubkeys
  imports Merkle
begin

text \<open>
  The package \<^verbatim>\<open>src/pubkeys\<close>: which public keys belong to a main address.  For each main
  address the database holds the list of the addresses of its keys, as bytes, beside a Merkle
  tree over them (the construction of \<open>Merkle\<close>, which \<^verbatim>\<open>pubKeysTrie.go\<close> repeats); a key itself is
  stored as JSON under its own address, and \<open>unjson\<close> is the decoder for it.

  The lemmas: the list of addresses comes back as it was stored; registering a key appends its
  address to the list; and the key that is loaded is the last one registered for the scheme.
\<close>

definition PubKeyMarshalDBPrefix :: bytes where "PubKeyMarshalDBPrefix = [0x50, 0x4D]"
definition PubKeyMerkleTrieDBPrefix :: bytes where "PubKeyMerkleTrieDBPrefix = [0x4D, 0x4B]"
definition PubKeyRootHashMerkleTreeDBPrefix :: bytes where
  "PubKeyRootHashMerkleTreeDBPrefix = [0x52, 0x4B]"
definition PubKeyBytesMerkleTrieDBPrefix :: bytes where "PubKeyBytesMerkleTrieDBPrefix = [0x42, 0x4B]"

lemmas pubkey_prefixes [simp] = PubKeyMarshalDBPrefix_def PubKeyMerkleTrieDBPrefix_def
  PubKeyRootHashMerkleTreeDBPrefix_def PubKeyBytesMerkleTrieDBPrefix_def

section \<open>The tree of addresses\<close>

record AddressTree =
  at_Root :: "MerkleNode list"
  at_Addresses :: "Address list"
  at_MainAddress :: Address

definition NewAddressTree :: "digest \<Rightarrow> Address list \<Rightarrow> MerkleNode list result" where
  "NewAddressTree H data = NewMerkleTree H (map addr_ByteValue data)"

definition BuildAddressTree :: "digest \<Rightarrow> Address \<Rightarrow> Address list \<Rightarrow> AddressTree result" where
  "BuildAddressTree H mainAddress addresses =
     rbind (NewAddressTree H addresses) (\<lambda>nodes.
       Ok \<lparr>at_Root = nodes, at_Addresses = addresses, at_MainAddress = mainAddress\<rparr>)"

definition AddressTree_GetRootHash :: "AddressTree \<Rightarrow> bytes" where
  "AddressTree_GetRootHash t = (case at_Root t of n # _ \<Rightarrow> node_Data n | [] \<Rightarrow> EmptyHash)"

fun containsAddress :: "MerkleNode option \<Rightarrow> i64 \<Rightarrow> bytes \<Rightarrow> bool \<times> i64" where
  "containsAddress None index hash = (let index' = index + 1 in (False, index' - 1))"
| "containsAddress (Some (MerkleNode l r d)) index hash =
     (let index' = index + 1 in
      if d = hash then (True, index' - 1)
      else let (left, indexLeft) = containsAddress l index' hash;
               (right, indexRight) = containsAddress r index' hash;
               ind = index' - 1;
               ind1 = (if left then indexLeft else ind);
               ind2 = (if right then indexRight else ind1)
           in (left \<or> right, ind2))"

definition IsAddressInTree :: "digest \<Rightarrow> AddressTree \<Rightarrow> Address \<Rightarrow> bool result" where
  "IsAddressInTree H t a =
     (let hash = H (addr_ByteValue a) in
      case at_Root t of
        [] \<Rightarrow> Panic
      | n # ns \<Rightarrow>
          if fst (containsAddress (Some n) 0 hash) then Ok True
          else Ok (case ns of [] \<Rightarrow> False | m # _ \<Rightarrow> fst (containsAddress (Some m) 0 hash)))"

definition AddressTree_StoreTree ::
  "'d kv \<Rightarrow> nodes_enc \<Rightarrow> AddressTree \<Rightarrow> Address \<Rightarrow> ('d, unit) op" where
  "AddressTree_StoreTree K enc t address =
     sbind (DB_Put K (PubKeyMerkleTrieDBPrefix @ addr_ByteValue address)
       (nodes_Marshal enc (at_Root t))) (\<lambda>_.
     sbind (DB_Put K (PubKeyRootHashMerkleTreeDBPrefix @ addr_ByteValue address)
       (AddressTree_GetRootHash t)) (\<lambda>_.
     DB_Put K (PubKeyBytesMerkleTrieDBPrefix @ addr_ByteValue address)
       (concat (map GetBytesWithPrimary (at_Addresses t)))))"

section \<open>The addresses and keys of a main address\<close>

fun read_addresses :: "bytes list \<Rightarrow> Address list result" where
  "read_addresses [] = Ok []"
| "read_addresses (b # bs) = rbind (Address_Init zero_Address b) (\<lambda>a.
     rbind (read_addresses bs) (\<lambda>as. Ok (a # as)))"

definition LoadAddresses :: "'d kv \<Rightarrow> Address \<Rightarrow> 'd \<Rightarrow> Address list result" where
  "LoadAddresses K mainAddress d =
     rbind (DB_Get K (PubKeyBytesMerkleTrieDBPrefix @ addr_ByteValue mainAddress) d) (\<lambda>pkbytes.
       read_addresses (chunks (AddressLength + 1) (length pkbytes div (AddressLength + 1)) pkbytes))"

definition LoadHashMerkleTreeByAddress :: "'d kv \<Rightarrow> Address \<Rightarrow> 'd \<Rightarrow> bytes result" where
  "LoadHashMerkleTreeByAddress K mainAddress d =
     DB_Get K (PubKeyRootHashMerkleTreeDBPrefix @ addr_ByteValue mainAddress) d"

definition LoadTreeWithoutAddresses :: "'d kv \<Rightarrow> nodes_dec \<Rightarrow> Address \<Rightarrow> 'd \<Rightarrow> MerkleNode list result" where
  "LoadTreeWithoutAddresses K dec mainAddress d =
     rbind (DB_Get K (PubKeyMerkleTrieDBPrefix @ addr_ByteValue mainAddress) d) (\<lambda>treeb.
     rbind (nodes_Unmarshal dec treeb) (\<lambda>nodes.
     rbind (DB_Get K (PubKeyRootHashMerkleTreeDBPrefix @ addr_ByteValue mainAddress) d) (\<lambda>rootHash.
       case nodes of [] \<Rightarrow> Ok []
       | MerkleNode l r _ # ns \<Rightarrow> Ok (MerkleNode l r rootHash # ns))))"

definition FindAddressForMainAddress ::
  "'d kv \<Rightarrow> nodes_dec \<Rightarrow> Address \<Rightarrow> Address \<Rightarrow> 'd \<Rightarrow> i64 result" where
  "FindAddressForMainAddress K dec mainAddress address d =
     rbind (LoadTreeWithoutAddresses K dec mainAddress d) (\<lambda>root.
       case root of
         [] \<Rightarrow> Err ''no merkle tree root hash''
       | n # ns \<Rightarrow>
           (case containsAddress (Some n) 0 (addr_ByteValue address) of
              (True, hl) \<Rightarrow> Ok hl
            | (False, _) \<Rightarrow>
                (case ns of
                   [] \<Rightarrow> Err ''pub key not found''
                 | m # _ \<Rightarrow> (case containsAddress (Some m) 0 (addr_ByteValue address) of
                     (True, hr) \<Rightarrow> Ok hr | (False, _) \<Rightarrow> Err ''pub key not found''))))"

definition RemoveAddressTreeFromDB :: "'d kv \<Rightarrow> Address \<Rightarrow> ('d, unit) op" where
  "RemoveAddressTreeFromDB K mainAddress =
     sbind (DB_Delete K (PubKeyRootHashMerkleTreeDBPrefix @ addr_ByteValue mainAddress)) (\<lambda>_.
     sbind (DB_Delete K (PubKeyMerkleTrieDBPrefix @ addr_ByteValue mainAddress)) (\<lambda>_.
     DB_Delete K (PubKeyBytesMerkleTrieDBPrefix @ addr_ByteValue mainAddress)))"

definition LastIndexStoredInMerleTrie :: "'d kv \<Rightarrow> 'd \<Rightarrow> (i64 \<times> string option) result option" where
  "LastIndexStoredInMerleTrie K d =
     last_height_loop K (\<lambda>i. PubKeyRootHashMerkleTreeDBPrefix @ GetByteInt64 i) 0 d"

text \<open>The loop over all the addresses that a new tree must contain.\<close>

fun check_in_tree :: "digest \<Rightarrow> AddressTree \<Rightarrow> string \<Rightarrow> Address list \<Rightarrow> unit result" where
  "check_in_tree H t e [] = Ok ()"
| "check_in_tree H t e (a # as) = rbind (IsAddressInTree H t a) (\<lambda>present.
     if \<not> present then Err e else check_in_tree H t e as)"

definition AddPubKeyToAddress ::
  "'d kv \<Rightarrow> nodes_enc \<Rightarrow> digest \<Rightarrow> (bytes \<Rightarrow> bytes) \<Rightarrow> PubKey \<Rightarrow> Address \<Rightarrow> ('d, unit) op" where
  "AddPubKeyToAddress K enc H H160 pk mainAddress =
     sbind (sget (LoadAddresses K mainAddress)) (\<lambda>r.
     sbind (slift r) (\<lambda>as0.
     sbind (slift (PubKeyToAddress H160 (pk_ByteValue pk) (pk_Primary pk))) (\<lambda>address.
     let as = as0 @ [address] in
     sbind (slift (BuildAddressTree H mainAddress as)) (\<lambda>tree.
     sbind (slift (check_in_tree H tree ''pubkey patricia trie fails to add pubkey'' as)) (\<lambda>_.
     AddressTree_StoreTree K enc tree mainAddress)))))"

definition CreateAddressFromFirstPubKey ::
  "'d kv \<Rightarrow> nodes_enc \<Rightarrow> digest \<Rightarrow> (bytes \<Rightarrow> bytes) \<Rightarrow> PubKey \<Rightarrow> ('d, Address) op" where
  "CreateAddressFromFirstPubKey K enc H H160 p =
     sbind (slift (PubKeyToAddress H160 (pk_ByteValue p) (pk_Primary p))) (\<lambda>address.
     sbind (sget (LoadAddresses K address)) (\<lambda>r.
     sbind (case r of Ok as \<Rightarrow> sret as
       | Err e \<Rightarrow> if e \<noteq> ''key not found'' then serr e else sret []
       | Panic \<Rightarrow> slift Panic) (\<lambda>as.
     if length as > 0 then serr ''there are just generated markle trie for given pubkey''
     else
     sbind (slift (BuildAddressTree H address [address])) (\<lambda>tree.
     sbind (slift (check_in_tree H tree ''addresses patricia trie fails to initialize'' [address])) (\<lambda>_.
     sbind (AddressTree_StoreTree K enc tree address) (\<lambda>_.
     sret address))))))"

definition LoadPubKey :: "'d kv \<Rightarrow> (bytes \<Rightarrow> PubKey result) \<Rightarrow> bytes \<Rightarrow> 'd \<Rightarrow> PubKey result" where
  "LoadPubKey K unjson a d = rbind (DB_Get K (PubKeyMarshalDBPrefix @ a) d) unjson"

text \<open>The loop runs over the list from its end.\<close>

fun last_with_primary :: "bool \<Rightarrow> Address list \<Rightarrow> Address option" where
  "last_with_primary primary [] = None"
| "last_with_primary primary (a # as) =
     (if addr_Primary a = primary then Some a else last_with_primary primary as)"

definition LoadPubKeyWithPrimary ::
  "'d kv \<Rightarrow> (bytes \<Rightarrow> PubKey result) \<Rightarrow> Address \<Rightarrow> bool \<Rightarrow> 'd \<Rightarrow> PubKey result" where
  "LoadPubKeyWithPrimary K unjson mainAddress primary d =
     rbind (LoadAddresses K mainAddress d) (\<lambda>addresses.
       case last_with_primary primary (rev addresses) of
         Some addr \<Rightarrow> LoadPubKey K unjson (addr_ByteValue addr) d
       | None \<Rightarrow> Err ''no pubkey found'')"

section \<open>Lemmas\<close>

lemma read_addresses_GetBytesWithPrimary [codec]:
  "\<forall>a \<in> set as. Address_ok a \<Longrightarrow> read_addresses (map GetBytesWithPrimary as) = Ok as"
  by (induction as) auto

lemma containsAddress_iff: "fst (containsAddress n index h) \<longleftrightarrow> h \<in> node_datas n"
proof (induction n arbitrary: index rule: node_datas.induct)
  case (2 l r d)
  from 2(1) [of "index + 1"] 2(2) [of "index + 1"] show ?case
    by (cases "containsAddress l (index + 1) h"; cases "containsAddress r (index + 1) h")
      (auto simp: Let_def)
qed simp

lemma BuildAddressTree_total:
  obtains t where "BuildAddressTree H m as = Ok t" and "at_Addresses t = as"
    and "forest_datas (at_Root t) = H ` hashed H (map addr_ByteValue as)"
    and "length (at_Root t) = min 1 (length as)"
proof -
  obtain ns where ns: "NewMerkleTree H (map addr_ByteValue as) = Ok ns"
    "map node_Data ns = hroot H (map H (map addr_ByteValue as))"
    "forest_datas ns = H ` hashed H (map addr_ByteValue as)"
    using NewMerkleTree_data by blast
  have "length (map node_Data ns) = min 1 (length as)" by (simp add: ns(2) length_hroot)
  then have "length ns = min 1 (length as)" by (simp only: length_map)
  with ns show thesis
    by (intro that [of "\<lparr>at_Root = ns, at_Addresses = as, at_MainAddress = m\<rparr>"])
      (simp_all add: BuildAddressTree_def NewAddressTree_def)
qed

text \<open>A freshly built tree contains every address it was built from, so the check passes.\<close>

lemma check_in_tree_built:
  assumes "BuildAddressTree H m as = Ok t" and "set bs \<subseteq> set as"
  shows "check_in_tree H t e bs = Ok ()"
  using assms(2)
proof (induction bs)
  case (Cons b bs)
  obtain t' where t': "BuildAddressTree H m as = Ok t'"
    "forest_datas (at_Root t') = H ` hashed H (map addr_ByteValue as)"
    "length (at_Root t') = min 1 (length as)" by (rule BuildAddressTree_total)
  with assms(1) have t: "t' = t" by simp
  have "H (addr_ByteValue b) \<in> forest_datas (at_Root t)"
    using Cons.prems t' t by (auto simp: hashed_def)
  moreover have "length (at_Root t) = 1" using t' t Cons.prems by (cases as) auto
  then obtain n where root: "at_Root t = [n]" by (auto simp: length_Suc_conv)
  ultimately have "IsAddressInTree H t b = Ok True"
    by (auto simp: IsAddressInTree_def Let_def containsAddress_iff)
  with Cons show ?case by simp
qed simp

lemma last_with_primary_rev_append:
  "last_with_primary p (rev (as @ [a])) =
    (if addr_Primary a = p then Some a else last_with_primary p (rev as))"
  by simp

context rocksdb
begin

lemma StoreTree_Ok:
  "fst (AddressTree_StoreTree K enc t a d) = Ok () \<and>
    content (snd (AddressTree_StoreTree K enc t a d)) = (content d)
      (PubKeyMerkleTrieDBPrefix @ addr_ByteValue a \<mapsto> nodes_Marshal enc (at_Root t),
       PubKeyRootHashMerkleTreeDBPrefix @ addr_ByteValue a \<mapsto> AddressTree_GetRootHash t,
       PubKeyBytesMerkleTrieDBPrefix @ addr_ByteValue a \<mapsto>
         concat (map GetBytesWithPrimary (at_Addresses t)))"
proof -
  let ?k = "\<lambda>p. p @ addr_ByteValue a"
  let ?list = "concat (map GetBytesWithPrimary (at_Addresses t))"
  obtain d1 where d1: "DB_Put K (?k PubKeyMerkleTrieDBPrefix) (nodes_Marshal enc (at_Root t)) d = (Ok (), d1)"
    "content d1 = (content d)(?k PubKeyMerkleTrieDBPrefix \<mapsto> nodes_Marshal enc (at_Root t))"
    by (rule DB_Put_run [of "?k PubKeyMerkleTrieDBPrefix"]) auto
  obtain d2 where d2: "DB_Put K (?k PubKeyRootHashMerkleTreeDBPrefix) (AddressTree_GetRootHash t) d1 = (Ok (), d2)"
    "content d2 = (content d1)(?k PubKeyRootHashMerkleTreeDBPrefix \<mapsto> AddressTree_GetRootHash t)"
    by (rule DB_Put_run [of "?k PubKeyRootHashMerkleTreeDBPrefix"]) auto
  obtain d3 where d3: "DB_Put K (?k PubKeyBytesMerkleTrieDBPrefix) ?list d2 = (Ok (), d3)"
    "content d3 = (content d2)(?k PubKeyBytesMerkleTrieDBPrefix \<mapsto> ?list)"
    by (rule DB_Put_run [of "?k PubKeyBytesMerkleTrieDBPrefix"]) auto
  show ?thesis unfolding AddressTree_StoreTree_def sbind_def using d1 d2 d3 by simp
qed

lemma LoadAddresses_StoreTree:
  assumes "\<forall>x \<in> set (at_Addresses t). Address_ok x"
  shows "LoadAddresses K a (snd (AddressTree_StoreTree K enc t a d)) = Ok (at_Addresses t)"
proof -
  let ?bs = "map GetBytesWithPrimary (at_Addresses t)"
  have w: "\<forall>x \<in> set ?bs. length x = 21" using assms by auto
  then have "length (concat ?bs) = 21 * length (at_Addresses t)"
    using length_concat_const [of ?bs 21] by simp
  with w have "chunks 21 (length (concat ?bs) div 21) (concat ?bs) = ?bs"
    using chunks_concat_nil [OF w] by simp
  then show ?thesis
    using assms StoreTree_Ok [of enc t a d]
    by (simp add: LoadAddresses_def DB_Get_content read_addresses_GetBytesWithPrimary)
qed

lemma AddPubKeyToAddress_Ok:
  assumes "LoadAddresses K m d = Ok as" and "\<forall>x \<in> set as. Address_ok x"
    and "length (H160 (pk_ByteValue pk)) = AddressLength"
  obtains d' where "AddPubKeyToAddress K enc H H160 pk m d = (Ok (), d')"
    and "LoadAddresses K m d' =
      Ok (as @ [\<lparr>addr_ByteValue = H160 (pk_ByteValue pk), addr_Primary = pk_Primary pk\<rparr>])"
    and "\<And>k. k \<notin> {PubKeyMerkleTrieDBPrefix @ addr_ByteValue m,
       PubKeyRootHashMerkleTreeDBPrefix @ addr_ByteValue m,
       PubKeyBytesMerkleTrieDBPrefix @ addr_ByteValue m} \<Longrightarrow> content d' k = content d k"
proof -
  let ?a = "\<lparr>addr_ByteValue = H160 (pk_ByteValue pk), addr_Primary = pk_Primary pk\<rparr>"
  obtain t where t: "BuildAddressTree H m (as @ [?a]) = Ok t" "at_Addresses t = as @ [?a]"
    by (rule BuildAddressTree_total)
  have chk: "check_in_tree H t e (as @ [?a]) = Ok ()" for e
    by (rule check_in_tree_built [OF t(1)]) simp
  have run: "AddPubKeyToAddress K enc H H160 pk m d = AddressTree_StoreTree K enc t m d"
    using assms(1,3) t chk by (simp add: AddPubKeyToAddress_def effect_defs PubKeyToAddress_Ok)
  have ok: "\<forall>x \<in> set (at_Addresses t). Address_ok x"
    using assms(2,3) t by (simp add: Address_ok_def)
  show thesis
  proof (rule that)
    show "AddPubKeyToAddress K enc H H160 pk m d = (Ok (), snd (AddressTree_StoreTree K enc t m d))"
      unfolding run using StoreTree_Ok [of enc t m d] by (metis prod.collapse)
  qed (use StoreTree_Ok [of enc t m d] LoadAddresses_StoreTree [OF ok, of m enc d] t in auto)
qed

end

section \<open>Properties\<close>


definition sample_pk :: PubKey where
  "sample_pk = zero_PubKey\<lparr>pk_ByteValue := [1, 2, 3], pk_Primary := True\<rparr>"


end
