(* ===== verification/Transaction.thy ===== *)
theory Transaction
  imports Account Pubkeys
begin

text \<open>
  The package \<^verbatim>\<open>src/transactionsDefinition\<close>: the transaction with its parameters and payload, its
  bytes, its hash, its place in the database and the checks of \<^verbatim>\<open>Verify\<close>.

  Arguments of the definitions: \<open>H160\<close> and \<open>H256\<close> are the two Blake2b digests, \<open>ec\<close> the
  encryption configuration, \<open>unjson\<close> the JSON decoder for a stored key, and \<open>oqs_len\<close>,
  \<open>oqs_verify\<close> the liboqs library: the length of the public keys of a scheme (\<open>None\<close> when it cannot
  be initialised) and its signature check.  The lemmas give the round trip of each encoder, the
  exact limit at which a payload stops coming back, and what \<^verbatim>\<open>Verify\<close> guarantees.
\<close>

section \<open>Parameters\<close>

record TxParam =
  ChainID :: i16
  Sender :: Address
  SendingTime :: i64
  Nonce :: i16
  MultiSignTx :: hash

definition zero_TxParam :: TxParam where
  "zero_TxParam = \<lparr>ChainID = 0, Sender = zero_Address, SendingTime = 0, Nonce = 0,
     MultiSignTx = EmptyHash\<rparr>"

definition TxParam_GetBytes :: "TxParam \<Rightarrow> bytes" where
  "TxParam_GetBytes tp = GetByteInt16 (ChainID tp) @ GetBytesWithPrimary (Sender tp) @
     GetByteInt64 (SendingTime tp) @ GetByteInt16 (Nonce tp) @ BytesToLenAndBytes (MultiSignTx tp)"

definition TxParam_GetFromBytes :: "bytes \<Rightarrow> (TxParam \<times> bytes) result" where
  "TxParam_GetFromBytes b =
     (if length b < 34 then Err ''not enough bytes in TxParam unmarshaling''
      else rbind (GetInt16FromByte (take 2 b)) (\<lambda>chain.
        rbind (BytesToAddress (take 21 (drop 2 b))) (\<lambda>snd.
        rbind (GetInt64FromByte (take 8 (drop 23 b))) (\<lambda>time.
        rbind (GetInt16FromByte (take 2 (drop 31 b))) (\<lambda>nonce.
        case BytesWithLenToBytes (drop 33 b) of
          Ok (vb, left) \<Rightarrow>
            let tp = zero_TxParam\<lparr>ChainID := chain, Sender := snd, SendingTime := time, Nonce := nonce\<rparr>
            in if vb = replicate HashLength 0 then Ok (tp, left)
               else Ok (tp\<lparr>MultiSignTx := copy_into (MultiSignTx tp) vb\<rparr>, left)
        | Err e \<Rightarrow> Err ''not enough bytes in TxParam unmarshaling (multisig hash tx)''
        | Panic \<Rightarrow> Panic)))))"

definition TxParam_ok :: "TxParam \<Rightarrow> bool" where
  "TxParam_ok tp \<longleftrightarrow> Address_ok (Sender tp) \<and> length (MultiSignTx tp) = 32"

lemma length_TxParam_GetBytes [simp]: "TxParam_ok tp \<Longrightarrow> length (TxParam_GetBytes tp) = 69"
  by (simp add: TxParam_GetBytes_def TxParam_ok_def)

lemma TxParam_GetFromBytes_GetBytes [simp, codec]:
  assumes "TxParam_ok tp"
  shows "TxParam_GetFromBytes (TxParam_GetBytes tp @ rest) = Ok (tp, rest)"
  using assms
  by (cases tp) (auto simp: TxParam_GetFromBytes_def TxParam_GetBytes_def TxParam_ok_def
      zero_TxParam_def EmptyHash_def Let_def)

section \<open>Payload\<close>

record TxData =
  Recipient :: Address
  Amount :: i64
  OptData :: bytes
  Pubkey :: PubKey
  tx_LockedAmount :: i64
  tx_ReleasePerBlock :: i64
  DelegatedAccountForLocking :: Address
  EscrowTransactionsDelay :: i64
  tx_MultiSignNumber :: byte
  tx_MultiSignAddresses :: "addr20 list"

definition zero_TxData :: TxData where
  "zero_TxData = \<lparr>Recipient = zero_Address, Amount = 0, OptData = [], Pubkey = zero_PubKey,
     tx_LockedAmount = 0, tx_ReleasePerBlock = 0, DelegatedAccountForLocking = zero_Address,
     EscrowTransactionsDelay = 0, tx_MultiSignNumber = 0, tx_MultiSignAddresses = []\<rparr>"

definition TxData_body :: "TxData \<Rightarrow> bytes" where
  "TxData_body md =
     BytesToLenAndBytes (OptData md) @
     BytesToLenAndBytes (GetBytesWithPrimary (pk_MainAddress (Pubkey md))) @
     BytesToLenAndBytes (pk_ByteValue (Pubkey md)) @
     BytesToLenAndBytes (GetByteInt64 (tx_LockedAmount md)) @
     BytesToLenAndBytes (GetByteInt64 (tx_ReleasePerBlock md)) @
     BytesToLenAndBytes (addr_ByteValue (DelegatedAccountForLocking md)) @
     BytesToLenAndBytes (GetByteInt64 (EscrowTransactionsDelay md)) @
     BytesToLenAndBytes [tx_MultiSignNumber md] @
     concat (map BytesToLenAndBytes (tx_MultiSignAddresses md))"

definition TxData_GetBytes :: "TxData \<Rightarrow> bytes" where
  "TxData_GetBytes md = GetBytesWithPrimary (Recipient md) @ GetByteInt64 (Amount md) @
     (if TxData_body md \<noteq> replicate (length (TxData_body md)) 0
      then BytesToLenAndBytes (TxData_body md) else [])"

text \<open>The loop over the multi-signature addresses.\<close>

fun read_msas :: "nat \<Rightarrow> bytes \<Rightarrow> addr20 list result" where
  "read_msas 0 left = Ok []"
| "read_msas (Suc n) left = rbind (BytesWithLenToBytes left) (\<lambda>(d, left').
     rbind (read_msas n left') (\<lambda>ds. Ok (copy_into (replicate 20 0) d # ds)))"

text \<open>
  The main address keeps the error of \<^verbatim>\<open>Init\<close> only when its bytes are not zero; the error of
  splitting it off is overwritten, and the slice \<^verbatim>\<open>ma[1:]\<close> of an empty value panics.
\<close>

definition read_main_address :: "bytes \<Rightarrow> (Address \<times> bytes) result" where
  "read_main_address left =
     (let (ma, left') = (case BytesWithLenToBytes left of Ok p \<Rightarrow> p | _ \<Rightarrow> ([], []))
      in if ma = [] then Panic
         else case Address_Init zero_Address ma of
             Ok a \<Rightarrow> Ok (a, left')
           | Err e \<Rightarrow> if tl ma \<noteq> replicate (length (tl ma)) 0 then Err e
                      else Ok (zero_Address, left')
           | Panic \<Rightarrow> Panic)"

definition read_pubkey ::
  "(bytes \<Rightarrow> bytes) \<Rightarrow> EncryptionConfig \<Rightarrow> bytes \<Rightarrow> Address \<Rightarrow> PubKey result" where
  "read_pubkey H160 ec pk mainAddress =
     (case PubKey_Init H160 ec pk mainAddress of
        Ok p \<Rightarrow> Ok p
      | Err e \<Rightarrow> if length pk > 0 then Err e else Ok zero_PubKey
      | Panic \<Rightarrow> Panic)"

definition read_msa_tail :: "byte \<Rightarrow> bytes \<Rightarrow> addr20 list result" where
  "read_msa_tail msn left =
     (if length left > 0
      then let lenAccMS = length left div 20
        in if unat msn > lenAccMS then Err ''wrongly defined multisign account in transaction''
           else read_msas lenAccMS left
      else Ok [])"

definition TxData_read_body ::
  "(bytes \<Rightarrow> bytes) \<Rightarrow> EncryptionConfig \<Rightarrow> bytes \<Rightarrow> TxData \<Rightarrow> TxData result" where
  "TxData_read_body H160 ec bl md =
     rbind (BytesWithLenToBytes bl) (\<lambda>(opt, l0).
     rbind (read_main_address l0) (\<lambda>(mainAddress, l1).
     rbind (BytesWithLenToBytes l1) (\<lambda>(pk, l2).
     rbind (read_pubkey H160 ec pk mainAddress) (\<lambda>pubkey.
     rbind (BytesWithLenToBytes l2) (\<lambda>(la, l3).
     rbind (GetInt64FromByte la) (\<lambda>locked.
     rbind (BytesWithLenToBytes l3) (\<lambda>(rpb, l4).
     rbind (GetInt64FromByte rpb) (\<lambda>release.
     rbind (BytesWithLenToBytes l4) (\<lambda>(dal, l5).
     rbind (BytesToAddress dal) (\<lambda>deleg.
     rbind (BytesWithLenToBytes l5) (\<lambda>(etd, l6).
     rbind (GetInt64FromByte etd) (\<lambda>delay.
     rbind (BytesWithLenToBytes l6) (\<lambda>(msn, l7).
     if msn = [] then Panic
     else rbind (read_msa_tail (hd msn) l7) (\<lambda>msas.
       Ok (md\<lparr>OptData := opt, Pubkey := pubkey, tx_LockedAmount := locked,
         tx_ReleasePerBlock := release, DelegatedAccountForLocking := deleg,
         EscrowTransactionsDelay := delay, tx_MultiSignNumber := hd msn,
         tx_MultiSignAddresses := msas\<rparr>)))))))))))))))"

definition TxData_GetFromBytes ::
  "(bytes \<Rightarrow> bytes) \<Rightarrow> EncryptionConfig \<Rightarrow> bytes \<Rightarrow> (TxData \<times> bytes) result" where
  "TxData_GetFromBytes H160 ec data =
     rbind (slice data 0 (AddressLength + 1)) (\<lambda>ab.
     rbind (BytesToAddress ab) (\<lambda>address.
     rbind (slice data (AddressLength + 1) (AddressLength + 9)) (\<lambda>amountBytes.
     rbind (GetInt64FromByte amountBytes) (\<lambda>amount.
     let md = zero_TxData\<lparr>Recipient := address, Amount := amount\<rparr> in
     rbind (BytesWithLenToBytes (drop (AddressLength + 9) data)) (\<lambda>(bl, leftBl).
       if bl = replicate (length bl) 0 then Ok (md, leftBl)
       else rbind (TxData_read_body H160 ec bl md) (\<lambda>md'. Ok (md', leftBl)))))))"

text \<open>
  Payloads that the node builds: the key is absent or is one that \<^verbatim>\<open>PubKey.Init\<close> accepts, and
  there are no more approvals than addresses.
\<close>

definition Pubkey_ok :: "(bytes \<Rightarrow> bytes) \<Rightarrow> EncryptionConfig \<Rightarrow> PubKey \<Rightarrow> bool" where
  "Pubkey_ok H160 ec pk \<longleftrightarrow> Address_ok (pk_MainAddress pk) \<and>
     read_pubkey H160 ec (pk_ByteValue pk) (pk_MainAddress pk) = Ok pk"

definition TxData_ok :: "(bytes \<Rightarrow> bytes) \<Rightarrow> EncryptionConfig \<Rightarrow> TxData \<Rightarrow> bool" where
  "TxData_ok H160 ec md \<longleftrightarrow> Address_ok (Recipient md) \<and> Pubkey_ok H160 ec (Pubkey md) \<and>
     Address_ok (DelegatedAccountForLocking md) \<and>
     length (TxData_body md) < 2 ^ 32 \<and>
     (\<forall>x \<in> set (tx_MultiSignAddresses md). length x = 20) \<and>
     (tx_MultiSignAddresses md = [] \<or>
       unat (tx_MultiSignNumber md) \<le> length (tx_MultiSignAddresses md))"

lemma length_msa_bytes:
  "\<forall>x \<in> set xs. length x = 20 \<Longrightarrow> length (concat (map BytesToLenAndBytes xs)) = 24 * length xs"
  by (induction xs) auto

lemma read_msas_concat:
  "\<forall>x \<in> set xs. length x = 20 \<Longrightarrow>
    read_msas (length xs) (concat (map BytesToLenAndBytes xs) @ rest) = Ok xs"
  by (induction xs) auto

text \<open>One more address than there are: the loop runs into the end of the payload.\<close>

lemma read_msas_too_many:
  assumes "\<forall>x \<in> set xs. length x = 20" and "length xs < n"
  shows "read_msas n (concat (map BytesToLenAndBytes xs)) = Err ''input byte slice is too short''"
  using assms
proof (induction xs arbitrary: n)
  case Nil
  then show ?case by (cases n) (auto simp: BytesWithLenToBytes_def)
next
  case (Cons x xs)
  then show ?case by (cases n) auto
qed

lemma read_main_address_Ok [simp, codec]:
  assumes "Address_ok a"
  shows "read_main_address (BytesToLenAndBytes (GetBytesWithPrimary a) @ rest) = Ok (a, rest)"
proof -
  have "GetBytesWithPrimary a \<noteq> []" by (simp add: GetBytesWithPrimary_def)
  with assms show ?thesis by (simp add: read_main_address_def)
qed

lemma read_msa_tail_small [codec]:
  assumes "\<forall>x \<in> set xs. length x = 20" and "length xs \<le> 4" and "xs = [] \<or> unat n \<le> length xs"
  shows "read_msa_tail n (concat (map BytesToLenAndBytes xs)) = Ok xs"
proof -
  have "24 * length xs div 20 = length xs" using assms(2) by auto
  then show ?thesis
    using assms read_msas_concat [OF assms(1), of "[]"]
    by (auto simp: read_msa_tail_def length_msa_bytes Let_def)
qed

lemma read_msa_tail_large [codec]:
  assumes "\<forall>x \<in> set xs. length x = 20" and "5 \<le> length xs"
  shows "read_msa_tail n (concat (map BytesToLenAndBytes xs)) =
    (if unat n > 24 * length xs div 20 then Err ''wrongly defined multisign account in transaction''
     else Err ''input byte slice is too short'')"
proof -
  have "length xs < 24 * length xs div 20" using assms(2) by auto
  then show ?thesis
    using assms read_msas_too_many [OF assms(1), of "24 * length xs div 20"]
    by (auto simp: read_msa_tail_def length_msa_bytes Let_def)
qed

text \<open>Decoding the body of a payload is, up to its last step, the identity.\<close>

lemma TxData_read_body_GetBytes:
  assumes "TxData_ok H160 ec md"
  shows "TxData_read_body H160 ec (TxData_body md) md0 =
    rbind (read_msa_tail (tx_MultiSignNumber md)
        (concat (map BytesToLenAndBytes (tx_MultiSignAddresses md)))) (\<lambda>msas.
      Ok (md\<lparr>Recipient := Recipient md0, Amount := Amount md0,
        DelegatedAccountForLocking := (DelegatedAccountForLocking md)\<lparr>addr_Primary := True\<rparr>,
        tx_MultiSignAddresses := msas\<rparr>))"
proof -
  have short: "length (OptData md) < 2 ^ 32" "length (pk_ByteValue (Pubkey md)) < 2 ^ 32"
    using assms by (auto simp: TxData_ok_def TxData_body_def)
  have "length (addr_ByteValue (DelegatedAccountForLocking md)) = 20"
    using assms by (simp add: TxData_ok_def Address_ok_def)
  with assms short show ?thesis
    by (cases md, cases md0) (simp add: TxData_read_body_def TxData_body_def TxData_ok_def Pubkey_ok_def)
qed

lemma TxData_body_nonzero: "TxData_body md \<noteq> replicate n 0"
proof
  assume eq: "TxData_body md = replicate n 0"
  have "(8 :: byte) \<in> set (be_bytes 4 (8 :: i32))"
    using le_bytes.simps(2) [of 3 "8 :: i32"] by (simp add: be_bytes_def)
  then have "(8 :: byte) \<in> set (TxData_body md)"
    by (simp add: TxData_body_def BytesToLenAndBytes_def)
  then show False unfolding eq by simp
qed

lemma TxData_GetFromBytes_GetBytes_gen:
  assumes "TxData_ok H160 ec md"
  shows "TxData_GetFromBytes H160 ec (TxData_GetBytes md @ rest) =
    rbind (read_msa_tail (tx_MultiSignNumber md)
        (concat (map BytesToLenAndBytes (tx_MultiSignAddresses md)))) (\<lambda>msas.
      Ok (md\<lparr>DelegatedAccountForLocking := (DelegatedAccountForLocking md)\<lparr>addr_Primary := True\<rparr>,
        tx_MultiSignAddresses := msas\<rparr>, rest))"
proof -
  have r: "Address_ok (Recipient md)" "length (TxData_body md) < 2 ^ 32"
    using assms by (auto simp: TxData_ok_def)
  have "TxData_GetFromBytes H160 ec (TxData_GetBytes md @ rest) =
    rbind (TxData_read_body H160 ec (TxData_body md)
      (zero_TxData\<lparr>Recipient := Recipient md, Amount := Amount md\<rparr>)) (\<lambda>md'. Ok (md', rest))"
    using r TxData_body_nonzero
    by (simp add: TxData_GetFromBytes_def TxData_GetBytes_def slice_def Let_def)
  then show ?thesis
    unfolding TxData_read_body_GetBytes [OF assms]
    by (cases "read_msa_tail (tx_MultiSignNumber md)
        (concat (map BytesToLenAndBytes (tx_MultiSignAddresses md)))") simp_all
qed

lemma TxData_GetFromBytes_GetBytes [codec]:
  assumes "TxData_ok H160 ec md" and "length (tx_MultiSignAddresses md) \<le> 4"
  shows "TxData_GetFromBytes H160 ec (TxData_GetBytes md @ rest) =
    Ok (md\<lparr>DelegatedAccountForLocking := (DelegatedAccountForLocking md)\<lparr>addr_Primary := True\<rparr>\<rparr>, rest)"
proof -
  have "read_msa_tail (tx_MultiSignNumber md)
      (concat (map BytesToLenAndBytes (tx_MultiSignAddresses md))) = Ok (tx_MultiSignAddresses md)"
    using assms by (intro read_msa_tail_small) (auto simp: TxData_ok_def)
  then show ?thesis
    by (simp add: TxData_GetFromBytes_GetBytes_gen [OF assms(1)])
qed

section \<open>Transactions\<close>

record Transaction =
  tx_Data :: TxData
  tx_Param :: TxParam
  tx_Hash :: hash
  tx_Signature :: Signature
  tx_Height :: i64
  GasPrice :: i64
  GasUsage :: i64
  OutputLogs :: bytes
  ContractAddress :: Address

definition zero_Transaction :: Transaction where
  "zero_Transaction = \<lparr>tx_Data = zero_TxData, tx_Param = zero_TxParam, tx_Hash = EmptyHash,
     tx_Signature = zero_Signature, tx_Height = 0, GasPrice = 0, GasUsage = 0, OutputLogs = [],
     ContractAddress = zero_Address\<rparr>"

definition GasUsageEstimate :: "Transaction \<Rightarrow> i64" where
  "GasUsageEstimate mt =
     word_of_nat (length (OptData (tx_Data mt)) * 100 +
       length (pk_ByteValue (Pubkey (tx_Data mt))) * 100) + 30000"

definition GetBytesWithoutSignature :: "bool \<Rightarrow> Transaction \<Rightarrow> bytes" where
  "GetBytesWithoutSignature withHash tx =
     TxParam_GetBytes (tx_Param tx) @ TxData_GetBytes (tx_Data tx) @ GetByteInt64 (tx_Height tx) @
     GetByteInt64 (GasPrice tx) @ GetByteInt64 (GasUsage tx) @ (if withHash then tx_Hash tx else [])"

definition CalcHashAndSet :: "digest \<Rightarrow> Transaction \<Rightarrow> Transaction" where
  "CalcHashAndSet H256 mt =
     mt\<lparr>tx_Hash := GetHashFromBytes (H256 (GetBytesWithoutSignature False mt))\<rparr>"

definition Transaction_GetBytes :: "Transaction \<Rightarrow> bytes" where
  "Transaction_GetBytes mt = GetBytesWithoutSignature True mt @
     BytesToLenAndBytes (sig_ByteValue (tx_Signature mt)) @ addr_ByteValue (ContractAddress mt) @
     BytesToLenAndBytes (OutputLogs mt)"

definition Transaction_GetFromBytes ::
  "(bytes \<Rightarrow> bytes) \<Rightarrow> EncryptionConfig \<Rightarrow> bytes \<Rightarrow> (Transaction \<times> bytes) result" where
  "Transaction_GetFromBytes H160 ec b =
     (if int (length b) < 76 + SignatureLength ec + 1 \<and> int (length b) < 76 + SignatureLength2 ec + 1
      then Err ''Not enough bytes for transaction unmarshal''
      else
      rbind (TxParam_GetFromBytes b) (\<lambda>(tp, b1).
      rbind (TxData_GetFromBytes H160 ec b1) (\<lambda>(adata, b2).
      rbind (slice b2 0 8) (\<lambda>h. rbind (GetInt64FromByte h) (\<lambda>height.
      rbind (slice b2 8 16) (\<lambda>p. rbind (GetInt64FromByte p) (\<lambda>price.
      rbind (slice b2 16 24) (\<lambda>u. rbind (GetInt64FromByte u) (\<lambda>usage.
      rbind (slice b2 24 56) (\<lambda>hb.
      rbind (BytesWithLenToBytes (drop 56 b2)) (\<lambda>(vb, leftb).
      rbind (GetSignatureFromBytes ec vb (Sender tp)) (\<lambda>signature.
      rbind (slice leftb 0 20) (\<lambda>cb.
      rbind (Address_Init zero_Address cb) (\<lambda>contract.
      rbind (BytesWithLenToBytes (drop 20 leftb)) (\<lambda>(logs, leftb2).
        Ok (\<lparr>tx_Data = adata, tx_Param = tp, tx_Hash = GetHashFromBytes hb,
             tx_Signature = signature, tx_Height = height, GasPrice = price, GasUsage = usage,
             OutputLogs = logs, ContractAddress = contract\<rparr>, leftb2))))))))))))))))"

section \<open>Transactions in the database\<close>

definition StoreToDBPoolTx :: "'d kv \<Rightarrow> bytes \<Rightarrow> Transaction \<Rightarrow> ('d, unit) op" where
  "StoreToDBPoolTx K prefix mt =
     (let bt = Transaction_GetBytes mt
      in if length bt = 0 then serr ''transaction has no body. storing fails: StoreToDBPoolTx''
         else DB_Put K (prefix @ tx_Hash mt) bt)"

definition RemoveFromDBPoolTx :: "'d kv \<Rightarrow> bytes \<Rightarrow> Transaction \<Rightarrow> ('d, unit) op" where
  "RemoveFromDBPoolTx K prefix mt = DB_Delete K (prefix @ tx_Hash mt)"

definition RemoveTransactionFromDBbyHash :: "'d kv \<Rightarrow> bytes \<Rightarrow> bytes \<Rightarrow> ('d, unit) op" where
  "RemoveTransactionFromDBbyHash K prefix hash = DB_Delete K (prefix @ hash)"

text \<open>An empty value is deleted, and reported as an error.\<close>

definition LoadFromDBPoolTx ::
  "'d kv \<Rightarrow> (bytes \<Rightarrow> bytes) \<Rightarrow> EncryptionConfig \<Rightarrow> bytes \<Rightarrow> bytes \<Rightarrow> ('d, Transaction) op" where
  "LoadFromDBPoolTx K H160 ec prefix hashTransaction =
     sbind (sget (DB_Get K (prefix @ hashTransaction))) (\<lambda>r.
     sbind (slift r) (\<lambda>bt.
     if length bt = 0
     then sbind (DB_Delete K (prefix @ hashTransaction)) (\<lambda>_.
       serr ''in database transaction has no bytes stored'')
     else sbind (slift (Transaction_GetFromBytes H160 ec bt)) (\<lambda>(at, restb). sret at)))"

definition CheckFromDBPoolTx :: "'d kv \<Rightarrow> bytes \<Rightarrow> bytes \<Rightarrow> 'd \<Rightarrow> bool result" where
  "CheckFromDBPoolTx K prefix hashTransaction d =
     (case DB_IsKey K (prefix @ hashTransaction) d of
        Ok isKey \<Rightarrow> Ok isKey | Err e \<Rightarrow> Ok False | Panic \<Rightarrow> Panic)"

section \<open>Verification\<close>

text \<open>\<^verbatim>\<open>wallet.Verify\<close>: the first byte of the signature names the scheme.\<close>

definition Wallet_Verify ::
  "(string \<Rightarrow> nat option) \<Rightarrow> (string \<Rightarrow> bytes \<Rightarrow> bytes \<Rightarrow> bytes \<Rightarrow> bool result) \<Rightarrow>
   EncryptionConfig \<Rightarrow> bytes \<Rightarrow> bytes \<Rightarrow> bytes \<Rightarrow> bool result" where
  "Wallet_Verify oqs_len oqs_verify ec msg sig pubkey =
     (if sig = [] then Panic
      else let primary = (hd sig = 0);
               run = (\<lambda>name. case oqs_len name of
                  None \<Rightarrow> Some (Ok False)
                | Some n \<Rightarrow> if n = length pubkey
                    then Some (case oqs_verify name msg (tl sig) pubkey of
                       Ok v \<Rightarrow> Ok v | Err e \<Rightarrow> Ok False | Panic \<Rightarrow> Panic)
                    else None);
               first = (if primary \<and> \<not> IsPaused ec then run (sigName ec) else None);
               second = (if \<not> primary \<and> \<not> IsPaused2 ec then run (sigName2 ec) else None)
           in case first of Some r \<Rightarrow> r
              | None \<Rightarrow> (case second of Some r \<Rightarrow> r | None \<Rightarrow> Ok False))"

text \<open>The checks on the locked amount, on turning the recipient into another kind of account.\<close>

definition lock_fields_ok :: "TxData \<Rightarrow> bool result" where
  "lock_fields_ok td =
     (if sint (tx_LockedAmount td) > 0
      then rbind (IntDelegatedAccountFromAddress (DelegatedAccountForLocking td)) (\<lambda>(n, err).
        Ok (\<not> (n < 0 \<or> n > 256 \<or> err \<noteq> None) \<and> \<not> sint (tx_LockedAmount td) < 0 \<and>
          \<not> sint (tx_LockedAmount td) > sint (Amount td) \<and> \<not> sint (tx_ReleasePerBlock td) < 0 \<and>
          \<not> sint (tx_ReleasePerBlock td) > sint (tx_LockedAmount td)))
      else Ok True)"

definition account_fields_ok :: "bool \<Rightarrow> TxData \<Rightarrow> bool" where
  "account_fields_ok canBeModified td \<longleftrightarrow>
     \<not> (\<not> canBeModified \<and> (sint (EscrowTransactionsDelay td) > 0 \<or> unat (tx_MultiSignNumber td) > 0)) \<and>
     (if sint (EscrowTransactionsDelay td) > 0
      then \<not> sint (EscrowTransactionsDelay td) > sint MaxTransactionDelay
      else \<not> sint (EscrowTransactionsDelay td) < 0) \<and>
     (if unat (tx_MultiSignNumber td) > 0
      then \<not> unat (tx_MultiSignNumber td) > length (tx_MultiSignAddresses td) else True)"

text \<open>
  \<^verbatim>\<open>Verify\<close> has a pointer receiver and leaves the recomputed hash in the transaction: the
  transaction is its state.
\<close>

definition Transaction_Verify ::
  "'d kv \<Rightarrow> (bytes \<Rightarrow> PubKey result) \<Rightarrow> (string \<Rightarrow> nat option) \<Rightarrow>
   (string \<Rightarrow> bytes \<Rightarrow> bytes \<Rightarrow> bytes \<Rightarrow> bool result) \<Rightarrow> digest \<Rightarrow> EncryptionConfig \<Rightarrow>
   AccountsType \<Rightarrow> 'd \<Rightarrow> (Transaction, bool) op" where
  "Transaction_Verify K unjson oqs_len oqs_verify H256 ec acs d =
     sbind (sget (\<lambda>tx. IntDelegatedAccountFromAddress (Recipient (tx_Data tx)))) (\<lambda>r.
     sbind (slift r) (\<lambda>(n, err).
     sbind (sget tx_Data) (\<lambda>td.
     if sint (Amount td) < 0 \<and> err \<noteq> None \<and> n < 512 then sret False
     else
     sbind (slift (lock_fields_ok td)) (\<lambda>lock_ok.
     if \<not> lock_ok then sret False
     else
     sbind (slift (CanBeModifiedAccount (addr_ByteValue (Recipient td)) acs)) (\<lambda>canBeModified.
     if \<not> account_fields_ok canBeModified td then sret False
     else
     sbind (sget tx_Hash) (\<lambda>b.
     sbind (supd (CalcHashAndSet H256)) (\<lambda>_.
     sbind (sget tx_Hash) (\<lambda>b'.
     if b \<noteq> b' then sret False
     else
     sbind (sget (\<lambda>tx. sig_ByteValue (tx_Signature tx))) (\<lambda>sig.
     if sig = [] then slift Panic
     else let primary = (hd sig = 0); pkb = pk_ByteValue (Pubkey td) in
     sbind (sget (\<lambda>tx. Sender (tx_Param tx))) (\<lambda>sender.
     case (if length pkb = 0
           then rbind (LoadPubKeyWithPrimary K unjson sender primary d) (\<lambda>pk. Ok (pk_ByteValue pk))
           else Ok pkb) of
       Ok pkb' \<Rightarrow> slift (Wallet_Verify oqs_len oqs_verify ec b sig pkb')
     | Err e \<Rightarrow> sret False
     | Panic \<Rightarrow> slift Panic))))))))))"

definition EmptyTransaction :: "digest \<Rightarrow> EncryptionConfig \<Rightarrow> Transaction" where
  "EmptyTransaction H256 ec =
     (let tx = CalcHashAndSet H256 (zero_Transaction
        \<lparr>tx_Data := zero_TxData\<lparr>Recipient := EmptyAddress\<rparr>,
         tx_Param := zero_TxParam\<lparr>Sender := EmptyAddress\<rparr>\<rparr>)
      in tx\<lparr>tx_Signature := EmptySignature ec\<rparr>)"

section \<open>Round trip\<close>

definition Transaction_ok :: "(bytes \<Rightarrow> bytes) \<Rightarrow> EncryptionConfig \<Rightarrow> Transaction \<Rightarrow> bool" where
  "Transaction_ok H160 ec tx \<longleftrightarrow> TxParam_ok (tx_Param tx) \<and> TxData_ok H160 ec (tx_Data tx) \<and>
     length (tx_MultiSignAddresses (tx_Data tx)) \<le> 4 \<and> length (tx_Hash tx) = 32 \<and>
     Signature_ok ec (tx_Signature tx) \<and> sig_Address (tx_Signature tx) = Sender (tx_Param tx) \<and>
     length (sig_ByteValue (tx_Signature tx)) < 2 ^ 32 \<and> Address_ok (ContractAddress tx) \<and>
     length (OutputLogs tx) < 2 ^ 32 \<and>
     76 + min (SignatureLength ec) (SignatureLength2 ec) + 1 \<le> int (length (Transaction_GetBytes tx))"

text \<open>The flags of two addresses are not written, and come back set.\<close>

definition Transaction_norm :: "Transaction \<Rightarrow> Transaction" where
  "Transaction_norm tx = tx\<lparr>tx_Data := (tx_Data tx)\<lparr>DelegatedAccountForLocking :=
       (DelegatedAccountForLocking (tx_Data tx))\<lparr>addr_Primary := True\<rparr>\<rparr>,
     ContractAddress := (ContractAddress tx)\<lparr>addr_Primary := True\<rparr>\<rparr>"

lemma Address_Init_ByteValue [simp, codec]:
  "Address_ok a \<Longrightarrow> Address_Init zero_Address (addr_ByteValue a) = Ok (a\<lparr>addr_Primary := True\<rparr>)"
  using BytesToAddress_ByteValue [of a] by (simp add: BytesToAddress_def)

lemma Transaction_GetFromBytes_GetBytes [codec]:
  assumes "Transaction_ok H160 ec tx"
  shows "Transaction_GetFromBytes H160 ec (Transaction_GetBytes tx @ rest) = Ok (Transaction_norm tx, rest)"
proof -
  let ?after = "GetByteInt64 (tx_Height tx) @ GetByteInt64 (GasPrice tx) @ GetByteInt64 (GasUsage tx) @
    tx_Hash tx @ BytesToLenAndBytes (sig_ByteValue (tx_Signature tx)) @
    addr_ByteValue (ContractAddress tx) @ BytesToLenAndBytes (OutputLogs tx) @ rest"
  have ok: "TxParam_ok (tx_Param tx)" "TxData_ok H160 ec (tx_Data tx)"
    "length (tx_MultiSignAddresses (tx_Data tx)) \<le> 4" "length (tx_Hash tx) = 32"
    "Signature_ok ec (tx_Signature tx)" "sig_Address (tx_Signature tx) = Sender (tx_Param tx)"
    "length (sig_ByteValue (tx_Signature tx)) < 2 ^ 32" "Address_ok (ContractAddress tx)"
    "length (OutputLogs tx) < 2 ^ 32"
    using assms by (auto simp: Transaction_ok_def)
  have bytes: "Transaction_GetBytes tx @ rest =
      TxParam_GetBytes (tx_Param tx) @ TxData_GetBytes (tx_Data tx) @ ?after"
    by (simp add: Transaction_GetBytes_def GetBytesWithoutSignature_def)
  have long: "\<not> (int (length (Transaction_GetBytes tx @ rest)) < 76 + SignatureLength ec + 1 \<and>
      int (length (Transaction_GetBytes tx @ rest)) < 76 + SignatureLength2 ec + 1)"
    using assms by (auto simp: Transaction_ok_def)
  have c20: "length (addr_ByteValue (ContractAddress tx)) = 20" using ok(8) by (simp add: Address_ok_def)
  have slices: "slice ?after 0 8 = Ok (GetByteInt64 (tx_Height tx))"
    "slice ?after 8 16 = Ok (GetByteInt64 (GasPrice tx))"
    "slice ?after 16 24 = Ok (GetByteInt64 (GasUsage tx))"
    "slice ?after 24 56 = Ok (tx_Hash tx)"
    using ok(4) by (simp_all add: slice_def)
  have drop56: "drop 56 ?after = BytesToLenAndBytes (sig_ByteValue (tx_Signature tx)) @
      addr_ByteValue (ContractAddress tx) @ BytesToLenAndBytes (OutputLogs tx) @ rest"
    using ok(4) by simp
  show ?thesis
    unfolding Transaction_GetFromBytes_def if_not_P [OF long] unfolding bytes
    using ok c20
    by (cases tx)
      (simp add: TxParam_GetFromBytes_GetBytes TxData_GetFromBytes_GetBytes slices drop56 slice_def
        Transaction_norm_def del: append_assoc)
qed

section \<open>Properties\<close>

definition sample_tx :: Transaction where
  "sample_tx = zero_Transaction\<lparr>tx_Signature :=
     \<lparr>sig_ByteValue = replicate 753 0, sig_Address = zero_Address, sig_Primary = True\<rparr>\<rparr>"

lemma sample_TxData_ok: "TxData_ok H160 initEncryptionConfigInstance zero_TxData"
  by (simp add: TxData_ok_def Pubkey_ok_def TxData_body_def zero_TxData_def zero_PubKey_def
      read_pubkey_def PubKey_Init_def PubKeyLength_def PubKeyLength2_def
      initEncryptionConfigInstance_def zero_Address_def Address_ok_def GetBytesWithPrimary_def)

lemma sample_tx_fields [simp]:
  "tx_Data sample_tx = zero_TxData" "tx_Param sample_tx = zero_TxParam"
  "tx_Hash sample_tx = EmptyHash" "ContractAddress sample_tx = zero_Address"
  "sig_ByteValue (tx_Signature sample_tx) = replicate 753 0"
  "sig_Address (tx_Signature sample_tx) = zero_Address" "sig_Primary (tx_Signature sample_tx)"
  "OutputLogs sample_tx = []" "Sender zero_TxParam = zero_Address"
  "tx_MultiSignAddresses zero_TxData = []"
  by (simp_all add: sample_tx_def zero_Transaction_def zero_TxParam_def zero_TxData_def)

lemma sample_tx_logs_ok:
  assumes "length logs < 2 ^ 32"
  shows "Transaction_ok H160 initEncryptionConfigInstance (sample_tx\<lparr>OutputLogs := logs\<rparr>)"
proof -
  have p: "TxParam_ok zero_TxParam" by (simp add: TxParam_ok_def zero_TxParam_def)
  have "length (Transaction_GetBytes (sample_tx\<lparr>OutputLogs := logs\<rparr>)) \<ge> 829"
    using p by (simp add: Transaction_GetBytes_def GetBytesWithoutSignature_def)
  moreover have "SignatureLength initEncryptionConfigInstance = 752"
    "SignatureLength2 initEncryptionConfigInstance = 964"
    by (simp_all add: SignatureLength_def SignatureLength2_def initEncryptionConfigInstance_def)
  ultimately show ?thesis
    using assms p sample_TxData_ok [of H160] by (simp add: Transaction_ok_def Signature_ok_def)
qed

lemma sample_tx_ok: "Transaction_ok H160 initEncryptionConfigInstance sample_tx"
proof -
  have "sample_tx\<lparr>OutputLogs := []\<rparr> = sample_tx" by (simp add: sample_tx_def zero_Transaction_def)
  with sample_tx_logs_ok [of "[]" H160] show ?thesis by simp
qed





text \<open>
  a payload with five or more multi-signature addresses can be written but never read back:
  every node that receives it reports an error.
\<close>

lemma TxData_five_addresses_unreadable:
  assumes "TxData_ok H160 ec md" and "5 \<le> length (tx_MultiSignAddresses md)"
  shows "\<exists>e. TxData_GetFromBytes H160 ec (TxData_GetBytes md @ rest) = Err e"
proof -
  have "\<forall>x \<in> set (tx_MultiSignAddresses md). length x = 20" using assms(1) by (simp add: TxData_ok_def)
  from read_msa_tail_large [OF this assms(2), of "tx_MultiSignNumber md"] show ?thesis
    by (auto simp: TxData_GetFromBytes_GetBytes_gen [OF assms(1)])
qed

lemma TxData_five_addresses_unreadable_example:
  "\<exists>e. TxData_GetFromBytes (copy_into (replicate 20 0)) initEncryptionConfigInstance
     (TxData_GetBytes (zero_TxData\<lparr>tx_MultiSignNumber := 1,
       tx_MultiSignAddresses := replicate 5 (replicate 20 7)\<rparr>)) = Err e"
proof -
  let ?md = "zero_TxData\<lparr>tx_MultiSignNumber := 1, tx_MultiSignAddresses := replicate 5 (replicate 20 7)\<rparr>"
  have "TxData_ok H initEncryptionConfigInstance ?md" for H
    by (simp add: TxData_ok_def Pubkey_ok_def TxData_body_def zero_TxData_def zero_PubKey_def
        read_pubkey_def PubKey_Init_def PubKeyLength_def PubKeyLength2_def length_concat sum_list_replicate
        initEncryptionConfigInstance_def zero_Address_def Address_ok_def GetBytesWithPrimary_def)
  from TxData_five_addresses_unreadable [OF this, where rest = "[]"] show ?thesis by simp
qed

text \<open>
  what a transaction that \<^verbatim>\<open>Verify\<close> accepts satisfies: its hash is the digest of its signed
  bytes, the signature on that hash checks under the attached or the registered key, a negative
  amount goes only to a delegated account, a locked amount lies between the release per block and
  the amount and names a delegated account, and escrow and multi-signature marks are in range.
\<close>

lemma Transaction_Verify_accepts:
  assumes "Transaction_Verify K unjson oqs_len oqs_verify H256 ec acs d tx = (Ok True, tx')"
    and "Address_ok (Recipient (tx_Data tx))"
    and "Address_ok (DelegatedAccountForLocking (tx_Data tx))"
  shows "tx' = tx \<and> tx_Hash tx = GetHashFromBytes (H256 (GetBytesWithoutSignature False tx)) \<and>
    (\<exists>pkb. Wallet_Verify oqs_len oqs_verify ec (tx_Hash tx) (sig_ByteValue (tx_Signature tx)) pkb = Ok True \<and>
      (pkb = pk_ByteValue (Pubkey (tx_Data tx)) \<or>
       (\<exists>pk. LoadPubKeyWithPrimary K unjson (Sender (tx_Param tx))
          (hd (sig_ByteValue (tx_Signature tx)) = 0) d = Ok pk \<and> pkb = pk_ByteValue pk))) \<and>
    (0 \<le> sint (Amount (tx_Data tx)) \<or> (\<exists>n. is_delegated (Recipient (tx_Data tx)) n)) \<and>
    (0 < sint (tx_LockedAmount (tx_Data tx)) \<longrightarrow>
      (\<exists>n. is_delegated (DelegatedAccountForLocking (tx_Data tx)) n \<and> n \<le> 256) \<and>
      0 \<le> sint (tx_ReleasePerBlock (tx_Data tx)) \<and>
      sint (tx_ReleasePerBlock (tx_Data tx)) \<le> sint (tx_LockedAmount (tx_Data tx)) \<and>
      sint (tx_LockedAmount (tx_Data tx)) \<le> sint (Amount (tx_Data tx))) \<and>
    0 \<le> sint (EscrowTransactionsDelay (tx_Data tx)) \<and>
    sint (EscrowTransactionsDelay (tx_Data tx)) \<le> sint MaxTransactionDelay \<and>
    (0 < unat (tx_MultiSignNumber (tx_Data tx)) \<longrightarrow>
      unat (tx_MultiSignNumber (tx_Data tx)) \<le> length (tx_MultiSignAddresses (tx_Data tx)))"
proof -
  let ?td = "tx_Data tx" and ?sig = "sig_ByteValue (tx_Signature tx)"
  obtain n err canBe pkb where del: "IntDelegatedAccountFromAddress (Recipient ?td) = Ok (n, err)"
    and amt: "\<not> (sint (Amount ?td) < 0 \<and> err \<noteq> None \<and> n < 512)"
    and lock: "lock_fields_ok ?td = Ok True" and acc: "account_fields_ok canBe ?td"
    and h: "tx_Hash tx = tx_Hash (CalcHashAndSet H256 tx)" and tx': "tx' = CalcHashAndSet H256 tx"
    and sig: "Wallet_Verify oqs_len oqs_verify ec (tx_Hash tx) ?sig pkb = Ok True"
    and key: "(if pk_ByteValue (Pubkey ?td) = [] then rbind (LoadPubKeyWithPrimary K unjson
        (Sender (tx_Param tx)) (hd ?sig = 0) d) (\<lambda>pk. Ok (pk_ByteValue pk))
      else Ok (pk_ByteValue (Pubkey ?td))) = Ok pkb"
    using assms(1)
    by (auto simp: Transaction_Verify_def Let_def CalcHashAndSet_def elim!: sbind_OkE
        split: if_splits result.splits)
  have "tx' = tx" using h tx' by (cases tx) (simp add: CalcHashAndSet_def)
  moreover have "tx_Hash tx = GetHashFromBytes (H256 (GetBytesWithoutSignature False tx))"
    using h by (simp add: CalcHashAndSet_def)
  moreover have "pkb = pk_ByteValue (Pubkey ?td) \<or> (\<exists>pk. LoadPubKeyWithPrimary K unjson
      (Sender (tx_Param tx)) (hd ?sig = 0) d = Ok pk \<and> pkb = pk_ByteValue pk)"
    using key by (auto simp: rbind_Ok_iff split: if_splits)
  moreover have "0 \<le> sint (Amount ?td) \<or> (\<exists>n. is_delegated (Recipient ?td) n)"
    using amt del IntDelegatedAccountFromAddress_cases [OF assms(2)] by fastforce
  moreover have "0 < sint (tx_LockedAmount ?td) \<longrightarrow>
      (\<exists>n. is_delegated (DelegatedAccountForLocking ?td) n \<and> n \<le> 256) \<and>
      0 \<le> sint (tx_ReleasePerBlock ?td) \<and> sint (tx_ReleasePerBlock ?td) \<le> sint (tx_LockedAmount ?td) \<and>
      sint (tx_LockedAmount ?td) \<le> sint (Amount ?td)"
    using lock IntDelegatedAccountFromAddress_None_iff [OF assms(3)]
    by (auto simp: lock_fields_ok_def rbind_Ok_iff not_less)
  moreover have "0 \<le> sint (EscrowTransactionsDelay ?td)"
    "sint (EscrowTransactionsDelay ?td) \<le> sint MaxTransactionDelay"
    "0 < unat (tx_MultiSignNumber ?td) \<longrightarrow>
      unat (tx_MultiSignNumber ?td) \<le> length (tx_MultiSignAddresses ?td)"
    using acc by (auto simp: account_fields_ok_def MaxTransactionDelay_def split: if_splits)
  ultimately show ?thesis using sig by blast
qed

definition verified_tx :: Transaction where
  "verified_tx = sample_tx\<lparr>tx_Data := zero_TxData\<lparr>Pubkey := zero_PubKey\<lparr>pk_ByteValue := [1]\<rparr>\<rparr>\<rparr>"

lemma Transaction_Verify_accepts_example:
  "tx_Hash verified_tx = GetHashFromBytes ((\<lambda>_. EmptyHash) (GetBytesWithoutSignature False verified_tx))"
proof -
  have "Transaction_Verify mem_kv (\<lambda>_. Panic) (\<lambda>_. Some 1) (\<lambda>_ _ _ _. Ok True) (\<lambda>_. EmptyHash)
      initEncryptionConfigInstance \<lparr>AllAccounts = [], acs_Height = 0\<rparr> [] verified_tx = (Ok True, verified_tx)"
    by (simp add: Transaction_Verify_def effect_defs verified_tx_def Let_def lock_fields_ok_def
        account_fields_ok_def CanBeModifiedAccount_def zero_Account_def mgetd_def zero_TxData_def
        IntDelegatedAccountFromAddress_def zero_Address_def Wallet_Verify_def IsPaused_def
        initEncryptionConfigInstance_def CalcHashAndSet_def sample_tx_def zero_Transaction_def
        be_word_def numeral_eq_Suc [of "num.Bit0 num.One"])
  from Transaction_Verify_accepts [OF this] show ?thesis
    by (simp add: verified_tx_def zero_TxData_def)
qed

end
