(* ===== verification/Pool.thy ===== *)
theory Pool
  imports Heap Transaction
begin

text \<open>
  The transaction pool: \<^verbatim>\<open>src/transactionsPool/basePool.go\<close> and \<^verbatim>\<open>poolTx.go\<close>.  A pool holds a map of
  transactions by hash, a heap of items ordered by priority, and a map from hashes to positions in
  the heap.  Each method holds the pool's mutex; the separate \<^verbatim>\<open>updateIndices\<close> that follows is one
  step with it here.  The field \<^verbatim>\<open>index\<close> of an item is written and never read, and is left out.

  The lemmas: as long as the pool does not overflow, the three structures agree after every
  operation; what an addition to a full pool evicts; and what happens to an index left behind.
\<close>

section \<open>Items and pools\<close>

record Item =
  it_tx :: Transaction
  it_value :: hash
  it_priority :: i64

definition pq_Less :: "Item \<Rightarrow> Item \<Rightarrow> bool" where
  "pq_Less a b \<longleftrightarrow> sint (it_priority a) > sint (it_priority b)"

definition NewItem :: "Transaction \<Rightarrow> i64 \<Rightarrow> Item" where
  "NewItem tx priority =
     \<lparr>it_tx = tx, it_value = copy_into EmptyHash (tx_Hash tx), it_priority = priority\<rparr>"

record TransactionPool =
  transactions :: "(hash, Transaction) gomap"
  transactionIndices :: "(hash, nat) gomap"
  bannedTransactions :: "(hash, nat) gomap"
  priorityQueue :: "Item list"
  maxTransactions :: nat
  typePool :: byte

definition NewTransactionPool :: "nat \<Rightarrow> byte \<Rightarrow> TransactionPool" where
  "NewTransactionPool maxTx kind = \<lparr>transactions = [], transactionIndices = [],
     bannedTransactions = [], priorityQueue = [], maxTransactions = maxTx, typePool = kind\<rparr>"

definition MaxNumberOfTxBans :: nat where "MaxNumberOfTxBans = 60480"

text \<open>The loop of \<^verbatim>\<open>updateIndices\<close>: position \<open>i\<close> onwards.\<close>

fun store_indices :: "nat \<Rightarrow> Item list \<Rightarrow> (hash, nat) gomap \<Rightarrow> (hash, nat) gomap" where
  "store_indices i [] m = m"
| "store_indices i (it # its) m =
     store_indices (Suc i) its (mput (copy_into EmptyHash (tx_Hash (it_tx it))) i m)"

definition updateIndices :: "TransactionPool \<Rightarrow> TransactionPool" where
  "updateIndices tp =
     tp\<lparr>transactionIndices := store_indices 0 (priorityQueue tp) (transactionIndices tp)\<rparr>"

text \<open>
  The priority of a new item, by the kind of pool: gas price, height of release, or the first
  eight bytes of the hash of the transaction to be confirmed.
\<close>

definition pool_priority :: "byte \<Rightarrow> Transaction \<Rightarrow> hash \<Rightarrow> i64 result option" where
  "pool_priority kind tx hash2check =
     (if kind = 0 then Some (Ok (GasPrice tx))
      else if kind = 1 then Some (Ok (tx_Height tx + EscrowTransactionsDelay (tx_Data tx)))
      else if kind = 2 then Some (GetInt64FromByte hash2check)
      else None)"

definition AddTransaction :: "Transaction \<Rightarrow> hash \<Rightarrow> (TransactionPool, bool) op" where
  "AddTransaction tx hash2check =
     (let hash = copy_into EmptyHash (tx_Hash tx) in
      sbind (sget id) (\<lambda>tp.
      if map_of (bannedTransactions tp) hash \<noteq> None then sret False
      else
      sbind (if map_of (transactions tp) hash = None
        then
          sbind (supd (\<lambda>t. t\<lparr>transactions := mput hash tx (transactions t)\<rparr>)) (\<lambda>_.
          case pool_priority (typePool tp) tx hash2check of
            None \<Rightarrow> sret False
          | Some r \<Rightarrow>
              sbind (slift r) (\<lambda>priority.
              sbind (supd (\<lambda>t. t\<lparr>priorityQueue :=
                heap_Push pq_Less (NewItem tx priority) (priorityQueue t)\<rparr>)) (\<lambda>_.
              sbind (sget id) (\<lambda>t.
              if length (priorityQueue t) > maxTransactions t
              then sbind (slift (heap_Pop pq_Less (priorityQueue t))) (\<lambda>(removed, q).
                sbind (supd (\<lambda>t. t\<lparr>priorityQueue := q,
                  transactions := mdel (it_value removed) (transactions t)\<rparr>)) (\<lambda>_. sret True))
              else sret True))))
        else sret True) (\<lambda>added.
      if \<not> added then sret False
      else sbind (supd updateIndices) (\<lambda>_. sret True))))"

fun peek_items :: "TransactionPool \<Rightarrow> i64 \<Rightarrow> Item list \<Rightarrow> Transaction list" where
  "peek_items tp heightOrHash [] = []"
| "peek_items tp heightOrHash (it # its) =
     (if typePool tp = 0 \<or> typePool tp = 1 \<and> sint heightOrHash \<ge> sint (it_priority it)
         \<or> typePool tp = 2 \<and> heightOrHash = it_priority it
      then mgetd zero_Transaction (transactions tp) (copy_into EmptyHash (tx_Hash (it_tx it))) #
        peek_items tp heightOrHash its
      else peek_items tp heightOrHash its)"

definition PeekTransactions :: "nat \<Rightarrow> i64 \<Rightarrow> TransactionPool \<Rightarrow> Transaction list" where
  "PeekTransactions n heightOrHash tp =
     peek_items tp heightOrHash (take (min n (length (transactions tp))) (priorityQueue tp))"

definition RemoveTransactionByHash :: "bytes \<Rightarrow> (TransactionPool, unit) op" where
  "RemoveTransactionByHash hash =
     (let h = copy_into EmptyHash hash in
      sbind (sget id) (\<lambda>tp.
      sbind (case map_of (transactionIndices tp) h of
          Some index \<Rightarrow>
            sbind (slift (heap_Remove pq_Less index (priorityQueue tp))) (\<lambda>(it, q).
            supd (\<lambda>t. t\<lparr>priorityQueue := q, transactions := mdel h (transactions t),
              transactionIndices := mdel h (transactionIndices t)\<rparr>))
        | None \<Rightarrow> sret ()) (\<lambda>_.
      supd updateIndices)))"

definition BanTransactionByHash :: "bytes \<Rightarrow> (TransactionPool, unit) op" where
  "BanTransactionByHash hash =
     (let h = copy_into EmptyHash hash in
      supd (\<lambda>tp.
        let n = mgetd 0 (bannedTransactions tp) h + 1;
            tp' = tp\<lparr>bannedTransactions := mput h n (bannedTransactions tp)\<rparr>
        in if n > MaxNumberOfTxBans
           then tp'\<lparr>transactionIndices := mdel h (transactionIndices tp')\<rparr> else tp'))"

definition TransactionExists :: "bytes \<Rightarrow> TransactionPool \<Rightarrow> bool" where
  "TransactionExists hash tp \<longleftrightarrow> map_of (transactions tp) (copy_into EmptyHash hash) \<noteq> None"

definition PopTransactionByHash :: "bytes \<Rightarrow> (TransactionPool, Transaction) op" where
  "PopTransactionByHash hash =
     (let h = copy_into EmptyHash hash in
      sbind (sget id) (\<lambda>tp.
      sbind (case map_of (transactionIndices tp) h of
          Some index \<Rightarrow>
            sbind (slift (heap_Remove pq_Less index (priorityQueue tp))) (\<lambda>(it, q).
            sbind (supd (\<lambda>t. t\<lparr>priorityQueue := q, transactions := mdel h (transactions t),
              transactionIndices := mdel h (transactionIndices t)\<rparr>)) (\<lambda>_.
            sret (mgetd zero_Transaction (transactions tp) h)))
        | None \<Rightarrow> sret zero_Transaction) (\<lambda>tx.
      sbind (supd updateIndices) (\<lambda>_. sret tx))))"

definition NumberOfTransactions :: "TransactionPool \<Rightarrow> nat" where
  "NumberOfTransactions tp = length (transactions tp)"

interpretation pq: go_heap pq_Less
  by unfold_locales (auto simp: pq_Less_def)

section \<open>Agreement of the three structures\<close>

definition item_ok :: "Item \<Rightarrow> bool" where
  "item_ok it \<longleftrightarrow> it_value it = tx_Hash (it_tx it) \<and> length (tx_Hash (it_tx it)) = 32"

definition pool_ok :: "TransactionPool \<Rightarrow> bool" where
  "pool_ok tp \<longleftrightarrow> is_heap pq_Less (priorityQueue tp) \<and>
     gomap_ok (transactions tp) \<and> gomap_ok (transactionIndices tp) \<and>
     distinct (map it_value (priorityQueue tp)) \<and> (\<forall>it \<in> set (priorityQueue tp). item_ok it) \<and>
     (\<forall>h t. map_of (transactions tp) h = Some t \<longleftrightarrow>
       (\<exists>it \<in> set (priorityQueue tp). it_value it = h \<and> it_tx it = t)) \<and>
     (\<forall>h i. map_of (transactionIndices tp) h = Some i \<longleftrightarrow>
       i < length (priorityQueue tp) \<and> it_value (priorityQueue tp ! i) = h)"

lemma item_ok_key [simp]: "item_ok it \<Longrightarrow> copy_into EmptyHash (tx_Hash (it_tx it)) = it_value it"
  by (simp add: item_ok_def)

lemma gomap_ok_mdel [simp, intro]: "gomap_ok m \<Longrightarrow> gomap_ok (mdel k m)"
  by (rule distinct_delete)

lemma gomap_ok_store_indices: "gomap_ok m \<Longrightarrow> gomap_ok (store_indices i its m)"
  by (induction i its m rule: store_indices.induct) auto

lemma map_of_store_indices:
  assumes "\<forall>it \<in> set its. item_ok it" and "distinct (map it_value its)"
  shows "map_of (store_indices i its m) h = Some j \<longleftrightarrow>
    (\<exists>k < length its. it_value (its ! k) = h \<and> j = i + k) \<or>
    (h \<notin> it_value ` set its \<and> map_of m h = Some j)"
  using assms
proof (induction i its m rule: store_indices.induct)
  case (2 i it its m)
  have shift: "(\<exists>k < length (it # its). it_value ((it # its) ! k) = h \<and> j = i + k) \<longleftrightarrow>
      it_value it = h \<and> j = i \<or> (\<exists>k < length its. it_value (its ! k) = h \<and> j = Suc i + k)"
    by (auto simp: Ex_less_Suc2)
  have "it_value (its ! k) \<noteq> it_value it" if "k < length its" for k
    using 2(3) that by (metis distinct.simps(2) image_eqI list.set_map list.simps(9) nth_mem)
  moreover have "copy_into EmptyHash (tx_Hash (it_tx it)) = it_value it" using 2(2) by simp
  ultimately show ?case
    unfolding shift using 2 by (auto simp: map_of_mput)
qed simp

text \<open>Rebuilding the indices repairs them, unless some belong to no item.\<close>

lemma updateIndices_exact:
  assumes "\<forall>it \<in> set (priorityQueue tp). item_ok it" and "distinct (map it_value (priorityQueue tp))"
    and "\<And>h. map_of (transactionIndices tp) h \<noteq> None \<Longrightarrow> h \<in> it_value ` set (priorityQueue tp)"
  shows "map_of (transactionIndices (updateIndices tp)) h = Some i \<longleftrightarrow>
    i < length (priorityQueue tp) \<and> it_value (priorityQueue tp ! i) = h"
  using map_of_store_indices [OF assms(1,2), of 0 "transactionIndices tp" h i] assms(3) [of h]
  by (auto simp: updateIndices_def)

lemma updateIndices_fields [simp]:
  "transactions (updateIndices tp) = transactions tp"
  "priorityQueue (updateIndices tp) = priorityQueue tp"
  "bannedTransactions (updateIndices tp) = bannedTransactions tp"
  "maxTransactions (updateIndices tp) = maxTransactions tp"
  "typePool (updateIndices tp) = typePool tp"
  "gomap_ok (transactionIndices tp) \<Longrightarrow> gomap_ok (transactionIndices (updateIndices tp))"
  by (simp_all add: updateIndices_def gomap_ok_store_indices)

lemma pool_ok_updateI:
  assumes "is_heap pq_Less (priorityQueue tp)" and "gomap_ok (transactions tp)"
    and "gomap_ok (transactionIndices tp)" and "distinct (map it_value (priorityQueue tp))"
    and "\<forall>it \<in> set (priorityQueue tp). item_ok it"
    and "\<And>h t. map_of (transactions tp) h = Some t \<longleftrightarrow>
       (\<exists>it \<in> set (priorityQueue tp). it_value it = h \<and> it_tx it = t)"
    and "\<And>h. map_of (transactionIndices tp) h \<noteq> None \<Longrightarrow> h \<in> it_value ` set (priorityQueue tp)"
  shows "pool_ok (updateIndices tp)"
  using assms updateIndices_exact [OF assms(5,4,7)] by (simp add: pool_ok_def)

lemma NewTransactionPool_fields [simp]:
  "typePool (NewTransactionPool n k) = k" "maxTransactions (NewTransactionPool n k) = n"
  "priorityQueue (NewTransactionPool n k) = []"
  by (simp_all add: NewTransactionPool_def)

lemma pool_ok_NewTransactionPool: "pool_ok (NewTransactionPool n k)"
  by (simp add: pool_ok_def NewTransactionPool_def heap_ord_def)

lemma pool_ok_tx:
  "pool_ok tp \<Longrightarrow> map_of (transactions tp) h = Some t \<longleftrightarrow>
    (\<exists>it \<in> set (priorityQueue tp). it_value it = h \<and> it_tx it = t)"
  unfolding pool_ok_def by blast

lemma pool_ok_idx:
  "pool_ok tp \<Longrightarrow> map_of (transactionIndices tp) h = Some i \<longleftrightarrow>
    i < length (priorityQueue tp) \<and> it_value (priorityQueue tp ! i) = h"
  unfolding pool_ok_def by blast

lemma pool_index_value:
  assumes "pool_ok tp" and "map_of (transactionIndices tp) h \<noteq> None"
  shows "h \<in> it_value ` set (priorityQueue tp)"
  using assms by (auto simp: pool_ok_def)

section \<open>Additions\<close>

text \<open>What an addition of a new transaction does before the indices are rebuilt.\<close>

lemma AddTransaction_new:
  assumes "map_of (bannedTransactions tp) (tx_Hash tx) = None" and "length (tx_Hash tx) = 32"
    and "map_of (transactions tp) (tx_Hash tx) = None"
    and "pool_priority (typePool tp) tx h2 = Some (Ok p)"
  defines "q \<equiv> heap_Push pq_Less (NewItem tx p) (priorityQueue tp)"
  shows "length q \<le> maxTransactions tp \<Longrightarrow> AddTransaction tx h2 tp = (Ok True, updateIndices
      (tp\<lparr>transactions := mput (tx_Hash tx) tx (transactions tp), priorityQueue := q\<rparr>))"
    and "length q > maxTransactions tp \<Longrightarrow> heap_Pop pq_Less q = Ok (e, q') \<Longrightarrow>
      AddTransaction tx h2 tp = (Ok True, updateIndices
        (tp\<lparr>priorityQueue := q',
          transactions := mdel (it_value e) (mput (tx_Hash tx) tx (transactions tp))\<rparr>))"
  using assms(1-4) unfolding q_def
  by (auto simp: AddTransaction_def Let_def effect_defs)

lemma NewItem_fields [simp]:
  "it_tx (NewItem tx p) = tx" "it_priority (NewItem tx p) = p"
  "length (tx_Hash tx) = 32 \<Longrightarrow> it_value (NewItem tx p) = tx_Hash tx"
  by (simp_all add: NewItem_def)

lemma pool_ok_added:
  assumes "pool_ok tp" and "length (tx_Hash tx) = 32" and "map_of (transactions tp) (tx_Hash tx) = None"
    and q_def: "q = heap_Push pq_Less (NewItem tx p) (priorityQueue tp)"
  shows "pool_ok (updateIndices
      (tp\<lparr>transactions := mput (tx_Hash tx) tx (transactions tp), priorityQueue := q\<rparr>))"
proof (rule pool_ok_updateI, goal_cases)
  have heap: "is_heap pq_Less (priorityQueue tp)" using assms(1) by (simp add: pool_ok_def)
  note P = pq.heap_Push_props [OF heap, of "NewItem tx p", folded q_def]
  have set_q: "set q = insert (NewItem tx p) (set (priorityQueue tp))"
    using arg_cong [OF P(2), of set_mset] by simp
  have new: "tx_Hash tx \<notin> it_value ` set (priorityQueue tp)"
  proof
    assume "tx_Hash tx \<in> it_value ` set (priorityQueue tp)"
    then obtain it where "it \<in> set (priorityQueue tp)" "it_value it = tx_Hash tx" by auto
    with pool_ok_tx [OF assms(1), of "tx_Hash tx" "it_tx it"] assms(3) show False by auto
  qed
  {
    case 1
    show ?case using P(1) by simp
  next
    case 2
    show ?case using assms(1) by (simp add: pool_ok_def)
  next
    case 3
    show ?case using assms(1) by (simp add: pool_ok_def)
  next
    case 4
    have "mset (map it_value q) = add_mset (tx_Hash tx) (mset (map it_value (priorityQueue tp)))"
      using P(2) assms(2) by simp
    then have "distinct (map it_value q) = distinct (tx_Hash tx # map it_value (priorityQueue tp))"
      by (intro mset_eq_imp_distinct_iff) simp
    then show ?case using new assms(1) by (simp add: pool_ok_def)
  next
    case 5
    show ?case using assms(1,2) by (auto simp: set_q pool_ok_def item_ok_def)
  next
    case (6 h t)
    show ?case using pool_ok_tx [OF assms(1), of h t] assms(2,3) new by (auto simp: set_q map_of_mput)
  next
    case (7 h)
    then show ?case using pool_index_value [OF assms(1), of h] by (auto simp: set_q)
  }
qed

section \<open>Removals\<close>

lemma pool_ok_removed:
  assumes "pool_ok tp" and "map_of (transactionIndices tp) h = Some i"
  obtains it q where "heap_Remove pq_Less i (priorityQueue tp) = Ok (it, q)" and "it_value it = h"
    and "mset (priorityQueue tp) = add_mset it (mset q)"
    and "pool_ok (updateIndices (tp\<lparr>priorityQueue := q, transactions := mdel h (transactions tp),
      transactionIndices := mdel h (transactionIndices tp)\<rparr>))"
proof -
  have heap: "is_heap pq_Less (priorityQueue tp)" using assms(1) by (simp add: pool_ok_def)
  let ?it = "priorityQueue tp ! i"
  have i: "i < length (priorityQueue tp)" "it_value ?it = h" using assms by (auto simp: pool_ok_def)
  obtain q where q: "heap_Remove pq_Less i (priorityQueue tp) = Ok (?it, q)" "is_heap pq_Less q"
    "mset (priorityQueue tp) = add_mset ?it (mset q)"
    by (rule pq.heap_Remove_props [OF heap i(1)])
  have set_q: "set (priorityQueue tp) = insert ?it (set q)"
    using arg_cong [OF q(3), of set_mset] by simp
  have "mset (map it_value (priorityQueue tp)) = add_mset h (mset (map it_value q))"
    using q(3) i(2) by simp
  then have "distinct (map it_value (priorityQueue tp)) = distinct (h # map it_value q)"
    by (intro mset_eq_imp_distinct_iff) simp
  then have dist: "h \<notin> it_value ` set q" "distinct (map it_value q)"
    using assms(1) by (auto simp: pool_ok_def)
  show thesis
  proof (rule that [OF q(1) i(2) q(3)], rule pool_ok_updateI, goal_cases)
    case (6 k t)
    have "it_value x \<noteq> h" if "x \<in> set q" for x using dist(1) that by blast
    then show ?case using pool_ok_tx [OF assms(1), of k t] i(2) by (auto simp: set_q delete_conv')
  next
    case (7 k)
    then show ?case
      using pool_index_value [OF assms(1), of k] i(2) by (auto simp: set_q delete_conv' split: if_splits)
  qed (use q(2) assms(1) dist in \<open>auto simp: pool_ok_def set_q\<close>)
qed

lemma RemoveTransactionByHash_Some:
  assumes "length h = 32" and "map_of (transactionIndices tp) h = Some i"
    and "heap_Remove pq_Less i (priorityQueue tp) = Ok (it, q)"
  shows "RemoveTransactionByHash h tp = (Ok (), updateIndices (tp\<lparr>priorityQueue := q,
    transactions := mdel h (transactions tp), transactionIndices := mdel h (transactionIndices tp)\<rparr>))"
  using assms by (simp add: RemoveTransactionByHash_def Let_def effect_defs)

lemma RemoveTransactionByHash_None:
  "length h = 32 \<Longrightarrow> map_of (transactionIndices tp) h = None \<Longrightarrow>
    RemoveTransactionByHash h tp = (Ok (), updateIndices tp)"
  by (simp add: RemoveTransactionByHash_def Let_def effect_defs)

lemma pool_ok_updateIndices: "pool_ok tp \<Longrightarrow> pool_ok (updateIndices tp)"
  by (rule pool_ok_updateI) (auto simp: pool_ok_def)

lemma pool_no_index_iff:
  assumes "pool_ok tp"
  shows "map_of (transactionIndices tp) h = None \<longleftrightarrow> map_of (transactions tp) h = None"
proof -
  have "(\<exists>i. map_of (transactionIndices tp) h = Some i) \<longleftrightarrow> h \<in> it_value ` set (priorityQueue tp)"
    unfolding pool_ok_idx [OF assms] by (auto simp: set_conv_nth)
  moreover have "(\<exists>t. map_of (transactions tp) h = Some t) \<longleftrightarrow> h \<in> it_value ` set (priorityQueue tp)"
    by (auto simp: pool_ok_tx [OF assms])
  ultimately show ?thesis by (metis option.distinct(1) option.exhaust)
qed

lemma RemoveTransactionByHash_pool:
  assumes "pool_ok tp" and "length h = 32"
  obtains tp' where "RemoveTransactionByHash h tp = (Ok (), tp')" and "pool_ok tp'"
    and "\<And>k. map_of (transactions tp') k = (if k = h then None else map_of (transactions tp) k)"
proof (cases "map_of (transactionIndices tp) h")
  case None
  then have "map_of (transactions tp) h = None" using pool_no_index_iff [OF assms(1)] by blast
  then show ?thesis
    using that [OF RemoveTransactionByHash_None [OF assms(2) None] pool_ok_updateIndices [OF assms(1)]]
    by auto
next
  case (Some i)
  obtain it q where q: "heap_Remove pq_Less i (priorityQueue tp) = Ok (it, q)"
    "pool_ok (updateIndices (tp\<lparr>priorityQueue := q, transactions := mdel h (transactions tp),
      transactionIndices := mdel h (transactionIndices tp)\<rparr>))"
    by (rule pool_ok_removed [OF assms(1) Some])
  show ?thesis
    by (rule that [OF RemoveTransactionByHash_Some [OF assms(2) Some q(1)] q(2)]) (simp add: delete_conv')
qed

section \<open>The pool as a state machine\<close>

text \<open>
  The calls that reach a pool of a known kind: an addition with room left, a removal, a pop, and a
  ban of a transaction that the pool does not hold.
\<close>

inductive pool_step :: "TransactionPool \<Rightarrow> TransactionPool \<Rightarrow> bool" where
  step_add: "length (tx_Hash tx) = 32 \<Longrightarrow> length h2 = 32 \<Longrightarrow>
     length (priorityQueue tp) < maxTransactions tp \<Longrightarrow>
     AddTransaction tx h2 tp = (Ok b, tp') \<Longrightarrow> pool_step tp tp'"
| step_remove: "length h = 32 \<Longrightarrow> RemoveTransactionByHash h tp = (Ok (), tp') \<Longrightarrow> pool_step tp tp'"
| step_pop: "length h = 32 \<Longrightarrow> PopTransactionByHash h tp = (Ok tx, tp') \<Longrightarrow> pool_step tp tp'"
| step_ban: "length h = 32 \<Longrightarrow> \<not> TransactionExists h tp \<Longrightarrow>
     BanTransactionByHash h tp = (Ok (), tp') \<Longrightarrow> pool_step tp tp'"

inductive_cases pool_stepE: "pool_step tp tp'"

lemma PopTransactionByHash_Remove:
  "PopTransactionByHash h tp = (Ok tx, tp') \<Longrightarrow> RemoveTransactionByHash h tp = (Ok (), tp')"
  by (auto simp: PopTransactionByHash_def RemoveTransactionByHash_def Let_def effect_defs
      split: option.splits result.splits prod.splits)

lemma AddTransaction_cases:
  assumes "length (tx_Hash tx) = 32" and "AddTransaction tx h2 tp = (Ok b, tp')"
    and "pool_ok tp" and "typePool tp \<in> {0, 1, 2}" and "length h2 = 32"
  obtains (same) "tp' = tp" | (kept) "tp' = updateIndices tp" "map_of (transactions tp) (tx_Hash tx) \<noteq> None"
  | (new) p where "map_of (bannedTransactions tp) (tx_Hash tx) = None"
      "map_of (transactions tp) (tx_Hash tx) = None"
      "pool_priority (typePool tp) tx h2 = Some (Ok p)"
proof -
  consider (banned) "map_of (bannedTransactions tp) (tx_Hash tx) \<noteq> None"
    | (present) "map_of (bannedTransactions tp) (tx_Hash tx) = None"
        "map_of (transactions tp) (tx_Hash tx) \<noteq> None"
    | (absent) "map_of (bannedTransactions tp) (tx_Hash tx) = None"
        "map_of (transactions tp) (tx_Hash tx) = None" by blast
  then show thesis
  proof cases
    case banned
    then show ?thesis using assms(1,2) same by (auto simp: AddTransaction_def effect_defs Let_def)
  next
    case present
    then show ?thesis using assms(1,2) kept by (auto simp: AddTransaction_def effect_defs Let_def)
  next
    case absent
    obtain p where "pool_priority (typePool tp) tx h2 = Some (Ok p)"
      using assms(4,5) by (auto simp: pool_priority_def GetInt64FromByte_def)
    with absent show ?thesis by (rule new)
  qed
qed

lemma pool_step_ok:
  assumes "pool_step tp tp'" and "pool_ok tp" and "typePool tp \<in> {0, 1, 2}"
  shows "pool_ok tp'" and "typePool tp' = typePool tp"
proof -
  have "pool_ok tp' \<and> typePool tp' = typePool tp"
    using assms(1)
  proof (rule pool_stepE)
    fix tx h2 b
    assume len: "length (tx_Hash tx) = 32" "length h2 = 32"
      and room: "length (priorityQueue tp) < maxTransactions tp"
      and run: "AddTransaction tx h2 tp = (Ok b, tp')"
    consider "tp' = tp" | "tp' = updateIndices tp"
      | (new) p where "map_of (bannedTransactions tp) (tx_Hash tx) = None"
        "map_of (transactions tp) (tx_Hash tx) = None"
        "pool_priority (typePool tp) tx h2 = Some (Ok p)"
      using AddTransaction_cases [OF len(1) run assms(2,3) len(2)] by metis
    then show ?thesis
    proof cases
      case (new p)
      let ?q = "heap_Push pq_Less (NewItem tx p) (priorityQueue tp)"
      have "length ?q \<le> maxTransactions tp"
        using room pq.heap_Push_props(3) assms(2) by (simp add: pool_ok_def)
      from AddTransaction_new(1) [OF new(1) len(1) new(2,3) this] run
        pool_ok_added [OF assms(2) len(1) new(2) refl, of p]
      show ?thesis by auto
    qed (use assms(2) pool_ok_updateIndices in auto)
  next
    fix h
    assume h: "length h = 32" and run: "RemoveTransactionByHash h tp = (Ok (), tp')"
    have "typePool tp' = typePool tp"
      using run by (auto simp: RemoveTransactionByHash_def Let_def effect_defs
          split: option.splits result.splits prod.splits)
    then show ?thesis using RemoveTransactionByHash_pool [OF assms(2) h] run by fastforce
  next
    fix h tx
    assume h: "length h = 32" and pop: "PopTransactionByHash h tp = (Ok tx, tp')"
    note run = PopTransactionByHash_Remove [OF pop]
    have "typePool tp' = typePool tp"
      using run by (auto simp: RemoveTransactionByHash_def Let_def effect_defs
          split: option.splits result.splits prod.splits)
    then show ?thesis using RemoveTransactionByHash_pool [OF assms(2) h] run by fastforce
  next
    fix h
    assume h: "length h = 32" and out: "\<not> TransactionExists h tp"
      and run: "BanTransactionByHash h tp = (Ok (), tp')"
    have gone: "map_of (transactionIndices tp) h = None"
      using out h pool_no_index_iff [OF assms(2)] by (simp add: TransactionExists_def)
    then have "mdel h (transactionIndices tp) = transactionIndices tp"
      by (simp add: map_of_eq_None_iff delete_id)
    moreover have "pool_ok (tp\<lparr>bannedTransactions := b\<rparr>)"
      "pool_ok (tp\<lparr>bannedTransactions := b, transactionIndices := transactionIndices tp\<rparr>)" for b
      using assms(2) by (simp_all add: pool_ok_def)
    ultimately show ?thesis
      using h run by (auto simp: BanTransactionByHash_def supd_def Let_def)
  qed
  then show "pool_ok tp'" and "typePool tp' = typePool tp" by auto
qed

section \<open>Properties\<close>


definition pool_tx :: "byte \<Rightarrow> i64 \<Rightarrow> Transaction" where
  "pool_tx b price = zero_Transaction\<lparr>tx_Hash := b # replicate 31 0, GasPrice := price\<rparr>"

lemma pool_tx_fields [simp]:
  "tx_Hash (pool_tx b price) = b # replicate 31 0" "GasPrice (pool_tx b price) = price"
  by (simp_all add: pool_tx_def)


text \<open>
  an addition to a full pool evicts the item with the highest priority, for ordinary
  transactions the one that pays the highest gas price, and the position of the evicted transaction
  stays in the index.
\<close>

lemma AddTransaction_evicts_highest:
  assumes "pool_ok tp" and "length (tx_Hash tx) = 32"
    and "map_of (bannedTransactions tp) (tx_Hash tx) = None"
    and "map_of (transactions tp) (tx_Hash tx) = None"
    and "pool_priority (typePool tp) tx h2 = Some (Ok p)"
    and "length (priorityQueue tp) = maxTransactions tp"
  shows "\<exists>tp' e. AddTransaction tx h2 tp = (Ok True, tp') \<and>
    add_mset e (mset (priorityQueue tp')) = add_mset (NewItem tx p) (mset (priorityQueue tp)) \<and>
    (\<forall>it \<in> insert (NewItem tx p) (set (priorityQueue tp)). sint (it_priority it) \<le> sint (it_priority e)) \<and>
    (e \<in> set (priorityQueue tp) \<longrightarrow> map_of (transactionIndices tp') (it_value e) \<noteq> None)"
proof -
  let ?q = "heap_Push pq_Less (NewItem tx p) (priorityQueue tp)"
  have heap: "is_heap pq_Less (priorityQueue tp)" using assms(1) by (simp add: pool_ok_def)
  note P = pq.heap_Push_props [OF heap, of "NewItem tx p"]
  have ne: "?q \<noteq> []" using P(3) by auto
  have over: "maxTransactions tp < length ?q" using P(3) assms(6) by simp
  obtain q' where q': "heap_Pop pq_Less ?q = Ok (?q ! 0, q')" "mset ?q = add_mset (?q ! 0) (mset q')"
    "\<forall>y \<in> set ?q. \<not> pq_Less y (?q ! 0)"
    using pq.heap_Pop_props [OF P(1) ne] by metis
  let ?e = "?q ! 0"
  define tp0 where "tp0 = tp\<lparr>priorityQueue := q',
    transactions := mdel (it_value ?e) (mput (tx_Hash tx) tx (transactions tp))\<rparr>"
  have run: "AddTransaction tx h2 tp = (Ok True, updateIndices tp0)"
    unfolding tp0_def by (rule AddTransaction_new(2) [OF assms(3,2,4,5) over q'(1)])
  have set_q: "set ?q = insert (NewItem tx p) (set (priorityQueue tp))"
    using arg_cong [OF P(2), of set_mset] by simp
  have keep: "map_of (store_indices i its m) h \<noteq> None" if "map_of m h \<noteq> None" for i its m h
    using that by (induction i its m rule: store_indices.induct) (auto simp: map_of_mput)
  have "map_of (transactionIndices tp) (it_value ?e) \<noteq> None" if "?e \<in> set (priorityQueue tp)"
    using that pool_no_index_iff [OF assms(1)] pool_ok_tx [OF assms(1), of "it_value ?e" "it_tx ?e"]
    by auto
  then have "?e \<in> set (priorityQueue tp) \<longrightarrow>
      map_of (transactionIndices (updateIndices tp0)) (it_value ?e) \<noteq> None"
    using keep by (simp add: updateIndices_def tp0_def)
  moreover have "\<forall>it \<in> insert (NewItem tx p) (set (priorityQueue tp)).
      sint (it_priority it) \<le> sint (it_priority ?e)"
    using q'(3) by (simp add: set_q [symmetric] pq_Less_def not_less)
  moreover have "add_mset ?e (mset (priorityQueue (updateIndices tp0))) =
      add_mset (NewItem tx p) (mset (priorityQueue tp))"
    using q'(2) P(2) by (simp add: tp0_def)
  ultimately show ?thesis using run by blast
qed

lemma AddTransaction_evicts_highest_example:
  "\<exists>tp'. AddTransaction (pool_tx 2 1) EmptyHash (snd (AddTransaction (pool_tx 1 5) EmptyHash
      (NewTransactionPool 1 0))) = (Ok True, tp') \<and>
    \<not> (\<exists>e. mset (priorityQueue tp') = {#e#} \<and> it_priority e = 5)"
proof -
  let ?it = "\<lambda>b price. NewItem (pool_tx b price) price"
  define tp where "tp = snd (AddTransaction (pool_tx 1 5) EmptyHash (NewTransactionPool 1 0))"
  have add: "AddTransaction (pool_tx 1 5) EmptyHash (NewTransactionPool 1 0) = (Ok True, tp)"
    unfolding tp_def by (simp add: AddTransaction_def NewTransactionPool_def effect_defs
        pool_priority_def heap_Push_def heap_up.simps Let_def)
  have q: "priorityQueue tp = [?it 1 5]" "maxTransactions tp = 1" "typePool tp = 0"
    "bannedTransactions tp = []" "transactions tp = [(1 # replicate 31 0, pool_tx 1 5)]"
    unfolding tp_def by (simp_all add: AddTransaction_def NewTransactionPool_def effect_defs
        pool_priority_def heap_Push_def heap_up.simps Let_def)
  have "pool_step (NewTransactionPool 1 0) tp"
    by (rule step_add [OF _ _ _ add]) simp_all
  then have ok: "pool_ok tp"
    by (rule pool_step_ok(1)) (simp_all add: pool_ok_NewTransactionPool)
  obtain tp' e where tp': "AddTransaction (pool_tx 2 1) EmptyHash tp = (Ok True, tp')"
    "add_mset e (mset (priorityQueue tp')) = {#?it 2 1, ?it 1 5#}"
    "\<forall>it \<in> {?it 2 1, ?it 1 5}. sint (it_priority it) \<le> sint (it_priority e)"
    using AddTransaction_evicts_highest [OF ok, of "pool_tx 2 1" EmptyHash 1] q
    by (auto simp: pool_priority_def)
  have "e \<in># {#?it 2 1, ?it 1 5#}" by (metis tp'(2) union_single_eq_member)
  with tp'(3) have "e = ?it 1 5" by (auto split: if_splits)
  with tp'(2) have "mset (priorityQueue tp') = {#?it 2 1#}" by simp
  with tp'(1) show ?thesis unfolding tp_def by auto
qed

text \<open>
  Removing by a hash whose transaction is no longer in the pool but whose position was left
  behind takes another item out of the heap: that transaction is still listed but will never be
  offered again.
\<close>

lemma RemoveTransactionByHash_stale_index:
  assumes "is_heap pq_Less (priorityQueue tp)" and "length h = 32"
    and "map_of (transactionIndices tp) h = Some i" and "i < length (priorityQueue tp)"
    and "map_of (transactions tp) h = None"
  shows "\<exists>tp'. RemoveTransactionByHash h tp = (Ok (), tp') \<and> transactions tp' = transactions tp \<and>
    mset (priorityQueue tp) = add_mset (priorityQueue tp ! i) (mset (priorityQueue tp'))"
proof -
  obtain q where q: "heap_Remove pq_Less i (priorityQueue tp) = Ok (priorityQueue tp ! i, q)"
    "mset (priorityQueue tp) = add_mset (priorityQueue tp ! i) (mset q)"
    by (rule pq.heap_Remove_props [OF assms(1,4)])
  have "mdel h (transactions tp) = transactions tp"
    using assms(5) by (simp add: map_of_eq_None_iff delete_id)
  with RemoveTransactionByHash_Some [OF assms(2,3) q(1)] q(2) show ?thesis by simp
qed

lemma RemoveTransactionByHash_stale_index_example:
  "\<exists>tp'. RemoveTransactionByHash EmptyHash ((NewTransactionPool 1 0)\<lparr>
      priorityQueue := [NewItem (pool_tx 1 5) 5], transactions := [(1 # replicate 31 0, pool_tx 1 5)],
      transactionIndices := [(1 # replicate 31 0, 0), (EmptyHash, 0)]\<rparr>) = (Ok (), tp') \<and>
    length (transactions tp') = 1 \<and> priorityQueue tp' = []"
proof -
  have ne: "1 # replicate 31 0 \<noteq> EmptyHash" by (simp add: EmptyHash_def numeral_eq_Suc)
  from RemoveTransactionByHash_stale_index [of "(NewTransactionPool 1 0)\<lparr>
      priorityQueue := [NewItem (pool_tx 1 5) 5], transactions := [(1 # replicate 31 0, pool_tx 1 5)],
      transactionIndices := [(1 # replicate 31 0, 0), (EmptyHash, 0)]\<rparr>" EmptyHash 0] ne
  show ?thesis by (auto simp: heap_ord_def)
qed

end
