(* ===== verification/Blocks.thy ===== *)
theory Blocks
  imports Transaction Float64
begin

text \<open>
  Blocks: \<^verbatim>\<open>src/blocks/baseBlock.go\<close>, \<^verbatim>\<open>Block.go\<close>, the difficulty rule of \<^verbatim>\<open>proofOfSynergy.go\<close> and
  the encryption configuration as bytes (\<^verbatim>\<open>src/crypto/oqs/encryptSchemes.go\<close>).  The string printers
  are left out, and so is the proof check of \<^verbatim>\<open>validProof\<close>, which is a comparison of
  floating-point logarithms.

  The lemmas: headers, blocks and configurations come back from their bytes; a stored block is
  loaded by its height and gone after its removal; the difficulty stays in its range; and what the
  random choice of a key in the header check does.
\<close>

section \<open>Headers\<close>

record BaseHeader =
  PreviousHash :: hash
  Difficulty :: i32
  bh_Height :: i64
  bh_DelegatedAccount :: Address
  OperatorAccount :: Address
  RootMerkleTree :: hash
  Encryption1 :: bytes
  Encryption2 :: bytes
  bh_Signature :: Signature
  SignatureMessage :: bytes

definition BaseHeader_GetBytesWithoutSignature :: "BaseHeader \<Rightarrow> bytes" where
  "BaseHeader_GetBytesWithoutSignature b =
     PreviousHash b @ GetByteInt32 (Difficulty b) @ GetByteInt64 (bh_Height b) @
     addr_ByteValue (bh_DelegatedAccount b) @ GetBytesWithPrimary (OperatorAccount b) @
     RootMerkleTree b @ BytesToLenAndBytes (Encryption1 b) @ BytesToLenAndBytes (Encryption2 b)"

definition BaseHeader_GetBytes :: "BaseHeader \<Rightarrow> bytes" where
  "BaseHeader_GetBytes b =
     PreviousHash b @ GetByteInt32 (Difficulty b) @ GetByteInt64 (bh_Height b) @
     addr_ByteValue (bh_DelegatedAccount b) @ GetBytesWithPrimary (OperatorAccount b) @
     RootMerkleTree b @ BytesToLenAndBytes (Encryption1 b) @ BytesToLenAndBytes (Encryption2 b) @
     BytesToLenAndBytes (SignatureMessage b) @ BytesToLenAndBytes (sig_ByteValue (bh_Signature b))"

definition BaseHeader_GetFromBytes :: "EncryptionConfig \<Rightarrow> bytes \<Rightarrow> (BaseHeader \<times> bytes) result" where
  "BaseHeader_GetFromBytes ec b =
     (if int (length b) < 117 + SignatureLength ec \<and> int (length b) < 117 + SignatureLength2 ec
      then Err ''not enough bytes to decode BaseHeader''
      else
      rbind (slice b 0 32) (\<lambda>prev.
      rbind (slice b 32 36) (\<lambda>db. rbind (GetInt32FromByte db) (\<lambda>difficulty.
      rbind (slice b 36 44) (\<lambda>hb. rbind (GetInt64FromByte hb) (\<lambda>height.
      rbind (slice b 44 64) (\<lambda>ab. rbind (BytesToAddress ab) (\<lambda>address.
      rbind (slice b 64 85) (\<lambda>ob. rbind (BytesToAddress ob) (\<lambda>opAddress.
      rbind (slice b 85 117) (\<lambda>root.
      rbind (BytesWithLenToBytes (drop 117 b)) (\<lambda>(enc1, b1).
      rbind (BytesWithLenToBytes b1) (\<lambda>(enc2, b2).
      rbind (BytesWithLenToBytes b2) (\<lambda>(msg, b3).
      rbind (BytesWithLenToBytes b3) (\<lambda>(sigBytes, b4).
      rbind (GetSignatureFromBytes ec sigBytes opAddress) (\<lambda>sig.
        Ok (\<lparr>PreviousHash = GetHashFromBytes prev, Difficulty = difficulty, bh_Height = height,
             bh_DelegatedAccount = address, OperatorAccount = opAddress,
             RootMerkleTree = GetHashFromBytes root, Encryption1 = enc1, Encryption2 = enc2,
             bh_Signature = sig, SignatureMessage = msg\<rparr>, b4)))))))))))))))))"

text \<open>
  The check of a header: \<open>pref\<close> and \<open>coin\<close> are what \<^verbatim>\<open>GetNodeSignPrimary\<close> draws in this call.
\<close>

definition BaseHeader_Verify ::
  "'d kv \<Rightarrow> (bytes \<Rightarrow> PubKey result) \<Rightarrow> (string \<Rightarrow> nat option) \<Rightarrow>
   (string \<Rightarrow> bytes \<Rightarrow> bytes \<Rightarrow> bytes \<Rightarrow> bool result) \<Rightarrow> digest \<Rightarrow> EncryptionConfig \<Rightarrow>
   bool \<Rightarrow> bool \<Rightarrow> 'd \<Rightarrow> BaseHeader \<Rightarrow> bool result" where
  "BaseHeader_Verify K unjson oqs_len oqs_verify H256 ec pref coin d bh =
     (let msg = BaseHeader_GetBytesWithoutSignature bh in
      if msg \<noteq> SignatureMessage bh then Ok False
      else let calcHash = H256 msg;
               primary = GetNodeSignPrimary ec pref coin (bh_Height bh)
           in case LoadPubKeyWithPrimary K unjson (OperatorAccount bh) primary d of
                Ok pk \<Rightarrow> Wallet_Verify oqs_len oqs_verify ec calcHash
                  (sig_ByteValue (bh_Signature bh)) (pk_ByteValue pk)
              | Err e \<Rightarrow> Ok False
              | Panic \<Rightarrow> Panic)"

definition BaseHeader_CalcHash :: "digest \<Rightarrow> BaseHeader \<Rightarrow> hash" where
  "BaseHeader_CalcHash H256 b = GetHashFromBytes (H256 (BaseHeader_GetBytes b))"

section \<open>Blocks\<close>

record BaseBlock =
  bb_BaseHeader :: BaseHeader
  BlockHeaderHash :: hash
  BlockTimeStamp :: i64
  RewardPercentage :: i16
  Supply :: i64
  PriceOracle :: i64
  RandOracle :: i64
  PriceOracleData :: bytes
  RandOracleData :: bytes

definition BaseBlock_GetBytes :: "BaseBlock \<Rightarrow> bytes" where
  "BaseBlock_GetBytes bb =
     BaseHeader_GetBytes (bb_BaseHeader bb) @ BlockHeaderHash bb @ GetByteInt64 (BlockTimeStamp bb) @
     GetByteInt16 (RewardPercentage bb) @ GetByteInt64 (Supply bb) @ GetByteInt64 (PriceOracle bb) @
     GetByteInt64 (RandOracle bb) @ BytesToLenAndBytes (PriceOracleData bb) @
     BytesToLenAndBytes (RandOracleData bb)"

definition BaseBlock_GetFromBytes :: "EncryptionConfig \<Rightarrow> bytes \<Rightarrow> (BaseBlock \<times> bytes) result" where
  "BaseBlock_GetFromBytes ec b =
     (if int (length b) < 116 + SignatureLength ec + 44 + 16
      then Err ''not enough bytes to decode BaseBlock''
      else
      rbind (BaseHeader_GetFromBytes ec b) (\<lambda>(bh, b1).
      rbind (slice b1 0 32) (\<lambda>hh.
      rbind (slice b1 32 40) (\<lambda>tb. rbind (GetInt64FromByte tb) (\<lambda>stamp.
      rbind (slice b1 40 42) (\<lambda>pb. rbind (GetInt16FromByte pb) (\<lambda>perc.
      rbind (slice b1 42 50) (\<lambda>sb. rbind (GetInt64FromByte sb) (\<lambda>supply.
      rbind (slice b1 50 58) (\<lambda>ob. rbind (GetInt64FromByte ob) (\<lambda>price.
      rbind (slice b1 58 66) (\<lambda>rb. rbind (GetInt64FromByte rb) (\<lambda>rand.
      rbind (BytesWithLenToBytes (drop 66 b1)) (\<lambda>(pdata, b2).
      rbind (BytesWithLenToBytes b2) (\<lambda>(rdata, b3).
        Ok (\<lparr>bb_BaseHeader = bh, BlockHeaderHash = GetHashFromBytes hh, BlockTimeStamp = stamp,
             RewardPercentage = perc, Supply = supply, PriceOracle = price, RandOracle = rand,
             PriceOracleData = pdata, RandOracleData = rdata\<rparr>, b3))))))))))))))))"

record Block =
  bl_BaseBlock :: BaseBlock
  TransactionsHashes :: "hash list"
  BlockHash :: hash
  BlockFee :: i64

abbreviation GetHeader :: "Block \<Rightarrow> BaseHeader" where
  "GetHeader b \<equiv> bb_BaseHeader (bl_BaseBlock b)"

definition Block_GetBytes :: "Block \<Rightarrow> bytes" where
  "Block_GetBytes tb = BaseBlock_GetBytes (bl_BaseBlock tb) @ BlockHash tb @
     GetByteInt64 (BlockFee tb) @ concat (TransactionsHashes tb)"

definition GetBytesForHash :: "Block \<Rightarrow> bytes" where
  "GetBytesForHash tb = BaseBlock_GetBytes (bl_BaseBlock tb)"

definition Block_GetFromBytes :: "EncryptionConfig \<Rightarrow> bytes \<Rightarrow> Block result" where
  "Block_GetFromBytes ec b =
     rbind (BaseBlock_GetFromBytes ec b) (\<lambda>(bb, b1).
     rbind (slice b1 0 32) (\<lambda>hb.
     rbind (slice (drop 32 b1) 0 8) (\<lambda>fb. rbind (GetInt64FromByte fb) (\<lambda>fee.
     let b2 = drop 40 b1 in
     if length b2 mod 32 \<noteq> 0 then Err ''wrongly decompile block''
     else Ok \<lparr>bl_BaseBlock = bb,
       TransactionsHashes = map GetHashFromBytes (chunks 32 (length b2 div 32) b2),
       BlockHash = GetHashFromBytes hb, BlockFee = fee\<rparr>))))"

definition CalcBlockHash :: "digest \<Rightarrow> Block \<Rightarrow> hash" where
  "CalcBlockHash H256 tb = GetHashFromBytes (H256 (GetBytesForHash tb))"

definition StoreBlock :: "'d kv \<Rightarrow> Block \<Rightarrow> ('d, unit) op" where
  "StoreBlock K bl =
     sbind (DB_Put K (BlocksDBPrefix @ BlockHash bl) (Block_GetBytes bl)) (\<lambda>_.
     DB_Put K (BlockByHeightDBPrefix @ GetByteInt64 (bh_Height (GetHeader bl))) (BlockHash bl))"

definition LoadHashOfBlock :: "'d kv \<Rightarrow> i64 \<Rightarrow> 'd \<Rightarrow> bytes result" where
  "LoadHashOfBlock K height d = DB_Get K (BlockByHeightDBPrefix @ GetByteInt64 height) d"

definition LoadBlock :: "'d kv \<Rightarrow> EncryptionConfig \<Rightarrow> i64 \<Rightarrow> 'd \<Rightarrow> Block result" where
  "LoadBlock K ec height d =
     rbind (DB_Get K (BlockByHeightDBPrefix @ GetByteInt64 height) d) (\<lambda>hb.
     rbind (DB_Get K (BlocksDBPrefix @ hb) d) (\<lambda>abl.
     Block_GetFromBytes ec abl))"

definition RemoveBlockFromDB :: "'d kv \<Rightarrow> i64 \<Rightarrow> ('d, unit) op" where
  "RemoveBlockFromDB K height =
     sbind (sget (DB_Get K (BlockByHeightDBPrefix @ GetByteInt64 height))) (\<lambda>r.
     sbind (slift r) (\<lambda>hb.
     sbind (DB_Delete K (BlocksDBPrefix @ hb)) (\<lambda>_.
     DB_Delete K (BlockByHeightDBPrefix @ GetByteInt64 height))))"

section \<open>Difficulty\<close>

definition BlockTimeInterval :: f64 where "BlockTimeInterval = Fin 10"
definition DifficultyChange :: i32 where "DifficultyChange = 10"

definition AdjustDifficulty :: "i32 \<Rightarrow> i64 \<Rightarrow> i32" where
  "AdjustDifficulty lastDifficulty interval =
     (let slow = f64_less (f64_mul BlockTimeInterval (f64_round (133 / 100))) (i64_to_f64 interval);
          fast = f64_less (i64_to_f64 interval) (f64_div BlockTimeInterval (f64_round (133 / 100)));
          d1 = (if slow then lastDifficulty - DifficultyChange
                else if fast then lastDifficulty + DifficultyChange else lastDifficulty);
          d2 = (if sint d1 < 1 then 1 else d1)
      in if sint d2 > 0xff00 then 0xff00 else d2)"

section \<open>Encryption configurations as bytes\<close>

record ConfigEnc =
  ce_PubKeyLength :: int
  ce_PrivateKeyLength :: int
  ce_SignatureLength :: int
  ce_SigName :: bytes
  ce_IsPaused :: bool

text \<open>\<^verbatim>\<open>bytes.Trim\<close> of zero bytes, at both ends.\<close>

definition trim_zeros :: "bytes \<Rightarrow> bytes" where
  "trim_zeros b = rev (dropWhile (\<lambda>x. x = 0) (rev (dropWhile (\<lambda>x. x = 0) b)))"

definition GenerateBytesFromParams :: "ConfigEnc \<Rightarrow> bytes" where
  "GenerateBytesFromParams c = copy_into (replicate 20 0) (ce_SigName c) @
     le_bytes 4 (word_of_int (ce_PubKeyLength c) :: i32) @
     le_bytes 4 (word_of_int (ce_PrivateKeyLength c) :: i32) @
     le_bytes 4 (word_of_int (ce_SignatureLength c) :: i32) @ [if ce_IsPaused c then 1 else 0]"

definition GenerateParamsEncryptionSchemesFromBytes :: "bytes \<Rightarrow> ConfigEnc result" where
  "GenerateParamsEncryptionSchemesFromBytes bb =
     (if length bb < 33 then Err ''invalid byte slice length''
      else Ok \<lparr>ce_PubKeyLength = sint (le_word (take 4 (drop 20 bb)) :: i32),
        ce_PrivateKeyLength = sint (le_word (take 4 (drop 24 bb)) :: i32),
        ce_SignatureLength = sint (le_word (take 4 (drop 28 bb)) :: i32),
        ce_SigName = trim_zeros (take 20 bb), ce_IsPaused = (bb ! 32 \<noteq> 0)\<rparr>)"

section \<open>Round trips\<close>

definition BaseHeader_ok :: "EncryptionConfig \<Rightarrow> BaseHeader \<Rightarrow> bool" where
  "BaseHeader_ok ec b \<longleftrightarrow> length (PreviousHash b) = 32 \<and> Address_ok (bh_DelegatedAccount b) \<and>
     Address_ok (OperatorAccount b) \<and> length (RootMerkleTree b) = 32 \<and>
     length (Encryption1 b) < 2 ^ 32 \<and> length (Encryption2 b) < 2 ^ 32 \<and>
     length (SignatureMessage b) < 2 ^ 32 \<and> length (sig_ByteValue (bh_Signature b)) < 2 ^ 32 \<and>
     Signature_ok ec (bh_Signature b) \<and> sig_Address (bh_Signature b) = OperatorAccount b"

definition BaseHeader_norm :: "BaseHeader \<Rightarrow> BaseHeader" where
  "BaseHeader_norm b = b\<lparr>bh_DelegatedAccount := (bh_DelegatedAccount b)\<lparr>addr_Primary := True\<rparr>\<rparr>"

lemma BaseHeader_GetFromBytes_GetBytes [codec]:
  assumes "BaseHeader_ok ec b"
    and "117 + min (SignatureLength ec) (SignatureLength2 ec) \<le> int (length (BaseHeader_GetBytes b @ rest))"
  shows "BaseHeader_GetFromBytes ec (BaseHeader_GetBytes b @ rest) = Ok (BaseHeader_norm b, rest)"
proof -
  have len: "length (PreviousHash b) = 32" "length (RootMerkleTree b) = 32"
    "length (addr_ByteValue (bh_DelegatedAccount b)) = 20"
    "length (GetBytesWithPrimary (OperatorAccount b)) = 21"
    using assms(1) by (auto simp: BaseHeader_ok_def Address_ok_def GetBytesWithPrimary_def)
  have long: "\<not> (int (length (BaseHeader_GetBytes b @ rest)) < 117 + SignatureLength ec \<and>
      int (length (BaseHeader_GetBytes b @ rest)) < 117 + SignatureLength2 ec)"
    using assms(2) by auto
  show ?thesis
    unfolding BaseHeader_GetFromBytes_def if_not_P [OF long]
    using assms(1) len
    by (cases b) (simp add: BaseHeader_GetBytes_def slice_def BaseHeader_ok_def BaseHeader_norm_def)
qed

definition BaseBlock_ok :: "EncryptionConfig \<Rightarrow> BaseBlock \<Rightarrow> bool" where
  "BaseBlock_ok ec bb \<longleftrightarrow> BaseHeader_ok ec (bb_BaseHeader bb) \<and> length (BlockHeaderHash bb) = 32 \<and>
     length (PriceOracleData bb) < 2 ^ 32 \<and> length (RandOracleData bb) < 2 ^ 32 \<and>
     116 + SignatureLength ec + 44 + 16 \<le> int (length (BaseBlock_GetBytes bb))"

definition BaseBlock_norm :: "BaseBlock \<Rightarrow> BaseBlock" where
  "BaseBlock_norm bb = bb\<lparr>bb_BaseHeader := BaseHeader_norm (bb_BaseHeader bb)\<rparr>"

lemma BaseBlock_GetFromBytes_GetBytes [codec]:
  assumes "BaseBlock_ok ec bb"
  shows "BaseBlock_GetFromBytes ec (BaseBlock_GetBytes bb @ rest) = Ok (BaseBlock_norm bb, rest)"
proof -
  let ?after = "BlockHeaderHash bb @ GetByteInt64 (BlockTimeStamp bb) @ GetByteInt16 (RewardPercentage bb) @
    GetByteInt64 (Supply bb) @ GetByteInt64 (PriceOracle bb) @ GetByteInt64 (RandOracle bb) @
    BytesToLenAndBytes (PriceOracleData bb) @ BytesToLenAndBytes (RandOracleData bb) @ rest"
  have bytes: "BaseBlock_GetBytes bb @ rest = BaseHeader_GetBytes (bb_BaseHeader bb) @ ?after"
    by (simp add: BaseBlock_GetBytes_def)
  have long: "\<not> int (length (BaseBlock_GetBytes bb @ rest)) < 116 + SignatureLength ec + 44 + 16"
    using assms by (auto simp: BaseBlock_ok_def)
  then have "117 + min (SignatureLength ec) (SignatureLength2 ec) \<le>
      int (length (BaseHeader_GetBytes (bb_BaseHeader bb) @ ?after))"
    unfolding bytes by linarith
  then have hd: "BaseHeader_GetFromBytes ec (BaseHeader_GetBytes (bb_BaseHeader bb) @ ?after) =
      Ok (BaseHeader_norm (bb_BaseHeader bb), ?after)"
    using assms by (intro BaseHeader_GetFromBytes_GetBytes) (auto simp: BaseBlock_ok_def)
  show ?thesis
    unfolding BaseBlock_GetFromBytes_def if_not_P [OF long] unfolding bytes hd
    using assms by (cases bb) (simp add: slice_def BaseBlock_ok_def BaseBlock_norm_def)
qed

definition Block_ok :: "EncryptionConfig \<Rightarrow> Block \<Rightarrow> bool" where
  "Block_ok ec bl \<longleftrightarrow> BaseBlock_ok ec (bl_BaseBlock bl) \<and> length (BlockHash bl) = 32 \<and>
     (\<forall>h \<in> set (TransactionsHashes bl). length h = 32)"

definition Block_norm :: "Block \<Rightarrow> Block" where
  "Block_norm bl = bl\<lparr>bl_BaseBlock := BaseBlock_norm (bl_BaseBlock bl)\<rparr>"

lemma Block_GetFromBytes_GetBytes [codec]:
  assumes "Block_ok ec bl"
  shows "Block_GetFromBytes ec (Block_GetBytes bl) = Ok (Block_norm bl)"
proof -
  let ?txs = "TransactionsHashes bl"
  have w: "\<forall>h \<in> set ?txs. length h = 32" and ok: "BaseBlock_ok ec (bl_BaseBlock bl)"
    and bh: "length (BlockHash bl) = 32" using assms by (auto simp: Block_ok_def)
  have "length (concat ?txs) = 32 * length ?txs" by (rule length_concat_const [OF w])
  moreover have "map GetHashFromBytes ?txs = ?txs" using w by (simp add: map_idI)
  ultimately show ?thesis
    using chunks_concat_nil [OF w] bh
    by (simp add: Block_GetFromBytes_def Block_GetBytes_def Let_def Block_norm_def slice_def
        BaseBlock_GetFromBytes_GetBytes [OF ok])
qed

lemma trim_zeros_pad:
  assumes "name \<noteq> []" and "hd name \<noteq> 0" and "last name \<noteq> 0"
  shows "trim_zeros (name @ replicate n 0) = name"
proof -
  have d: "dropWhile (\<lambda>x. x = 0) (name @ replicate n 0) = name @ replicate n 0"
    using assms(1,2) by (cases name) auto
  have "dropWhile (\<lambda>x. x = 0) (replicate n (0 :: byte) @ rev name) = rev name"
    using assms(1,3) by (induction n) (auto simp: dropWhile_eq_self_iff hd_rev)
  then show ?thesis by (simp add: trim_zeros_def d)
qed

lemma f64_round_near:
  assumes "1 \<le> x" and "x \<le> 100"
  obtains v where "f64_round x = Fin v" and "v - 1 / 1000 \<le> x" and "x \<le> v + 1 / 1000"
proof -
  have "pow2 (- 1000) \<le> 1" and "(100 :: rat) < pow2 1023" by (simp_all add: pow2_def)
  then obtain v where v: "f64_round x = Fin v" "\<bar>v - x\<bar> \<le> x / 2 ^ 53"
    using f64_round_error [of x] assms by auto
  have "x / 2 ^ 53 \<le> 100 / 2 ^ 53" using assms by (intro divide_right_mono) auto
  also have "\<dots> \<le> 1 / 1000" by simp
  finally have "\<bar>v - x\<bar> \<le> 1 / 1000" using v(2) by linarith
  then have "v - 1 / 1000 \<le> x" "x \<le> v + 1 / 1000" by linarith+
  then show thesis using v(1) that by blast
qed

lemma slow_iff:
  assumes "\<bar>sint interval\<bar> < 2 ^ 53"
  shows "f64_less (f64_mul BlockTimeInterval (f64_round (133 / 100))) (i64_to_f64 interval) \<longleftrightarrow>
      14 \<le> sint interval"
    and "f64_less (i64_to_f64 interval) (f64_div BlockTimeInterval (f64_round (133 / 100))) \<longleftrightarrow>
      sint interval \<le> 7"
proof -
  obtain c where c: "f64_round (133 / 100) = Fin c" "c - 1 / 1000 \<le> 133 / 100" "133 / 100 \<le> c + 1 / 1000"
    by (rule f64_round_near [of "133 / 100"]) auto
  obtain m where m: "f64_round (10 * c) = Fin m" "m - 1 / 1000 \<le> 10 * c" "10 * c \<le> m + 1 / 1000"
    by (rule f64_round_near [of "10 * c"]) (use c in linarith)+
  have mb: "13 < m" "m < 14" using m c by linarith+
  have q: "75 / 10 < 10 / c" "10 / c < 76 / 10" using c by (simp_all add: field_simps)
  obtain f where f: "f64_round (10 / c) = Fin f" "f - 1 / 1000 \<le> 10 / c" "10 / c \<le> f + 1 / 1000"
    by (rule f64_round_near [of "10 / c"]) (use q in linarith)+
  have fb: "7 < f" "f < 8" using f q by linarith+
  obtain i where i: "i = sint interval" by simp
  have conv: "i64_to_f64 interval = Fin (of_int i)"
    unfolding i64_to_f64_def i by (rule f64_round_of_int [OF assms])
  have "m < of_int i \<longleftrightarrow> 14 \<le> i" using mb by linarith
  then show "f64_less (f64_mul BlockTimeInterval (f64_round (133 / 100))) (i64_to_f64 interval) \<longleftrightarrow>
      14 \<le> sint interval"
    by (simp add: BlockTimeInterval_def c(1) f64_mul_def m(1) conv i)
  have "of_int i < f \<longleftrightarrow> i \<le> 7" using fb by linarith
  then show "f64_less (i64_to_f64 interval) (f64_div BlockTimeInterval (f64_round (133 / 100))) \<longleftrightarrow>
      sint interval \<le> 7"
    using c by (simp add: BlockTimeInterval_def f64_div_def f(1) conv i)
qed

lemma AdjustDifficulty_cases:
  assumes "1 \<le> sint d" and "sint d \<le> 0xff00" and "\<bar>sint interval\<bar> < 2 ^ 53"
  shows "sint (AdjustDifficulty d interval) =
    (if 14 \<le> sint interval then max 1 (sint d - 10)
     else if sint interval \<le> 7 then min 0xff00 (sint d + 10) else sint d)"
proof -
  have sub: "sint (d - 10) = sint d - 10" and add: "sint (d + 10) = sint d + 10"
    using assms(1,2) by (simp_all add: sint_word_ariths signed_take_bit_int_eq_self)
  show ?thesis
    using assms(1,2) sub add
    by (auto simp: AdjustDifficulty_def DifficultyChange_def Let_def slow_iff [OF assms(3)])
qed

context rocksdb
begin

lemma StoreBlock_run:
  obtains d' where "StoreBlock K bl d = (Ok (), d')"
    and "content d' = (content d)(BlocksDBPrefix @ BlockHash bl \<mapsto> Block_GetBytes bl,
      BlockByHeightDBPrefix @ GetByteInt64 (bh_Height (GetHeader bl)) \<mapsto> BlockHash bl)"
proof -
  let ?k1 = "BlocksDBPrefix @ BlockHash bl"
  let ?k2 = "BlockByHeightDBPrefix @ GetByteInt64 (bh_Height (GetHeader bl))"
  obtain d1 where d1: "DB_Put K ?k1 (Block_GetBytes bl) d = (Ok (), d1)"
    "content d1 = (content d)(?k1 \<mapsto> Block_GetBytes bl)"
    by (rule DB_Put_run [of ?k1]) (auto simp: BlocksDBPrefix_def)
  obtain d2 where d2: "DB_Put K ?k2 (BlockHash bl) d1 = (Ok (), d2)"
    "content d2 = (content d1)(?k2 \<mapsto> BlockHash bl)"
    by (rule DB_Put_run [of ?k2]) (auto simp: BlockByHeightDBPrefix_def)
  show thesis by (rule that [of d2]) (use d1 d2 in \<open>auto simp: StoreBlock_def sbind_def\<close>)
qed

lemma RemoveBlockFromDB_run:
  assumes "content d (BlockByHeightDBPrefix @ GetByteInt64 h) = Some hb"
  obtains d' where "RemoveBlockFromDB K h d = (Ok (), d')"
    and "content d' = (content d)(BlocksDBPrefix @ hb := None,
      BlockByHeightDBPrefix @ GetByteInt64 h := None)"
proof -
  let ?k1 = "BlocksDBPrefix @ hb" and ?k2 = "BlockByHeightDBPrefix @ GetByteInt64 h"
  obtain d1 where d1: "DB_Delete K ?k1 d = (Ok (), d1)" "content d1 = (content d)(?k1 := None)"
    by (rule DB_Delete_run [of ?k1]) (auto simp: BlocksDBPrefix_def)
  obtain d2 where d2: "DB_Delete K ?k2 d1 = (Ok (), d2)" "content d2 = (content d1)(?k2 := None)"
    by (rule DB_Delete_run [of ?k2]) (auto simp: BlockByHeightDBPrefix_def)
  show thesis
    by (rule that [of d2])
      (use d1 d2 assms in \<open>auto simp: RemoveBlockFromDB_def sbind_def sget_def slift_def DB_Get_content\<close>)
qed

end

section \<open>Properties\<close>

definition sample_operator :: Address where
  "sample_operator = \<lparr>addr_ByteValue = replicate 20 6, addr_Primary = True\<rparr>"

definition sample_block :: Block where
  "sample_block = \<lparr>bl_BaseBlock = \<lparr>bb_BaseHeader =
      \<lparr>PreviousHash = replicate 32 1, Difficulty = 5, bh_Height = 7,
       bh_DelegatedAccount = \<lparr>addr_ByteValue = replicate 20 0, addr_Primary = False\<rparr>,
       OperatorAccount = sample_operator, RootMerkleTree = replicate 32 2, Encryption1 = [], Encryption2 = [3],
       bh_Signature = \<lparr>sig_ByteValue = replicate 753 0, sig_Address = sample_operator, sig_Primary = True\<rparr>,
       SignatureMessage = [9]\<rparr>,
     BlockHeaderHash = replicate 32 4, BlockTimeStamp = 100, RewardPercentage = 10, Supply = 1000,
     PriceOracle = 1, RandOracle = 2, PriceOracleData = [], RandOracleData = [8, 8]\<rparr>,
   TransactionsHashes = [replicate 32 5, replicate 32 6], BlockHash = replicate 32 7, BlockFee = 3\<rparr>"

text \<open>
  C28: a block whose parts fit their fields and whose signature has a length of its scheme is, once
  stored, loaded under its height exactly (only the key kind of the delegated account, which is not
  written, is reset); the heights of the other blocks still name their hashes; and after its
  removal neither the height nor the block is found.
\<close>

theorem LoadBlock_after_StoreBlock:
  assumes "rocksdb K content" and "Block_ok ec bl"
  shows "\<exists>d1 d2. StoreBlock K bl d = (Ok (), d1) \<and>
    LoadBlock K ec (bh_Height (GetHeader bl)) d1 = Ok (Block_norm bl) \<and>
    (\<forall>h. h \<noteq> bh_Height (GetHeader bl) \<longrightarrow> LoadHashOfBlock K h d1 = LoadHashOfBlock K h d) \<and>
    RemoveBlockFromDB K (bh_Height (GetHeader bl)) d1 = (Ok (), d2) \<and>
    LoadBlock K ec (bh_Height (GetHeader bl)) d2 = Err ''key not found'' \<and>
    DB_Get K (BlocksDBPrefix @ BlockHash bl) d2 = Err ''key not found''"
proof -
  let ?h = "bh_Height (GetHeader bl)"
  have ne: "BlocksDBPrefix @ x \<noteq> BlockByHeightDBPrefix @ y" for x y
    by (simp add: BlocksDBPrefix_def BlockByHeightDBPrefix_def)
  obtain d1 where d1: "StoreBlock K bl d = (Ok (), d1)"
    "content d1 = (content d)(BlocksDBPrefix @ BlockHash bl \<mapsto> Block_GetBytes bl,
      BlockByHeightDBPrefix @ GetByteInt64 ?h \<mapsto> BlockHash bl)"
    by (rule rocksdb.StoreBlock_run [OF assms(1)])
  obtain d2 where d2: "RemoveBlockFromDB K ?h d1 = (Ok (), d2)"
    "content d2 = (content d1)(BlocksDBPrefix @ BlockHash bl := None,
      BlockByHeightDBPrefix @ GetByteInt64 ?h := None)"
    by (rule rocksdb.RemoveBlockFromDB_run [OF assms(1), of d1 ?h "BlockHash bl"]) (use d1 in auto)
  note get = rocksdb.DB_Get_content [OF assms(1)]
  have "LoadBlock K ec ?h d1 = Ok (Block_norm bl)"
    by (simp add: LoadBlock_def get d1(2) ne ne [symmetric] Block_GetFromBytes_GetBytes [OF assms(2)])
  moreover have "LoadHashOfBlock K h d1 = LoadHashOfBlock K h d" if "h \<noteq> ?h" for h
    using that by (simp add: LoadHashOfBlock_def get d1(2) ne [symmetric])
  moreover have "LoadBlock K ec ?h d2 = Err ''key not found''"
    by (simp add: LoadBlock_def get d2(2))
  moreover have "DB_Get K (BlocksDBPrefix @ BlockHash bl) d2 = Err ''key not found''"
    by (simp add: get d2(2) ne)
  ultimately show ?thesis using d1(1) d2(1) by blast
qed

lemma sample_block_ok: "Block_ok initEncryptionConfigInstance sample_block"
  by (simp add: Block_ok_def sample_block_def BaseBlock_ok_def BaseHeader_ok_def Address_ok_def
      sample_operator_def Signature_ok_def initEncryptionConfigInstance_def SignatureLength_def
      BaseBlock_GetBytes_def BaseHeader_GetBytes_def GetBytesWithPrimary_def)

theorem LoadBlock_after_StoreBlock_witness:
  "\<exists>d1. StoreBlock mem_kv sample_block [] = (Ok (), d1) \<and>
    LoadBlock mem_kv initEncryptionConfigInstance 7 d1 = Ok (Block_norm sample_block)"
proof -
  have "bh_Height (GetHeader sample_block) = 7" by (simp add: sample_block_def)
  then show ?thesis
    using LoadBlock_after_StoreBlock [OF memdb.rocksdb_axioms sample_block_ok, of "[]"] by auto
qed

text \<open>
  from a difficulty in its range 1 to 65280 and for a block interval below 2^53 seconds either
  way, the rule gives a difficulty in the range: ten lower when the block took 14 seconds or more,
  ten higher when it took 7 seconds or less (a negative interval included), clipped to the range, and
  the same one in between.  The floating-point products and quotients of the code are computed with
  their rounding.
\<close>

lemma AdjustDifficulty_rule:
  assumes "1 \<le> sint d" and "sint d \<le> 0xff00" and "\<bar>sint interval\<bar> < 2 ^ 53"
  shows "sint (AdjustDifficulty d interval) =
      (if 14 \<le> sint interval then max 1 (sint d - 10)
       else if sint interval \<le> 7 then min 0xff00 (sint d + 10) else sint d) \<and>
    1 \<le> sint (AdjustDifficulty d interval) \<and> sint (AdjustDifficulty d interval) \<le> 0xff00"
  using AdjustDifficulty_cases [OF assms] assms by auto

lemma AdjustDifficulty_rule_example:
  "sint (AdjustDifficulty 5 20) = 1 \<and> sint (AdjustDifficulty 5 10) = 5 \<and>
   sint (AdjustDifficulty 65275 3) = 65280"
  using AdjustDifficulty_rule [of 5 20] AdjustDifficulty_rule [of 5 10] AdjustDifficulty_rule [of 65275 3]
  by simp

text \<open>
  C29: while both signature schemes are live, the verdict on a header after the first block depends
  on a coin the verifying node tosses: a header that carries a correct signature of the first scheme
  by the operator's primary key is accepted when the coin picks the primary key, and refused
  when it picks the operator's secondary key, whose length is not that of the first scheme.
\<close>

theorem BaseHeader_Verify_coin:
  assumes "bh_Height bh \<noteq> 0" and "\<not> IsPaused ec" and "\<not> IsPaused2 ec"
    and "SignatureMessage bh = BaseHeader_GetBytesWithoutSignature bh"
    and "LoadPubKeyWithPrimary K unjson (OperatorAccount bh) True d = Ok pk1"
    and "LoadPubKeyWithPrimary K unjson (OperatorAccount bh) False d = Ok pk2"
    and "sig_ByteValue (bh_Signature bh) = 0 # s"
    and "oqs_len (sigName ec) = Some (length (pk_ByteValue pk1))"
    and "length (pk_ByteValue pk2) \<noteq> length (pk_ByteValue pk1)"
    and "oqs_verify (sigName ec) (H256 (SignatureMessage bh)) s (pk_ByteValue pk1) = Ok True"
  shows "BaseHeader_Verify K unjson oqs_len oqs_verify H256 ec pref True d bh = Ok True \<and>
    BaseHeader_Verify K unjson oqs_len oqs_verify H256 ec pref False d bh = Ok False"
  using assms by (simp_all add: BaseHeader_Verify_def Let_def GetNodeSignPrimary_def Wallet_Verify_def)

definition sample_header :: BaseHeader where
  "sample_header = (let b = GetHeader sample_block
     in b\<lparr>SignatureMessage := BaseHeader_GetBytesWithoutSignature b\<rparr>)"

definition sample_keys :: memdb where
  "sample_keys =
     [(PubKeyBytesMerkleTrieDBPrefix @ replicate 20 6, [0] @ replicate 20 1 @ [1] @ replicate 20 2),
      (PubKeyMarshalDBPrefix @ replicate 20 1, [1]), (PubKeyMarshalDBPrefix @ replicate 20 2, [2, 2])]"

definition sample_unjson :: "bytes \<Rightarrow> PubKey result" where
  "sample_unjson b = Ok (zero_PubKey\<lparr>pk_ByteValue := b\<rparr>)"

lemma sample_keys_load:
  "LoadPubKeyWithPrimary mem_kv sample_unjson sample_operator True sample_keys =
     Ok (zero_PubKey\<lparr>pk_ByteValue := [1]\<rparr>)"
  "LoadPubKeyWithPrimary mem_kv sample_unjson sample_operator False sample_keys =
     Ok (zero_PubKey\<lparr>pk_ByteValue := [2, 2]\<rparr>)"
  by code_simp+

theorem BaseHeader_Verify_coin_witness:
  "BaseHeader_Verify mem_kv sample_unjson (\<lambda>_. Some 1) (\<lambda>_ _ _ _. Ok True) sample_digest
     initEncryptionConfigInstance True True sample_keys sample_header = Ok True \<and>
   BaseHeader_Verify mem_kv sample_unjson (\<lambda>_. Some 1) (\<lambda>_ _ _ _. Ok True) sample_digest
     initEncryptionConfigInstance True False sample_keys sample_header = Ok False"
proof (rule BaseHeader_Verify_coin)
  show "SignatureMessage sample_header = BaseHeader_GetBytesWithoutSignature sample_header"
    by (simp add: sample_header_def Let_def BaseHeader_GetBytesWithoutSignature_def)
  have "OperatorAccount sample_header = sample_operator"
    by (simp add: sample_header_def sample_block_def Let_def)
  then show
    "LoadPubKeyWithPrimary mem_kv sample_unjson (OperatorAccount sample_header) True sample_keys =
      Ok (zero_PubKey\<lparr>pk_ByteValue := [1]\<rparr>)"
    "LoadPubKeyWithPrimary mem_kv sample_unjson (OperatorAccount sample_header) False sample_keys =
      Ok (zero_PubKey\<lparr>pk_ByteValue := [2, 2]\<rparr>)"
    using sample_keys_load by simp_all
  have "replicate 753 (0 :: byte) = 0 # replicate 752 0"
    using replicate_Suc [of 752 "0 :: byte"] by simp
  then show "sig_ByteValue (bh_Signature sample_header) = 0 # replicate 752 0"
    by (simp add: sample_header_def sample_block_def Let_def)
qed (simp_all add: sample_header_def sample_block_def Let_def IsPaused_def IsPaused2_def
    initEncryptionConfigInstance_def)

text \<open>
  The parameters of an encryption scheme come back from the 33 bytes they are written to, when
  its name is at most 20 bytes that neither start nor end with a zero byte and the lengths fit 32
  bits.
\<close>

lemma EncryptionParams_round_trip:
  assumes "ce_SigName c \<noteq> []" and "hd (ce_SigName c) \<noteq> 0" and "last (ce_SigName c) \<noteq> 0"
    and "length (ce_SigName c) \<le> 20"
    and "\<bar>ce_PubKeyLength c\<bar> < 2 ^ 31" and "\<bar>ce_PrivateKeyLength c\<bar> < 2 ^ 31"
    and "\<bar>ce_SignatureLength c\<bar> < 2 ^ 31"
  shows "GenerateParamsEncryptionSchemesFromBytes (GenerateBytesFromParams c) = Ok c"
proof -
  let ?name = "copy_into (replicate 20 0) (ce_SigName c)"
  have pad: "?name = ce_SigName c @ replicate (20 - length (ce_SigName c)) 0"
    using assms(4) by (simp add: copy_into_def)
  have len: "length ?name = 20" using assms(4) pad by simp
  have name: "trim_zeros ?name = ce_SigName c" unfolding pad by (rule trim_zeros_pad [OF assms(1-3)])
  have i32: "sint (le_word (le_bytes 4 (word_of_int k :: i32)) :: i32) = k" if "\<bar>k\<bar> < 2 ^ 31" for k
    using that by (simp add: le_word_le_bytes take_bit_word_full signed_of_int signed_take_bit_int_eq_self)
  show ?thesis
    using len i32 [OF assms(5)] i32 [OF assms(6)] i32 [OF assms(7)] name
    by (simp add: GenerateParamsEncryptionSchemesFromBytes_def GenerateBytesFromParams_def nth_append)
qed

lemma EncryptionParams_round_trip_example:
  "GenerateParamsEncryptionSchemesFromBytes (GenerateBytesFromParams
     \<lparr>ce_PubKeyLength = 897, ce_PrivateKeyLength = 1281, ce_SignatureLength = 752,
      ce_SigName = [0x46, 0x41], ce_IsPaused = True\<rparr>) =
   Ok \<lparr>ce_PubKeyLength = 897, ce_PrivateKeyLength = 1281, ce_SignatureLength = 752,
      ce_SigName = [0x46, 0x41], ce_IsPaused = True\<rparr>"
  by (rule EncryptionParams_round_trip) simp_all

end
