(* ===== verification/World.thy ===== *)
theory World
  imports Staking Pool Blocks
begin

text \<open>
  The state of a node that block processing reads and writes, and the two helpers of
  \<^verbatim>\<open>src/transactionsPool/helper.go\<close> that reach across it.  The Go code keeps these parts in global
  variables: \<^verbatim>\<open>account.Accounts\<close>, \<^verbatim>\<open>account.StakingAccounts\<close>, the pools \<^verbatim>\<open>PoolsTx\<close>, \<^verbatim>\<open>PoolTxEscrow\<close> and
  \<^verbatim>\<open>PoolTxMultiSign\<close>, and the database handle.

  The lemmas: what a stored transaction means for the check against double inclusion, and that the
  helpers leave the accounts and the staking tables alone.
\<close>

section \<open>State and surroundings\<close>

record 'd world =
  w_db :: 'd
  w_accounts :: AccountsType
  w_staking :: staking
  PoolsTx :: TransactionPool
  PoolTxEscrow :: TransactionPool
  PoolTxMultiSign :: TransactionPool

text \<open>
  What a call depends on and does not change: the database library, the hash functions, JSON, the
  signature library, the encryption configuration, the clock, and whether the node is syncing.
\<close>

record 'd env =
  e_kv :: "'d kv"
  e_H160 :: "bytes \<Rightarrow> bytes"
  e_H256 :: digest
  e_enc :: nodes_enc
  e_dec :: nodes_dec
  e_json :: "PubKey \<Rightarrow> bytes result"
  e_unjson :: "bytes \<Rightarrow> PubKey result"
  e_oqs_len :: "string \<Rightarrow> nat option"
  e_oqs_verify :: "string \<Rightarrow> bytes \<Rightarrow> bytes \<Rightarrow> bytes \<Rightarrow> bool result"
  e_ec :: EncryptionConfig
  e_pref :: bool
  e_coin :: bool
  e_now :: i64
  e_syncing :: bool

abbreviation on_db :: "('d, 'a) op \<Rightarrow> (('d, 'z) world_scheme, 'a) op" where
  "on_db \<equiv> zoom w_db w_db_update"

abbreviation on_accounts :: "(AccountsType, 'a) op \<Rightarrow> (('d, 'z) world_scheme, 'a) op" where
  "on_accounts \<equiv> zoom w_accounts w_accounts_update"

abbreviation on_staking :: "(staking, 'a) op \<Rightarrow> (('d, 'z) world_scheme, 'a) op" where
  "on_staking \<equiv> zoom w_staking w_staking_update"

abbreviation on_pool :: "(TransactionPool, 'a) op \<Rightarrow> (('d, 'z) world_scheme, 'a) op" where
  "on_pool \<equiv> zoom PoolsTx PoolsTx_update"

abbreviation on_escrow :: "(TransactionPool, 'a) op \<Rightarrow> (('d, 'z) world_scheme, 'a) op" where
  "on_escrow \<equiv> zoom PoolTxEscrow PoolTxEscrow_update"

abbreviation on_multisign :: "(TransactionPool, 'a) op \<Rightarrow> (('d, 'z) world_scheme, 'a) op" where
  "on_multisign \<equiv> zoom PoolTxMultiSign PoolTxMultiSign_update"

section \<open>Transactions already in the chain\<close>

definition LoadPoolTx :: "'d env \<Rightarrow> bytes \<Rightarrow> bytes \<Rightarrow> (('d, 'z) world_scheme, Transaction) op" where
  "LoadPoolTx E prefix hash = on_db (LoadFromDBPoolTx (e_kv E) (e_H160 E) (e_ec E) prefix hash)"

definition CheckTransactionInDBAndInMarkleTrie :: "'d env \<Rightarrow> bytes \<Rightarrow> (('d, 'z) world_scheme, unit) op" where
  "CheckTransactionInDBAndInMarkleTrie E hash =
     sbind (sread (\<lambda>w. CheckFromDBPoolTx (e_kv E) TransactionDBPrefix hash (w_db w))) (\<lambda>isKey.
     if \<not> isKey then sret ()
     else
     sbind (LoadPoolTx E TransactionDBPrefix hash) (\<lambda>dbTx.
     sbind (sread (\<lambda>w. FindTransactionInBlocks (e_kv E) (e_dec E) hash (tx_Height dbTx) (w_db w)))
       (\<lambda>txHeight.
     if sint txHeight < 0 then sret ()
     else serr ''transaction was previously added in chain'')))"

definition RemoveBadTransactionByHash :: "'d env \<Rightarrow> bytes \<Rightarrow> i64 \<Rightarrow> (('d, 'z) world_scheme, unit) op" where
  "RemoveBadTransactionByHash E hash height =
     sbind (on_pool (RemoveTransactionByHash hash)) (\<lambda>_.
     sbind (on_escrow (RemoveTransactionByHash hash)) (\<lambda>_.
     sbind (on_multisign (RemoveTransactionByHash hash)) (\<lambda>_.
     sbind (sdrop (on_db (RemoveTransactionFromDBbyHash (e_kv E) TransactionPoolHashesDBPrefix hash))) (\<lambda>_.
     sbind (sdrop (on_db (RemoveTransactionFromDBbyHash (e_kv E) TransactionDBPrefix hash))) (\<lambda>_.
     sbind (sdrop (CheckTransactionInDBAndInMarkleTrie E hash)) (\<lambda>_.
     sbind (sdrop (on_db (RemoveMerkleTrieFromDB (e_kv E) height))) (\<lambda>_.
     sbind (on_pool (BanTransactionByHash hash)) (\<lambda>_.
     sbind (on_escrow (BanTransactionByHash hash)) (\<lambda>_.
     on_multisign (BanTransactionByHash hash))))))))))"

section \<open>Frames\<close>

text \<open>The coins a node accounts for: balances, stakes and rewards, added as 64-bit integers.\<close>

definition coins :: "('d, 'z) world_scheme \<Rightarrow> i64" where
  "coins w = GetSupplyInAccounts (w_accounts w) +
     fst (GetSupplyInStakedAccounts (w_staking w)) + snd (GetSupplyInStakedAccounts (w_staking w))"

definition pool_all :: "(Transaction \<Rightarrow> bool) \<Rightarrow> TransactionPool \<Rightarrow> bool" where
  "pool_all P tp \<longleftrightarrow> (\<forall>t \<in> snd ` set (transactions tp). P t)"

lemma sread_Ok [simp]: "sread f s = (Ok x, s') \<longleftrightarrow> f s = Ok x \<and> s' = s"
  by (auto simp: sread_eq)

lemma triple_sread: "(\<And>s x. P s \<Longrightarrow> f s = Ok x \<Longrightarrow> Q x s) \<Longrightarrow> triple P (sread f) Q"
  by (simp add: triple_def)

lemma keeps_accounts [effects]:
  "keeps w_accounts (on_db m1)" "keeps w_accounts (on_staking m2)" "keeps w_accounts (on_pool m)"
  "keeps w_accounts (on_escrow m)" "keeps w_accounts (on_multisign m)"
  by (rule keeps_zoom; simp)+

lemma keeps_staking [effects]:
  "keeps w_staking (on_db m1)" "keeps w_staking (on_accounts m2)" "keeps w_staking (on_pool m)"
  "keeps w_staking (on_escrow m)" "keeps w_staking (on_multisign m)"
  by (rule keeps_zoom; simp)+

lemma keeps_db [effects]:
  "keeps w_db (on_accounts m1)" "keeps w_db (on_staking m2)" "keeps w_db (on_pool m)"
  "keeps w_db (on_escrow m)" "keeps w_db (on_multisign m)"
  by (rule keeps_zoom; simp)+

lemma keeps_multisign [effects]:
  "keeps PoolTxMultiSign (on_accounts m1)" "keeps PoolTxMultiSign (on_staking m2)"
  "keeps PoolTxMultiSign (on_db m3)" "keeps PoolTxMultiSign (on_pool m)" "keeps PoolTxMultiSign (on_escrow m)"
  by (rule keeps_zoom; simp)+

lemma CheckTransactionInDB_keeps [effects]:
  "keeps w_accounts (CheckTransactionInDBAndInMarkleTrie E h)"
  "keeps w_staking (CheckTransactionInDBAndInMarkleTrie E h)"
  "keeps PoolTxMultiSign (CheckTransactionInDBAndInMarkleTrie E h)"
  by (auto simp: CheckTransactionInDBAndInMarkleTrie_def LoadPoolTx_def intro!: effects)

lemma RemoveBadTransactionByHash_keeps [effects]:
  "keeps w_accounts (RemoveBadTransactionByHash E hash h)"
  "keeps w_staking (RemoveBadTransactionByHash E hash h)"
  by (auto simp: RemoveBadTransactionByHash_def intro!: effects)

text \<open>What the pools hold: a pool operation adds at most the transaction it is given.\<close>

lemma set_mdel_subset: "set (mdel k m) \<subseteq> set m"
  by (auto simp: AList.delete_eq)

lemma set_mput_subset: "set (mput k v m) \<subseteq> insert (k, v) (set m)"
  by (induction m) auto

lemma pool_all_mdel: "pool_all P tp \<Longrightarrow> pool_all P (tp\<lparr>priorityQueue := q, transactions := mdel h (transactions tp)\<rparr>)"
  using set_mdel_subset by (fastforce simp: pool_all_def)

lemma pool_all_simps [simp]:
  "pool_all P (updateIndices tp) = pool_all P tp"
  "pool_all P (tp\<lparr>priorityQueue := q\<rparr>) = pool_all P tp"
  "pool_all P (tp\<lparr>transactionIndices := ix\<rparr>) = pool_all P tp"
  "pool_all P (tp\<lparr>bannedTransactions := bs\<rparr>) = pool_all P tp"
  by (simp_all add: pool_all_def updateIndices_def)

lemma pool_all_transactions_mdel:
  "pool_all P tp \<Longrightarrow> pool_all P (tp\<lparr>transactions := mdel h (transactions tp)\<rparr>)"
  using set_mdel_subset by (fastforce simp: pool_all_def)

lemma pool_all_transactions_mput:
  "pool_all P tp \<Longrightarrow> P tx \<Longrightarrow> pool_all P (tp\<lparr>transactions := mput h tx (transactions tp)\<rparr>)"
  using set_mput_subset by (fastforce simp: pool_all_def)

lemma RemoveTransactionByHash_pool_all [effects]: "preserves (pool_all P) (RemoveTransactionByHash h)"
  unfolding RemoveTransactionByHash_def Let_def
  by (intro effects preserves_supd) (auto intro!: effects preserves_supd split: option.split prod.split
      simp: pool_all_def dest!: set_mdel_subset [THEN subsetD])

lemma AddTransaction_pool_all: "P tx \<Longrightarrow> preserves (pool_all P) (AddTransaction tx h)"
  unfolding AddTransaction_def Let_def
  by (auto intro!: effects preserves_supd split: option.split prod.split
      simp: pool_all_def dest!: set_mdel_subset [THEN subsetD] set_mput_subset [THEN subsetD]; force)

lemma BanTransactionByHash_pool_all [effects]: "preserves (pool_all P) (BanTransactionByHash h)"
  by (auto simp: BanTransactionByHash_def Let_def intro!: preserves_supd)

lemma PeekTransactions_all:
  assumes "pool_all P tp" and "P zero_Transaction" and "t \<in> set (PeekTransactions n k tp)"
  shows "P t"
proof -
  have "P (mgetd zero_Transaction (transactions tp) h)" for h
    using assms(1,2) by (auto simp: mgetd_def pool_all_def split: option.split dest!: map_of_SomeD)
  then have "t \<in> set (peek_items tp k its) \<Longrightarrow> P t" for its
    by (induction its) (auto split: if_splits)
  with assms(3) show ?thesis by (simp add: PeekTransactions_def)
qed

section \<open>No transaction twice\<close>

lemma FindTransactionInBlocks_Ok:
  assumes "FindTransactionInBlocks K dec hash height d = Ok j"
  obtains t r where "LoadTreeWithoutTxHashes K dec height d = Ok t" and "r \<in> set (Root t)"
    and "containsTxHash (Some r) 0 hash = (True, j)"
proof -
  obtain t where t: "LoadTreeWithoutTxHashes K dec height d = Ok t"
    using assms by (auto simp: FindTransactionInBlocks_def rbind_Ok_iff)
  obtain n ns where root: "Root t = n # ns"
    using assms t by (cases "Root t") (auto simp: FindTransactionInBlocks_def)
  show thesis
  proof (cases "fst (containsTxHash (Some n) 0 hash)")
    case True
    then show ?thesis
      using assms t root that [of t n] by (auto simp: FindTransactionInBlocks_def split: prod.splits)
  next
    case False
    then obtain m ms where "ns = m # ms"
      using assms t root by (cases ns) (auto simp: FindTransactionInBlocks_def split: prod.splits bool.splits)
    then show ?thesis
      using False assms t root that [of t m]
      by (auto simp: FindTransactionInBlocks_def split: prod.splits bool.splits)
  qed
qed

lemma LoadTreeWithoutTxHashes_depth:
  assumes "LoadTreeWithoutTxHashes K dec height d = Ok t"
    and "\<And>b ns n. dec b = Ok ns \<Longrightarrow> n \<in> set ns \<Longrightarrow> node_depth (Some n) < 2 ^ 63"
    and "r \<in> set (Root t)"
  shows "node_depth (Some r) < 2 ^ 63"
proof -
  obtain treeb rootHash nodes where nodes: "nodes_Unmarshal dec treeb = Ok nodes"
    and t: "(case nodes of [] \<Rightarrow> Ok \<lparr>Root = [], TxHashes = []\<rparr>
       | MerkleNode l r _ # ns \<Rightarrow> Ok \<lparr>Root = MerkleNode l r rootHash # ns, TxHashes = []\<rparr>) = Ok t"
    using assms(1) by (auto simp: LoadTreeWithoutTxHashes_def rbind_Ok_iff)
  have deep: "\<And>n. n \<in> set nodes \<Longrightarrow> node_depth (Some n) < 2 ^ 63"
    using nodes assms(2) by (auto simp: nodes_Unmarshal_def split: if_splits)
  show ?thesis
  proof (cases nodes)
    case Nil
    with t assms(3) show ?thesis by auto
  next
    case (Cons n ns)
    obtain l q x where n: "n = MerkleNode l q x" by (cases n)
    have "Root t = MerkleNode l q rootHash # ns" using t Cons n by auto
    moreover have "node_depth (Some (MerkleNode l q rootHash)) = node_depth (Some n)" by (simp add: n)
    ultimately show ?thesis using assms(3) deep Cons by fastforce
  qed
qed

lemma FindTransactionInBlocks_nonneg:
  assumes "FindTransactionInBlocks K dec hash height d = Ok j"
    and "\<And>b ns n. dec b = Ok ns \<Longrightarrow> n \<in> set ns \<Longrightarrow> node_depth (Some n) < 2 ^ 63"
  shows "0 \<le> sint j"
proof -
  obtain t r where t: "LoadTreeWithoutTxHashes K dec height d = Ok t" and r: "r \<in> set (Root t)"
    and hit: "containsTxHash (Some r) 0 hash = (True, j)"
    using FindTransactionInBlocks_Ok [OF assms(1)] by blast
  obtain k where k: "k < node_depth (Some r)" "j = word_of_nat k"
    using containsTxHash_index [OF hit] by auto
  have "node_depth (Some r) < 2 ^ 63" by (rule LoadTreeWithoutTxHashes_depth [OF t assms(2) r])
  then have "k < 2 ^ 63" using k(1) by (rule less_trans [rotated])
  then have "int k < 2 ^ 63" by simp
  then have "sint j = int k" using sint_i64_of_int [of "int k"] k(2) by simp
  then show ?thesis by simp
qed

text \<open>
  C16: a transaction that is stored as part of the chain is refused by the check that every block
  goes through, so no block can contain it again: either it is found in the tree of its block, or
  the search fails and the check fails with it.  Decoded trees are less than 2^63 deep.
\<close>

theorem stored_transaction_is_refused:
  assumes "rocksdb (e_kv E) content" and "content (w_db w) (TransactionDBPrefix @ h) \<noteq> None"
    and "\<And>b ns n. e_dec E b = Ok ns \<Longrightarrow> n \<in> set ns \<Longrightarrow> node_depth (Some n) < 2 ^ 63"
  shows "fst (CheckTransactionInDBAndInMarkleTrie E h w) \<noteq> Ok ()"
proof
  assume "fst (CheckTransactionInDBAndInMarkleTrie E h w) = Ok ()"
  then obtain w' where "CheckTransactionInDBAndInMarkleTrie E h w = (Ok (), w')" by (metis prod.collapse)
  moreover have "CheckFromDBPoolTx (e_kv E) TransactionDBPrefix h (w_db w) = Ok True"
    using rocksdb.DB_IsKey_content [OF assms(1), of "TransactionDBPrefix @ h"] assms(2)
    by (simp add: CheckFromDBPoolTx_def)
  ultimately obtain ht j d where "FindTransactionInBlocks (e_kv E) (e_dec E) h ht d = Ok j" "sint j < 0"
    by (auto simp: CheckTransactionInDBAndInMarkleTrie_def elim!: sbind_OkE split: if_splits)
  with FindTransactionInBlocks_nonneg [OF this(1) assms(3)] show False by simp
qed

definition plain_env :: "memdb env" where
  "plain_env = \<lparr>e_kv = mem_kv, e_H160 = copy_into (replicate 20 0), e_H256 = sample_digest,
     e_enc = (\<lambda>ns. []), e_dec = (\<lambda>_. Ok [MerkleNode None None [1]]), e_json = (\<lambda>_. Ok []),
     e_unjson = sample_unjson, e_oqs_len = (\<lambda>_. Some 1), e_oqs_verify = (\<lambda>_ _ _ _. Ok True),
     e_ec = initEncryptionConfigInstance, e_pref = True, e_coin = True, e_now = 0, e_syncing = False\<rparr>"

definition plain_world :: "memdb world" where
  "plain_world = \<lparr>w_db = [(TransactionDBPrefix @ [7], Transaction_GetBytes sample_tx)],
     w_accounts = \<lparr>AllAccounts = [], acs_Height = 0\<rparr>, w_staking = [],
     PoolsTx = NewTransactionPool 10 0, PoolTxEscrow = NewTransactionPool 10 1,
     PoolTxMultiSign = NewTransactionPool 10 2\<rparr>"

theorem stored_transaction_is_refused_witness:
  "fst (CheckTransactionInDBAndInMarkleTrie plain_env [7] plain_world) \<noteq> Ok ()"
  by (rule stored_transaction_is_refused [where content = map_of])
    (use memdb.rocksdb_axioms in \<open>auto simp: plain_env_def plain_world_def\<close>)

end
