(* ===== verification/Ledger.thy ===== *)
theory Ledger
  imports World
begin

text \<open>
  Execution of transactions: \<^verbatim>\<open>src/blocks/processTransaction.go\<close>.  Every function is translated with
  its guards in order; a Go error return is an \<open>Err\<close>, with whatever was written before it kept.

  The lemmas: each operation moves the coins held in accounts, stakes and rewards by exactly the
  fee it charges.
\<close>

section \<open>Constants and shared pieces\<close>

definition MinStakingUser :: i64 where "MinStakingUser = 100000000000"
definition MaxTransactionInPool :: nat where "MaxTransactionInPool = 10000"
definition MaxTransactionInMultiSigPool :: i64 where "MaxTransactionInMultiSigPool = 60480"

abbreviation ZerosHash :: bytes where "ZerosHash \<equiv> EmptyHash"

abbreviation tx_sender :: "Transaction \<Rightarrow> bytes" where
  "tx_sender tx \<equiv> addr_ByteValue (Sender (tx_Param tx))"

abbreviation tx_recipient :: "Transaction \<Rightarrow> bytes" where
  "tx_recipient tx \<equiv> addr_ByteValue (Recipient (tx_Data tx))"

definition tx_fee :: "Transaction \<Rightarrow> i64" where
  "tx_fee tx = GasPrice tx * GasUsage tx"

text \<open>
  The delegated account a transaction addresses, a block of code that five functions repeat: the
  account of the lock when an amount is locked, the recipient otherwise.
\<close>

definition tx_target :: "Transaction \<Rightarrow> (int \<times> string option) result" where
  "tx_target tx =
     (if sint (tx_LockedAmount (tx_Data tx)) > 0
      then rbind (IntDelegatedAccountFromAddress (DelegatedAccountForLocking (tx_Data tx))) (\<lambda>(n, err).
        if n \<le> 0 \<or> n \<ge> 256 \<or> err \<noteq> None
        then Err ''DelegatedAccountForLocking must be a delegated account less than 256''
        else Ok (n, err))
      else IntDelegatedAccountFromAddress (Recipient (tx_Data tx)))"

section \<open>CheckStakingTransaction\<close>

text \<open>The conditions for a locked amount, and those for a plain stake or unstake.\<close>

definition locked_stake_ok :: "TxData \<Rightarrow> bool" where
  "locked_stake_ok td \<longleftrightarrow> \<not> sint (Amount td) \<le> 0 \<and>
     \<not> (sint (Amount td) < sint MinStakingUser \<and> sint (Amount td) > 0) \<and>
     \<not> sint (tx_LockedAmount td) < 0 \<and> \<not> sint (tx_LockedAmount td) > sint (Amount td) \<and>
     \<not> sint (tx_ReleasePerBlock td) < 0 \<and>
     \<not> sint (tx_ReleasePerBlock td) > sint (tx_LockedAmount td)"

definition plain_stake_ok :: "StakingAccount \<Rightarrow> bytes \<Rightarrow> i64 \<Rightarrow> i64 \<Rightarrow> bool" where
  "plain_stake_ok accStaking recipient amount sumAmount \<longleftrightarrow>
     \<not> (sa_DelegatedAccount accStaking \<noteq> recipient \<and> sint amount \<le> 0) \<and>
     \<not> (sint amount < sint MinStakingUser \<and> sint amount > 0) \<and>
     \<not> (sint (StakedBalance accStaking + amount) < sint MinStakingUser \<and>
        StakedBalance accStaking + amount \<noteq> 0) \<and>
     \<not> (sint sumAmount < sint MinStakingUser \<and> sint sumAmount > 0) \<and>
     \<not> (sint (StakedBalance accStaking + sumAmount) < sint MinStakingUser \<and>
        StakedBalance accStaking + sumAmount \<noteq> 0)"

definition CheckStakingTransaction ::
  "Transaction \<Rightarrow> i64 \<Rightarrow> i64 \<Rightarrow> AccountsType \<Rightarrow> staking \<Rightarrow> bool result" where
  "CheckStakingTransaction tx sumAmount sumFee acs st =
     (let fee = tx_fee tx; td = tx_Data tx; amount = Amount td; address = tx_sender tx in
      rbind (GetAccountByAddressBytes address acs) (\<lambda>acc.
      if acc_Address acc \<noteq> address then Ok False
      else if sint (Balance acc) < sint fee then Ok False
      else if sint (Balance acc) < sint sumFee then Ok False
      else
      rbind (if sint (tx_LockedAmount td) > 0
             then rbind (IntDelegatedAccountFromAddress (DelegatedAccountForLocking td)) (\<lambda>(n, err).
               Ok (n, \<not> (n \<le> 0 \<or> n \<ge> 256 \<or> err \<noteq> None)))
             else rbind (IntDelegatedAccountFromAddress (Recipient td)) (\<lambda>(n, err). Ok (n, True)))
        (\<lambda>(n, target_ok).
      if \<not> target_ok then Ok False
      else
      rbind (if n > 0 \<and> n < 256
             then if sint (tx_LockedAmount td) > 0 then Ok (locked_stake_ok td)
               else rbind (GetStakingAccountByAddressBytes address n st) (\<lambda>accStaking.
                 Ok (plain_stake_ok accStaking (tx_recipient tx) amount sumAmount))
             else Ok True) (\<lambda>stake_ok.
      if \<not> stake_ok then Ok False
      else if n \<ge> 256 \<and> n < 512
      then rbind (GetStakingAccountByAddressBytes address (n mod 256) st) (\<lambda>accStaking.
        Ok (\<not> sa_Address accStaking \<noteq> address \<and> \<not> sint (StakingRewards accStaking + amount) < 0))
      else Ok True))))"

section \<open>ProcessTransaction\<close>

definition ProcessMultiSignAndEscrow :: "Transaction \<Rightarrow> (('d, 'z) world_scheme, unit) op" where
  "ProcessMultiSignAndEscrow tx =
     on_accounts (
     sbind (SetAccountByAddressBytes (tx_recipient tx)) (\<lambda>acc.
     sbind (if sint (EscrowTransactionsDelay (tx_Data tx)) > 0
            then ModifyAccountToEscrow (EscrowTransactionsDelay (tx_Data tx)) acc
            else sret acc) (\<lambda>acc1.
     if unat (tx_MultiSignNumber (tx_Data tx)) > 0
     then sbind (slift (read_addresses (tx_MultiSignAddresses (tx_Data tx)))) (\<lambda>accAddresses.
       sbind (ModifyAccountToMultiSign (tx_MultiSignNumber (tx_Data tx)) accAddresses acc1) (\<lambda>_. sret ()))
     else sret ())))"

text \<open>Its three branches: stake and unstake, withdrawal of rewards, and a transfer.\<close>

definition process_stake :: "'d env \<Rightarrow> Transaction \<Rightarrow> i64 \<Rightarrow> int \<Rightarrow> (('d, 'z) world_scheme, unit) op" where
  "process_stake E tx height n =
     (let fee = tx_fee tx; td = tx_Data tx; amount = Amount td; operational = (length (OptData td) > 0) in
      sbind (if sint (tx_LockedAmount td) > 0
             then if sint amount \<ge> sint MinStakingUser
               then on_staking (Stake (tx_recipient tx) amount height n operational
                 (tx_LockedAmount td) (tx_ReleasePerBlock td) (e_now E))
               else serr ''wrong amount in locking: ProcessTransaction''
             else if sint amount \<ge> sint MinStakingUser
               then on_staking (Stake (tx_sender tx) amount height n operational 0 0 (e_now E))
               else if sint amount < 0
               then on_staking (Unstake (tx_sender tx) amount height n (e_now E))
               else serr ''wrong amount in staking/unstaking: ProcessTransaction'') (\<lambda>_.
      sbind (on_accounts (AddBalance (tx_sender tx) (- fee - amount))) (\<lambda>_.
      ProcessMultiSignAndEscrow tx)))"

definition process_withdrawal :: "'d env \<Rightarrow> Transaction \<Rightarrow> i64 \<Rightarrow> int \<Rightarrow> (('d, 'z) world_scheme, unit) op" where
  "process_withdrawal E tx height n =
     (let amount = Amount (tx_Data tx) in
      sbind (sread (\<lambda>w. GetStakingAccountByAddressBytes (tx_sender tx) (n mod 256) (w_staking w)))
        (\<lambda>accStaking.
      if sa_Address accStaking \<noteq> tx_sender tx
      then serr ''no staking account found in check staking transaction (rewards): ProcessTransaction''
      else if sint amount > 0 then sret ()
      else if sint amount < 0
      then sbind (on_staking (WithdrawReward (sa_Address accStaking) amount height (n mod 256) (e_now E)))
        (\<lambda>_. on_accounts (AddBalance (tx_sender tx) (- tx_fee tx - amount)))
      else serr ''wrong amount in rewarding: ProcessTransaction''))"

definition process_transfer :: "Transaction \<Rightarrow> i64 \<Rightarrow> (('d, 'z) world_scheme, unit) op" where
  "process_transfer tx height =
     (let amount = Amount (tx_Data tx); confirms = MultiSignTx (tx_Param tx) in
      sbind (sread (\<lambda>w. GetAccountByAddressBytes (tx_sender tx) (w_accounts w))) (\<lambda>senderAcc.
      sbind (if sint (TransactionDelay senderAcc) > 0 \<and>
                sint (tx_Height tx + TransactionDelay senderAcc) > sint height \<and> confirms = ZerosHash
             then sbind (on_escrow (AddTransaction tx (tx_Hash tx))) (\<lambda>_. sret ())
             else if unat (MultiSignNumber senderAcc) > 0 \<and> confirms = ZerosHash
             then sbind (on_multisign (AddTransaction tx (tx_Hash tx))) (\<lambda>_. sret ())
             else
               sbind (if confirms \<noteq> ZerosHash
                      then sbind (on_multisign (AddTransaction tx confirms)) (\<lambda>_. sret ())
                      else sret ()) (\<lambda>_.
               sbind (on_accounts (AddBalance (tx_sender tx) (- amount))) (\<lambda>_.
               on_accounts (AddBalance (tx_recipient tx) amount)))) (\<lambda>_.
      sbind (on_accounts (AddBalance (tx_sender tx) (- tx_fee tx))) (\<lambda>_.
      ProcessMultiSignAndEscrow tx))))"

definition ProcessTransaction :: "'d env \<Rightarrow> Transaction \<Rightarrow> i64 \<Rightarrow> (('d, 'z) world_scheme, unit) op" where
  "ProcessTransaction E tx height =
     sbind (slift (tx_target tx)) (\<lambda>(n, err).
     if err = None
     then sbind (if n > 0 \<and> n < 256 then process_stake E tx height n else sret ()) (\<lambda>_.
       if n \<ge> 256 \<and> n < 512 then process_withdrawal E tx height n else sret ())
     else process_transfer tx height)"

section \<open>ProcessTransactionsMultiSign\<close>

text \<open>
  The list of addresses that have not approved yet is a view into the array of the stored account:
  \<open>arr\<close> is that array, and the view starts at \<open>off\<close> and has \<open>len\<close> entries.  Removal at a position
  past the first shifts the entries of the array down, \<^verbatim>\<open>append(v[:i], v[i+1:]...)\<close>; removal of the
  first only moves the view, \<^verbatim>\<open>v[1:]\<close>.
\<close>

definition shift_down :: "nat \<Rightarrow> nat \<Rightarrow> 'a list \<Rightarrow> 'a list" where
  "shift_down i end arr = take i arr @ drop (Suc i) (take end arr) @ drop (end - 1) arr"

fun approvals ::
  "Transaction \<Rightarrow> Transaction list \<Rightarrow> addr20 list \<times> nat \<times> nat \<times> nat \<Rightarrow> addr20 list \<times> nat \<times> nat \<times> nat" where
  "approvals mainTx [] st = st"
| "approvals mainTx (t # ts) (arr, off, len, num) =
     (let view = take len (drop off arr);
          hit = (\<lambda>appr. tx_sender t = appr \<and> tx_recipient mainTx = tx_recipient t \<and>
            Amount (tx_Data t) = 0);
          appi = length (takeWhile (\<lambda>a. \<not> hit a) view)
      in if appi = length view then approvals mainTx ts (arr, off, len, num)
         else if appi > 0
         then approvals mainTx ts (shift_down (off + appi) (off + len) arr, off, len - 1, num + 1)
         else approvals mainTx ts (arr, off + 1, len - 1, num + 1))"

definition set_approvers :: "bytes \<Rightarrow> addr20 list \<Rightarrow> AccountsType \<Rightarrow> AccountsType" where
  "set_approvers a arr s =
     (let k = copy_into (replicate 20 0) (take AddressLength a) in
      case map_of (AllAccounts s) k of
        None \<Rightarrow> s
      | Some acc \<Rightarrow> s\<lparr>AllAccounts := mput k (acc\<lparr>MultiSignAddresses := arr\<rparr>) (AllAccounts s)\<rparr>)"

definition remove_all :: "Transaction list \<Rightarrow> (('d, 'z) world_scheme, unit) op" where
  "remove_all = sfor (\<lambda>t. on_multisign (RemoveTransactionByHash (tx_Hash t)))"

definition execute_multisign :: "'d env \<Rightarrow> Transaction \<Rightarrow> Account \<Rightarrow> i64 \<Rightarrow> (('d, 'z) world_scheme, unit) op" where
  "execute_multisign E mainTx acc height =
     sbind (slift (tx_target mainTx)) (\<lambda>(n, err).
     if err = None then sret ()
     else if sint (TransactionDelay acc) > 0 \<and> sint (tx_Height mainTx + TransactionDelay acc) > sint height
     then serr ''transaction should not be executed, should be delayed''
     else
     sbind (on_multisign (RemoveTransactionByHash (tx_Hash mainTx))) (\<lambda>_.
     sbind (scatch (on_accounts (AddBalance (tx_sender mainTx) (- Amount (tx_Data mainTx))))) (\<lambda>r.
     case r of
       Ok _ \<Rightarrow> on_accounts (AddBalance (tx_recipient mainTx) (Amount (tx_Data mainTx)))
     | Err e \<Rightarrow> sbind (RemoveBadTransactionByHash E (tx_Hash mainTx) height) (\<lambda>_. serr e)
     | Panic \<Rightarrow> slift Panic)))"

definition ProcessTransactionsMultiSign :: "'d env \<Rightarrow> Transaction \<Rightarrow> i64 \<Rightarrow> (('d, 'z) world_scheme, unit) op" where
  "ProcessTransactionsMultiSign E tx height =
     (let confirms = MultiSignTx (tx_Param tx) in
      if confirms = ZerosHash then sret ()
      else
      sbind (slift (GetInt64FromByte confirms)) (\<lambda>key.
      sbind (sget (\<lambda>w. PeekTransactions MaxTransactionInPool key (PoolTxMultiSign w))) (\<lambda>txs.
      let mainTx = (case find (\<lambda>t. tx_Hash t = confirms) txs of
            Some t \<Rightarrow> t | None \<Rightarrow> zero_Transaction) in
      if length (Transaction_GetBytes mainTx) = 0
      then sbind (remove_all txs) (\<lambda>_. serr ''no main transaction in multi signature pool'')
      else if sint (height - tx_Height mainTx) > sint MaxTransactionInMultiSigPool
      then sbind (remove_all txs) (\<lambda>_. serr ''no main transaction in multi signature pool'')
      else
      sbind (sread (\<lambda>w. GetAccountByAddressBytes (tx_sender mainTx) (w_accounts w))) (\<lambda>acc.
      if length txs < unat (MultiSignNumber acc) then sret ()
      else
      let (arr, off, len, numApprovals) =
        approvals mainTx txs (MultiSignAddresses acc, 0, length (MultiSignAddresses acc), 0) in
      sbind (supd (w_accounts_update (set_approvers (tx_sender mainTx) arr))) (\<lambda>_.
      if numApprovals < unat (MultiSignNumber acc) then sret ()
      else execute_multisign E mainTx acc height)))))"

section \<open>ProcessTransactionsEscrow\<close>

definition release_escrow :: "'d env \<Rightarrow> Transaction \<Rightarrow> i64 \<Rightarrow> (('d, 'z) world_scheme, unit) op" where
  "release_escrow E tx height =
     (let amount = Amount (tx_Data tx); confirms = MultiSignTx (tx_Param tx) in
      sbind (sread (\<lambda>w. GetAccountByAddressBytes (tx_sender tx) (w_accounts w))) (\<lambda>senderAcc.
      if sint (TransactionDelay senderAcc) > 0 \<and>
         sint (tx_Height tx + TransactionDelay senderAcc) > sint height \<and> confirms = ZerosHash
      then serr ''transaction should not be executed''
      else if unat (MultiSignNumber senderAcc) > 0 \<and> confirms = ZerosHash
      then sbind (on_multisign (AddTransaction tx (tx_Hash tx))) (\<lambda>added.
        if added then on_escrow (RemoveTransactionByHash (tx_Hash tx)) else sret ())
      else
        sbind (if confirms \<noteq> ZerosHash
               then sbind (on_multisign (AddTransaction tx confirms)) (\<lambda>_. sret ())
               else sret ()) (\<lambda>_.
        sbind (on_escrow (RemoveTransactionByHash (tx_Hash tx))) (\<lambda>_.
        sbind (scatch (on_accounts (AddBalance (tx_sender tx) (- amount)))) (\<lambda>r.
        case r of
          Ok _ \<Rightarrow> on_accounts (AddBalance (tx_recipient tx) amount)
        | Err e \<Rightarrow> sbind (RemoveBadTransactionByHash E (tx_Hash tx) height) (\<lambda>_. serr e)
        | Panic \<Rightarrow> slift Panic)))))"

text \<open>The loop returns, without an error, at the first transaction to a delegated account.\<close>

fun escrow_loop :: "'d env \<Rightarrow> i64 \<Rightarrow> Transaction list \<Rightarrow> (('d, 'z) world_scheme, unit) op" where
  "escrow_loop E height [] = sret ()"
| "escrow_loop E height (tx # txs) =
     sbind (slift (tx_target tx)) (\<lambda>(n, err).
     if err = None then sret ()
     else sbind (release_escrow E tx height) (\<lambda>_. escrow_loop E height txs))"

definition ProcessTransactionsEscrow :: "'d env \<Rightarrow> i64 \<Rightarrow> (('d, 'z) world_scheme, unit) op" where
  "ProcessTransactionsEscrow E height =
     sbind (sget (\<lambda>w. PeekTransactions MaxTransactionInPool height (PoolTxEscrow w)))
       (escrow_loop E height)"

section \<open>Conservation\<close>

text \<open>
  The fee a transaction really pays: none when it adds to rewards, and none to a delegated account
  of number 512 or more.
\<close>

definition charged_fee :: "Transaction \<Rightarrow> i64" where
  "charged_fee tx = (case tx_target tx of
     Ok (n, None) \<Rightarrow> if n < 256 \<or> n < 512 \<and> sint (Amount (tx_Data tx)) < 0 then tx_fee tx else 0
   | _ \<Rightarrow> tx_fee tx)"

text \<open>An address is an array of 20 bytes in Go: transactions have such addresses.\<close>

definition tx_wt :: "Transaction \<Rightarrow> bool" where
  "tx_wt tx \<longleftrightarrow> length (tx_sender tx) = 20 \<and> length (tx_recipient tx) = 20"

definition ledger_at :: "i64 \<Rightarrow> ('d, 'z) world_scheme \<Rightarrow> bool" where
  "ledger_at t w \<longleftrightarrow> accounts_ok (w_accounts w) \<and> staking_ok (w_staking w) \<and>
     pool_all tx_wt (PoolTxMultiSign w) \<and> coins w = t"

lemma tx_target_None: "tx_target tx = Ok (n, None) \<Longrightarrow> 0 < n"
  by (auto simp: tx_target_def IntDelegatedAccountFromAddress_def rbind_Ok_iff Let_def split: if_splits)

lemma zero_Transaction_wt: "tx_wt zero_Transaction"
  by (simp add: tx_wt_def zero_Transaction_def zero_TxParam_def zero_TxData_def zero_Address_def)

text \<open>
  How a triple on the accounts and a move of the staking table act on the whole state.
\<close>

lemma ledger_at_accounts:
  assumes "ledger_at t w" and "accounts_ok s"
    and "GetSupplyInAccounts s = GetSupplyInAccounts (w_accounts w) + x"
  shows "ledger_at (t + x) (w\<lparr>w_accounts := s\<rparr>)"
  using assms by (simp add: ledger_at_def coins_def algebra_simps)

lemma ledger_on_accounts:
  assumes "\<And>u. triple (\<lambda>s. accounts_ok s \<and> GetSupplyInAccounts s = u) m
      (\<lambda>_ s. accounts_ok s \<and> GetSupplyInAccounts s = u + x)"
  shows "triple (ledger_at t) (on_accounts m) (\<lambda>_. ledger_at (t + x))"
proof (rule tripleI)
  fix w y w'
  assume L: "ledger_at t w" and run: "on_accounts m w = (Ok y, w')"
  obtain s where s: "m (w_accounts w) = (Ok y, s)" "w' = w\<lparr>w_accounts := s\<rparr>"
    using run by (auto simp: zoom_Ok)
  have "accounts_ok (w_accounts w)" using L by (simp add: ledger_at_def)
  then show "ledger_at (t + x) w'"
    using tripleD [OF assms _ s(1)] L s(2) by (simp add: ledger_at_accounts)
qed

lemma ledger_on_staking:
  assumes "\<And>s s'. staking_ok s \<Longrightarrow> m s = (Ok (), s') \<Longrightarrow> \<exists>a. staking_moves i a ds dr s s'"
  shows "triple (ledger_at t) (on_staking m) (\<lambda>_. ledger_at (t + ds + dr))"
proof (rule tripleI)
  fix w w' and y :: unit
  assume L: "ledger_at t w" and run: "on_staking m w = (Ok y, w')"
  obtain s where s: "m (w_staking w) = (Ok (), s)" "w' = w\<lparr>w_staking := s\<rparr>"
    using run by (auto simp: zoom_Ok)
  have ok: "staking_ok (w_staking w)" using L by (simp add: ledger_at_def)
  then obtain a where "staking_moves i a ds dr (w_staking w) s" using assms s(1) by blast
  then show "ledger_at (t + ds + dr) w'"
    using staking_moves_totals [OF ok] L s(2) by (simp add: ledger_at_def coins_def algebra_simps)
qed

lemma ledger_AddBalance [ledger]:
  "length a = 20 \<Longrightarrow> triple (ledger_at t) (on_accounts (AddBalance a x)) (\<lambda>_. ledger_at (t + x))"
  by (rule ledger_on_accounts) (rule AddBalance_triple)

lemma ledger_Stake [ledger]:
  "triple (ledger_at t) (on_staking (Stake a x h i op la rpb now)) (\<lambda>_. ledger_at (t + x))"
  using ledger_on_staking [of "Stake a x h i op la rpb now" i x 0 t] Stake_moves by fastforce

lemma ledger_Unstake [ledger]:
  "triple (ledger_at t) (on_staking (Unstake a x h i now)) (\<lambda>_. ledger_at (t + x))"
  using ledger_on_staking [of "Unstake a x h i now" i x 0 t] Unstake_moves by fastforce

lemma ledger_WithdrawReward [ledger]:
  "triple (ledger_at t) (on_staking (WithdrawReward a x h i now)) (\<lambda>_. ledger_at (t + x))"
  using ledger_on_staking [of "WithdrawReward a x h i now" i 0 x t] WithdrawReward_moves by fastforce

lemma ledger_Reward [ledger]:
  "triple (ledger_at t) (on_staking (Reward a x h i now)) (\<lambda>_. ledger_at (t + x))"
  using ledger_on_staking [of "Reward a x h i now" i 0 x t] Reward_moves by fastforce

lemma ledger_pools:
  "triple (ledger_at t) (on_pool m) (\<lambda>_. ledger_at t)"
  "triple (ledger_at t) (on_escrow m) (\<lambda>_. ledger_at t)"
  "preserves (pool_all tx_wt) m \<Longrightarrow> triple (ledger_at t) (on_multisign m) (\<lambda>_. ledger_at t)"
  by (auto simp: triple_def zoom_Ok ledger_at_def coins_def dest: preservesD)

lemma ledger_AddTransaction_multisign:
  "tx_wt tx \<Longrightarrow> triple (ledger_at t) (on_multisign (AddTransaction tx h)) (\<lambda>_. ledger_at t)"
  by (rule ledger_pools(3)) (rule AddTransaction_pool_all)

text \<open>Inside the accounts, the copy of the account and the stored one have the same balance.\<close>

lemma MultiSignAndEscrow_accounts:
  assumes "length a = 20"
  shows "triple (\<lambda>s. accounts_ok s \<and> GetSupplyInAccounts s = u)
    (sbind (SetAccountByAddressBytes a) (\<lambda>acc.
     sbind (if b then ModifyAccountToEscrow d acc else sret acc) (\<lambda>acc1.
     if c then sbind (slift r) (\<lambda>as. sbind (ModifyAccountToMultiSign n as acc1) (\<lambda>_. sret ()))
     else sret ())))
    (\<lambda>_ s. accounts_ok s \<and> GetSupplyInAccounts s = u)"
proof -
  let ?I = "\<lambda>acc s. accounts_ok s \<and> GetSupplyInAccounts s = u \<and> length (acc_Address acc) = 20 \<and>
    GetBalance (acc_Address acc) s = Balance acc"
  have 1: "triple (\<lambda>s. accounts_ok s \<and> GetSupplyInAccounts s = u) (SetAccountByAddressBytes a) ?I"
    using SetAccountByAddressBytes_triple [OF assms] by (rule triple_conseq) (use assms in auto)
  have 2: "triple (?I acc) (if b then ModifyAccountToEscrow d acc else sret acc) ?I" for acc
    using ModifyAccountToEscrow_triple by (auto intro: triple_sret)
  have 3: "triple (?I acc) (if c then sbind (slift r) (\<lambda>as. sbind (ModifyAccountToMultiSign n as acc)
      (\<lambda>_. sret ())) else sret ()) (\<lambda>_ s. accounts_ok s \<and> GetSupplyInAccounts s = u)" for acc
    by (intro triple_if triple_sret triple_bind [where R = "\<lambda>_. ?I acc"]
        triple_bind [OF ModifyAccountToMultiSign_triple] triple_slift) auto
  show ?thesis by (rule triple_bind [OF 1], rule triple_bind [OF 2], rule 3)
qed

lemma ledger_ProcessMultiSignAndEscrow [ledger]:
  assumes "tx_wt tx"
  shows "triple (ledger_at t) (ProcessMultiSignAndEscrow tx) (\<lambda>_. ledger_at t)"
  unfolding ProcessMultiSignAndEscrow_def
  by (rule ledger_on_accounts [where x = 0, simplified], rule MultiSignAndEscrow_accounts)
    (use assms in \<open>simp add: tx_wt_def\<close>)

lemma ledger_process_stake:
  assumes "tx_wt tx"
  shows "triple (ledger_at t) (process_stake E tx height n) (\<lambda>_. ledger_at (t - tx_fee tx))"
proof -
  let ?a = "Amount (tx_Data tx)"
  have "t + ?a + (- tx_fee tx - ?a) = t - tx_fee tx" by simp
  then have pay: "triple (ledger_at (t + ?a)) (on_accounts (AddBalance (tx_sender tx) (- tx_fee tx - ?a)))
      (\<lambda>_. ledger_at (t - tx_fee tx))"
    using ledger_AddBalance [of "tx_sender tx" "t + ?a" "- tx_fee tx - ?a"] assms by (simp add: tx_wt_def)
  show ?thesis
    unfolding process_stake_def Let_def
    by (rule triple_bind [where R = "\<lambda>_. ledger_at (t + ?a)"])
      (auto intro: ledger_Stake ledger_Unstake triple_serr
        triple_bind [OF pay] ledger_ProcessMultiSignAndEscrow [OF assms])
qed

lemma ledger_process_withdrawal:
  assumes "tx_wt tx"
  shows "triple (ledger_at t) (process_withdrawal E tx height n)
    (\<lambda>_. ledger_at (t - (if sint (Amount (tx_Data tx)) < 0 then tx_fee tx else 0)))"
proof -
  let ?a = "Amount (tx_Data tx)"
  have "t + ?a + (- tx_fee tx - ?a) = t - tx_fee tx" by simp
  then have pay: "triple (ledger_at (t + ?a)) (on_accounts (AddBalance (tx_sender tx) (- tx_fee tx - ?a)))
      (\<lambda>_. ledger_at (t - tx_fee tx))"
    using ledger_AddBalance [of "tx_sender tx" "t + ?a" "- tx_fee tx - ?a"] assms by (simp add: tx_wt_def)
  show ?thesis
    unfolding process_withdrawal_def Let_def
    by (rule triple_bind [where R = "\<lambda>_. ledger_at t"])
      (auto intro!: triple_sread triple_sret triple_serr triple_bind [OF ledger_WithdrawReward pay])
qed

lemma ledger_process_transfer:
  assumes "tx_wt tx"
  shows "triple (ledger_at t) (process_transfer tx height) (\<lambda>_. ledger_at (t - tx_fee tx))"
proof -
  let ?a = "Amount (tx_Data tx)"
  have len: "length (tx_sender tx) = 20" "length (tx_recipient tx) = 20"
    using assms by (simp_all add: tx_wt_def)
  have move: "triple (ledger_at t) (sbind (on_accounts (AddBalance (tx_sender tx) (- ?a)))
      (\<lambda>_. on_accounts (AddBalance (tx_recipient tx) ?a))) (\<lambda>_. ledger_at t)"
    using triple_bind [OF ledger_AddBalance [OF len(1), of t "- ?a"] ledger_AddBalance [OF len(2), of "t + - ?a" ?a]]
    by simp
  have pay: "triple (ledger_at t) (on_accounts (AddBalance (tx_sender tx) (- tx_fee tx)))
      (\<lambda>_. ledger_at (t - tx_fee tx))"
    using ledger_AddBalance [OF len(1), of t "- tx_fee tx"] by simp
  have held: "triple (ledger_at t) (sbind (on_escrow (AddTransaction tx h)) (\<lambda>_. sret ())) (\<lambda>_. ledger_at t)"
    "triple (ledger_at t) (sbind (on_multisign (AddTransaction tx h)) (\<lambda>_. sret ())) (\<lambda>_. ledger_at t)" for h
    by (rule triple_bind, rule ledger_pools(2) ledger_AddTransaction_multisign [OF assms],
        rule triple_sret, assumption)+
  show ?thesis
    unfolding process_transfer_def Let_def
    by (intro triple_bind [where R = "\<lambda>_. ledger_at t", OF triple_sread]
        triple_bind [where R = "\<lambda>_. ledger_at t" and f = "\<lambda>_. sbind _ _"]
        triple_bind [OF pay] ledger_ProcessMultiSignAndEscrow [OF assms] triple_if held move triple_sret)
      auto
qed

text \<open>A transaction takes exactly its charged fee out of the ledger.\<close>

lemma ledger_ProcessTransaction:
  assumes "tx_wt tx"
  shows "triple (ledger_at t) (ProcessTransaction E tx height) (\<lambda>_. ledger_at (t - charged_fee tx))"
proof (rule tripleI)
  fix w w' and y :: unit
  assume L: "ledger_at t w" and run: "ProcessTransaction E tx height w = (Ok y, w')"
  obtain n err where tgt: "tx_target tx = Ok (n, err)"
    using run by (auto simp: ProcessTransaction_def elim!: sbind_OkE)
  show "ledger_at (t - charged_fee tx) w'"
  proof (cases err)
    case (Some e)
    then have "process_transfer tx height w = (Ok y, w')"
      using run tgt by (simp add: ProcessTransaction_def sbind_def slift_def)
    then have "ledger_at (t - tx_fee tx) w'" by (rule tripleD [OF ledger_process_transfer [OF assms] L])
    with Some tgt show ?thesis by (simp add: charged_fee_def)
  next
    case None
    note T = tripleD [OF ledger_process_stake [OF assms, of t E height n] L]
      tripleD [OF ledger_process_withdrawal [OF assms, of t E height n] L]
    have "0 < n" using tgt None tx_target_None by blast
    with run tgt None T L show ?thesis
      by (auto simp: ProcessTransaction_def charged_fee_def sbind_def [of "slift _"] slift_def
          elim!: sbind_OkE split: if_splits)
  qed
qed

text \<open>The rewritten list of approvers leaves balances alone.\<close>

lemma set_approvers_ok:
  assumes "accounts_ok s"
  shows "accounts_ok (set_approvers a arr s) \<and>
    GetSupplyInAccounts (set_approvers a arr s) = GetSupplyInAccounts s"
proof -
  have "accounts_ok (s\<lparr>AllAccounts := mput k (acc\<lparr>MultiSignAddresses := arr\<rparr>) (AllAccounts s)\<rparr>) \<and>
      GetSupplyInAccounts (s\<lparr>AllAccounts := mput k (acc\<lparr>MultiSignAddresses := arr\<rparr>) (AllAccounts s)\<rparr>) =
        GetSupplyInAccounts s"
    if "map_of (AllAccounts s) k = Some acc" for k acc
    using that accounts_ok_lookup [OF assms that] assms
    by (auto simp: GetSupplyInAccounts_mput GetBalance_def mgetd_def intro!: accounts_ok_mput)
  with assms show ?thesis by (auto simp: set_approvers_def Let_def split: option.split)
qed

lemma ledger_execute_multisign:
  assumes "tx_wt mainTx"
  shows "triple (ledger_at t) (execute_multisign E mainTx acc height) (\<lambda>_. ledger_at t)"
proof -
  let ?a = "Amount (tx_Data mainTx)"
  let ?R = "\<lambda>r w. r = Ok () \<longrightarrow> ledger_at (t + - ?a) w"
  have len: "length (tx_sender mainTx) = 20" "length (tx_recipient mainTx) = 20"
    using assms by (simp_all add: tx_wt_def)
  have debit: "triple (ledger_at t) (scatch (on_accounts (AddBalance (tx_sender mainTx) (- ?a)))) ?R"
    using tripleD [OF ledger_AddBalance [OF len(1), of t "- ?a"]] by (auto simp: triple_def scatch_Ok)
  have credit: "triple (?R r) (case r of
       Ok _ \<Rightarrow> on_accounts (AddBalance (tx_recipient mainTx) ?a)
     | Err e \<Rightarrow> sbind (RemoveBadTransactionByHash E (tx_Hash mainTx) height) (\<lambda>_. serr e)
     | Panic \<Rightarrow> slift Panic) (\<lambda>_. ledger_at t)" for r
    using ledger_AddBalance [OF len(2), of "t + - ?a" ?a]
    by (cases r) (auto simp: triple_def elim!: sbind_OkE)
  show ?thesis
    unfolding execute_multisign_def
    by (auto intro!: triple_bind [where R = "\<lambda>_. ledger_at t", OF triple_slift] triple_sret triple_serr
        triple_bind [OF ledger_pools(3) triple_bind [OF debit credit]] effects split: prod.split)
qed

lemma ledger_ProcessTransactionsMultiSign:
  "triple (ledger_at t) (ProcessTransactionsMultiSign E tx height) (\<lambda>_. ledger_at t)"
proof (rule tripleI)
  fix w w' and y :: unit
  assume L: "ledger_at t w" and run: "ProcessTransactionsMultiSign E tx height w = (Ok y, w')"
  let ?c = "MultiSignTx (tx_Param tx)"
  show "ledger_at t w'"
  proof (cases "?c = ZerosHash")
    case True
    with run L show ?thesis by (simp add: ProcessTransactionsMultiSign_def)
  next
    case False
    obtain key where key: "GetInt64FromByte ?c = Ok key"
      using run False by (auto simp: ProcessTransactionsMultiSign_def Let_def elim!: sbind_OkE)
    define txs where "txs = PeekTransactions MaxTransactionInPool key (PoolTxMultiSign w)"
    define mainTx where "mainTx = (case find (\<lambda>t. tx_Hash t = ?c) txs of
      Some t \<Rightarrow> t | None \<Rightarrow> zero_Transaction)"
    have "\<forall>x \<in> set txs. tx_wt x"
      using L zero_Transaction_wt by (auto simp: txs_def ledger_at_def intro: PeekTransactions_all)
    then have wt: "tx_wt mainTx"
      using zero_Transaction_wt by (auto simp: mainTx_def find_Some_iff split: option.split)
    have upd: "ledger_at t (w_accounts_update (set_approvers a arr) w)" for a arr
      using L set_approvers_ok [of "w_accounts w"] by (auto simp: ledger_at_def coins_def)
    from run False key show ?thesis
      unfolding ProcessTransactionsMultiSign_def Let_def
      using L upd tripleD [OF ledger_execute_multisign [OF wt] upd]
      by (auto simp flip: txs_def mainTx_def elim!: sbind_OkE split: if_splits prod.splits)
  qed
qed

section \<open>Escrow, on every outcome\<close>

text \<open>
  The caller drops an error of the escrow step and goes on, so its effect matters on every outcome.
  As long as the coins held in accounts, as a plain integer, fit 64 bits, the credit that follows a
  debit cannot fail.
\<close>

definition escrow_inv :: "int \<Rightarrow> i64 \<Rightarrow> ('d, 'z) world_scheme \<Rightarrow> bool" where
  "escrow_inv held t w \<longleftrightarrow> ledger_at t w \<and> held_coins (w_accounts w) = held"

lemma escrow_inv_keeps:
  assumes "keeps w_accounts m" and "keeps w_staking m" and "preserves (\<lambda>w. pool_all tx_wt (PoolTxMultiSign w)) m"
  shows "preserves (escrow_inv held t) m"
  using assms by (auto simp: preserves_def keeps_def escrow_inv_def ledger_at_def coins_def)

lemma preserves_multisign_pool [effects]:
  "preserves (\<lambda>w. pool_all P (PoolTxMultiSign w)) (on_multisign (RemoveTransactionByHash h))"
  "preserves (\<lambda>w. pool_all P (PoolTxMultiSign w)) (on_multisign (BanTransactionByHash h))"
  "P tx \<Longrightarrow> preserves (\<lambda>w. pool_all P (PoolTxMultiSign w)) (on_multisign (AddTransaction tx h))"
  by (rule preserves_zoom, auto intro: effects AddTransaction_pool_all)+

lemma preserves_other_pool [effects]:
  "keeps PoolTxMultiSign m \<Longrightarrow> preserves (\<lambda>w. pool_all P (PoolTxMultiSign w)) m"
  by (rule keeps_preserves)

lemma RemoveBadTransactionByHash_pool_all [effects]:
  "preserves (\<lambda>w. pool_all P (PoolTxMultiSign w)) (RemoveBadTransactionByHash E hash h)"
  unfolding RemoveBadTransactionByHash_def
  by (intro preserves_sbind preserves_wrap preserves_multisign_pool preserves_other_pool
      keeps_multisign CheckTransactionInDB_keeps)

lemma escrow_debit_credit:
  assumes "accounts_ok s" and "held_coins s < 2 ^ 63" and "0 \<le> sint x"
    and "length a = 20" and "length b = 20"
    and "AddBalance a (- x) s = (Ok (), s1)"
  shows "\<exists>s2. AddBalance b x s1 = (Ok (), s2) \<and> accounts_ok s2 \<and>
    GetSupplyInAccounts s2 = GetSupplyInAccounts s \<and> held_coins s2 = held_coins s"
proof -
  have neg: "sint (- x) = - sint x"
    using assms(3) sint_i64_diff [of 0 x] sint_i64_bounds [of x] by simp
  have s1: "accounts_ok s1" "GetSupplyInAccounts s1 = GetSupplyInAccounts s - x"
    "held_coins s1 = held_coins s - sint x"
    using AddBalance_Ok(1,2) [OF assms(1,4,6)] AddBalance_held [OF assms(1,4,6)] neg by simp_all
  have "sint (GetBalance b s1) + sint x < 2 ^ 63"
    using balance_le_held [OF s1(1), of b] s1(3) assms(2) by linarith
  moreover have b0: "0 \<le> sint (GetBalance b s1)" by (rule accounts_ok_mgetd [OF s1(1)])
  ultimately have "sint (GetBalance b s1 + x) = sint (GetBalance b s1) + sint x"
    using assms(3) by (intro sint_i64_add) linarith+
  then have "fst (AddBalance b x s1) = Ok ()" using AddBalance_result [of b x s1] b0 assms(3) by simp
  then obtain s2 where s2: "AddBalance b x s1 = (Ok (), s2)" by (metis prod.collapse)
  with AddBalance_Ok(1,2) [OF s1(1) assms(5) s2] AddBalance_held [OF s1(1) assms(5) s2] s1
  show ?thesis by simp
qed

lemma escrow_payment:
  assumes "held < 2 ^ 63" and "0 \<le> sint x" and "length a = 20" and "length b = 20"
  shows "preserves (escrow_inv held t)
    (sbind (scatch (on_accounts (AddBalance a (- x)))) (\<lambda>r.
     case r of
       Ok _ \<Rightarrow> on_accounts (AddBalance b x)
     | Err e \<Rightarrow> sbind (RemoveBadTransactionByHash E hash height) (\<lambda>_. serr e)
     | Panic \<Rightarrow> slift Panic))" (is "preserves _ (sbind _ ?rest)")
  unfolding preserves_def
proof (intro allI impI)
  fix w :: "('a, 'b) world_scheme"
  assume inv: "escrow_inv held t w"
  then have ok: "accounts_ok (w_accounts w)" and h: "held_coins (w_accounts w) = held"
    by (simp_all add: escrow_inv_def ledger_at_def)
  obtain r s1 where r: "AddBalance a (- x) (w_accounts w) = (r, s1)" by fastforce
  have run: "scatch (on_accounts (AddBalance a (- x))) w =
      (case r of Ok x \<Rightarrow> Ok (Ok x) | Err e \<Rightarrow> Ok (Err e) | Panic \<Rightarrow> Panic, w\<lparr>w_accounts := s1\<rparr>)"
    using r by (simp add: scatch_def zoom_def split: result.split)
  show "escrow_inv held t (snd (sbind (scatch (on_accounts (AddBalance a (- x)))) ?rest w))"
  proof (cases r)
    case (Ok u)
    then obtain s2 where s2: "AddBalance b x s1 = (Ok (), s2)" "accounts_ok s2"
      "GetSupplyInAccounts s2 = GetSupplyInAccounts (w_accounts w)" "held_coins s2 = held"
      using escrow_debit_credit [OF ok _ assms(2-4), of s1] assms(1) h r by auto
    with inv run Ok show ?thesis
      by (simp add: sbind_def zoom_def escrow_inv_def ledger_at_def coins_def)
  next
    case (Err e)
    have "escrow_inv held t (w\<lparr>w_accounts := s1\<rparr>)"
      using AddBalance_Err(1,2) [OF ok assms(3)] AddBalance_Err_held [OF ok] r Err inv h
      by (simp add: escrow_inv_def ledger_at_def coins_def)
    moreover have "preserves (escrow_inv held t) (sbind (RemoveBadTransactionByHash E hash height)
        (\<lambda>_. serr e :: (('a, 'b) world_scheme, unit) op))"
      by (intro effects escrow_inv_keeps)
    ultimately show ?thesis using run Err by (simp add: sbind_def [of "scatch _"] preserves_def)
  next
    case Panic
    with r AddBalance_result [of a "- x" "w_accounts w"] show ?thesis by (simp split: if_splits)
  qed
qed

lemma escrow_inv_pools:
  "preserves (escrow_inv held t) (on_escrow m)"
  "tx_wt tx \<Longrightarrow> preserves (escrow_inv held t) (on_multisign (AddTransaction tx h))"
  by (intro escrow_inv_keeps effects, assumption?)+

lemma release_escrow_inv:
  assumes "held < 2 ^ 63" and "0 \<le> sint (Amount (tx_Data tx))" and "tx_wt tx"
  shows "preserves (escrow_inv held t) (release_escrow E tx height)"
proof -
  have len: "length (tx_sender tx) = 20" "length (tx_recipient tx) = 20"
    using assms(3) by (simp_all add: tx_wt_def)
  note pay = escrow_payment [OF assms(1,2) len, of t E]
  show ?thesis
    unfolding release_escrow_def Let_def
    by (intro effects pay escrow_inv_pools assms(3) preserves_if)
qed

lemma escrow_loop_inv:
  assumes "held < 2 ^ 63" and "\<forall>tx \<in> set txs. 0 \<le> sint (Amount (tx_Data tx)) \<and> tx_wt tx"
  shows "preserves (escrow_inv held t) (escrow_loop E height txs)"
  using assms(2)
proof (induction txs)
  case (Cons tx txs)
  then show ?case
    using release_escrow_inv [OF assms(1), of tx t E height]
    by (auto intro!: effects preserves_if split: prod.split)
qed (simp add: effects)

lemma ProcessTransactionsEscrow_inv:
  assumes "held_coins (w_accounts w) < 2 ^ 63"
    and "pool_all (\<lambda>tx. 0 \<le> sint (Amount (tx_Data tx)) \<and> tx_wt tx) (PoolTxEscrow w)"
    and "ledger_at t w"
  shows "escrow_inv (held_coins (w_accounts w)) t (snd (ProcessTransactionsEscrow E height w))"
proof -
  let ?txs = "PeekTransactions MaxTransactionInPool height (PoolTxEscrow w)"
  have "0 \<le> sint (Amount (tx_Data zero_Transaction)) \<and> tx_wt zero_Transaction"
    using zero_Transaction_wt by (simp add: zero_Transaction_def zero_TxData_def)
  then have "\<forall>tx \<in> set ?txs. 0 \<le> sint (Amount (tx_Data tx)) \<and> tx_wt tx"
    using PeekTransactions_all [OF assms(2)] by blast
  note loop = escrow_loop_inv [OF assms(1) this, of t E height]
  have "escrow_inv (held_coins (w_accounts w)) t w" using assms(3) by (simp add: escrow_inv_def)
  from preservesD [OF loop this prod.collapse [symmetric]] show ?thesis
    by (simp add: ProcessTransactionsEscrow_def sbind_def sget_def)
qed

section \<open>Approvals\<close>

definition confirms_as :: "Transaction \<Rightarrow> Transaction \<Rightarrow> addr20 \<Rightarrow> bool" where
  "confirms_as mainTx t a \<longleftrightarrow> tx_sender t = a \<and> tx_recipient mainTx = tx_recipient t \<and> Amount (tx_Data t) = 0"

abbreviation view_of :: "addr20 list \<Rightarrow> nat \<Rightarrow> nat \<Rightarrow> addr20 list" where
  "view_of arr off len \<equiv> take len (drop off arr)"

lemma view_shift_down:
  assumes "i < len" and "off + len \<le> length arr"
  shows "length (shift_down (off + i) (off + len) arr) = length arr"
    and "view_of (shift_down (off + i) (off + len) arr) off (len - 1) =
      take i (view_of arr off len) @ drop (Suc i) (view_of arr off len)"
proof -
  obtain a b c where arr: "arr = a @ b @ c" and len: "length a = off" "length b = len"
    using assms(2)
    by (metis append_take_drop_id length_drop length_take add.commute le_diff_conv2 min.absorb2 add_leD1)
  have "b \<noteq> []" using assms(1) len by auto
  then have "shift_down (off + i) (off + len) arr = a @ (take i b @ drop (Suc i) b) @ [last b] @ c"
    using assms(1) len by (simp add: shift_down_def arr last_conv_nth drop_Cons' Cons_nth_drop_Suc [symmetric] nth_append)
  then show "length (shift_down (off + i) (off + len) arr) = length arr"
    "view_of (shift_down (off + i) (off + len) arr) off (len - 1) =
      take i (view_of arr off len) @ drop (Suc i) (view_of arr off len)"
    using assms(1) len by (auto simp: arr)
qed

text \<open>One confirmation: no approver answers to it, or the one that does leaves the view.\<close>

lemma approvals_step:
  assumes "off + len \<le> length arr"
  shows "(\<forall>a \<in> set (view_of arr off len). \<not> confirms_as mainTx t a) \<and>
      approvals mainTx (t # ts) (arr, off, len, num) = approvals mainTx ts (arr, off, len, num) \<or>
    (\<exists>i arr' off'. i < len \<and> confirms_as mainTx t (view_of arr off len ! i) \<and>
      off' + (len - 1) \<le> length arr' \<and>
      view_of arr' off' (len - 1) = take i (view_of arr off len) @ drop (Suc i) (view_of arr off len) \<and>
      approvals mainTx (t # ts) (arr, off, len, num) = approvals mainTx ts (arr', off', len - 1, num + 1))"
proof -
  let ?v = "view_of arr off len"
  let ?hit = "\<lambda>appr. tx_sender t = appr \<and> tx_recipient mainTx = tx_recipient t \<and> Amount (tx_Data t) = 0"
  let ?i = "length (takeWhile (\<lambda>a. \<not> ?hit a) ?v)"
  have lv: "length ?v = len" using assms by simp
  show ?thesis
  proof (cases "?i = length ?v")
    case True
    then have "takeWhile (\<lambda>a. \<not> ?hit a) ?v = ?v"
      by (metis takeWhile_eq_take take_all order_refl)
    then have "\<forall>a \<in> set ?v. \<not> ?hit a" by (simp add: takeWhile_eq_all_conv)
    then show ?thesis using True by (simp add: confirms_as_def Let_def)
  next
    case False
    then have i: "?i < len" using length_takeWhile_le lv by (metis le_neq_implies_less)
    have "?i < length ?v" unfolding lv by (rule i)
    then have hit: "confirms_as mainTx t (?v ! ?i)"
      unfolding confirms_as_def by (rule notnotD [OF nth_length_takeWhile])
    define k where "k = ?i"
    note kdefs = k_def [symmetric]
    show ?thesis
    proof (cases "?i > 0")
      case True
      let ?arr = "shift_down (off + k) (off + len) arr"
      have run: "approvals mainTx (t # ts) (arr, off, len, num) = approvals mainTx ts (?arr, off, len - 1, num + 1)"
        using False True unfolding approvals.simps Let_def kdefs by (simp only: if_False if_True)
      have "off + (len - 1) \<le> length ?arr"
        using view_shift_down(1) [OF i assms] assms unfolding kdefs by simp
      then show ?thesis
        using run i hit view_shift_down(2) [OF i assms] unfolding kdefs by blast
    next
      case z: False
      then have z0: "?i = 0" by simp
      have run: "approvals mainTx (t # ts) (arr, off, len, num) = approvals mainTx ts (arr, off + 1, len - 1, num + 1)"
        using False z unfolding approvals.simps Let_def kdefs by (simp only: if_False if_True)
      have "view_of arr (off + 1) (len - 1) = take 0 ?v @ drop (Suc 0) ?v"
        by (simp add: drop_take add.commute)
      moreover have "off + 1 + (len - 1) \<le> length arr" using assms i by simp
      ultimately show ?thesis using run i hit unfolding z0 by blast
    qed
  qed
qed

lemma length_takeWhile_first:
  assumes "i < length xs" and "\<not> P (xs ! i)" and "\<And>j. j < i \<Longrightarrow> P (xs ! j)"
  shows "length (takeWhile P xs) = i"
  using assms takeWhile_eq_take_P_nth [of i xs P] by simp

lemma approvals_count:
  assumes "off + len \<le> length arr" and "distinct (view_of arr off len)"
  shows "snd (snd (snd (approvals mainTx txs (arr, off, len, num)))) =
    num + card {a \<in> set (view_of arr off len). \<exists>t \<in> set txs. confirms_as mainTx t a}"
  using assms
proof (induction txs arbitrary: arr off len num)
  case Nil
  then show ?case by simp
next
  case (Cons t ts)
  let ?v = "view_of arr off len"
  from approvals_step [OF Cons.prems(1), of mainTx t ts num]
  show ?case
  proof (elim disjE exE conjE)
    assume none: "\<forall>a \<in> set ?v. \<not> confirms_as mainTx t a"
      and eq: "approvals mainTx (t # ts) (arr, off, len, num) = approvals mainTx ts (arr, off, len, num)"
    have "{a \<in> set ?v. \<exists>u \<in> set (t # ts). confirms_as mainTx u a} =
        {a \<in> set ?v. \<exists>u \<in> set ts. confirms_as mainTx u a}" using none by auto
    then show ?thesis unfolding eq using Cons.IH [OF Cons.prems] by simp
  next
    fix i arr' off'
    assume i: "i < len" and hit: "confirms_as mainTx t (?v ! i)" and le: "off' + (len - 1) \<le> length arr'"
      and v': "view_of arr' off' (len - 1) = take i ?v @ drop (Suc i) ?v"
      and eq: "approvals mainTx (t # ts) (arr, off, len, num) = approvals mainTx ts (arr', off', len - 1, num + 1)"
    have il: "i < length ?v" using i Cons.prems(1) by simp
    have split: "?v = take i ?v @ ?v ! i # drop (Suc i) ?v" by (rule id_take_nth_drop [OF il])
    have dist: "distinct (take i ?v @ ?v ! i # drop (Suc i) ?v)"
      using Cons.prems(2) by (simp only: split [symmetric])
    then have d': "distinct (view_of arr' off' (len - 1))" unfolding v' by simp
    have "set ?v = set (take i ?v @ ?v ! i # drop (Suc i) ?v)" by (simp only: split [symmetric])
    also have "\<dots> = insert (?v ! i) (set (take i ?v @ drop (Suc i) ?v))" by simp
    finally have set_v: "set ?v = insert (?v ! i) (set (view_of arr' off' (len - 1)))" by (simp only: v')
    have notin: "?v ! i \<notin> set (view_of arr' off' (len - 1))" using dist v' by auto
    have "{a \<in> set ?v. \<exists>u \<in> set (t # ts). confirms_as mainTx u a} =
        insert (?v ! i) {a \<in> set (view_of arr' off' (len - 1)). \<exists>u \<in> set ts. confirms_as mainTx u a}"
      using hit unfolding set_v by (auto simp: confirms_as_def)
    moreover have "?v ! i \<notin> {a \<in> set (view_of arr' off' (len - 1)). \<exists>u \<in> set ts. confirms_as mainTx u a}"
      using notin by simp
    ultimately show ?thesis unfolding eq using Cons.IH [OF le d', of "num + 1"] by simp
  qed
qed

section \<open>Properties\<close>

text \<open>
  C15: a transaction that is processed successfully takes its charged fee, and nothing else, out of
  the coins in accounts, stakes and rewards: whatever it moves between them stays inside.  The
  charged fee is gas price times gas usage, except for deposits to a rewards account and for
  delegated accounts from 512 on, which pay nothing.  The ledger stays well formed.
\<close>

theorem ProcessTransaction_takes_charged_fee:
  assumes "accounts_ok (w_accounts w)" and "staking_ok (w_staking w)"
    and "pool_all tx_wt (PoolTxMultiSign w)" and "tx_wt tx"
    and "ProcessTransaction E tx height w = (Ok (), w')"
  shows "coins w' = coins w - charged_fee tx \<and> accounts_ok (w_accounts w') \<and> staking_ok (w_staking w')"
  using tripleD [OF ledger_ProcessTransaction [OF assms(4)] _ assms(5), of "coins w"] assms(1-3)
  by (simp add: ledger_at_def)

definition transfer_tx :: "addr20 \<Rightarrow> addr20 \<Rightarrow> i64 \<Rightarrow> Transaction" where
  "transfer_tx a b x = zero_Transaction\<lparr>tx_Param := zero_TxParam\<lparr>Sender := \<lparr>addr_ByteValue = a, addr_Primary = True\<rparr>\<rparr>,
     tx_Data := zero_TxData\<lparr>Recipient := \<lparr>addr_ByteValue = b, addr_Primary = True\<rparr>, Amount := x\<rparr>,
     GasPrice := 2, GasUsage := 3\<rparr>"

definition ledger_world :: "(addr20, Account) gomap \<Rightarrow> TransactionPool \<Rightarrow> memdb world" where
  "ledger_world accs ms = \<lparr>w_db = [], w_accounts = \<lparr>AllAccounts = accs, acs_Height = 0\<rparr>, w_staking = replicate 256 [],
     PoolsTx = NewTransactionPool 10 0, PoolTxEscrow = NewTransactionPool 10 1, PoolTxMultiSign = ms\<rparr>"

definition rich_accounts :: "(addr20, Account) gomap" where
  "rich_accounts = [(replicate 20 1, zero_Account\<lparr>Balance := 100, acc_Address := replicate 20 1\<rparr>)]"

lemma transfer_runs:
  "\<exists>w'. ProcessTransaction plain_env (transfer_tx (replicate 20 1) (replicate 20 2) 50) 7
    (ledger_world rich_accounts (NewTransactionPool 10 2)) = (Ok (), w')"
proof -
  have "fst (ProcessTransaction plain_env (transfer_tx (replicate 20 1) (replicate 20 2) 50) 7
    (ledger_world rich_accounts (NewTransactionPool 10 2))) = Ok ()" by code_simp
  then show ?thesis by (metis prod.collapse)
qed

theorem ProcessTransaction_takes_charged_fee_witness:
  "\<exists>w'. ProcessTransaction plain_env (transfer_tx (replicate 20 1) (replicate 20 2) 50) 7
      (ledger_world rich_accounts (NewTransactionPool 10 2)) = (Ok (), w') \<and> coins w' = 94"
proof -
  let ?tx = "transfer_tx (replicate 20 1) (replicate 20 2) 50"
  let ?w = "ledger_world rich_accounts (NewTransactionPool 10 2)"
  have ok: "accounts_ok (w_accounts ?w)" "staking_ok (w_staking ?w)" "pool_all tx_wt (PoolTxMultiSign ?w)" "tx_wt ?tx"
    by (simp_all add: ledger_world_def rich_accounts_def accounts_ok_def staking_ok_def pool_all_def
        NewTransactionPool_def tx_wt_def transfer_tx_def)
  have "coins ?w = 100" "charged_fee ?tx = 6" by code_simp+
  then show ?thesis using ProcessTransaction_takes_charged_fee [OF ok] transfer_runs by fastforce
qed


definition guarded_account :: Account where
  "guarded_account = zero_Account\<lparr>Balance := 100, acc_Address := replicate 20 1, MultiSignNumber := 2,
     MultiSignAddresses := [replicate 20 3, replicate 20 4, replicate 20 5]\<rparr>"

definition main_tx :: Transaction where
  "main_tx = (transfer_tx (replicate 20 1) (replicate 20 2) 50)\<lparr>tx_Hash := replicate 32 9\<rparr>"

definition confirm_tx :: "byte \<Rightarrow> Transaction" where
  "confirm_tx b = (transfer_tx (replicate 20 b) (replicate 20 2) 0)\<lparr>tx_Hash := replicate 32 b,
     tx_Param := zero_TxParam\<lparr>Sender := \<lparr>addr_ByteValue = replicate 20 b, addr_Primary = True\<rparr>,
       MultiSignTx := replicate 32 9\<rparr>\<rparr>"


text \<open>
  processing a confirmation rewrites the approvers stored with the account.  When two approvals
  are needed and the approver at a position \<open>i\<close> after the first confirms, the transaction keeps
  waiting, and the approver is removed from the stored list, its place taken by those that follow
  and the last one doubled: its confirmation does not count when the next one arrives.
\<close>

lemma confirmation_removes_approver:
  assumes "MultiSignTx (tx_Param t) = tx_Hash m" and "tx_Hash m \<noteq> ZerosHash"
    and "GetInt64FromByte (tx_Hash m) = Ok key"
    and "PeekTransactions MaxTransactionInPool key (PoolTxMultiSign w) = [m, t]"
    and "sint (height - tx_Height m) \<le> sint MaxTransactionInMultiSigPool"
    and "length (tx_sender m) = 20" and "map_of (AllAccounts (w_accounts w)) (tx_sender m) = Some acc"
    and "unat (MultiSignNumber acc) = 2" and "distinct (MultiSignAddresses acc)"
    and "tx_sender m \<notin> set (MultiSignAddresses acc)"
    and "0 < i" and "i < length (MultiSignAddresses acc)"
    and "confirms_as m t (MultiSignAddresses acc ! i)"
  shows "\<exists>w'. ProcessTransactionsMultiSign E t height w = (Ok (), w') \<and>
    MultiSignAddresses (mgetd zero_Account (AllAccounts (w_accounts w')) (tx_sender m)) =
      take i (MultiSignAddresses acc) @ drop (Suc i) (MultiSignAddresses acc) @ [last (MultiSignAddresses acc)]"
proof -
  let ?as = "MultiSignAddresses acc"
  let ?arr = "take i ?as @ drop (Suc i) ?as @ [last ?as]"
  have miss: "approvals m (m # ts) (?as, 0, length ?as, 0) = approvals m ts (?as, 0, length ?as, 0)" for ts
    using assms(10) approvals_step [of 0 "length ?as" ?as m m ts 0]
    by (auto simp: confirms_as_def dest!: nth_mem)
  have tw: "length (takeWhile (\<lambda>a. \<not> (tx_sender t = a \<and> tx_recipient m = tx_recipient t \<and>
      Amount (tx_Data t) = 0)) ?as) = i"
    using assms(9,12,13) by (intro length_takeWhile_first) (auto simp: confirms_as_def nth_eq_iff_index_eq)
  have "shift_down i (length ?as) ?as = ?arr"
    using assms(12) by (cases ?as rule: rev_cases) (auto simp: shift_down_def)
  then have app: "approvals m [m, t] (?as, 0, length ?as, 0) = (?arr, 0, length ?as - 1, 1)"
    unfolding miss using tw assms(11,12) by (simp add: Let_def)
  have ne: "length (Transaction_GetBytes m) \<noteq> 0" by (simp add: Transaction_GetBytes_def BytesToLenAndBytes_def)
  let ?w' = "w_accounts_update (set_approvers (tx_sender m) ?arr) w"
  have "ProcessTransactionsMultiSign E t height w = (Ok (), ?w')"
    using assms(1-8) app ne
    by (simp add: ProcessTransactionsMultiSign_def Let_def sbind_def slift_def sget_def sread_eq supd_def
        sret_def mgetd_def)
  moreover have "MultiSignAddresses (mgetd zero_Account (AllAccounts (w_accounts ?w')) (tx_sender m)) = ?arr"
    using assms(6,7) by (simp add: set_approvers_def copy_into_def Let_def)
  ultimately show ?thesis by blast
qed

definition confirming_pool :: TransactionPool where
  "confirming_pool = snd (AddTransaction (confirm_tx 4) (replicate 32 9)
     (snd (AddTransaction main_tx (replicate 32 9) (NewTransactionPool 10 2))))"

lemma confirming_pool_peek:
  "PeekTransactions MaxTransactionInPool 0x0909090909090909 confirming_pool = [main_tx, confirm_tx 4]"
  by code_simp

lemma confirmation_removes_approver_example:
  "\<exists>w'. ProcessTransactionsMultiSign plain_env (confirm_tx 4) 7
      (ledger_world [(replicate 20 1, guarded_account)] confirming_pool) = (Ok (), w') \<and>
    MultiSignAddresses (mgetd zero_Account (AllAccounts (w_accounts w')) (replicate 20 1)) =
      [replicate 20 3, replicate 20 5, replicate 20 5]"
proof -
  let ?w = "ledger_world [(replicate 20 1, guarded_account)] confirming_pool"
  have "PeekTransactions MaxTransactionInPool 0x0909090909090909 (PoolTxMultiSign ?w) = [main_tx, confirm_tx 4]"
    using confirming_pool_peek by (simp add: ledger_world_def)
  note run = confirmation_removes_approver [of "confirm_tx 4" main_tx, OF _ _ _ this, of 7 guarded_account 1 plain_env]
  have s: "tx_sender main_tx = replicate 20 1" by (simp add: main_tx_def transfer_tx_def)
  have "\<exists>w'. ProcessTransactionsMultiSign plain_env (confirm_tx 4) 7 ?w = (Ok (), w') \<and>
    MultiSignAddresses (mgetd zero_Account (AllAccounts (w_accounts w')) (tx_sender main_tx)) =
      take 1 (MultiSignAddresses guarded_account) @ drop (Suc 1) (MultiSignAddresses guarded_account) @
        [last (MultiSignAddresses guarded_account)]"
    by (rule run) (simp add: ledger_world_def s | code_simp)+
  then show ?thesis unfolding s by (simp add: guarded_account_def)
qed

end
