(* ===== verification/Chain.thy ===== *)
theory Chain
  imports Ledger
begin

text \<open>
  Acceptance of a block: \<^verbatim>\<open>src/blocks/processBlock.go\<close> and the registration of public keys in
  \<^verbatim>\<open>processPubKey.go\<close>.  Two calls of \<^verbatim>\<open>CheckBlockAndTransferFunds\<close> are arguments of its model: the
  evaluation of smart contracts by the virtual machine, and the change of encryption, which acts on
  the wallet and a channel to another goroutine.

  The lemmas: what an accepted block does to the coins of the node, whatever the contracts did.
\<close>

section \<open>Public keys of the transactions of a block\<close>

definition StoreAddress :: "'d env \<Rightarrow> Address \<Rightarrow> PubKey \<Rightarrow> ('d, unit) op" where
  "StoreAddress E mainAddress pk =
     sbind (sread (FindAddressForMainAddress (e_kv E) (e_dec E) mainAddress (pk_Address pk))) (\<lambda>index.
     if sint index \<ge> 0 then serr ''address just stored before''
     else AddPubKeyToAddress (e_kv E) (e_enc E) (e_H256 E) (e_H160 E) pk mainAddress)"

definition StorePubKey :: "'d env \<Rightarrow> PubKey \<Rightarrow> ('d, unit) op" where
  "StorePubKey E pk =
     sbind (slift (PubKeyToAddress (e_H160 E) (pk_ByteValue pk) (pk_Primary pk))) (\<lambda>a.
     if addr_ByteValue a \<noteq> addr_ByteValue (pk_Address pk)
     then serr ''address is different in pubkey and recovered from bytes''
     else
     sbind (slift (e_json E pk)) (\<lambda>pkm.
     DB_Put (e_kv E) (PubKeyMarshalDBPrefix @ addr_ByteValue a) pkm))"

definition StorePubKeyInPatriciaTrie :: "'d env \<Rightarrow> PubKey \<Rightarrow> ('d, unit) op" where
  "StorePubKeyInPatriciaTrie E pk =
     sbind (scatch (sread (LoadAddresses (e_kv E) (pk_MainAddress pk)))) (\<lambda>r.
     sbind (case r of Ok as \<Rightarrow> sret as
       | Err e \<Rightarrow> if e \<noteq> ''key not found'' then serr e else sret []
       | Panic \<Rightarrow> slift Panic) (\<lambda>addresses.
     if length addresses = 0
     then sbind (CreateAddressFromFirstPubKey (e_kv E) (e_enc E) (e_H256 E) (e_H160 E) pk) (\<lambda>mainAddress.
       if addr_ByteValue (pk_MainAddress pk) \<noteq> addr_ByteValue mainAddress
       then serr ''error with creation of address from first pub key'' else sret ())
     else if \<exists>a \<in> set addresses. addr_ByteValue a = addr_ByteValue (pk_Address pk) then sret ()
     else
     sbind (slift (PubKeyToAddress (e_H160 E) (pk_ByteValue pk) (pk_Primary pk))) (\<lambda>address.
     let addresses' = addresses @ [address] in
     sbind (slift (BuildAddressTree (e_H256 E) (pk_MainAddress pk) addresses')) (\<lambda>tree.
     sbind (slift (check_in_tree (e_H256 E) tree ''pubkey patricia trie fails to add pubkey'' addresses')) (\<lambda>_.
     AddressTree_StoreTree (e_kv E) (e_enc E) tree (pk_MainAddress pk))))))"

text \<open>The loop returns, without an error, at the first transaction that carries no key.\<close>

fun pubkey_loop :: "'d env \<Rightarrow> hash list \<Rightarrow> (('d, 'z) world_scheme, unit) op" where
  "pubkey_loop E [] = sret ()"
| "pubkey_loop E (txh # txhs) =
     sbind (LoadPoolTx E TransactionPoolHashesDBPrefix txh) (\<lambda>t.
     let pk = Pubkey (tx_Data t) in
     if addr_ByteValue (pk_MainAddress pk) = replicate AddressLength 0 then sret ()
     else
     sbind (on_db (StorePubKey E pk)) (\<lambda>_.
     sbind (on_db (StorePubKeyInPatriciaTrie E pk)) (\<lambda>_.
     pubkey_loop E txhs)))"

definition ProcessBlockPubKey :: "'d env \<Rightarrow> Block \<Rightarrow> (('d, 'z) world_scheme, unit) op" where
  "ProcessBlockPubKey E block = pubkey_loop E (TransactionsHashes block)"

section \<open>Checking the transfers of a block\<close>

definition IsAllTransactions :: "'d kv \<Rightarrow> Block \<Rightarrow> 'd \<Rightarrow> bytes list result" where
  "IsAllTransactions K block d =
     foldr (\<lambda>hash r. rbind (CheckFromDBPoolTx K TransactionPoolHashesDBPrefix hash d) (\<lambda>isKey.
       rbind r (\<lambda>hs. Ok (if isKey then hs else hash # hs)))) (TransactionsHashes block) (Ok [])"

text \<open>A transaction that is not in the pool is taken from the chain while the node is syncing.\<close>

definition load_for_check :: "'d env \<Rightarrow> bytes \<Rightarrow> (('d, 'z) world_scheme, Transaction) op" where
  "load_for_check E hash =
     sbind (scatch (LoadPoolTx E TransactionPoolHashesDBPrefix hash)) (\<lambda>r.
     case r of
       Ok tx \<Rightarrow> sret tx
     | Err e \<Rightarrow>
         sbind (sdrop (on_db (RemoveTransactionFromDBbyHash (e_kv E) TransactionPoolHashesDBPrefix hash))) (\<lambda>_.
         if e_syncing E
         then sbind (LoadPoolTx E TransactionDBPrefix hash) (\<lambda>tx.
           sbind (on_db (StoreToDBPoolTx (e_kv E) TransactionPoolHashesDBPrefix tx)) (\<lambda>_. sret tx))
         else serr e)
     | Panic \<Rightarrow> slift Panic)"

definition reject :: "'d env \<Rightarrow> Transaction \<Rightarrow> i64 \<Rightarrow> string \<Rightarrow> (('d, 'z) world_scheme, 'a) op" where
  "reject E tx height e = sbind (RemoveBadTransactionByHash E (tx_Hash tx) height) (\<lambda>_. serr e)"

text \<open>The running copies of the accounts that the loop keeps beside the real ones.\<close>

record check_state =
  cs_accounts :: "(addr20, Account) gomap"
  cs_staking :: "(addr20, StakingAccount) gomap"
  cs_totalFee :: i64

definition check_staking_part ::
  "'d env \<Rightarrow> i64 \<Rightarrow> Transaction \<Rightarrow> int \<Rightarrow> check_state \<Rightarrow> (('d, 'z) world_scheme, check_state) op" where
  "check_staking_part E height poolTx n cs =
     (let fee = tx_fee poolTx; amount = Amount (tx_Data poolTx); address = tx_sender poolTx in
      sbind (sread (\<lambda>w. GetStakingAccountByAddressBytes address (n mod 256) (w_staking w))) (\<lambda>sa0.
      let sa1 = (if sa_Address sa0 \<noteq> address
            then sa0\<lparr>sa_Address := copy_into (sa_Address sa0) address,
              sa_DelegatedAccount := copy_into (sa_DelegatedAccount sa0) (tx_recipient poolTx)\<rparr>
            else sa0);
          sa2 = (case map_of (cs_staking cs) (sa_Address sa1) of Some sa \<Rightarrow> sa | None \<Rightarrow> sa1);
          sa3 = sa2\<lparr>StakedBalance := StakedBalance sa2 + amount,
            StakingRewards := StakingRewards sa2 + fee\<rparr>;
          cs' = cs\<lparr>cs_staking := mput (sa_Address sa3) sa3 (cs_staking cs)\<rparr>
      in
      sbind (sread (\<lambda>w. CheckStakingTransaction poolTx (StakedBalance sa3) (StakingRewards sa3)
        (w_accounts w) (w_staking w))) (\<lambda>ret.
      if \<not> ret then reject E poolTx height ''staking transactions checking fails: CheckBlockTransfers''
      else sret cs')))"

definition check_transfer ::
  "'d env \<Rightarrow> i64 \<Rightarrow> bytes \<Rightarrow> check_state \<Rightarrow> (('d, 'z) world_scheme, check_state) op" where
  "check_transfer E height hash cs =
     sbind (load_for_check E hash) (\<lambda>poolTx.
     sbind (CheckTransactionInDBAndInMarkleTrie E hash) (\<lambda>_.
     let fee = tx_fee poolTx;
         cs1 = cs\<lparr>cs_totalFee := cs_totalFee cs + fee\<rparr>;
         total_amount = fee + Amount (tx_Data poolTx);
         address = tx_sender poolTx
     in
     sbind (slift (tx_target poolTx)) (\<lambda>(n, err).
     sbind (if err = None \<and> n < 512 then check_staking_part E height poolTx n cs1 else sret cs1) (\<lambda>cs2.
     sbind (sread (\<lambda>w. GetAccountByAddressBytes address (w_accounts w))) (\<lambda>acc0.
     if acc_Address acc0 \<noteq> address
     then reject E poolTx height ''no account found in check block transafer: CheckBlockTransfers''
     else if MultiSignTx (tx_Param poolTx) \<noteq> ZerosHash \<and>
       (sint (Amount (tx_Data poolTx)) > 0 \<or> length (OptData (tx_Data poolTx)) > 0 \<or>
        sint (tx_LockedAmount (tx_Data poolTx)) > 0 \<or> unat (tx_MultiSignNumber (tx_Data poolTx)) > 0)
     then reject E poolTx height ''transaction which confirms in multi signature account should have amount == 0''
     else
     let acc1 = (case map_of (cs_accounts cs2) (acc_Address acc0) of Some a \<Rightarrow> a | None \<Rightarrow> acc0);
         acc2 = acc1\<lparr>Balance := Balance acc1 - total_amount\<rparr>;
         cs3 = cs2\<lparr>cs_accounts := mput (acc_Address acc2) acc2 (cs_accounts cs2)\<rparr>
     in if sint (Balance acc2) < 0
        then reject E poolTx height ''not enough funds on account: CheckBlockTransfers''
        else sret cs3)))))"

fun check_loop :: "'d env \<Rightarrow> i64 \<Rightarrow> hash list \<Rightarrow> check_state \<Rightarrow> (('d, 'z) world_scheme, check_state) op" where
  "check_loop E height [] cs = sret cs"
| "check_loop E height (hash # hs) cs = sbind (check_transfer E height hash cs) (check_loop E height hs)"

definition CheckBlockTransfers :: "'d env \<Rightarrow> Block \<Rightarrow> Block \<Rightarrow> (('d, 'z) world_scheme, i64 \<times> i64) op" where
  "CheckBlockTransfers E block lastBlock =
     (let lastSupply = Supply (bl_BaseBlock lastBlock) in
      sbind (check_loop E (bh_Height (GetHeader block)) (TransactionsHashes block)
        \<lparr>cs_accounts = [], cs_staking = [], cs_totalFee = 0\<rparr>) (\<lambda>cs.
      let reward = GetReward lastSupply in
      if lastSupply + reward \<noteq> Supply (bl_BaseBlock block)
      then serr ''block supply checking fails: CheckBlockTransfers''
      else sret (reward, cs_totalFee cs)))"

section \<open>Processing the transfers of a block\<close>

definition or_reject :: "'d env \<Rightarrow> Transaction \<Rightarrow> i64 \<Rightarrow> (('d, 'z) world_scheme, unit) op \<Rightarrow> (('d, 'z) world_scheme, unit) op" where
  "or_reject E tx height m = sbind (scatch m) (\<lambda>r. case r of
     Ok _ \<Rightarrow> sret () | Err e \<Rightarrow> reject E tx height e | Panic \<Rightarrow> slift Panic)"

definition process_one :: "'d env \<Rightarrow> i64 \<Rightarrow> bytes \<Rightarrow> (('d, 'z) world_scheme, unit) op" where
  "process_one E height hash =
     sbind (CheckTransactionInDBAndInMarkleTrie E hash) (\<lambda>_.
     sbind (LoadPoolTx E TransactionPoolHashesDBPrefix hash) (\<lambda>poolTx.
     if sint (tx_Height poolTx) > sint height
     then reject E poolTx height ''transaction height is wrong: ProcessBlockTransfers''
     else
     sbind (or_reject E poolTx height (ProcessTransaction E poolTx height)) (\<lambda>_.
     or_reject E poolTx height (ProcessTransactionsMultiSign E poolTx height))))"

text \<open>The shares of those who stake with the delegated account, and what is left by rounding.\<close>

fun distribute :: "'d env \<Rightarrow> i64 \<Rightarrow> int \<Rightarrow> i64 \<Rightarrow> f64 \<Rightarrow> Account list \<Rightarrow> i64 \<Rightarrow> (('d, 'z) world_scheme, i64) op" where
  "distribute E height n reward sumv [] rest = sret rest"
| "distribute E height n reward sumv (acc # accs) rest =
     (if sint (Balance acc) > 0
      then let userReward = f64_to_i64 (f64_div (f64_mul (i64_to_f64 reward) (i64_to_f64 (Balance acc))) sumv)
        in sbind (on_staking (Reward (acc_Address acc) userReward height n (e_now E))) (\<lambda>_.
           distribute E height n reward sumv accs (rest - userReward))
      else distribute E height n reward sumv accs rest)"

definition reward_block :: "'d env \<Rightarrow> Block \<Rightarrow> i64 \<Rightarrow> (('d, 'z) world_scheme, unit) op" where
  "reward_block E block reward =
     (let height = bh_Height (GetHeader block); addr = addr_ByteValue (OperatorAccount (GetHeader block)) in
      sbind (slift (IntDelegatedAccountFromAddress (bh_DelegatedAccount (GetHeader block)))) (\<lambda>(n, err).
      if err \<noteq> None \<or> n < 1 \<or> n > 255 then serr ''wrong delegated account in block: ProcessBlockTransfers''
      else
      sbind (sread (\<lambda>w. GetStakedInDelegatedAccount n (w_staking w))) (\<lambda>(staked, sumv, _).
      if f64_le sumv (Fin 0)
      then serr ''no staked amount in delegated account which was rewarded: ProcessBlockTransfers''
      else
      let rewardPerc = RewardPercentage (bl_BaseBlock block) in
      if sint rewardPerc > 500 then serr ''reward has to be smaller than 50''
      else
      let rewardOper = f64_to_i64 (f64_div (f64_mul (i64_to_f64 reward) (i64_to_f64 (scast rewardPerc))) (Fin 1000))
      in
      sbind (on_staking (Reward addr rewardOper height n (e_now E))) (\<lambda>_.
      let reward' = reward - rewardOper in
      sbind (distribute E height n reward' sumv staked reward') (\<lambda>rest.
      if sint rest > 0 then on_staking (Reward addr rest height n (e_now E))
      else if sint rest < 0 then serr ''this shouldn't happen anytime: ProcessBlockTransfers''
      else sret ())))))"

definition ProcessBlockTransfers :: "'d env \<Rightarrow> Block \<Rightarrow> i64 \<Rightarrow> (('d, 'z) world_scheme, unit) op" where
  "ProcessBlockTransfers E block reward =
     (let height = bh_Height (GetHeader block) in
      sbind (sdrop (ProcessTransactionsEscrow E height)) (\<lambda>_.
      sbind (sfor (process_one E height) (TransactionsHashes block)) (\<lambda>_.
      reward_block E block reward)))"

section \<open>Accepting a block\<close>

definition MinStakingForNode :: i64 where "MinStakingForNode = 100000000000000"

definition RemoveAllTransactionsRelatedToBlock :: "'d env \<Rightarrow> Block \<Rightarrow> (('d, 'z) world_scheme, unit) op" where
  "RemoveAllTransactionsRelatedToBlock E newBlock =
     sfor (\<lambda>hash.
       sbind (on_pool (RemoveTransactionByHash hash)) (\<lambda>_.
       sdrop (on_db (RemoveTransactionFromDBbyHash (e_kv E) TransactionPoolHashesDBPrefix hash))))
       (TransactionsHashes newBlock)"

text \<open>\<^verbatim>\<open>defer\<close>: the deferred call runs on every way out, and a panic in it is what remains.\<close>

definition sdefer :: "('s, unit) op \<Rightarrow> ('s, 'a) op \<Rightarrow> ('s, 'a) op" where
  "sdefer f m s = (case m s of (r, s') \<Rightarrow> (case f s' of
     (Panic, s'') \<Rightarrow> (Panic, s'') | (_, s'') \<Rightarrow> (r, s'')))"

text \<open>The transactions of the block move from the pool to the chain.\<close>

definition settle_one :: "'d env \<Rightarrow> hash \<Rightarrow> (('d, 'z) world_scheme, unit) op" where
  "settle_one E h =
     sbind (scatch (LoadPoolTx E TransactionPoolHashesDBPrefix h)) (\<lambda>r.
     case r of
       Ok tx \<Rightarrow>
         sbind (on_db (StoreToDBPoolTx (e_kv E) TransactionDBPrefix tx)) (\<lambda>_.
         sbind (on_pool (RemoveTransactionByHash h)) (\<lambda>_.
         sdrop (on_db (RemoveFromDBPoolTx (e_kv E) TransactionPoolHashesDBPrefix tx))))
     | Err e \<Rightarrow> sret ()
     | Panic \<Rightarrow> slift Panic)"

text \<open>The tree is a pointer: a nil tree is refused.\<close>

definition store_tree :: "'d env \<Rightarrow> MerkleTree option \<Rightarrow> i64 \<Rightarrow> (('d, 'z) world_scheme, unit) op" where
  "store_tree E merkleTrie height = (case merkleTrie of
     None \<Rightarrow> serr ''merkle tree is nil''
   | Some t \<Rightarrow> on_db (StoreTree (e_kv E) (e_enc E) t height))"

text \<open>
  \<open>contracts\<close> is \<^verbatim>\<open>EvaluateSmartContracts\<close> and \<open>encryption\<close> is \<^verbatim>\<open>ProcessBlockEncryption\<close>.  The block is
  passed by pointer: the value returned is the block with its accumulated fee.
\<close>

definition CheckBlockAndTransferFunds ::
  "'d env \<Rightarrow> (Block \<Rightarrow> (('d, 'z) world_scheme, bool) op) \<Rightarrow> (Block \<Rightarrow> Block \<Rightarrow> (('d, 'z) world_scheme, unit) op) \<Rightarrow>
   Block \<Rightarrow> Block \<Rightarrow> MerkleTree option \<Rightarrow> (('d, 'z) world_scheme, Block) op" where
  "CheckBlockAndTransferFunds E contracts encryption newBlock lastBlock merkleTrie =
     sdefer (RemoveAllTransactionsRelatedToBlock E newBlock) (
     sbind (slift (IntDelegatedAccountFromAddress (bh_DelegatedAccount (GetHeader newBlock)))) (\<lambda>(n, err).
     if err \<noteq> None \<or> n < 1 \<or> n > 255 then serr ''wrong delegated account: CheckBlockAndTransferFunds''
     else
     sbind (sread (\<lambda>w. GetStakedInDelegatedAccount n (w_staking w))) (\<lambda>(_, sumStaked, opAcc).
     if sint (f64_to_i64 sumStaked) < sint MinStakingForNode \<or>
        acc_Address opAcc \<noteq> addr_ByteValue (OperatorAccount (GetHeader newBlock))
     then serr ''not enough staked coins to be a node or not valid operetional account: CheckBlockAndTransferFunds''
     else
     sbind (CheckBlockTransfers E newBlock lastBlock) (\<lambda>(reward, totalFee).
     let block = newBlock\<lparr>BlockFee := totalFee + BlockFee lastBlock\<rparr> in
     sbind (contracts block) (\<lambda>evaluated.
     if \<not> evaluated then serr ''evaluation of smart contracts in block fails: CheckBlockAndTransferFunds''
     else
     sbind (sget (\<lambda>w. coins w + reward + BlockFee lastBlock)) (\<lambda>available.
     if available \<noteq> Supply (bl_BaseBlock block)
     then serr ''block supply checking fails vs account balances: CheckBlockAndTransferFunds''
     else
     sbind (ProcessBlockPubKey E block) (\<lambda>_.
     sbind (sread (\<lambda>w. BaseHeader_Verify (e_kv E) (e_unjson E) (e_oqs_len E) (e_oqs_verify E) (e_H256 E)
       (e_ec E) (e_pref E) (e_coin E) (w_db w) (GetHeader block))) (\<lambda>verified.
     if \<not> verified then serr ''header fails to verify: CheckBlockAndTransferFunds''
     else
     sbind (store_tree E merkleTrie (bh_Height (GetHeader block))) (\<lambda>_.
     sbind (ProcessBlockTransfers E block reward) (\<lambda>_.
     sbind (sfor (settle_one E) (TransactionsHashes block)) (\<lambda>_.
     sbind (sdrop (encryption block lastBlock)) (\<lambda>_.
     sret block))))))))))))"

section \<open>Rewards\<close>

text \<open>Whatever the rounding of the shares does, the operator gets the difference.\<close>

lemma ledger_distribute:
  "triple (ledger_at t :: ('d, 'z) world_scheme \<Rightarrow> bool) (distribute E height n reward sumv accs rest)
    (\<lambda>rest'. ledger_at (t + rest - rest'))"
proof (induction accs arbitrary: t rest)
  case Nil
  then show ?case by (simp add: triple_sret)
next
  case (Cons acc accs)
  let ?u = "f64_to_i64 (f64_div (f64_mul (i64_to_f64 reward) (i64_to_f64 (Balance acc))) sumv)"
  have "t + ?u + (rest - ?u) = t + rest" by simp
  then have step: "triple (ledger_at (t + ?u) :: ('d, 'z) world_scheme \<Rightarrow> bool) (distribute E height n reward sumv accs (rest - ?u))
      (\<lambda>rest'. ledger_at (t + rest - rest'))"
    using Cons.IH [of "t + ?u" "rest - ?u"] by simp
  show ?case
    using Cons.IH [of t rest] triple_bind [OF ledger_Reward step]
    by (simp add: Let_def)
qed

lemma ledger_reward_block:
  "triple (ledger_at t :: ('d, 'z) world_scheme \<Rightarrow> bool) (reward_block E block reward) (\<lambda>_. ledger_at (t + reward))"
proof -
  let ?ro = "f64_to_i64 (f64_div (f64_mul (i64_to_f64 reward)
    (i64_to_f64 (scast (RewardPercentage (bl_BaseBlock block))))) (Fin 1000))"
  have "t + ?ro + (reward - ?ro) = t + reward" by simp
  then have dist: "triple (ledger_at (t + ?ro) :: ('d, 'z) world_scheme \<Rightarrow> bool) (distribute E height n (reward - ?ro) sumv staked (reward - ?ro))
      (\<lambda>rest. ledger_at (t + reward - rest))" for height n sumv staked
    using ledger_distribute [of "t + ?ro" E height n "reward - ?ro" sumv staked "reward - ?ro"] by simp
  have last: "triple (ledger_at (t + reward - rest) :: ('d, 'z) world_scheme \<Rightarrow> bool)
      (if sint rest > 0 then on_staking (Reward a rest height n now)
       else if sint rest < 0 then serr e else sret ()) (\<lambda>_. ledger_at (t + reward))"
    for rest a height n now e
  proof (cases "sint rest = 0")
    case True
    then have "rest = 0" by (simp add: sint_i64_eq_iff)
    then show ?thesis by (simp add: triple_sret)
  next
    case False
    then show ?thesis
      using ledger_Reward [of "t + reward - rest" a rest height n now] by (auto intro: triple_serr)
  qed
  show ?thesis
    unfolding reward_block_def Let_def
    by (auto intro!: triple_bind [where R = "\<lambda>_. ledger_at t", OF triple_slift]
        triple_bind [where R = "\<lambda>_. ledger_at t", OF triple_sread] triple_serr
        triple_bind [OF ledger_Reward triple_bind [OF dist last]] split: prod.split)
qed

section \<open>Transactions read back have addresses of 20 bytes\<close>

lemma Address_Init_length: "Address_Init zero_Address b = Ok a \<Longrightarrow> length (addr_ByteValue a) = 20"
  by (auto simp: Address_Init_def zero_Address_def split: if_splits)

lemma TxParam_GetFromBytes_sender:
  "TxParam_GetFromBytes b = Ok (tp, r) \<Longrightarrow> length (addr_ByteValue (Sender tp)) = 20"
  by (cases "BytesWithLenToBytes (drop 33 b)")
    (auto simp: TxParam_GetFromBytes_def rbind_Ok_iff BytesToAddress_def Let_def
      dest!: Address_Init_length split: if_splits)

lemma TxData_GetFromBytes_recipient:
  "TxData_GetFromBytes H160 ec b = Ok (td, r) \<Longrightarrow> length (addr_ByteValue (Recipient td)) = 20"
  by (auto simp: TxData_GetFromBytes_def TxData_read_body_def rbind_Ok_iff BytesToAddress_def Let_def
      dest!: Address_Init_length split: if_splits)

lemma Transaction_GetFromBytes_wt:
  "Transaction_GetFromBytes H160 ec b = Ok (tx, r) \<Longrightarrow> tx_wt tx"
  by (auto simp: Transaction_GetFromBytes_def rbind_Ok_iff tx_wt_def Let_def
      dest: TxParam_GetFromBytes_sender TxData_GetFromBytes_recipient split: if_splits)

text \<open>The transaction the database has under a hash, and the one the pool part of it has.\<close>

definition stored_tx :: "'d env \<Rightarrow> bytes \<Rightarrow> 'd \<Rightarrow> bytes \<Rightarrow> Transaction option" where
  "stored_tx E prefix d hash = (case fst (LoadFromDBPoolTx (e_kv E) (e_H160 E) (e_ec E) prefix hash d) of
     Ok tx \<Rightarrow> Some tx | _ \<Rightarrow> None)"

abbreviation pooled_tx :: "'d env \<Rightarrow> 'd \<Rightarrow> bytes \<Rightarrow> Transaction option" where
  "pooled_tx E \<equiv> stored_tx E TransactionPoolHashesDBPrefix"

lemma LoadFromDBPoolTx_Ok:
  assumes "LoadFromDBPoolTx K H160 ec prefix hash d = (Ok tx, d')"
  shows "d' = d \<and> tx_wt tx"
  using assms Transaction_GetFromBytes_wt
  by (fastforce simp: LoadFromDBPoolTx_def elim!: sbind_OkE split: if_splits prod.splits)

lemma LoadPoolTx_Ok:
  assumes "LoadPoolTx E prefix hash w = (Ok tx, w')"
  shows "w' = w \<and> stored_tx E prefix (w_db w) hash = Some tx \<and> tx_wt tx"
  using assms LoadFromDBPoolTx_Ok
  by (fastforce simp: LoadPoolTx_def zoom_Ok stored_tx_def)

lemma LoadPoolTx_chain_Ok: "LoadPoolTx E prefix hash w = (Ok tx, w') \<Longrightarrow> w' = w"
  using LoadFromDBPoolTx_Ok by (fastforce simp: LoadPoolTx_def zoom_Ok)

lemma CheckTransactionInDB_Ok: "CheckTransactionInDBAndInMarkleTrie E h w = (Ok u, w') \<Longrightarrow> w' = w"
  unfolding CheckTransactionInDBAndInMarkleTrie_def
  by (elim sbind_OkE) (auto elim!: sbind_OkE split: if_splits dest!: LoadPoolTx_chain_Ok)

section \<open>What processing does to the database\<close>

lemma preserves_db: "keeps w_db m \<Longrightarrow> preserves (\<lambda>w. I (w_db w)) m"
  by (rule keeps_preserves)

lemmas db_frames = keeps_db [THEN preserves_db]

lemma preserves_on_db: "preserves I m \<Longrightarrow> preserves (\<lambda>w. I (w_db w)) (on_db m)"
  by (rule preserves_zoom) auto

lemma ProcessTransaction_keeps_db [effects]: "keeps w_db (ProcessTransaction E tx height)"
  unfolding ProcessTransaction_def process_stake_def process_withdrawal_def process_transfer_def
    ProcessMultiSignAndEscrow_def Let_def
  by (auto intro!: effects split: prod.split)

lemma ProcessTransactionsMultiSign_Ok_db:
  assumes "ProcessTransactionsMultiSign E tx height w = (Ok u, w')"
  shows "w_db w' = w_db w"
proof -
  have acc: "\<And>m w r w'. on_accounts m w = (r, w') \<Longrightarrow> w_db w' = w_db w"
    and pool: "\<And>m w r w'. on_multisign m w = (r, w') \<Longrightarrow> w_db w' = w_db w"
    by (auto simp: zoom_def split: prod.splits)
  have "execute_multisign E mainTx acc height w = (Ok u, w') \<Longrightarrow> w_db w' = w_db w" for mainTx acc w
    by (auto simp: execute_multisign_def scatch_Ok elim!: sbind_OkE dest!: acc pool
        split: if_splits result.splits)
  with assms show ?thesis
    by (force simp: ProcessTransactionsMultiSign_def Let_def elim!: sbind_OkE
        split: if_splits prod.splits)
qed

lemma or_reject_Ok: "or_reject E tx height m w = (Ok u, w') \<longleftrightarrow> (\<exists>v. m w = (Ok v, w'))"
  by (auto simp: or_reject_def reject_def sbind_def scatch_def sret_def serr_def slift_def
      split: prod.splits result.splits)

lemma process_one_Ok:
  assumes "ledger_at t w" and "process_one E height hash w = (Ok u, w')"
  shows "\<exists>tx. pooled_tx E (w_db w) hash = Some tx \<and> ledger_at (t - charged_fee tx) w' \<and> w_db w' = w_db w"
proof -
  obtain tx w1 where tx: "pooled_tx E (w_db w) hash = Some tx" "tx_wt tx"
    and p1: "ProcessTransaction E tx height w = (Ok (), w1)"
    and p2: "ProcessTransactionsMultiSign E tx height w1 = (Ok (), w')"
    using assms(2)
    by (auto simp: process_one_def reject_def or_reject_Ok elim!: sbind_OkE split: if_splits
        dest!: CheckTransactionInDB_Ok LoadPoolTx_Ok)
  have "ledger_at (t - charged_fee tx) w'"
    by (rule tripleD [OF ledger_ProcessTransactionsMultiSign
          tripleD [OF ledger_ProcessTransaction [OF tx(2)] assms(1) p1] p2])
  moreover have "w_db w' = w_db w"
    using ProcessTransactionsMultiSign_Ok_db [OF p2] keepsD [OF ProcessTransaction_keeps_db p1] by simp
  ultimately show ?thesis using tx(1) by blast
qed

lemma process_loop_Ok:
  assumes "ledger_at t w" and "sfor (process_one E height) hashes w = (Ok u, w')"
  shows "\<exists>txs. map (pooled_tx E (w_db w)) hashes = map Some txs \<and>
    ledger_at (t - sum_list (map charged_fee txs)) w' \<and> w_db w' = w_db w"
  using assms
proof (induction hashes arbitrary: t w)
  case Nil
  then show ?case by auto
next
  case (Cons hash hashes)
  obtain w1 where p: "process_one E height hash w = (Ok (), w1)"
    and rest: "sfor (process_one E height) hashes w1 = (Ok u, w')"
    using Cons.prems(2) by (auto elim!: sbind_OkE)
  obtain tx where tx: "pooled_tx E (w_db w) hash = Some tx" "ledger_at (t - charged_fee tx) w1"
    "w_db w1 = w_db w"
    using process_one_Ok [OF Cons.prems(1) p] by blast
  obtain txs where "map (pooled_tx E (w_db w1)) hashes = map Some txs"
    "ledger_at (t - charged_fee tx - sum_list (map charged_fee txs)) w'" "w_db w' = w_db w1"
    using Cons.IH [OF tx(2) rest] by blast
  with tx show ?case by (intro exI [of _ "tx # txs"]) (simp add: algebra_simps)
qed

context rocksdb
begin

lemma DB_Delete_shrinks: "preserves (\<lambda>d. content d \<subseteq>\<^sub>m m0) (DB_Delete K k)"
proof (cases "k = []")
  case True
  then show ?thesis by (simp add: preserves_def DB_Delete_def serr_def)
next
  case False
  then show ?thesis using DB_Delete_Ok [of k] by (auto simp: preserves_def map_le_def)
qed

lemma LoadFromDBPoolTx_shrinks:
  "preserves (\<lambda>d. content d \<subseteq>\<^sub>m m0) (LoadFromDBPoolTx K H160 ec prefix hash)"
  unfolding LoadFromDBPoolTx_def by (auto intro!: effects DB_Delete_shrinks split: prod.split)

lemma stored_tx_content:
  assumes "e_kv E = K" and "prefix \<noteq> []"
  shows "stored_tx E prefix d h = (case content d (prefix @ h) of None \<Rightarrow> None
    | Some b \<Rightarrow> if b = [] then None
      else (case Transaction_GetFromBytes (e_H160 E) (e_ec E) b of Ok (tx, _) \<Rightarrow> Some tx | _ \<Rightarrow> None))"
  using assms DB_Delete_Ok [of "prefix @ h" d]
  by (auto simp: stored_tx_def LoadFromDBPoolTx_def DB_Get_content sbind_def sget_def slift_def sret_def
      serr_def split: option.split result.split prod.split)

lemma CheckTransactionInDB_shrinks:
  assumes "e_kv E = K"
  shows "preserves (\<lambda>w. content (w_db w) \<subseteq>\<^sub>m m0) (CheckTransactionInDBAndInMarkleTrie E h)"
  unfolding CheckTransactionInDBAndInMarkleTrie_def LoadPoolTx_def assms
  by (auto intro!: effects preserves_on_db LoadFromDBPoolTx_shrinks)

lemma RemoveBad_shrinks:
  assumes "e_kv E = K"
  shows "preserves (\<lambda>w. content (w_db w) \<subseteq>\<^sub>m m0) (RemoveBadTransactionByHash E hash height)"
  unfolding RemoveBadTransactionByHash_def RemoveTransactionFromDBbyHash_def RemoveMerkleTrieFromDB_def assms
  by (intro preserves_sbind preserves_wrap preserves_db preserves_on_db keeps_db DB_Delete_shrinks
      CheckTransactionInDB_shrinks assms)

lemma escrow_loop_shrinks:
  assumes "e_kv E = K"
  shows "preserves (\<lambda>w. content (w_db w) \<subseteq>\<^sub>m m0) (escrow_loop E height txs)"
proof (induction txs)
  case (Cons tx txs)
  have "preserves (\<lambda>w. content (w_db w) \<subseteq>\<^sub>m m0) (release_escrow E tx height)"
    unfolding release_escrow_def Let_def
    by (auto intro!: preserves_sbind preserves_wrap preserves_effects preserves_sread db_frames
        RemoveBad_shrinks assms split: result.split)
  with Cons show ?case by (auto intro!: effects preserves_if split: prod.split)
qed (simp add: effects)

text \<open>Puts outside the pool's part of the database, and all deletions, add nothing to that part.\<close>

abbreviation pool_part :: "'d \<Rightarrow> bytes \<Rightarrow> bytes option" where
  "pool_part d \<equiv> \<lambda>h. content d (TransactionPoolHashesDBPrefix @ h)"

lemma pool_part_le: "content d' \<subseteq>\<^sub>m content d \<Longrightarrow> pool_part d' \<subseteq>\<^sub>m pool_part d"
  by (auto simp: map_le_def dom_def)

lemma DB_Put_pool_part:
  assumes "\<And>h. k \<noteq> TransactionPoolHashesDBPrefix @ h" and "k \<noteq> []"
  shows "preserves (\<lambda>d. pool_part d \<subseteq>\<^sub>m m0) (DB_Put K k v)"
  using DB_Put_Ok [OF assms(2)] assms(1) by (auto simp: preserves_def map_le_def dom_def)

lemma LoadFromDBPoolTx_pool_part:
  "preserves (\<lambda>d. pool_part d \<subseteq>\<^sub>m m0) (LoadFromDBPoolTx K H160 ec prefix hash)"
proof (unfold preserves_def, intro allI impI)
  fix d
  assume "pool_part d \<subseteq>\<^sub>m m0"
  moreover have "content (snd (LoadFromDBPoolTx K H160 ec prefix hash d)) \<subseteq>\<^sub>m content d"
    using LoadFromDBPoolTx_shrinks [of "content d"] by (simp add: preserves_def)
  ultimately show "pool_part (snd (LoadFromDBPoolTx K H160 ec prefix hash d)) \<subseteq>\<^sub>m m0"
    using pool_part_le map_le_trans by blast
qed

lemma pubkeys_pool_part:
  assumes "e_kv E = K"
  shows "preserves (\<lambda>d. pool_part d \<subseteq>\<^sub>m m0) (StorePubKey E pk)"
    and "preserves (\<lambda>d. pool_part d \<subseteq>\<^sub>m m0) (StorePubKeyInPatriciaTrie E pk)"
proof -
  have tree: "preserves (\<lambda>d. pool_part d \<subseteq>\<^sub>m m0) (AddressTree_StoreTree K enc t a)" for enc t a
    unfolding AddressTree_StoreTree_def by (intro effects DB_Put_pool_part) simp_all
  show "preserves (\<lambda>d. pool_part d \<subseteq>\<^sub>m m0) (StorePubKey E pk)"
    unfolding StorePubKey_def assms by (auto intro!: effects DB_Put_pool_part [simplified])
  show "preserves (\<lambda>d. pool_part d \<subseteq>\<^sub>m m0) (StorePubKeyInPatriciaTrie E pk)"
    unfolding StorePubKeyInPatriciaTrie_def CreateAddressFromFirstPubKey_def Let_def assms
    by (auto intro!: effects tree [simplified] split: result.split)
qed

lemma ProcessBlockPubKey_pool_part:
  assumes "e_kv E = K"
  shows "preserves (\<lambda>w. pool_part (w_db w) \<subseteq>\<^sub>m m0) (ProcessBlockPubKey E block)"
proof -
  have "preserves (\<lambda>w. pool_part (w_db w) \<subseteq>\<^sub>m m0) (pubkey_loop E hs)" for hs
  proof (induction hs)
    case (Cons h hs)
    then show ?case
      using preserves_on_db [OF pubkeys_pool_part(1) [OF assms]] preserves_on_db [OF pubkeys_pool_part(2) [OF assms]]
        preserves_on_db [OF LoadFromDBPoolTx_pool_part] assms
      by (auto simp: LoadPoolTx_def Let_def intro!: preserves_sbind preserves_effects)
  qed (simp add: effects)
  then show ?thesis by (simp add: ProcessBlockPubKey_def)
qed

lemma StoreTree_pool_part: "preserves (\<lambda>d. pool_part d \<subseteq>\<^sub>m m0) (StoreTree K enc t height)"
  unfolding StoreTree_def by (intro effects DB_Put_pool_part) simp_all

lemma stored_tx_mono:
  assumes "e_kv E = K" and "pool_part d' \<subseteq>\<^sub>m pool_part d" and "pooled_tx E d' h = Some tx"
  shows "pooled_tx E d h = Some tx"
proof -
  have "stored_tx E TransactionPoolHashesDBPrefix d' h = Some tx" using assms(3) by simp
  then obtain b where "content d' (TransactionPoolHashesDBPrefix @ h) = Some b"
    using stored_tx_content [OF assms(1), of TransactionPoolHashesDBPrefix d' h]
    by (auto split: option.splits)
  moreover from this have "content d (TransactionPoolHashesDBPrefix @ h) = Some b"
    using assms(2) by (auto simp: map_le_def dom_def)
  ultimately show ?thesis
    using assms(3) stored_tx_content [OF assms(1), of TransactionPoolHashesDBPrefix] by simp
qed

end

section \<open>Conservation over a block\<close>

lemma map_Some_mono:
  assumes "\<And>h t. f h = Some t \<Longrightarrow> g h = Some t" and "map f hs = map Some ts"
  shows "map g hs = map Some ts"
  using assms(2) by (induction hs arbitrary: ts) (auto simp: Cons_eq_map_conv intro: assms(1))

text \<open>A ledger fit to process a block.\<close>

definition ledger_ok :: "('d, 'z) world_scheme \<Rightarrow> bool" where
  "ledger_ok w \<longleftrightarrow> ledger_at (coins w) w \<and> held_coins (w_accounts w) < 2 ^ 63 \<and>
     pool_all (\<lambda>tx. 0 \<le> sint (Amount (tx_Data tx)) \<and> tx_wt tx) (PoolTxEscrow w)"

lemma ProcessBlockTransfers_coins:
  assumes "rocksdb (e_kv E) content" and "ledger_ok w"
    and "ProcessBlockTransfers E block reward w = (Ok u, w')"
  shows "\<exists>txs. map (pooled_tx E (w_db w)) (TransactionsHashes block) = map Some txs \<and>
    ledger_at (coins w + reward - sum_list (map charged_fee txs)) w'"
proof -
  let ?h = "bh_Height (GetHeader block)"
  obtain r w1 w2 where esc: "ProcessTransactionsEscrow E ?h w = (r, w1)"
    and loop: "sfor (process_one E ?h) (TransactionsHashes block) w1 = (Ok (), w2)"
    and rew: "reward_block E block reward w2 = (Ok u, w')"
    using assms(3) by (auto simp: ProcessBlockTransfers_def Let_def sdrop_Ok elim!: sbind_OkE)
  have L1: "ledger_at (coins w) w1"
    using ProcessTransactionsEscrow_inv [of w "coins w" E ?h] assms(2) esc
    by (simp add: ledger_ok_def escrow_inv_def)
  obtain txs where txs: "map (pooled_tx E (w_db w1)) (TransactionsHashes block) = map Some txs"
    and L2: "ledger_at (coins w - sum_list (map charged_fee txs)) w2"
    using process_loop_Ok [OF L1 loop] by blast
  have "content (w_db w1) \<subseteq>\<^sub>m content (w_db w)"
    using preservesD [OF rocksdb.escrow_loop_shrinks [OF assms(1) refl, of "content (w_db w)" ?h] map_le_refl] esc
    by (auto simp: ProcessTransactionsEscrow_def sbind_def sget_def)
  then have mono: "pooled_tx E (w_db w1) h = Some t \<Longrightarrow> pooled_tx E (w_db w) h = Some t" for h t
    using rocksdb.stored_tx_mono [OF assms(1) refl] rocksdb.pool_part_le [OF assms(1)] by blast
  have "map (pooled_tx E (w_db w)) (TransactionsHashes block) = map Some txs"
    by (rule map_Some_mono [OF mono txs])
  moreover have "ledger_at (coins w + reward - sum_list (map charged_fee txs)) w'"
    using tripleD [OF ledger_reward_block L2 rew] by (simp add: algebra_simps)
  ultimately show ?thesis by blast
qed

text \<open>While the node is not syncing, a successful check of a block changes nothing.\<close>

lemma check_transfer_Ok:
  assumes "\<not> e_syncing E" and "check_transfer E height hash cs w = (Ok cs', w')"
  shows "w' = w \<and> (\<exists>tx. pooled_tx E (w_db w) hash = Some tx \<and> cs_totalFee cs' = cs_totalFee cs + tx_fee tx)"
proof -
  have load: "w1 = w \<and> pooled_tx E (w_db w) hash = Some tx"
    if "load_for_check E hash w = (Ok tx, w1)" for tx w1
    using that assms(1)
    by (auto simp: load_for_check_def scatch_Ok elim!: sbind_OkE dest: LoadPoolTx_Ok split: result.splits)
  have part: "w2 = w1 \<and> cs_totalFee cs2 = cs_totalFee cs1"
    if "check_staking_part E height tx n cs1 w1 = (Ok cs2, w2)" for tx n cs1 cs2 w1 w2
    using that by (auto simp: check_staking_part_def reject_def Let_def elim!: sbind_OkE split: if_splits)
  obtain tx where "load_for_check E hash w = (Ok tx, w)"
    using assms(2) load by (auto simp: check_transfer_def elim!: sbind_OkE)
  with assms(2) show ?thesis
    by (auto simp: check_transfer_def reject_def Let_def dest!: load part CheckTransactionInDB_Ok
        elim!: sbind_OkE split: if_splits)
qed

lemma check_loop_Ok:
  assumes "\<not> e_syncing E" and "check_loop E height hashes cs w = (Ok cs', w')"
  shows "w' = w \<and> (\<exists>txs. map (pooled_tx E (w_db w)) hashes = map Some txs \<and>
    cs_totalFee cs' = cs_totalFee cs + sum_list (map tx_fee txs))"
  using assms(2)
proof (induction hashes arbitrary: cs w)
  case Nil
  then show ?case by auto
next
  case (Cons hash hashes)
  obtain cs1 w1 where c: "check_transfer E height hash cs w = (Ok cs1, w1)"
    and rest: "check_loop E height hashes cs1 w1 = (Ok cs', w')"
    using Cons.prems by (auto elim!: sbind_OkE)
  obtain tx where tx: "w1 = w" "pooled_tx E (w_db w) hash = Some tx"
    "cs_totalFee cs1 = cs_totalFee cs + tx_fee tx"
    using check_transfer_Ok [OF assms(1) c] by blast
  obtain txs where "w' = w1" "map (pooled_tx E (w_db w1)) hashes = map Some txs"
    "cs_totalFee cs' = cs_totalFee cs1 + sum_list (map tx_fee txs)"
    using Cons.IH [OF rest] by blast
  with tx show ?case by (intro conjI exI [of _ "tx # txs"]) (simp_all add: algebra_simps)
qed

lemma CheckBlockTransfers_Ok:
  assumes "\<not> e_syncing E" and "CheckBlockTransfers E block lastBlock w = (Ok (reward, totalFee), w')"
  shows "w' = w \<and> reward = GetReward (Supply (bl_BaseBlock lastBlock)) \<and>
    Supply (bl_BaseBlock block) = Supply (bl_BaseBlock lastBlock) + reward \<and>
    (\<exists>txs. map (pooled_tx E (w_db w)) (TransactionsHashes block) = map Some txs \<and>
      totalFee = sum_list (map tx_fee txs))"
  using assms(2) check_loop_Ok [OF assms(1)]
  by (fastforce simp: CheckBlockTransfers_def Let_def elim!: sbind_OkE split: if_splits)

text \<open>
  What is asked of the contracts in a state: a good ledger stays good, and the transactions of the pool keep
  their fees.  The Go code only changes the contract address and the output of a transaction.
\<close>

definition contracts_ok :: "'d env \<Rightarrow> (Block \<Rightarrow> (('d, 'z) world_scheme, bool) op) \<Rightarrow> ('d, 'z) world_scheme \<Rightarrow> bool" where
  "contracts_ok E contracts w \<longleftrightarrow> (\<forall>b w'. contracts b w = (Ok True, w') \<longrightarrow>
     ledger_ok w' \<and> (\<forall>h. map_option (\<lambda>t. (tx_fee t, charged_fee t)) (pooled_tx E (w_db w') h) =
       map_option (\<lambda>t. (tx_fee t, charged_fee t)) (pooled_tx E (w_db w) h)))"

lemma keeps_pubkey_loop: "keeps w_accounts (pubkey_loop E hs)" "keeps w_staking (pubkey_loop E hs)"
  by (induction hs) (auto simp: LoadPoolTx_def Let_def intro!: effects)

lemma keeps_pools_only [effects]:
  "keeps w_accounts (RemoveAllTransactionsRelatedToBlock E b)"
  "keeps w_staking (RemoveAllTransactionsRelatedToBlock E b)"
  "keeps w_accounts (sfor (settle_one E) hs)" "keeps w_staking (sfor (settle_one E) hs)"
  "keeps w_accounts (ProcessBlockPubKey E b)" "keeps w_staking (ProcessBlockPubKey E b)"
proof -
  show "keeps w_accounts (RemoveAllTransactionsRelatedToBlock E b)"
    "keeps w_staking (RemoveAllTransactionsRelatedToBlock E b)"
    unfolding RemoveAllTransactionsRelatedToBlock_def by (intro effects)+
  show "keeps w_accounts (sfor (settle_one E) hs)" "keeps w_staking (sfor (settle_one E) hs)"
    unfolding settle_one_def LoadPoolTx_def by (auto intro!: effects split: result.split)
  show "keeps w_accounts (ProcessBlockPubKey E b)" "keeps w_staking (ProcessBlockPubKey E b)"
    by (simp_all add: ProcessBlockPubKey_def keeps_pubkey_loop)
qed

lemma same_info:
  assumes "map f hs = map Some ts" and "map g hs = map Some ts'"
    and "\<And>h. map_option (\<lambda>t. (p t, q t)) (f h) = map_option (\<lambda>t. (p t, q t)) (g h)"
  shows "map p ts = map p ts' \<and> map q ts = map q ts'"
  using assms(1,2)
proof (induction hs arbitrary: ts ts')
  case (Cons h hs)
  then show ?case using assms(3) [of h] by (auto simp: Cons_eq_map_conv)
qed simp

lemma CheckBlockTransfers_keeps:
  "keeps w_accounts (CheckBlockTransfers E block lastBlock)"
  "keeps w_staking (CheckBlockTransfers E block lastBlock)"
proof -
  have "keeps w_accounts (check_transfer E h hash cs) \<and> keeps w_staking (check_transfer E h hash cs)" for h hash cs
    unfolding check_transfer_def load_for_check_def check_staking_part_def reject_def LoadPoolTx_def Let_def
    by (auto intro!: effects split: result.split prod.split)
  then have "keeps w_accounts (check_loop E h hs cs) \<and> keeps w_staking (check_loop E h hs cs)" for h hs cs
    by (induction hs arbitrary: cs) (auto intro!: effects)
  then show "keeps w_accounts (CheckBlockTransfers E block lastBlock)"
    "keeps w_staking (CheckBlockTransfers E block lastBlock)"
    by (auto simp: CheckBlockTransfers_def Let_def intro!: effects)
qed

text \<open>Everything but the database.\<close>

definition off_db :: "('d, 'z) world_scheme \<Rightarrow> AccountsType \<times> staking \<times> TransactionPool \<times> TransactionPool" where
  "off_db w = (w_accounts w, w_staking w, PoolTxEscrow w, PoolTxMultiSign w)"

lemma ledger_ok_off_db: "off_db w' = off_db w \<Longrightarrow> ledger_ok w' = ledger_ok w"
  by (simp add: off_db_def ledger_ok_def ledger_at_def coins_def)

lemma keeps_off_db [effects]: "keeps off_db (on_db m)"
  by (rule keeps_zoom) (simp add: off_db_def)

lemma ProcessBlockPubKey_off_db [effects]: "keeps off_db (ProcessBlockPubKey E b)"
proof -
  have "keeps off_db (pubkey_loop E hs)" for hs
    by (induction hs) (auto simp: LoadPoolTx_def Let_def intro!: effects)
  then show ?thesis by (simp add: ProcessBlockPubKey_def)
qed

text \<open>The stages of an accepted block.\<close>

lemma CheckBlockAndTransferFunds_Ok:
  assumes "CheckBlockAndTransferFunds E contracts encryption newBlock lastBlock tree w = (Ok bl, w')"
  obtains reward totalFee w0 w1 w2 w3 w4 w5 w6 r where
    "CheckBlockTransfers E newBlock lastBlock w = (Ok (reward, totalFee), w0)"
    "bl = newBlock\<lparr>BlockFee := totalFee + BlockFee lastBlock\<rparr>"
    "contracts bl w0 = (Ok True, w1)"
    "coins w1 + reward + BlockFee lastBlock = Supply (bl_BaseBlock bl)"
    "ProcessBlockPubKey E bl w1 = (Ok (), w2)"
    "store_tree E tree (bh_Height (GetHeader bl)) w2 = (Ok (), w3)"
    "ProcessBlockTransfers E bl reward w3 = (Ok (), w4)"
    "sfor (settle_one E) (TransactionsHashes bl) w4 = (Ok (), w5)"
    "sdrop (encryption bl lastBlock) w5 = (Ok (), w6)"
    "RemoveAllTransactionsRelatedToBlock E newBlock w6 = (r, w')"
  using assms that unfolding CheckBlockAndTransferFunds_def sdefer_def Let_def
  by (auto elim!: sbind_OkE split: prod.splits result.splits if_splits)

text \<open>Registering the keys and storing the tree leave the ledger alone and add no transaction to the pool.\<close>

lemma prepare_stages:
  assumes "rocksdb (e_kv E) content" and "ledger_ok w1" and "ProcessBlockPubKey E bl w1 = (Ok (), w2)"
    and "store_tree E tree height w2 = (Ok (), w3)"
  shows "ledger_ok w3" and "coins w3 = coins w1"
    and "pooled_tx E (w_db w3) h = Some t \<Longrightarrow> pooled_tx E (w_db w1) h = Some t"
proof -
  obtain t0 where st: "on_db (StoreTree (e_kv E) (e_enc E) t0 height) w2 = (Ok (), w3)"
    using assms(4) by (auto simp: store_tree_def serr_def split: option.splits)
  have off: "off_db w3 = off_db w1"
    using keepsD [OF keeps_off_db st] keepsD [OF ProcessBlockPubKey_off_db assms(3)] by simp
  then show "ledger_ok w3" "coins w3 = coins w1"
    using assms(2) ledger_ok_off_db by (auto simp: off_db_def coins_def)
  have "rocksdb.pool_part content (w_db w3) \<subseteq>\<^sub>m rocksdb.pool_part content (w_db w1)"
    using preservesD [OF preserves_on_db [OF rocksdb.StoreTree_pool_part [OF assms(1)]] _ st]
      preservesD [OF rocksdb.ProcessBlockPubKey_pool_part [OF assms(1) refl] map_le_refl assms(3)] by blast
  then show "pooled_tx E (w_db w3) h = Some t \<Longrightarrow> pooled_tx E (w_db w1) h = Some t"
    using rocksdb.stored_tx_mono [OF assms(1) refl] by blast
qed

text \<open>What follows the transfers leaves the accounts alone.\<close>

lemma settle_stages:
  assumes "sfor (settle_one E) hs w4 = (Ok (), w5)" and "sdrop enc w5 = (Ok (), w6)"
    and "RemoveAllTransactionsRelatedToBlock E newBlock w6 = (r, w')"
    and "keeps w_accounts enc" and "keeps w_staking enc"
  shows "w_accounts w' = w_accounts w4 \<and> w_staking w' = w_staking w4"
  using keepsD [OF keeps_pools_only(1) assms(3)] keepsD [OF keeps_pools_only(2) assms(3)]
    keepsD [OF keeps_wrap(1) [OF assms(4)] assms(2)] keepsD [OF keeps_wrap(1) [OF assms(5)] assms(2)]
    keepsD [OF keeps_pools_only(3) assms(1)] keepsD [OF keeps_pools_only(4) assms(1)] by simp

lemma accepted_block_balance:
  assumes "rocksdb (e_kv E) content" and "\<not> e_syncing E" and "ledger_ok w"
    and "contracts_ok E contracts w"
    and "\<And>b l. keeps w_accounts (encryption b l)" and "\<And>b l. keeps w_staking (encryption b l)"
    and "CheckBlockAndTransferFunds E contracts encryption newBlock lastBlock tree w = (Ok bl, w')"
  shows "\<exists>txs. map (pooled_tx E (w_db w)) (TransactionsHashes newBlock) = map Some txs \<and>
    BlockFee bl = BlockFee lastBlock + sum_list (map tx_fee txs) \<and>
    coins w' + BlockFee bl = Supply (bl_BaseBlock bl) + sum_list (map (\<lambda>t. tx_fee t - charged_fee t) txs) \<and>
    Supply (bl_BaseBlock bl) = Supply (bl_BaseBlock lastBlock) + GetReward (Supply (bl_BaseBlock lastBlock)) \<and>
    accounts_ok (w_accounts w') \<and> staking_ok (w_staking w')"
proof -
  obtain reward totalFee w0 w1 w2 w3 w4 w5 w6 r where
    chk: "CheckBlockTransfers E newBlock lastBlock w = (Ok (reward, totalFee), w0)"
    and bl: "bl = newBlock\<lparr>BlockFee := totalFee + BlockFee lastBlock\<rparr>"
    and con: "contracts bl w0 = (Ok True, w1)"
    and avail: "coins w1 + reward + BlockFee lastBlock = Supply (bl_BaseBlock bl)"
    and prep: "ProcessBlockPubKey E bl w1 = (Ok (), w2)"
      "store_tree E tree (bh_Height (GetHeader bl)) w2 = (Ok (), w3)"
    and pr: "ProcessBlockTransfers E bl reward w3 = (Ok (), w4)"
    and settle: "sfor (settle_one E) (TransactionsHashes bl) w4 = (Ok (), w5)"
      "sdrop (encryption bl lastBlock) w5 = (Ok (), w6)" "RemoveAllTransactionsRelatedToBlock E newBlock w6 = (r, w')"
    by (rule CheckBlockAndTransferFunds_Ok [OF assms(7)])
  let ?hs = "TransactionsHashes newBlock"
  obtain txs where w0: "w0 = w" and txs: "map (pooled_tx E (w_db w)) ?hs = map Some txs"
    and fee: "totalFee = sum_list (map tx_fee txs)"
    and sup: "reward = GetReward (Supply (bl_BaseBlock lastBlock))"
      "Supply (bl_BaseBlock newBlock) = Supply (bl_BaseBlock lastBlock) + reward"
    using CheckBlockTransfers_Ok [OF assms(2) chk] by blast
  have w1: "ledger_ok w1" "\<And>h. map_option (\<lambda>t. (tx_fee t, charged_fee t)) (pooled_tx E (w_db w1) h) =
      map_option (\<lambda>t. (tx_fee t, charged_fee t)) (pooled_tx E (w_db w) h)"
    using assms(3,4) con w0 unfolding contracts_ok_def by blast+
  note w3 = prepare_stages [OF assms(1) w1(1) prep]
  obtain ts where ts: "map (pooled_tx E (w_db w3)) ?hs = map Some ts"
    and L4: "ledger_at (coins w1 + reward - sum_list (map charged_fee ts)) w4"
    using ProcessBlockTransfers_coins [OF assms(1) w3(1) pr] w3(2) bl by auto
  have "map charged_fee ts = map charged_fee txs"
    using same_info [OF map_Some_mono [OF w3(3) ts] txs w1(2)] by simp
  moreover have "coins w' = coins w4" "accounts_ok (w_accounts w') \<and> staking_ok (w_staking w')"
    using L4 settle_stages [OF settle assms(5,6)] by (auto simp: coins_def ledger_at_def)
  ultimately have "coins w' + totalFee + BlockFee lastBlock =
      Supply (bl_BaseBlock bl) + (sum_list (map tx_fee txs) - sum_list (map charged_fee txs))"
    using L4 avail fee by (simp add: ledger_at_def algebra_simps)
  then show ?thesis
    using txs sup bl fee \<open>accounts_ok (w_accounts w') \<and> staking_ok (w_staking w')\<close>
    by (intro exI [of _ txs]) (simp add: sum_list_subtractf algebra_simps)
qed

section \<open>Properties\<close>

text \<open>
  C1: conservation of coins over a block.  When a node that is not syncing accepts a block, the
  coins in accounts, stakes and rewards afterwards, together with the fee account of the block,
  are exactly the supply the block states, plus the fees of those transactions of the block that
  were counted but never charged; the supply is the previous one plus the reward.  This holds
  whatever the smart contracts did, as long as they leave the ledger well formed and the fees of
  the pooled transactions alone, and whatever error the release of escrowed transactions met.
\<close>

theorem accepted_block_conserves_coins:
  assumes "rocksdb (e_kv E) content" and "\<not> e_syncing E" and "ledger_ok w"
    and "contracts_ok E contracts w"
    and "\<And>b l. keeps w_accounts (encryption b l)" and "\<And>b l. keeps w_staking (encryption b l)"
    and "CheckBlockAndTransferFunds E contracts encryption newBlock lastBlock tree w = (Ok bl, w')"
  shows "\<exists>txs. map (pooled_tx E (w_db w)) (TransactionsHashes newBlock) = map Some txs \<and>
    BlockFee bl = BlockFee lastBlock + sum_list (map tx_fee txs) \<and>
    coins w' + BlockFee bl = Supply (bl_BaseBlock bl) + sum_list (map (\<lambda>t. tx_fee t - charged_fee t) txs) \<and>
    Supply (bl_BaseBlock bl) = Supply (bl_BaseBlock lastBlock) + GetReward (Supply (bl_BaseBlock lastBlock)) \<and>
    accounts_ok (w_accounts w') \<and> staking_ok (w_staking w')"
  using assms by (rule accepted_block_balance)

text \<open>An empty block at full supply, made by the one operator, who holds the minimal stake.\<close>

definition sample_env :: "memdb env" where
  "sample_env = \<lparr>e_kv = mem_kv, e_H160 = copy_into (replicate 20 0), e_H256 = sample_digest,
     e_enc = (\<lambda>ns. concat (map node_Data ns)), e_dec = (\<lambda>_. Ok []), e_json = (\<lambda>_. Ok []),
     e_unjson = sample_unjson, e_oqs_len = (\<lambda>_. Some 1), e_oqs_verify = (\<lambda>_ _ _ _. Ok True),
     e_ec = initEncryptionConfigInstance, e_pref = True, e_coin = True, e_now = 0, e_syncing = False\<rparr>"

definition sample_stake :: StakingAccount where
  "sample_stake = zero_StakingAccount\<lparr>StakedBalance := 100000000000000, sa_Address := replicate 20 6,
     OperationalAccount := True\<rparr>"

definition sample_world :: "memdb world" where
  "sample_world = \<lparr>w_db = sample_keys, w_accounts = \<lparr>AllAccounts = [], acs_Height = 0\<rparr>,
     w_staking = (replicate 256 [])[5 := [(replicate 20 6, sample_stake)]],
     PoolsTx = NewTransactionPool 10 0, PoolTxEscrow = NewTransactionPool 10 1,
     PoolTxMultiSign = NewTransactionPool 10 2\<rparr>"

definition last_sample :: Block where
  "last_sample = sample_block\<lparr>bl_BaseBlock := (bl_BaseBlock sample_block)\<lparr>Supply := MaxTotalSupply\<rparr>,
     BlockFee := 229900000000000000\<rparr>"

definition next_sample :: Block where
  "next_sample = (let h = (GetHeader sample_block)\<lparr>bh_DelegatedAccount :=
       \<lparr>addr_ByteValue = be_bytes 2 (5 :: i16) @ replicate 18 0, addr_Primary = True\<rparr>\<rparr>;
     h' = h\<lparr>SignatureMessage := BaseHeader_GetBytesWithoutSignature h\<rparr>
     in sample_block\<lparr>bl_BaseBlock := (bl_BaseBlock sample_block)\<lparr>bb_BaseHeader := h', Supply := MaxTotalSupply\<rparr>,
       TransactionsHashes := []\<rparr>)"

lemma sample_env_fields [simp]:
  "e_kv sample_env = mem_kv" "e_H256 sample_env = sample_digest"
  "e_enc sample_env = (\<lambda>ns. concat (map node_Data ns))" "e_unjson sample_env = sample_unjson"
  "e_oqs_len sample_env = (\<lambda>_. Some 1)" "e_oqs_verify sample_env = (\<lambda>_ _ _ _. Ok True)"
  "e_ec sample_env = initEncryptionConfigInstance" "e_pref sample_env" "e_coin sample_env"
  "e_now sample_env = 0" "\<not> e_syncing sample_env"
  by (simp_all add: sample_env_def)

lemma sample_world_ok: "ledger_ok sample_world"
proof -
  have "staking_ok ((replicate 256 [])[5 := [(replicate 20 6, sample_stake)]])"
    by (auto simp: staking_ok_def sa_ok_def sample_stake_def dest!: set_update_subset_insert [THEN subsetD])
  then show ?thesis
    by (simp add: ledger_ok_def ledger_at_def sample_world_def accounts_ok_def held_coins_def
        pool_all_def NewTransactionPool_def)
qed

lemma sample_reward [simp]: "GetReward MaxTotalSupply = 0"
  using GetReward_bounds(1,2) [of MaxTotalSupply] by (simp add: MaxTotalSupply_def sint_i64_eq_iff)

lemma next_sample_fields [simp]:
  "TransactionsHashes next_sample = []" "Supply (bl_BaseBlock next_sample) = MaxTotalSupply"
  "addr_ByteValue sample_operator = replicate 20 6"
  "OperatorAccount (GetHeader next_sample) = sample_operator"
  "RewardPercentage (bl_BaseBlock next_sample) = 10" "bh_Height (GetHeader next_sample) = 7"
  "Supply (bl_BaseBlock last_sample) = MaxTotalSupply" "BlockFee last_sample = 229900000000000000"
  by (simp_all add: next_sample_def last_sample_def sample_block_def Let_def sample_operator_def)

lemma next_sample_delegated [simp]:
  "IntDelegatedAccountFromAddress (bh_DelegatedAccount (GetHeader next_sample)) = Ok (5, None)"
  by (simp add: next_sample_def Let_def) code_simp

lemma next_sample_verified [simp]:
  "BaseHeader_Verify mem_kv sample_unjson (\<lambda>_. Some 1) (\<lambda>_ _ _ _. Ok True) sample_digest
     initEncryptionConfigInstance True True sample_keys (GetHeader next_sample) = Ok True"
proof -
  have "sig_ByteValue (bh_Signature (GetHeader next_sample)) = replicate 753 0"
    "SignatureMessage (GetHeader next_sample) = BaseHeader_GetBytesWithoutSignature (GetHeader next_sample)"
    by (simp_all add: next_sample_def Let_def sample_block_def BaseHeader_GetBytesWithoutSignature_def)
  then show ?thesis
    using sample_keys_load(1)
    by (simp add: BaseHeader_Verify_def Let_def GetNodeSignPrimary_def Wallet_Verify_def IsPaused_def
        IsPaused2_def initEncryptionConfigInstance_def)
qed

lemma sample_staked [simp]:
  "GetStakedInDelegatedAccount 5 (w_staking sample_world) =
    Ok ([zero_Account\<lparr>Balance := 100000000000000, acc_Address := replicate 20 6\<rparr>], Fin 100000000000000,
      zero_Account\<lparr>Balance := 100000000000000, acc_Address := replicate 20 6\<rparr>)"
proof -
  have "i64_to_f64 100000000000000 = Fin 100000000000000"
    using f64_round_of_int [of 100000000000000] by (simp add: i64_to_f64_def)
  then show ?thesis
    by (simp add: GetStakedInDelegatedAccount_def staking_at_def sample_world_def sample_stake_def
        zero_Account_def zero_StakingAccount_def Let_def)
qed

lemma zero_reward_f64:
  "f64_to_i64 (f64_div (f64_mul (i64_to_f64 0) x) (Fin y)) = 0" if "x = Fin z" "y \<noteq> 0" for x y z
  using that by (simp add: i64_to_f64_def f64_round_def f64_mul_def f64_div_def rat_trunc_def)

lemma Reward_zero_runs:
  assumes "i < length s" and "sa_Address (mgetd zero_StakingAccount (s ! i) a) = a" and "length a = 20"
  shows "\<exists>s'. Reward a 0 h (int i) now s = (Ok (), s') \<and> i < length s' \<and> sa_Address (mgetd zero_StakingAccount (s' ! i) a) = a"
  using assms
  by (simp add: Reward_def sbind_def sget_def slift_def staking_store_def staking_at_def Let_def)

lemma sample_reward_block:
  assumes "w_staking w = w_staking sample_world"
  shows "\<exists>w'. reward_block sample_env (next_sample\<lparr>BlockFee := fee\<rparr>) 0 w = (Ok (), w')"
proof -
  have f: "i64_to_f64 100000000000000 = Fin 100000000000000" "i64_to_f64 10 = Fin 10"
    using f64_round_of_int [of 100000000000000] f64_round_of_int [of 10] by (simp_all add: i64_to_f64_def)
  have "5 < length (w_staking w)"
    "sa_Address (mgetd zero_StakingAccount (w_staking w ! 5) (replicate 20 6)) = replicate 20 6"
    by (simp_all add: assms sample_world_def sample_stake_def mgetd_def)
  from Reward_zero_runs [OF this] obtain s1 where s1: "Reward (replicate 20 6) 0 7 5 0 (w_staking w) = (Ok (), s1)"
    "5 < length s1" "sa_Address (mgetd zero_StakingAccount (s1 ! 5) (replicate 20 6)) = replicate 20 6" by auto
  from Reward_zero_runs [OF s1(2,3)] obtain s2 where s2: "Reward (replicate 20 6) 0 7 5 0 s1 = (Ok (), s2)" by auto
  have "GetStakedInDelegatedAccount 5 (w_staking w) = GetStakedInDelegatedAccount 5 (w_staking sample_world)"
    by (simp add: assms)
  then show ?thesis
    using f s1(1) s2 by (simp add: reward_block_def sbind_def slift_def sread_eq zero_reward_f64 Let_def
        sret_def zoom_def sample_env_def)
qed

text \<open>Any state with the tables of the sample will do.\<close>

definition sample_tables :: "(memdb, 'z) world_scheme \<Rightarrow> bool" where
  "sample_tables w \<longleftrightarrow> w_db w = sample_keys \<and> w_accounts w = \<lparr>AllAccounts = [], acs_Height = 0\<rparr> \<and>
     w_staking w = (replicate 256 [])[5 := [(replicate 20 6, sample_stake)]] \<and>
     PoolsTx w = NewTransactionPool 10 0 \<and> PoolTxEscrow w = NewTransactionPool 10 1 \<and>
     PoolTxMultiSign w = NewTransactionPool 10 2"

lemma sample_world_tables: "sample_tables sample_world"
  by (simp add: sample_tables_def sample_world_def)

lemma sample_tables_ok: "sample_tables w \<Longrightarrow> ledger_ok w"
  using sample_world_ok
  by (simp add: ledger_ok_def ledger_at_def sample_world_def sample_tables_def coins_def)

lemma sample_block_accepted_with:
  assumes w: "sample_tables w" and con: "contracts (next_sample\<lparr>BlockFee := 229900000000000000\<rparr>) w = (Ok True, w1)"
    and w1: "sample_tables w1" and enc: "\<And>fee w. fst (encryption (next_sample\<lparr>BlockFee := fee\<rparr>) last_sample w) = Ok ()"
  shows "\<exists>bl w'. CheckBlockAndTransferFunds sample_env contracts encryption next_sample last_sample
    (Some \<lparr>Root = [], TxHashes = []\<rparr>) w = (Ok bl, w')"
proof -
  obtain w3 where st: "on_db (StoreTree mem_kv (\<lambda>ns. concat (map node_Data ns)) \<lparr>Root = [], TxHashes = []\<rparr> 7)
      w1 = (Ok (), w3)"
    and w3: "w_staking w3 = w_staking sample_world" "PoolTxEscrow w3 = PoolTxEscrow sample_world"
    using w1 by (simp add: zoom_def StoreTree_def sbind_def DB_Put_def mem_kv_def sample_tables_def sample_world_def
        split: prod.split)
  obtain w4 where rew: "reward_block sample_env (next_sample\<lparr>BlockFee := 229900000000000000\<rparr>) 0 w3 = (Ok (), w4)"
    using sample_reward_block [OF w3(1)] by blast
  have coins: "coins w1 = 100000000000000"
    using w1 by (simp add: coins_def sample_tables_def GetSupplyInAccounts_def GetSupplyInStakedAccounts_def
        sample_stake_def map_update sum_list_update_group sum_list_replicate)
  have esc: "ProcessTransactionsEscrow sample_env 7 w3 = (Ok (), w3)"
    using w3(2) by (simp add: ProcessTransactionsEscrow_def sbind_def sget_def sample_world_def
        PeekTransactions_def NewTransactionPool_def sret_def)
  have chk: "CheckBlockTransfers sample_env next_sample last_sample w = (Ok (0, 0), w)"
    by (simp add: CheckBlockTransfers_def sbind_def sret_def Let_def)
  have db: "w_db w1 = sample_keys" "w_staking w = w_staking sample_world"
    using w w1 by (simp_all add: sample_tables_def sample_world_def)
  have stk: "f64_to_i64 (Fin 100000000000000) = 100000000000000"
    by (simp add: rat_trunc_def Let_def)
  obtain w5 where "encryption (next_sample\<lparr>BlockFee := 229900000000000000\<rparr>) last_sample w4 = (Ok (), w5)"
    using enc by (metis prod.collapse)
  then show ?thesis
    using st rew esc chk coins db stk con next_sample_verified [unfolded One_nat_def]
    by (simp add: CheckBlockAndTransferFunds_def sdefer_def sbind_def slift_def sread_eq sret_def sget_def
        MinStakingForNode_def MaxTotalSupply_def ProcessBlockPubKey_def ProcessBlockTransfers_def store_tree_def sdrop_def Let_def
        RemoveAllTransactionsRelatedToBlock_def)
qed

lemma sample_block_accepted:
  assumes "sample_tables w" and "\<And>fee w. fst (encryption (next_sample\<lparr>BlockFee := fee\<rparr>) last_sample w) = Ok ()"
  shows "\<exists>bl w'. CheckBlockAndTransferFunds sample_env (\<lambda>_. sret True) encryption next_sample last_sample
    (Some \<lparr>Root = [], TxHashes = []\<rparr>) w = (Ok bl, w')"
  by (rule sample_block_accepted_with [where contracts = "\<lambda>_. sret True" and ?w1.0 = w]) (use assms in \<open>simp_all add: sret_def\<close>)

lemma sample_contracts_ok: "ledger_ok w \<Longrightarrow> contracts_ok E (\<lambda>_. sret True) w"
  by (auto simp: contracts_ok_def sret_def)

theorem accepted_block_conserves_coins_witness:
  "\<exists>bl w'. CheckBlockAndTransferFunds sample_env (\<lambda>_. sret True) (\<lambda>_ _. sret ()) next_sample last_sample
      (Some \<lparr>Root = [], TxHashes = []\<rparr>) sample_world = (Ok bl, w') \<and>
    coins w' + BlockFee bl = Supply (bl_BaseBlock bl)"
proof -
  obtain bl w' where run: "CheckBlockAndTransferFunds sample_env (\<lambda>_. sret True) (\<lambda>_ _. sret ()) next_sample
      last_sample (Some \<lparr>Root = [], TxHashes = []\<rparr>) sample_world = (Ok bl, w')"
    using sample_block_accepted [OF sample_world_tables, of "\<lambda>_ _. sret ()"] by (auto simp: sret_def)
  have "e_kv sample_env = mem_kv" "\<not> e_syncing sample_env" by (simp_all add: sample_env_def)
  then show ?thesis
    using accepted_block_conserves_coins [of sample_env map_of, OF _ _ sample_world_ok sample_contracts_ok [OF sample_world_ok] _ _ run]
      memdb.rocksdb_axioms run by (auto intro: effects)
qed



end
