(* ===== verification/Oracles.thy ===== *)
theory Oracles
  imports Staking
begin

text \<open>
  The price and random-number oracles of \<^verbatim>\<open>src/oracles/oraclesDefinition.go\<close>.  Delegated accounts
  report a price with every nonce; a block carries the price a node computed and the reports it
  used, and every other node verifies the two against each other.  The two global maps are the
  state \<open>oracles\<close>.

  The lemmas: a computed price or random number passes the verification of a node with the same
  stakes; no single report moves the price out of the range of the other reports; and a report
  that is repeated in a block counts as often as it stands there.
\<close>

section \<open>Reports\<close>

record PriceOracle =
  po_Price :: i64
  po_Height :: i64
  po_Staked :: i64

record RandOracle =
  ro_Rand :: i64
  ro_Height :: i64
  ro_Staked :: i64

record oracles =
  PriceOracles :: "(byte, PriceOracle) gomap"
  RandOracles :: "(byte, RandOracle) gomap"

definition OraclesHeightDistance :: i64 where "OraclesHeightDistance = 6"

text \<open>\<^verbatim>\<open>id\<close> is an \<^verbatim>\<open>int16\<close>: numbers outside 1 to 255 are refused.\<close>

definition SavePriceOracle :: "i64 \<Rightarrow> i64 \<Rightarrow> Address \<Rightarrow> i64 \<Rightarrow> (oracles, unit) op" where
  "SavePriceOracle price height delegatedAccount staked =
     sbind (slift (GetIDFromDelegatedAccountAddress delegatedAccount)) (\<lambda>i.
     if sint i \<le> 0 \<or> sint i \<ge> 256 then serr ''delegated account is invalid''
     else sbind (sget (\<lambda>st. map_of (PriceOracles st) (ucast i))) (\<lambda>po.
       if (case po of None \<Rightarrow> True | Some p \<Rightarrow> sint (po_Height p) \<le> sint height)
       then supd (\<lambda>st. st\<lparr>PriceOracles := mput (ucast i)
         \<lparr>po_Price = price, po_Height = height, po_Staked = staked\<rparr> (PriceOracles st)\<rparr>)
       else serr ''invalid height in price oracle''))"

definition SaveRandOracle :: "i64 \<Rightarrow> i64 \<Rightarrow> Address \<Rightarrow> i64 \<Rightarrow> (oracles, unit) op" where
  "SaveRandOracle rnd height delegatedAccount staked =
     sbind (slift (GetIDFromDelegatedAccountAddress delegatedAccount)) (\<lambda>i.
     if sint i \<le> 0 \<or> sint i \<ge> 256 then serr ''delegated account is invalid''
     else sbind (sget (\<lambda>st. map_of (RandOracles st) (ucast i))) (\<lambda>po.
       if (case po of None \<Rightarrow> True | Some p \<Rightarrow> sint (ro_Height p) \<le> sint height)
       then supd (\<lambda>st. st\<lparr>RandOracles := mput (ucast i)
         \<lparr>ro_Rand = rnd, ro_Height = height, ro_Staked = staked\<rparr> (RandOracles st)\<rparr>)
       else serr ''invalid height in rand oracle''))"

section \<open>Generating and parsing the data of a block\<close>

definition price_alive :: "i64 \<Rightarrow> PriceOracle \<Rightarrow> bool" where
  "price_alive height po \<longleftrightarrow> sint height \<le> sint (po_Height po + OraclesHeightDistance) \<and> 0 < sint (po_Price po)"

definition rand_alive :: "i64 \<Rightarrow> RandOracle \<Rightarrow> bool" where
  "rand_alive height ro \<longleftrightarrow> sint height \<le> sint (ro_Height ro + OraclesHeightDistance) \<and> 0 < sint (ro_Rand ro)"

definition GeneratePriceData :: "i64 \<Rightarrow> oracles \<Rightarrow> bytes \<times> i64 list \<times> i64" where
  "GeneratePriceData height st =
     (let alive = filter (price_alive height \<circ> snd) (PriceOracles st) in
      (concat (map (\<lambda>(i, po). [i] @ GetByteInt64 (po_Height po) @ GetByteInt64 (po_Price po)) alive),
       map (po_Price \<circ> snd) alive, sum_list (map (po_Staked \<circ> snd) alive)))"

definition GenerateRandData :: "i64 \<Rightarrow> oracles \<Rightarrow> bytes \<times> bytes \<times> i64" where
  "GenerateRandData height st =
     (let alive = filter (rand_alive height \<circ> snd) (RandOracles st) in
      (concat (map (\<lambda>(i, ro). [i] @ GetByteInt64 (ro_Height ro) @ GetByteInt64 (ro_Rand ro)) alive),
       concat (map (GetByteInt64 \<circ> ro_Rand \<circ> snd) alive), sum_list (map (ro_Staked \<circ> snd) alive)))"

text \<open>\<^verbatim>\<open>_, staked, _ := account.GetStakedInDelegatedAccount(int(id))\<close>, then \<^verbatim>\<open>int64(staked)\<close>.\<close>

definition oracle_stake :: "byte \<Rightarrow> staking \<Rightarrow> i64 result" where
  "oracle_stake i s = rbind (GetStakedInDelegatedAccount (uint i) s) (\<lambda>(_, staked, _).
     Ok (f64_to_i64 staked))"

text \<open>One record of 17 bytes: the number, the height and the value.\<close>

definition oracle_record :: "bytes \<Rightarrow> (byte \<times> i64 \<times> i64) result" where
  "oracle_record c = rbind (if c = [] then Panic else Ok (hd c)) (\<lambda>i.
     rbind (slice c 1 9) (\<lambda>h. rbind (GetInt64FromByte h) (\<lambda>height.
     rbind (slice c 9 17) (\<lambda>v. rbind (GetInt64FromByte v) (\<lambda>x. Ok (i, height, x))))))"

fun parse_price :: "staking \<Rightarrow> bytes list \<Rightarrow> (byte, PriceOracle) gomap \<Rightarrow> i64 list \<Rightarrow> i64
    \<Rightarrow> ((byte, PriceOracle) gomap \<times> i64 list \<times> i64) result" where
  "parse_price s [] parsed prices allStaked = Ok (parsed, prices, allStaked)"
| "parse_price s (c # cs) parsed prices allStaked =
     rbind (oracle_record c) (\<lambda>(i, height, price).
     rbind (oracle_stake i s) (\<lambda>staked.
       parse_price s cs (mput i \<lparr>po_Price = price, po_Height = height, po_Staked = staked\<rparr> parsed)
         (prices @ [price]) (allStaked + staked)))"

definition ParsePriceData ::
  "staking \<Rightarrow> bytes \<Rightarrow> ((byte, PriceOracle) gomap \<times> i64 list \<times> i64) result" where
  "ParsePriceData s priceData =
     (if length priceData mod 17 \<noteq> 0 then Err ''invalid priceData length''
      else parse_price s (chunks 17 (length priceData div 17) priceData) [] [] 0)"

fun parse_rand :: "staking \<Rightarrow> bytes list \<Rightarrow> (byte, RandOracle) gomap \<Rightarrow> bytes \<Rightarrow> i64
    \<Rightarrow> ((byte, RandOracle) gomap \<times> bytes \<times> i64) result" where
  "parse_rand s [] parsed rands allStaked = Ok (parsed, rands, allStaked)"
| "parse_rand s (c # cs) parsed rands allStaked =
     rbind (oracle_record c) (\<lambda>(i, height, rnd).
     rbind (oracle_stake i s) (\<lambda>staked.
       parse_rand s cs (mput i \<lparr>ro_Rand = rnd, ro_Height = height, ro_Staked = staked\<rparr> parsed)
         (rands @ take 8 (drop 9 c)) (allStaked + staked)))"

definition ParseRandData ::
  "staking \<Rightarrow> bytes \<Rightarrow> ((byte, RandOracle) gomap \<times> bytes \<times> i64) result" where
  "ParseRandData s randData =
     (if length randData mod 17 \<noteq> 0 then Err ''invalid randData length''
      else parse_rand s (chunks 17 (length randData div 17) randData) [] [] 0)"

section \<open>The price and the random number\<close>

definition Median :: "i64 list \<Rightarrow> i64" where
  "Median prices = (let mid = length prices div 2 in
     if length prices mod 2 = 0 then i64_div (prices ! (mid - 1) + prices ! mid) 2
     else prices ! mid)"

text \<open>The filter both sides apply: with more than two prices, the lowest and highest go.\<close>

definition trim_prices :: "i64 list \<Rightarrow> i64 list" where
  "trim_prices prices = (if length prices > 2
     then let sorted = sort_key sint prices in butlast (tl sorted) else prices)"

definition two_thirds :: "i64 \<Rightarrow> i64" where
  "two_thirds totalStaked = i64_div (2 * totalStaked) 3"

text \<open>The data is returned beside an error too.\<close>

definition CalculatePriceOracle :: "i64 \<Rightarrow> i64 \<Rightarrow> oracles \<Rightarrow> i64 \<times> bytes \<times> string option" where
  "CalculatePriceOracle height totalStaked st =
     (let (priceData, prices, staked) = GeneratePriceData height st in
      if sint staked \<le> sint (two_thirds totalStaked)
      then (0, priceData, Some ''in price, there is not enough staked value for 2/3'')
      else let prices = trim_prices prices in
        if prices = [] then (0, priceData, Some ''not enough prices propositions after removing min and max'')
        else (Median prices, priceData, None))"

definition VerifyPriceOracle :: "i64 \<Rightarrow> i64 \<Rightarrow> bytes \<Rightarrow> staking \<Rightarrow> bool result" where
  "VerifyPriceOracle totalStaked priceBlock priceData s =
     (case ParsePriceData s priceData of
        Err e \<Rightarrow> Ok False
      | Panic \<Rightarrow> Panic
      | Ok (_, prices, staked) \<Rightarrow>
          if sint staked \<le> sint (two_thirds totalStaked) then Ok (priceBlock = 0)
          else let prices = trim_prices prices in
            if prices = [] then Ok False else Ok (Median prices = priceBlock))"

definition rand_of :: "(bytes \<Rightarrow> bytes) \<Rightarrow> bytes \<Rightarrow> i64 result" where
  "rand_of H256 rands = rbind (slice_from (H256 rands) 24) GetInt64FromByte"

definition CalculateRandOracle ::
  "(bytes \<Rightarrow> bytes) \<Rightarrow> i64 \<Rightarrow> i64 \<Rightarrow> oracles \<Rightarrow> (i64 \<times> bytes \<times> string option) result" where
  "CalculateRandOracle H256 height totalStaked st =
     (let (randData, rands, staked) = GenerateRandData height st in
      if sint staked \<le> sint (two_thirds totalStaked)
      then Ok (0, randData, Some ''in rand, there is not enough staked value for 2/3'')
      else if rands = [] then Ok (0, randData, Some ''not enough rands propositions'')
      else rbind (rand_of H256 rands) (\<lambda>rnd. Ok (rnd, randData, None)))"

definition VerifyRandOracle ::
  "(bytes \<Rightarrow> bytes) \<Rightarrow> i64 \<Rightarrow> i64 \<Rightarrow> bytes \<Rightarrow> staking \<Rightarrow> bool result" where
  "VerifyRandOracle H256 totalStaked randBlock randData s =
     (case ParseRandData s randData of
        Err e \<Rightarrow> Ok False
      | Panic \<Rightarrow> Panic
      | Ok (_, rands, staked) \<Rightarrow>
          if sint staked \<le> sint (two_thirds totalStaked) then Ok (randBlock = 0)
          else if rands = [] then Ok False
          else rbind (rand_of H256 rands) (\<lambda>rnd. Ok (rnd = randBlock)))"

section \<open>What was generated is parsed back\<close>

definition oracle_bytes :: "byte \<times> i64 \<times> i64 \<Rightarrow> bytes" where
  "oracle_bytes = (\<lambda>(i, h, x). [i] @ GetByteInt64 h @ GetByteInt64 x)"

lemma length_oracle_bytes [simp]: "length (oracle_bytes r) = 17"
  by (simp add: oracle_bytes_def split_beta)

lemma oracle_record_bytes [simp, codec]: "oracle_record (oracle_bytes r) = Ok r"
  by (simp add: oracle_record_def oracle_bytes_def split_beta slice_def)

lemma drop_oracle_bytes [simp]: "take 8 (drop 9 (oracle_bytes r)) = GetByteInt64 (snd (snd r))"
  by (simp add: oracle_bytes_def split_beta)

lemma chunks_oracle_bytes [simp]:
  "length (concat (map oracle_bytes rs)) = 17 * length rs"
  "chunks 17 (length rs) (concat (map oracle_bytes rs)) = map oracle_bytes rs"
  using chunks_concat_nil [of "map oracle_bytes rs" 17]
  by (simp_all add: length_concat_const [where w = 17])

text \<open>The sum of the stakes behind a list of reports.\<close>

fun stakes :: "staking \<Rightarrow> byte list \<Rightarrow> i64 result" where
  "stakes s [] = Ok 0"
| "stakes s (i # is) = rbind (oracle_stake i s) (\<lambda>x. rbind (stakes s is) (\<lambda>y. Ok (x + y)))"

lemma stakes_map:
  assumes "\<And>r. r \<in> set rs \<Longrightarrow> oracle_stake (f r) s = Ok (g r)"
  shows "stakes s (map f rs) = Ok (sum_list (map g rs))"
  using assms by (induction rs) auto

lemma parse_price_records:
  assumes "stakes s (map fst rs) = Ok t"
  shows "\<exists>parsed'. parse_price s (map oracle_bytes rs) parsed prices acc =
    Ok (parsed', prices @ map (snd \<circ> snd) rs, acc + t)"
  using assms
proof (induction rs arbitrary: parsed prices acc t)
  case (Cons r rs)
  obtain x y where "oracle_stake (fst r) s = Ok x" "stakes s (map fst rs) = Ok y" "t = x + y"
    using Cons.prems by (auto simp: rbind_Ok_iff)
  then show ?case
    using Cons.IH [of y _ "prices @ [snd (snd r)]" "acc + x"] by (cases r) (simp add: add.assoc)
qed simp

lemma parse_rand_records:
  assumes "stakes s (map fst rs) = Ok t"
  shows "\<exists>parsed'. parse_rand s (map oracle_bytes rs) parsed rands acc =
    Ok (parsed', rands @ concat (map (GetByteInt64 \<circ> snd \<circ> snd) rs), acc + t)"
  using assms
proof (induction rs arbitrary: parsed rands acc t)
  case (Cons r rs)
  obtain x y where "oracle_stake (fst r) s = Ok x" "stakes s (map fst rs) = Ok y" "t = x + y"
    using Cons.prems by (auto simp: rbind_Ok_iff)
  then show ?case
    using Cons.IH [of y _ "rands @ GetByteInt64 (snd (snd r))" "acc + x"]
    by (cases r) (simp add: add.assoc)
qed simp

lemma ParsePriceData_records:
  assumes "stakes s (map fst rs) = Ok t"
  obtains parsed where "ParsePriceData s (concat (map oracle_bytes rs)) =
    Ok (parsed, map (snd \<circ> snd) rs, t)"
  using parse_price_records [OF assms, of "[]" "[]" 0] that by (auto simp: ParsePriceData_def)

lemma ParseRandData_records:
  assumes "stakes s (map fst rs) = Ok t"
  obtains parsed where "ParseRandData s (concat (map oracle_bytes rs)) =
    Ok (parsed, concat (map (GetByteInt64 \<circ> snd \<circ> snd) rs), t)"
  using parse_rand_records [OF assms, of "[]" "[]" 0] that by (auto simp: ParseRandData_def)

lemma GeneratePriceData_records:
  "GeneratePriceData height st =
    (let alive = filter (price_alive height \<circ> snd) (PriceOracles st);
         rs = map (\<lambda>(i, po). (i, po_Height po, po_Price po)) alive
     in (concat (map oracle_bytes rs), map (snd \<circ> snd) rs, sum_list (map (po_Staked \<circ> snd) alive)))"
  by (simp add: GeneratePriceData_def oracle_bytes_def Let_def comp_def case_prod_unfold)

lemma GenerateRandData_records:
  "GenerateRandData height st =
    (let alive = filter (rand_alive height \<circ> snd) (RandOracles st);
         rs = map (\<lambda>(i, ro). (i, ro_Height ro, ro_Rand ro)) alive
     in (concat (map oracle_bytes rs), concat (map (GetByteInt64 \<circ> snd \<circ> snd) rs),
         sum_list (map (ro_Staked \<circ> snd) alive)))"
  by (simp add: GenerateRandData_def oracle_bytes_def Let_def comp_def case_prod_unfold)

text \<open>The stakes recorded with the reports are those the verifying node sees.\<close>

definition price_stakes_current :: "staking \<Rightarrow> oracles \<Rightarrow> bool" where
  "price_stakes_current s st \<longleftrightarrow>
     (\<forall>(i, po) \<in> set (PriceOracles st). oracle_stake i s = Ok (po_Staked po))"

definition rand_stakes_current :: "staking \<Rightarrow> oracles \<Rightarrow> bool" where
  "rand_stakes_current s st \<longleftrightarrow>
     (\<forall>(i, ro) \<in> set (RandOracles st). oracle_stake i s = Ok (ro_Staked ro))"

lemma ParsePriceData_GeneratePriceData:
  assumes "price_stakes_current s st" and "GeneratePriceData height st = (priceData, prices, staked)"
  obtains parsed where "ParsePriceData s priceData = Ok (parsed, prices, staked)"
proof -
  define alive where "alive = filter (price_alive height \<circ> snd) (PriceOracles st)"
  define rs where "rs = map (\<lambda>(i, po). (i, po_Height po, po_Price po)) alive"
  have "stakes s (map fst alive) = Ok (sum_list (map (po_Staked \<circ> snd) alive))"
    using assms(1) by (intro stakes_map) (auto simp: price_stakes_current_def alive_def)
  moreover have "map fst rs = map fst alive" by (simp add: rs_def comp_def split_beta)
  ultimately have "stakes s (map fst rs) = Ok (sum_list (map (po_Staked \<circ> snd) alive))" by simp
  then obtain parsed where "ParsePriceData s (concat (map oracle_bytes rs)) =
      Ok (parsed, map (snd \<circ> snd) rs, sum_list (map (po_Staked \<circ> snd) alive))"
    by (rule ParsePriceData_records)
  with assms(2) that show thesis
    by (auto simp: GeneratePriceData_records Let_def rs_def alive_def simp del: map_map)
qed

lemma ParseRandData_GenerateRandData:
  assumes "rand_stakes_current s st" and "GenerateRandData height st = (randData, rands, staked)"
  obtains parsed where "ParseRandData s randData = Ok (parsed, rands, staked)"
proof -
  define alive where "alive = filter (rand_alive height \<circ> snd) (RandOracles st)"
  define rs where "rs = map (\<lambda>(i, ro). (i, ro_Height ro, ro_Rand ro)) alive"
  have "stakes s (map fst alive) = Ok (sum_list (map (ro_Staked \<circ> snd) alive))"
    using assms(1) by (intro stakes_map) (auto simp: rand_stakes_current_def alive_def)
  moreover have "map fst rs = map fst alive" by (simp add: rs_def comp_def split_beta)
  ultimately have "stakes s (map fst rs) = Ok (sum_list (map (ro_Staked \<circ> snd) alive))" by simp
  then obtain parsed where "ParseRandData s (concat (map oracle_bytes rs)) =
      Ok (parsed, concat (map (GetByteInt64 \<circ> snd \<circ> snd) rs), sum_list (map (ro_Staked \<circ> snd) alive))"
    by (rule ParseRandData_records)
  with assms(2) that show thesis
    by (auto simp: GenerateRandData_records Let_def rs_def alive_def simp del: map_map)
qed

section \<open>The range of the price\<close>

lemma two_thirds_nonneg:
  assumes "0 \<le> sint t" and "sint t < 2 ^ 62"
  shows "0 \<le> sint (two_thirds t)"
proof -
  have "sint (2 * t) = 2 * sint t" using assms sint_i64_mult [of 2 t] by simp
  moreover have "(2 * sint t) sdiv 3 = 2 * sint t div 3"
    using assms by (simp add: signed_divide_int_def sgn_if)
  moreover have "- (2 ^ 63) \<le> 2 * sint t div 3" "2 * sint t div 3 < 2 ^ 63" using assms by auto
  ultimately show ?thesis using assms(1) by (simp add: two_thirds_def i64_div_def sint_i64_of_int)
qed

lemma sint_i64_half:
  assumes "0 \<le> sint x" and "sint x < 2 ^ 62" and "0 \<le> sint y" and "sint y < 2 ^ 62"
  shows "sint (i64_div (x + y) 2) = (sint x + sint y) div 2"
proof -
  have "sint (x + y) = sint x + sint y" using assms by (intro sint_i64_add) auto
  moreover have "(sint x + sint y) sdiv 2 = (sint x + sint y) div 2"
    using assms by (simp add: signed_divide_int_def sgn_if)
  moreover have "- (2 ^ 63) \<le> (sint x + sint y) div 2" "(sint x + sint y) div 2 < 2 ^ 63"
    using assms by auto
  ultimately show ?thesis
    by (simp add: i64_div_def sint_i64_of_int)
qed

lemma half_between: "min a b \<le> (a + b) div 2 \<and> (a + b) div 2 \<le> max a (b :: int)"
  by (simp add: min_def max_def; linarith)

text \<open>The median lies between two members of its list.\<close>

lemma Median_between:
  assumes "ps \<noteq> []" and "\<forall>p \<in> set ps. 0 \<le> sint p \<and> sint p < 2 ^ 62"
  shows "\<exists>a \<in> set ps. \<exists>b \<in> set ps. sint a \<le> sint (Median ps) \<and> sint (Median ps) \<le> sint b"
proof (cases "length ps mod 2 = 0")
  case False
  have "ps ! (length ps div 2) \<in> set ps" using assms(1) by simp
  with False show ?thesis by (auto simp: Median_def Let_def)
next
  case True
  let ?m = "length ps div 2"
  let ?x = "ps ! (?m - 1)" and ?y = "ps ! ?m"
  have "0 < length ps" using assms(1) by simp
  then have "?m < length ps" "?m - 1 < length ps" by (auto simp: less_imp_diff_less)
  then have mem: "?x \<in> set ps" "?y \<in> set ps" by simp_all
  then have "sint (Median ps) = (sint ?x + sint ?y) div 2"
    using True assms(2) by (simp add: Median_def Let_def sint_i64_half)
  then have "min (sint ?x) (sint ?y) \<le> sint (Median ps)" "sint (Median ps) \<le> max (sint ?x) (sint ?y)"
    using half_between [of "sint ?x" "sint ?y"] by simp_all
  then show ?thesis
    using mem by (cases "sint ?x \<le> sint ?y") (auto simp: min_def max_def)
qed

text \<open>
  What is left after dropping the ends of a sorted list has a member of the list on either side
  of it, besides itself.
\<close>

lemma trimmed_has_company:
  fixes f :: "'a \<Rightarrow> 'b::linorder"
  assumes "p \<in> set (butlast (tl xs))" and "sorted (map f xs)"
  shows "2 \<le> length (filter (\<lambda>q. f q \<le> f p) xs)" and "2 \<le> length (filter (\<lambda>q. f p \<le> f q) xs)"
proof -
  obtain x ys where xs: "xs = x # ys" using assms(1) by (cases xs) auto
  with assms(1) obtain zs z where ys: "ys = zs @ [z]" and p: "p \<in> set zs"
    by (cases ys rule: rev_cases) auto
  have le: "f x \<le> f p" "f p \<le> f z" using assms(2) p by (auto simp: xs ys sorted_append)
  have "filter (\<lambda>q. f q \<le> f p) zs \<noteq> []" "filter (\<lambda>q. f p \<le> f q) zs \<noteq> []"
    using p by (auto simp: filter_empty_conv)
  then have "1 \<le> length (filter (\<lambda>q. f q \<le> f p) zs)" "1 \<le> length (filter (\<lambda>q. f p \<le> f q) zs)"
    by (simp_all only: length_greater_0_conv [symmetric] Suc_le_eq One_nat_def)
  with le show "2 \<le> length (filter (\<lambda>q. f q \<le> f p) xs)" "2 \<le> length (filter (\<lambda>q. f p \<le> f q) xs)"
    by (simp_all add: xs ys order_trans [OF le])
qed

lemma two_then_another:
  assumes "2 \<le> length (filter P xs)" and "i < length xs"
  shows "\<exists>j < length xs. j \<noteq> i \<and> P (xs ! j)"
proof (rule ccontr)
  assume "\<not> ?thesis"
  then have "{j. j < length xs \<and> P (xs ! j)} \<subseteq> {i}" by auto
  then have "card {j. j < length xs \<and> P (xs ! j)} \<le> card {i}" by (intro card_mono) auto
  with assms(1) show False by (simp add: length_filter_conv_card)
qed

lemma trim_prices_company:
  assumes "p \<in> set (trim_prices ps)" and "3 \<le> length ps" and "i < length ps"
  shows "\<exists>j < length ps. j \<noteq> i \<and> sint (ps ! j) \<le> sint p"
    and "\<exists>j < length ps. j \<noteq> i \<and> sint p \<le> sint (ps ! j)"
proof -
  have p: "p \<in> set (butlast (tl (sort_key sint ps)))"
    using assms(1,2) by (simp add: trim_prices_def Let_def)
  have len: "length (filter P (sort_key sint ps)) = length (filter P ps)" for P
    by (metis mset_sort mset_filter size_mset)
  have s: "sorted (map sint (sort_key sint ps))" by simp
  have "2 \<le> length (filter (\<lambda>q. sint q \<le> sint p) ps)" "2 \<le> length (filter (\<lambda>q. sint p \<le> sint q) ps)"
    using trimmed_has_company [OF p s] len by simp_all
  then show "\<exists>j < length ps. j \<noteq> i \<and> sint (ps ! j) \<le> sint p"
    and "\<exists>j < length ps. j \<noteq> i \<and> sint p \<le> sint (ps ! j)"
    using two_then_another [OF _ assms(3)] by blast+
qed

lemma set_trim_prices: "set (trim_prices ps) \<subseteq> set ps"
proof
  fix p
  assume "p \<in> set (trim_prices ps)"
  then have "p \<in> set ps \<or> p \<in> set (tl (sort_key sint ps))"
    by (auto simp: trim_prices_def Let_def dest: in_set_butlastD split: if_splits)
  then show "p \<in> set ps" by (metis list.set_sel(2) set_sort tl_Nil)
qed

section \<open>The random number\<close>

text \<open>The random number of a block passes the check of a node that sees the same stakes.\<close>

lemma CalculateRandOracle_verifies:
  assumes "rand_stakes_current s st" and "0 \<le> sint totalStaked" and "sint totalStaked < 2 ^ 62"
    and "CalculateRandOracle H256 height totalStaked st = Ok (rnd, randData, err)"
  shows "VerifyRandOracle H256 totalStaked rnd randData s = Ok True"
proof -
  obtain rands staked where gen: "GenerateRandData height st = (randData, rands, staked)"
    using assms(4) by (auto simp: CalculateRandOracle_def Let_def rbind_Ok_iff split: prod.splits if_splits)
  obtain parsed where parse: "ParseRandData s randData = Ok (parsed, rands, staked)"
    using ParseRandData_GenerateRandData [OF assms(1) gen] .
  have "rands \<noteq> []" if big: "\<not> sint staked \<le> sint (two_thirds totalStaked)"
  proof
    assume "rands = []"
    moreover have "GetByteInt64 x \<noteq> []" for x by (simp flip: length_greater_0_conv)
    ultimately have "filter (rand_alive height \<circ> snd) (RandOracles st) = []"
      using gen by (auto simp: GenerateRandData_records Let_def filter_empty_conv)
    then have "staked = 0" using gen by (auto simp: GenerateRandData_records Let_def)
    with big two_thirds_nonneg [OF assms(2,3)] show False by simp
  qed
  with assms(4) gen parse show ?thesis
    by (auto simp: CalculateRandOracle_def VerifyRandOracle_def Let_def rbind_Ok_iff split: if_splits)
qed

text \<open>So does the price.\<close>

lemma price_verifies:
  assumes "price_stakes_current s st" and "0 \<le> sint totalStaked" and "sint totalStaked < 2 ^ 62"
    and "CalculatePriceOracle height totalStaked st = (price, priceData, err)"
  shows "VerifyPriceOracle totalStaked price priceData s = Ok True"
proof -
  obtain prices staked where gen: "GeneratePriceData height st = (priceData, prices, staked)"
    using assms(4) by (auto simp: CalculatePriceOracle_def Let_def split: prod.splits if_splits)
  obtain parsed where parse: "ParsePriceData s priceData = Ok (parsed, prices, staked)"
    using ParsePriceData_GeneratePriceData [OF assms(1) gen] .
  have "trim_prices prices \<noteq> []" if big: "\<not> sint staked \<le> sint (two_thirds totalStaked)"
  proof
    assume "trim_prices prices = []"
    then have "prices = []"
      by (cases prices; cases "tl prices"; cases "tl (tl prices)")
        (auto simp: trim_prices_def Let_def dest!: arg_cong [where f = length] split: if_splits)
    then have "staked = 0" using gen by (auto simp: GeneratePriceData_def Let_def)
    with big two_thirds_nonneg [OF assms(2,3)] show False by simp
  qed
  with assms(4) gen parse show ?thesis
    by (auto simp: CalculatePriceOracle_def VerifyPriceOracle_def Let_def split: if_splits)
qed

section \<open>Properties\<close>

text \<open>
  C31: the price and the reports that a node puts into a block pass the check of every node that
  sees the stakes recorded with the reports, also when no price could be established and the
  block says 0.
\<close>

theorem CalculatePriceOracle_verifies:
  assumes "price_stakes_current s st" and "0 \<le> sint totalStaked" and "sint totalStaked < 2 ^ 62"
    and "CalculatePriceOracle height totalStaked st = (price, priceData, err)"
  shows "VerifyPriceOracle totalStaked price priceData s = Ok True"
  using assms by (rule price_verifies)

text \<open>
  C32: when at least three delegated accounts report, no single one of them decides: the price lies
  between two prices that others reported (prices below \<open>2 ^ 62\<close>, so that the mean of two of them
  does not wrap around).
\<close>

theorem price_within_other_reports:
  assumes "CalculatePriceOracle height totalStaked st = (price, priceData, None)"
    and "prices = fst (snd (GeneratePriceData height st))"
    and "3 \<le> length prices" and "\<forall>p \<in> set prices. sint p < 2 ^ 62" and "i < length prices"
  shows "(\<exists>j < length prices. j \<noteq> i \<and> sint (prices ! j) \<le> sint price) \<and>
    (\<exists>j < length prices. j \<noteq> i \<and> sint price \<le> sint (prices ! j))"
proof -
  have pos: "\<forall>p \<in> set prices. 0 \<le> sint p"
    by (auto simp: assms(2) GeneratePriceData_def Let_def price_alive_def)
  have price: "trim_prices prices \<noteq> []" "price = Median (trim_prices prices)"
    using assms(1,2) by (auto simp: CalculatePriceOracle_def Let_def split: prod.splits if_splits)
  have "\<forall>p \<in> set (trim_prices prices). 0 \<le> sint p \<and> sint p < 2 ^ 62"
    using pos assms(4) set_trim_prices [of prices] by auto
  then obtain a b where ab: "a \<in> set (trim_prices prices)" "b \<in> set (trim_prices prices)"
      "sint a \<le> sint price" "sint price \<le> sint b"
    using Median_between [OF price(1)] price(2) by blast
  from trim_prices_company(1) [OF ab(1) assms(3,5)] trim_prices_company(2) [OF ab(2) assms(3,5)] ab(3,4)
  show ?thesis by (meson order_trans)
qed

text \<open>
  the check of a block does not ask whether a delegated account stands in the reports more
  than once: a single account whose stake, taken \<open>k\<close> times, exceeds two thirds of the total can
  set any positive price by repeating its report \<open>k\<close> times.
\<close>

lemma VerifyPriceOracle_repeated_report:
  assumes "oracle_stake i s = Ok x" and "0 < k"
    and "sint (two_thirds totalStaked) < sint (of_nat k * x)"
    and "0 < sint price" and "sint price < 2 ^ 62"
  shows "VerifyPriceOracle totalStaked price
    (concat (replicate k (oracle_bytes (i, height, price)))) s = Ok True"
proof -
  let ?rs = "replicate k (i, height, price)"
  have "stakes s (replicate k i) = Ok (of_nat k * x)"
    using assms(1) by (induction k) (simp_all add: algebra_simps)
  then obtain parsed where "ParsePriceData s (concat (map oracle_bytes ?rs)) =
      Ok (parsed, replicate k price, of_nat k * x)"
    using ParsePriceData_records [of s ?rs "of_nat k * x"] by auto
  moreover have ne: "trim_prices (replicate k price) \<noteq> []"
    using assms(2) by (auto simp: trim_prices_def Let_def dest!: arg_cong [where f = length])
  moreover have one: "\<forall>p \<in> set (trim_prices (replicate k price)). p = price"
    using set_trim_prices [of "replicate k price"] by auto
  then have "Median (trim_prices (replicate k price)) = price"
    using Median_between [OF ne] assms(4,5) by (force simp: sint_i64_eq_iff)
  ultimately show ?thesis using assms(3) by (simp add: VerifyPriceOracle_def Let_def)
qed

text \<open>Sample data: delegated account 1 holds the whole stake, 30.\<close>

definition oracle_staking :: staking where
  "oracle_staking = [[], [(sample_addr 1, zero_StakingAccount\<lparr>StakedBalance := 30\<rparr>)]] @ replicate 254 []"

definition sample_oracles :: oracles where
  "sample_oracles = \<lparr>PriceOracles = [(1, \<lparr>po_Price = 5, po_Height = 9, po_Staked = 30\<rparr>)], RandOracles = []\<rparr>"

definition three_oracles :: oracles where
  "three_oracles = \<lparr>PriceOracles = [(1, \<lparr>po_Price = 5, po_Height = 9, po_Staked = 10\<rparr>),
     (2, \<lparr>po_Price = 6, po_Height = 9, po_Staked = 10\<rparr>),
     (3, \<lparr>po_Price = 900, po_Height = 9, po_Staked = 10\<rparr>)], RandOracles = []\<rparr>"

lemma oracle_stake_sample: "oracle_stake 1 oracle_staking = Ok 30"
proof -
  have "f64_round (of_int 30) = Fin (of_int 30)" by (rule f64_round_of_int) simp
  then show ?thesis
    by (simp add: oracle_stake_def GetStakedInDelegatedAccount_def staking_at_def oracle_staking_def
        i64_to_f64_def rat_trunc_def Let_def)
qed

theorem CalculatePriceOracle_verifies_witness:
  "VerifyPriceOracle 30 (fst (CalculatePriceOracle 10 30 sample_oracles))
     (fst (snd (CalculatePriceOracle 10 30 sample_oracles))) oracle_staking = Ok True \<and>
   fst (CalculatePriceOracle 10 30 sample_oracles) = 5"
proof
  have "price_stakes_current oracle_staking sample_oracles"
    by (simp add: price_stakes_current_def sample_oracles_def oracle_stake_sample)
  then show "VerifyPriceOracle 30 (fst (CalculatePriceOracle 10 30 sample_oracles))
     (fst (snd (CalculatePriceOracle 10 30 sample_oracles))) oracle_staking = Ok True"
    using CalculatePriceOracle_verifies [of oracle_staking sample_oracles 30 10] by (simp add: prod_eq_iff)
  show "fst (CalculatePriceOracle 10 30 sample_oracles) = 5" by code_simp
qed

theorem price_within_other_reports_witness:
  "\<exists>j < 3. j \<noteq> 2 \<and> sint (fst (CalculatePriceOracle 10 30 three_oracles)) \<le>
     sint (fst (snd (GeneratePriceData 10 three_oracles)) ! j)"
proof -
  have run: "CalculatePriceOracle 10 30 three_oracles =
      (6, fst (GeneratePriceData 10 three_oracles), None)" by code_simp
  have prices: "fst (snd (GeneratePriceData 10 three_oracles)) = [5, 6, 900]" by code_simp
  show ?thesis
    using price_within_other_reports [OF run refl, of 2] by (simp add: prices run numeral_3_eq_3)
qed

lemma VerifyPriceOracle_repeated_report_example:
  "VerifyPriceOracle 60 7 (concat (replicate 2 (oracle_bytes (1, 9, 7)))) oracle_staking = Ok True"
  by (rule VerifyPriceOracle_repeated_report [OF oracle_stake_sample]) (simp_all, code_simp)

end
