(* ===== verification/Voting.thy ===== *)
theory Voting
  imports Oracles
begin

text \<open>
  Votes on the signature schemes: \<^verbatim>\<open>src/voting/votingEncryptionSchemes.go\<close>.  The delegated accounts
  vote with their nonces for the bytes of an encryption configuration; a scheme may be paused when
  more than a third of the stake voted for the same bytes and replaced when more than two thirds did.

  The lemmas: what the verification demands of the votes, exactly, including the one dissenting
  vote it forgives; that votes past their time are dropped and no others; and which accounts a
  vote and a reset can reach.
\<close>

section \<open>Votes\<close>

record Votes =
  vo_Values :: bytes
  vo_Height :: i64
  vo_Staked :: i64

type_synonym votes = "(byte, Votes) gomap"

record voting =
  VotesEncryption1 :: votes
  VotesEncryption2 :: votes
  AfterReset :: bool

definition VotingHeightDistance :: i64 where "VotingHeightDistance = 60"

text \<open>The common body of the two operations: the number is an \<^verbatim>\<open>int16\<close>, and no lower bound is checked.\<close>

definition save_votes :: "bytes \<Rightarrow> i64 \<Rightarrow> Address \<Rightarrow> i64 \<Rightarrow> string \<Rightarrow> (votes, unit) op" where
  "save_votes vals height delegatedAccount staked msg =
     (if length vals = 0 then sret ()
      else sbind (slift (GetIDFromDelegatedAccountAddress delegatedAccount)) (\<lambda>i.
        if sint i \<ge> 256 then serr ''delegated account is invalid''
        else sbind (sget (\<lambda>m. map_of m (ucast i))) (\<lambda>po.
          if (case po of None \<Rightarrow> True | Some p \<Rightarrow> sint (vo_Height p) \<le> sint height)
          then supd (mput (ucast i) \<lparr>vo_Values = vals, vo_Height = height, vo_Staked = staked\<rparr>)
          else serr msg)))"

definition SaveVotesEncryption1 :: "bytes \<Rightarrow> i64 \<Rightarrow> Address \<Rightarrow> i64 \<Rightarrow> (voting, unit) op" where
  "SaveVotesEncryption1 vals height delegatedAccount staked =
     zoom VotesEncryption1 VotesEncryption1_update
       (save_votes vals height delegatedAccount staked ''invalid height in voting, 1'')"

definition SaveVotesEncryption2 :: "bytes \<Rightarrow> i64 \<Rightarrow> Address \<Rightarrow> i64 \<Rightarrow> (voting, unit) op" where
  "SaveVotesEncryption2 vals height delegatedAccount staked =
     zoom VotesEncryption2 VotesEncryption2_update
       (save_votes vals height delegatedAccount staked ''invalid height in voting, 2'')"

text \<open>\<^verbatim>\<open>for i := uint8(0); i < uint8(255); i++ { delete(...) }\<close>.\<close>

definition ResetLastVoting :: "voting \<Rightarrow> voting" where
  "ResetLastVoting v = \<lparr>
     VotesEncryption1 = fold (\<lambda>i. mdel (word_of_nat i)) [0..<255] (VotesEncryption1 v),
     VotesEncryption2 = fold (\<lambda>i. mdel (word_of_nat i)) [0..<255] (VotesEncryption2 v),
     AfterReset = True\<rparr>"

section \<open>The votes in force\<close>

definition vote_alive :: "i64 \<Rightarrow> Votes \<Rightarrow> bool" where
  "vote_alive height po \<longleftrightarrow>
     sint height \<le> sint (vo_Height po + VotingHeightDistance) \<and> length (vo_Values po) > 0"

text \<open>The common body: the data, values and stake of the votes in force; the others are deleted.\<close>

definition generate_data :: "i64 \<Rightarrow> votes \<Rightarrow> (bytes \<times> bytes list \<times> i64) \<times> votes" where
  "generate_data height m =
     (let alive = filter (vote_alive height \<circ> snd) m;
          toRemove = map fst (filter (\<lambda>p. \<not> vote_alive height (snd p)) m)
      in ((concat (map (\<lambda>(i, po). [i] @ GetByteInt64 (vo_Height po) @ BytesToLenAndBytes (vo_Values po)) alive),
           map (vo_Values \<circ> snd) alive, sum_list (map (vo_Staked \<circ> snd) alive)),
          fold mdel toRemove m))"

definition GenerateEncryption1Data :: "i64 \<Rightarrow> (voting, bytes \<times> bytes list \<times> i64) op" where
  "GenerateEncryption1Data height v = (let (r, m) = generate_data height (VotesEncryption1 v)
     in (Ok r, v\<lparr>VotesEncryption1 := m\<rparr>))"

definition GenerateEncryption2Data :: "i64 \<Rightarrow> (voting, bytes \<times> bytes list \<times> i64) op" where
  "GenerateEncryption2Data height v = (let (r, m) = generate_data height (VotesEncryption2 v)
     in (Ok r, v\<lparr>VotesEncryption2 := m\<rparr>))"

text \<open>
  \<^verbatim>\<open>ParseVotesData\<close>: the position \<open>i\<close> advances by 17 in each round while the buffer itself shrinks.
  \<open>n\<close> is the number of rounds left.
\<close>

fun parse_votes :: "staking \<Rightarrow> nat \<Rightarrow> nat \<Rightarrow> bytes \<Rightarrow> votes \<Rightarrow> bytes list \<Rightarrow> i64 \<Rightarrow> (votes \<times> bytes list \<times> i64) result" where
  "parse_votes s 0 i b parsed vals allStaked = Ok (parsed, vals, allStaked)"
| "parse_votes s (Suc n) i b parsed vals allStaked =
     rbind (if i < length b then Ok (b ! i) else Panic) (\<lambda>d.
     rbind (slice b (i + 1) (i + 9)) (\<lambda>h. rbind (GetInt64FromByte h) (\<lambda>height.
     rbind (slice_from b (i + 9)) (\<lambda>r. rbind (BytesWithLenToBytes r) (\<lambda>(val, b').
     rbind (oracle_stake d s) (\<lambda>staked.
       parse_votes s n (i + 17) b'
         (mput d \<lparr>vo_Values = val, vo_Height = height, vo_Staked = staked\<rparr> parsed)
         (vals @ [val]) (allStaked + staked)))))))"

definition ParseVotesData :: "staking \<Rightarrow> bytes \<Rightarrow> (votes \<times> bytes list \<times> i64) result" where
  "ParseVotesData s votingData =
     (if length votingData mod 17 \<noteq> 0 then Err ''invalid priceData length''
      else parse_votes s (length votingData div 17) 0 votingData [] [] 0)"

section \<open>Agreement\<close>

text \<open>The first loop: how often each value was seen, the value that first reached the largest count.\<close>

fun count_votes :: "bytes list \<Rightarrow> (bytes, nat) gomap \<Rightarrow> bytes \<Rightarrow> nat \<Rightarrow> bytes \<times> nat" where
  "count_votes [] byteCount commonPattern maxCount = (commonPattern, maxCount)"
| "count_votes (v # vs) byteCount commonPattern maxCount =
     (let c = mgetd 0 byteCount v + 1; byteCount' = mput v c byteCount
      in if c > maxCount then count_votes vs byteCount' v c
         else count_votes vs byteCount' commonPattern maxCount)"

text \<open>The second loop: all values but the first that differs from the pattern.\<close>

fun drop_outlier :: "bytes \<Rightarrow> bool \<Rightarrow> bytes list \<Rightarrow> bytes list" where
  "drop_outlier commonPattern outlierRemoved [] = []"
| "drop_outlier commonPattern outlierRemoved (v # vs) =
     (if v \<noteq> commonPattern \<and> \<not> outlierRemoved then drop_outlier commonPattern True vs
      else v # drop_outlier commonPattern outlierRemoved vs)"

definition removeOneDifferent :: "bytes list \<Rightarrow> bytes list" where
  "removeOneDifferent vals = (if length vals \<le> 1 then vals
     else drop_outlier (fst (count_votes vals [] [] 0)) False vals)"

text \<open>What the two verifications have in common, after the check of the stake.\<close>

definition votes_agree :: "bytes list \<Rightarrow> bool" where
  "votes_agree vals0 = (let vals = (if length vals0 > 2 then removeOneDifferent vals0 else vals0)
     in vals \<noteq> [] \<and> (\<forall>b \<in> set vals. hd vals = b))"

definition VerifyEncryptionForPausing :: "i64 \<Rightarrow> i64 \<Rightarrow> bool \<Rightarrow> (voting, bool) op" where
  "VerifyEncryptionForPausing height totalStaked primary =
     sbind (if primary then GenerateEncryption1Data height else GenerateEncryption2Data height)
       (\<lambda>(_, vals, staked).
     if sint staked \<le> sint (i64_div totalStaked 3) then sret False
     else sret (votes_agree vals))"

definition VerifyEncryptionForReplacing :: "i64 \<Rightarrow> i64 \<Rightarrow> bool \<Rightarrow> (voting, bool) op" where
  "VerifyEncryptionForReplacing height totalStaked primary =
     sbind (if primary then GenerateEncryption1Data height else GenerateEncryption2Data height)
       (\<lambda>(_, vals, staked).
     if sint staked \<le> sint (i64_div (2 * totalStaked) 3) then sret False
     else sret (votes_agree vals))"

section \<open>What agreement means\<close>

lemma drop_outlier_True: "drop_outlier p True vs = vs"
  by (induction vs) auto

lemma drop_outlier_same: "\<forall>v \<in> set vs. v = p \<Longrightarrow> drop_outlier p b vs = vs"
  by (induction vs) auto

lemma drop_outlier_split:
  "\<forall>v \<in> set xs. v = p \<Longrightarrow> y \<noteq> p \<Longrightarrow> drop_outlier p False (xs @ y # ys) = xs @ ys"
  by (induction xs) (auto simp: drop_outlier_True)

text \<open>
  The invariant of the counting loop: counts are right, and the pattern is a value seen whose
  count is the largest.
\<close>

lemma count_votes_max:
  assumes "\<And>v. mgetd 0 cnt v = count_list seen v" and "mx = count_list seen p" 
    and "\<And>v. count_list seen v \<le> mx"
  shows "\<exists>q. count_votes vs cnt p mx = (q, count_list (seen @ vs) q) \<and>
    (\<forall>v. count_list (seen @ vs) v \<le> count_list (seen @ vs) q)"
  using assms
proof (induction vs arbitrary: seen cnt p mx)
  case Nil
  then show ?case by auto
next
  case (Cons v vs)
  let ?c = "mgetd 0 cnt v + 1"
  have c: "?c = count_list (seen @ [v]) v" using Cons.prems(1) by simp
  have cnt: "mgetd 0 (mput v ?c cnt) w = count_list (seen @ [v]) w" for w
    using Cons.prems(1) by simp
  show ?case
  proof (cases "?c > mx")
    case True
    have "count_list (seen @ [v]) w \<le> ?c" for w
      using Cons.prems(3) [of w] True c by auto
    with Cons.IH [of "mput v ?c cnt" "seen @ [v]" ?c v] cnt c True show ?thesis
      by (simp add: Let_def)
  next
    case False
    have "p \<noteq> v" using False Cons.prems(1,2) by auto
    then have "mx = count_list (seen @ [v]) p" using Cons.prems(2) by simp
    moreover have "count_list (seen @ [v]) w \<le> mx" for w
      using Cons.prems(1,3) [of w] False by (cases "w = v") auto
    ultimately show ?thesis
      using Cons.IH [of "mput v ?c cnt" "seen @ [v]" mx p] cnt False by (simp add: Let_def)
  qed
qed

lemma pattern_most_frequent:
  obtains p where "removeOneDifferent vals = (if length vals \<le> 1 then vals else drop_outlier p False vals)"
    and "\<And>v. count_list vals v \<le> count_list vals p"
  using count_votes_max [of "[]" "[]" 0 "[]" vals] that
  by (auto simp: removeOneDifferent_def mgetd_def)

text \<open>All votes but at most one are for the same value.\<close>

definition all_but_one :: "'a \<Rightarrow> 'a list \<Rightarrow> bool" where
  "all_but_one p vs \<longleftrightarrow> length (filter (\<lambda>v. v \<noteq> p) vs) \<le> 1"

lemma all_but_one_cases:
  assumes "all_but_one p vs"
  shows "(\<forall>v \<in> set vs. v = p) \<or> (\<exists>xs y ys. vs = xs @ y # ys \<and> y \<noteq> p \<and>
    (\<forall>v \<in> set xs. v = p) \<and> (\<forall>v \<in> set ys. v = p))"
proof (cases "filter (\<lambda>v. v \<noteq> p) vs")
  case Nil
  then show ?thesis by (auto simp: filter_empty_conv)
next
  case (Cons y ys)
  with assms have "filter (\<lambda>v. v \<noteq> p) vs = [y]" by (cases ys) (auto simp: all_but_one_def)
  then obtain us ws where "vs = us @ y # ws" "\<forall>u \<in> set us. u = p" "y \<noteq> p"
      "filter (\<lambda>v. v \<noteq> p) ws = []"
    by (auto simp: filter_eq_Cons_iff)
  then show ?thesis by (fastforce simp: filter_empty_conv)
qed

lemma drop_outlier_same_iff:
  "(\<forall>v \<in> set (drop_outlier p False vs). v = p) \<longleftrightarrow> all_but_one p vs"
proof
  assume all: "\<forall>v \<in> set (drop_outlier p False vs). v = p"
  show "all_but_one p vs"
  proof (cases "\<forall>v \<in> set vs. v = p")
    case True
    then show ?thesis by (simp add: all_but_one_def filter_False)
  next
    case False
    then obtain xs y ys where "vs = xs @ y # ys" "y \<noteq> p" "\<forall>v \<in> set xs. v = p"
      using split_list_first_prop [of vs "\<lambda>v. v \<noteq> p"] by auto
    with all show ?thesis
      by (auto simp: all_but_one_def drop_outlier_split filter_False)
  qed
next
  assume "all_but_one p vs"
  from all_but_one_cases [OF this] show "\<forall>v \<in> set (drop_outlier p False vs). v = p"
    by (auto simp: drop_outlier_split drop_outlier_same)
qed

lemma length_drop_outlier: "length vs \<le> Suc (length (drop_outlier p b vs))"
  by (induction p b vs rule: drop_outlier.induct) (auto simp: drop_outlier_True)

lemma all_but_one_count: "all_but_one p vs \<Longrightarrow> length vs \<le> Suc (count_list vs p)"
proof -
  have "length vs = count_list vs p + length (filter (\<lambda>v. v \<noteq> p) vs)"
    by (induction vs) auto
  then show "all_but_one p vs \<Longrightarrow> length vs \<le> Suc (count_list vs p)" by (simp add: all_but_one_def)
qed

lemma count_two: "v \<noteq> w \<Longrightarrow> count_list vs v + count_list vs w \<le> length vs"
  by (induction vs) auto

text \<open>
  Three or more votes agree when all but one are the same, fewer when all are.
\<close>

definition in_agreement :: "bytes list \<Rightarrow> bool" where
  "in_agreement vals \<longleftrightarrow> vals \<noteq> [] \<and>
     (if length vals > 2 then \<exists>p. all_but_one p vals else \<forall>v \<in> set vals. v = hd vals)"

lemma all_but_one_of_split:
  "\<forall>v \<in> set xs. v = p \<Longrightarrow> \<forall>v \<in> set ys. v = p \<Longrightarrow> all_but_one p (xs @ y # ys)"
  by (auto simp: all_but_one_def filter_False)

lemma drop_outlier_agree:
  assumes "\<forall>v \<in> set (drop_outlier p False vs). v = q"
  shows "\<exists>r. all_but_one r vs"
proof (cases "\<forall>v \<in> set vs. v = p")
  case True
  then show ?thesis by (intro exI [of _ p]) (simp add: all_but_one_def filter_False)
next
  case False
  then obtain xs y ys where vs: "vs = xs @ y # ys" "y \<noteq> p" "\<forall>v \<in> set xs. v = p"
    using split_list_first_prop [of vs "\<lambda>v. v \<noteq> p"] by auto
  with assms show ?thesis
    by (intro exI [of _ q]) (simp add: drop_outlier_split all_but_one_of_split)
qed

lemma votes_agree_iff: "votes_agree vals \<longleftrightarrow> in_agreement vals"
proof (cases "length vals > 2")
  case False
  then show ?thesis by (auto simp: votes_agree_def in_agreement_def)
next
  case True
  obtain p where rem: "removeOneDifferent vals = drop_outlier p False vals"
    and most: "\<And>v. count_list vals v \<le> count_list vals p"
    using pattern_most_frequent [of vals] True by auto
  have ne: "drop_outlier p False vals \<noteq> []"
    using length_drop_outlier [of vals p False] True by auto
  show ?thesis
  proof
    assume "votes_agree vals"
    then have "\<exists>r. all_but_one r vals"
      using True rem drop_outlier_agree [of p vals "hd (drop_outlier p False vals)"]
      by (auto simp: votes_agree_def Let_def)
    with True show "in_agreement vals" by (auto simp: in_agreement_def)
  next
    assume "in_agreement vals"
    then obtain r where r: "all_but_one r vals" using True by (auto simp: in_agreement_def)
    have "r = p"
      using all_but_one_count [OF r] most [of r] count_two [of p r vals] True by fastforce
    with r drop_outlier_same_iff [of p vals] have same: "\<forall>v \<in> set (drop_outlier p False vals). v = p"
      by simp
    then have "hd (drop_outlier p False vals) = p" using list.set_sel(1) [OF ne] by (rule bspec)
    then have "\<forall>b \<in> set (drop_outlier p False vals). hd (drop_outlier p False vals) = b"
      using same by (metis (full_types))
    with ne show "votes_agree vals"
      unfolding votes_agree_def Let_def if_P [OF True] rem by blast
  qed
qed

section \<open>What is deleted\<close>

lemma map_of_fold_mdel:
  "map_of (fold mdel ks m) k = (if k \<in> set ks then None else map_of m k)"
  by (induction ks arbitrary: m) (auto simp: delete_conv')

lemma map_of_filter_snd:
  "gomap_ok m \<Longrightarrow> map_of (filter (P \<circ> snd) m) k =
    (case map_of m k of Some v \<Rightarrow> if P v then Some v else None | None \<Rightarrow> None)"
  by (induction m) (auto split: option.splits dest: map_of_SomeD, force dest: map_of_SomeD)

lemma generate_data_deletes:
  assumes "gomap_ok m"
  shows "map_of (snd (generate_data height m)) = map_of (filter (vote_alive height \<circ> snd) m)"
proof
  fix k
  have "k \<in> set (map fst (filter (\<lambda>p. \<not> vote_alive height (snd p)) m)) \<longleftrightarrow>
      (\<exists>v. map_of m k = Some v \<and> \<not> vote_alive height v)"
    using assms by (force simp: image_iff)
  then show "map_of (snd (generate_data height m)) k = map_of (filter (vote_alive height \<circ> snd) m) k"
    using assms
    by (cases "map_of m k")
      (simp_all only: generate_data_def Let_def map_of_fold_mdel map_of_filter_snd snd_conv, simp_all)
qed

text \<open>One of the two tables of votes.\<close>

definition votes_of :: "bool \<Rightarrow> voting \<Rightarrow> votes" where
  "votes_of primary v = (if primary then VotesEncryption1 v else VotesEncryption2 v)"

definition votes_in_force :: "i64 \<Rightarrow> votes \<Rightarrow> votes" where
  "votes_in_force height m = filter (vote_alive height \<circ> snd) m"

lemma generate_either:
  "(if primary then GenerateEncryption1Data height else GenerateEncryption2Data height) v = (r, v') \<Longrightarrow>
    \<exists>d. r = Ok (d, map (vo_Values \<circ> snd) (votes_in_force height (votes_of primary v)),
      sum_list (map (vo_Staked \<circ> snd) (votes_in_force height (votes_of primary v)))) \<and>
    votes_of primary v' = snd (generate_data height (votes_of primary v)) \<and>
    votes_of (\<not> primary) v' = votes_of (\<not> primary) v"
  by (cases primary) (auto simp: GenerateEncryption1Data_def GenerateEncryption2Data_def
      generate_data_def votes_of_def votes_in_force_def Let_def)

section \<open>Properties\<close>

text \<open>
  C33: the votes allow a scheme to be replaced exactly when the votes in force carry more than two
  thirds of the stake and agree: with one or two votes all of them, with more all but at most one.
  The check deletes the votes that are past their time or empty, and nothing else.
\<close>

theorem VerifyEncryptionForReplacing_exact:
  assumes "gomap_ok (votes_of primary v)"
    and "VerifyEncryptionForReplacing height totalStaked primary v = (r, v')"
  shows "r = Ok (sint (two_thirds totalStaked) <
      sint (sum_list (map (vo_Staked \<circ> snd) (votes_in_force height (votes_of primary v)))) \<and>
      in_agreement (map (vo_Values \<circ> snd) (votes_in_force height (votes_of primary v)))) \<and>
    map_of (votes_of primary v') = map_of (votes_in_force height (votes_of primary v)) \<and>
    votes_of (\<not> primary) v' = votes_of (\<not> primary) v"
proof -
  let ?m = "(if primary then GenerateEncryption1Data height else GenerateEncryption2Data height)"
  obtain g w where g: "?m v = (g, w)" by fastforce
  then obtain d where d: "g = Ok (d, map (vo_Values \<circ> snd) (votes_in_force height (votes_of primary v)),
      sum_list (map (vo_Staked \<circ> snd) (votes_in_force height (votes_of primary v))))"
    "votes_of primary w = snd (generate_data height (votes_of primary v))"
    "votes_of (\<not> primary) w = votes_of (\<not> primary) v"
    using generate_either by blast
  have "v' = w" and "r = Ok (\<not> sint (sum_list (map (vo_Staked \<circ> snd) (votes_in_force height (votes_of primary v))))
      \<le> sint (two_thirds totalStaked) \<and> votes_agree (map (vo_Values \<circ> snd) (votes_in_force height (votes_of primary v))))"
    using assms(2) g d(1)
    by (auto simp: VerifyEncryptionForReplacing_def sbind_def two_thirds_def sret_def split: if_splits)
  with d(2,3) assms(1) show ?thesis
    by (simp add: votes_agree_iff generate_data_deletes votes_in_force_def not_le)
qed

definition sample_votes :: voting where
  "sample_votes = \<lparr>VotesEncryption1 =
     [(1, \<lparr>vo_Values = [7], vo_Height = 5, vo_Staked = 10\<rparr>), (2, \<lparr>vo_Values = [8], vo_Height = 5, vo_Staked = 10\<rparr>),
      (3, \<lparr>vo_Values = [7], vo_Height = 5, vo_Staked = 10\<rparr>)], VotesEncryption2 = [], AfterReset = False\<rparr>"

theorem VerifyEncryptionForReplacing_exact_witness:
  "fst (VerifyEncryptionForReplacing 9 30 True sample_votes) = Ok True"
proof -
  have ok: "gomap_ok (votes_of True sample_votes)" by code_simp
  have agree: "all_but_one [7] (map (vo_Values \<circ> snd) (votes_in_force 9 (votes_of True sample_votes)))"
    and vals: "length (map (vo_Values \<circ> snd) (votes_in_force 9 (votes_of True sample_votes))) = 3"
    and stake: "sint (two_thirds 30) <
      sint (sum_list (map (vo_Staked \<circ> snd) (votes_in_force 9 (votes_of True sample_votes))))"
    by code_simp+
  then have "in_agreement (map (vo_Values \<circ> snd) (votes_in_force 9 (votes_of True sample_votes)))"
    by (auto simp: in_agreement_def)
  with VerifyEncryptionForReplacing_exact [OF ok surjective_pairing, of 9 30] stake show ?thesis by simp
qed

text \<open>
  A reset forgets the votes of every delegated account except account 255, whose vote stays in
  force.
\<close>

lemma ResetLastVoting_forgets:
  "map_of (VotesEncryption1 (ResetLastVoting v)) i = (if i = 255 then map_of (VotesEncryption1 v) i else None) \<and>
   map_of (VotesEncryption2 (ResetLastVoting v)) i = (if i = 255 then map_of (VotesEncryption2 v) i else None)"
proof -
  have "(i :: byte) \<in> set (map word_of_nat [0..<255]) \<longleftrightarrow> i \<noteq> 255"
  proof
    show "i \<in> set (map word_of_nat [0..<255]) \<Longrightarrow> i \<noteq> 255"
      by (auto dest!: arg_cong [where f = unat] simp: unsigned_of_nat take_bit_nat_eq_self)
    assume "i \<noteq> 255"
    then have "unat i \<noteq> 255" by (metis of_nat_numeral of_nat_unat ucast_id)
    moreover have "unat i < 256" using unsigned_less [of i, where 'a = nat] by simp
    ultimately have "unat i < 255" by linarith
    moreover have "i = word_of_nat (unat i)" by simp
    ultimately show "i \<in> set (map word_of_nat [0..<255])" by (force simp: image_iff)
  qed
  moreover have "fold (\<lambda>i. mdel (word_of_nat i)) ks m = fold mdel (map word_of_nat ks) (m :: votes)" for ks m
    by (simp add: fold_map comp_def)
  ultimately show ?thesis by (simp only: ResetLastVoting_def voting.simps map_of_fold_mdel if_bool_eq_conj) auto
qed

end
