(* ===== verification/Message.thy ===== *)
theory Message
  imports Transaction
begin

text \<open>
  Messages between nodes: \<^verbatim>\<open>src/message/baseMessage.go\<close> and \<^verbatim>\<open>baseTransactionMessage.go\<close>.  A message has a
  head of two bytes, a chain number and, by topic, lists of byte strings.  \<open>chain\<close> is the value of
  \<^verbatim>\<open>common.GetChainID()\<close>.

  The lemmas: a message comes back from its bytes, and exactly which bytes are a valid message.
\<close>

section \<open>Messages\<close>

definition validHead :: "string list" where
  "validHead = [''nn'', ''bl'', ''rb'', ''tx'', ''gt'', ''st'', ''bt'', ''hi'', ''gh'', ''sh'']"

record BaseMessage =
  Head :: bytes
  ChainID :: i16

type_synonym topic = bytes

record TransactionsMessage =
  tm_BaseMessage :: BaseMessage
  TransactionsBytes :: "(topic, bytes list) gomap"

definition zero_BaseMessage :: BaseMessage where
  "zero_BaseMessage = \<lparr>Head = [], ChainID = 0\<rparr>"

text \<open>\<^verbatim>\<open>string(b)\<close> and \<^verbatim>\<open>[]byte(s)\<close> for the single-byte characters of the heads.\<close>

definition bytes_string :: "bytes \<Rightarrow> string" where
  "bytes_string b = map (\<lambda>x. char_of (unat x)) b"

definition string_bytes :: "string \<Rightarrow> bytes" where
  "string_bytes s = map (\<lambda>c. word_of_nat (of_char c)) s"

definition BaseMessage_GetBytes :: "BaseMessage \<Rightarrow> bytes" where
  "BaseMessage_GetBytes m = Head m @ GetByteInt16 (ChainID m)"

text \<open>
  The method logs what is wrong and returns early; an unknown head stays in the receiver with
  the old chain number, and a wrong chain number is stored all the same.
\<close>

definition BaseMessage_GetFromBytes :: "bytes \<Rightarrow> BaseMessage \<Rightarrow> BaseMessage result" where
  "BaseMessage_GetFromBytes b m =
     (if length b \<noteq> 4 then Ok m
      else let m1 = m\<lparr>Head := take 2 b\<rparr> in
        if \<not> ContainsKey validHead (bytes_string (Head m1)) then Ok m1
        else rbind (GetInt16FromByte (take 2 (drop 2 b))) (\<lambda>c. Ok (m1\<lparr>ChainID := c\<rparr>)))"

definition CheckMessage :: "i16 \<Rightarrow> TransactionsMessage \<Rightarrow> bool" where
  "CheckMessage chain a \<longleftrightarrow>
     (\<exists>key \<in> set validHead. Head (tm_BaseMessage a) = string_bytes key) \<and>
     ChainID (tm_BaseMessage a) = chain"

section \<open>The byte format\<close>

definition topic_bytes :: "topic \<times> bytes list \<Rightarrow> bytes" where
  "topic_bytes = (\<lambda>(key, sb). key @ GetByteInt32 (word_of_nat (length sb)) @
     concat (map BytesToLenAndBytes sb))"

definition TransactionsMessage_GetBytes :: "TransactionsMessage \<Rightarrow> bytes" where
  "TransactionsMessage_GetBytes a = BaseMessage_GetBytes (tm_BaseMessage a) @
     GetByteInt32 (word_of_nat (length (TransactionsBytes a))) @
     concat (map topic_bytes (TransactionsBytes a))"

text \<open>The inner loop: \<open>n\<close> more byte strings of one topic.\<close>

fun read_strings :: "nat \<Rightarrow> bytes \<Rightarrow> bytes list \<Rightarrow> (bytes list \<times> bytes) result" where
  "read_strings 0 b acc = Ok (acc, b)"
| "read_strings (Suc n) b acc =
     (if length b < 4 then Err ''insufficient bytes for transaction length''
      else rbind (BytesWithLenToBytes b) (\<lambda>(sb, b'). read_strings n b' (acc @ [sb])))"

text \<open>The outer loop: \<open>n\<close> more topics.\<close>

fun read_topics :: "nat \<Rightarrow> bytes \<Rightarrow> (topic, bytes list) gomap \<Rightarrow> (topic, bytes list) gomap result" where
  "read_topics 0 b m = Ok m"
| "read_topics (Suc n) b m =
     (if length b < 2 then Err ''insufficient bytes for key''
      else let key = take 2 b; b1 = drop 2 b in
        if length b1 < 4 then Err ''insufficient bytes for transactions size''
        else rbind (GetInt32FromByte (take 4 b1)) (\<lambda>size.
          rbind (read_strings (nat (sint size)) (drop 4 b1) []) (\<lambda>(transactions, b2).
            read_topics n b2 (mput key transactions m))))"

definition TransactionsMessage_GetFromBytes ::
  "bytes \<Rightarrow> TransactionsMessage \<Rightarrow> TransactionsMessage result" where
  "TransactionsMessage_GetFromBytes b a =
     (if length b < 4 then Err ''insufficient bytes for base message''
      else rbind (BaseMessage_GetFromBytes (take 4 b) (tm_BaseMessage a)) (\<lambda>bm.
        let b1 = drop 4 b in
        if length b1 < 4 then Err ''insufficient bytes for transactions length''
        else rbind (GetInt32FromByte (take 4 b1)) (\<lambda>n.
          rbind (read_topics (nat (sint n)) (drop 4 b1) []) (\<lambda>m.
            Ok \<lparr>tm_BaseMessage = bm, TransactionsBytes = m\<rparr>))))"

definition zero_TransactionsMessage :: TransactionsMessage where
  "zero_TransactionsMessage = \<lparr>tm_BaseMessage = zero_BaseMessage, TransactionsBytes = []\<rparr>"

text \<open>The verdict, and the message that is returned beside it: an empty one when it is false.\<close>

definition CheckValidMessage :: "i16 \<Rightarrow> bytes \<Rightarrow> (bool \<times> TransactionsMessage) result" where
  "CheckValidMessage chain m = (case TransactionsMessage_GetFromBytes m zero_TransactionsMessage of
     Err e \<Rightarrow> Ok (False, zero_TransactionsMessage)
   | Panic \<Rightarrow> Panic
   | Ok amsg \<Rightarrow> if CheckMessage chain amsg then Ok (True, amsg) else Ok (False, zero_TransactionsMessage))"

section \<open>Transactions of a message\<close>

definition validTopics :: "topic list" where
  "validTopics = map string_bytes [''NN'', ''SS'', ''TT'', ''BB'']"

definition NonceTopic :: topic where "NonceTopic = string_bytes ''NN''"
definition SelfNonceTopic :: topic where "SelfNonceTopic = string_bytes ''SS''"

text \<open>
  One byte string of a topic: short or unreadable ones are skipped with a warning, and so are those
  that do not verify, except under the nonce topics.  \<open>verify\<close> is \<^verbatim>\<open>Transaction.Verify\<close> on this node, which
  replaces the hash of the transaction by the one it computes.
\<close>

definition message_tx ::
  "(bytes \<Rightarrow> bytes) \<Rightarrow> EncryptionConfig \<Rightarrow> (Transaction, bool) op \<Rightarrow> topic \<Rightarrow> bytes
    \<Rightarrow> Transaction option result" where
  "message_tx H160 ec verify tp tb =
     (if length tb < 33 + 76 then Ok None
      else case Transaction_GetFromBytes H160 ec tb of
        Panic \<Rightarrow> Panic
      | Err e \<Rightarrow> Ok None
      | Ok (t, rest) \<Rightarrow> if length rest > 0 then Ok None
          else let (r, t') = verify t in
            rbind r (\<lambda>ok. Ok (if ok \<or> tp = NonceTopic \<or> tp = SelfNonceTopic then Some t' else None)))"

fun message_txs ::
  "(bytes \<Rightarrow> bytes) \<Rightarrow> EncryptionConfig \<Rightarrow> (Transaction, bool) op \<Rightarrow> topic \<Rightarrow> bytes list
    \<Rightarrow> Transaction list result" where
  "message_txs H160 ec verify tp [] = Ok []"
| "message_txs H160 ec verify tp (tb # tbs) =
     rbind (message_tx H160 ec verify tp tb) (\<lambda>t.
     rbind (message_txs H160 ec verify tp tbs) (\<lambda>ts.
       Ok (case t of None \<Rightarrow> ts | Some t \<Rightarrow> t # ts)))"

text \<open>A topic of which no transaction is kept gets no entry.\<close>

fun topics_txs ::
  "(bytes \<Rightarrow> bytes) \<Rightarrow> EncryptionConfig \<Rightarrow> (Transaction, bool) op \<Rightarrow> (topic, bytes list) gomap
    \<Rightarrow> topic list \<Rightarrow> (topic, Transaction list) gomap \<Rightarrow> (topic, Transaction list) gomap result" where
  "topics_txs H160 ec verify m [] txn = Ok txn"
| "topics_txs H160 ec verify m (tp # tps) txn =
     rbind (message_txs H160 ec verify tp (mgetd [] m tp)) (\<lambda>ts.
       topics_txs H160 ec verify m tps (if ts = [] then txn else mput tp ts txn))"

definition GetTransactionsFromBytes ::
  "(bytes \<Rightarrow> bytes) \<Rightarrow> EncryptionConfig \<Rightarrow> (Transaction, bool) op \<Rightarrow> TransactionsMessage
    \<Rightarrow> (topic, Transaction list) gomap result" where
  "GetTransactionsFromBytes H160 ec verify a = topics_txs H160 ec verify (TransactionsBytes a) validTopics []"

section \<open>Round trip\<close>

lemma read_strings_concat:
  assumes "\<forall>x \<in> set sb. length x < 2 ^ 32"
  shows "read_strings (length sb) (concat (map BytesToLenAndBytes sb) @ ys) acc = Ok (acc @ sb, ys)"
  using assms by (induction sb arbitrary: acc) auto

lemma count32_back: "length xs < 2 ^ 31 \<Longrightarrow> nat (sint (word_of_nat (length xs) :: i32)) = length xs"
  by (simp add: signed_of_nat signed_take_bit_int_eq_self)

definition topic_ok :: "topic \<times> bytes list \<Rightarrow> bool" where
  "topic_ok p \<longleftrightarrow> length (fst p) = 2 \<and> length (snd p) < 2 ^ 31 \<and> (\<forall>x \<in> set (snd p). length x < 2 ^ 32)"

lemma read_topics_concat:
  assumes "\<forall>p \<in> set xs. topic_ok p" and "distinct (map fst m @ map fst xs)"
  shows "read_topics (length xs) (concat (map topic_bytes xs) @ ys) m = Ok (m @ xs)"
  using assms
proof (induction xs arbitrary: m)
  case Nil
  then show ?case by simp
next
  case (Cons p xs)
  obtain k sb where p: "p = (k, sb)" by (cases p)
  have D: "length k = 2" "length sb < 2 ^ 31" "\<forall>x \<in> set sb. length x < 2 ^ 32"
    using Cons.prems(1) p by (auto simp: topic_ok_def)
  have "mput k sb m = m @ [(k, sb)]" using Cons.prems(2) p by (intro mput_new) auto
  moreover have "nat (sint (word_of_nat (length sb) :: i32)) = length sb" using D(2) by (rule count32_back)
  ultimately show ?case
    using Cons.IH [of "m @ [(k, sb)]"] Cons.prems D p
    by (simp add: topic_bytes_def read_strings_concat)
qed

definition message_ok :: "TransactionsMessage \<Rightarrow> bool" where
  "message_ok a \<longleftrightarrow> Head (tm_BaseMessage a) \<in> string_bytes ` set validHead \<and>
     gomap_ok (TransactionsBytes a) \<and> length (TransactionsBytes a) < 2 ^ 31 \<and>
     (\<forall>p \<in> set (TransactionsBytes a). topic_ok p)"

lemma bytes_string_string_bytes [simp]: "bytes_string (string_bytes s) = s"
proof -
  have "char_of (unat (word_of_nat (of_char c) :: byte)) = c" for c
    using nat_of_char_less_256 [of c] by (simp add: unsigned_of_nat take_bit_nat_eq_self)
  then show ?thesis by (simp add: bytes_string_def string_bytes_def comp_def)
qed

lemma length_string_bytes [simp]: "length (string_bytes s) = length s"
  by (simp add: string_bytes_def)

lemma valid_heads:
  assumes "h \<in> string_bytes ` set validHead"
  shows "length h = 2 \<and> ContainsKey validHead (bytes_string h)"
proof -
  have "\<forall>s \<in> set validHead. length s = 2" by (simp add: validHead_def)
  with assms show ?thesis by (auto simp: ContainsKey_iff)
qed

lemma TransactionsMessage_round_trip [codec]:
  assumes "message_ok a"
  shows "TransactionsMessage_GetFromBytes (TransactionsMessage_GetBytes a @ rest) a0 = Ok a"
proof -
  have h: "length (Head (tm_BaseMessage a)) = 2"
      "ContainsKey validHead (bytes_string (Head (tm_BaseMessage a)))"
    using assms valid_heads by (auto simp: message_ok_def)
  have "nat (sint (word_of_nat (length (TransactionsBytes a)) :: i32)) = length (TransactionsBytes a)"
    using assms by (intro count32_back) (simp add: message_ok_def)
  moreover have "read_topics (length (TransactionsBytes a)) (concat (map topic_bytes (TransactionsBytes a)) @ rest) [] =
      Ok (TransactionsBytes a)"
    using read_topics_concat [of "TransactionsBytes a" "[]"] assms by (simp add: message_ok_def)
  ultimately show ?thesis
    using h by (cases a) (simp add: TransactionsMessage_GetFromBytes_def TransactionsMessage_GetBytes_def
        BaseMessage_GetBytes_def BaseMessage_GetFromBytes_def Let_def)
qed

section \<open>Properties\<close>

text \<open>
  C34: what one node sends, the other accepts and reads unchanged: the bytes of a message with a
  known head, whatever is left over behind them (the end mark of the transport is), pass the check on
  a node of the same chain and give back the message; on a node of another chain they are refused.
\<close>

theorem CheckValidMessage_accepts_sent:
  assumes "message_ok a"
  shows "CheckValidMessage chain (TransactionsMessage_GetBytes a @ rest) =
    Ok (if ChainID (tm_BaseMessage a) = chain then (True, a) else (False, zero_TransactionsMessage))"
  using TransactionsMessage_round_trip [OF assms, of rest zero_TransactionsMessage] assms
  by (auto simp: CheckValidMessage_def CheckMessage_def message_ok_def)

definition sample_message :: TransactionsMessage where
  "sample_message = \<lparr>tm_BaseMessage = \<lparr>Head = string_bytes ''bl'', ChainID = 23\<rparr>,
     TransactionsBytes = [([78, 0], [[1, 2, 3]])]\<rparr>"

theorem CheckValidMessage_accepts_sent_witness:
  "CheckValidMessage 23 (TransactionsMessage_GetBytes sample_message @ [60, 45]) = Ok (True, sample_message)"
  using CheckValidMessage_accepts_sent [of sample_message 23 "[60, 45]"]
  by (simp add: message_ok_def sample_message_def topic_ok_def validHead_def)

end
