(* ===== verification/Consensus.thy ===== *)
theory Consensus
  imports Chain Voting Message
begin

text \<open>
  The checks of a block that do not touch the accounts: \<^verbatim>\<open>CheckBaseBlock\<close> of
  \<^verbatim>\<open>src/blocks/processBlock.go\<close>, the proof of \<^verbatim>\<open>proofOfSynergy.go\<close>, and the change of a signature scheme
  (\<^verbatim>\<open>processEncryption.go\<close>, \<^verbatim>\<open>FromBytesToEncryptionConfig\<close> of \<^verbatim>\<open>baseBlock.go\<close> and \<^verbatim>\<open>src/crypto/oqs/encryptSchemes.go\<close>).

  \<^item> \<open>D\<close> is the signature library liboqs: for the name of a scheme the length of a key pair it
    generates and the lengths it announces, or nothing when it does not know the name.
  \<^item> \<open>log2\<close> is \<^verbatim>\<open>math.Log2\<close>, of which only \<open>log2 0 = -Inf\<close> is ever used.

  The lemmas: what an accepted block must satisfy; that a scheme is replaced only while it is paused
  and, in a recent block, only with the votes; and two gaps of the checks, the header hash that is
  not compared and the votes that are not.
\<close>

section \<open>Schemes of the signature library\<close>

record scheme_details =
  generated_key_length :: int
  LengthPublicKey :: int
  LengthSecretKey :: int
  MaxLengthSignature :: int

type_synonym oqs_details = "bytes \<Rightarrow> scheme_details option"

definition zero_ConfigEnc :: ConfigEnc where
  "zero_ConfigEnc = \<lparr>ce_PubKeyLength = 0, ce_PrivateKeyLength = 0, ce_SignatureLength = 0,
     ce_SigName = [], ce_IsPaused = False\<rparr>"

definition CreateEncryptionScheme :: "bytes \<Rightarrow> int \<Rightarrow> int \<Rightarrow> int \<Rightarrow> bool \<Rightarrow> ConfigEnc" where
  "CreateEncryptionScheme nm pub priv sig paused = \<lparr>ce_PubKeyLength = pub, ce_PrivateKeyLength = priv,
     ce_SignatureLength = sig, ce_SigName = nm, ce_IsPaused = paused\<rparr>"

definition VerifyEncConfig :: "oqs_details \<Rightarrow> ConfigEnc \<Rightarrow> bool" where
  "VerifyEncConfig D c = (case D (ce_SigName c) of
     None \<Rightarrow> False
   | Some d \<Rightarrow>
       if generated_key_length d > ce_PubKeyLength c then False
       else if LengthPublicKey d \<noteq> ce_PubKeyLength c then False
       else if LengthSecretKey d \<noteq> ce_PrivateKeyLength c then False
       else if MaxLengthSignature d \<noteq> ce_SignatureLength c then False
       else True)"

definition GenerateEncConfig :: "oqs_details \<Rightarrow> bytes \<Rightarrow> ConfigEnc result" where
  "GenerateEncConfig D nm = (case D nm of
     None \<Rightarrow> Err ''signature mechanism is not supported''
   | Some d \<Rightarrow> Ok (CreateEncryptionScheme nm (LengthPublicKey d) (LengthSecretKey d) (MaxLengthSignature d) False))"

text \<open>An empty name gives the zero configuration and no error.\<close>

definition oqs_FromBytesToEncryptionConfig :: "oqs_details \<Rightarrow> bytes \<Rightarrow> ConfigEnc result" where
  "oqs_FromBytesToEncryptionConfig D bb =
     rbind (GenerateParamsEncryptionSchemesFromBytes bb) (\<lambda>c.
     if ce_SigName c = [] then Ok zero_ConfigEnc
     else if \<not> VerifyEncConfig D c then Err ''encryption scheme is invalid''
     else Ok c)"

text \<open>The scheme in force, by kind of key.\<close>

definition current_name :: "EncryptionConfig \<Rightarrow> bool \<Rightarrow> bytes" where
  "current_name ec primary = string_bytes (if primary then sigName ec else sigName2 ec)"

definition current_paused :: "EncryptionConfig \<Rightarrow> bool \<Rightarrow> bool" where
  "current_paused ec primary = (if primary then IsPaused ec else IsPaused2 ec)"

definition current_scheme :: "EncryptionConfig \<Rightarrow> bool \<Rightarrow> ConfigEnc" where
  "current_scheme ec primary =
     (if primary then CreateEncryptionScheme (current_name ec True) (PubKeyLength ec) (PrivateKeyLength ec)
        (SignatureLength ec) (IsPaused ec)
      else CreateEncryptionScheme (current_name ec False) (PubKeyLength2 ec) (PrivateKeyLength2 ec)
        (SignatureLength2 ec) (IsPaused2 ec))"

definition FromBytesToEncryptionConfig ::
  "oqs_details \<Rightarrow> EncryptionConfig \<Rightarrow> bytes \<Rightarrow> bool \<Rightarrow> ConfigEnc result" where
  "FromBytesToEncryptionConfig D ec bb primary =
     (if length bb = 0 then
        if \<not> IsPaused ec \<and> primary then Ok (current_scheme ec True)
        else if \<not> IsPaused2 ec \<and> \<not> primary then Ok (current_scheme ec False)
        else Err ''no valid encyption scheme''
      else oqs_FromBytesToEncryptionConfig D bb)"

definition SetEncryptionFromBytes ::
  "oqs_details \<Rightarrow> bytes \<Rightarrow> bool \<Rightarrow> (EncryptionConfig, unit) op" where
  "SetEncryptionFromBytes D enc primary =
     sbind (sget (\<lambda>ec. FromBytesToEncryptionConfig D ec enc primary)) (\<lambda>r.
     sbind (slift r) (\<lambda>c.
     supd (SetEncryption (bytes_string (ce_SigName c)) (ce_PubKeyLength c) (ce_PrivateKeyLength c)
       (ce_SignatureLength c) (ce_IsPaused c) primary)))"

definition SetEncryptionFromBlock ::
  "'d kv \<Rightarrow> oqs_details \<Rightarrow> i64 \<Rightarrow> 'd \<Rightarrow> (EncryptionConfig, unit) op" where
  "SetEncryptionFromBlock K D height d =
     sbind (sget (\<lambda>ec. LoadBlock K ec height d)) (\<lambda>r.
     sbind (slift r) (\<lambda>block.
     sbind (SetEncryptionFromBytes D (Encryption1 (GetHeader block)) True) (\<lambda>_.
     SetEncryptionFromBytes D (Encryption2 (GetHeader block)) False)))"

section \<open>The proof of a block\<close>

definition minimalHashProof :: "i32 \<Rightarrow> f64" where
  "minimalHashProof difficulty = f64_sub (Fin 128)
     (f64_div (f64_round (of_int (sint difficulty sdiv 10))) (Fin 10))"

definition validProof :: "(f64 \<Rightarrow> f64) \<Rightarrow> hash \<Rightarrow> i32 \<Rightarrow> bool result" where
  "validProof log2 hh difficulty =
     (if length hh < 32 then Panic
      else let byteAnd = map (\<lambda>i. hh ! i AND hh ! (i + 16)) [0..<16];
               num = foldl (\<lambda>n b. 256 * n + uint b) 0 byteAnd;
               p = log2 (f64_round (of_int num))
           in Ok (f64_le p (minimalHashProof difficulty)))"

definition CheckProofOfSynergy :: "(f64 \<Rightarrow> f64) \<Rightarrow> BaseBlock \<Rightarrow> bool result" where
  "CheckProofOfSynergy log2 b = validProof log2 (BlockHeaderHash b) (Difficulty (bb_BaseHeader b))"

section \<open>The check of a block\<close>

text \<open>
  The change of one scheme; the other one has its name and must stay different.  The two copies of
  the code differ only in the kind of key.
\<close>

definition check_encryption ::
  "oqs_details \<Rightarrow> EncryptionConfig \<Rightarrow> i64 \<Rightarrow> i64 \<Rightarrow> bool \<Rightarrow> bool \<Rightarrow> bytes \<Rightarrow> (voting, unit) op" where
  "check_encryption D ec height totalStaked shouldCheck primary encb =
     sbind (slift (FromBytesToEncryptionConfig D ec encb primary)) (\<lambda>enc.
     let nm = current_name ec primary; paused = current_paused ec primary in
     if ce_SigName enc = nm \<and> ce_IsPaused enc = paused then sret ()
     else if \<not> VerifyEncConfig D enc then serr ''encryption verification fails''
     else if \<not> paused \<and> nm \<noteq> ce_SigName enc then serr ''you need to pause first to replace encryption''
     else if ce_IsPaused enc \<and> paused \<and> ce_SigName enc = nm then serr ''pausing fails, encryption is just puased''
     else if ce_SigName enc \<noteq> nm \<and> ce_IsPaused enc
     then serr ''new encryption has to be fully functional from beginning, so no paused''
     else
     sbind (if shouldCheck \<and> ce_SigName enc \<noteq> nm
            then VerifyEncryptionForReplacing height totalStaked primary else sret True) (\<lambda>replace.
     if \<not> replace then serr ''voting replacement encryption check fails''
     else
     sbind (if shouldCheck \<and> ce_IsPaused enc \<and> ce_SigName enc = nm
            then VerifyEncryptionForPausing height totalStaked primary else sret True) (\<lambda>pause.
     if \<not> pause then serr ''voting pausing check fails''
     else if ce_SigName enc = current_name ec (\<not> primary)
     then serr ''cannot exist 2 the same ecnryptions schemes''
     else sret ())))"

text \<open>The leaves of the tree: as many empty ones as there are transactions, then their hashes.\<close>

definition base_block_leaves :: "Block \<Rightarrow> bytes list" where
  "base_block_leaves b = replicate (length (TransactionsHashes b)) [] @ TransactionsHashes b"

text \<open>Everything after the comparison of the block hash.\<close>

definition check_content ::
  "'d env \<Rightarrow> oqs_details \<Rightarrow> staking \<Rightarrow> Block \<Rightarrow> Block \<Rightarrow> (voting, MerkleTree) op" where
  "check_content E D s newBlock lastBlock =
     (let head = GetHeader newBlock; last = GetHeader lastBlock; bb = bl_BaseBlock newBlock;
          height = bh_Height head in
      sbind (slift (BuildMerkleTree (e_H256 E) (base_block_leaves newBlock))) (\<lambda>merkleTrie.
      if GetRootHash merkleTrie \<noteq> RootMerkleTree head then serr ''root merkleTrie hash check fails''
      else let totalStaked = GetStakedInAllDelegatedAccounts s in
      sbind (slift (if e_syncing E then Ok True
             else VerifyPriceOracle totalStaked (PriceOracle bb) (PriceOracleData bb) s)) (\<lambda>price.
      if \<not> price then serr ''price oracle check fails''
      else
      sbind (slift (if e_syncing E then Ok True
             else VerifyRandOracle (e_H256 E) totalStaked (RandOracle bb) (RandOracleData bb) s)) (\<lambda>rnd.
      if \<not> rnd then serr ''rand oracle check fails''
      else if length (Encryption1 head) = 0 \<or> length (Encryption2 head) = 0
      then serr ''encryption opt data should be always present in block''
      else let shouldCheck = (\<not> sint (e_now E - BlockTimeStamp bb) > sint (10 * VotingHeightDistance)) in
      sbind (if \<not> e_syncing E \<and> Encryption1 head \<noteq> Encryption1 last
             then check_encryption D (e_ec E) height totalStaked shouldCheck True (Encryption1 head)
             else sret ()) (\<lambda>_.
      sbind (if \<not> e_syncing E \<and> Encryption2 head \<noteq> Encryption2 last
             then check_encryption D (e_ec E) height totalStaked shouldCheck False (Encryption2 head)
             else sret ()) (\<lambda>_.
      sret merkleTrie))))))"

definition CheckBaseBlock ::
  "'d env \<Rightarrow> oqs_details \<Rightarrow> (f64 \<Rightarrow> f64) \<Rightarrow> staking \<Rightarrow> Block \<Rightarrow> Block \<Rightarrow> (voting, MerkleTree) op" where
  "CheckBaseBlock E D log2 s newBlock lastBlock =
     (if sint (Supply (bl_BaseBlock newBlock)) > sint MaxTotalSupply then serr ''supply is too high''
      else if BlockHash lastBlock \<noteq> PreviousHash (GetHeader newBlock)
      then serr ''last block hash not match to one stored in new block''
      else
      sbind (slift (CheckProofOfSynergy log2 (bl_BaseBlock newBlock))) (\<lambda>ok.
      if \<not> ok then serr ''proof of synergy fails of block''
      else if CalcBlockHash (e_H256 E) newBlock \<noteq> BlockHash newBlock then serr ''wrong hash of block''
      else check_content E D s newBlock lastBlock))"

section \<open>The change of a scheme\<close>

text \<open>
  \<^verbatim>\<open>SetVoteEncryption\<close> hands the bytes to the goroutine \<^verbatim>\<open>InitChannelVoting\<close>, which calls
  \<^verbatim>\<open>SetEncryptionFromBytes\<close> and answers; an error is only logged.
\<close>

definition SetVoteEncryption :: "oqs_details \<Rightarrow> bytes \<Rightarrow> bool \<Rightarrow> (EncryptionConfig, unit) op" where
  "SetVoteEncryption D enc primary = sdrop (SetEncryptionFromBytes D enc primary)"

record crypto_state =
  c_ec :: EncryptionConfig
  c_voting :: voting

text \<open>One scheme of the block; \<open>newkey\<close> is \<^verbatim>\<open>AddNewPubKeyToActiveWallet\<close>.\<close>

definition process_scheme ::
  "oqs_details \<Rightarrow> (bytes \<Rightarrow> bool \<Rightarrow> (crypto_state, unit) op) \<Rightarrow> bytes \<Rightarrow> bytes \<Rightarrow> bool \<Rightarrow> (crypto_state, unit) op" where
  "process_scheme D newkey enc lastEnc primary =
     (if enc = lastEnc then sret ()
      else
      sbind (sget (\<lambda>st. FromBytesToEncryptionConfig D (c_ec st) enc primary)) (\<lambda>r.
      sbind (slift r) (\<lambda>c.
      sbind (zoom c_ec c_ec_update (SetVoteEncryption D enc primary)) (\<lambda>_.
      sbind (zoom c_voting c_voting_update (supd ResetLastVoting)) (\<lambda>_.
      newkey (ce_SigName c) primary)))))"

definition ProcessBlockEncryption ::
  "oqs_details \<Rightarrow> (bytes \<Rightarrow> bool \<Rightarrow> (crypto_state, unit) op) \<Rightarrow> Block \<Rightarrow> Block \<Rightarrow> (crypto_state, unit) op" where
  "ProcessBlockEncryption D newkey block lastBlock =
     (if sint (bh_Height (GetHeader lastBlock)) < 3 then sret ()
      else
      sbind (process_scheme D newkey (Encryption1 (GetHeader block)) (Encryption1 (GetHeader lastBlock)) True) (\<lambda>_.
      process_scheme D newkey (Encryption2 (GetHeader block)) (Encryption2 (GetHeader lastBlock)) False))"

section \<open>Inversion of the checks\<close>

lemma check_encryption_replaces:
  assumes "check_encryption D ec height staked sc primary encb v = (Ok u, v')"
    and "FromBytesToEncryptionConfig D ec encb primary = Ok c" and "ce_SigName c \<noteq> current_name ec primary"
  shows "current_paused ec primary \<and> \<not> ce_IsPaused c \<and> VerifyEncConfig D c \<and>
    ce_SigName c \<noteq> current_name ec (\<not> primary) \<and>
    (if sc then VerifyEncryptionForReplacing height staked primary v = (Ok True, v') else v' = v)"
  using assms
  by (auto simp: check_encryption_def Let_def elim!: sbind_OkE split: if_splits)

lemma check_encryption_replaceI:
  assumes "FromBytesToEncryptionConfig D ec encb primary = Ok c" and "ce_SigName c \<noteq> current_name ec primary"
    and "current_paused ec primary" and "\<not> ce_IsPaused c" and "VerifyEncConfig D c"
    and "ce_SigName c \<noteq> current_name ec (\<not> primary)"
    and "if sc then VerifyEncryptionForReplacing height staked primary v = (Ok True, v') else v' = v"
  shows "check_encryption D ec height staked sc primary encb v = (Ok (), v')"
  using assms by (simp add: check_encryption_def Let_def sbind_def slift_def sret_def split: if_splits)

lemma CheckBaseBlock_Ok:
  assumes "CheckBaseBlock E D log2 s newBlock lastBlock v = (Ok tree, v')"
  shows "sint (Supply (bl_BaseBlock newBlock)) \<le> sint MaxTotalSupply"
    and "PreviousHash (GetHeader newBlock) = BlockHash lastBlock"
    and "CheckProofOfSynergy log2 (bl_BaseBlock newBlock) = Ok True"
    and "CalcBlockHash (e_H256 E) newBlock = BlockHash newBlock"
    and "check_content E D s newBlock lastBlock v = (Ok tree, v')"
  using assms by (auto simp: CheckBaseBlock_def elim!: sbind_OkE split: if_splits)

lemma check_content_Ok:
  assumes "check_content E D s newBlock lastBlock v = (Ok tree, v')" and "\<not> e_syncing E"
  shows "BuildMerkleTree (e_H256 E) (base_block_leaves newBlock) = Ok tree"
    and "GetRootHash tree = RootMerkleTree (GetHeader newBlock)"
    and "VerifyPriceOracle (GetStakedInAllDelegatedAccounts s) (PriceOracle (bl_BaseBlock newBlock))
      (PriceOracleData (bl_BaseBlock newBlock)) s = Ok True"
    and "Encryption1 (GetHeader newBlock) \<noteq> Encryption1 (GetHeader lastBlock) \<Longrightarrow>
      \<exists>v1. check_encryption D (e_ec E) (bh_Height (GetHeader newBlock)) (GetStakedInAllDelegatedAccounts s)
        (\<not> sint (e_now E - BlockTimeStamp (bl_BaseBlock newBlock)) > sint (10 * VotingHeightDistance))
        True (Encryption1 (GetHeader newBlock)) v = (Ok (), v1)"
  using assms by (auto simp: check_content_def Let_def elim!: sbind_OkE split: if_splits)

section \<open>Properties\<close>

text \<open>
  C36: a block that is accepted outside synchronisation and names a new first signature scheme was
  checked to do so while the old scheme is paused, with a scheme that the signature library
  supports with the stated lengths, that is not paused and differs from the second scheme; and, in
  a block that is not older than ten minutes, the votes in force carried the replacement.
\<close>

theorem scheme_replacement_needs_votes:
  assumes "CheckBaseBlock E D log2 s newBlock lastBlock v = (Ok tree, v')" and "\<not> e_syncing E"
    and "Encryption1 (GetHeader newBlock) \<noteq> Encryption1 (GetHeader lastBlock)"
    and "FromBytesToEncryptionConfig D (e_ec E) (Encryption1 (GetHeader newBlock)) True = Ok c"
    and "ce_SigName c \<noteq> current_name (e_ec E) True"
  shows "IsPaused (e_ec E) \<and> \<not> ce_IsPaused c \<and> VerifyEncConfig D c \<and>
    ce_SigName c \<noteq> current_name (e_ec E) False \<and>
    (sint (e_now E - BlockTimeStamp (bl_BaseBlock newBlock)) \<le> 600 \<longrightarrow>
     fst (VerifyEncryptionForReplacing (bh_Height (GetHeader newBlock)) (GetStakedInAllDelegatedAccounts s) True v) =
       Ok True)"
proof -
  obtain v1 where "check_encryption D (e_ec E) (bh_Height (GetHeader newBlock)) (GetStakedInAllDelegatedAccounts s)
        (\<not> sint (e_now E - BlockTimeStamp (bl_BaseBlock newBlock)) > sint (10 * VotingHeightDistance))
        True (Encryption1 (GetHeader newBlock)) v = (Ok (), v1)"
    using check_content_Ok(4) [OF CheckBaseBlock_Ok(5) [OF assms(1)] assms(2,3)] by blast
  from check_encryption_replaces [OF this assms(4,5)] show ?thesis
    by (auto simp: current_paused_def VotingHeightDistance_def split: if_splits)
qed

text \<open>
  the votes do not say which scheme a block may bring in: if a replacement is accepted, every
  other supported scheme, with any name but the two in force, is accepted in its place.
\<close>

lemma votes_do_not_bind_scheme:
  assumes "check_encryption D ec height staked sc primary encb v = (Ok u, v')"
    and "FromBytesToEncryptionConfig D ec encb primary = Ok c" and "ce_SigName c \<noteq> current_name ec primary"
    and "FromBytesToEncryptionConfig D ec encb' primary = Ok c'" and "VerifyEncConfig D c'"
    and "\<not> ce_IsPaused c'" and "ce_SigName c' \<noteq> current_name ec primary"
    and "ce_SigName c' \<noteq> current_name ec (\<not> primary)"
  shows "check_encryption D ec height staked sc primary encb' v = (Ok (), v')"
  using check_encryption_replaces [OF assms(1-3)] assms(4-8) by (intro check_encryption_replaceI) auto

text \<open>A block with the header hash of all zeros, and its own hash to match.\<close>

definition forge :: "digest \<Rightarrow> Block \<Rightarrow> Block" where
  "forge H b = (let b' = b\<lparr>bl_BaseBlock := (bl_BaseBlock b)\<lparr>BlockHeaderHash := EmptyHash\<rparr>\<rparr>
     in b'\<lparr>BlockHash := CalcBlockHash H b'\<rparr>)"

lemma minimalHashProof_finite: "minimalHashProof difficulty \<noteq> NaN \<and> minimalHashProof difficulty \<noteq> NInf"
proof -
  define k where "k = sint difficulty sdiv 10"
  have b: "- (2 ^ 31) \<le> sint difficulty" "sint difficulty < 2 ^ 31"
    using sint_ge [of difficulty] sint_lt [of difficulty] by simp_all
  have "\<bar>k\<bar> \<le> \<bar>sint difficulty\<bar>"
    by (auto simp: k_def signed_divide_int_def abs_mult sgn_if intro: div_le_dividend)
  then have k: "\<bar>k\<bar> \<le> 2 ^ 31" using b by linarith
  then have kf: "f64_round (of_int k) = Fin (of_int k)" by (intro f64_round_of_int) simp
  then have m: "minimalHashProof difficulty = f64_sub (Fin 128) (f64_round (of_int k / 10))"
    by (simp add: minimalHashProof_def k_def f64_div_def)
  show ?thesis
  proof (cases "0 \<le> k")
    case True
    have "k \<le> 2 ^ 31" using k by simp
    then have kb: "(of_int k :: rat) \<le> 2 ^ 31" by (metis of_int_le_iff of_int_numeral of_int_power)
    moreover have "(2 :: rat) ^ 31 < pow2 1023" by (simp add: pow2_def)
    ultimately obtain v where v: "f64_round (of_int k / 10) = Fin v" "v \<le> 2 * (of_int k / 10)"
      using f64_round_nonneg [of "of_int k / 10"] True by auto
    then have "- (2 ^ 40) \<le> 128 - v" using kb by simp
    with v(1) f64_round_not_NInf [of "128 - v"] f64_round_not_NaN [of "128 - v"] show ?thesis
      by (simp add: m f64_sub_def)
  next
    case False
    then have "(of_int k / 10 :: rat) \<le> 0" by simp
    note r = f64_round_nonpos [OF this]
    show ?thesis
    proof (cases "f64_round (of_int k / 10)")
      case (Fin v)
      then have "- (2 ^ 40) \<le> 128 - v" using r(2) by fastforce
      with Fin f64_round_not_NInf [of "128 - v"] f64_round_not_NaN [of "128 - v"] show ?thesis
        by (simp add: m f64_sub_def)
    qed (use r(1) f64_round_not_NaN in \<open>auto simp: m f64_sub_def\<close>)
  qed
qed

lemma validProof_zero:
  assumes "log2 (Fin 0) = NInf"
  shows "validProof log2 EmptyHash difficulty = Ok True"
proof -
  have "foldl (\<lambda>n b. 256 * n + uint b) 0 (map (\<lambda>i. EmptyHash ! i AND EmptyHash ! (i + 16)) [0..<16]) = 0"
    by code_simp
  then show ?thesis using assms minimalHashProof_finite [of difficulty]
    by (cases "minimalHashProof difficulty") (simp_all add: validProof_def Let_def f64_round_def)
qed

lemma forge_fields [simp]:
  "GetHeader (forge H b) = GetHeader b" "TransactionsHashes (forge H b) = TransactionsHashes b"
  "Supply (bl_BaseBlock (forge H b)) = Supply (bl_BaseBlock b)"
  "PriceOracle (bl_BaseBlock (forge H b)) = PriceOracle (bl_BaseBlock b)"
  "RandOracle (bl_BaseBlock (forge H b)) = RandOracle (bl_BaseBlock b)"
  "PriceOracleData (bl_BaseBlock (forge H b)) = PriceOracleData (bl_BaseBlock b)"
  "RandOracleData (bl_BaseBlock (forge H b)) = RandOracleData (bl_BaseBlock b)"
  "BlockTimeStamp (bl_BaseBlock (forge H b)) = BlockTimeStamp (bl_BaseBlock b)"
  "BlockHeaderHash (bl_BaseBlock (forge H b)) = EmptyHash"
  by (simp_all add: forge_def Let_def)

lemma forge_hash [simp]: "CalcBlockHash H (forge H b) = BlockHash (forge H b)"
  by (simp add: forge_def Let_def CalcBlockHash_def GetBytesForHash_def)

lemma forge_passes:
  assumes "log2 (Fin 0) = NInf" and "sint (Supply (bl_BaseBlock b)) \<le> sint MaxTotalSupply"
    and "PreviousHash (GetHeader b) = BlockHash lastBlock"
  shows "CheckBaseBlock E D log2 s (forge (e_H256 E) b) lastBlock v = check_content E D s b lastBlock v"
proof -
  have "check_content E D s (forge (e_H256 E) b) lastBlock = check_content E D s b lastBlock"
    unfolding check_content_def base_block_leaves_def Let_def forge_fields by (rule refl)
  then show ?thesis
    using assms by (simp add: CheckBaseBlock_def CheckProofOfSynergy_def validProof_zero sbind_def slift_def not_less)
qed

text \<open>
  the hash that the proof of a block is computed from is not compared with its header: a block
  with the supply and the previous hash in order, whatever its difficulty, passes the proof with a
  header hash of all zeros, and is then checked like the original (Go's \<^verbatim>\<open>math.Log2(0)\<close> is -Inf).
\<close>

lemma header_hash_is_not_checked:
  assumes "log2 (Fin 0) = NInf" and "sint (Supply (bl_BaseBlock b)) \<le> sint MaxTotalSupply"
    and "PreviousHash (GetHeader b) = BlockHash lastBlock"
  shows "CheckBaseBlock E D log2 s (forge (e_H256 E) b) lastBlock v = check_content E D s b lastBlock v"
  using assms by (rule forge_passes)

text \<open>Sample data: the first scheme is paused and three accounts vote for a new one.\<close>

definition new_scheme :: "byte \<Rightarrow> ConfigEnc" where
  "new_scheme x = CreateEncryptionScheme [65, x] 40 50 60 False"

definition sample_oqs :: oqs_details where
  "sample_oqs nm = Some \<lparr>generated_key_length = 40, LengthPublicKey = 40, LengthSecretKey = 50, MaxLengthSignature = 60\<rparr>"

definition paused_env :: "memdb env" where
  "paused_env = sample_env\<lparr>e_ec := SetIsPaused True True initEncryptionConfigInstance\<rparr>"

lemma paused_env_hash: "e_H256 paused_env = sample_digest"
  by (simp add: paused_env_def)

definition old_block :: Block where
  "old_block = sample_block\<lparr>BlockHash := PreviousHash (GetHeader sample_block)\<rparr>"

definition new_block :: Block where
  "new_block = (let bb = bl_BaseBlock sample_block in
     sample_block\<lparr>TransactionsHashes := [], bl_BaseBlock := bb\<lparr>
       bb_BaseHeader := (bb_BaseHeader bb)\<lparr>Encryption1 := GenerateBytesFromParams (new_scheme 66), bh_Height := 9,
         RootMerkleTree := EmptyHash\<rparr>,
       PriceOracle := 0, PriceOracleData := [], RandOracle := 0, RandOracleData := [], Supply := 0,
       BlockTimeStamp := 0\<rparr>\<rparr>)"

lemma new_block_content:
  "fst (check_content paused_env sample_oqs (replicate 256 []) new_block old_block sample_votes) =
    Ok \<lparr>Root = [], TxHashes = []\<rparr>"
  by code_simp

lemma new_block_accepted:
  obtains v' where "CheckBaseBlock paused_env sample_oqs (\<lambda>_. NInf) (replicate 256 [])
    (forge sample_digest new_block) old_block sample_votes = (Ok \<lparr>Root = [], TxHashes = []\<rparr>, v')"
proof -
  have "CheckBaseBlock paused_env sample_oqs (\<lambda>_. NInf) (replicate 256 []) (forge (e_H256 paused_env) new_block)
      old_block sample_votes = check_content paused_env sample_oqs (replicate 256 []) new_block old_block sample_votes"
    by (rule forge_passes) (simp_all add: new_block_def old_block_def Let_def MaxTotalSupply_def)
  then show thesis
    using new_block_content that
    by (metis (no_types, lifting) fst_conv new_block_content prod.collapse paused_env_hash)
qed

lemma header_hash_is_not_checked_example:
  "CheckBaseBlock paused_env sample_oqs (\<lambda>_. NInf) (replicate 256 []) (forge sample_digest new_block)
     old_block sample_votes = check_content paused_env sample_oqs (replicate 256 []) new_block old_block sample_votes"
  using header_hash_is_not_checked [of "\<lambda>_. NInf" new_block old_block paused_env sample_oqs "replicate 256 []" sample_votes]
  by (simp add: new_block_def old_block_def Let_def MaxTotalSupply_def paused_env_hash)

theorem scheme_replacement_needs_votes_witness:
  "fst (VerifyEncryptionForReplacing 9 (GetStakedInAllDelegatedAccounts (replicate 256 [])) True sample_votes) = Ok True"
proof -
  obtain v' where run: "CheckBaseBlock paused_env sample_oqs (\<lambda>_. NInf) (replicate 256 [])
    (forge sample_digest new_block) old_block sample_votes = (Ok \<lparr>Root = [], TxHashes = []\<rparr>, v')"
    by (rule new_block_accepted)
  have dec: "FromBytesToEncryptionConfig sample_oqs (e_ec paused_env) (Encryption1 (GetHeader new_block)) True =
      Ok (new_scheme 66)" by code_simp
  have other: "Encryption1 (GetHeader new_block) \<noteq> Encryption1 (GetHeader old_block)"
    "ce_SigName (new_scheme 66) \<noteq> current_name (e_ec paused_env) True" "bh_Height (GetHeader new_block) = 9"
    "sint (e_now paused_env - BlockTimeStamp (bl_BaseBlock new_block)) \<le> 600" "\<not> e_syncing paused_env"
    by code_simp+
  show ?thesis
    using scheme_replacement_needs_votes [OF run other(5)] dec other by simp
qed

lemma votes_do_not_bind_scheme_example:
  "fst (check_encryption sample_oqs (e_ec paused_env) 9 0 True True (GenerateBytesFromParams (new_scheme 99)) sample_votes) =
    Ok ()"
proof -
  have run: "fst (check_encryption sample_oqs (e_ec paused_env) 9 0 True True
      (GenerateBytesFromParams (new_scheme 66)) sample_votes) = Ok ()" by code_simp
  have dec: "FromBytesToEncryptionConfig sample_oqs (e_ec paused_env) (GenerateBytesFromParams (new_scheme 66)) True =
      Ok (new_scheme 66)"
    "FromBytesToEncryptionConfig sample_oqs (e_ec paused_env) (GenerateBytesFromParams (new_scheme 99)) True =
      Ok (new_scheme 99)" by code_simp+
  have other: "ce_SigName (new_scheme 66) \<noteq> current_name (e_ec paused_env) True"
    "VerifyEncConfig sample_oqs (new_scheme 99)" "\<not> ce_IsPaused (new_scheme 99)"
    "ce_SigName (new_scheme 99) \<noteq> current_name (e_ec paused_env) True"
    "ce_SigName (new_scheme 99) \<noteq> current_name (e_ec paused_env) (\<not> True)" by code_simp+
  obtain v' where "check_encryption sample_oqs (e_ec paused_env) 9 0 True True
      (GenerateBytesFromParams (new_scheme 66)) sample_votes = (Ok (), v')" using run by (metis prod.collapse)
  from votes_do_not_bind_scheme [OF this dec(1) other(1) dec(2) other(2-5)] show ?thesis by simp
qed

end
