(* ===== verification/Buffer.thy ===== *)
theory Buffer
  imports Common
begin

text \<open>
  Reading from a \<^verbatim>\<open>bytes.Buffer\<close>: a reader is an operation whose state is the unread part of the
  buffer.  The decoders of staking and exchange accounts, messages and contracts are built from
  these readers the way their Go bodies call \<^verbatim>\<open>buffer.Next\<close>.

  The locale \<open>codec_pair\<close> is what an encoder and its reader promise each other: the reader takes
  back exactly what the encoder wrote and leaves the rest.  The lemma on repeated reading is
  proved once in it.
\<close>

section \<open>Readers\<close>

text \<open>\<^verbatim>\<open>buffer.Next(n)\<close>; a negative count slices the buffer backwards, which panics.\<close>

definition Next :: "int \<Rightarrow> (bytes, bytes) op" where
  "Next n b = (if n < 0 then (Panic, b) else (Ok (take (nat n) b), drop (nat n) b))"

definition read_i64 :: "(bytes, i64) op" where
  "read_i64 = sbind (Next 8) (\<lambda>x. slift (GetInt64FromByte x))"

definition read_i32 :: "(bytes, i32) op" where
  "read_i32 = sbind (Next 4) (\<lambda>x. slift (GetInt32FromByte x))"

text \<open>\<^verbatim>\<open>binary.BigEndian.Uint32(buffer.Next(4))\<close>.\<close>

definition read_be32 :: "(bytes, i32) op" where
  "read_be32 = sbind (Next 4) (\<lambda>x. slift (if length x < 4 then Panic else Ok (be_word x)))"

text \<open>\<^verbatim>\<open>if buffer.Len() < n { return error }\<close>.\<close>

definition need :: "nat \<Rightarrow> string \<Rightarrow> (bytes, unit) op" where
  "need n e = sbind (sget (\<lambda>b. length b < n)) (\<lambda>short. if short then serr e else sret ())"

text \<open>A loop that appends one value read per round.\<close>

fun read_n :: "nat \<Rightarrow> ('s, 'a) op \<Rightarrow> ('s, 'a list) op" where
  "read_n 0 m = sret []"
| "read_n (Suc n) m = sbind (m) (\<lambda>x. sbind (read_n n m) (\<lambda>xs. sret (x # xs)))"

text \<open>
  \<^verbatim>\<open>make([]T, n)\<close> for elements of \<open>w\<close> bytes panics when the count is negative or the size is
  past the address space.
\<close>

definition make_slice :: "nat \<Rightarrow> i64 \<Rightarrow> ('s, unit) op" where
  "make_slice w n = (if sint n < 0 \<or> sint n * int w > 2 ^ 48 then slift Panic else sret ())"

section \<open>What readers take back\<close>

lemma sbind_run: "m s = (Ok x, t) \<Longrightarrow> sbind m f s = f x t"
  by (simp add: sbind_def)

lemma Next_append [simp, codec]: "int (length xs) = n \<Longrightarrow> Next n (xs @ ys) = (Ok xs, ys)"
  by (auto simp: Next_def)

lemma sbind_sret [simp]: "sbind (sret x) f = f x"
  by (simp add: sbind_def sret_def fun_eq_iff)

lemma need_enough [simp, codec]: "n \<le> length b \<Longrightarrow> need n e b = (Ok (), b)"
  by (simp add: need_def effect_defs)

lemma need_short [simp]: "length b < n \<Longrightarrow> need n e b = (Err e, b)"
  by (simp add: need_def effect_defs)

lemma read_i64_bytes [simp, codec]: "read_i64 (GetByteInt64 a @ ys) = (Ok a, ys)"
  by (simp add: read_i64_def sbind_run slift_def)

lemma read_i32_bytes [simp, codec]: "read_i32 (GetByteInt32 a @ ys) = (Ok a, ys)"
  by (simp add: read_i32_def sbind_run slift_def)

lemma read_be32_bytes [simp, codec]: "read_be32 (be_bytes 4 a @ ys) = (Ok a, ys)"
  by (simp add: read_be32_def sbind_run slift_def be_word_be_bytes take_bit_word_full)

locale codec_pair =
  fixes enc :: "'a \<Rightarrow> bytes" and dec :: "(bytes, 'a) op" and valid :: "'a \<Rightarrow> bool"
  assumes dec_enc: "valid x \<Longrightarrow> dec (enc x @ ys) = (Ok x, ys)"
begin

lemma read_n_concat:
  "\<forall>x \<in> set xs. valid x \<Longrightarrow>
    read_n (length xs) dec (concat (map enc xs) @ ys) = (Ok xs, ys)"
  by (induction xs) (simp_all add: sbind_run dec_enc sret_def)

lemma dec_enc_nil: "valid x \<Longrightarrow> dec (enc x) = (Ok x, [])"
  using dec_enc [of x "[]"] by simp

lemma enc_inj: "valid x \<Longrightarrow> valid y \<Longrightarrow> enc x = enc y \<Longrightarrow> x = y"
  by (metis dec_enc_nil prod.inject result.inject(1))

end

interpretation i64_codec: codec_pair GetByteInt64 read_i64 "\<lambda>_. True"
  by unfold_locales simp

text \<open>The count that a table starts with, read back.\<close>

lemma count_back [simp, codec]:
  "length xs < 2 ^ 63 \<Longrightarrow> nat (sint (len64 xs :: i64)) = length xs"
  using sint_i64_of_int [of "int (length xs)"] by simp

lemma sint_len64: "length xs < 2 ^ 63 \<Longrightarrow> sint (len64 xs :: i64) = int (length xs)"
  using sint_i64_of_int [of "int (length xs)"] by simp

text \<open>Entries with distinct keys, put into an empty map one by one.\<close>

definition mput_all :: "('k \<times> 'v) list \<Rightarrow> ('k, 'v) gomap \<Rightarrow> ('k, 'v) gomap" where
  "mput_all xs m = fold (\<lambda>(k, v). mput k v) xs m"

lemma mput_all_distinct [simp, codec]:
  "distinct (map fst m @ map fst xs) \<Longrightarrow> mput_all xs m = m @ xs"
  unfolding mput_all_def by (induction xs arbitrary: m) auto

end
