(* ===== verification/StakingStore.thy ===== *)
theory StakingStore
  imports Staking Buffer
begin

text \<open>
  Staking accounts as bytes and in the database: \<^verbatim>\<open>Marshal\<close> and \<^verbatim>\<open>Unmarshal\<close> of
  \<^verbatim>\<open>src/account/stakeAccount.go\<close> and the table operations of
  \<^verbatim>\<open>src/account/accountsStakingStates.go\<close>, one database entry for each of the 256 delegated
  accounts.

  The lemmas: an account, a table and the whole array come back from their bytes, and what the
  removal from the database really deletes.
\<close>

section \<open>A staking account as bytes\<close>

text \<open>The three lists are read at the positions of the first; a shorter list panics.\<close>

definition lock_triples :: "StakingAccount \<Rightarrow> (i64 \<times> i64 \<times> i64) list result" where
  "lock_triples sa = (let n = length (LockedAmount sa) in
     if length (ReleasePerBlock sa) < n \<or> length (LockedInitBlock sa) < n then Panic
     else Ok (zip (LockedAmount sa) (zip (ReleasePerBlock sa) (LockedInitBlock sa))))"

definition triple_bytes :: "i64 \<times> i64 \<times> i64 \<Rightarrow> bytes" where
  "triple_bytes = (\<lambda>(a, b, c). GetByteInt64 a @ GetByteInt64 b @ GetByteInt64 c)"

definition detail_bytes :: "StakingDetail \<Rightarrow> bytes" where
  "detail_bytes d = GetByteInt64 (sd_Amount d) @ GetByteInt64 (sd_Reward d) @ GetByteInt64 (sd_LastUpdated d)"

definition details_bytes :: "i64 \<times> StakingDetail list \<Rightarrow> bytes" where
  "details_bytes = (\<lambda>(key, details). GetByteInt64 key @ GetByteInt64 (len64 details) @
     concat (map detail_bytes details))"

definition StakingAccount_Marshal :: "StakingAccount \<Rightarrow> bytes result" where
  "StakingAccount_Marshal sa = rbind (lock_triples sa) (\<lambda>locks. Ok (
     GetByteInt64 (StakedBalance sa) @ GetByteInt64 (StakingRewards sa) @
     GetByteInt64 (len64 (LockedAmount sa)) @ concat (map triple_bytes locks) @
     sa_DelegatedAccount sa @ sa_Address sa @ [BoolToByte (OperationalAccount sa)] @
     GetByteInt64 (len64 (StakingDetails sa)) @
     concat (map details_bytes (StakingDetails sa))))"

definition read_triple :: "(bytes, i64 \<times> i64 \<times> i64) op" where
  "read_triple = sbind read_i64 (\<lambda>a. sbind read_i64 (\<lambda>b. sbind read_i64 (\<lambda>c. sret (a, b, c))))"

definition read_detail :: "(bytes, StakingDetail) op" where
  "read_detail = sbind (need 24 ''insufficient data for StakingDetail'') (\<lambda>_.
     sbind read_i64 (\<lambda>amount. sbind read_i64 (\<lambda>reward. sbind read_i64 (\<lambda>lastUpdated.
       sret \<lparr>sd_Amount = amount, sd_Reward = reward, sd_LastUpdated = lastUpdated\<rparr>))))"

definition read_details :: "(bytes, i64 \<times> StakingDetail list) op" where
  "read_details = sbind (need 16 ''insufficient data for key and detail count'') (\<lambda>_.
     sbind read_i64 (\<lambda>key. sbind read_i64 (\<lambda>detailCount.
     sbind (make_slice 24 detailCount) (\<lambda>_.
     sbind (read_n (nat (sint detailCount)) read_detail) (\<lambda>details. sret (key, details))))))"

text \<open>The receiver is a fresh \<^verbatim>\<open>var acc StakingAccount\<close> in every caller.\<close>

definition read_StakingAccount :: "(bytes, StakingAccount) op" where
  "read_StakingAccount =
     sbind (need (16 + 8 + 2 * AddressLength)
       ''insufficient data for StakedBalance and StakingRewards'') (\<lambda>_.
     sbind read_i64 (\<lambda>balance. sbind read_i64 (\<lambda>rewards. sbind read_i64 (\<lambda>numLocked.
     sbind (read_n (nat (sint numLocked)) read_triple) (\<lambda>locks.
     sbind (Next (int AddressLength)) (\<lambda>da. sbind (Next (int AddressLength)) (\<lambda>a.
     sbind (Next 1) (\<lambda>op. sbind (slift (if op = [] then Panic else Ok (hd op))) (\<lambda>flag.
     sbind read_i64 (\<lambda>detailsCount.
     sbind (read_n (nat (sint detailsCount)) read_details) (\<lambda>details.
       sret \<lparr>StakedBalance = balance, StakingRewards = rewards,
         LockedAmount = map fst locks, ReleasePerBlock = map (fst \<circ> snd) locks,
         LockedInitBlock = map (snd \<circ> snd) locks,
         sa_DelegatedAccount = copy_into (replicate 20 0) da,
         sa_Address = copy_into (replicate 20 0) a,
         OperationalAccount = (flag \<noteq> 0), StakingDetails = mput_all details []\<rparr>)))))))))))"

definition StakingAccount_Unmarshal :: "bytes \<Rightarrow> StakingAccount result" where
  "StakingAccount_Unmarshal data = fst (read_StakingAccount data)"

text \<open>A staking account of the shape the operations keep, small enough for its counts.\<close>

definition staking_storable :: "StakingAccount \<Rightarrow> bool" where
  "staking_storable sa \<longleftrightarrow>
     length (ReleasePerBlock sa) = length (LockedAmount sa) \<and>
     length (LockedInitBlock sa) = length (LockedAmount sa) \<and>
     length (LockedAmount sa) < 2 ^ 63 \<and>
     length (sa_DelegatedAccount sa) = 20 \<and> length (sa_Address sa) = 20 \<and>
     gomap_ok (StakingDetails sa) \<and> length (StakingDetails sa) < 2 ^ 63 \<and>
     (\<forall>(h, ds) \<in> set (StakingDetails sa). length ds < 2 ^ 43)"

interpretation triple_codec: codec_pair triple_bytes read_triple "\<lambda>_. True"
  by unfold_locales (auto simp: triple_bytes_def read_triple_def sbind_run sret_def)

interpretation detail_codec: codec_pair detail_bytes read_detail "\<lambda>_. True"
  by unfold_locales (simp add: detail_bytes_def read_detail_def sbind_run sret_def)

lemma make_slice_len64:
  assumes "int w * int (length xs) \<le> 2 ^ 48" and "length xs < 2 ^ 63"
  shows "make_slice w (len64 xs) s = (Ok (), s)"
  using assms by (simp add: make_slice_def sint_len64 sret_def mult.commute)

interpretation details_codec: codec_pair details_bytes read_details
  "\<lambda>p. length (snd p) < 2 ^ 43"
proof
  fix p :: "i64 \<times> StakingDetail list" and ys
  assume short: "length (snd p) < 2 ^ 43"
  obtain h ds where p: "p = (h, ds)" by (cases p)
  have cnt: "nat (sint (len64 ds :: i64)) = length ds" using short p by (simp add: count_back)
  have room: "make_slice 24 (len64 ds) s = (Ok (), s)" for s :: bytes
    using short p by (intro make_slice_len64) auto
  show "read_details (details_bytes p @ ys) = (Ok p, ys)"
    by (simp add: p details_bytes_def read_details_def sbind_run room cnt
        detail_codec.read_n_concat sret_def)
qed

lemma lock_triples_ok:
  "staking_storable sa \<Longrightarrow> lock_triples sa =
    Ok (zip (LockedAmount sa) (zip (ReleasePerBlock sa) (LockedInitBlock sa)))"
  by (simp add: lock_triples_def staking_storable_def)

lemma zip_triples:
  assumes "length ys = length xs" and "length zs = length xs"
  shows "map fst (zip xs (zip ys zs)) = xs" "map (fst \<circ> snd) (zip xs (zip ys zs)) = ys"
    "map (snd \<circ> snd) (zip xs (zip ys zs)) = zs"
  using assms by (simp_all flip: map_map)

lemma StakingAccount_round_trip [codec]:
  assumes "staking_storable sa"
  obtains b where "StakingAccount_Marshal sa = Ok b" and "StakingAccount_Unmarshal b = Ok sa"
proof -
  let ?locks = "zip (LockedAmount sa) (zip (ReleasePerBlock sa) (LockedInitBlock sa))"
  define tl where "tl = GetByteInt64 (len64 (StakingDetails sa)) @ concat (map details_bytes (StakingDetails sa))"
  define b where "b = GetByteInt64 (StakedBalance sa) @ GetByteInt64 (StakingRewards sa) @
     GetByteInt64 (len64 (LockedAmount sa)) @ concat (map triple_bytes ?locks) @
     sa_DelegatedAccount sa @ sa_Address sa @ [BoolToByte (OperationalAccount sa)] @ tl"
  have D: "length (sa_DelegatedAccount sa) = 20" "length (sa_Address sa) = 20"
    "length (LockedAmount sa) < 2 ^ 63" "length (StakingDetails sa) < 2 ^ 63"
    "length ?locks = length (LockedAmount sa)" "gomap_ok (StakingDetails sa)"
    "\<forall>p \<in> set (StakingDetails sa). length (snd p) < 2 ^ 43"
    using assms by (auto simp: staking_storable_def)
  have locks: "read_n (length (LockedAmount sa)) read_triple (concat (map triple_bytes ?locks) @ ys)
      = (Ok ?locks, ys)" for ys
    using triple_codec.read_n_concat [of ?locks ys] D(5) by simp
  have flag: "Next 1 (x # ys) = (Ok [x], ys)" for x ys by (simp add: Next_def)
  have details: "read_n (length (StakingDetails sa)) read_details
      (concat (map details_bytes (StakingDetails sa))) = (Ok (StakingDetails sa), [])"
    using details_codec.read_n_concat [OF D(7), of "[]"] by simp
  have "StakingAccount_Marshal sa = Ok b"
    using lock_triples_ok [OF assms] by (simp add: StakingAccount_Marshal_def b_def tl_def)
  moreover have "StakingAccount_Unmarshal b = Ok sa"
    using assms D
    by (simp add: StakingAccount_Unmarshal_def read_StakingAccount_def b_def tl_def
        sbind_run locks flag details count_back zip_triples staking_storable_def sret_def
        slift_def BoolToByte_def)
  ultimately show thesis by (rule that)
qed

section \<open>Tables of staking accounts as bytes\<close>

fun marshal_entries :: "staking_map \<Rightarrow> bytes result" where
  "marshal_entries [] = Ok []"
| "marshal_entries ((address, acc) # es) =
     rbind (StakingAccount_Marshal acc) (\<lambda>accb.
     rbind (marshal_entries es) (\<lambda>b. Ok (address @ BytesToLenAndBytes accb @ b)))"

definition StakingAccountsType_Marshal :: "staking_map \<Rightarrow> bytes result" where
  "StakingAccountsType_Marshal m = rbind (marshal_entries m) (\<lambda>b.
     Ok (GetByteInt64 (len64 m) @ b))"

text \<open>
  The loop of \<^verbatim>\<open>Unmarshal\<close>: what was read before an error stays in the map.  A short read of the
  address is an error.
\<close>

fun StakingAccountsType_read :: "nat \<Rightarrow> bytes \<Rightarrow> (staking_map, unit) op" where
  "StakingAccountsType_read 0 b = sret ()"
| "StakingAccountsType_read (Suc n) b =
     (if length b < AddressLength then serr ''failed to read address''
      else let (address, b1) = buf_next AddressLength b in
        case read_be32 b1 of
          (Ok nb, b2) \<Rightarrow> let (accb, b3) = buf_next (unat nb) b2 in
            sbind (slift (StakingAccount_Unmarshal accb)) (\<lambda>acc.
            sbind (supd (mput address acc)) (\<lambda>_. StakingAccountsType_read n b3))
        | (Err e, _) \<Rightarrow> serr e
        | (Panic, _) \<Rightarrow> slift Panic)"

definition StakingAccountsType_Unmarshal :: "bytes \<Rightarrow> (staking_map, unit) op" where
  "StakingAccountsType_Unmarshal data =
     (let (h, b) = buf_next 8 data in
      sbind (slift (GetInt64FromByte h)) (\<lambda>accountCount.
      sbind (supd (\<lambda>_. [])) (\<lambda>_. StakingAccountsType_read (nat (sint accountCount)) b)))"

text \<open>Tables that fit their length fields.\<close>

definition staking_entry_ok :: "addr20 \<times> StakingAccount \<Rightarrow> bool" where
  "staking_entry_ok p \<longleftrightarrow> length (fst p) = 20 \<and> staking_storable (snd p) \<and>
     (\<forall>b. StakingAccount_Marshal (snd p) = Ok b \<longrightarrow> length b < 2 ^ 32)"

definition staking_map_storable :: "staking_map \<Rightarrow> bool" where
  "staking_map_storable m \<longleftrightarrow> gomap_ok m \<and> length m < 2 ^ 63 \<and> (\<forall>p \<in> set m. staking_entry_ok p)"

lemma read_be32_len:
  "length accb < 2 ^ 32 \<Longrightarrow>
    read_be32 (BytesToLenAndBytes accb @ ys) = (Ok (word_of_nat (length accb)), accb @ ys)"
  by (simp add: BytesToLenAndBytes_def)

lemma unat_len32: "length b < 2 ^ 32 \<Longrightarrow> unat (word_of_nat (length b) :: i32) = length b"
  by (simp add: unsigned_of_nat take_bit_nat_eq_self)

lemma StakingAccountsType_read_entries:
  assumes "\<forall>p \<in> set xs. staking_entry_ok p" and "distinct (map fst m @ map fst xs)"
  shows "\<exists>b. marshal_entries xs = Ok b \<and> StakingAccountsType_read (length xs) b m = (Ok (), m @ xs)"
  using assms
proof (induction xs arbitrary: m)
  case Nil
  then show ?case by (simp add: sret_def)
next
  case (Cons p xs)
  obtain k a where p: "p = (k, a)" by (cases p)
  have k: "length k = 20" and a: "staking_storable a" using Cons.prems(1) p by (auto simp: staking_entry_ok_def)
  obtain accb where accb: "StakingAccount_Marshal a = Ok accb" "StakingAccount_Unmarshal accb = Ok a"
    using StakingAccount_round_trip [OF a] by blast
  then have short: "length accb < 2 ^ 32" using Cons.prems(1) p by (auto simp: staking_entry_ok_def)
  have put: "mput k a m = m @ [(k, a)]" using Cons.prems(2) p by (intro mput_new) auto
  obtain b where b: "marshal_entries xs = Ok b"
      "StakingAccountsType_read (length xs) b (m @ [(k, a)]) = (Ok (), (m @ [(k, a)]) @ xs)"
    using Cons.IH [of "m @ [(k, a)]"] Cons.prems p by auto
  have "StakingAccountsType_read (length (p # xs)) (k @ BytesToLenAndBytes accb @ b) m = (Ok (), m @ p # xs)"
    using k b(2) accb(2) put p
    by (simp add: read_be32_len [OF short] unat_len32 [OF short] effect_defs)
  then show ?case using p accb b(1) by simp
qed

lemma StakingAccountsType_round_trip [codec]:
  assumes "staking_map_storable m"
  obtains b where "StakingAccountsType_Marshal m = Ok b"
    and "\<And>m0. StakingAccountsType_Unmarshal b m0 = (Ok (), m)"
proof -
  obtain es where es: "marshal_entries m = Ok es"
      "StakingAccountsType_read (length m) es [] = (Ok (), m)"
    using StakingAccountsType_read_entries [of m "[]"] assms by (auto simp: staking_map_storable_def)
  have "nat (sint (len64 m :: i64)) = length m"
    using assms by (intro count_back) (simp add: staking_map_storable_def)
  with es show thesis
    by (intro that [of "GetByteInt64 (len64 m) @ es"])
      (simp_all add: StakingAccountsType_Marshal_def StakingAccountsType_Unmarshal_def effect_defs)
qed

section \<open>The staking array in the database\<close>

definition staking_key :: "i64 \<Rightarrow> nat \<Rightarrow> bytes" where
  "staking_key height i = StakingAccountsDBPrefix @ GetByteInt64 height @ [word_of_nat i]"

text \<open>An entry that cannot be written is logged and the loop goes on.\<close>

definition store_staking :: "'d kv \<Rightarrow> i64 \<Rightarrow> staking \<Rightarrow> nat \<Rightarrow> ('d, unit) op" where
  "store_staking K height s i =
     sbind (slift (rbind (staking_at (int i) s) StakingAccountsType_Marshal)) (\<lambda>k.
       sdrop (DB_Put K (staking_key height i) k))"

definition StoreStakingAccounts :: "'d kv \<Rightarrow> i64 \<Rightarrow> staking \<Rightarrow> ('d, unit) op" where
  "StoreStakingAccounts K height s = sfor (store_staking K height s) [0..<256]"

text \<open>
  One round of the loading loop: a missing entry is skipped, an entry that cannot be decoded
  ends the loading.
\<close>

definition load_staking :: "'d kv \<Rightarrow> i64 \<Rightarrow> 'd \<Rightarrow> nat \<Rightarrow> (staking, unit) op" where
  "load_staking K height d i = (case DB_Get K (staking_key height i) d of
     Ok b \<Rightarrow> sbind (sget (staking_at (int i))) (\<lambda>r. sbind (slift r) (\<lambda>m0.
       case StakingAccountsType_Unmarshal b m0 of (r', m) \<Rightarrow>
         sbind (supd (\<lambda>s. s[i := m])) (\<lambda>_. slift r')))
   | Err e \<Rightarrow> sret ()
   | Panic \<Rightarrow> slift Panic)"

definition LoadStakingAccounts ::
  "'d kv \<Rightarrow> i64 \<Rightarrow> 'd \<Rightarrow> staking \<Rightarrow> (unit result \<times> staking) option" where
  "LoadStakingAccounts K height d s =
     (case (if sint height < 0 then LastHeightStoredInStakingAccounts K d else Some (Ok (height, None))) of
        None \<Rightarrow> None
      | Some Panic \<Rightarrow> Some (Panic, s)
      | Some (Err e) \<Rightarrow> Some (Err e, s)
      | Some (Ok (h, _)) \<Rightarrow> Some (sfor (load_staking K h d) [0..<256] s))"

text \<open>The key grows by one byte in every round.\<close>

fun remove_staking :: "'d kv \<Rightarrow> bytes \<Rightarrow> nat list \<Rightarrow> ('d, unit) op" where
  "remove_staking K prefix [] = sret ()"
| "remove_staking K prefix (i # is) = (let prefix' = prefix @ [word_of_nat i] in
     sbind (DB_Delete K prefix') (\<lambda>_. remove_staking K prefix' is))"

definition RemoveStakingAccountsFromDB :: "'d kv \<Rightarrow> i64 \<Rightarrow> ('d, unit) op" where
  "RemoveStakingAccountsFromDB K height =
     remove_staking K (StakingAccountsDBPrefix @ GetByteInt64 height) [0..<256]"

lemma staking_key_inj:
  "i < 256 \<Longrightarrow> j < 256 \<Longrightarrow> staking_key h i = staking_key h j \<longleftrightarrow> i = j"
  by (auto simp: staking_key_def dest!: arg_cong [where f = unat] simp: unsigned_of_nat take_bit_nat_eq_self)

lemma staking_key_nonempty [simp]: "staking_key h i \<noteq> []"
  by (simp add: staking_key_def)

lemma take_Suc_upt: "n < N \<Longrightarrow> take (Suc n) [0..<N] = 0 # [1..<Suc n]"
  by (subst take_upt) (simp_all add: upt_conv_Cons)

text \<open>The array of tables that the byte format can carry.\<close>

definition staking_storable_all :: "staking \<Rightarrow> bool" where
  "staking_storable_all s \<longleftrightarrow> length s = 256 \<and> (\<forall>m \<in> set s. staking_map_storable m)"

context rocksdb
begin

lemma store_staking_loop:
  assumes "set is \<subseteq> {..<256}" and "\<And>i. i \<in> set is \<Longrightarrow> staking_at (int i) s = Ok (s ! i)"
    and "\<And>i. i \<in> set is \<Longrightarrow> StakingAccountsType_Marshal (s ! i) = Ok (enc i)"
  shows "\<exists>d'. sfor (store_staking K h s) is d = (Ok (), d') \<and>
    (\<forall>j < 256. content d' (staking_key h j) =
      (if j \<in> set is then Some (enc j) else content d (staking_key h j)))"
  using assms
proof (induction "is" arbitrary: d)
  case Nil
  then show ?case by (simp add: sret_def)
next
  case (Cons i "is")
  obtain d1 where put: "DB_Put K (staking_key h i) (enc i) d = (Ok (), d1)"
      "content d1 = (content d)(staking_key h i \<mapsto> enc i)"
    using DB_Put_run [of "staking_key h i" "enc i" d] by auto
  obtain d' where d': "sfor (store_staking K h s) is d1 = (Ok (), d')"
    "\<forall>j < 256. content d' (staking_key h j) =
      (if j \<in> set is then Some (enc j) else content d1 (staking_key h j))"
    using Cons.IH [of d1] Cons.prems by auto
  have "store_staking K h s i d = (Ok (), d1)"
    using put Cons.prems(2,3) [of i] by (simp add: store_staking_def effect_defs)
  moreover have "i < 256" using Cons.prems(1) by simp
  ultimately show ?case using d' put(2) by (auto simp: sbind_run staking_key_inj)
qed

lemma load_staking_loop:
  assumes "set is \<subseteq> {..<length s}" and "length s0 = length s"
    and "\<And>i. i \<in> set is \<Longrightarrow> content d (staking_key h i) = Some (enc i)"
    and "\<And>i m0. i \<in> set is \<Longrightarrow> StakingAccountsType_Unmarshal (enc i) m0 = (Ok (), s ! i)"
  shows "\<exists>s1. sfor (load_staking K h d) is s0 = (Ok (), s1) \<and> length s1 = length s \<and>
    (\<forall>j < length s. s1 ! j = (if j \<in> set is then s ! j else s0 ! j))"
  using assms
proof (induction "is" arbitrary: s0)
  case Nil
  then show ?case by (simp add: sret_def)
next
  case (Cons i "is")
  have i: "i < length s" using Cons.prems(1) by simp
  have "load_staking K h d i s0 = (Ok (), s0[i := s ! i])"
    using Cons.prems(2-4) i
    by (simp add: load_staking_def DB_Get_content staking_at_def effect_defs)
  moreover obtain s1 where "sfor (load_staking K h d) is (s0[i := s ! i]) = (Ok (), s1)"
    "length s1 = length s"
    "\<forall>j < length s. s1 ! j = (if j \<in> set is then s ! j else s0[i := s ! i] ! j)"
    using Cons.IH [of "s0[i := s ! i]"] Cons.prems by auto
  ultimately show ?case
    using i Cons.prems(2) by (auto simp: sbind_run nth_list_update)
qed

lemma LoadStakingAccounts_content:
  assumes "staking_storable_all s" and "length s0 = 256" and "0 \<le> sint height"
    and "\<And>i b. i < 256 \<Longrightarrow> StakingAccountsType_Marshal (s ! i) = Ok b \<Longrightarrow> content d (staking_key height i) = Some b"
  shows "LoadStakingAccounts K height d s0 = Some (Ok (), s)"
proof -
  have len: "length s = 256" using assms(1) by (simp add: staking_storable_all_def)
  have "\<exists>b. content d (staking_key height i) = Some b \<and> (\<forall>m0. StakingAccountsType_Unmarshal b m0 = (Ok (), s ! i))"
    if "i < 256" for i
    using StakingAccountsType_round_trip [of "s ! i"] assms(1,4) that by (fastforce simp: staking_storable_all_def)
  then obtain enc where enc: "\<And>i. i < 256 \<Longrightarrow> content d (staking_key height i) = Some (enc i)"
    "\<And>i m0. i < 256 \<Longrightarrow> StakingAccountsType_Unmarshal (enc i) m0 = (Ok (), s ! i)" by metis
  obtain s1 where "sfor (load_staking K height d) [0..<256] s0 = (Ok (), s1)" "length s1 = length s"
    "\<forall>j < length s. s1 ! j = s ! j"
    using load_staking_loop [of "[0..<256]" s s0 d height enc] enc len assms(2) by (auto simp: lessThan_atLeast0)
  then have "sfor (load_staking K height d) [0..<256] s0 = (Ok (), s)"
    by (simp add: list_eq_iff_nth_eq)
  with assms(3) show ?thesis by (simp add: LoadStakingAccounts_def)
qed

lemma StoreStakingAccounts_content:
  assumes "staking_storable_all s"
  shows "\<exists>d'. StoreStakingAccounts K height s d = (Ok (), d') \<and>
    (\<forall>i < 256. \<forall>b. StakingAccountsType_Marshal (s ! i) = Ok b \<longrightarrow> content d' (staking_key height i) = Some b)"
proof -
  have "\<exists>b. StakingAccountsType_Marshal (s ! i) = Ok b" if "i < 256" for i
    using assms that unfolding staking_storable_all_def by (metis nth_mem StakingAccountsType_round_trip)
  then obtain enc where enc: "\<And>i. i < 256 \<Longrightarrow> StakingAccountsType_Marshal (s ! i) = Ok (enc i)" by metis
  then show ?thesis
    unfolding StoreStakingAccounts_def
    using store_staking_loop [of "[0..<256]" s enc height d] assms
    by (auto simp: staking_at_def lessThan_atLeast0 staking_storable_all_def)
qed

lemma LoadStakingAccounts_StoreStakingAccounts:
  assumes "staking_storable_all s" and "length s0 = 256" and "0 \<le> sint height"
  shows "LoadStakingAccounts K height (snd (StoreStakingAccounts K height s d)) s0 = Some (Ok (), s)"
  using StoreStakingAccounts_content [OF assms(1), of height d]
  by (intro LoadStakingAccounts_content [OF assms]) auto

lemma remove_staking_run:
  assumes "prefix \<noteq> []"
  shows "\<exists>d'. remove_staking K prefix is d = (Ok (), d') \<and>
    (\<forall>k. content d' k = (if \<exists>n < length is. k = prefix @ map word_of_nat (take (Suc n) is)
      then None else content d k))"
  using assms
proof (induction "is" arbitrary: prefix d)
  case Nil
  then show ?case by (simp add: sret_def)
next
  case (Cons i "is")
  obtain d1 where del: "DB_Delete K (prefix @ [word_of_nat i]) d = (Ok (), d1)"
      "content d1 = (content d)(prefix @ [word_of_nat i] := None)"
    using DB_Delete_run [of "prefix @ [word_of_nat i]" d] by auto
  obtain d' where d': "remove_staking K (prefix @ [word_of_nat i]) is d1 = (Ok (), d')"
    "\<forall>k. content d' k = (if \<exists>n < length is. k = (prefix @ [word_of_nat i]) @ map word_of_nat (take (Suc n) is)
      then None else content d1 k)"
    using Cons.IH [of "prefix @ [word_of_nat i]" d1] by auto
  have split: "(\<exists>n < length (i # is). k = prefix @ map word_of_nat (take (Suc n) (i # is))) \<longleftrightarrow>
      k = prefix @ [word_of_nat i] \<or>
      (\<exists>n < length is. k = (prefix @ [word_of_nat i]) @ map word_of_nat (take (Suc n) is))" for k
    by (auto simp: less_Suc_eq_0_disj)
  have "remove_staking K prefix (i # is) d = (Ok (), d')"
    using del(1) d'(1) by (simp add: sbind_run Let_def)
  moreover have "content d' k = (if \<exists>n < length (i # is). k = prefix @ map word_of_nat (take (Suc n) (i # is))
      then None else content d k)" for k
    unfolding split using d'(2) del(2) by (auto simp del: append_assoc)
  ultimately show ?case by blast
qed

lemma RemoveStakingAccountsFromDB_run:
  "\<exists>d'. RemoveStakingAccountsFromDB K height d = (Ok (), d') \<and>
    content d' (staking_key height 0) = None \<and>
    (\<forall>i. 1 \<le> i \<longrightarrow> i < 256 \<longrightarrow> content d' (staking_key height i) = content d (staking_key height i))"
proof -
  obtain d' where d': "RemoveStakingAccountsFromDB K height d = (Ok (), d')"
    "\<forall>k. content d' k = (if \<exists>n < 256. k = (StakingAccountsDBPrefix @ GetByteInt64 height) @
        map word_of_nat (take (Suc n) [0..<256]) then None else content d k)"
    using remove_staking_run [of "StakingAccountsDBPrefix @ GetByteInt64 height" "[0..<256]" d]
    by (auto simp: RemoveStakingAccountsFromDB_def)
  have first: "staking_key height i = (StakingAccountsDBPrefix @ GetByteInt64 height) @
      map word_of_nat (take (Suc n) [0..<256]) \<longleftrightarrow> n = 0 \<and> i = 0" if "n < 256" "i < 256" for n i
  proof -
    have hd: "take (Suc n) [0..<256] = 0 # [1..<Suc n]"
      using that(1) by (rule take_Suc_upt)
    show ?thesis using that
      by (auto simp: staking_key_def hd unsigned_of_nat take_bit_nat_eq_self
          simp del: upt_Suc dest!: arg_cong [where f = unat])
  qed
  have "content d' (staking_key height 0) = None"
    by (subst d'(2) [rule_format], subst if_P) (use first [of 0 0] in \<open>auto intro!: exI [of _ "0 :: nat"]\<close>)
  moreover have "content d' (staking_key height i) = content d (staking_key height i)"
    if "1 \<le> i" "i < 256" for i
    by (subst d'(2) [rule_format], subst if_not_P) (use first [of _ i] that in auto)
  ultimately show ?thesis using d'(1) by blast
qed

end

section \<open>Properties\<close>

text \<open>
  C30: the staking accounts of all 256 delegated accounts come back from the database exactly as
  they were stored, with their locks, rewards and details, whatever the node held before.
\<close>

theorem LoadStakingAccounts_after_StoreStakingAccounts:
  assumes "rocksdb K content" and "length s = 256" and "\<forall>m \<in> set s. staking_map_storable m"
    and "length s0 = 256" and "0 \<le> sint height"
  shows "LoadStakingAccounts K height (snd (StoreStakingAccounts K height s d)) s0 = Some (Ok (), s)"
  using assms by (intro rocksdb.LoadStakingAccounts_StoreStakingAccounts) (auto simp: staking_storable_all_def)

definition stored_staking_account :: StakingAccount where
  "stored_staking_account = zero_StakingAccount\<lparr>StakedBalance := 7, LockedAmount := [3],
     ReleasePerBlock := [1], LockedInitBlock := [2], sa_Address := sample_addr 1,
     StakingDetails := [(2, [\<lparr>sd_Amount = 7, sd_Reward = 0, sd_LastUpdated = 9\<rparr>])]\<rparr>"

definition stored_staking :: staking where
  "stored_staking = [(sample_addr 1, stored_staking_account)] # replicate 255 []"

lemma stored_staking_storable: "\<forall>m \<in> set stored_staking. staking_map_storable m"
proof -
  have "staking_storable stored_staking_account"
    by (simp add: staking_storable_def stored_staking_account_def zero_StakingAccount_def)
  moreover have "length b < 2 ^ 32" if "StakingAccount_Marshal stored_staking_account = Ok b" for b
    using that by (auto simp: StakingAccount_Marshal_def lock_triples_def stored_staking_account_def
        zero_StakingAccount_def triple_bytes_def details_bytes_def detail_bytes_def)
  ultimately show ?thesis
    by (auto simp: stored_staking_def staking_map_storable_def staking_entry_ok_def)
qed

theorem LoadStakingAccounts_after_StoreStakingAccounts_witness:
  "LoadStakingAccounts mem_kv 3 (snd (StoreStakingAccounts mem_kv 3 stored_staking []))
     (replicate 256 []) = Some (Ok (), stored_staking)"
  by (rule LoadStakingAccounts_after_StoreStakingAccounts
      [OF memdb.rocksdb_axioms _ stored_staking_storable])
    (simp_all add: stored_staking_def)

text \<open>
  removing the staking accounts of a height reports success but deletes the entry of delegated
  account 0 only: the entries of all the others are still there, and so the height still counts as
  stored.
\<close>

lemma RemoveStakingAccountsFromDB_keeps_entries:
  assumes "rocksdb K content"
  shows "\<exists>d'. RemoveStakingAccountsFromDB K height d = (Ok (), d') \<and>
    content d' (staking_key height 0) = None \<and>
    (\<forall>i. 1 \<le> i \<longrightarrow> i < 256 \<longrightarrow> content d' (staking_key height i) = content d (staking_key height i))"
  by (rule rocksdb.RemoveStakingAccountsFromDB_run [OF assms])

lemma RemoveStakingAccountsFromDB_keeps_entries_example:
  "\<exists>d'. RemoveStakingAccountsFromDB mem_kv 0 [(staking_key 0 5, [1])] = (Ok (), d') \<and>
    map_of d' (staking_key 0 5) = Some [1]"
  using RemoveStakingAccountsFromDB_keeps_entries [OF memdb.rocksdb_axioms, of 0 "[(staking_key 0 5, [1])]"]
  by fastforce

end
