(* ===== verification/Dex.thy ===== *)
theory Dex
  imports Account Buffer
begin

text \<open>
  Accounts of the exchange: \<^verbatim>\<open>src/account/dexAccount.go\<close> and \<^verbatim>\<open>accountsDexStates.go\<close>.  The global
  variable \<^verbatim>\<open>DexAccounts\<close> is the state \<open>dex\<close>, a map from token addresses to pools that is never
  nil, as after genesis.

  The lemmas: one pool comes back from its bytes, and a table of pools does so only when it has
  at most one entry, since its length fields are written in one byte order and read in the other.
\<close>

section \<open>One pool\<close>

record CoinTokenDetails =
  CoinBalance :: i64
  TokenBalance :: i64

record DexAccount =
  Balances :: "(addr20, CoinTokenDetails) gomap"
  CoinPool :: i64
  TokenPool :: i64
  TokenPrice :: i64
  dex_TokenAddress :: Address

type_synonym dex = "(addr20, DexAccount) gomap"

definition zero_DexAccount :: DexAccount where
  "zero_DexAccount = \<lparr>Balances = [], CoinPool = 0, TokenPool = 0, TokenPrice = 0,
     dex_TokenAddress = zero_Address\<rparr>"

definition CoinTokenDetails_Marshal :: "CoinTokenDetails \<Rightarrow> bytes" where
  "CoinTokenDetails_Marshal ctb = GetByteInt64 (CoinBalance ctb) @ GetByteInt64 (TokenBalance ctb)"

definition CoinTokenDetails_Unmarshal :: "bytes \<Rightarrow> CoinTokenDetails result" where
  "CoinTokenDetails_Unmarshal b =
     rbind (slice b 0 8) (\<lambda>x. rbind (GetInt64FromByte x) (\<lambda>coin.
     rbind (slice b 8 16) (\<lambda>y. rbind (GetInt64FromByte y) (\<lambda>token.
       Ok \<lparr>CoinBalance = coin, TokenBalance = token\<rparr>))))"

definition dex_balance_bytes :: "addr20 \<times> CoinTokenDetails \<Rightarrow> bytes" where
  "dex_balance_bytes = (\<lambda>(addr, details). addr @ CoinTokenDetails_Marshal details)"

definition DexAccount_Marshal :: "DexAccount \<Rightarrow> bytes" where
  "DexAccount_Marshal da = GetByteInt64 (CoinPool da) @ GetByteInt64 (TokenPool da) @
     GetByteInt64 (TokenPrice da) @ addr_ByteValue (dex_TokenAddress da) @
     GetByteInt64 (len64 (Balances da)) @ concat (map dex_balance_bytes (Balances da))"

definition read_dex_balance :: "(bytes, addr20 \<times> CoinTokenDetails) op" where
  "read_dex_balance =
     sbind (need (16 + AddressLength) ''insufficient data for key and detail count'') (\<lambda>_.
     sbind (Next (int AddressLength)) (\<lambda>a. sbind (Next 16) (\<lambda>b.
     sbind (slift (CoinTokenDetails_Unmarshal b)) (\<lambda>details.
       sret (copy_into (replicate 20 0) a, details)))))"

text \<open>The receiver is a fresh \<^verbatim>\<open>var acc DexAccount\<close>; bytes after the last balance are ignored.\<close>

definition read_DexAccount :: "(bytes, DexAccount) op" where
  "read_DexAccount =
     sbind (need (8 * 3 + AddressLength) ''insufficient data for dex accounts unmarshaling'') (\<lambda>_.
     sbind read_i64 (\<lambda>coinPool. sbind read_i64 (\<lambda>tokenPool. sbind read_i64 (\<lambda>tokenPrice.
     sbind (Next (int AddressLength)) (\<lambda>a.
     sbind read_i64 (\<lambda>detailsCount.
     sbind (read_n (nat (sint detailsCount)) read_dex_balance) (\<lambda>bs.
       sret \<lparr>Balances = mput_all bs [], CoinPool = coinPool, TokenPool = tokenPool,
         TokenPrice = tokenPrice, dex_TokenAddress =
           zero_Address\<lparr>addr_ByteValue := copy_into (replicate 20 0) a\<rparr>\<rparr>)))))))"

definition DexAccount_Unmarshal :: "bytes \<Rightarrow> DexAccount result" where
  "DexAccount_Unmarshal data = fst (read_DexAccount data)"

section \<open>The table of pools\<close>

definition dex_entry_bytes :: "addr20 \<times> DexAccount \<Rightarrow> bytes" where
  "dex_entry_bytes = (\<lambda>(address, acc). address @ BytesToLenAndBytes (DexAccount_Marshal acc))"

definition DexAccountsType_Marshal :: "dex \<Rightarrow> bytes" where
  "DexAccountsType_Marshal da = GetByteInt64 (len64 da) @ concat (map dex_entry_bytes da)"

text \<open>\<^verbatim>\<open>int(nb)\<close> keeps the sign of the \<^verbatim>\<open>int32\<close> that \<^verbatim>\<open>GetInt32FromByte\<close> returns.\<close>

fun DexAccountsType_read :: "nat \<Rightarrow> bytes \<Rightarrow> (dex, unit) op" where
  "DexAccountsType_read 0 b = sret ()"
| "DexAccountsType_read (Suc n) b =
     (if length b < AddressLength then serr ''failed to read address''
      else let (address, b1) = buf_next AddressLength b in
        case sbind read_i32 (\<lambda>nb. Next (sint nb)) b1 of
          (Ok accb, b2) \<Rightarrow>
            sbind (slift (DexAccount_Unmarshal accb)) (\<lambda>acc.
            sbind (supd (mput address acc)) (\<lambda>_. DexAccountsType_read n b2))
        | (Err e, _) \<Rightarrow> serr e
        | (Panic, _) \<Rightarrow> slift Panic)"

definition DexAccountsType_Unmarshal :: "bytes \<Rightarrow> (dex, unit) op" where
  "DexAccountsType_Unmarshal data =
     (let (h, b) = buf_next 8 data in
      sbind (slift (GetInt64FromByte h)) (\<lambda>accountCount.
      sbind (supd (\<lambda>_. [])) (\<lambda>_. DexAccountsType_read (nat (sint accountCount)) b)))"

definition GetDexAccountByAddressBytes :: "bytes \<Rightarrow> dex \<Rightarrow> DexAccount result" where
  "GetDexAccountByAddressBytes address s = rbind (slice address 0 AddressLength) (\<lambda>b.
     Ok (mgetd zero_DexAccount s (copy_into (replicate 20 0) b)))"

definition SetDexAccountByAddressBytes :: "bytes \<Rightarrow> DexAccount \<Rightarrow> (dex, unit) op" where
  "SetDexAccountByAddressBytes address acc = sbind (slift (slice address 0 AddressLength)) (\<lambda>b.
     supd (mput (copy_into (replicate 20 0) b) acc))"

definition GetCoinLiquidityInDex :: "dex \<Rightarrow> i64" where
  "GetCoinLiquidityInDex s = msum CoinPool s"

section \<open>Pools in the database\<close>

text \<open>A failed write is logged only.\<close>

definition StoreDexAccounts :: "'d kv \<Rightarrow> i64 \<Rightarrow> dex \<Rightarrow> ('d, unit) op" where
  "StoreDexAccounts K height s =
     sdrop (DB_Put K (DexAccountsDBPrefix @ GetByteInt64 height) (DexAccountsType_Marshal s))"

definition LoadDexAccounts :: "'d kv \<Rightarrow> i64 \<Rightarrow> 'd \<Rightarrow> dex \<Rightarrow> (unit result \<times> dex) option" where
  "LoadDexAccounts K height d s =
     (case (if sint height < 0 then LastHeightStoredInDexAccounts K d else Some (Ok (height, None))) of
        None \<Rightarrow> None
      | Some Panic \<Rightarrow> Some (Panic, s)
      | Some (Err e) \<Rightarrow> Some (Err e, s)
      | Some (Ok (h, _)) \<Rightarrow>
          (case DB_Get K (DexAccountsDBPrefix @ GetByteInt64 h) d of
             Ok b \<Rightarrow> Some (DexAccountsType_Unmarshal b s)
           | Err e \<Rightarrow> Some (Err e, s)
           | Panic \<Rightarrow> Some (Panic, s)))"

definition RemoveDexAccountsFromDB :: "'d kv \<Rightarrow> i64 \<Rightarrow> ('d, unit) op" where
  "RemoveDexAccountsFromDB K height = DB_Delete K (DexAccountsDBPrefix @ GetByteInt64 height)"

section \<open>Round trips\<close>

lemma CoinTokenDetails_round_trip [simp, codec]:
  "CoinTokenDetails_Unmarshal (CoinTokenDetails_Marshal c) = Ok c"
  by (cases c) (simp add: CoinTokenDetails_Unmarshal_def CoinTokenDetails_Marshal_def slice_def)

lemma length_CoinTokenDetails_Marshal [simp]: "length (CoinTokenDetails_Marshal c) = 16"
  by (simp add: CoinTokenDetails_Marshal_def)

interpretation dex_balance_codec: codec_pair dex_balance_bytes read_dex_balance "\<lambda>p. length (fst p) = 20"
  by unfold_locales
    (auto simp: dex_balance_bytes_def read_dex_balance_def sbind_run sret_def slift_def)

text \<open>The token address is read without its flag, which stays at the zero value.\<close>

definition dex_storable :: "DexAccount \<Rightarrow> bool" where
  "dex_storable da \<longleftrightarrow> gomap_ok (Balances da) \<and> length (Balances da) < 2 ^ 63 \<and>
     (\<forall>p \<in> set (Balances da). length (fst p) = 20) \<and>
     Address_ok (dex_TokenAddress da) \<and> \<not> addr_Primary (dex_TokenAddress da)"

lemma read_DexAccount_Marshal:
  assumes "dex_storable da"
  shows "read_DexAccount (DexAccount_Marshal da @ ys) = (Ok da, ys)"
proof -
  have D: "length (addr_ByteValue (dex_TokenAddress da)) = 20" "length (Balances da) < 2 ^ 63"
      "\<not> addr_Primary (dex_TokenAddress da)" "distinct (map fst (Balances da))"
      "\<forall>p \<in> set (Balances da). length (fst p) = 20"
    using assms by (auto simp: dex_storable_def Address_ok_def)
  have "zero_Address\<lparr>addr_ByteValue := addr_ByteValue (dex_TokenAddress da)\<rparr> = dex_TokenAddress da"
    using D(3) by (cases "dex_TokenAddress da") (simp add: zero_Address_def)
  then show ?thesis
    using D dex_balance_codec.read_n_concat [OF D(5)]
    by (simp add: read_DexAccount_def DexAccount_Marshal_def sbind_run sret_def)
qed

lemma DexAccount_round_trip [codec]:
  "dex_storable da \<Longrightarrow> DexAccount_Unmarshal (DexAccount_Marshal da @ ys) = Ok da"
  by (simp add: DexAccount_Unmarshal_def read_DexAccount_Marshal)

text \<open>A big-endian length below 128, read in little-endian order, is that many times \<open>2 ^ 24\<close>.\<close>

lemma swapped_lengths:
  "list_all (\<lambda>n. sint (le_word (be_bytes 4 (word_of_nat n :: i32)) :: i32) = int n * 2 ^ 24) [1..<128]"
  by code_simp

lemma swapped_length:
  assumes "0 < n" and "n < 128"
  shows "\<exists>nb. read_i32 (be_bytes 4 (word_of_nat n :: i32) @ ys) = (Ok nb, ys) \<and> sint nb = int n * 2 ^ 24"
proof -
  have "n \<in> set [1..<128]" using assms by simp
  with swapped_lengths show ?thesis
    unfolding list_all_iff
    by (simp add: read_i32_def sbind_run slift_def GetInt32FromByte_def)
qed

lemma length_DexAccount_Marshal:
  "dex_storable da \<Longrightarrow> length (DexAccount_Marshal da) = 52 + 36 * length (Balances da)"
  by (simp add: DexAccount_Marshal_def dex_storable_def Address_ok_def dex_balance_bytes_def
      split_beta length_concat_const [where w = 36])

lemma DexAccountsType_read_first:
  assumes "length k = 20" and "dex_storable a" and "length (Balances a) \<le> 2"
    and "length ys \<le> 2 ^ 24"
  shows "DexAccountsType_read (Suc n) (dex_entry_bytes (k, a) @ ys) s =
    DexAccountsType_read n [] (mput k a s)"
proof -
  let ?l = "length (DexAccount_Marshal a)"
  have l: "52 \<le> ?l" "?l < 128" using assms(2,3) by (auto simp: length_DexAccount_Marshal)
  obtain nb where nb: "read_i32 (be_bytes 4 (word_of_nat ?l :: i32) @ DexAccount_Marshal a @ ys) =
      (Ok nb, DexAccount_Marshal a @ ys)" "sint nb = int ?l * 2 ^ 24"
    using swapped_length [of ?l] l by fastforce
  have "length (DexAccount_Marshal a @ ys) \<le> nat (sint nb)"
    using l(1) assms(4) by (simp add: nb(2) nat_mult_distrib)
  then have "Next (sint nb) (DexAccount_Marshal a @ ys) = (Ok (DexAccount_Marshal a @ ys), [])"
    by (simp add: Next_def nb(2))
  then show ?thesis
    using assms(1) DexAccount_round_trip [OF assms(2), of ys]
    by (simp add: dex_entry_bytes_def BytesToLenAndBytes_def sbind_run nb(1) slift_def supd_def)
qed

section \<open>Properties\<close>

text \<open>
  a table of two or more pools cannot be loaded back: the length of the first pool is written
  high byte first and read low byte first, so the first pool swallows the whole of the data and
  the second is missing.  A single small pool does come back.
\<close>

lemma DexAccountsType_Unmarshal_loses_pools:
  assumes "length k = 20" and "dex_storable a" and "length (Balances a) \<le> 2"
    and "length es < 2 ^ 62" and "length (concat (map dex_entry_bytes es)) \<le> 2 ^ 24"
  shows "DexAccountsType_Unmarshal (DexAccountsType_Marshal ((k, a) # es)) s0 =
    ((if es = [] then Ok () else Err ''failed to read address''), [(k, a)])"
proof -
  have "nat (sint (len64 ((k, a) # es) :: i64)) = Suc (length es)"
    using count_back [of "(k, a) # es"] assms(4) by simp
  moreover have "DexAccountsType_read (Suc (length es))
      (dex_entry_bytes (k, a) @ concat (map dex_entry_bytes es)) [] =
      DexAccountsType_read (length es) [] [(k, a)]"
    using DexAccountsType_read_first [OF assms(1-3,5), of "length es" "[]"] by simp
  ultimately show ?thesis
    by (cases es) (simp_all add: DexAccountsType_Unmarshal_def DexAccountsType_Marshal_def
        effect_defs del: of_nat_Suc DexAccountsType_read.simps(2), simp add: serr_def sret_def)
qed

lemma DexAccountsType_Unmarshal_loses_pools_example:
  "DexAccountsType_Unmarshal (DexAccountsType_Marshal
     [(sample_addr 1, zero_DexAccount\<lparr>CoinPool := 5\<rparr>), (sample_addr 2, zero_DexAccount\<lparr>CoinPool := 6\<rparr>)]) [] =
    (Err ''failed to read address'', [(sample_addr 1, zero_DexAccount\<lparr>CoinPool := 5\<rparr>)])"
proof -
  have ok: "dex_storable (zero_DexAccount\<lparr>CoinPool := c\<rparr>)" for c
    by (simp add: dex_storable_def zero_DexAccount_def zero_Address_def Address_ok_def)
  show ?thesis
    using DexAccountsType_Unmarshal_loses_pools [OF length_sample_addr [of 1] ok [of 5],
        of "[(sample_addr 2, zero_DexAccount\<lparr>CoinPool := 6\<rparr>)]" "[]"]
    by (simp add: zero_DexAccount_def dex_entry_bytes_def DexAccount_Marshal_def zero_Address_def)
qed

end
