(* ===== verification/StateDB.thy ===== *)
theory StateDB
  imports Account
begin

text \<open>
  The state of the contracts: \<^verbatim>\<open>src/core/stateDB/methods.go\<close>.  One record holds accounts, code, storage,
  nonces, tokens and the log from which a snapshot is restored.  The maps of a created state are
  never nil.  The 256-bit Keccak digest is the argument \<open>keccak\<close>.

  The lemmas: reading what was written, for storage, code, nonces and token balances; writes to one
  contract leave the others alone; every storage write takes a new snapshot number; and what a
  revert really restores.
\<close>

section \<open>State\<close>

record TokenInfo =
  ti_Name :: string
  ti_Symbols :: string
  ti_Decimals :: byte

record StateAccount =
  st_Accounts :: "(addr20, Account) gomap"
  Codes :: "(addr20, bytes) gomap"
  CodeHashes :: "(addr20, hash) gomap"
  StatesHashes :: "(addr20, (hash, hash) gomap) gomap"
  Nonces :: "(addr20, i64) gomap"
  States :: "(hash, bytes) gomap"
  st_Balances :: "(addr20, (addr20, i64) gomap) gomap"
  Tokens :: "(addr20, TokenInfo) gomap"
  SnapShotNum :: int
  SnapShotPreimage :: "(int, (addr20, hash) gomap) gomap"
  HeightToSnapShotNum :: "(i64, int) gomap"

definition CreateStateDB :: StateAccount where
  "CreateStateDB = \<lparr>st_Accounts = [], Codes = [], CodeHashes = [], StatesHashes = [], Nonces = [],
     States = [], st_Balances = [], Tokens = [], SnapShotNum = 0, SnapShotPreimage = [],
     HeightToSnapShotNum = []\<rparr>"

definition SetSnapShotNum :: "i64 \<Rightarrow> int \<Rightarrow> StateAccount \<Rightarrow> StateAccount" where
  "SetSnapShotNum height snapNum sa =
     sa\<lparr>HeightToSnapShotNum := mput height snapNum (HeightToSnapShotNum sa)\<rparr>"

definition GetSnapShotNum :: "i64 \<Rightarrow> StateAccount \<Rightarrow> int \<times> bool" where
  "GetSnapShotNum height sa = (case map_of (HeightToSnapShotNum sa) height of
     None \<Rightarrow> (0, False) | Some sn \<Rightarrow> (sn, True))"

definition CreateAccount :: "Address \<Rightarrow> StateAccount \<Rightarrow> StateAccount" where
  "CreateAccount a sa = (let acc = zero_Account\<lparr>acc_Address := copy_into (replicate 20 0) (addr_ByteValue a)\<rparr>
     in sa\<lparr>st_Accounts := mput (addr_ByteValue a) acc (st_Accounts sa)\<rparr>)"

definition RegisterNewToken :: "Address \<Rightarrow> string \<Rightarrow> string \<Rightarrow> byte \<Rightarrow> StateAccount \<Rightarrow> StateAccount" where
  "RegisterNewToken a nm symbol decimals sa =
     sa\<lparr>Tokens := mput (addr_ByteValue a)
       \<lparr>ti_Name = nm, ti_Symbols = symbol, ti_Decimals = decimals\<rparr> (Tokens sa)\<rparr>"

definition GetNonce :: "Address \<Rightarrow> StateAccount \<Rightarrow> i64" where
  "GetNonce a sa = mgetd 0 (Nonces sa) (addr_ByteValue a)"

definition SetNonce :: "Address \<Rightarrow> i64 \<Rightarrow> StateAccount \<Rightarrow> StateAccount" where
  "SetNonce a n sa = sa\<lparr>Nonces := mput (addr_ByteValue a) n (Nonces sa)\<rparr>"

definition GetCodeHash :: "Address \<Rightarrow> StateAccount \<Rightarrow> hash" where
  "GetCodeHash a sa = mgetd EmptyHash (CodeHashes sa) (addr_ByteValue a)"

definition GetCode :: "Address \<Rightarrow> StateAccount \<Rightarrow> bytes" where
  "GetCode a sa = mgetd [] (Codes sa) (addr_ByteValue a)"

definition SetCode :: "(bytes \<Rightarrow> hash) \<Rightarrow> Address \<Rightarrow> bytes \<Rightarrow> StateAccount \<Rightarrow> StateAccount" where
  "SetCode keccak a c sa = sa\<lparr>Codes := mput (addr_ByteValue a) c (Codes sa),
     CodeHashes := mput (addr_ByteValue a) (keccak c) (CodeHashes sa)\<rparr>"

definition GetCodeSize :: "Address \<Rightarrow> StateAccount \<Rightarrow> nat" where
  "GetCodeSize a sa = length (GetCode a sa)"

section \<open>Storage and snapshots\<close>

definition GetState :: "Address \<Rightarrow> hash \<Rightarrow> StateAccount \<Rightarrow> hash" where
  "GetState a h sa = (case map_of (StatesHashes sa) (addr_ByteValue a) of
     Some s \<Rightarrow> mgetd EmptyHash s h | None \<Rightarrow> EmptyHash)"

definition GetCommittedState :: "Address \<Rightarrow> hash \<Rightarrow> StateAccount \<Rightarrow> hash" where
  "GetCommittedState a h sa = (case map_of (StatesHashes sa) (addr_ByteValue a) of
     Some s \<Rightarrow> mgetd EmptyHash s h | None \<Rightarrow> EmptyHash)"

definition SetState :: "Address \<Rightarrow> hash \<Rightarrow> hash \<Rightarrow> StateAccount \<Rightarrow> StateAccount" where
  "SetState a h h2 sa =
     (let n = SnapShotNum sa + 1; ab = addr_ByteValue a in
      case map_of (StatesHashes sa) ab of
        Some s \<Rightarrow> sa\<lparr>SnapShotNum := n,
          SnapShotPreimage := mput n [(ab, mgetd EmptyHash s h)] (SnapShotPreimage sa),
          StatesHashes := mput ab (mput h h2 s) (StatesHashes sa)\<rparr>
      | None \<Rightarrow> sa\<lparr>SnapShotNum := n,
          SnapShotPreimage := mput n [(ab, EmptyHash)] (SnapShotPreimage sa),
          StatesHashes := mput ab [(h, h2)] (StatesHashes sa)\<rparr>)"

definition Snapshot :: "StateAccount \<Rightarrow> int" where
  "Snapshot sa = SnapShotNum sa"

text \<open>
  One entry of the log: the value \<open>h\<close> recorded for contract \<open>a\<close> is used as the storage key.
  Deleting from a missing storage does nothing, writing into it panics.
\<close>

definition revert_entry :: "addr20 \<times> hash \<Rightarrow> (StateAccount, unit) op" where
  "revert_entry = (\<lambda>(a, h).
     if h = EmptyHash
     then supd (\<lambda>sa. case map_of (StatesHashes sa) a of
       Some s \<Rightarrow> sa\<lparr>StatesHashes := mput a (mdel h s) (StatesHashes sa)\<rparr> | None \<Rightarrow> sa)
     else sbind (sget (\<lambda>sa. map_of (StatesHashes sa) a)) (\<lambda>s. case s of
       Some s \<Rightarrow> supd (\<lambda>sa. sa\<lparr>StatesHashes := mput a (mput h h s) (StatesHashes sa)\<rparr>)
     | None \<Rightarrow> slift Panic))"

definition RevertToSnapshot :: "int \<Rightarrow> (StateAccount, unit) op" where
  "RevertToSnapshot sn =
     sbind (sget (\<lambda>sa. map (\<lambda>s. mgetd [] (SnapShotPreimage sa) s) [sn + 1..SnapShotNum sa])) (\<lambda>logs.
     sbind (sfor (sfor revert_entry) logs) (\<lambda>_.
     supd (\<lambda>sa. sa\<lparr>SnapShotNum := sn\<rparr>)))"

definition Exist :: "Address \<Rightarrow> StateAccount \<Rightarrow> bool" where
  "Exist a sa \<longleftrightarrow> map_of (st_Accounts sa) (addr_ByteValue a) \<noteq> None"

definition Empty :: "Address \<Rightarrow> StateAccount \<Rightarrow> bool" where
  "Empty a sa \<longleftrightarrow> GetNonce a sa = 0 \<and> GetCodeSize a sa = 0"

definition AddPreimage :: "hash \<Rightarrow> bytes \<Rightarrow> StateAccount \<Rightarrow> StateAccount" where
  "AddPreimage h b sa = sa\<lparr>States := mput h b (States sa)\<rparr>"

section \<open>Token balances\<close>

definition GetCoinBalance :: "Address \<Rightarrow> Address \<Rightarrow> StateAccount \<Rightarrow> i64" where
  "GetCoinBalance acc coin sa = (case map_of (st_Balances sa) (addr_ByteValue acc) of
     Some m \<Rightarrow> mgetd 0 m (addr_ByteValue coin) | None \<Rightarrow> 0)"

definition SetCoinBalance :: "Address \<Rightarrow> Address \<Rightarrow> i64 \<Rightarrow> StateAccount \<Rightarrow> StateAccount" where
  "SetCoinBalance acc coin v sa = (case map_of (st_Balances sa) (addr_ByteValue acc) of
     Some m \<Rightarrow> sa\<lparr>st_Balances := mput (addr_ByteValue acc) (mput (addr_ByteValue coin) v m) (st_Balances sa)\<rparr>
   | None \<Rightarrow> sa\<lparr>st_Balances := mput (addr_ByteValue acc) [(addr_ByteValue coin, v)] (st_Balances sa)\<rparr>)"

text \<open>\<^verbatim>\<open>ForEachStorage\<close>: the callback sees the entries in turn until it returns false.\<close>

fun for_each :: "(hash \<Rightarrow> hash \<Rightarrow> ('s, bool) op) \<Rightarrow> (hash, hash) gomap \<Rightarrow> ('s, unit) op" where
  "for_each cb [] = sret ()"
| "for_each cb ((h, v) # es) = sbind (cb h v) (\<lambda>go. if \<not> go then sret () else for_each cb es)"

definition ForEachStorage ::
  "Address \<Rightarrow> (hash \<Rightarrow> hash \<Rightarrow> ('s, bool) op) \<Rightarrow> StateAccount \<Rightarrow> ('s, unit) op" where
  "ForEachStorage a cb sa = (case map_of (StatesHashes sa) (addr_ByteValue a) of
     None \<Rightarrow> sret () | Some shs \<Rightarrow> for_each cb shs)"

section \<open>Reading what was written\<close>

lemma GetState_SetState:
  "GetState b k (SetState a h h2 sa) =
    (if addr_ByteValue b = addr_ByteValue a \<and> k = h then h2 else GetState b k sa)"
  by (auto simp: GetState_def SetState_def Let_def map_of_mput mgetd_def split: option.splits)

lemma GetCommittedState_is_GetState: "GetCommittedState = GetState"
  by (simp add: GetCommittedState_def GetState_def fun_eq_iff)

lemma Snapshot_SetState: "Snapshot (SetState a h h2 sa) = Snapshot sa + 1"
  by (simp add: Snapshot_def SetState_def Let_def split: option.split)

lemma GetNonce_SetNonce:
  "GetNonce b (SetNonce a n sa) = (if addr_ByteValue b = addr_ByteValue a then n else GetNonce b sa)"
  by (simp add: GetNonce_def SetNonce_def)

lemma GetCode_SetCode:
  "GetCode b (SetCode kec a c sa) = (if addr_ByteValue b = addr_ByteValue a then c else GetCode b sa)"
  "GetCodeHash b (SetCode kec a c sa) =
    (if addr_ByteValue b = addr_ByteValue a then kec c else GetCodeHash b sa)"
  by (simp_all add: GetCode_def GetCodeHash_def SetCode_def)

lemma GetCoinBalance_SetCoinBalance:
  "GetCoinBalance b d (SetCoinBalance a c v sa) =
    (if addr_ByteValue b = addr_ByteValue a \<and> addr_ByteValue d = addr_ByteValue c then v
     else GetCoinBalance b d sa)"
  by (auto simp: GetCoinBalance_def SetCoinBalance_def map_of_mput mgetd_def split: option.splits)

text \<open>One write, reverted: only the entry under the old value is touched.\<close>

lemma revert_one_write:
  assumes "SetState a h h2 sa = sa1"
  shows "\<exists>sa2. RevertToSnapshot (Snapshot sa) sa1 = (Ok (), sa2) \<and> Snapshot sa2 = Snapshot sa \<and>
    (\<forall>k. k \<noteq> GetState a h sa \<longrightarrow> GetState a k sa2 = GetState a k sa1)"
proof -
  have num: "[SnapShotNum sa + 1..SnapShotNum sa1] = [SnapShotNum sa + 1]"
    using assms Snapshot_SetState [of a h h2 sa] by (simp add: Snapshot_def)
  have log: "mgetd [] (SnapShotPreimage sa1) (SnapShotNum sa + 1) = [(addr_ByteValue a, GetState a h sa)]"
    using assms by (auto simp: SetState_def GetState_def Let_def mgetd_def map_of_mput split: option.splits)
  have has: "\<exists>s. map_of (StatesHashes sa1) (addr_ByteValue a) = Some s"
    using assms by (auto simp: SetState_def Let_def map_of_mput split: option.splits)
  show ?thesis
    using has num log
    by (auto simp: RevertToSnapshot_def Snapshot_def revert_entry_def effect_defs GetState_def
        map_of_mput mgetd_def delete_conv' split: option.splits)
qed

section \<open>Properties\<close>

text \<open>
  C35: reverting to the snapshot taken just before a storage write does not undo the write: the new
  value stays readable (unless the key equals the old value), although the snapshot number goes
  back.  The log keeps the old value and the contract, but not the key.
\<close>

theorem RevertToSnapshot_keeps_write:
  assumes "h \<noteq> GetState a h sa"
  shows "\<exists>sa2. RevertToSnapshot (Snapshot sa) (SetState a h h2 sa) = (Ok (), sa2) \<and>
    Snapshot sa2 = Snapshot sa \<and> GetState a h sa2 = h2"
  using revert_one_write [of a h h2 sa, OF refl] assms by (auto simp: GetState_SetState)

theorem RevertToSnapshot_keeps_write_witness:
  "\<exists>sa2. RevertToSnapshot 0 (SetState zero_Address (replicate 32 1) (replicate 32 7) CreateStateDB) = (Ok (), sa2) \<and>
    GetState zero_Address (replicate 32 1) sa2 = replicate 32 7"
proof -
  have "replicate 32 1 \<noteq> GetState zero_Address (replicate 32 1) CreateStateDB"
    by (simp add: GetState_def CreateStateDB_def EmptyHash_def)
  from RevertToSnapshot_keeps_write [OF this, of "replicate 32 7"] show ?thesis
    by (auto simp: Snapshot_def CreateStateDB_def)
qed

end
