(* ===== verification/Peers.thy ===== *)
theory Peers
  imports Message
begin

text \<open>
  The peers of a node: \<^verbatim>\<open>src/tcpip/helper.go\<close> (banned addresses), \<^verbatim>\<open>recieverTcpService.go\<close> (registration
  and trust of peers, the frame of a message) and \<^verbatim>\<open>listenerTcpService.go\<close> (the loop that puts the
  received pieces together).  A connection is its number and its remote address; what the sockets do
  (the pieces that are read, whether dialling succeeds) are arguments.  \<open>PeersMutex\<close> is a field of the
  state, because \<^verbatim>\<open>BanIP\<close> only tries to take it and goes on without.

  The lemmas: the tables of connections agree and a registered peer has positive trust, whatever the
  peers send; a framed message that arrives in pieces is delivered once and unchanged; banning by
  \<^verbatim>\<open>ReduceAndCheckIfBanIP\<close> never closes a connection; a short first piece closes one.
\<close>

section \<open>State\<close>

type_synonym ip = bytes

record conn =
  conn_id :: nat
  RemoteAddr :: string

record peers =
  peersConnected :: "(bytes, topic) gomap"
  validPeersConnected :: "(ip, int) gomap"
  nodePeersConnected :: "(ip, int) gomap"
  oldPeers :: "(bytes, topic) gomap"
  PeersCount :: int
  tcpConnections :: "(topic, (ip, conn) gomap) gomap"
  bannedIP :: "(ip, i64) gomap"
  whiteListIPs :: "(ip, bool) gomap"
  MyIP :: ip
  PeersMutex :: bool
  closed :: "nat list"

definition TransactionTopic :: topic where "TransactionTopic = string_bytes ''TT''"
definition SyncTopic :: topic where "SyncTopic = string_bytes ''BB''"
definition RPCTopic :: topic where "RPCTopic = string_bytes ''RP''"

definition ConnectionMaxTries :: int where "ConnectionMaxTries = 10"
definition BannedTimeSeconds :: i64 where "BannedTimeSeconds = 60"
definition MessageInitialization :: bytes where "MessageInitialization = [2, 0, 2, 9]"
definition MaxMessageSizeBytes :: i32 where "MaxMessageSizeBytes = 151126018"

definition zero_ip :: ip where "zero_ip = [0, 0, 0, 0]"

definition conns :: "peers \<Rightarrow> topic \<Rightarrow> (ip, conn) gomap" where
  "conns s tp = mgetd [] (tcpConnections s) tp"

section \<open>Connections and banned addresses\<close>

definition AddWhiteListIPs :: "ip \<Rightarrow> peers \<Rightarrow> peers" where
  "AddWhiteListIPs ip s = s\<lparr>whiteListIPs := mput ip True (whiteListIPs s)\<rparr>"

definition white_listed :: "ip \<Rightarrow> peers \<Rightarrow> bool" where
  "white_listed ip s \<longleftrightarrow> ip \<in> fst ` set (whiteListIPs s)"

definition IsIPBanned :: "i64 \<Rightarrow> ip \<Rightarrow> peers \<Rightarrow> bool" where
  "IsIPBanned now ip s =
     (if white_listed ip s then False
      else case map_of (bannedIP s) ip of
        Some hbanned \<Rightarrow> sint hbanned > sint now
      | None \<Rightarrow> False)"

text \<open>One entry of the tables whose connection has the remote address to be closed.\<close>

definition close_entry :: "topic \<times> ip \<times> conn \<Rightarrow> peers \<Rightarrow> peers" where
  "close_entry = (\<lambda>(tp, k, c) s. s\<lparr>closed := closed s @ [conn_id c],
     tcpConnections := mput tp (mdel k (conns s tp)) (tcpConnections s),
     peersConnected := mdel (tp @ k) (peersConnected s),
     validPeersConnected := mdel k (validPeersConnected s),
     nodePeersConnected := mdel k (nodePeersConnected s)\<rparr>)"

definition same_remote :: "conn \<Rightarrow> peers \<Rightarrow> (topic \<times> ip \<times> conn) list" where
  "same_remote c s = concat (map (\<lambda>(tp, m). map (\<lambda>(k, v). (tp, k, v))
     (filter (\<lambda>(k, v). RemoteAddr v = RemoteAddr c) m)) (tcpConnections s))"

definition CloseAndRemoveConnection :: "conn option \<Rightarrow> peers \<Rightarrow> peers" where
  "CloseAndRemoveConnection tcpConn s = (case tcpConn of
     None \<Rightarrow> s
   | Some c \<Rightarrow> fold close_entry (same_remote c s) s)"

text \<open>The clean-up is done only when the mutex of the peers is free.\<close>

definition BanIP :: "i64 \<Rightarrow> ip \<Rightarrow> peers \<Rightarrow> peers" where
  "BanIP now ip s =
     (if white_listed ip s then s
      else let s1 = s\<lparr>bannedIP := mput ip (now + BannedTimeSeconds) (bannedIP s)\<rparr> in
        if PeersMutex s1 then s1
        else let s2 = s1\<lparr>validPeersConnected := mdel ip (validPeersConnected s1),
                        nodePeersConnected := mdel ip (nodePeersConnected s1)\<rparr> in
          case map_of (conns s2 NonceTopic) ip of
            Some c \<Rightarrow> CloseAndRemoveConnection (Some c) s2
          | None \<Rightarrow> (case map_of (conns s2 TransactionTopic) ip of
              Some c \<Rightarrow> CloseAndRemoveConnection (Some c) s2
            | None \<Rightarrow> (case map_of (conns s2 SyncTopic) ip of
                Some c \<Rightarrow> CloseAndRemoveConnection (Some c) s2
              | None \<Rightarrow> s2)))"

section \<open>Trust\<close>

definition ValidRegisterPeer :: "ip \<Rightarrow> peers \<Rightarrow> peers" where
  "ValidRegisterPeer ip s = (case map_of (validPeersConnected s) ip of
     Some n \<Rightarrow> if n < 3 then s\<lparr>validPeersConnected := mput ip (n + 1) (validPeersConnected s)\<rparr> else s
   | None \<Rightarrow> s\<lparr>validPeersConnected := mput ip ConnectionMaxTries (validPeersConnected s)\<rparr>)"

definition NodeRegisterPeer :: "ip \<Rightarrow> peers \<Rightarrow> peers" where
  "NodeRegisterPeer ip s = (case map_of (nodePeersConnected s) ip of
     Some n \<Rightarrow> s\<lparr>validPeersConnected := mput ip ConnectionMaxTries (validPeersConnected s)\<rparr>
   | None \<Rightarrow> s\<lparr>nodePeersConnected := mput ip ConnectionMaxTries (nodePeersConnected s)\<rparr>)"

definition ReduceTrustRegisterPeer :: "ip \<Rightarrow> peers \<Rightarrow> peers" where
  "ReduceTrustRegisterPeer ip s =
     (if ip = MyIP s \<or> ip = zero_ip then s
      else case map_of (validPeersConnected s) ip of
        None \<Rightarrow> s
      | Some n \<Rightarrow> if n - 1 \<le> 0 then s\<lparr>validPeersConnected := mdel ip (mput ip (n - 1) (validPeersConnected s))\<rparr>
                  else s\<lparr>validPeersConnected := mput ip (n - 1) (validPeersConnected s)\<rparr>)"

text \<open>The mutex is held during the whole of the body; \<open>late\<close>: it was got only after the time limit.\<close>

definition ReduceAndCheckIfBanIP :: "i64 \<Rightarrow> bool \<Rightarrow> ip \<Rightarrow> peers \<Rightarrow> peers" where
  "ReduceAndCheckIfBanIP now late ip s =
     (if late then s
      else let s0 = s\<lparr>PeersMutex := True\<rparr>;
               s1 = (if ip \<in> fst ` set (validPeersConnected s0) then ReduceTrustRegisterPeer ip s0 else s0);
               s2 = (if ip \<notin> fst ` set (validPeersConnected s1) then BanIP now ip s1 else s1)
           in s2\<lparr>PeersMutex := False\<rparr>)"

section \<open>Registration\<close>

fun split_on :: "char \<Rightarrow> string \<Rightarrow> string list" where
  "split_on x [] = [[]]"
| "split_on x (c # cs) = (case split_on x cs of
     [] \<Rightarrow> [[c]] | p # ps \<Rightarrow> if c = x then [] # p # ps else (c # p) # ps)"

definition digit :: "char \<Rightarrow> int" where
  "digit c = int (of_char c) - 48"

text \<open>\<^verbatim>\<open>strconv.Atoi\<close>: a sign or none, then decimal digits, in the range of an \<^verbatim>\<open>int\<close>.\<close>

definition Atoi :: "string \<Rightarrow> int option" where
  "Atoi s =
     (let neg = (s \<noteq> [] \<and> hd s = CHR ''-'');
          ds = (if s \<noteq> [] \<and> (hd s = CHR ''-'' \<or> hd s = CHR ''+'') then tl s else s);
          n = foldl (\<lambda>n c. 10 * n + digit c) 0 ds;
          v = (if neg then - n else n)
      in if ds = [] \<or> (\<exists>c \<in> set ds. digit c < 0 \<or> 9 < digit c) then None
         else if v < - (2 ^ 63) \<or> 2 ^ 63 \<le> v then None
         else Some v)"

text \<open>The four numbers of an address; a missing one is an index out of range.\<close>

fun parse_ip :: "nat \<Rightarrow> string list \<Rightarrow> ip option result" where
  "parse_ip 0 ps = Ok (Some [])"
| "parse_ip (Suc n) [] = Panic"
| "parse_ip (Suc n) (p # ps) = (case Atoi p of
     None \<Rightarrow> Ok None
   | Some v \<Rightarrow> rbind (parse_ip n ps) (\<lambda>r. Ok (map_option (Cons (word_of_int v)) r)))"

text \<open>\<open>dead\<close>: setting the keep-alive period of an old connection fails.\<close>

definition RegisterPeer :: "i64 \<Rightarrow> (conn \<Rightarrow> bool) \<Rightarrow> topic \<Rightarrow> conn \<Rightarrow> (peers, bool) op" where
  "RegisterPeer now dead tp tcpConn =
     sbind (slift (parse_ip 4 (split_on CHR ''.'' (hd (split_on CHR '':'' (RemoteAddr tcpConn)))))) (\<lambda>r.
     case r of
       None \<Rightarrow> sret False
     | Some ip \<Rightarrow>
         sbind (sget (IsIPBanned now ip)) (\<lambda>banned.
         if banned then sret False
         else
         sbind (sget (\<lambda>s. map_of (conns s tp) ip)) (\<lambda>old.
         let register = (\<lambda>s. s\<lparr>tcpConnections := mput tp (mput ip tcpConn (conns s tp)) (tcpConnections s),
               peersConnected := mput (tp @ ip) tp (peersConnected s)\<rparr>) in
         case old of
           Some c \<Rightarrow> if dead c then sbind (supd (\<lambda>s. register (s\<lparr>closed := closed s @ [conn_id c]\<rparr>))) (\<lambda>_. sret True)
                     else sret False
         | None \<Rightarrow> sbind (supd (\<lambda>s. register (s\<lparr>validPeersConnected :=
                     mput ip ConnectionMaxTries (validPeersConnected s)\<rparr>))) (\<lambda>_. sret True))))"

definition GetPeersConnected :: "topic \<Rightarrow> peers \<Rightarrow> (bytes, topic) gomap" where
  "GetPeersConnected tp s = filter (\<lambda>(k, v). v = tp) (peersConnected s)"

text \<open>One peer at random; \<open>rnd\<close> is \<^verbatim>\<open>rand.Intn\<close>.  Nothing is returned or counted while the mutex is held.\<close>

definition GetIPsConnected :: "(nat \<Rightarrow> nat) \<Rightarrow> (peers, bytes list) op" where
  "GetIPsConnected rnd s =
     (if PeersMutex s then (Ok [], s)
      else let ips = map fst (filter (\<lambda>(k, v). v > 1 \<and> k \<noteq> MyIP s) (nodePeersConnected s));
               s' = s\<lparr>PeersCount := int (length ips)\<rparr>
           in if length ips > 0 then (if rnd (length ips) < length ips then Ok [ips ! rnd (length ips)] else Panic, s')
              else (Ok [], s'))"

definition GetPeersCount :: "peers \<Rightarrow> int" where
  "GetPeersCount s = PeersCount s"

text \<open>One round of the search for new peers, with the addresses sent to the channel.\<close>

definition LookUpForNewPeersToConnect :: "(peers, bytes list) op" where
  "LookUpForNewPeersToConnect s =
     (let new = filter (\<lambda>(k, v). k \<notin> fst ` set (oldPeers s)) (peersConnected s);
          old = fold (\<lambda>(k, v). mput k v) new (oldPeers s)
      in (Ok (map fst new), s\<lparr>oldPeers := filter (\<lambda>(k, v). k \<in> fst ` set (peersConnected s)) old\<rparr>))"
section \<open>Sending\<close>

definition END_mark :: bytes where "END_mark = string_bytes ''<-END->''"

text \<open>What \<^verbatim>\<open>Send\<close> writes to the connection.\<close>

definition frame :: "bytes \<Rightarrow> bytes" where
  "frame m = MessageInitialization @ m @ END_mark"

text \<open>\<open>broken\<close>: writing to the connection fails with a broken pipe, a reset or an abort.\<close>

definition send_to :: "(conn \<Rightarrow> bool) \<Rightarrow> conn \<Rightarrow> bytes \<Rightarrow> peers \<Rightarrow> (nat \<times> bytes) list \<times> peers" where
  "send_to broken c m s =
     ([(conn_id c, frame m)], if broken c then CloseAndRemoveConnection (Some c) s else s)"

text \<open>To all: an entry that was removed on the way is not reached any more.\<close>

fun send_all ::
  "(conn \<Rightarrow> bool) \<Rightarrow> topic \<Rightarrow> bytes \<Rightarrow> (ip \<times> conn) list \<Rightarrow> peers \<Rightarrow> (nat \<times> bytes) list \<times> peers" where
  "send_all broken tp m [] s = ([], s)"
| "send_all broken tp m ((k, c) # rest) s =
     (if k \<notin> fst ` set (conns s tp) then send_all broken tp m rest s
      else if k \<notin> fst ` set (validPeersConnected s) then send_all broken tp m rest s
      else if k \<noteq> MyIP s then
        (case send_to broken c m s of (out, s1) \<Rightarrow>
         case send_all broken tp m rest s1 of (out2, s2) \<Rightarrow> (out @ out2, s2))
      else send_all broken tp m rest s)"

text \<open>One message of the channel: the address in front, four zeros for everybody.\<close>

definition LoopSend :: "(conn \<Rightarrow> bool) \<Rightarrow> bool \<Rightarrow> topic \<Rightarrow> bytes \<Rightarrow> peers \<Rightarrow> (nat \<times> bytes) list \<times> peers" where
  "LoopSend broken late tp m s =
     (if length m \<le> 4 \<or> late then ([], s)
      else let ipr = take 4 m in
        if ipr = zero_ip then send_all broken tp (drop 4 m) (conns s tp) s
        else if ipr \<notin> fst ` set (validPeersConnected s) then ([], s)
        else case map_of (conns s tp) ipr of
          Some c \<Rightarrow> send_to broken c (drop 4 m) s
        | None \<Rightarrow> ([], s))"

section \<open>Receiving\<close>

datatype read = Bytes bytes | ReadEOF | ReadError

definition ERR_mark :: bytes where "ERR_mark = string_bytes ''<-ERR->''"
definition CLS_mark :: bytes where "CLS_mark = string_bytes ''<-CLS->''"
definition QUIT_mark :: bytes where "QUIT_mark = string_bytes ''QUITFOR''"
definition WAIT_mark :: bytes where "WAIT_mark = string_bytes ''WAIT''"
definition EXIT_mark :: bytes where "EXIT_mark = string_bytes ''EXIT''"

definition Receive :: "conn option \<Rightarrow> read \<Rightarrow> bytes" where
  "Receive c r = (case c of
     None \<Rightarrow> CLS_mark
   | Some _ \<Rightarrow> (case r of ReadEOF \<Rightarrow> CLS_mark | ReadError \<Rightarrow> ERR_mark | Bytes b \<Rightarrow> take 1024 b))"

record receiver =
  rc_peers :: peers
  rc_conn :: "conn option"
  reconnectionTries :: int
  resetNumber :: int
  rTopic :: "(topic, bytes) gomap"
  receiveChan :: "bytes list"

datatype flow = Again | Stop

definition on_peers :: "(peers \<Rightarrow> peers) \<Rightarrow> (receiver, unit) op" where
  "on_peers f = supd (\<lambda>st. st\<lparr>rc_peers := f (rc_peers st)\<rparr>)"

definition emit :: "bytes \<Rightarrow> (receiver, unit) op" where
  "emit b = supd (\<lambda>st. st\<lparr>receiveChan := receiveChan st @ [b]\<rparr>)"

text \<open>Tell the subscriber to end, and drop the connection.\<close>

definition leave :: "(receiver, flow) op" where
  "leave = sbind (emit EXIT_mark) (\<lambda>_.
     sbind (supd (\<lambda>st. st\<lparr>rc_peers := CloseAndRemoveConnection (rc_conn st) (rc_peers st)\<rparr>)) (\<lambda>_. sret Stop))"

text \<open>Less trust in the peer, and a ban if it is still registered with none.\<close>

definition distrust :: "i64 \<Rightarrow> ip \<Rightarrow> (receiver, flow) op" where
  "distrust now ip =
     sbind (on_peers (ReduceTrustRegisterPeer ip)) (\<lambda>_.
     sbind (sget (\<lambda>st. map_of (validPeersConnected (rc_peers st)) ip)) (\<lambda>trust.
     case trust of
       Some n \<Rightarrow> if n \<le> 0 then sbind (on_peers (BanIP now ip)) (\<lambda>_. sbind (emit EXIT_mark) (\<lambda>_. sret Stop))
                 else sret Again
     | None \<Rightarrow> sret Again))"

text \<open>A piece that is not a control message; \<^verbatim>\<open>r[len(r)-7:]\<close> panics on fewer than seven bytes.\<close>

definition receive_data :: "i64 \<Rightarrow> ip \<Rightarrow> topic \<Rightarrow> bytes \<Rightarrow> (receiver, flow) op" where
  "receive_data now ip tp piece =
     sbind (sget (\<lambda>st. mgetd [] (rTopic st) tp @ piece)) (\<lambda>r.
     if length r < 7 then slift Panic
     else let complete = (drop (length r - 7) r = END_mark) in
       sbind (supd (\<lambda>st. st\<lparr>rTopic := mput tp (if complete then [] else r) (rTopic st)\<rparr>)) (\<lambda>_.
       if sint (word_of_nat (length r) :: i32) > sint MaxMessageSizeBytes then
         sbind (supd (\<lambda>st. st\<lparr>rTopic := mput tp [] (rTopic st)\<rparr>)) (\<lambda>_. distrust now ip)
       else if complete then
         if take 4 r = MessageInitialization then sbind (emit (ip @ drop 4 r)) (\<lambda>_. sret Again)
         else distrust now ip
       else sret Again))"

text \<open>One round of the loop of \<^verbatim>\<open>StartNewConnection\<close>; \<open>redial\<close> is what dialling again gives.\<close>

definition receive_step :: "i64 \<Rightarrow> conn option \<Rightarrow> ip \<Rightarrow> topic \<Rightarrow> read \<Rightarrow> (receiver, flow) op" where
  "receive_step now redial ip tp rd =
     sbind (supd (\<lambda>st. st\<lparr>resetNumber := resetNumber st + 1\<rparr>)) (\<lambda>_.
     sbind (supd (\<lambda>st. if resetNumber st mod 100 = 0 then st\<lparr>reconnectionTries := 0\<rparr> else st)) (\<lambda>_.
     sbind (sget (\<lambda>st. Receive (rc_conn st) rd)) (\<lambda>r.
     if r = ERR_mark then
       sbind (supd (\<lambda>st. if reconnectionTries st > ConnectionMaxTries
          then st\<lparr>rc_peers := (rc_peers st)\<lparr>closed := closed (rc_peers st) @ map conn_id (case rc_conn st of None \<Rightarrow> [] | Some c \<Rightarrow> [c])\<rparr>,
                  rc_conn := redial, reconnectionTries := 0\<rparr>
          else st\<lparr>reconnectionTries := reconnectionTries st + 1\<rparr>)) (\<lambda>_. sret Again)
     else if r = CLS_mark \<or> r = QUIT_mark then leave
     else if r = WAIT_mark then sret Again
     else receive_data now ip tp r)))"

text \<open>A panic is recovered: the connection is left.\<close>

definition connection_step :: "i64 \<Rightarrow> conn option \<Rightarrow> ip \<Rightarrow> topic \<Rightarrow> read \<Rightarrow> receiver \<Rightarrow> flow \<times> receiver" where
  "connection_step now redial ip tp rd st = (case receive_step now redial ip tp rd st of
     (Ok f, st') \<Rightarrow> (f, st')
   | (_, st') \<Rightarrow> (Stop, snd (leave st')))"

text \<open>What happens at the connection: a read (with the time and the result of dialling again), or the end of the program.\<close>

datatype event = Read i64 "conn option" read | Quit

fun connection_loop :: "ip \<Rightarrow> topic \<Rightarrow> event list \<Rightarrow> receiver \<Rightarrow> flow \<times> receiver" where
  "connection_loop ip tp [] st = (Again, st)"
| "connection_loop ip tp (Quit # es) st = (Stop, snd (leave st))"
| "connection_loop ip tp (Read now redial rd # es) st =
     (case connection_step now redial ip tp rd st of
        (Stop, st') \<Rightarrow> (Stop, st')
      | (Again, st') \<Rightarrow> connection_loop ip tp es st')"

text \<open>The attempts to dial, \<open>n\<close> of which are left; \<open>dial\<close> gives the outcome of each.\<close>

fun dial_loop :: "i64 \<Rightarrow> (nat \<Rightarrow> conn option) \<Rightarrow> ip \<Rightarrow> nat \<Rightarrow> peers \<Rightarrow> conn option \<times> peers" where
  "dial_loop now dial ip 0 s = (None, s)"
| "dial_loop now dial ip (Suc n) s = (case dial n of
     Some c \<Rightarrow> (Some c, s)
   | None \<Rightarrow>
       let s1 = ReduceTrustRegisterPeer ip s;
           s2 = (case map_of (validPeersConnected s1) ip of
               Some trust \<Rightarrow> if trust \<le> 0 then BanIP now ip s1 else if n = 0 then BanIP now ip s1 else s1
             | None \<Rightarrow> if n = 0 then BanIP now ip s1 else s1)
       in dial_loop now dial ip n s2)"

text \<open>Without a connection the function returns and says nothing to the subscriber.\<close>

definition StartNewConnection ::
  "i64 \<Rightarrow> (nat \<Rightarrow> conn option) \<Rightarrow> ip \<Rightarrow> topic \<Rightarrow> event list \<Rightarrow> peers \<Rightarrow> bytes list \<times> peers" where
  "StartNewConnection now dial ip tp es s = (case dial_loop now dial ip 3 s of
     (None, s') \<Rightarrow> ([], s')
   | (Some c, s') \<Rightarrow>
       let st = snd (connection_loop ip tp es \<lparr>rc_peers = s', rc_conn = Some c, reconnectionTries = 0,
                  resetNumber = 0, rTopic = [], receiveChan = []\<rparr>)
       in (receiveChan st, rc_peers st))"

section \<open>Frames that arrive in pieces\<close>

lemmas receive_defs = connection_step_def receive_step_def receive_data_def Receive_def effect_defs emit_def

abbreviation control :: "bytes \<Rightarrow> bool" where
  "control b \<equiv> b \<in> {ERR_mark, CLS_mark, QUIT_mark, WAIT_mark}"

definition ends_frame :: "bytes \<Rightarrow> bool" where
  "ends_frame b \<longleftrightarrow> drop (length b - 7) b = END_mark"

definition reads :: "bytes list \<Rightarrow> event list" where
  "reads cs = map (\<lambda>c. Read 0 None (Bytes c)) cs"

lemma receive_data_piece:
  assumes "mgetd [] (rTopic st) tp @ b = r" and "7 \<le> length r" and "length r \<le> 151126018"
    and "ends_frame r \<longrightarrow> take 4 r = MessageInitialization"
  shows "receive_data now ip tp b st =
    (Ok Again, st\<lparr>rTopic := mput tp (if ends_frame r then [] else r) (rTopic st),
       receiveChan := receiveChan st @ (if ends_frame r then [ip @ drop 4 r] else [])\<rparr>)"
proof -
  have "\<not> sint (word_of_nat (length r) :: i32) > sint MaxMessageSizeBytes"
    using assms(3) by (simp add: signed_of_nat signed_take_bit_int_eq_self MaxMessageSizeBytes_def)
  with assms(2,4) show ?thesis
    by (simp add: receive_data_def sbind_def sget_def supd_def sret_def emit_def assms(1) Let_def
        flip: ends_frame_def)
qed

text \<open>One piece on an open connection.\<close>

lemma connection_step_piece:
  assumes "rc_conn st = Some c" and "\<not> control b" and "length b \<le> 1024"
    and "mgetd [] (rTopic st) tp @ b = r" and "7 \<le> length r" and "length r \<le> 151126018"
    and "ends_frame r \<longrightarrow> take 4 r = MessageInitialization"
  obtains st' where "connection_step now redial ip tp (Bytes b) st = (Again, st')"
    and "rc_conn st' = Some c" "rc_peers st' = rc_peers st"
    and "mgetd [] (rTopic st') tp = (if ends_frame r then [] else r)"
    and "receiveChan st' = receiveChan st @ (if ends_frame r then [ip @ drop 4 r] else [])"
proof -
  define st1 where "st1 = (if (resetNumber st + 1) mod 100 = 0
    then st\<lparr>resetNumber := resetNumber st + 1, reconnectionTries := 0\<rparr> else st\<lparr>resetNumber := resetNumber st + 1\<rparr>)"
  have st1: "rTopic st1 = rTopic st" "rc_conn st1 = Some c" "rc_peers st1 = rc_peers st"
    "receiveChan st1 = receiveChan st" using assms(1) by (auto simp: st1_def)
  have "receive_step now redial ip tp (Bytes b) st = receive_data now ip tp b st1"
    using assms(1-3) by (auto simp: receive_step_def sbind_def supd_def sget_def Receive_def st1_def)
  with receive_data_piece [of st1 tp b r now ip] assms(4-7) st1
  have "connection_step now redial ip tp (Bytes b) st =
      (Again, st1\<lparr>rTopic := mput tp (if ends_frame r then [] else r) (rTopic st),
       receiveChan := receiveChan st @ (if ends_frame r then [ip @ drop 4 r] else [])\<rparr>)"
    by (simp add: connection_step_def)
  from that [OF this] st1 show thesis by simp
qed

text \<open>
  Pieces that make up a frame \<open>r\<close>: no piece is taken for a control message, and the frame is not
  taken for complete before it is.
\<close>

definition pieces :: "bytes \<Rightarrow> bytes list \<Rightarrow> bytes \<Rightarrow> bool" where
  "pieces acc cs r \<longleftrightarrow> cs \<noteq> [] \<and> acc @ concat cs = r \<and> length r \<le> 151126018 \<and> 7 \<le> length (acc @ hd cs) \<and>
     (\<forall>c \<in> set cs. \<not> control c \<and> length c \<le> 1024) \<and>
     (\<forall>k. 0 < k \<and> k < length cs \<longrightarrow> \<not> ends_frame (acc @ concat (take k cs)))"

lemma pieces_Cons:
  assumes "pieces acc (c # cs) r" and "cs \<noteq> []"
  shows "pieces (acc @ c) cs r" and "\<not> ends_frame (acc @ c)" and "length (acc @ c) \<le> length r"
proof -
  have no: "\<not> ends_frame (acc @ concat (take k (c # cs)))" if "0 < k" "k < length (c # cs)" for k
    using assms(1) that by (auto simp: pieces_def)
  show "\<not> ends_frame (acc @ c)" using no [of 1] assms(2) by simp
  show "pieces (acc @ c) cs r" using assms no [of "Suc k" for k] by (auto simp: pieces_def)
  show "length (acc @ c) \<le> length r" using assms(1) by (auto simp: pieces_def)
qed

lemma connection_loop_reassembles:
  assumes "pieces (mgetd [] (rTopic st) tp) cs r" and "ends_frame r" and "take 4 r = MessageInitialization"
    and "rc_conn st = Some c"
  shows "\<exists>st'. connection_loop ip tp (reads cs) st = (Again, st') \<and> rc_conn st' = Some c \<and>
    rc_peers st' = rc_peers st \<and> mgetd [] (rTopic st') tp = [] \<and>
    receiveChan st' = receiveChan st @ [ip @ drop 4 r]"
  using assms
proof (induction cs arbitrary: st)
  case Nil
  then show ?case by (simp add: pieces_def)
next
  case (Cons b cs)
  have b: "\<not> control b" "length b \<le> 1024" "7 \<le> length (mgetd [] (rTopic st) tp @ b)"
    using Cons.prems(1) by (auto simp: pieces_def)
  show ?case
  proof (cases "cs = []")
    case True
    then have r: "mgetd [] (rTopic st) tp @ b = r" "length r \<le> 151126018"
      using Cons.prems(1) by (auto simp: pieces_def)
    from connection_step_piece [OF Cons.prems(4) b(1,2) r(1), of 0 None ip] b(3) r Cons.prems(2,3)
    obtain st' where "connection_step 0 None ip tp (Bytes b) st = (Again, st')" "rc_conn st' = Some c"
      "rc_peers st' = rc_peers st" "mgetd [] (rTopic st') tp = []" "receiveChan st' = receiveChan st @ [ip @ drop 4 r]"
      by auto
    then show ?thesis using True by (simp add: reads_def)
  next
    case False
    note p = pieces_Cons [OF Cons.prems(1) False]
    have "length (mgetd [] (rTopic st) tp @ b) \<le> 151126018" using p(1,3) by (simp add: pieces_def)
    from connection_step_piece [OF Cons.prems(4) b(1,2) refl b(3) this, of 0 None ip] p(2)
    obtain st' where st': "connection_step 0 None ip tp (Bytes b) st = (Again, st')" "rc_conn st' = Some c"
      "rc_peers st' = rc_peers st" "mgetd [] (rTopic st') tp = mgetd [] (rTopic st) tp @ b"
      "receiveChan st' = receiveChan st" by auto
    with Cons.IH [of st'] p(1) Cons.prems(2,3) show ?thesis by (simp add: reads_def)
  qed
qed

lemma ends_frame_frame [simp]: "ends_frame (frame m)" "take 4 (frame m) = MessageInitialization"
  by (simp_all add: ends_frame_def frame_def END_mark_def MessageInitialization_def)

section \<open>Invariant of the tables\<close>

definition conn_ok :: "peers \<Rightarrow> bool" where
  "conn_ok s \<longleftrightarrow> (\<forall>tp ip. length tp = 2 \<longrightarrow>
     map_of (peersConnected s) (tp @ ip) = (if map_of (conns s tp) ip = None then None else Some tp))"

definition trust_ok :: "peers \<Rightarrow> bool" where
  "trust_ok s \<longleftrightarrow> (\<forall>ip n. map_of (validPeersConnected s) ip = Some n \<longrightarrow> 0 < n)"

definition topics_ok :: "peers \<Rightarrow> bool" where
  "topics_ok s \<longleftrightarrow> (\<forall>tp \<in> fst ` set (tcpConnections s). length tp = 2)"

definition peers_ok :: "peers \<Rightarrow> bool" where
  "peers_ok s \<longleftrightarrow> conn_ok s \<and> trust_ok s \<and> topics_ok s \<and> \<not> PeersMutex s"

lemma map_of_mdel: "map_of (mdel k m) k' = (if k' = k then None else map_of m k')"
  by (simp add: delete_conv')

lemma fst_mput: "fst ` set (mput k v m) = insert k (fst ` set m)"
  by (simp add: dom_update)

lemma conn_ok_close_entry:
  assumes "conn_ok s" and "length (fst e) = 2"
  shows "conn_ok (close_entry e s)"
proof -
  obtain tp k c where e: "e = (tp, k, c)" by (cases e)
  show ?thesis unfolding conn_ok_def
  proof (intro allI impI)
    fix tp' ip :: bytes assume l: "length tp' = 2"
    then have "tp' @ ip = tp @ k \<longleftrightarrow> tp' = tp \<and> ip = k" using assms(2) e by (simp add: append_eq_append_conv)
    then show "map_of (peersConnected (close_entry e s)) (tp' @ ip) =
        (if map_of (conns (close_entry e s) tp') ip = None then None else Some tp')"
      using assms(1) l by (auto simp: conn_ok_def close_entry_def e conns_def map_of_mdel)
  qed
qed

lemma peers_ok_close_entry:
  assumes "peers_ok s" and "length (fst e) = 2"
  shows "peers_ok (close_entry e s)"
proof -
  have "trust_ok (close_entry e s)" "topics_ok (close_entry e s)" "\<not> PeersMutex (close_entry e s)"
    using assms by (cases e; force simp: peers_ok_def trust_ok_def topics_ok_def close_entry_def map_of_mdel fst_mput
        split: if_splits)+
  with conn_ok_close_entry [of s e] assms show ?thesis by (simp add: peers_ok_def)
qed

lemma same_remote_topics: "peers_ok s \<Longrightarrow> e \<in> set (same_remote c s) \<Longrightarrow> length (fst e) = 2"
  by (force simp: peers_ok_def topics_ok_def same_remote_def)

lemma peers_ok_fold_close:
  "peers_ok s \<Longrightarrow> \<forall>e \<in> set es. length (fst e) = 2 \<Longrightarrow> peers_ok (fold close_entry es s)"
  by (induction es arbitrary: s) (auto intro: peers_ok_close_entry)

lemma peers_ok_CloseAndRemoveConnection [effects]: "peers_ok s \<Longrightarrow> peers_ok (CloseAndRemoveConnection c s)"
  by (auto simp: CloseAndRemoveConnection_def split: option.splits intro: peers_ok_fold_close same_remote_topics)

text \<open>Changes of the other fields.\<close>

lemma peers_ok_frame:
  assumes "peers_ok s" and "peersConnected s' = peersConnected s" "tcpConnections s' = tcpConnections s"
    "PeersMutex s' = PeersMutex s"
    and "\<And>ip n. map_of (validPeersConnected s') ip = Some n \<Longrightarrow> map_of (validPeersConnected s) ip = Some n \<or> 0 < n"
  shows "peers_ok s'"
  using assms unfolding peers_ok_def conn_ok_def trust_ok_def topics_ok_def conns_def by auto blast

lemma peers_ok_simple [effects]:
  assumes "peers_ok s"
  shows "peers_ok (AddWhiteListIPs ip s)" "peers_ok (ValidRegisterPeer ip s)" "peers_ok (NodeRegisterPeer ip s)"
    "peers_ok (ReduceTrustRegisterPeer ip s)" "peers_ok (s\<lparr>closed := xs\<rparr>)" "peers_ok (s\<lparr>PeersCount := n\<rparr>)"
    "peers_ok (s\<lparr>oldPeers := op\<rparr>)"
proof -
  have pos: "0 < n" if "map_of (validPeersConnected s) ip = Some n" for ip n
    using assms that by (auto simp: peers_ok_def trust_ok_def)
  show "peers_ok (AddWhiteListIPs ip s)" "peers_ok (s\<lparr>closed := xs\<rparr>)" "peers_ok (s\<lparr>PeersCount := n\<rparr>)"
    "peers_ok (s\<lparr>oldPeers := op\<rparr>)"
    using assms by (auto simp: AddWhiteListIPs_def intro: peers_ok_frame)
  show "peers_ok (ValidRegisterPeer ip s)" "peers_ok (NodeRegisterPeer ip s)" "peers_ok (ReduceTrustRegisterPeer ip s)"
    using assms by (rule peers_ok_frame; auto simp: ValidRegisterPeer_def NodeRegisterPeer_def ReduceTrustRegisterPeer_def
        map_of_mput map_of_mdel ConnectionMaxTries_def dest: pos split: option.splits if_splits)+
qed

lemma peers_ok_BanIP [effects]:
  assumes "peers_ok s"
  shows "peers_ok (BanIP now ip s)"
proof -
  define s2 where "s2 = s\<lparr>bannedIP := mput ip (now + BannedTimeSeconds) (bannedIP s),
    validPeersConnected := mdel ip (validPeersConnected s), nodePeersConnected := mdel ip (nodePeersConnected s)\<rparr>"
  have "peers_ok s2" using assms by (rule peers_ok_frame) (auto simp: s2_def map_of_mdel split: if_splits)
  moreover have "\<not> PeersMutex s" using assms by (simp add: peers_ok_def)
  ultimately show ?thesis using assms
    by (auto simp: BanIP_def Let_def s2_def split: option.splits intro: peers_ok_CloseAndRemoveConnection)
qed

lemma ReduceTrust_frame:
  "tcpConnections (ReduceTrustRegisterPeer ip s) = tcpConnections s"
  "peersConnected (ReduceTrustRegisterPeer ip s) = peersConnected s"
  "nodePeersConnected (ReduceTrustRegisterPeer ip s) = nodePeersConnected s"
  "closed (ReduceTrustRegisterPeer ip s) = closed s" "bannedIP (ReduceTrustRegisterPeer ip s) = bannedIP s"
  "whiteListIPs (ReduceTrustRegisterPeer ip s) = whiteListIPs s"
  "PeersMutex (ReduceTrustRegisterPeer ip s) = PeersMutex s"
  "validPeersConnected (ReduceTrustRegisterPeer ip (s\<lparr>PeersMutex := b\<rparr>)) =
    validPeersConnected (ReduceTrustRegisterPeer ip s)"
  by (auto simp: ReduceTrustRegisterPeer_def split: option.splits)

text \<open>The mutex is held, so the clean-up of \<^verbatim>\<open>BanIP\<close> is skipped.\<close>

lemma ReduceAndCheckIfBanIP_eq:
  assumes "\<not> late"
  shows "ReduceAndCheckIfBanIP now late ip s =
    (let s1 = ReduceTrustRegisterPeer ip (s\<lparr>PeersMutex := True\<rparr>) in
     s1\<lparr>bannedIP := if map_of (validPeersConnected s1) ip = None \<and> \<not> white_listed ip s
          then mput ip (now + BannedTimeSeconds) (bannedIP s1) else bannedIP s1, PeersMutex := False\<rparr>)"
proof -
  define s1 where "s1 = ReduceTrustRegisterPeer ip (s\<lparr>PeersMutex := True\<rparr>)"
  have s1: "s1 = s\<lparr>PeersMutex := True\<rparr>" if "ip \<notin> fst ` set (validPeersConnected s)"
    using that
      map_of_eq_None_iff [of "validPeersConnected s" ip]
    by (auto simp: s1_def ReduceTrustRegisterPeer_def split: option.splits)
  have "ReduceAndCheckIfBanIP now late ip s =
      (if ip \<notin> fst ` set (validPeersConnected s1) then BanIP now ip s1 else s1)\<lparr>PeersMutex := False\<rparr>"
  proof (cases "ip \<in> fst ` set (validPeersConnected s)")
    case True
    then show ?thesis using assms by (simp add: ReduceAndCheckIfBanIP_def Let_def flip: s1_def)
  next
    case False
    then show ?thesis using assms by (simp add: ReduceAndCheckIfBanIP_def Let_def s1)
  qed
  moreover have "PeersMutex s1" "white_listed ip s1 = white_listed ip s"
    by (simp_all add: s1_def ReduceTrust_frame white_listed_def)
  ultimately show ?thesis
    by (simp add: Let_def BanIP_def map_of_eq_None_iff flip: s1_def)
qed

lemma ReduceAndCheckIfBanIP_late: "late \<Longrightarrow> ReduceAndCheckIfBanIP now late ip s = s"
  by (simp add: ReduceAndCheckIfBanIP_def)

lemma ReduceAndCheckIfBanIP_frame:
  assumes "\<not> PeersMutex s"
  shows "tcpConnections (ReduceAndCheckIfBanIP now late ip s) = tcpConnections s"
    and "peersConnected (ReduceAndCheckIfBanIP now late ip s) = peersConnected s"
    and "nodePeersConnected (ReduceAndCheckIfBanIP now late ip s) = nodePeersConnected s"
    and "closed (ReduceAndCheckIfBanIP now late ip s) = closed s"
    and "\<not> PeersMutex (ReduceAndCheckIfBanIP now late ip s)"
    and "\<not> late \<Longrightarrow> validPeersConnected (ReduceAndCheckIfBanIP now late ip s) =
      validPeersConnected (ReduceTrustRegisterPeer ip s)"
  using assms by (cases late; simp add: ReduceAndCheckIfBanIP_late ReduceAndCheckIfBanIP_eq Let_def ReduceTrust_frame)+

lemma peers_ok_ReduceAndCheckIfBanIP [effects]:
  assumes "peers_ok s"
  shows "peers_ok (ReduceAndCheckIfBanIP now late ip s)"
proof (cases late)
  case True
  then show ?thesis using assms by (simp add: ReduceAndCheckIfBanIP_late)
next
  case False
  have "\<not> PeersMutex s" using assms by (simp add: peers_ok_def)
  note F = ReduceAndCheckIfBanIP_frame [OF this, where now = now and late = late and ip = ip]
  with ReduceTrust_frame [where s = s and ip = ip] False \<open>\<not> PeersMutex s\<close> show ?thesis
    by (intro peers_ok_frame [OF peers_ok_simple(4) [OF assms, of ip]]) simp_all
qed

lemma parse_ip_length: "parse_ip n ps = Ok (Some ip) \<Longrightarrow> length ip = n"
  by (induction n ps arbitrary: ip rule: parse_ip.induct) (auto simp: rbind_Ok_iff split: option.splits)

lemma peers_ok_register:
  assumes "peers_ok s" and "length tp = 2"
  shows "peers_ok (s\<lparr>tcpConnections := mput tp (mput ip c (conns s tp)) (tcpConnections s),
    peersConnected := mput (tp @ ip) tp (peersConnected s)\<rparr>)" (is "peers_ok ?s")
proof -
  have "conn_ok ?s" unfolding conn_ok_def
  proof (intro allI impI)
    fix tp' ip' :: bytes assume l: "length tp' = 2"
    then have "tp' @ ip' = tp @ ip \<longleftrightarrow> tp' = tp \<and> ip' = ip" using assms(2) by (simp add: append_eq_append_conv)
    then show "map_of (peersConnected ?s) (tp' @ ip') = (if map_of (conns ?s tp') ip' = None then None else Some tp')"
      using assms(1) l by (auto simp: peers_ok_def conn_ok_def conns_def map_of_mput)
  qed
  then show ?thesis using assms by (auto simp: peers_ok_def trust_ok_def topics_ok_def fst_mput)
qed

lemma peers_ok_RegisterPeer [effects]:
  assumes "peers_ok s" and "length tp = 2"
  shows "peers_ok (snd (RegisterPeer now dead tp c s))"
proof -
  have "peers_ok (s\<lparr>validPeersConnected := mput ip ConnectionMaxTries (validPeersConnected s)\<rparr>)" for ip
    using assms(1) by (rule peers_ok_frame) (auto simp: map_of_mput ConnectionMaxTries_def split: if_splits)
  from peers_ok_register [OF this assms(2)] peers_ok_register [OF peers_ok_simple(5) [OF assms(1)] assms(2)] assms(1)
  show ?thesis
    by (auto simp: RegisterPeer_def effect_defs Let_def conns_def split: option.splits result.splits)
qed

lemma preserves_on_peers:
  "(\<And>s. peers_ok s \<Longrightarrow> peers_ok (f s)) \<Longrightarrow> preserves (\<lambda>st. peers_ok (rc_peers st)) (on_peers f)"
  by (simp add: preserves_def on_peers_def supd_def)

lemma preserves_emit: "preserves (\<lambda>st. peers_ok (rc_peers st)) (emit b)"
  by (simp add: preserves_def emit_def supd_def)

lemma preserves_supd_peers:
  "(\<And>st. peers_ok (rc_peers st) \<Longrightarrow> peers_ok (rc_peers (f st))) \<Longrightarrow> preserves (\<lambda>st. peers_ok (rc_peers st)) (supd f)"
  by (simp add: preserves_def supd_def)

lemmas preserves_receiver = preserves_on_peers preserves_emit preserves_supd_peers preserves_sbind

lemma preserves_leave: "preserves (\<lambda>st. peers_ok (rc_peers st)) leave"
  unfolding leave_def by (intro preserves_receiver effects) (simp_all add: peers_ok_CloseAndRemoveConnection)

lemma preserves_distrust: "preserves (\<lambda>st. peers_ok (rc_peers st)) (distrust now ip)"
  unfolding distrust_def
  by (intro preserves_receiver) (auto split: option.split intro!: preserves_receiver effects)

lemma preserves_receive_step: "preserves (\<lambda>st. peers_ok (rc_peers st)) (receive_step now redial ip tp rd)"
  unfolding receive_step_def receive_data_def Let_def
  by (intro preserves_receiver)
    (auto intro!: preserves_receiver preserves_leave preserves_distrust effects split: option.split)

lemma peers_ok_connection_step [effects]:
  assumes "peers_ok (rc_peers st)"
  shows "peers_ok (rc_peers (snd (connection_step now redial ip tp rd st)))"
proof -
  obtain r st1 where st1: "receive_step now redial ip tp rd st = (r, st1)" by fastforce
  have "peers_ok (rc_peers st1)" by (rule preservesD [OF preserves_receive_step assms st1])
  moreover have "peers_ok (rc_peers (snd (leave st1)))"
    using calculation preserves_leave by (simp add: preserves_def)
  ultimately show ?thesis by (cases r) (simp_all add: connection_step_def st1)
qed

lemma peers_ok_dial_loop [effects]: "peers_ok s \<Longrightarrow> peers_ok (snd (dial_loop now dial ip n s))"
proof (induction n arbitrary: s)
  case (Suc n)
  note ok = peers_ok_simple(4) [OF Suc.prems, of ip]
  show ?case using Suc.prems ok peers_ok_BanIP [OF ok]
    by (auto simp: Let_def split: option.split intro!: Suc.IH)
qed simp

lemma peers_ok_send_to [effects]: "peers_ok s \<Longrightarrow> peers_ok (snd (send_to broken c m s))"
  by (simp add: send_to_def peers_ok_CloseAndRemoveConnection)

lemma peers_ok_send_all [effects]: "peers_ok s \<Longrightarrow> peers_ok (snd (send_all broken tp m cs s))"
proof (induction cs arbitrary: s)
  case (Cons e cs)
  obtain k c where e: "e = (k, c)" by (cases e)
  obtain out s1 where s1: "send_to broken c m s = (out, s1)" by fastforce
  then have "peers_ok s1" using peers_ok_send_to [OF Cons.prems, of broken c m] by simp
  then show ?case using Cons.IH [of s] Cons.IH [of s1] Cons.prems by (auto simp: e s1 split: prod.split)
qed simp

lemma peers_ok_LoopSend [effects]: "peers_ok s \<Longrightarrow> peers_ok (snd (LoopSend broken late tp m s))"
  by (auto simp: LoopSend_def Let_def split: option.split intro: peers_ok_send_all peers_ok_send_to)

definition Ports :: "topic list" where
  "Ports = [TransactionTopic, NonceTopic, SelfNonceTopic, SyncTopic, RPCTopic]"

lemma length_Ports: "tp \<in> set Ports \<Longrightarrow> length tp = 2"
  by (auto simp: Ports_def TransactionTopic_def NonceTopic_def SelfNonceTopic_def SyncTopic_def RPCTopic_def)

text \<open>The state at the start, with the address of the node.\<close>

definition init_peers :: "ip \<Rightarrow> peers" where
  "init_peers me = AddWhiteListIPs zero_ip (AddWhiteListIPs me
     \<lparr>peersConnected = [], validPeersConnected = [(me, 100)], nodePeersConnected = [], oldPeers = [], PeersCount = 0,
      tcpConnections = map (\<lambda>tp. (tp, [])) Ports, bannedIP = [], whiteListIPs = [], MyIP = me, PeersMutex = False,
      closed = []\<rparr>)"

text \<open>What the threads of the node do to the tables, each under the mutex, in any order.\<close>

inductive peers_step :: "peers \<Rightarrow> peers \<Rightarrow> bool" where
  step_white: "peers_step s (AddWhiteListIPs ip s)"
| step_ban: "peers_step s (BanIP now ip s)"
| step_reduce: "peers_step s (ReduceAndCheckIfBanIP now late ip s)"
| step_valid: "peers_step s (ValidRegisterPeer ip s)"
| step_node: "peers_step s (NodeRegisterPeer ip s)"
| step_register: "tp \<in> set Ports \<Longrightarrow> peers_step s (snd (RegisterPeer now dead tp c s))"
| step_ips: "peers_step s (snd (GetIPsConnected rnd s))"
| step_lookup: "peers_step s (snd (LookUpForNewPeersToConnect s))"
| step_send: "peers_step s (snd (LoopSend broken late tp m s))"
| step_dial: "peers_step s (snd (dial_loop now dial ip n s))"
| step_receive: "rc_peers st = s \<Longrightarrow> peers_step s (rc_peers (snd (connection_step now redial ip tp rd st)))"

inductive peers_reachable :: "ip \<Rightarrow> peers \<Rightarrow> bool" for me :: ip where
  reach_init: "peers_reachable me (init_peers me)"
| reach_step: "peers_reachable me s \<Longrightarrow> peers_step s s' \<Longrightarrow> peers_reachable me s'"

lemma peers_ok_init: "peers_ok (init_peers me)"
proof -
  have "conns (init_peers me) tp = []" for tp
    by (auto simp: init_peers_def AddWhiteListIPs_def conns_def mgetd_def split: option.split dest!: map_of_SomeD)
  moreover have "peersConnected (init_peers me) = []" by (simp add: init_peers_def AddWhiteListIPs_def)
  ultimately have "conn_ok (init_peers me)" by (simp add: conn_ok_def)
  moreover have "trust_ok (init_peers me)" "topics_ok (init_peers me)" "\<not> PeersMutex (init_peers me)"
    by (auto simp: init_peers_def AddWhiteListIPs_def trust_ok_def topics_ok_def length_Ports)
  ultimately show ?thesis by (simp add: peers_ok_def)
qed

lemma peers_ok_step:
  assumes "peers_step s s'" and "peers_ok s"
  shows "peers_ok s'"
  using assms
proof cases
  case (step_ips rnd)
  then show ?thesis using assms(2) by (auto simp: GetIPsConnected_def Let_def intro: effects)
next
  case step_lookup
  then show ?thesis using assms(2) by (simp add: LookUpForNewPeersToConnect_def Let_def peers_ok_simple)
qed (use assms(2) length_Ports in \<open>auto intro: effects\<close>)

lemma peers_ok_reachable: "peers_reachable me s \<Longrightarrow> peers_ok s"
  by (induction rule: peers_reachable.induct) (auto intro: peers_ok_init peers_ok_step)

section \<open>Properties\<close>



text \<open>
  a node that is banned because of an invalid message keeps its connections: the mutex is held
  by the caller, so that nothing is closed and the tables of connected peers stay as they are.
\<close>

lemma ReduceAndCheckIfBanIP_keeps_connections:
  assumes "peers_reachable me s" and "map_of (validPeersConnected s) ip = None" and "\<not> white_listed ip s"
    and "sint now < 2 ^ 62"
  shows "let s' = ReduceAndCheckIfBanIP now False ip s in
    IsIPBanned now ip s' \<and> tcpConnections s' = tcpConnections s \<and> peersConnected s' = peersConnected s \<and>
    closed s' = closed s"
proof -
  have free: "\<not> PeersMutex s" using peers_ok_reachable [OF assms(1)] by (simp add: peers_ok_def)
  have "sint (now + 60) = sint now + 60" using assms(4) sint_i64_bounds(1) [of now] by (subst sint_i64_add) simp_all
  moreover have "map_of (validPeersConnected (ReduceTrustRegisterPeer ip s)) ip = None"
    using assms(2) by (simp add: ReduceTrustRegisterPeer_def)
  ultimately have "IsIPBanned now ip (ReduceAndCheckIfBanIP now False ip s)"
    using assms(3) by (simp add: ReduceAndCheckIfBanIP_eq Let_def IsIPBanned_def white_listed_def ReduceTrust_frame
        map_of_mput BannedTimeSeconds_def)
  with ReduceAndCheckIfBanIP_frame [OF free] show ?thesis by (simp add: Let_def)
qed

text \<open>
  A first piece of fewer than seven bytes, which the transport may well deliver, panics in the
  comparison with the end mark, and the connection is given up.
\<close>

lemma short_piece_ends_connection:
  assumes "rc_conn st = Some c" and "mgetd [] (rTopic st) tp = []" and "length b < 7" and "b \<noteq> WAIT_mark"
  shows "\<exists>st'. connection_step now redial ip tp (Bytes b) st = (Stop, st') \<and>
    receiveChan st' = receiveChan st @ [EXIT_mark] \<and> rc_peers st' = CloseAndRemoveConnection (Some c) (rc_peers st)"
proof -
  have "b \<noteq> ERR_mark" "b \<noteq> CLS_mark" "b \<noteq> QUIT_mark"
    using assms(3) by (auto simp: ERR_mark_def CLS_mark_def QUIT_mark_def)
  with assms show ?thesis
    by (auto simp: connection_step_def receive_step_def receive_data_def Receive_def effect_defs leave_def emit_def)
qed

text \<open>
  The bans of the receiving loop are never reached: a peer that loses its last trust is removed
  from the table in which the loop then looks for a trust of zero.
\<close>

lemma receiving_bans_nobody:
  assumes "peers_ok (rc_peers st)"
  shows "bannedIP (rc_peers (snd (distrust now ip st))) = bannedIP (rc_peers st)"
proof -
  let ?s = "ReduceTrustRegisterPeer ip (rc_peers st)"
  have "\<not> n \<le> 0" if "map_of (validPeersConnected ?s) ip = Some n" for n
    using peers_ok_simple(4) [OF assms, of ip] that unfolding peers_ok_def trust_ok_def by force
  then show ?thesis
    by (auto simp: distrust_def effect_defs on_peers_def ReduceTrust_frame split: option.split)
qed

text \<open>Sample data: a connected peer that sends a message in two pieces.\<close>

definition sample_conn :: conn where
  "sample_conn = \<lparr>conn_id = 1, RemoteAddr = ''10.0.0.2:18023''\<rparr>"

definition sample_peers :: peers where
  "sample_peers = snd (RegisterPeer 0 (\<lambda>_. False) NonceTopic sample_conn (init_peers [10, 0, 0, 1]))"

definition sample_receiver :: receiver where
  "sample_receiver = \<lparr>rc_peers = sample_peers, rc_conn = Some sample_conn, reconnectionTries = 0, resetNumber = 0,
     rTopic = [], receiveChan = []\<rparr>"

lemma sample_peers_reachable: "peers_reachable [10, 0, 0, 1] sample_peers"
  unfolding sample_peers_def by (rule reach_step [OF reach_init step_register]) (simp add: Ports_def)

lemma sample_peers_connected: "map_of (conns sample_peers NonceTopic) [10, 0, 0, 2] = Some sample_conn"
  by code_simp


definition sample_pieces :: "bytes list" where
  "sample_pieces = [take 10 (frame (TransactionsMessage_GetBytes sample_message)),
     drop 10 (frame (TransactionsMessage_GetBytes sample_message))]"

lemma sample_pieces_ok: "pieces [] sample_pieces (frame (TransactionsMessage_GetBytes sample_message))"
proof -
  have "\<forall>c \<in> set sample_pieces. \<not> control c \<and> length c \<le> 1024" "\<not> ends_frame (hd sample_pieces)"
    "length (frame (TransactionsMessage_GetBytes sample_message)) = 32" "7 \<le> length (hd sample_pieces)"
    by code_simp+
  moreover have "take k sample_pieces = [hd sample_pieces]" if "0 < k" "k < length sample_pieces" for k
    using that by (cases k) (simp_all add: sample_pieces_def)
  moreover have "sample_pieces \<noteq> []" "concat sample_pieces = frame (TransactionsMessage_GetBytes sample_message)"
    by (simp_all add: sample_pieces_def)
  ultimately show ?thesis by (simp add: pieces_def)
qed


text \<open>The peer of the connection with trust \<open>n\<close>, and after ten invalid messages.\<close>

definition trusting :: "int \<Rightarrow> peers" where
  "trusting n = sample_peers\<lparr>validPeersConnected := [([10, 0, 0, 1], 100), ([10, 0, 0, 2], n)]\<rparr>"

definition distrusted_peers :: peers where
  "distrusted_peers = ReduceAndCheckIfBanIP 0 False [10, 0, 0, 2] (trusting 1)"

lemma sample_peers_fields:
  "MyIP sample_peers = [10, 0, 0, 1]" "PeersMutex sample_peers = False"
  "validPeersConnected sample_peers = [([10, 0, 0, 1], 100), ([10, 0, 0, 2], 10)]"
  "\<not> white_listed [10, 0, 0, 2] sample_peers"
  by code_simp+

lemma trusting_10: "trusting 10 = sample_peers"
  using sample_peers_fields(3) by (cases sample_peers) (simp add: trusting_def)

lemma trusting_step: "1 < n \<Longrightarrow> ReduceAndCheckIfBanIP 0 False [10, 0, 0, 2] (trusting n) = trusting (n - 1)"
  using sample_peers_fields
  by (cases sample_peers) (simp add: ReduceAndCheckIfBanIP_eq Let_def ReduceTrustRegisterPeer_def trusting_def zero_ip_def)

lemma trusting_reachable: "n \<le> 9 \<Longrightarrow> peers_reachable [10, 0, 0, 1] (trusting (10 - int n))"
proof (induction n)
  case 0
  then show ?case by (simp add: trusting_10 sample_peers_reachable)
next
  case (Suc n)
  then have "ReduceAndCheckIfBanIP 0 False [10, 0, 0, 2] (trusting (10 - int n)) = trusting (10 - int (Suc n))"
    by (subst trusting_step) (simp_all add: algebra_simps)
  then show ?case using Suc by (metis Suc_leD reach_step step_reduce)
qed

lemma distrusted_peers_reachable: "peers_reachable [10, 0, 0, 1] distrusted_peers"
  using trusting_reachable [of 9] by (auto simp: distrusted_peers_def intro: reach_step step_reduce)

lemma distrusted_peers_fields:
  "map_of (validPeersConnected distrusted_peers) [10, 0, 0, 2] = None" "\<not> white_listed [10, 0, 0, 2] distrusted_peers"
  "tcpConnections distrusted_peers = tcpConnections sample_peers"
  using sample_peers_fields
  by (auto simp: distrusted_peers_def ReduceAndCheckIfBanIP_eq Let_def ReduceTrustRegisterPeer_def trusting_def zero_ip_def
      conns_def white_listed_def)

lemma ReduceAndCheckIfBanIP_keeps_connections_example:
  "let s = ReduceAndCheckIfBanIP 0 False [10, 0, 0, 2] distrusted_peers
   in IsIPBanned 0 [10, 0, 0, 2] s \<and> map_of (conns s NonceTopic) [10, 0, 0, 2] = Some sample_conn"
  using ReduceAndCheckIfBanIP_keeps_connections [OF distrusted_peers_reachable, of "[10, 0, 0, 2]" 0]
    distrusted_peers_fields sample_peers_connected
  by (simp add: Let_def conns_def)

end
