(* ===== verification/Rollback.thy ===== *)
theory Rollback
  imports Chain
begin

text \<open>
  What the acceptance of a block leaves alone: the stored accounts, staking accounts and blocks, the
  number of staking tables, and whatever else a node keeps beside its ledger.
  \<^verbatim>\<open>CheckBlockAndTransferFunds\<close> only writes transactions, Merkle trees and public keys to the database,
  so that a node which fails in the middle of a block can go back to what it had stored.

  The locale \<open>block_frame\<close> states which changes an invariant has to bear; its lemmas follow the code
  from the single database writes to the whole function.  It is instantiated for nodes in \<open>Node\<close>.
\<close>

definition ledger_key :: "bytes \<Rightarrow> bool" where
  "ledger_key k \<longleftrightarrow> take 2 k \<in> {AccountsDBPrefix, StakingAccountsDBPrefix, BlockByHeightDBPrefix, BlocksDBPrefix}"

lemma preserves_sfor [effects]: "(\<And>x. preserves I (f x)) \<Longrightarrow> preserves I (sfor f xs)"
  by (induction xs) (auto intro: effects)

lemma preserves_sdefer: "preserves I f \<Longrightarrow> preserves I m \<Longrightarrow> preserves I (sdefer f m)"
  by (fastforce simp: preserves_def sdefer_def split: prod.splits result.splits)

lemma preserves_zoomI: "(\<And>s t. I s \<Longrightarrow> I (upd (\<lambda>_. t) s)) \<Longrightarrow> preserves I (zoom get upd m)"
  by (simp add: preserves_def zoom_def split: prod.split)

section \<open>The number of staking tables\<close>

definition staking_size :: "('d, 'z) world_scheme \<Rightarrow> nat" where
  "staking_size w = length (w_staking w)"

lemma keeps_staking_store: "keeps length (staking_store i a acc)"
  by (simp add: keeps_def staking_store_def split: result.split)

lemma staking_ops_size:
  "keeps length (Stake a x h i op la rpb now)" "keeps length (Unstake a x h i now)"
  "keeps length (Reward a x h i now)" "keeps length (WithdrawReward a x h i now)"
  unfolding Stake_def Unstake_def Reward_def WithdrawReward_def Let_def
  by (auto intro!: effects keeps_staking_store split: prod.split)

section \<open>Invariants of the acceptance of a block\<close>

locale block_frame =
  fixes E :: "'d env" and I :: "('d, 'z) world_scheme \<Rightarrow> bool"
  assumes accounts_frame: "I w \<Longrightarrow> I (w_accounts_update f w)"
    and pool_frame: "I w \<Longrightarrow> I (PoolsTx_update g w)"
    and escrow_pool_frame: "I w \<Longrightarrow> I (PoolTxEscrow_update g w)"
    and multisign_pool_frame: "I w \<Longrightarrow> I (PoolTxMultiSign_update g w)"
    and staking_frame: "I w \<Longrightarrow> length st = staking_size w \<Longrightarrow> I (w\<lparr>w_staking := st\<rparr>)"
    and put_frame: "I w \<Longrightarrow> \<not> ledger_key k \<Longrightarrow> I (w\<lparr>w_db := snd (DB_Put (e_kv E) k v (w_db w))\<rparr>)"
    and delete_frame: "I w \<Longrightarrow> \<not> ledger_key k \<Longrightarrow> I (w\<lparr>w_db := snd (DB_Delete (e_kv E) k (w_db w))\<rparr>)"
begin

text \<open>Operations on the database, seen from a world.\<close>

definition db_safe :: "('d, 'a) op \<Rightarrow> bool" where
  "db_safe m \<longleftrightarrow> (\<forall>w. I w \<longrightarrow> I (w\<lparr>w_db := snd (m (w_db w))\<rparr>))"

lemma db_safe_on_db [effects]: "db_safe m \<Longrightarrow> preserves I (on_db m)"
  by (simp add: db_safe_def preserves_def zoom_def split: prod.split) (metis snd_conv)

lemma db_safe_effects [effects]:
  "db_safe (sret x)" "db_safe (serr e)" "db_safe (sget g)" "db_safe (slift r)" "db_safe (sread f)"
  by (simp_all add: db_safe_def sret_def serr_def sget_def slift_def sread_eq)

lemma db_safe_sbind [effects]:
  assumes "db_safe m" and "\<And>x. db_safe (f x)"
  shows "db_safe (sbind m f)"
  unfolding db_safe_def
proof (intro allI impI)
  fix w :: "('d, 'z) world_scheme"
  assume "I w"
  obtain r d where m: "m (w_db w) = (r, d)" by fastforce
  then have d: "I (w\<lparr>w_db := d\<rparr>)" using assms(1) \<open>I w\<close> by (metis db_safe_def snd_conv)
  show "I (w\<lparr>w_db := snd (sbind m f (w_db w))\<rparr>)"
  proof (cases r)
    case (Ok x)
    from assms(2) [of x] d have "I ((w\<lparr>w_db := d\<rparr>)\<lparr>w_db := snd (f x (w_db (w\<lparr>w_db := d\<rparr>)))\<rparr>)"
      unfolding db_safe_def by blast
    then show ?thesis by (simp add: sbind_def m Ok)
  qed (simp_all add: sbind_def m d)
qed

lemma db_safe_wrap [effects]: "db_safe m \<Longrightarrow> db_safe (sdrop m)" "db_safe m \<Longrightarrow> db_safe (scatch m)"
  by (auto simp: db_safe_def sdrop_def scatch_def split: prod.splits result.splits)

lemma db_safe_writes [effects]:
  "\<not> ledger_key k \<Longrightarrow> db_safe (DB_Put (e_kv E) k v)" "\<not> ledger_key k \<Longrightarrow> db_safe (DB_Delete (e_kv E) k)"
  by (simp_all add: db_safe_def put_frame delete_frame)

lemma db_safe_ops [effects]:
  "db_safe (LoadFromDBPoolTx (e_kv E) H160 ec TransactionPoolHashesDBPrefix h)"
  "db_safe (LoadFromDBPoolTx (e_kv E) H160 ec TransactionDBPrefix h)"
  "db_safe (RemoveTransactionFromDBbyHash (e_kv E) TransactionPoolHashesDBPrefix h)"
  "db_safe (RemoveTransactionFromDBbyHash (e_kv E) TransactionDBPrefix h)"
  "db_safe (RemoveFromDBPoolTx (e_kv E) TransactionPoolHashesDBPrefix tx)"
  "db_safe (StoreToDBPoolTx (e_kv E) TransactionDBPrefix tx)"
  "db_safe (StoreToDBPoolTx (e_kv E) TransactionPoolHashesDBPrefix tx)"
  "db_safe (RemoveMerkleTrieFromDB (e_kv E) height)" "db_safe (StoreTree (e_kv E) enc t height)"
  "db_safe (AddressTree_StoreTree (e_kv E) enc tr a)"
  by (auto simp: LoadFromDBPoolTx_def RemoveTransactionFromDBbyHash_def RemoveFromDBPoolTx_def StoreToDBPoolTx_def
      RemoveMerkleTrieFromDB_def StoreTree_def AddressTree_StoreTree_def Let_def ledger_key_def split_def
      intro!: effects)

text \<open>The other parts of a world.\<close>

lemma zooms [effects]:
  "preserves I (on_accounts m1)" "preserves I (on_pool m)" "preserves I (on_escrow m)" "preserves I (on_multisign m)"
  "preserves I (supd (w_accounts_update g))"
  by (intro preserves_zoomI preserves_supd accounts_frame pool_frame escrow_pool_frame multisign_pool_frame; assumption)+

lemma on_staking_frame: "keeps length m \<Longrightarrow> preserves I (on_staking m)"
  by (auto simp: preserves_def zoom_def keeps_def staking_size_def split: prod.split intro!: staking_frame) (metis snd_conv)

lemma staking_ops_frame [effects]:
  "preserves I (on_staking (Stake a x h i op la rpb now))" "preserves I (on_staking (Unstake a x h i now))"
  "preserves I (on_staking (Reward a x h i now))" "preserves I (on_staking (WithdrawReward a x h i now))"
  by (rule on_staking_frame, rule staking_ops_size)+

text \<open>The operations of the code, bottom up.\<close>

lemma tx_frame [effects]:
  "preserves I (LoadPoolTx E TransactionPoolHashesDBPrefix h)" "preserves I (LoadPoolTx E TransactionDBPrefix h)"
  "preserves I (CheckTransactionInDBAndInMarkleTrie E h)" "preserves I (RemoveBadTransactionByHash E h height)"
proof -
  show L: "preserves I (LoadPoolTx E TransactionPoolHashesDBPrefix h)" "preserves I (LoadPoolTx E TransactionDBPrefix h)"
    for h unfolding LoadPoolTx_def by (intro effects)+
  show C: "preserves I (CheckTransactionInDBAndInMarkleTrie E h)" for h
    unfolding CheckTransactionInDBAndInMarkleTrie_def by (intro effects preserves_if L)
  show "preserves I (RemoveBadTransactionByHash E h height)"
    unfolding RemoveBadTransactionByHash_def by (intro effects C)
qed

lemma check_frame [effects]: "preserves I (CheckBlockTransfers E block lastBlock)"
proof -
  have "preserves I (check_transfer E h hash cs)" for h hash cs
    unfolding check_transfer_def load_for_check_def check_staking_part_def reject_def Let_def
    by (auto intro!: effects preserves_if split: result.split prod.split simp del: db_prefixes)
  then have "preserves I (check_loop E h hs cs)" for h hs cs
    by (induction hs arbitrary: cs) (auto intro!: effects)
  then show ?thesis by (auto simp: CheckBlockTransfers_def Let_def intro!: effects)
qed

lemma transaction_frame [effects]: "preserves I (ProcessTransaction E tx height)"
  unfolding ProcessTransaction_def process_stake_def process_withdrawal_def process_transfer_def
    ProcessMultiSignAndEscrow_def Let_def
  by (auto intro!: effects split: prod.split)

lemma multisign_frame [effects]: "preserves I (ProcessTransactionsMultiSign E tx height)"
  unfolding ProcessTransactionsMultiSign_def execute_multisign_def remove_all_def Let_def
  by (auto intro!: effects split: result.split prod.split)

lemma escrow_frame [effects]: "preserves I (ProcessTransactionsEscrow E height)"
proof -
  have "preserves I (release_escrow E tx height)" for tx
    unfolding release_escrow_def Let_def by (auto intro!: effects split: result.split)
  then have "preserves I (escrow_loop E height txs)" for txs
    by (induction txs) (auto intro!: effects)
  then show ?thesis by (auto simp: ProcessTransactionsEscrow_def intro!: effects)
qed

lemma transfers_frame [effects]: "preserves I (ProcessBlockTransfers E block reward)"
proof -
  have dist: "preserves I (distribute E h n r v accs rest)" for h n r v accs rest
    by (induction accs arbitrary: rest) (auto simp: Let_def intro!: effects)
  have one: "preserves I (process_one E h hash)" for h hash
    unfolding process_one_def or_reject_def reject_def
    by (auto intro!: effects split: result.split simp del: db_prefixes)
  show ?thesis
    unfolding ProcessBlockTransfers_def reward_block_def Let_def
    by (auto intro!: effects one dist split: prod.split)
qed

lemma pubkey_frame [effects]: "preserves I (ProcessBlockPubKey E block)"
proof -
  have "db_safe (StorePubKey E pk)" for pk
    unfolding StorePubKey_def by (auto intro!: effects simp: ledger_key_def)
  moreover have "db_safe (StorePubKeyInPatriciaTrie E pk)" for pk
    unfolding StorePubKeyInPatriciaTrie_def CreateAddressFromFirstPubKey_def Let_def
    by (auto intro!: effects split: result.split)
  ultimately have "preserves I (pubkey_loop E hs)" for hs
    by (induction hs) (auto simp: Let_def intro!: effects simp del: db_prefixes)
  then show ?thesis by (simp add: ProcessBlockPubKey_def)
qed

lemma settle_frame [effects]:
  "preserves I (settle_one E h)" "preserves I (RemoveAllTransactionsRelatedToBlock E block)"
  unfolding settle_one_def RemoveAllTransactionsRelatedToBlock_def
  by (auto intro!: effects split: result.split simp del: db_prefixes)

lemma CheckBlockAndTransferFunds_frame:
  assumes "\<And>b. preserves I (contracts b)" and "\<And>b l. preserves I (encryption b l)"
  shows "preserves I (CheckBlockAndTransferFunds E contracts encryption newBlock lastBlock tree)"
  unfolding CheckBlockAndTransferFunds_def store_tree_def Let_def
  by (auto intro!: preserves_sdefer effects assms split: prod.split option.split)

end

end
