(* ===== verification/Wallet.thy ===== *)
theory Wallet
  imports Blocks
begin

text \<open>
  Signing: \<^verbatim>\<open>Wallet.Sign\<close> of \<^verbatim>\<open>src/wallet/wallet.go\<close> and what calls it, \<^verbatim>\<open>Transaction.Sign\<close> and
  \<^verbatim>\<open>BaseHeader.Sign\<close>.  The signers of the wallet are a parameter, as the verification of liboqs is; the
  keys in files and their encryption are not modelled.

  The lemmas: what a wallet signs, the check of signatures accepts, when the signer is the counterpart of
  the verification for the key.
\<close>

section \<open>Wallets\<close>

record Wallet =
  wl_Address :: Address
  wl_Address2 :: Address
  wl_MainAddress :: Address
  wl_PublicKey2 :: PubKey
  signer :: "bytes \<Rightarrow> bytes result"
  signer2 :: "bytes \<Rightarrow> bytes result"

definition Wallet_Sign :: "EncryptionConfig \<Rightarrow> Wallet \<Rightarrow> bytes \<Rightarrow> bool \<Rightarrow> Signature result" where
  "Wallet_Sign ec w data primary =
     (if length data > 0
      then if primary
        then rbind (signer w data) (\<lambda>signature. Signature_Init ec ([0] @ signature) (wl_MainAddress w))
        else rbind (signer2 w data) (\<lambda>signature2. Signature_Init ec ([1] @ signature2) (wl_MainAddress w))
      else Err ''input data are empty'')"

definition Transaction_Sign :: "EncryptionConfig \<Rightarrow> Wallet \<Rightarrow> bool \<Rightarrow> Transaction \<Rightarrow> Transaction result" where
  "Transaction_Sign ec w primary tx =
     rbind (Wallet_Sign ec w (tx_Hash tx) primary) (\<lambda>sign. Ok (tx\<lparr>tx_Signature := sign\<rparr>))"

definition BaseHeader_Sign ::
  "digest \<Rightarrow> EncryptionConfig \<Rightarrow> Wallet \<Rightarrow> bool \<Rightarrow> BaseHeader \<Rightarrow> (Signature \<times> bytes) result" where
  "BaseHeader_Sign H256 ec w primary bh =
     (let signatureBlockHeaderMessage = BaseHeader_GetBytesWithoutSignature bh in
      rbind (Wallet_Sign ec w (H256 signatureBlockHeaderMessage) primary) (\<lambda>sign.
      Ok (sign, signatureBlockHeaderMessage)))"

section \<open>What is signed is verified\<close>

text \<open>
  The documented behaviour of a scheme of liboqs: a signature made with the secret key of a wallet verifies under
  the public key, whose length is that of the scheme.
\<close>

definition signs_for ::
  "(string \<Rightarrow> nat option) \<Rightarrow> (string \<Rightarrow> bytes \<Rightarrow> bytes \<Rightarrow> bytes \<Rightarrow> bool result) \<Rightarrow> EncryptionConfig \<Rightarrow>
   Wallet \<Rightarrow> bool \<Rightarrow> bytes \<Rightarrow> bool" where
  "signs_for oqs_len oqs_verify ec w primary pub \<longleftrightarrow>
     (let nm = (if primary then sigName ec else sigName2 ec) in
      oqs_len nm = Some (length pub) \<and>
      (\<forall>msg sig. (if primary then signer w msg else signer2 w msg) = Ok sig \<longrightarrow> oqs_verify nm msg sig pub = Ok True))"

lemma Wallet_Sign_Ok:
  assumes "Wallet_Sign ec w data primary = Ok s"
  obtains sig where "(if primary then signer w data else signer2 w data) = Ok sig"
    and "s = \<lparr>sig_ByteValue = (if primary then 0 else 1) # sig, sig_Address = wl_MainAddress w, sig_Primary = primary\<rparr>"
  using assms by (auto simp: Wallet_Sign_def Signature_Init_def Let_def rbind_Ok_iff split: if_splits)

lemma Wallet_Verify_Sign:
  assumes "Wallet_Sign ec w data primary = Ok s" and "signs_for oqs_len oqs_verify ec w primary pub"
    and "if primary then \<not> IsPaused ec else \<not> IsPaused2 ec"
  shows "Wallet_Verify oqs_len oqs_verify ec data (sig_ByteValue s) pub = Ok True"
proof -
  obtain sig where "(if primary then signer w data else signer2 w data) = Ok sig"
    and "sig_ByteValue s = (if primary then 0 else 1) # sig"
    using assms(1) by (rule Wallet_Sign_Ok) simp
  then show ?thesis
    using assms(2,3) by (auto simp: Wallet_Verify_def signs_for_def Let_def split: if_splits)
qed

lemma GetNodeSignPrimary_not_paused:
  assumes "GetNodeSignPrimary ec pref coin height = primary" and "height \<noteq> 0" and "\<not> (IsPaused ec \<and> IsPaused2 ec)"
  shows "if primary then \<not> IsPaused ec else \<not> IsPaused2 ec"
  using assms by (auto simp: GetNodeSignPrimary_def split: if_splits)

text \<open>
  A header that the node signs passes the check of the header, for a node that knows the key of the operator
  and draws the same kind of key.
\<close>

lemma BaseHeader_Verify_Sign:
  assumes "BaseHeader_Sign H256 ec w primary bh = Ok (s, msg)" and "primary = GetNodeSignPrimary ec pref coin (bh_Height bh)"
    and "LoadPubKeyWithPrimary K unjson (OperatorAccount bh) primary d = Ok pk"
    and "signs_for oqs_len oqs_verify ec w primary (pk_ByteValue pk)"
    and "bh_Height bh \<noteq> 0" and "\<not> (IsPaused ec \<and> IsPaused2 ec)"
  shows "BaseHeader_Verify K unjson oqs_len oqs_verify H256 ec pref coin d (bh\<lparr>bh_Signature := s, SignatureMessage := msg\<rparr>) = Ok True"
proof -
  have s: "Wallet_Sign ec w (H256 (BaseHeader_GetBytesWithoutSignature bh)) primary = Ok s"
    and msg: "msg = BaseHeader_GetBytesWithoutSignature bh"
    using assms(1) by (auto simp: BaseHeader_Sign_def Let_def rbind_Ok_iff)
  have "if primary then \<not> IsPaused ec else \<not> IsPaused2 ec"
    by (rule GetNodeSignPrimary_not_paused [OF assms(2) [symmetric] assms(5,6)])
  from Wallet_Verify_Sign [OF s assms(4) this] show ?thesis
    using assms(2,3) msg by (simp add: BaseHeader_Verify_def Let_def BaseHeader_GetBytesWithoutSignature_def)
qed

end
