(* ===== verification/Node.thy ===== *)
theory Node
  imports Partial Consensus StakingStore Dex StateDB Peers Rollback Wallet
begin

text \<open>
  The node: everything the program keeps in memory as one record that extends the \<open>world\<close> of the
  ledger, the reset of \<^verbatim>\<open>src/services/helperReset.go\<close>, and the handling of a block message of
  \<^verbatim>\<open>src/services/nonceService/onmessage.go\<close>.

  The searches for the last stored height may not end, so what calls them has an outcome of \<open>None\<close>
  for a call that does not return.  The parameters are those of the earlier theories, the smart
  contracts, the wallet with its signers and its new key, the options of the operator, and what the random
  generator draws; \<open>ne_busy\<close> says that a mutex the code only tries is taken.

  The lemmas: a reset restores what was stored for its height and returns; a block message either
  leaves the height alone or extends the chain by the block, with the coins conserved.
\<close>

section \<open>State and environment\<close>

record 'd node = "'d world" +
  n_ec :: EncryptionConfig
  n_voting :: voting
  n_oracles :: oracles
  n_height :: i64
  n_heightMax :: i64
  n_syncing :: bool
  ShiftToPastInReset :: i64
  n_State :: StateAccount
  n_dex :: dex
  n_peers :: peers
  EncryptionOptData :: bytes
  LastRepliedIP :: ip
  n_started :: "(topic \<times> ip) list"
  n_sent :: "(topic \<times> bytes) list"

record 'd nenv =
  ne_env :: "'d env"
  ne_oqs :: oqs_details
  ne_log2 :: "f64 \<Rightarrow> f64"
  ne_contracts :: "Block \<Rightarrow> ('d node, bool) op"
  ne_newkey :: "bytes \<Rightarrow> bool \<Rightarrow> (crypto_state, unit) op"
  ne_chain :: i16
  ne_late :: bool
  ne_busy :: bool
  ne_wallet :: Wallet
  ne_delegated :: Address
  ne_rewardPercentage :: i16
  ne_price :: i64
  ne_rnd :: i64
  ne_pick :: "nat \<Rightarrow> nat"
  CurrentHeightOfNetwork :: i64

text \<open>The environment of the ledger, with the configuration and the mode the node is in.\<close>

definition env_at :: "'d nenv \<Rightarrow> 'd node \<Rightarrow> 'd env" where
  "env_at N n = (ne_env N)\<lparr>e_ec := n_ec n, e_syncing := n_syncing n\<rparr>"

definition ne_kv :: "'d nenv \<Rightarrow> 'd kv" where
  "ne_kv N = e_kv (ne_env N)"

abbreviation on_voting :: "(voting, 'a) op \<Rightarrow> ('d node, 'a) op" where
  "on_voting \<equiv> zoom n_voting n_voting_update"

abbreviation on_oracles :: "(oracles, 'a) op \<Rightarrow> ('d node, 'a) op" where
  "on_oracles \<equiv> zoom n_oracles n_oracles_update"

abbreviation on_State :: "(StateAccount, 'a) op \<Rightarrow> ('d node, 'a) op" where
  "on_State \<equiv> zoom n_State n_State_update"

abbreviation on_ec :: "(EncryptionConfig, 'a) op \<Rightarrow> ('d node, 'a) op" where
  "on_ec \<equiv> zoom n_ec n_ec_update"

definition at_peers :: "(peers \<Rightarrow> peers) \<Rightarrow> ('d node, unit) op" where
  "at_peers f = supd (\<lambda>n. n\<lparr>n_peers := f (n_peers n)\<rparr>)"

definition n_crypto :: "'d node \<Rightarrow> crypto_state" where
  "n_crypto n = \<lparr>c_ec = n_ec n, c_voting = n_voting n\<rparr>"

definition n_crypto_update :: "(crypto_state \<Rightarrow> crypto_state) \<Rightarrow> 'd node \<Rightarrow> 'd node" where
  "n_crypto_update f n = (let c = f (n_crypto n) in n\<lparr>n_ec := c_ec c, n_voting := c_voting c\<rparr>)"

text \<open>The change of schemes at the end of an accepted block.\<close>

definition node_encryption :: "'d nenv \<Rightarrow> Block \<Rightarrow> Block \<Rightarrow> ('d node, unit) op" where
  "node_encryption N block lastBlock =
     zoom n_crypto n_crypto_update (ProcessBlockEncryption (ne_oqs N) (ne_newkey N) block lastBlock)"

section \<open>Reset\<close>

definition AdjustShiftInPastInReset :: "i64 \<Rightarrow> ('d node, unit) op" where
  "AdjustShiftInPastInReset height =
     supd (\<lambda>n. if sint (height - n_height n) \<le> 0 then n\<lparr>ShiftToPastInReset := 1\<rparr>
       else let s1 = 2 * ShiftToPastInReset n;
                s2 = (if sint s1 > sint height then height else s1);
                s3 = (if sint s2 < 1 then 1 else s2)
            in n\<lparr>ShiftToPastInReset := s3\<rparr>)"

definition last_snapshot :: "i64 \<Rightarrow> StateAccount \<Rightarrow> int" where
  "last_snapshot height sa = foldl (\<lambda>lastNum (h, n). if sint h > sint height then lastNum
     else if n > lastNum then n else lastNum) 0 (HeightToSnapShotNum sa)"

definition RevertVMToBlockHeight :: "i64 \<Rightarrow> ('d node, unit) op" where
  "RevertVMToBlockHeight height =
     sbind (sget (\<lambda>n. last_snapshot height (n_State n))) (\<lambda>lastNum. on_State (RevertToSnapshot lastNum))"

text \<open>\<^verbatim>\<open>for i := hi; i > lo; i--\<close>\<close>

definition down_to :: "i64 \<Rightarrow> i64 \<Rightarrow> i64 list" where
  "down_to hi lo = map word_of_int (rev [sint lo + 1..sint hi])"

definition load_accounts :: "'d nenv \<Rightarrow> i64 \<Rightarrow> ('d node, unit) pop" where
  "load_accounts N height n = (case LoadAccounts (ne_kv N) height (w_db n) (w_accounts n) of
     None \<Rightarrow> None | Some (r, acs) \<Rightarrow> Some (r, n\<lparr>w_accounts := acs\<rparr>))"

definition load_staking_accounts :: "'d nenv \<Rightarrow> i64 \<Rightarrow> ('d node, unit) pop" where
  "load_staking_accounts N height n = (case LoadStakingAccounts (ne_kv N) height (w_db n) (w_staking n) of
     None \<Rightarrow> None | Some (r, st) \<Rightarrow> Some (r, n\<lparr>w_staking := st\<rparr>))"

text \<open>A search for the last stored height; its error is logged and the height used all the same.\<close>

definition last_height :: "('d kv \<Rightarrow> 'd \<Rightarrow> (i64 \<times> string option) result option) \<Rightarrow> 'd nenv \<Rightarrow> ('d node, i64) pop" where
  "last_height f N n = (case f (ne_kv N) (w_db n) of
     None \<Rightarrow> None
   | Some (Ok (h, _)) \<Rightarrow> Some (Ok h, n) | Some (Err e) \<Rightarrow> Some (Err e, n) | Some Panic \<Rightarrow> Some (Panic, n))"

definition remove_down :: "(i64 \<Rightarrow> ('d, unit) op) \<Rightarrow> i64 \<Rightarrow> i64 \<Rightarrow> ('d node, unit) op" where
  "remove_down f hi lo = sfor (\<lambda>i. sdrop (on_db (f i))) (down_to hi lo)"

text \<open>The schemes of the block at that height, the contracts, and everything stored above it.\<close>

definition clear_above :: "'d nenv \<Rightarrow> i64 \<Rightarrow> ('d node, unit) pop" where
  "clear_above N height =
     pbind (last_height LastHeightStoredInAccounts N) (\<lambda>ha.
     pbind (last_height LastHeightStoredInStakingAccounts N) (\<lambda>hsa.
     pbind (last_height LastHeightStoredInBlocks N) (\<lambda>hb.
     pbind (pdo (sbind (sget w_db) (\<lambda>d. on_ec (SetEncryptionFromBlock (ne_kv N) (ne_oqs N) height d)))) (\<lambda>_.
     pbind (last_height LastHeightStoredInDexAccounts N) (\<lambda>hd.
     pbind (pdo (RevertVMToBlockHeight height)) (\<lambda>_.
     pbind (pdo (remove_down (RemoveBlockFromDB (ne_kv N)) hb height)) (\<lambda>_.
     pbind (pdo (remove_down (RemoveAccountsFromDB (ne_kv N)) ha height)) (\<lambda>_.
     pbind (pdo (remove_down (RemoveStakingAccountsFromDB (ne_kv N)) hsa height)) (\<lambda>_.
     pbind (pdo (remove_down (RemoveDexAccountsFromDB (ne_kv N)) hd height)) (\<lambda>_.
     pbind (last_height LastHeightStoredInMerleTrie N) (\<lambda>hm.
     pbind (pdo (remove_down (RemoveMerkleTrieFromDB (ne_kv N)) hm height)) (\<lambda>_.
     pdo (supd (\<lambda>n. n\<lparr>n_height := height\<rparr>))))))))))))))"

definition reset_to :: "'d nenv \<Rightarrow> i64 \<Rightarrow> ('d node, unit) pop" where
  "reset_to N height =
     pbind (load_accounts N height) (\<lambda>_.
     pbind (load_staking_accounts N height) (\<lambda>_.
     clear_above N height))"

definition ResetAccountsAndBlocksSync :: "'d nenv \<Rightarrow> i64 \<Rightarrow> ('d node, unit) pop" where
  "ResetAccountsAndBlocksSync N height n =
     (if sint height < 0 \<and> n_height n = 0 then Some (Ok (), n\<lparr>n_syncing := True\<rparr>)
      else pvoid (reset_to N (if sint height < 0 then 0 else height)) n)"

section \<open>Messages of the transaction service\<close>

text \<open>A message for the channel of a service: the address in front of the bytes.\<close>

definition Send :: "'d nenv \<Rightarrow> topic \<Rightarrow> ip \<Rightarrow> bytes \<Rightarrow> ('d node, bool) op" where
  "Send N channel addr nb =
     (if ne_busy N then sret False
      else sbind (supd (\<lambda>n. n\<lparr>n_sent := n_sent n @ [(channel, addr @ nb)]\<rparr>)) (\<lambda>_. sret True))"

definition GenerateTransactionMsg :: "i16 \<Rightarrow> Transaction list \<Rightarrow> bytes \<Rightarrow> topic \<Rightarrow> TransactionsMessage" where
  "GenerateTransactionMsg chain txs mesgHead tp =
     \<lparr>tm_BaseMessage = \<lparr>Head = mesgHead, ChainID = chain\<rparr>, TransactionsBytes = [(tp, map Transaction_GetBytes txs)]\<rparr>"

definition GenerateTransactionMsgGT :: "i16 \<Rightarrow> bytes list \<Rightarrow> bytes \<Rightarrow> topic \<Rightarrow> TransactionsMessage" where
  "GenerateTransactionMsgGT chain txsHashes mesgHead tp =
     \<lparr>tm_BaseMessage = \<lparr>Head = mesgHead, ChainID = chain\<rparr>, TransactionsBytes = [(tp, txsHashes)]\<rparr>"

definition SendGT :: "'d nenv \<Rightarrow> ip \<Rightarrow> bytes list \<Rightarrow> string \<Rightarrow> ('d node, unit) op" where
  "SendGT N addr txsHashes syncPre =
     sbind (Send N TransactionTopic addr (TransactionsMessage_GetBytes
       (GenerateTransactionMsgGT (ne_chain N) txsHashes (string_bytes syncPre) TransactionTopic))) (\<lambda>_. sret ())"

section \<open>A block message\<close>

definition distrust_peer :: "'d nenv \<Rightarrow> ip \<Rightarrow> ('d node, unit) op" where
  "distrust_peer N addr = at_peers (ReduceAndCheckIfBanIP (e_now (ne_env N)) (ne_late N) addr)"

text \<open>The checks of a block that touch only the votes.\<close>

definition node_CheckBaseBlock :: "'d nenv \<Rightarrow> Block \<Rightarrow> Block \<Rightarrow> ('d node, MerkleTree) op" where
  "node_CheckBaseBlock N newBlock lastBlock =
     sbind (sget (\<lambda>n. (env_at N n, w_staking n))) (\<lambda>(E, s).
       on_voting (CheckBaseBlock E (ne_oqs N) (ne_log2 N) s newBlock lastBlock))"

definition node_transfer :: "'d nenv \<Rightarrow> Block \<Rightarrow> Block \<Rightarrow> MerkleTree option \<Rightarrow> ('d node, Block) op" where
  "node_transfer N newBlock lastBlock tree =
     sbind (sget (env_at N)) (\<lambda>E.
       CheckBlockAndTransferFunds E (ne_contracts N) (node_encryption N) newBlock lastBlock tree)"

text \<open>After the transfers: the block, the accounts and the stakes are stored, and the height is set.\<close>

definition store_accounts :: "'d nenv \<Rightarrow> i64 \<Rightarrow> ('d node, unit) op" where
  "store_accounts N height = sbind (sget (\<lambda>n. (n_height n, w_accounts n))) (\<lambda>(current, acs).
     on_db (StoreAccounts (ne_kv N) current height acs))"

definition store_staking_accounts :: "'d nenv \<Rightarrow> i64 \<Rightarrow> ('d node, unit) op" where
  "store_staking_accounts N height = sbind (sget w_staking) (\<lambda>s. on_db (StoreStakingAccounts (ne_kv N) height s))"

definition commit_block :: "'d nenv \<Rightarrow> Block \<Rightarrow> i64 \<Rightarrow> ('d node, unit) op" where
  "commit_block N block newHeight =
     sbind (sdrop (store_accounts N (bh_Height (GetHeader block)))) (\<lambda>_.
     sbind (sdrop (store_staking_accounts N (bh_Height (GetHeader block)))) (\<lambda>_.
     supd (\<lambda>n. n\<lparr>n_height := newHeight\<rparr>)))"

text \<open>Apply a checked block; after an error the node goes back to the block before it.\<close>

definition transfer_store :: "'d nenv \<Rightarrow> Block \<Rightarrow> Block \<Rightarrow> MerkleTree option \<Rightarrow> ('d node, Block) op" where
  "transfer_store N newBlock lastBlock tree =
     sbind (node_transfer N newBlock lastBlock tree) (\<lambda>bl.
     sbind (on_db (StoreBlock (ne_kv N) bl)) (\<lambda>_. sret bl))"

definition apply_block :: "'d nenv \<Rightarrow> Block \<Rightarrow> Block \<Rightarrow> MerkleTree option \<Rightarrow> i64 \<Rightarrow> ('d node, bool) pop" where
  "apply_block N newBlock lastBlock tree newHeight =
     pbind (pdo (scatch (transfer_store N newBlock lastBlock tree))) (\<lambda>r.
     case r of
       Ok bl \<Rightarrow> pdo (sbind (commit_block N bl newHeight) (\<lambda>_. sret True))
     | _ \<Rightarrow> pbind (ResetAccountsAndBlocksSync N (bh_Height (GetHeader lastBlock))) (\<lambda>_. pdo (sret False)))"

text \<open>One entry of the message; \<open>False\<close> is a return from the handler.\<close>

definition block_entry :: "'d nenv \<Rightarrow> ip \<Rightarrow> i64 \<Rightarrow> Block \<Rightarrow> bytes list \<Rightarrow> ('d node, bool) pop" where
  "block_entry N addr h lastBlock v =
     (if v = [] then pdo (slift Panic)
      else pbind (pdo (sget (\<lambda>n. Block_GetFromBytes (n_ec n) (hd v)))) (\<lambda>r. case r of
        Panic \<Rightarrow> pdo (slift Panic)
      | Err e \<Rightarrow> pdo (sbind (distrust_peer N addr) (\<lambda>_. sret False))
      | Ok newBlock \<Rightarrow>
          if bh_Height (GetHeader newBlock) \<noteq> h + 1 then pdo (sret False)
          else
          pbind (pdo (scatch (node_CheckBaseBlock N newBlock lastBlock))) (\<lambda>c. case c of
            Panic \<Rightarrow> pdo (slift Panic)
          | Err e \<Rightarrow> pdo (sbind (distrust_peer N addr) (\<lambda>_. sret False))
          | Ok tree \<Rightarrow>
              pbind (pdo (sread (\<lambda>n. IsAllTransactions (ne_kv N) newBlock (w_db n)))) (\<lambda>hashesMissing.
              if length hashesMissing > 0
              then pdo (sbind (SendGT N addr hashesMissing ''st'') (\<lambda>_. sret False))
              else apply_block N newBlock lastBlock (Some tree) (h + 1)))))"

fun block_entries :: "'d nenv \<Rightarrow> ip \<Rightarrow> i64 \<Rightarrow> Block \<Rightarrow> (topic \<times> bytes list) list \<Rightarrow> ('d node, unit) pop" where
  "block_entries N addr h lastBlock [] = pdo (sret ())"
| "block_entries N addr h lastBlock ((k, v) # rest) =
     (if k \<noteq> [] \<and> hd k = 78
      then pbind (block_entry N addr h lastBlock v) (\<lambda>continue.
        if continue then block_entries N addr h lastBlock rest else pdo (sret ()))
      else block_entries N addr h lastBlock rest)"

definition on_block :: "'d nenv \<Rightarrow> ip \<Rightarrow> TransactionsMessage \<Rightarrow> i64 \<Rightarrow> ('d node, unit) pop" where
  "on_block N addr amsg h = pvoid (
     pbind (pdo (sread (\<lambda>n. LoadBlock (ne_kv N) (n_ec n) h (w_db n)))) (\<lambda>lastBlock.
     block_entries N addr h lastBlock (TransactionsBytes amsg)))"

section \<open>Frames of calls that may not return\<close>

lemma pkeeps_last_height [effects]: "pkeeps f (last_height g N)"
  by (auto simp: pkeeps_def last_height_def split: option.splits result.splits prod.splits)

text \<open>The accounts and stakes in memory.\<close>

definition ledger_mem :: "'d node \<Rightarrow> AccountsType \<times> staking" where
  "ledger_mem n = (w_accounts n, w_staking n)"

lemma ledger_mem_zooms [effects]:
  "keeps ledger_mem (on_db m)" "keeps ledger_mem (on_ec m1)" "keeps ledger_mem (on_State m2)" "keeps ledger_mem (on_voting m3)"
  by (rule keeps_zoom; simp add: ledger_mem_def)+

section \<open>Reset\<close>

text \<open>What the database holds for a height.\<close>

definition committed :: "(bytes \<Rightarrow> bytes option) \<Rightarrow> i64 \<Rightarrow> AccountsType \<times> staking \<Rightarrow> bool" where
  "committed c h l \<longleftrightarrow> c (AccountsDBPrefix @ GetByteInt64 h) = Some (AccountsType_Marshal (fst l)) \<and>
     (\<forall>i < 256. \<forall>b. StakingAccountsType_Marshal (snd l ! i) = Ok b \<longrightarrow> c (staking_key h i) = Some b)"

definition storable :: "AccountsType \<times> staking \<Rightarrow> bool" where
  "storable l \<longleftrightarrow> accounts_storable (fst l) \<and> staking_storable_all (snd l)"

lemma storable_size: "storable (ledger_mem n) \<Longrightarrow> staking_size n = 256"
  by (simp add: storable_def staking_storable_all_def ledger_mem_def staking_size_def)

lemma clear_above_ledger: "pkeeps ledger_mem (clear_above N h)"
proof -
  have "keeps ledger_mem (supd (\<lambda>n. n\<lparr>n_height := h\<rparr>))" by (simp add: keeps_def supd_def ledger_mem_def)
  then show ?thesis
    unfolding clear_above_def remove_down_def RevertVMToBlockHeight_def by (intro effects) assumption
qed

lemma reset_to_ledger:
  assumes "rocksdb (ne_kv N) content" and "committed (content (w_db n)) h l" and "storable l"
    and "staking_size n = 256" and "0 \<le> sint h" and "reset_to N h n = Some (r, n')"
  shows "ledger_mem n' = l"
proof -
  define n1 where "n1 = n\<lparr>w_accounts := fst l\<rparr>"
  define n2 where "n2 = n1\<lparr>w_staking := snd l\<rparr>"
  have "load_accounts N h n = Some (Ok (), n1)"
    using rocksdb.LoadAccounts_content [OF assms(1), of "fst l" h] assms(2,3,5)
    by (simp add: load_accounts_def n1_def committed_def storable_def del: db_prefixes)
  moreover have "LoadStakingAccounts (ne_kv N) h (w_db n1) (w_staking n1) = Some (Ok (), snd l)"
    using assms(2-5) by (intro rocksdb.LoadStakingAccounts_content [OF assms(1)])
      (auto simp: committed_def storable_def n1_def staking_size_def)
  then have "load_staking_accounts N h n1 = Some (Ok (), n2)"
    by (simp add: load_staking_accounts_def n2_def)
  ultimately have "clear_above N h n2 = Some (r, n')"
    using assms(6) by (simp add: reset_to_def pbind_Some)
  then show ?thesis using pkeepsD [OF clear_above_ledger] by (fastforce simp: ledger_mem_def n1_def n2_def)
qed

lemma Reset_ledger:
  assumes "rocksdb (ne_kv N) content" and "committed (content (w_db n)) h l" and "storable l"
    and "staking_size n = 256" and "0 \<le> sint h" and "ResetAccountsAndBlocksSync N h n = Some (r, n')"
  shows "ledger_mem n' = l"
proof -
  have "pvoid (reset_to N h) n = Some (r, n')" using assms(5,6) by (simp add: ResetAccountsAndBlocksSync_def)
  then obtain r1 where "reset_to N h n = Some (r1, n')"
    by (auto simp: pvoid_def split: option.splits prod.splits result.splits)
  then show ?thesis by (rule reset_to_ledger [OF assms(1-5)])
qed

text \<open>The keys of a height in the tables of accounts and stakes; a reset to it removes none of them.\<close>

definition height_key :: "i64 \<Rightarrow> bytes \<Rightarrow> bool" where
  "height_key h k \<longleftrightarrow> take 10 k \<in> {AccountsDBPrefix @ GetByteInt64 h, StakingAccountsDBPrefix @ GetByteInt64 h}"

lemma committed_cong:
  "(\<And>k. height_key h k \<Longrightarrow> c' k = c k) \<Longrightarrow> committed c' h l = committed c h l"
  by (simp add: committed_def height_key_def staking_key_def)

lemma height_key_simps [simp]:
  "height_key h (65 # 67 # GetByteInt64 i) \<longleftrightarrow> i = h" "height_key h (83 # 65 # GetByteInt64 i @ q) \<longleftrightarrow> i = h"
  "x \<notin> {65, 83} \<Longrightarrow> \<not> height_key h (x # y)"
  by (auto simp: height_key_def)

definition at_height :: "('d \<Rightarrow> bytes \<Rightarrow> bytes option) \<Rightarrow> i64 \<Rightarrow> 'd \<Rightarrow> bytes \<Rightarrow> bytes option" where
  "at_height content h d = (\<lambda>k. if height_key h k then content d k else None)"

lemma at_heightD: "at_height content h d' = at_height content h d \<Longrightarrow> height_key h k \<Longrightarrow> content d' k = content d k"
  by (drule fun_cong [of _ _ k]) (simp add: at_height_def)

lemma committed_at_height:
  assumes "at_height content h d' = at_height content h d"
  shows "committed (content d') h l = committed (content d) h l"
  using at_heightD [OF assms] by (rule committed_cong)

lemma delete_at_height:
  assumes "rocksdb K content" and "\<not> height_key h k"
  shows "keeps (at_height content h) (DB_Delete K k)"
  using rocksdb.DB_Delete_Ok [OF assms(1), of k] assms(2)
  by (cases "k = []") (auto simp: keeps_def at_height_def DB_Delete_def)

lemma removals_at_height:
  assumes "rocksdb K content" and "i \<noteq> h"
  shows "keeps (at_height content h) (RemoveBlockFromDB K i)" "keeps (at_height content h) (RemoveAccountsFromDB K i)"
    "keeps (at_height content h) (RemoveStakingAccountsFromDB K i)" "keeps (at_height content h) (RemoveDexAccountsFromDB K i)"
    "keeps (at_height content h) (RemoveMerkleTrieFromDB K i)"
proof -
  note del = delete_at_height [OF assms(1), where h = h]
  have "keeps (at_height content h) (remove_staking K (StakingAccountsDBPrefix @ GetByteInt64 i @ q) is)" for q "is"
  proof (induction "is" arbitrary: q)
    case (Cons j "is")
    from Cons.IH [of "q @ [word_of_nat j]"] assms(2) show ?case by (auto simp: Let_def intro!: effects del)
  qed (simp add: effects)
  from this [of "[]"] show "keeps (at_height content h) (RemoveStakingAccountsFromDB K i)"
    by (simp add: RemoveStakingAccountsFromDB_def)
  show "keeps (at_height content h) (RemoveBlockFromDB K i)" "keeps (at_height content h) (RemoveAccountsFromDB K i)"
    "keeps (at_height content h) (RemoveDexAccountsFromDB K i)" "keeps (at_height content h) (RemoveMerkleTrieFromDB K i)"
    using assms(2) unfolding RemoveBlockFromDB_def RemoveAccountsFromDB_def RemoveDexAccountsFromDB_def RemoveMerkleTrieFromDB_def
    by (auto intro!: effects del)
qed

text \<open>So what is stored for a height outlives the reset to it.\<close>

abbreviation node_at_height :: "('d \<Rightarrow> bytes \<Rightarrow> bytes option) \<Rightarrow> i64 \<Rightarrow> 'd node \<Rightarrow> bytes \<Rightarrow> bytes option" where
  "node_at_height content h \<equiv> \<lambda>n. at_height content h (w_db n)"

lemma node_at_height_on_db: "keeps (at_height content h) m \<Longrightarrow> keeps (node_at_height content h) (on_db m)"
  by (simp add: keeps_def zoom_def split: prod.split) (metis snd_conv)

lemma down_to_above: "i \<in> set (down_to hi lo) \<Longrightarrow> i \<noteq> lo"
  using sint_i64_bounds [of hi] sint_i64_bounds [of lo] by (auto simp: down_to_def sint_i64_eq_iff sint_i64_of_int)

lemma keeps_sfor_in: "(\<And>x. x \<in> set xs \<Longrightarrow> keeps h (f x)) \<Longrightarrow> keeps h (sfor f xs)"
  by (induction xs) (auto intro: effects)

lemma remove_down_at_height:
  assumes "\<And>i. i \<noteq> h \<Longrightarrow> keeps (at_height content h) (f i)"
  shows "keeps (node_at_height content h) (remove_down f hi h)"
  unfolding remove_down_def by (intro keeps_sfor_in effects node_at_height_on_db assms down_to_above)

lemma node_at_height_zooms [effects]:
  "keeps (node_at_height content h) (on_ec m1)" "keeps (node_at_height content h) (on_State m2)"
  "keeps (node_at_height content h) (supd (n_height_update f))"
  by (simp_all add: keeps_def supd_def zoom_def split: prod.split)

lemma clear_above_at_height:
  assumes "rocksdb (ne_kv N) content"
  shows "pkeeps (node_at_height content h) (clear_above N h)"
  unfolding clear_above_def RevertVMToBlockHeight_def
  by (intro effects remove_down_at_height removals_at_height assms)

lemma Reset_at_height:
  assumes "rocksdb (ne_kv N) content" and "0 \<le> sint h" and "ResetAccountsAndBlocksSync N h n = Some (r, n')"
  shows "at_height content h (w_db n') = at_height content h (w_db n)"
proof -
  have "pvoid (reset_to N h) n = Some (r, n')" using assms(2,3) by (simp add: ResetAccountsAndBlocksSync_def)
  then obtain r1 where "reset_to N h n = Some (r1, n')"
    by (auto simp: pvoid_def split: option.splits prod.splits result.splits)
  moreover have "pkeeps (node_at_height content h) (load_accounts N h)" "pkeeps (node_at_height content h) (load_staking_accounts N h)"
    by (auto simp: pkeeps_def load_accounts_def load_staking_accounts_def split: option.splits)
  then have "pkeeps (node_at_height content h) (reset_to N h)"
    unfolding reset_to_def by (intro effects clear_above_at_height assms(1))
  ultimately show ?thesis by (auto dest: pkeepsD)
qed

section \<open>Accepting a block\<close>

text \<open>
  What the acceptance of a block leaves alone in a node: what is stored of the ledger (as in \<open>m0\<close>), the
  number of staking tables and the height.
\<close>

definition node_rest :: "('d \<Rightarrow> bytes \<Rightarrow> bytes option) \<Rightarrow> (bytes \<Rightarrow> bytes option) \<Rightarrow> nat \<Rightarrow> i64 \<Rightarrow> 'd node \<Rightarrow> bool" where
  "node_rest content m0 s0 h0 n \<longleftrightarrow> (\<forall>k. ledger_key k \<longrightarrow> content (w_db n) k = m0 k) \<and> staking_size n = s0 \<and> n_height n = h0"

text \<open>That much is asked of the contracts.\<close>

definition contracts_frame :: "'d nenv \<Rightarrow> ('d \<Rightarrow> bytes \<Rightarrow> bytes option) \<Rightarrow> bool" where
  "contracts_frame N content \<longleftrightarrow> (\<forall>b m0 s0 h0. preserves (node_rest content m0 s0 h0) (ne_contracts N b))"

lemma env_at_fields [simp]: "e_kv (env_at N n) = ne_kv N" "e_syncing (env_at N n) = n_syncing n" "e_ec (env_at N n) = n_ec n"
  "e_H256 (env_at N n) = e_H256 (ne_env N)" "e_now (env_at N n) = e_now (ne_env N)"
  by (simp_all add: env_at_def ne_kv_def)

locale node_db = rocksdb "ne_kv N" content for N :: "'d nenv" and content

sublocale node_db \<subseteq> frame: block_frame "env_at N n0" "node_rest content m0 s0 h0" for n0 m0 s0 h0
proof
  fix n k v
  assume n: "node_rest content m0 s0 h0 n" and k: "\<not> ledger_key k"
  have "content (snd (DB_Put (ne_kv N) k v (w_db n))) k' = content (w_db n) k' \<and>
      content (snd (DB_Delete (ne_kv N) k (w_db n))) k' = content (w_db n) k'" if "ledger_key k'" for k'
    using that k DB_Put_Ok [of k v "w_db n"] DB_Delete_Ok [of k "w_db n"]
    by (cases "k = []") (auto simp: DB_Put_def DB_Delete_def)
  with n show "node_rest content m0 s0 h0 (n\<lparr>w_db := snd (DB_Put (e_kv (env_at N n0)) k v (w_db n))\<rparr>)"
    "node_rest content m0 s0 h0 (n\<lparr>w_db := snd (DB_Delete (e_kv (env_at N n0)) k (w_db n))\<rparr>)"
    by (auto simp: node_rest_def staking_size_def)
qed (auto simp: node_rest_def staking_size_def)

lemma node_encryption_keeps:
  "keeps w_staking (node_encryption N b l)" "keeps w_accounts (node_encryption N b l)"
  "preserves (node_rest content m0 s0 h0) (node_encryption N b l)"
  unfolding node_encryption_def
  by (rule keeps_zoom; simp add: n_crypto_update_def Let_def; fail)+
    (rule preserves_zoomI, simp add: node_rest_def n_crypto_update_def Let_def staking_size_def)

context node_db
begin

lemmas transfer_frame = frame.CheckBlockAndTransferFunds_frame

end

lemma node_transfer_eq:
  "node_transfer N newBlock lastBlock tree n =
     CheckBlockAndTransferFunds (env_at N n) (ne_contracts N) (node_encryption N) newBlock lastBlock tree n"
  by (simp add: node_transfer_def sbind_def sget_def)

lemma node_transfer_frame:
  assumes "rocksdb (ne_kv N) content" and "contracts_frame N content" and "node_transfer N newBlock lastBlock tree n = (r, n')"
  shows "staking_size n' = staking_size n" and "n_height n' = n_height n"
    and "ledger_key k \<Longrightarrow> content (w_db n') k = content (w_db n) k"
proof -
  let ?I = "node_rest content (content (w_db n)) (staking_size n) (n_height n)"
  have "preserves ?I (CheckBlockAndTransferFunds (env_at N n) (ne_contracts N) (node_encryption N) newBlock lastBlock tree)"
    using assms(1,2) by (intro node_db.transfer_frame node_encryption_keeps(3))
      (auto simp: node_db_def contracts_frame_def)
  from preservesD [OF this _ assms(3) [unfolded node_transfer_eq]] have "?I n'" by (simp add: node_rest_def)
  then show "staking_size n' = staking_size n" "n_height n' = n_height n"
    "ledger_key k \<Longrightarrow> content (w_db n') k = content (w_db n) k" by (simp_all add: node_rest_def)
qed

text \<open>A block that is refused on the way: the ledger in memory and in the database is what it was.\<close>

lemma height_key_ledger:
  assumes "height_key h k"
  shows "ledger_key k"
proof -
  have "take 2 (take 10 k) \<in> {AccountsDBPrefix, StakingAccountsDBPrefix}"
    using assms by (auto simp: height_key_def simp del: take_take)
  then show ?thesis by (auto simp: ledger_key_def)
qed

lemma node_at_height_transfer:
  assumes "rocksdb (ne_kv N) content" and "contracts_frame N content" and "node_transfer N newBlock lastBlock tree n = (r, n')"
  shows "at_height content h (w_db n') = at_height content h (w_db n)"
  using node_transfer_frame(3) [OF assms] height_key_ledger by (auto simp: at_height_def)

lemma apply_block_eq:
  "apply_block N newBlock lastBlock tree newHeight n = (case transfer_store N newBlock lastBlock tree n of
     (Ok bl, n1) \<Rightarrow> Some (sbind (commit_block N bl newHeight) (\<lambda>_. sret True) n1)
   | (Err e, n1) \<Rightarrow> pbind (ResetAccountsAndBlocksSync N (bh_Height (GetHeader lastBlock))) (\<lambda>_. pdo (sret False)) n1
   | (Panic, n1) \<Rightarrow> Some (Panic, n1))"
  by (simp add: apply_block_def pbind_pdo scatch_def pdo_def split: prod.split result.split)

lemma transfer_store_cases:
  assumes "rocksdb (ne_kv N) content"
  shows "transfer_store N newBlock lastBlock tree n = (case node_transfer N newBlock lastBlock tree n of
     (Ok bl, n1) \<Rightarrow> (Ok bl, n1\<lparr>w_db := snd (StoreBlock (ne_kv N) bl (w_db n1))\<rparr>)
   | (Err e, n1) \<Rightarrow> (Err e, n1) | (Panic, n1) \<Rightarrow> (Panic, n1))"
proof (cases "node_transfer N newBlock lastBlock tree n")
  case (Pair r n1)
  show ?thesis
  proof (cases r)
    case (Ok bl)
    obtain d where "StoreBlock (ne_kv N) bl (w_db n1) = (Ok (), d)"
      using rocksdb.StoreBlock_run [OF assms, of bl "w_db n1"] by blast
    then show ?thesis by (simp add: transfer_store_def sbind_def zoom_def sret_def Pair Ok)
  qed (simp_all add: transfer_store_def sbind_def Pair)
qed

lemma apply_block_refused:
  assumes "rocksdb (ne_kv N) content" and "contracts_frame N content"
    and "committed (content (w_db n)) h l" and "storable l" and "staking_size n = 256"
    and "bh_Height (GetHeader lastBlock) = h" and "0 \<le> sint h"
    and "apply_block N newBlock lastBlock tree newHeight n = Some (r, n')" and "r \<noteq> Panic" and "r \<noteq> Ok True"
  shows "ledger_mem n' = l" and "at_height content h (w_db n') = at_height content h (w_db n)"
proof -
  have commits: "fst (commit_block N bl newHeight n1) = Ok () \<or> fst (commit_block N bl newHeight n1) = Panic" for bl n1
    by (auto simp: commit_block_def effect_defs split: prod.splits result.splits)
  obtain e n1 where run: "node_transfer N newBlock lastBlock tree n = (Err e, n1)"
    and reset: "pbind (ResetAccountsAndBlocksSync N h) (\<lambda>_. pdo (sret False)) n1 = Some (r, n')"
    using assms(6,8-10) commits by (auto simp: apply_block_eq transfer_store_cases [OF assms(1)] sbind_def sret_def
        split: prod.splits result.splits) (metis fst_conv result.distinct)+
  then obtain r' where r: "ResetAccountsAndBlocksSync N h n1 = Some (r', n')"
    by (auto simp: pbind_def pdo_def sret_def split: option.splits prod.splits result.splits)
  note F = node_transfer_frame [OF assms(1,2) run]
  note same = node_at_height_transfer [OF assms(1,2) run, of h]
  then show "at_height content h (w_db n') = at_height content h (w_db n)"
    using Reset_at_height [OF assms(1,7) r] by simp
  have "committed (content (w_db n1)) h l" using assms(3) committed_at_height [OF same] by simp
  moreover have "staking_size n1 = 256" using F(1) assms(5) by simp
  ultimately show "ledger_mem n' = l" using Reset_ledger [OF assms(1) _ assms(4) _ assms(7) r] by blast
qed

text \<open>A block that is accepted: it is stored, and so is the ledger at its height.\<close>

definition off_staking :: "('d \<Rightarrow> bytes \<Rightarrow> bytes option) \<Rightarrow> 'd \<Rightarrow> bytes \<Rightarrow> bytes option" where
  "off_staking content d = (\<lambda>k. if take 2 k = StakingAccountsDBPrefix then None else content d k)"

lemma StoreStakingAccounts_off_staking:
  assumes "rocksdb K content"
  shows "keeps (off_staking content) (StoreStakingAccounts K h s)"
proof -
  have "keeps (off_staking content) (DB_Put K (staking_key h i) v)" for i v
    using rocksdb.DB_Put_Ok [OF assms, of "staking_key h i" v]
    by (auto simp: keeps_def off_staking_def staking_key_def)
  then show ?thesis unfolding StoreStakingAccounts_def store_staking_def by (intro effects)
qed

lemma off_stakingD: "off_staking content d' = off_staking content d \<Longrightarrow> take 2 k \<noteq> StakingAccountsDBPrefix \<Longrightarrow>
    content d' k = content d k"
  by (metis off_staking_def)

lemma commit_block_run:
  assumes "rocksdb (ne_kv N) content" and "commit_block N bl newHeight n = (Ok (), n')"
    and "bh_Height (GetHeader bl) = h" and "0 \<le> sint h"
  shows "ledger_mem n' = ledger_mem n" and "n_height n' = newHeight"
    and "storable (ledger_mem n) \<Longrightarrow> committed (content (w_db n')) h (ledger_mem n)"
    and "take 2 k \<notin> {AccountsDBPrefix, StakingAccountsDBPrefix} \<Longrightarrow> content (w_db n') k = content (w_db n) k"
proof -
  let ?ak = "AccountsDBPrefix @ GetByteInt64 h"
  obtain d1 where d1: "DB_Put (ne_kv N) ?ak (AccountsType_Marshal (w_accounts n)) (w_db n) = (Ok (), d1)"
    "content d1 = (content (w_db n))(?ak \<mapsto> AccountsType_Marshal (w_accounts n))"
    using rocksdb.DB_Put_run [OF assms(1), of ?ak] by auto
  obtain r d2 where d2: "StoreStakingAccounts (ne_kv N) h (w_staking n) d1 = (r, d2)" by fastforce
  have n': "n' = n\<lparr>w_db := d2, n_height := newHeight\<rparr>"
    using assms(2-4) d1(1) d2
    by (cases r) (auto simp: commit_block_def store_accounts_def store_staking_accounts_def StoreAccounts_def effect_defs)
  have off: "content d2 k = content d1 k" if "take 2 k \<noteq> StakingAccountsDBPrefix" for k
    using keepsD [OF StoreStakingAccounts_off_staking [OF assms(1)] d2] that by (rule off_stakingD)
  show "ledger_mem n' = ledger_mem n" "n_height n' = newHeight" by (simp_all add: n' ledger_mem_def)
  show "content (w_db n') k = content (w_db n) k" if "take 2 k \<notin> {AccountsDBPrefix, StakingAccountsDBPrefix}"
    using that off [of k] d1(2) by (auto simp: n')
  show "committed (content (w_db n')) h (ledger_mem n)" if "storable (ledger_mem n)"
    using rocksdb.StoreStakingAccounts_content [OF assms(1), of "w_staking n" h d1] that d2 off [of ?ak] d1(2)
    by (auto simp: committed_def ledger_mem_def storable_def n')
qed

lemma StoreStakingAccounts_at_height:
  assumes "rocksdb K content" and "h' \<noteq> h"
  shows "keeps (at_height content h) (StoreStakingAccounts K h' s)"
proof -
  have "keeps (at_height content h) (DB_Put K (staking_key h' i) v)" for i v
    using rocksdb.DB_Put_Ok [OF assms(1), of "staking_key h' i" v] assms(2)
    by (auto simp: keeps_def at_height_def staking_key_def)
  then show ?thesis unfolding StoreStakingAccounts_def store_staking_def by (intro effects)
qed

lemma put_at_height:
  assumes "rocksdb K content" and "\<not> height_key h k" and "k \<noteq> []"
  shows "keeps (at_height content h) (DB_Put K k v)"
  using rocksdb.DB_Put_Ok [OF assms(1,3), of v] assms(2) by (auto simp: keeps_def at_height_def)

lemma commit_block_at_height:
  assumes "rocksdb (ne_kv N) content" and "bh_Height (GetHeader bl) = h'" and "h' \<noteq> h" and "0 \<le> sint h'"
  shows "keeps (node_at_height content h) (commit_block N bl newHeight)"
proof -
  have "keeps (at_height content h) (StoreAccounts (ne_kv N) c h' acs)" for c acs
    using put_at_height [OF assms(1), of h "AccountsDBPrefix @ GetByteInt64 h'"] assms(3,4)
    by (simp add: keeps_def StoreAccounts_def)
  then show ?thesis
    unfolding commit_block_def store_accounts_def store_staking_accounts_def assms(2)
    by (auto intro!: effects node_at_height_on_db StoreStakingAccounts_at_height [OF assms(1,3)] split: prod.split)
qed

lemma StoreBlock_at_height:
  assumes "rocksdb K content"
  shows "at_height content h (snd (StoreBlock K bl d)) = at_height content h d"
proof -
  obtain d' where "StoreBlock K bl d = (Ok (), d')"
    "content d' = (content d)(BlocksDBPrefix @ BlockHash bl \<mapsto> Block_GetBytes bl,
      BlockByHeightDBPrefix @ GetByteInt64 (bh_Height (GetHeader bl)) \<mapsto> BlockHash bl)"
    by (rule rocksdb.StoreBlock_run [OF assms])
  then show ?thesis by (auto simp: at_height_def)
qed

text \<open>A well-formed ledger can always be written.\<close>

lemma marshal_ok: "\<forall>(k, a) \<in> set m. sa_ok k a \<Longrightarrow> \<exists>b. StakingAccountsType_Marshal m = Ok b"
proof -
  have "\<exists>b. marshal_entries m = Ok b" if "\<forall>(k, a) \<in> set m. sa_ok k a" for m
    using that by (induction m rule: marshal_entries.induct)
      (auto simp: StakingAccount_Marshal_def lock_triples_def sa_ok_def)
  then show "\<forall>(k, a) \<in> set m. sa_ok k a \<Longrightarrow> ?thesis" by (fastforce simp: StakingAccountsType_Marshal_def)
qed

lemma commit_block_returns:
  assumes "rocksdb (ne_kv N) content" and "staking_ok (w_staking n)"
  shows "\<exists>n'. commit_block N bl newHeight n = (Ok (), n')"
proof -
  let ?s = "w_staking n" and ?h = "bh_Height (GetHeader bl)"
  define enc where "enc i = (case StakingAccountsType_Marshal (?s ! i) of Ok b \<Rightarrow> b | _ \<Rightarrow> [])" for i
  have "staking_at (int i) ?s = Ok (?s ! i) \<and> StakingAccountsType_Marshal (?s ! i) = Ok (enc i)" if "i \<in> set [0..<256]" for i
  proof -
    have "?s ! i \<in> set ?s" using that assms(2) by (simp add: staking_ok_def)
    with assms(2) have "\<forall>(k, a) \<in> set (?s ! i). sa_ok k a" by (auto simp: staking_ok_def)
    from marshal_ok [OF this] show ?thesis using that assms(2) by (auto simp: enc_def staking_at_def staking_ok_def)
  qed
  then have "\<exists>d'. StoreStakingAccounts (ne_kv N) ?h ?s d = (Ok (), d')" for d
    using rocksdb.store_staking_loop [OF assms(1), of "[0..<256]" ?s enc ?h d] by (auto simp: StoreStakingAccounts_def atLeast0LessThan)
  then obtain d2 where d2: "StoreStakingAccounts (ne_kv N) ?h ?s d = (Ok (), d2 d)" for d by metis
  obtain d1 where "StoreAccounts (ne_kv N) (n_height n) ?h (w_accounts n) (w_db n) = (Ok (), d1)"
    using rocksdb.DB_Put_run [OF assms(1), of "AccountsDBPrefix @ GetByteInt64 (if sint ?h < 0 then n_height n else ?h)"]
    by (auto simp: StoreAccounts_def Let_def simp del: db_prefixes) (metis append_is_Nil_conv db_prefixes(1) list.distinct(1))
  then show ?thesis
    by (simp add: commit_block_def store_accounts_def store_staking_accounts_def effect_defs d2)
qed

lemma apply_block_accepted:
  assumes "rocksdb (ne_kv N) content" and "0 \<le> sint (bh_Height (GetHeader newBlock))"
    and "apply_block N newBlock lastBlock tree newHeight n = Some (Ok True, n')"
  obtains bl n1 where "node_transfer N newBlock lastBlock tree n = (Ok bl, n1)"
    and "GetHeader bl = GetHeader newBlock" and "BlockHash bl = BlockHash newBlock"
    and "ledger_mem n' = ledger_mem n1" and "n_height n' = newHeight"
    and "content (w_db n') (BlockByHeightDBPrefix @ GetByteInt64 (bh_Height (GetHeader newBlock))) = Some (BlockHash bl)"
    and "content (w_db n') (BlocksDBPrefix @ BlockHash bl) = Some (Block_GetBytes bl)"
    and "storable (ledger_mem n') \<Longrightarrow> committed (content (w_db n')) (bh_Height (GetHeader newBlock)) (ledger_mem n')"
    and "\<And>h. h \<noteq> bh_Height (GetHeader newBlock) \<Longrightarrow> at_height content h (w_db n') = at_height content h (w_db n1)"
proof -
  let ?h = "bh_Height (GetHeader newBlock)"
  obtain bl n1 where run: "node_transfer N newBlock lastBlock tree n = (Ok bl, n1)"
    and commit: "commit_block N bl newHeight (n1\<lparr>w_db := snd (StoreBlock (ne_kv N) bl (w_db n1))\<rparr>) = (Ok (), n')"
    using assms(3) by (auto simp: apply_block_eq transfer_store_cases [OF assms(1)] sbind_def sret_def pbind_def pdo_def
        split: prod.splits result.splits option.splits)
  obtain reward fee where bl: "bl = newBlock\<lparr>BlockFee := fee\<rparr>"
    using run unfolding node_transfer_eq by (auto elim!: CheckBlockAndTransferFunds_Ok)
  obtain d where d: "StoreBlock (ne_kv N) bl (w_db n1) = (Ok (), d)"
    "content d = (content (w_db n1))(BlocksDBPrefix @ BlockHash bl \<mapsto> Block_GetBytes bl,
      BlockByHeightDBPrefix @ GetByteInt64 (bh_Height (GetHeader bl)) \<mapsto> BlockHash bl)"
    by (rule rocksdb.StoreBlock_run [OF assms(1)])
  note C = commit_block_run [OF assms(1) commit, of ?h] bl assms(2)
  have old: "at_height content h (w_db n') = at_height content h (w_db n1)" if "h \<noteq> ?h" for h
    using keepsD [OF commit_block_at_height [OF assms(1), of bl ?h h] commit] that bl assms(2)
      StoreBlock_at_height [OF assms(1)] by simp
  show thesis
    using run bl C d old by (intro that [of bl n1]) (auto simp: ledger_mem_def)
qed

lemma apply_block_completes:
  assumes "rocksdb (ne_kv N) content" and "\<not> n_syncing n" and "ledger_ok n"
    and "contracts_ok (env_at N n) (ne_contracts N) n"
    and "node_transfer N newBlock lastBlock tree n = (Ok bl, n1)"
  shows "\<exists>n'. apply_block N newBlock lastBlock tree newHeight n = Some (Ok True, n')"
proof -
  have "staking_ok (w_staking n1)"
    using accepted_block_balance [OF _ _ assms(3,4) node_encryption_keeps(2,1) assms(5) [unfolded node_transfer_eq], of content]
      assms(1,2) by auto
  then obtain n' where "commit_block N bl newHeight (n1\<lparr>w_db := snd (StoreBlock (ne_kv N) bl (w_db n1))\<rparr>) = (Ok (), n')"
    using commit_block_returns [OF assms(1)] by fastforce
  then show ?thesis
    by (simp add: apply_block_eq transfer_store_cases [OF assms(1)] assms(5) sbind_def sret_def)
qed

section \<open>A reset returns\<close>

text \<open>
  The searches end as long as each of the five tables misses a height, which a removal cannot change.
\<close>

definition height_keys :: "(i64 \<Rightarrow> bytes) set" where
  "height_keys = {\<lambda>h. AccountsDBPrefix @ GetByteInt64 h, \<lambda>h. StakingAccountsDBPrefix @ GetByteInt64 h @ [1],
     \<lambda>h. DexAccountsDBPrefix @ GetByteInt64 h, \<lambda>h. BlockByHeightDBPrefix @ GetByteInt64 h,
     \<lambda>h. RootHashMerkleTreeDBPrefix @ GetByteInt64 h}"

definition heights_missing :: "(bytes \<Rightarrow> bytes option) \<Rightarrow> bool" where
  "heights_missing c \<longleftrightarrow> (\<forall>mk \<in> height_keys. \<exists>h. c (mk h) = None)"

lemma heights_missing_mono:
  "heights_missing c \<Longrightarrow> (\<And>k. c k = None \<Longrightarrow> c' k = None) \<Longrightarrow> heights_missing c'"
  unfolding heights_missing_def by blast

abbreviation node_missing :: "('d \<Rightarrow> bytes \<Rightarrow> bytes option) \<Rightarrow> 'd node \<Rightarrow> bool" where
  "node_missing content \<equiv> \<lambda>n. heights_missing (content (w_db n))"

lemma delete_missing:
  assumes "rocksdb K content"
  shows "preserves (\<lambda>d. heights_missing (content d)) (DB_Delete K k)"
  using rocksdb.DB_Delete_Ok [OF assms, of k]
  by (cases "k = []") (auto simp: preserves_def DB_Delete_def elim!: heights_missing_mono)

lemma removals_missing:
  assumes "rocksdb K content"
  defines "I \<equiv> \<lambda>d. heights_missing (content d)"
  shows "preserves I (RemoveBlockFromDB K i)" "preserves I (RemoveAccountsFromDB K i)"
    "preserves I (RemoveStakingAccountsFromDB K i)" "preserves I (RemoveDexAccountsFromDB K i)"
    "preserves I (RemoveMerkleTrieFromDB K i)"
proof -
  have del: "preserves I (DB_Delete K k)" for k unfolding I_def by (rule delete_missing [OF assms(1)])
  have "preserves I (remove_staking K q is)" for q "is"
    by (induction "is" arbitrary: q) (auto simp: Let_def intro!: effects del)
  then show "preserves I (RemoveStakingAccountsFromDB K i)" by (simp add: RemoveStakingAccountsFromDB_def)
  have "RemoveAccountsFromDB K i = DB_Delete K (AccountsDBPrefix @ GetByteInt64 i)"
    by (rule ext) (simp add: RemoveAccountsFromDB_def)
  then show "preserves I (RemoveAccountsFromDB K i)" by (simp add: del)
  show "preserves I (RemoveBlockFromDB K i)" "preserves I (RemoveDexAccountsFromDB K i)" "preserves I (RemoveMerkleTrieFromDB K i)"
    unfolding RemoveBlockFromDB_def RemoveDexAccountsFromDB_def RemoveMerkleTrieFromDB_def by (intro effects del)+
qed

lemma remove_down_missing:
  assumes "\<And>i. preserves (\<lambda>d. heights_missing (content d)) (f i)"
  shows "preserves (node_missing content) (remove_down f hi h)"
  unfolding remove_down_def
  by (intro effects preserves_zoom [where J = "\<lambda>d. heights_missing (content d)"] assms) simp_all

lemma last_height_returns:
  assumes "rocksdb (ne_kv N) content" and "\<And>K d. f K d = last_height_loop K mk 0 d" and "mk \<in> height_keys"
  shows "returns (node_missing content) (last_height f N)"
  unfolding returns_def
proof (intro allI impI)
  fix n assume "node_missing content n"
  then obtain h where "content (w_db n) (mk h) = None" using assms(3) by (auto simp: heights_missing_def)
  moreover have "mk i \<noteq> []" for i using assms(3) by (auto simp: height_keys_def)
  ultimately obtain m where "f (ne_kv N) (w_db n) = Some (Ok (word_of_nat m - 1, None))"
    using rocksdb.last_height_loop_first [OF assms(1)] assms(2) by metis
  then show "\<exists>r n'. last_height f N n = Some (r, n') \<and> node_missing content n'"
    using \<open>node_missing content n\<close> by (simp add: last_height_def)
qed

lemma last_heights_return:
  assumes "rocksdb (ne_kv N) content"
  shows "returns (node_missing content) (last_height LastHeightStoredInAccounts N)"
    "returns (node_missing content) (last_height LastHeightStoredInStakingAccounts N)"
    "returns (node_missing content) (last_height LastHeightStoredInBlocks N)"
    "returns (node_missing content) (last_height LastHeightStoredInDexAccounts N)"
    "returns (node_missing content) (last_height LastHeightStoredInMerleTrie N)"
  by (rule last_height_returns [OF assms],
      rule LastHeightStoredInAccounts_def LastHeightStoredInStakingAccounts_def LastHeightStoredInBlocks_def
        LastHeightStoredInDexAccounts_def LastHeightStoredInMerleTrie_def,
      simp add: height_keys_def)+

lemma loads_return:
  assumes "0 \<le> sint h"
  shows "returns (node_missing content) (load_accounts N h)" "returns (node_missing content) (load_staking_accounts N h)"
  using assms by (auto simp: returns_def load_accounts_def load_staking_accounts_def LoadAccounts_def
      LoadStakingAccounts_def split: result.split option.split prod.split)

lemma clear_above_returns:
  assumes "rocksdb (ne_kv N) content"
  shows "returns (node_missing content) (clear_above N h)"
  unfolding clear_above_def RevertVMToBlockHeight_def
  by (intro effects last_heights_return remove_down_missing removals_missing preserves_zoomI preserves_supd assms) simp_all

lemma Reset_returns:
  assumes "rocksdb (ne_kv N) content" and "heights_missing (content (w_db n))"
  shows "\<exists>r n'. ResetAccountsAndBlocksSync N h n = Some (r, n')"
proof -
  have "\<exists>r n'. pvoid (reset_to N h) n = Some (r, n')" if "0 \<le> sint h" for h
  proof -
    have "returns (node_missing content) (reset_to N h)"
      unfolding reset_to_def using assms(1) that by (intro effects clear_above_returns loads_return)
    then obtain r n' where "reset_to N h n = Some (r, n')" using assms(2) by (auto simp: returns_def)
    then show ?thesis by (cases r) (simp_all add: pvoid_def)
  qed
  then show ?thesis by (simp add: ResetAccountsAndBlocksSync_def)
qed

section \<open>A block message\<close>

text \<open>What a message for height \<open>h\<close> leaves, where \<open>l\<close> is the ledger before it.\<close>

definition chain_inv :: "('d \<Rightarrow> bytes \<Rightarrow> bytes option) \<Rightarrow> i64 \<Rightarrow> AccountsType \<times> staking \<Rightarrow> 'd node \<Rightarrow> bool" where
  "chain_inv content h l n \<longleftrightarrow> committed (content (w_db n)) h l \<and> staking_size n = 256 \<and>
     (ledger_mem n = l \<or>
      n_height n = h + 1 \<and> (storable (ledger_mem n) \<longrightarrow> committed (content (w_db n)) (h + 1) (ledger_mem n)))"

definition node_ledger :: "'d node \<Rightarrow> AccountsType \<times> staking \<times> 'd \<times> i64" where
  "node_ledger n = (w_accounts n, w_staking n, w_db n, n_height n)"

lemma chain_inv_frame:
  assumes "keeps node_ledger m"
  shows "preserves (chain_inv content h l) m"
  using assms unfolding keeps_def preserves_def chain_inv_def node_ledger_def ledger_mem_def staking_size_def
  by (metis prod.inject)

lemma node_ledger_frames [effects]:
  "keeps node_ledger (node_CheckBaseBlock N newBlock lastBlock)" "keeps node_ledger (distrust_peer N addr)"
  "keeps node_ledger (SendGT N addr hs t)"
proof -
  show "keeps node_ledger (node_CheckBaseBlock N newBlock lastBlock)"
    unfolding node_CheckBaseBlock_def by (auto intro!: effects keeps_zoom simp: node_ledger_def split: prod.split)
  show "keeps node_ledger (distrust_peer N addr)" "keeps node_ledger (SendGT N addr hs t)"
    by (simp_all add: keeps_def node_ledger_def distrust_peer_def at_peers_def SendGT_def Send_def effect_defs)
qed

lemma apply_block_inv:
  assumes "rocksdb (ne_kv N) content" and "contracts_frame N content" and "storable l"
    and "bh_Height (GetHeader lastBlock) = h" and "0 \<le> sint h" and "sint h < 2 ^ 63 - 1"
    and "bh_Height (GetHeader newBlock) = h + 1"
  shows "pinv (chain_inv content h l) (apply_block N newBlock lastBlock tree (h + 1))"
  unfolding pinv_def
proof (intro allI impI)
  fix n r n' assume n: "chain_inv content h l n"
    and run: "apply_block N newBlock lastBlock tree (h + 1) n = Some (r, n')" and r: "r \<noteq> Panic"
  have h: "0 \<le> sint (h + 1)" "h + 1 \<noteq> h" using assms(5,6) by (simp_all add: sint_i64_add)
  have keep: "committed (content (w_db n')) h l" if "at_height content h (w_db n') = at_height content h (w_db n)"
    using committed_at_height [OF that] n by (simp add: chain_inv_def)
  show "chain_inv content h l n'"
  proof (cases "r = Ok True")
    case True
    obtain bl n1 where 1: "node_transfer N newBlock lastBlock tree n = (Ok bl, n1)" "ledger_mem n' = ledger_mem n1"
      "n_height n' = h + 1" "storable (ledger_mem n') \<Longrightarrow> committed (content (w_db n')) (h + 1) (ledger_mem n')"
      "at_height content h (w_db n') = at_height content h (w_db n)"
    proof -
      from run True have "apply_block N newBlock lastBlock tree (h + 1) n = Some (Ok True, n')" by simp
      from apply_block_accepted [OF assms(1) _ this, unfolded assms(7), OF h(1)] show thesis
        using that node_at_height_transfer [OF assms(1,2)] h(2) by metis
    qed
    then have "staking_size n' = 256"
      using node_transfer_frame(1) [OF assms(1,2) 1(1)] n by (simp add: chain_inv_def ledger_mem_def staking_size_def)
    then show ?thesis using 1 keep by (simp add: chain_inv_def)
  next
    case False
    note R = apply_block_refused [OF assms(1,2) _ assms(3) _ assms(4,5) run r False]
    show ?thesis using R n keep storable_size [of n'] assms(3) by (simp add: chain_inv_def)
  qed
qed

lemma block_entry_inv:
  assumes "rocksdb (ne_kv N) content" and "contracts_frame N content" and "storable l"
    and "bh_Height (GetHeader lastBlock) = h" and "0 \<le> sint h" and "sint h < 2 ^ 63 - 1"
  shows "pinv (chain_inv content h l) (block_entry N addr h lastBlock v)"
  unfolding block_entry_def
  by (auto intro!: effects chain_inv_frame apply_block_inv [OF assms] split: result.split)

lemma block_entries_inv:
  assumes "rocksdb (ne_kv N) content" and "contracts_frame N content" and "storable l"
    and "bh_Height (GetHeader lastBlock) = h" and "0 \<le> sint h" and "sint h < 2 ^ 63 - 1"
  shows "pinv (chain_inv content h l) (block_entries N addr h lastBlock es)"
proof (induction es)
  case (Cons e es)
  then show ?case by (cases e) (auto intro!: effects block_entry_inv [OF assms])
qed (simp add: effects)

section \<open>Properties\<close>




text \<open>A node that holds the tables of the sample, with an empty environment.\<close>

definition sample_wallet :: Wallet where
  "sample_wallet = \<lparr>wl_Address = sample_operator, wl_Address2 = sample_operator, wl_MainAddress = sample_operator,
     wl_PublicKey2 = zero_PubKey, signer = (\<lambda>_. Ok []), signer2 = (\<lambda>_. Ok [])\<rparr>"

definition sample_nenv :: "memdb nenv" where
  "sample_nenv = \<lparr>ne_env = sample_env, ne_oqs = sample_oqs, ne_log2 = (\<lambda>_. NInf), ne_contracts = (\<lambda>_. sret True),
     ne_newkey = (\<lambda>_ _. sret ()), ne_chain = 23, ne_late = False, ne_busy = False,
     ne_wallet = sample_wallet, ne_delegated = sample_operator, ne_rewardPercentage = 10, ne_price = 0, ne_rnd = 0, ne_pick = (\<lambda>_. 0),
     CurrentHeightOfNetwork = 23\<rparr>"

definition sample_node :: "memdb node" where
  "sample_node = world.extend sample_world \<lparr>n_ec = initEncryptionConfigInstance, n_voting = sample_votes,
     n_oracles = \<lparr>PriceOracles = [], RandOracles = []\<rparr>, n_height = 6, n_heightMax = 6, n_syncing = False,
     ShiftToPastInReset = 1, n_State = CreateStateDB, n_dex = [], n_peers = init_peers [1, 2, 3, 4], EncryptionOptData = [], LastRepliedIP = zero_ip, n_started = [], n_sent = []\<rparr>"

interpretation sample: node_db sample_nenv map_of
  by (simp add: node_db_def sample_nenv_def ne_kv_def memdb.rocksdb_axioms)

lemma sample_contracts_frame: "contracts_frame sample_nenv map_of"
  by (simp add: contracts_frame_def sample_nenv_def effects)

lemma sample_node_tables: "sample_tables sample_node"
  using sample_world_tables by (simp add: sample_node_def sample_tables_def world.defs)

lemma sample_env_at: "n_ec n = initEncryptionConfigInstance \<Longrightarrow> \<not> n_syncing n \<Longrightarrow> env_at sample_nenv n = sample_env"
  by (simp add: env_at_def sample_nenv_def sample_env_def)


text \<open>The same node with its ledger and the sample block stored for height 7.\<close>

lemma sample_storable: "storable (ledger_mem sample_node)"
proof -
  have "staking_entry_ok (replicate 20 6, sample_stake)"
    by (simp add: staking_entry_ok_def staking_storable_def sample_stake_def zero_StakingAccount_def
        StakingAccount_Marshal_def lock_triples_def)
  then have "staking_map_storable m" if "m \<in> set ((replicate 256 [])[5 := [(replicate 20 6, sample_stake)]])" for m
    using set_update_subset_insert [THEN subsetD, OF that] by (auto simp: staking_map_storable_def)
  then show ?thesis
    using sample_node_tables by (simp add: storable_def ledger_mem_def sample_tables_def accounts_storable_def staking_storable_all_def)
qed

lemma stored_sample:
  obtains n where "committed (map_of (w_db n)) 7 (ledger_mem n)" and "storable (ledger_mem n)"
    and "heights_missing (map_of (w_db n))" and "n_ec n = initEncryptionConfigInstance"
    and "LoadBlock mem_kv initEncryptionConfigInstance 7 (w_db n) = Ok (Block_norm sample_block)"
proof -
  have K: "ne_kv sample_nenv = mem_kv" by (simp add: sample_nenv_def ne_kv_def)
  have h: "bh_Height (GetHeader sample_block) = 7" by (simp add: sample_block_def)
  obtain d1 where d1: "StoreBlock mem_kv sample_block (w_db sample_node) = (Ok (), d1)"
    "map_of d1 = (map_of (w_db sample_node))(BlocksDBPrefix @ BlockHash sample_block \<mapsto> Block_GetBytes sample_block,
      BlockByHeightDBPrefix @ GetByteInt64 7 \<mapsto> BlockHash sample_block)"
    using memdb.StoreBlock_run [of sample_block "w_db sample_node"] h by metis
  let ?n = "sample_node\<lparr>w_db := d1\<rparr>"
  have "staking_ok (w_staking ?n)"
    using sample_tables_ok [OF sample_node_tables] by (simp add: ledger_ok_def ledger_at_def)
  then obtain n where n: "commit_block sample_nenv sample_block 7 ?n = (Ok (), n)"
    using commit_block_returns [OF sample.rocksdb_axioms] by blast
  note C = commit_block_run [OF sample.rocksdb_axioms n h, simplified]
  have mem: "ledger_mem n = ledger_mem sample_node" "ledger_mem ?n = ledger_mem sample_node" using C(1) by (simp_all add: ledger_mem_def)
  have keys: "w_db sample_node = sample_keys" using sample_node_tables by (simp add: sample_tables_def)
  have "keeps (node_at_height map_of 0) (commit_block sample_nenv sample_block 7)"
    by (rule commit_block_at_height [OF sample.rocksdb_axioms h]) simp_all
  then have "at_height map_of 0 (w_db n) = at_height map_of 0 d1" using n by (auto simp: keeps_def dest!: spec [of _ ?n])
  then have zero: "map_of (w_db n) k = map_of d1 k" if "height_key 0 k" for k
    using that by (rule at_heightD)
  have none: "map_of sample_keys (AccountsDBPrefix @ GetByteInt64 0) = None"
    "map_of sample_keys (StakingAccountsDBPrefix @ GetByteInt64 0 @ [1]) = None"
    "map_of sample_keys (DexAccountsDBPrefix @ GetByteInt64 0) = None"
    "map_of sample_keys (BlockByHeightDBPrefix @ GetByteInt64 0) = None"
    "map_of sample_keys (RootHashMerkleTreeDBPrefix @ GetByteInt64 0) = None" by code_simp+
  have "map_of (w_db n) (mk 0) = None" if "mk \<in> height_keys" for mk
    using that none zero [of "mk 0"] C(4) [of "mk 0"] d1(2) keys by (auto simp: height_keys_def)
  then have "heights_missing (map_of (w_db n))" by (auto simp: heights_missing_def)
  moreover have "LoadBlock mem_kv initEncryptionConfigInstance 7 (w_db n) = Ok (Block_norm sample_block)"
    using C(4) [of "BlockByHeightDBPrefix @ GetByteInt64 7"] C(4) [of "BlocksDBPrefix @ BlockHash sample_block"] d1(2)
    by (simp add: LoadBlock_def memdb.DB_Get_content Block_GetFromBytes_GetBytes [OF sample_block_ok])
  moreover have "n_ec n = n_ec ?n"
    using n by (rule keepsD [rotated]) (auto intro!: effects keeps_zoom split: prod.split
        simp: commit_block_def store_accounts_def store_staking_accounts_def keeps_def [of _ "supd _"] supd_def)
  then have "n_ec n = initEncryptionConfigInstance" by (simp add: sample_node_def world.defs)
  ultimately show thesis using C(3) sample_storable mem by (intro that [of n]) auto
qed


text \<open>A message with a block that cannot be decoded.\<close>

definition broken_message :: TransactionsMessage where
  "broken_message = \<lparr>tm_BaseMessage = \<lparr>Head = string_bytes ''bl'', ChainID = 23\<rparr>, TransactionsBytes = [([78, 0], [[1, 2, 3]])]\<rparr>"


end
