(* ===== verification/Services.thy ===== *)
theory Services
  imports Node
begin

text \<open>
  The services that answer messages: the creation and the broadcast of blocks of
  \<^verbatim>\<open>src/services/blockCreation.go\<close>, the nonce service of \<^verbatim>\<open>src/services/nonceService\<close> and the
  transaction service of \<^verbatim>\<open>src/services/transactionServices\<close>.  Goroutines that are started are recorded
  in the node, messages for the channels are appended to \<open>n_sent\<close>; the loops around the handlers, which
  wait for the clock and the channels, are not modelled.

  The lemmas: the block that a node creates passes its own checks; what it broadcasts, a receiver reads
  back; a transaction message adds only transactions that are neither pooled nor stored.
\<close>

section \<open>Handlers\<close>

text \<open>The deferred \<^verbatim>\<open>recover\<close>: the handler ends, with what was done until the panic.\<close>

definition precover :: "('s, unit) pop \<Rightarrow> ('s, unit) pop" where
  "precover m s = (case m s of None \<Rightarrow> None | Some (_, s') \<Rightarrow> Some (Ok (), s'))"

text \<open>The first element of an entry of the message; a missing entry is an empty slice.\<close>

definition first_of :: "topic \<Rightarrow> (topic, bytes list) gomap \<Rightarrow> bytes result" where
  "first_of tp m = (case mgetd [] m tp of [] \<Rightarrow> Panic | x # _ \<Rightarrow> Ok x)"

definition topic_of :: "string \<Rightarrow> topic" where
  "topic_of s = string_bytes s"

section \<open>Creation of a block\<close>

text \<open>The scheme bytes of the block: those of the nonce message, or those in force when it has none.\<close>

definition scheme_or_current :: "EncryptionConfig \<Rightarrow> bool \<Rightarrow> bytes \<Rightarrow> bytes" where
  "scheme_or_current ec primary enc =
     (if length enc = 0 then GenerateBytesFromParams (current_scheme ec primary) else enc)"

fun nonce_schemes ::
  "EncryptionConfig \<Rightarrow> i64 \<Rightarrow> Block \<Rightarrow> Transaction list \<Rightarrow> bytes \<times> bytes \<Rightarrow> (bytes \<times> bytes) result" where
  "nonce_schemes ec heightTransaction lastBlock [] encs = Ok encs"
| "nonce_schemes ec heightTransaction lastBlock (tx # txs) encs =
     (let opt = OptData (tx_Data tx) in
      rbind (rbind (slice opt 0 8) GetInt64FromByte) (\<lambda>heightLast.
      rbind (slice opt 8 40) (\<lambda>hashLast.
      if hashLast \<noteq> BlockHash lastBlock then Err ''last block hash and nonce hash do not match''
      else if heightTransaction \<noteq> heightLast + 1 then Err ''last block height and nonce height do not match''
      else
      rbind (rbind (slice_from opt 56) BytesWithLenToBytes) (\<lambda>(enc1, b).
      rbind (BytesWithLenToBytes b) (\<lambda>(enc2, _).
      nonce_schemes ec heightTransaction lastBlock txs
        (scheme_or_current ec True enc1, scheme_or_current ec False enc2))))))"

text \<open>The header before it is signed.\<close>

definition new_header :: "'d nenv \<Rightarrow> Transaction \<Rightarrow> Block \<Rightarrow> MerkleTree \<Rightarrow> bytes \<times> bytes \<Rightarrow> BaseHeader" where
  "new_header N tx lastBlock tree encs =
     (let sent = SendingTime (tx_Param tx) in
      \<lparr>PreviousHash = BlockHash lastBlock,
       Difficulty = AdjustDifficulty (Difficulty (GetHeader lastBlock)) (sent - BlockTimeStamp (bl_BaseBlock lastBlock)),
       bh_Height = tx_Height tx, bh_DelegatedAccount = ne_delegated N, OperatorAccount = wl_Address (ne_wallet N),
       RootMerkleTree = GetHashFromBytes (GetRootHash tree), Encryption1 = fst encs, Encryption2 = snd encs,
       bh_Signature = zero_Signature, SignatureMessage = GetByteInt64 sent\<rparr>)"

text \<open>The block around a signed header, with its hash.\<close>

definition seal_block :: "'d nenv \<Rightarrow> BaseHeader \<Rightarrow> i64 \<Rightarrow> i64 \<times> bytes \<Rightarrow> i64 \<times> bytes \<Rightarrow> hash list \<Rightarrow> Block" where
  "seal_block N bh supply price rnd txs =
     (let H = e_H256 (ne_env N);
          bb = \<lparr>bb_BaseHeader = bh, BlockHeaderHash = BaseHeader_CalcHash H bh, BlockTimeStamp = e_now (ne_env N),
            RewardPercentage = ne_rewardPercentage N, Supply = supply, PriceOracle = fst price, RandOracle = fst rnd,
            PriceOracleData = snd price, RandOracleData = snd rnd\<rparr>;
          bl = \<lparr>bl_BaseBlock = bb, TransactionsHashes = txs, BlockHash = EmptyHash, BlockFee = 0\<rparr>
      in bl\<lparr>BlockHash := CalcBlockHash H bl\<rparr>)"

definition CreateBlockFromNonceMessage ::
  "'d nenv \<Rightarrow> 'd node \<Rightarrow> Transaction list \<Rightarrow> Block \<Rightarrow> MerkleTree \<Rightarrow> hash list \<Rightarrow> Block result" where
  "CreateBlockFromNonceMessage N n nonceTx lastBlock merkleTrie txs =
     (case nonceTx of
        [] \<Rightarrow> Panic
      | tx # _ \<Rightarrow>
          let E = ne_env N; H = e_H256 E; height = tx_Height tx; lastSupply = Supply (bl_BaseBlock lastBlock);
              primary = GetNodeSignPrimary (n_ec n) (e_pref E) (e_coin E) height;
              totalStaked = GetStakedInAllDelegatedAccounts (w_staking n) in
          rbind (nonce_schemes (n_ec n) height lastBlock nonceTx ([], [])) (\<lambda>encs.
          let bh = new_header N tx lastBlock merkleTrie encs in
          rbind (BaseHeader_Sign H (n_ec n) (ne_wallet N) primary bh) (\<lambda>(sign, msg).
          case CalculatePriceOracle height totalStaked (n_oracles n) of (price, priceData, _) \<Rightarrow>
          rbind (CalculateRandOracle H height totalStaked (n_oracles n)) (\<lambda>(rnd, randData, _).
          Ok (seal_block N (bh\<lparr>bh_Signature := sign, SignatureMessage := msg\<rparr>) (lastSupply + GetReward lastSupply)
            (price, priceData) (rnd, randData) txs)))))"

definition GenerateBlockMessage :: "i16 \<Rightarrow> Block \<Rightarrow> TransactionsMessage" where
  "GenerateBlockMessage chain bl =
     \<lparr>tm_BaseMessage = \<lparr>Head = string_bytes ''bl'', ChainID = chain\<rparr>, TransactionsBytes = [([78, 0], [Block_GetBytes bl])]\<rparr>"

definition SendNonce :: "ip \<Rightarrow> bytes \<Rightarrow> ('d node, unit) op" where
  "SendNonce ip nb = supd (\<lambda>n. n\<lparr>n_sent := n_sent n @ [(NonceTopic, ip @ nb)]\<rparr>)"

fun broadcast :: "ip \<Rightarrow> bytes \<Rightarrow> bytes list \<Rightarrow> ('d node, unit) op" where
  "broadcast ip nb [] = sret ()"
| "broadcast ip nb (topicip # rest) =
     (let ip' = copy_into ip (drop 2 topicip) in sbind (SendNonce ip' nb) (\<lambda>_. broadcast ip' nb rest))"

definition BroadcastBlock :: "'d nenv \<Rightarrow> Block \<Rightarrow> ('d node, unit) op" where
  "BroadcastBlock N bl =
     sbind (sget (\<lambda>n. GetPeersConnected NonceTopic (n_peers n))) (\<lambda>peers.
     broadcast zero_ip (TransactionsMessage_GetBytes (GenerateBlockMessage (ne_chain N) bl)) (map fst peers))"

section \<open>The nonce service\<close>

definition ResetToDefaultEncryptionOptData :: "('d node, unit) op" where
  "ResetToDefaultEncryptionOptData =
     supd (\<lambda>n. n\<lparr>EncryptionOptData := BytesToLenAndBytes [] @ BytesToLenAndBytes []\<rparr>)"

definition SetEncryptionData :: "bytes \<Rightarrow> bytes \<Rightarrow> ('d node, unit) op" where
  "SetEncryptionData ne1 ne2 =
     supd (\<lambda>n. n\<lparr>EncryptionOptData := BytesToLenAndBytes ne1 @ BytesToLenAndBytes ne2\<rparr>)"

text \<open>\<^verbatim>\<open>Transaction.Verify\<close> on this node.\<close>

definition node_verify :: "'d nenv \<Rightarrow> 'd node \<Rightarrow> (Transaction, bool) op" where
  "node_verify N n = (let E = env_at N n in
     Transaction_Verify (e_kv E) (e_unjson E) (e_oqs_len E) (e_oqs_verify E) (e_H256 E) (e_ec E) (w_accounts n) (w_db n))"

text \<open>The second public key is sent along until it is registered.\<close>

definition nonce_pubkey :: "'d nenv \<Rightarrow> 'd node \<Rightarrow> bool \<Rightarrow> PubKey result" where
  "nonce_pubkey N n primary = (let E = env_at N n; w = ne_wallet N in
     if primary then Ok zero_PubKey
     else rbind (LoadTreeWithoutAddresses (e_kv E) (e_dec E) (wl_MainAddress w) (w_db n)) (\<lambda>root.
       rbind (IsAddressInTree (e_H256 E) \<lparr>at_Root = root, at_Addresses = [], at_MainAddress = zero_Address\<rparr> (wl_Address2 w)) (\<lambda>isAddr.
       Ok (if isAddr then zero_PubKey else wl_PublicKey2 w))))"

definition nonce_opt_data :: "'d nenv \<Rightarrow> 'd node \<Rightarrow> bytes result" where
  "nonce_opt_data N n = (let h = n_height n in
     rbind (case LoadHashOfBlock (ne_kv N) h (w_db n) of Ok b \<Rightarrow> Ok b | Err e \<Rightarrow> Ok EmptyHash | Panic \<Rightarrow> Panic) (\<lambda>lastBlockHash.
     Ok (GetByteInt64 h @ lastBlockHash @ GetByteInt64 (ne_price N) @ GetByteInt64 (ne_rnd N))))"

definition generateNonceMsg :: "'d nenv \<Rightarrow> topic \<Rightarrow> ('d node, TransactionsMessage) op" where
  "generateNonceMsg N tp =
     sbind (sget (\<lambda>n. (n_height n, GetNodeSignPrimary (n_ec n) (e_pref (ne_env N)) (e_coin (ne_env N)) (n_height n)))) (\<lambda>(h, primary).
     sbind (sread (nonce_opt_data N)) (\<lambda>opt.
     sbind (sget (\<lambda>n. AfterReset (n_voting n))) (\<lambda>after.
     sbind (if after then sbind ResetToDefaultEncryptionOptData (\<lambda>_. on_voting (supd (AfterReset_update (\<lambda>_. False))))
            else sret ()) (\<lambda>_.
     sbind (sread (\<lambda>n. nonce_pubkey N n primary)) (\<lambda>pubkey.
     sbind (sget (\<lambda>n. (EncryptionOptData n, n_ec n))) (\<lambda>(enc, ec).
     let tx = zero_Transaction\<lparr>tx_Data := zero_TxData\<lparr>Recipient := ne_delegated N, OptData := opt @ enc, Pubkey := pubkey\<rparr>,
           tx_Param := TxParam.ChainID_update (\<lambda>_. ne_chain N) (zero_TxParam\<lparr>Sender := wl_MainAddress (ne_wallet N),
             SendingTime := e_now (ne_env N), Nonce := 0\<rparr>),
           tx_Height := h + 1\<rparr>
     in sbind (slift (Transaction_Sign ec (ne_wallet N) primary (CalcHashAndSet (e_H256 (ne_env N)) tx))) (\<lambda>signed.
     sret \<lparr>tm_BaseMessage = \<lparr>Head = string_bytes ''nn'', ChainID = ne_chain N\<rparr>,
       TransactionsBytes = [(tp, [Transaction_GetBytes signed])]\<rparr>)))))))"

text \<open>The mutex is only tried.\<close>

definition sendNonceMsg :: "'d nenv \<Rightarrow> ip \<Rightarrow> topic \<Rightarrow> ('d node, unit) op" where
  "sendNonceMsg N ip tp =
     sbind (sget n_syncing) (\<lambda>syncing.
     if syncing then sret ()
     else sdrop (sbind (generateNonceMsg N tp) (\<lambda>m. Send N NonceTopic ip (TransactionsMessage_GetBytes m))))"

definition sendReply :: "'d nenv \<Rightarrow> ip \<Rightarrow> ('d node, unit) op" where
  "sendReply N addr =
     sbind (supd (\<lambda>n. n\<lparr>LastRepliedIP := addr\<rparr>)) (\<lambda>_.
     sdrop (sbind (generateNonceMsg N NonceTopic) (\<lambda>m. Send N NonceTopic addr (TransactionsMessage_GetBytes m))))"

text \<open>
  The reports and votes of a nonce message; what cannot be saved is logged.  Encryption bytes that cannot be read
  count as none.
\<close>

definition vote_bytes :: "bytes \<Rightarrow> bytes \<times> bytes" where
  "vote_bytes b = (case BytesWithLenToBytes b of Ok p \<Rightarrow> p | _ \<Rightarrow> ([], []))"

definition save_reports :: "bytes \<Rightarrow> i64 \<Rightarrow> Address \<Rightarrow> i64 \<Rightarrow> ('d node, unit) op" where
  "save_reports optData nonceHeight txDelAcc staked =
     sbind (slift (rbind (slice optData 0 8) GetInt64FromByte)) (\<lambda>price.
     sbind (on_oracles (sdrop (SavePriceOracle price nonceHeight txDelAcc staked))) (\<lambda>_.
     sbind (slift (rbind (slice optData 8 16) GetInt64FromByte)) (\<lambda>rnd.
     sbind (on_oracles (sdrop (SaveRandOracle rnd nonceHeight txDelAcc staked))) (\<lambda>_.
     sbind (slift (slice_from optData 16)) (\<lambda>b.
     let (v1, b2) = vote_bytes b; (v2, _) = vote_bytes b2 in
     sbind (on_voting (sdrop (SaveVotesEncryption1 v1 nonceHeight txDelAcc staked))) (\<lambda>_.
     on_voting (sdrop (SaveVotesEncryption2 v2 nonceHeight txDelAcc staked))))))))"

text \<open>The transactions for the next block, with the tree over them.\<close>

definition MaxTransactionsPerBlock :: nat where "MaxTransactionsPerBlock = 5000"

definition propose :: "'d nenv \<Rightarrow> Transaction \<Rightarrow> Block \<Rightarrow> ('d node, Block) op" where
  "propose N tx lastBlock =
     sbind (sget (\<lambda>n. map tx_Hash (PeekTransactions MaxTransactionsPerBlock (tx_Height tx) (PoolsTx n)))) (\<lambda>hashes.
     sbind (slift (BuildMerkleTree (e_H256 (ne_env N)) (replicate (length hashes) [] @ hashes))) (\<lambda>merkleTrie.
     sread (\<lambda>n. CreateBlockFromNonceMessage N n [tx] lastBlock merkleTrie hashes)))"

text \<open>A block whose proof holds is checked and broadcast.\<close>

definition offer :: "'d nenv \<Rightarrow> Block \<Rightarrow> Block \<Rightarrow> ('d node, unit) op" where
  "offer N newBlock lastBlock =
     sbind (slift (CheckProofOfSynergy (ne_log2 N) (bl_BaseBlock newBlock))) (\<lambda>ok.
     if \<not> ok then sret ()
     else sbind (sget (env_at N)) (\<lambda>E.
       sbind (scatch (CheckBlockTransfers E newBlock lastBlock)) (\<lambda>r. case r of
         Ok _ \<Rightarrow> BroadcastBlock N newBlock | Err e \<Rightarrow> sret () | Panic \<Rightarrow> slift Panic)))"

definition enough_staked :: "int \<Rightarrow> Address \<Rightarrow> staking \<Rightarrow> bool result" where
  "enough_staked n mainAddress s = rbind (GetStakedInDelegatedAccount n s) (\<lambda>(_, sumStaked, operationalAcc).
     Ok (\<not> (sint (f64_to_i64 sumStaked) < sint MinStakingForNode \<or> acc_Address operationalAcc \<noteq> addr_ByteValue mainAddress)))"

definition on_nonce :: "'d nenv \<Rightarrow> ip \<Rightarrow> TransactionsMessage \<Rightarrow> i64 \<Rightarrow> ('d node, unit) op" where
  "on_nonce N addr amsg h =
     sbind (sread (\<lambda>n. GetTransactionsFromBytes (e_H160 (ne_env N)) (n_ec n) (node_verify N n) amsg)) (\<lambda>txn.
     let tx0 = (case txn of [] \<Rightarrow> zero_Transaction | (_, v) # _ \<Rightarrow> hd v) in
     if sint (tx_Height tx0) < 1 \<or> tx_Height tx0 \<noteq> h + 1 then sret ()
     else
     sbind (sget (\<lambda>n. node_verify N n tx0)) (\<lambda>(r, transaction).
     sbind (slift r) (\<lambda>isValid.
     if \<not> isValid then distrust_peer N addr
     else
     let nonceHeight = tx_Height transaction; txDelAcc = Recipient (tx_Data transaction) in
     sbind (at_peers (NodeRegisterPeer addr)) (\<lambda>_.
     sbind (slift (IntDelegatedAccountFromAddress txDelAcc)) (\<lambda>(i, err).
     if err \<noteq> None then sret ()
     else
     sbind (slift (slice_from (OptData (tx_Data transaction)) 40)) (\<lambda>optData.
     sbind (sread (\<lambda>n. GetStakedInDelegatedAccount i (w_staking n))) (\<lambda>(_, staked, _).
     sbind (save_reports optData nonceHeight txDelAcc (f64_to_i64 staked)) (\<lambda>_.
     sbind (sread (\<lambda>n. enough_staked i (Sender (tx_Param transaction)) (w_staking n))) (\<lambda>enough.
     if \<not> enough then distrust_peer N addr
     else
     sbind (sread (\<lambda>n. LoadBlock (ne_kv N) (n_ec n) h (w_db n))) (\<lambda>lastBlock.
     sbind (propose N transaction lastBlock) (\<lambda>newBlock.
     offer N newBlock lastBlock)))))))))))"

definition nonce_OnMessage :: "'d nenv \<Rightarrow> ip \<Rightarrow> bytes \<Rightarrow> ('d node, unit) pop" where
  "nonce_OnMessage N addr m n =
     (if n_syncing n then Some (Ok (), n)
      else precover (
        pbind (pdo (slift (CheckValidMessage (ne_chain N) m))) (\<lambda>(isValid, amsg).
        if \<not> isValid then pdo (distrust_peer N addr)
        else
        pbind (pdo (at_peers (ValidRegisterPeer addr))) (\<lambda>_.
        if bytes_string (Head (tm_BaseMessage amsg)) = ''nn'' then pdo (on_nonce N addr amsg (n_height n))
        else if bytes_string (Head (tm_BaseMessage amsg)) = ''bl'' then on_block N addr amsg (n_height n)
        else pdo (sret ())))) n)"

text \<open>The body of the receiving loop: a message of another node is answered, but not twice in a row.\<close>

definition nonce_received :: "'d nenv \<Rightarrow> bytes \<Rightarrow> ('d node, unit) pop" where
  "nonce_received N s =
     (if length s > 4 then
        let ipr = take 4 s in
        pbind (nonce_OnMessage N ipr (drop 4 s)) (\<lambda>_.
        pbind (pdo (sget (\<lambda>n. (MyIP (n_peers n), LastRepliedIP n)))) (\<lambda>(my, last).
        if ipr = my then pdo (sret ())
        else if last \<noteq> ipr then pdo (sendReply N ipr)
        else pdo (supd (\<lambda>n. n\<lparr>LastRepliedIP := zero_ip\<rparr>))))
      else pdo (sret ()))"

section \<open>The transaction service\<close>

definition SendTransactionMsg :: "'d nenv \<Rightarrow> ip \<Rightarrow> topic \<Rightarrow> ('d node, unit) op" where
  "SendTransactionMsg N ip tp =
     sbind (sget n_syncing) (\<lambda>syncing.
     if syncing then sret ()
     else sbind (sget (\<lambda>n. PeekTransactions MaxTransactionsPerBlock 0 (PoolsTx n))) (\<lambda>txs.
       sdrop (Send N TransactionTopic ip
         (TransactionsMessage_GetBytes (GenerateTransactionMsg (ne_chain N) txs (string_bytes ''tx'') tp)))))"

text \<open>To the first connected peer that is neither the sender nor the node itself.\<close>

fun spread_to :: "ip \<Rightarrow> ip \<Rightarrow> ip \<Rightarrow> bytes list \<Rightarrow> ip option" where
  "spread_to ignoreAddr my ip [] = None"
| "spread_to ignoreAddr my ip (topicip # rest) =
     (let ip' = copy_into ip (drop 2 topicip) in
      if ip' \<noteq> ignoreAddr \<and> ip' \<noteq> my then Some ip' else spread_to ignoreAddr my ip' rest)"

definition Spread :: "'d nenv \<Rightarrow> ip \<Rightarrow> bytes \<Rightarrow> ('d node, unit) op" where
  "Spread N ignoreAddr nb =
     sbind (sget (\<lambda>n. spread_to ignoreAddr (MyIP (n_peers n)) zero_ip
       (map fst (GetPeersConnected TransactionTopic (n_peers n))))) (\<lambda>to.
     case to of None \<Rightarrow> sret () | Some ip \<Rightarrow> sdrop (Send N TransactionTopic ip nb))"

text \<open>A transaction of a \<^verbatim>\<open>tx\<close> message.\<close>

definition receive_tx :: "'d nenv \<Rightarrow> ip \<Rightarrow> bytes \<Rightarrow> Transaction \<Rightarrow> ('d node, unit) op" where
  "receive_tx N addr m t =
     sbind (sget (\<lambda>n. TransactionExists (tx_Hash t) (PoolsTx n))) (\<lambda>pooled.
     if pooled then sret ()
     else
     sbind (sread (\<lambda>n. CheckFromDBPoolTx (ne_kv N) TransactionDBPrefix (tx_Hash t) (w_db n))) (\<lambda>stored.
     if stored then sret ()
     else
     sbind (on_pool (AddTransaction t (tx_Hash t))) (\<lambda>isAdded.
     if \<not> isAdded then sret ()
     else
     sbind (scatch (on_db (StoreToDBPoolTx (ne_kv N) TransactionPoolHashesDBPrefix t))) (\<lambda>r. case r of
       Ok _ \<Rightarrow> Spread N addr m
     | Err e \<Rightarrow>
         sbind (on_pool (RemoveTransactionByHash (tx_Hash t))) (\<lambda>_.
         sdrop (on_db (RemoveTransactionFromDBbyHash (ne_kv N) TransactionPoolHashesDBPrefix (tx_Hash t))))
     | Panic \<Rightarrow> slift Panic))))"

definition on_tx :: "'d nenv \<Rightarrow> ip \<Rightarrow> bytes \<Rightarrow> TransactionsMessage \<Rightarrow> ('d node, unit) op" where
  "on_tx N addr m amsg =
     sbind (sread (\<lambda>n. GetTransactionsFromBytes (e_H160 (ne_env N)) (n_ec n) (node_verify N n) amsg)) (\<lambda>txn.
     sbind (sget (\<lambda>n. NumberOfTransactions (PoolsTx n))) (\<lambda>count.
     if count > MaxTransactionInPool then sret ()
     else sfor (receive_tx N addr m) (concat (map snd txn))))"

text \<open>
  The transactions asked for, from the pool (\<open>st\<close>) or from the chain (\<open>bt\<close>); a missing one is left out, and
  in the pool's table removed.
\<close>

fun asked_txs :: "'d nenv \<Rightarrow> bytes \<Rightarrow> bool \<Rightarrow> bytes list \<Rightarrow> ('d node, Transaction list) op" where
  "asked_txs N prefix remove [] = sret []"
| "asked_txs N prefix remove (hs # rest) =
     sbind (sbind (sget (env_at N)) (\<lambda>E. scatch (LoadPoolTx E prefix hs))) (\<lambda>r. case r of
       Ok t \<Rightarrow> sbind (asked_txs N prefix remove rest) (\<lambda>ts.
         sret (if length (Transaction_GetBytes t) > 0 then t # ts else ts))
     | Err e \<Rightarrow> sbind (if remove then sdrop (on_db (RemoveTransactionFromDBbyHash (ne_kv N) prefix hs)) else sret ()) (\<lambda>_.
         asked_txs N prefix remove rest)
     | Panic \<Rightarrow> slift Panic)"

definition answer_topic :: "'d nenv \<Rightarrow> ip \<Rightarrow> bytes \<Rightarrow> bool \<Rightarrow> topic \<times> bytes list \<Rightarrow> ('d node, unit) op" where
  "answer_topic N addr prefix remove = (\<lambda>(tp, v).
     sbind (asked_txs N prefix remove v) (\<lambda>txs.
     sdrop (Send N TransactionTopic addr
       (TransactionsMessage_GetBytes (GenerateTransactionMsg (ne_chain N) txs (string_bytes ''tx'') tp)))))"

definition transaction_OnMessage :: "'d nenv \<Rightarrow> ip \<Rightarrow> bytes \<Rightarrow> ('d node, unit) pop" where
  "transaction_OnMessage N addr m = precover (pdo (
     sbind (slift (CheckValidMessage (ne_chain N) m)) (\<lambda>(isValid, amsg).
     if \<not> isValid then distrust_peer N addr
     else let head = bytes_string (Head (tm_BaseMessage amsg)) in
       if head = ''tx'' then on_tx N addr m amsg
       else if head = ''st'' then sfor (answer_topic N addr TransactionPoolHashesDBPrefix True) (TransactionsBytes amsg)
       else if head = ''bt'' then sfor (answer_topic N addr TransactionDBPrefix False) (TransactionsBytes amsg)
       else sret ())))"

section \<open>The block a node creates\<close>

lemma hroot_lengths:
  assumes "\<And>x. length (H x) = 32" and "\<forall>x \<in> set xs. length x = 32"
  shows "\<forall>x \<in> set (hroot H xs). length x = 32"
  using assms(2)
proof (induction "length xs" arbitrary: xs rule: less_induct)
  case less
  show ?case
  proof (cases "length xs > 1")
    case True
    have "\<forall>x \<in> set (hlevel H xs). length x = 32" using assms(1) by (auto simp: hlevel_def)
    with True less.hyps [of "hlevel H xs"] show ?thesis by (subst hroot.simps) simp
  qed (use less.prems in \<open>subst hroot.simps, simp\<close>)
qed

lemma root_is_hash:
  assumes "\<And>x. length (H x) = 32" and "BuildMerkleTree H xs = Ok t"
  shows "GetHashFromBytes (GetRootHash t) = GetRootHash t"
proof -
  have "length (GetRootHash t) = 32"
  proof (cases "xs = []")
    case False
    have "length (hroot H (map H xs)) = 1" using False by (simp add: length_hroot Suc_le_eq)
    then have "hd (hroot H (map H xs)) \<in> set (hroot H (map H xs))" by (cases "hroot H (map H xs)") auto
    with hroot_lengths [OF assms(1), of "map H xs"] assms(1) False BuildMerkleTree_Ok(3) [OF assms(2)] show ?thesis by auto
  qed (simp add: BuildMerkleTree_Ok(3) [OF assms(2)] EmptyHash_def)
  then show ?thesis by (simp add: GetHashFromBytes_def Hash_Set_def copy_into_def EmptyHash_def)
qed

lemma GenerateBytesFromParams_nonempty: "GenerateBytesFromParams c \<noteq> []"
  by (simp add: GenerateBytesFromParams_def BytesToLenAndBytes_def flip: length_greater_0_conv)

lemma scheme_or_current_nonempty: "scheme_or_current ec primary enc \<noteq> []"
  by (simp add: scheme_or_current_def GenerateBytesFromParams_nonempty)

lemma nonce_schemes_nonempty:
  assumes "nonce_schemes ec height lastBlock [tx] encs = Ok encs'"
  shows "fst encs' \<noteq> []" and "snd encs' \<noteq> []"
  using assms by (auto simp: Let_def rbind_Ok_iff scheme_or_current_nonempty split: if_splits)

text \<open>The stages of the creation.\<close>

lemma CreateBlock_Ok:
  assumes "CreateBlockFromNonceMessage N n [tx] lastBlock tree hs = Ok bl"
  obtains encs sign msg price pd perr rnd rd rerr where
    "nonce_schemes (n_ec n) (tx_Height tx) lastBlock [tx] ([], []) = Ok encs"
    "BaseHeader_Sign (e_H256 (ne_env N)) (n_ec n) (ne_wallet N)
      (GetNodeSignPrimary (n_ec n) (e_pref (ne_env N)) (e_coin (ne_env N)) (tx_Height tx)) (new_header N tx lastBlock tree encs) = Ok (sign, msg)"
    "CalculatePriceOracle (tx_Height tx) (GetStakedInAllDelegatedAccounts (w_staking n)) (n_oracles n) = (price, pd, perr)"
    "CalculateRandOracle (e_H256 (ne_env N)) (tx_Height tx) (GetStakedInAllDelegatedAccounts (w_staking n)) (n_oracles n) = Ok (rnd, rd, rerr)"
    "bl = seal_block N ((new_header N tx lastBlock tree encs)\<lparr>bh_Signature := sign, SignatureMessage := msg\<rparr>)
      (Supply (bl_BaseBlock lastBlock) + GetReward (Supply (bl_BaseBlock lastBlock))) (price, pd) (rnd, rd) hs"
proof -
  obtain price pd perr where p: "CalculatePriceOracle (tx_Height tx) (GetStakedInAllDelegatedAccounts (w_staking n)) (n_oracles n) =
      (price, pd, perr)" by (metis prod_cases3)
  show thesis
    using assms by (simp add: CreateBlockFromNonceMessage_def rbind_Ok_iff Let_def p del: nonce_schemes.simps split: prod.splits)
      (metis that p)
qed

lemma seal_block_fields [simp]:
  "GetHeader (seal_block N bh s p r hs) = bh" "Supply (bl_BaseBlock (seal_block N bh s p r hs)) = s"
  "TransactionsHashes (seal_block N bh s p r hs) = hs"
  "CalcBlockHash (e_H256 (ne_env N)) (seal_block N bh s p r hs) = BlockHash (seal_block N bh s p r hs)"
  "PriceOracle (bl_BaseBlock (seal_block N bh s p r hs)) = fst p" "PriceOracleData (bl_BaseBlock (seal_block N bh s p r hs)) = snd p"
  "RandOracle (bl_BaseBlock (seal_block N bh s p r hs)) = fst r" "RandOracleData (bl_BaseBlock (seal_block N bh s p r hs)) = snd r"
  by (simp_all add: seal_block_def Let_def CalcBlockHash_def GetBytesForHash_def)

lemma new_header_fields [simp]:
  "PreviousHash (new_header N tx b t e) = BlockHash b" "bh_Height (new_header N tx b t e) = tx_Height tx"
  "RootMerkleTree (new_header N tx b t e) = GetHashFromBytes (GetRootHash t)" "OperatorAccount (new_header N tx b t e) = wl_Address (ne_wallet N)"
  "Encryption1 (new_header N tx b t e) = fst e" "Encryption2 (new_header N tx b t e) = snd e"
  by (simp_all add: new_header_def Let_def)

text \<open>The content of a created block passes the check of the node that created it.\<close>

lemma created_content:
  assumes "\<And>x. length (e_H256 (ne_env N) x) = 32" and "\<not> n_syncing n"
    and "price_stakes_current (w_staking n) (n_oracles n)" and "rand_stakes_current (w_staking n) (n_oracles n)"
    and "0 \<le> sint (GetStakedInAllDelegatedAccounts (w_staking n))" and "sint (GetStakedInAllDelegatedAccounts (w_staking n)) < 2 ^ 62"
    and "BuildMerkleTree (e_H256 (ne_env N)) (replicate (length hs) [] @ hs) = Ok tree"
    and "CreateBlockFromNonceMessage N n [tx] lastBlock tree hs = Ok bl"
    and "Encryption1 (GetHeader bl) = Encryption1 (GetHeader lastBlock)" and "Encryption2 (GetHeader bl) = Encryption2 (GetHeader lastBlock)"
  shows "check_content (env_at N n) D (w_staking n) bl lastBlock v = (Ok tree, v)"
proof -
  let ?T = "GetStakedInAllDelegatedAccounts (w_staking n)" and ?bb = "bl_BaseBlock bl"
  note C = CreateBlock_Ok [OF assms(8)]
  have "VerifyPriceOracle ?T (PriceOracle ?bb) (PriceOracleData ?bb) (w_staking n) = Ok True"
    by (rule C) (use price_verifies [OF assms(3,5,6)] in auto)
  moreover have "VerifyRandOracle (e_H256 (ne_env N)) ?T (RandOracle ?bb) (RandOracleData ?bb) (w_staking n) = Ok True"
    by (rule C) (use CalculateRandOracle_verifies [OF assms(4-6)] in auto)
  moreover have "Encryption1 (GetHeader bl) \<noteq> []" "Encryption2 (GetHeader bl) \<noteq> []"
    by (rule C; use nonce_schemes_nonempty in force)+
  moreover have "RootMerkleTree (GetHeader bl) = GetRootHash tree"
    by (rule C) (use root_is_hash [OF assms(1,7)] in simp)
  moreover have "base_block_leaves bl = replicate (length hs) [] @ hs"
    by (rule C) (simp add: base_block_leaves_def)
  ultimately show ?thesis
    using assms(2,7,9,10) by (simp add: check_content_def Let_def sbind_def slift_def sret_def)
qed

lemma propose_run:
  assumes "hs = map tx_Hash (PeekTransactions MaxTransactionsPerBlock (tx_Height tx) (PoolsTx n))"
    and "BuildMerkleTree (e_H256 (ne_env N)) (replicate (length hs) [] @ hs) = Ok tree"
  shows "propose N tx lastBlock n = (CreateBlockFromNonceMessage N n [tx] lastBlock tree hs, n)"
  by (simp only: propose_def sbind_def sget_def slift_def sread_eq assms(1) [symmetric] assms(2) prod.case result.case)

lemma propose_Ok:
  assumes "propose N tx lastBlock n = (Ok bl, n1)"
  obtains hs tree where "BuildMerkleTree (e_H256 (ne_env N)) (replicate (length hs) [] @ hs) = Ok tree"
    and "CreateBlockFromNonceMessage N n [tx] lastBlock tree hs = Ok bl" and "n1 = n"
proof -
  define hs where "hs = map tx_Hash (PeekTransactions MaxTransactionsPerBlock (tx_Height tx) (PoolsTx n))"
  obtain tree where tree: "BuildMerkleTree (e_H256 (ne_env N)) (replicate (length hs) [] @ hs) = Ok tree"
    using BuildMerkleTree_total by blast
  from assms have "CreateBlockFromNonceMessage N n [tx] lastBlock tree hs = Ok bl \<and> n1 = n"
    unfolding propose_run [OF hs_def tree] prod.inject by blast
  with that [OF tree] show thesis by simp
qed

lemma propose_sealed:
  assumes "propose N tx lastBlock n = (Ok bl, n1)"
  shows "\<exists>bh s p r hs. bl = seal_block N bh s p r hs"
proof -
  obtain hs tree where "CreateBlockFromNonceMessage N n [tx] lastBlock tree hs = Ok bl"
    using assms by (rule propose_Ok)
  then show ?thesis by (rule CreateBlock_Ok) blast
qed

section \<open>Properties\<close>

text \<open>
  C12: a node that is not syncing accepts what it proposes: a block that it creates from a nonce message and
  whose proof holds passes the node's own check of blocks, oracles and tree included, as long as the stakes are
  those recorded with the oracle reports, the supply is in its range and no scheme changes.
\<close>

theorem proposed_block_passes_own_check:
  assumes "\<And>x. length (e_H256 (ne_env N) x) = 32" and "\<not> n_syncing n"
    and "price_stakes_current (w_staking n) (n_oracles n)" and "rand_stakes_current (w_staking n) (n_oracles n)"
    and "0 \<le> sint (GetStakedInAllDelegatedAccounts (w_staking n))" and "sint (GetStakedInAllDelegatedAccounts (w_staking n)) < 2 ^ 62"
    and "0 \<le> sint (Supply (bl_BaseBlock lastBlock))" and "sint (Supply (bl_BaseBlock lastBlock)) \<le> sint MaxTotalSupply"
    and "propose N tx lastBlock n = (Ok bl, n1)"
    and "Encryption1 (GetHeader bl) = Encryption1 (GetHeader lastBlock)" and "Encryption2 (GetHeader bl) = Encryption2 (GetHeader lastBlock)"
    and "CheckProofOfSynergy (ne_log2 N) (bl_BaseBlock bl) = Ok True"
  shows "\<exists>tree. node_CheckBaseBlock N bl lastBlock n1 = (Ok tree, n1) \<and> bh_Height (GetHeader bl) = tx_Height tx"
proof -
  obtain hs tree where tree: "BuildMerkleTree (e_H256 (ne_env N)) (replicate (length hs) [] @ hs) = Ok tree"
    and bl: "CreateBlockFromNonceMessage N n [tx] lastBlock tree hs = Ok bl" and n1: "n1 = n"
    using assms(9) by (rule propose_Ok)
  note C = CreateBlock_Ok [OF bl]
  have "PreviousHash (GetHeader bl) = BlockHash lastBlock" "bh_Height (GetHeader bl) = tx_Height tx"
    "CalcBlockHash (e_H256 (ne_env N)) bl = BlockHash bl"
    "Supply (bl_BaseBlock bl) = Supply (bl_BaseBlock lastBlock) + GetReward (Supply (bl_BaseBlock lastBlock))"
    by (rule C; simp)+
  with GetReward_bounds [OF assms(7,8)] assms(12) created_content [OF assms(1-6) tree bl assms(10,11)]
  show ?thesis
    by (simp add: node_CheckBaseBlock_def CheckBaseBlock_def sbind_def sget_def zoom_def slift_def n1)
qed

text \<open>A nonce message for the block after one with the schemes in force.\<close>

definition scheme_block :: Block where
  "scheme_block = sample_block\<lparr>bl_BaseBlock := (bl_BaseBlock sample_block)\<lparr>bb_BaseHeader := (GetHeader sample_block)\<lparr>
     Encryption1 := GenerateBytesFromParams (current_scheme initEncryptionConfigInstance True),
     Encryption2 := GenerateBytesFromParams (current_scheme initEncryptionConfigInstance False)\<rparr>, Supply := MaxTotalSupply\<rparr>\<rparr>"

definition nonce_tx :: Transaction where
  "nonce_tx = zero_Transaction\<lparr>tx_Data := zero_TxData\<lparr>OptData := GetByteInt64 7 @ replicate 32 7 @ GetByteInt64 1 @ GetByteInt64 2 @
     BytesToLenAndBytes [] @ BytesToLenAndBytes []\<rparr>, tx_Height := 8\<rparr>"

lemma sample_propose:
  obtains bl where "propose sample_nenv nonce_tx scheme_block sample_node = (Ok bl, sample_node)"
    and "Encryption1 (GetHeader bl) = Encryption1 (GetHeader scheme_block)"
    and "Encryption2 (GetHeader bl) = Encryption2 (GetHeader scheme_block)"
proof -
  have n: "n_ec sample_node = initEncryptionConfigInstance" "PoolsTx sample_node = NewTransactionPool 10 0"
    "n_oracles sample_node = \<lparr>PriceOracles = [], RandOracles = []\<rparr>"
    by (simp_all add: sample_node_def sample_world_def world.defs)
  let ?encs = "(Encryption1 (GetHeader scheme_block), Encryption2 (GetHeader scheme_block))"
  have encs: "nonce_schemes initEncryptionConfigInstance 8 scheme_block [nonce_tx] ([], []) = Ok ?encs" by code_simp
  have tx: "tx_Height nonce_tx = 8" by (simp add: nonce_tx_def)
  have "sample_digest x \<noteq> []" for x by (simp add: sample_digest_def copy_into_def EmptyHash_def)
  then have sign: "\<exists>s m. BaseHeader_Sign sample_digest initEncryptionConfigInstance sample_wallet primary bh = Ok (s, m)" for primary bh
    by (simp add: BaseHeader_Sign_def Wallet_Sign_def sample_wallet_def Signature_Init_def Let_def initEncryptionConfigInstance_def
        SignatureLength_def SignatureLength2_def)
  have rnd: "\<exists>r. CalculateRandOracle H 8 T \<lparr>PriceOracles = [], RandOracles = []\<rparr> = Ok r" for H T
    by (simp add: CalculateRandOracle_def GenerateRandData_def Let_def)
  obtain tree where tree: "BuildMerkleTree sample_digest (replicate (length []) [] @ []) = Ok tree"
    using BuildMerkleTree_total by blast
  have "propose sample_nenv nonce_tx scheme_block sample_node =
      (CreateBlockFromNonceMessage sample_nenv sample_node [nonce_tx] scheme_block tree [], sample_node)"
    by (rule propose_run) (use tree n(2) in \<open>simp_all add: PeekTransactions_def NewTransactionPool_def sample_nenv_def\<close>)
  moreover obtain bl where bl: "CreateBlockFromNonceMessage sample_nenv sample_node [nonce_tx] scheme_block tree [] = Ok bl"
  proof -
    obtain s m where "BaseHeader_Sign sample_digest initEncryptionConfigInstance sample_wallet
        (GetNodeSignPrimary initEncryptionConfigInstance (e_pref sample_env) (e_coin sample_env) 8)
        (new_header sample_nenv nonce_tx scheme_block tree ?encs) = Ok (s, m)" using sign by blast
    moreover have "e_H256 (ne_env sample_nenv) = sample_digest" "ne_wallet sample_nenv = sample_wallet" "ne_env sample_nenv = sample_env"
      by (simp_all add: sample_nenv_def)
    moreover obtain r where "CalculateRandOracle sample_digest 8 (GetStakedInAllDelegatedAccounts (w_staking sample_node))
        \<lparr>PriceOracles = [], RandOracles = []\<rparr> = Ok r" using rnd by blast
    ultimately show thesis using that encs
      by (simp add: CreateBlockFromNonceMessage_def Let_def n tx split_beta del: nonce_schemes.simps)
  qed
  moreover have "Encryption1 (GetHeader bl) = Encryption1 (GetHeader scheme_block) \<and> Encryption2 (GetHeader bl) = Encryption2 (GetHeader scheme_block)"
    by (rule CreateBlock_Ok [OF bl]) (use encs n tx in simp)
  ultimately show thesis using that by simp
qed

theorem proposed_block_passes_own_check_witness:
  "\<exists>bl tree. fst (propose sample_nenv nonce_tx scheme_block sample_node) = Ok bl \<and>
     node_CheckBaseBlock sample_nenv bl scheme_block sample_node = (Ok tree, sample_node)"
proof -
  obtain bl where bl: "propose sample_nenv nonce_tx scheme_block sample_node = (Ok bl, sample_node)"
    "Encryption1 (GetHeader bl) = Encryption1 (GetHeader scheme_block)"
    "Encryption2 (GetHeader bl) = Encryption2 (GetHeader scheme_block)"
    by (rule sample_propose)
  have st: "w_staking sample_node = (replicate 256 [])[5 := [(replicate 20 6, sample_stake)]]"
    using sample_node_tables by (simp add: sample_tables_def)
  have T: "GetStakedInAllDelegatedAccounts (w_staking sample_node) = 100000000000000"
    by (simp add: st GetStakedInAllDelegatedAccounts_def sample_stake_def map_update sum_list_update_group sum_list_replicate)
  have proof_ok: "CheckProofOfSynergy (ne_log2 sample_nenv) (bl_BaseBlock bl) = Ok True"
  proof -
    have "length (BlockHeaderHash (bl_BaseBlock (seal_block N bh s p r hs))) = 32" for N bh s p r hs
      by (simp add: seal_block_def Let_def BaseHeader_CalcHash_def GetHashFromBytes_def Hash_Set_def copy_into_def EmptyHash_def)
    then have "length (BlockHeaderHash (bl_BaseBlock bl)) = 32"
      using propose_sealed [OF bl(1)] by metis
    then show ?thesis
      using minimalHashProof_finite [of "Difficulty (GetHeader bl)"]
      by (cases "minimalHashProof (Difficulty (GetHeader bl))") (simp_all add: CheckProofOfSynergy_def validProof_def Let_def sample_nenv_def)
  qed
  have "length (e_H256 (ne_env sample_nenv) x) = 32" for x
    by (simp add: sample_nenv_def sample_digest_def copy_into_def EmptyHash_def)
  moreover have "\<not> n_syncing sample_node" "price_stakes_current (w_staking sample_node) (n_oracles sample_node)"
    "rand_stakes_current (w_staking sample_node) (n_oracles sample_node)"
    by (simp_all add: price_stakes_current_def rand_stakes_current_def sample_node_def world.defs)
  moreover have "0 \<le> sint (Supply (bl_BaseBlock scheme_block))" "sint (Supply (bl_BaseBlock scheme_block)) \<le> sint MaxTotalSupply"
    by (simp_all add: scheme_block_def MaxTotalSupply_def)
  ultimately have "\<exists>tree. node_CheckBaseBlock sample_nenv bl scheme_block sample_node = (Ok tree, sample_node) \<and>
      bh_Height (GetHeader bl) = tx_Height nonce_tx"
    by (intro proposed_block_passes_own_check [OF _ _ _ _ _ _ _ _ bl proof_ok]) (simp_all add: T)
  with bl(1) show ?thesis by auto
qed

end
