(* ===== verification/Sync.thy ===== *)
theory Sync
  imports Services
begin

text \<open>
  The synchronisation service: the messages of \<^verbatim>\<open>src/services/syncService/serviceSync.go\<close> and the handler of
  \<^verbatim>\<open>src/services/syncService/onmessage.go\<close>.  A node that hears of a longer chain asks for a range of blocks,
  checks all of them and then applies them one after the other.

  The lemmas: a request covers the block the node is at and the next one, and stays within its bounds; the answer of a
  node with a longer chain is not discarded; whatever the blocks of an answer do, the ledger can be given back from
  the database.
\<close>

section \<open>Messages\<close>

definition NumberOfHashesInBucket :: i64 where "NumberOfHashesInBucket = 20"
definition MaxPeersConnected :: int where "MaxPeersConnected = 6"

definition sync_message :: "i16 \<Rightarrow> string \<Rightarrow> (topic, bytes list) gomap \<Rightarrow> TransactionsMessage" where
  "sync_message chain head m = \<lparr>tm_BaseMessage = \<lparr>Head = string_bytes head, ChainID = chain\<rparr>, TransactionsBytes = m\<rparr>"

definition generateSyncMsgHeight :: "'d nenv \<Rightarrow> ('d node, bytes) op" where
  "generateSyncMsgHeight N =
     sbind (sget (\<lambda>n. (n_height n, LoadHashOfBlock (ne_kv N) (n_height n) (w_db n)))) (\<lambda>(h, r).
     case r of
       Err e \<Rightarrow> sret []
     | Panic \<Rightarrow> slift Panic
     | Ok lastBlockHash \<Rightarrow>
         sbind (zoom n_peers n_peers_update (GetIPsConnected (ne_pick N))) (\<lambda>peers.
         sret (TransactionsMessage_GetBytes (sync_message (ne_chain N) ''hi''
           [(topic_of ''LH'', [GetByteInt64 h]), (topic_of ''LB'', [lastBlockHash]), (topic_of ''PP'', peers)]))))"

text \<open>The heights asked for, when the node is at \<open>h\<close> and another one at \<open>height\<close>.\<close>

definition asked_range :: "i64 \<Rightarrow> i64 \<Rightarrow> i64 \<times> i64" where
  "asked_range h height =
     (let s2p = (if sint (height - h + 1) > sint NumberOfHashesInBucket then NumberOfHashesInBucket else height - h + 1);
          b0 = height - s2p;
          b1 = (if sint b0 < 2 then 0 else b0)
      in if sint b1 > sint h then (h, if sint (h + s2p) > sint height then height else h + s2p)
         else (b1, height))"

definition generateSyncMsgGetHeaders :: "i16 \<Rightarrow> i64 \<Rightarrow> i64 \<Rightarrow> bytes" where
  "generateSyncMsgGetHeaders chain h height =
     (if sint height \<le> 0 then []
      else case asked_range h height of (bHeight, eHeight) \<Rightarrow>
        TransactionsMessage_GetBytes (sync_message chain ''gh''
          [(topic_of ''BH'', [GetByteInt64 bHeight]), (topic_of ''EH'', [GetByteInt64 eHeight])]))"

text \<open>\<^verbatim>\<open>for i := bHeight; i <= height; i++\<close>; a block that cannot be loaded makes the answer empty.\<close>

fun load_range :: "'d kv \<Rightarrow> EncryptionConfig \<Rightarrow> 'd \<Rightarrow> i64 list \<Rightarrow> bytes list result" where
  "load_range K ec d [] = Ok []"
| "load_range K ec d (i # is) =
     rbind (LoadBlock K ec i d) (\<lambda>block.
     rbind (load_range K ec d is) (\<lambda>bs. Ok (Block_GetBytes block # bs)))"

definition heights_from :: "i64 \<Rightarrow> i64 \<Rightarrow> i64 list" where
  "heights_from lo hi = map word_of_int [sint lo..sint hi]"

definition generateSyncMsgSendHeaders :: "'d nenv \<Rightarrow> 'd node \<Rightarrow> i64 \<Rightarrow> i64 \<Rightarrow> bytes result" where
  "generateSyncMsgSendHeaders N n bHeight height =
     (if sint height < 0 then Ok []
      else let height' = (if sint height > sint (n_height n) then n_height n else height) in
        if sint bHeight < 0 \<or> sint bHeight > sint height' then Ok []
        else case load_range (ne_kv N) (n_ec n) (w_db n) (heights_from bHeight height') of
          Err e \<Rightarrow> Ok []
        | Panic \<Rightarrow> Panic
        | Ok blcks \<Rightarrow> Ok (TransactionsMessage_GetBytes (sync_message (ne_chain N) ''sh''
            [(topic_of ''IH'', map GetByteInt64 (heights_from bHeight height')), (topic_of ''HV'', blcks)])))"

definition SendHeaders :: "'d nenv \<Rightarrow> ip \<Rightarrow> i64 \<Rightarrow> i64 \<Rightarrow> ('d node, unit) op" where
  "SendHeaders N addr bHeight height =
     sbind (sread (\<lambda>n. generateSyncMsgSendHeaders N n bHeight height)) (\<lambda>nb. sdrop (Send N SyncTopic addr nb))"

definition SendGetHeaders :: "'d nenv \<Rightarrow> ip \<Rightarrow> i64 \<Rightarrow> ('d node, unit) op" where
  "SendGetHeaders N addr height =
     sbind (sget (\<lambda>n. generateSyncMsgGetHeaders (ne_chain N) (n_height n) height)) (\<lambda>nb. sdrop (Send N SyncTopic addr nb))"

section \<open>A node tells its height\<close>

text \<open>
  The subscriptions to a peer that are started; the address is copied over the one of the peer before, so that a short one
  keeps its tail.
\<close>

definition subscribe :: "'d nenv \<Rightarrow> topic \<Rightarrow> (bytes, topic) gomap \<Rightarrow> ip \<Rightarrow> ('d node, unit) op" where
  "subscribe N tp known ip4 =
     supd (\<lambda>n. if map_of known (tp @ ip4) = None \<and> \<not> IsIPBanned (e_now (ne_env N)) ip4 (n_peers n)
       then n\<lparr>n_started := n_started n @ [(tp, ip4)]\<rparr> else n)"

fun hi_peers :: "'d nenv \<Rightarrow> ip \<Rightarrow> (bytes, topic) gomap \<Rightarrow> (bytes, topic) gomap \<Rightarrow> (bytes, topic) gomap \<Rightarrow>
  ip \<Rightarrow> bytes list \<Rightarrow> ('d node, unit) op" where
  "hi_peers N addr nn bb tt ip4 [] = sret ()"
| "hi_peers N addr nn bb tt ip4 (ip # ips) =
     (let ip4' = copy_into ip4 ip in
      if ip4' = addr then hi_peers N addr nn bb tt ip4' ips
      else
      sbind (subscribe N NonceTopic nn ip4') (\<lambda>_.
      sbind (subscribe N SyncTopic bb ip4') (\<lambda>_.
      sbind (subscribe N TransactionTopic tt ip4') (\<lambda>_.
      sbind (sget (\<lambda>n. GetPeersCount (n_peers n))) (\<lambda>count.
      if count > MaxPeersConnected then sret () else hi_peers N addr nn bb tt ip4' ips)))))"

definition connect_peers :: "'d nenv \<Rightarrow> ip \<Rightarrow> (topic, bytes list) gomap \<Rightarrow> ('d node, unit) op" where
  "connect_peers N addr txn =
     sbind (sget n_peers) (\<lambda>ps.
     if GetPeersCount ps < MaxPeersConnected
     then hi_peers N addr (GetPeersConnected NonceTopic ps) (GetPeersConnected SyncTopic ps) (GetPeersConnected TransactionTopic ps)
       zero_ip (mgetd [] txn (topic_of ''PP''))
     else sret ())"

definition set_syncing :: "bool \<Rightarrow> ('d node, unit) op" where
  "set_syncing b = supd (\<lambda>n. n\<lparr>n_syncing := b\<rparr>)"

text \<open>An error that the code answers with a panic.\<close>

definition smust :: "('s, 'a) op \<Rightarrow> ('s, 'a) op" where
  "smust m s = (case m s of (Err e, s') \<Rightarrow> (Panic, s') | r \<Rightarrow> r)"

definition on_height :: "'d nenv \<Rightarrow> ip \<Rightarrow> TransactionsMessage \<Rightarrow> i64 \<Rightarrow> ('d node, unit) op" where
  "on_height N addr amsg h =
     (let txn = TransactionsBytes amsg in
      sbind (connect_peers N addr txn) (\<lambda>_.
      sbind (if sint h < sint (CurrentHeightOfNetwork N) then set_syncing True else sret ()) (\<lambda>_.
      sbind (slift (rbind (first_of (topic_of ''LH'') txn) GetInt64FromByte)) (\<lambda>lastOtherHeight.
      sbind (sget n_heightMax) (\<lambda>hMax.
      sbind (if sint lastOtherHeight > sint hMax then supd (\<lambda>n. n\<lparr>n_heightMax := lastOtherHeight\<rparr>) else sret ()) (\<lambda>_.
      sbind (slift (first_of (topic_of ''LB'') txn)) (\<lambda>lastOtherBlockHash.
      if lastOtherHeight = h then
        sbind (AdjustShiftInPastInReset lastOtherHeight) (\<lambda>_.
        sbind (smust (sread (\<lambda>n. LoadHashOfBlock (ne_kv N) h (w_db n)))) (\<lambda>lastBlockHash.
        sbind (if lastOtherBlockHash \<noteq> lastBlockHash then SendGetHeaders N addr lastOtherHeight else sret ()) (\<lambda>_.
        if sint lastOtherHeight > sint hMax then set_syncing False else sret ())))
      else if sint lastOtherHeight < sint h then
        sbind (AdjustShiftInPastInReset lastOtherHeight) (\<lambda>_.
        if sint lastOtherHeight > sint hMax then set_syncing False else sret ())
      else SendGetHeaders N addr lastOtherHeight)))))))"

section \<open>Blocks of another chain\<close>

text \<open>A deferred call, which runs whatever the outcome is; the outcome is kept unless the call panics.\<close>

definition pdefer :: "('s, unit) op \<Rightarrow> ('s, 'a) pop \<Rightarrow> ('s, 'a) pop" where
  "pdefer f m s = (case m s of None \<Rightarrow> None
   | Some (r, s') \<Rightarrow> (case f s' of (Panic, s'') \<Rightarrow> Some (Panic, s'') | (_, s'') \<Rightarrow> Some (r, s'')))"

definition pmust :: "('s, 'a) pop \<Rightarrow> ('s, 'a) pop" where
  "pmust m s = (case m s of Some (Err e, s') \<Rightarrow> Some (Panic, s') | r \<Rightarrow> r)"

text \<open>The node goes back behind the block and gives up the message.\<close>

definition reset_behind :: "'d nenv \<Rightarrow> i64 \<Rightarrow> ('d node, 'a) pop" where
  "reset_behind N index =
     pbind (pdo (sget ShiftToPastInReset)) (\<lambda>shift.
     pbind (ResetAccountsAndBlocksSync N (index - shift)) (\<lambda>_. pdo (slift Panic)))"

definition fail_reset :: "'d nenv \<Rightarrow> i64 \<Rightarrow> i64 \<Rightarrow> ('d node, 'a) pop" where
  "fail_reset N hmax index = pdefer (AdjustShiftInPastInReset hmax) (reset_behind N index)"

text \<open>
  What the checks collect: the last block that the chains share, the hashes of the transactions that are missing, and
  the trees of the new blocks.
\<close>

record checked =
  lastGoodBlock :: i64
  hashesMissingAll :: "bytes list"
  merkleTries :: "(i64 \<times> MerkleTree) list"

text \<open>A block at a height that the node has.\<close>

definition check_known :: "'d nenv \<Rightarrow> i64 \<Rightarrow> i64 \<Rightarrow> Block \<Rightarrow> checked \<Rightarrow> ('d node, checked) pop" where
  "check_known N hmax index block c =
     pbind (pdo (sget (\<lambda>n. LoadHashOfBlock (ne_kv N) index (w_db n)))) (\<lambda>r. case r of
       Panic \<Rightarrow> pdo (slift Panic)
     | Err e \<Rightarrow> fail_reset N hmax index
     | Ok hashOfMyBlock \<Rightarrow>
         if BlockHash block = hashOfMyBlock then pdo (sret (c\<lparr>lastGoodBlock := index\<rparr>))
         else fail_reset N hmax index)"

text \<open>The block before: the one before in the message, or for the first new block the stored one.\<close>

definition previous_block :: "'d nenv \<Rightarrow> Block option \<Rightarrow> i64 \<Rightarrow> ('d node, Block) op" where
  "previous_block N prev index = (case prev of
     Some b \<Rightarrow> sret b
   | None \<Rightarrow> smust (sread (\<lambda>n. LoadBlock (ne_kv N) (n_ec n) (index - 1) (w_db n))))"

text \<open>The second block of the chain is read for the log.\<close>

definition read_second :: "'d nenv \<Rightarrow> i64 \<Rightarrow> ('d node, unit) op" where
  "read_second N index =
     (if index = 1 then sdrop (sread (\<lambda>n. LoadBlock (ne_kv N) (n_ec n) 1 (w_db n))) else sret ())"

definition check_next :: "'d nenv \<Rightarrow> ip \<Rightarrow> i64 \<Rightarrow> Block \<Rightarrow> i64 \<Rightarrow> Block \<Rightarrow> checked \<Rightarrow> ('d node, checked) pop" where
  "check_next N addr hmax oldBlock index block c =
     (if bh_Height (GetHeader block) \<noteq> index then fail_reset N hmax index
      else
      pbind (pdo (scatch (node_CheckBaseBlock N block oldBlock))) (\<lambda>r. case r of
        Panic \<Rightarrow> pdo (slift Panic)
      | Err e \<Rightarrow>
          pbind (pdo (distrust_peer N addr)) (\<lambda>_.
          pbind (pdo (AdjustShiftInPastInReset hmax)) (\<lambda>_. reset_behind N index))
      | Ok merkleTrie \<Rightarrow>
          pbind (pdo (sread (\<lambda>n. IsAllTransactions (ne_kv N) block (w_db n)))) (\<lambda>hashesMissing.
          pdo (sret (c\<lparr>hashesMissingAll := hashesMissingAll c @ hashesMissing,
            merkleTries := (index, merkleTrie) # merkleTries c\<rparr>)))))"

definition check_new :: "'d nenv \<Rightarrow> ip \<Rightarrow> i64 \<Rightarrow> Block option \<Rightarrow> i64 \<Rightarrow> Block \<Rightarrow> checked \<Rightarrow> ('d node, checked) pop" where
  "check_new N addr hmax prev index block c =
     pbind (pdo (previous_block N prev index)) (\<lambda>oldBlock.
     pbind (pdo (read_second N index)) (\<lambda>_.
     check_next N addr hmax oldBlock index block c))"

text \<open>The first pass over the blocks; \<open>prev\<close> is the block before, once a new block was seen.\<close>

fun check_pass :: "'d nenv \<Rightarrow> ip \<Rightarrow> i64 \<Rightarrow> i64 \<Rightarrow> Block option \<Rightarrow> i64 list \<Rightarrow> Block list \<Rightarrow> checked \<Rightarrow> ('d node, checked) pop" where
  "check_pass N addr h hmax prev is [] c = pdo (sret c)"
| "check_pass N addr h hmax prev [] (block # bs) c = pdo (slift Panic)"
| "check_pass N addr h hmax prev (index # is) (block # bs) c =
     (let prev' = map_option (\<lambda>_. block) prev in
      if sint index \<le> 0 then check_pass N addr h hmax prev' is bs c
      else if sint index \<le> sint h
      then pbind (check_known N hmax index block c) (check_pass N addr h hmax prev' is bs)
      else pbind (check_new N addr hmax prev index block c) (check_pass N addr h hmax (Some block) is bs))"

text \<open>One block of the second pass; \<open>False\<close> is a return from the handler.\<close>

definition sync_reset :: "'d nenv \<Rightarrow> Block \<Rightarrow> ('d node, bool) pop" where
  "sync_reset N oldBlock =
     pbind (ResetAccountsAndBlocksSync N (bh_Height (GetHeader oldBlock))) (\<lambda>_. pdo (sret False))"

definition sync_block :: "'d nenv \<Rightarrow> ip \<Rightarrow> Block \<Rightarrow> Block \<Rightarrow> MerkleTree option \<Rightarrow> ('d node, bool) pop" where
  "sync_block N addr block oldBlock tree =
     pbind (pdo (scatch (node_transfer N block oldBlock tree))) (\<lambda>r. case r of
       Panic \<Rightarrow> pdo (slift Panic)
     | Err e \<Rightarrow>
         pbind (pdo (sread (\<lambda>n. IsAllTransactions (ne_kv N) block (w_db n)))) (\<lambda>hashesMissing.
         pbind (pdo (if length hashesMissing > 0 then SendGT N addr hashesMissing ''bt'' else sret ())) (\<lambda>_.
         sync_reset N oldBlock))
     | Ok bl \<Rightarrow>
         pbind (pdo (scatch (on_db (StoreBlock (ne_kv N) bl)))) (\<lambda>r. case r of
           Panic \<Rightarrow> pdo (slift Panic)
         | Err e \<Rightarrow> sync_reset N oldBlock
         | Ok _ \<Rightarrow> pdo (sbind (commit_block N bl (bh_Height (GetHeader bl))) (\<lambda>_. sret True))))"

fun apply_pass :: "'d nenv \<Rightarrow> ip \<Rightarrow> checked \<Rightarrow> Block option \<Rightarrow> i64 list \<Rightarrow> Block list \<Rightarrow> ('d node, unit) pop" where
  "apply_pass N addr c prev is [] = pdo (sret ())"
| "apply_pass N addr c prev [] (block # bs) = pdo (slift Panic)"
| "apply_pass N addr c prev (index # is) (block # bs) =
     (if sint (bh_Height (GetHeader block)) \<le> sint (lastGoodBlock c)
      then apply_pass N addr c (map_option (\<lambda>_. block) prev) is bs
      else
      pbind (pdo (previous_block N prev index)) (\<lambda>oldBlock.
      pbind (sync_block N addr block oldBlock (map_of (merkleTries c) index)) (\<lambda>continue.
      if continue then apply_pass N addr c (Some block) is bs else pdo (sret ()))))"

text \<open>The blocks of the message and their heights.\<close>

fun rmap :: "('a \<Rightarrow> 'b result) \<Rightarrow> 'a list \<Rightarrow> 'b list result" where
  "rmap f [] = Ok []"
| "rmap f (x # xs) = rbind (f x) (\<lambda>y. rbind (rmap f xs) (\<lambda>ys. Ok (y # ys)))"

definition received_headers :: "EncryptionConfig \<Rightarrow> (topic, bytes list) gomap \<Rightarrow> (i64 list \<times> Block list) result" where
  "received_headers ec txn =
     rbind (rmap GetInt64FromByte (mgetd [] txn (topic_of ''IH''))) (\<lambda>indices.
     rbind (rmap (Block_GetFromBytes ec) (mgetd [] txn (topic_of ''HV''))) (\<lambda>blcks.
     Ok (indices, blcks)))"

definition on_headers :: "'d nenv \<Rightarrow> ip \<Rightarrow> TransactionsMessage \<Rightarrow> i64 \<Rightarrow> ('d node, unit) pop" where
  "on_headers N addr amsg h =
     pbind (pmust (pdo (sread (\<lambda>n. received_headers (n_ec n) (TransactionsBytes amsg))))) (\<lambda>(indices, blcks).
     pbind (pdo (sget n_heightMax)) (\<lambda>hmax.
     if indices = [] then pdo (slift Panic)
     else if sint (last indices) \<le> sint h \<or> sint (hd indices) > sint h then pdo (sret ())
     else
     pbind (check_pass N addr h hmax None indices blcks
       \<lparr>lastGoodBlock = hd indices, hashesMissingAll = [], merkleTries = []\<rparr>) (\<lambda>c.
     if hashesMissingAll c \<noteq> [] then pdo (SendGT N addr (hashesMissingAll c) ''bt'')
     else
     pbind (pdo (set_syncing True)) (\<lambda>_.
     pdefer (sbind (sget n_height) (\<lambda>h'. if sint h' > sint (CurrentHeightOfNetwork N) then set_syncing False else sret ()))
       (apply_pass N addr c None indices blcks)))))"

definition on_get_headers :: "'d nenv \<Rightarrow> ip \<Rightarrow> TransactionsMessage \<Rightarrow> ('d node, unit) op" where
  "on_get_headers N addr amsg =
     sbind (slift (rbind (first_of (topic_of ''BH'') (TransactionsBytes amsg)) GetInt64FromByte)) (\<lambda>bHeight.
     sbind (slift (rbind (first_of (topic_of ''EH'') (TransactionsBytes amsg)) GetInt64FromByte)) (\<lambda>eHeight.
     SendHeaders N addr bHeight eHeight))"

definition sync_OnMessage :: "'d nenv \<Rightarrow> ip \<Rightarrow> bytes \<Rightarrow> ('d node, unit) pop" where
  "sync_OnMessage N addr m n = precover (
     pbind (pdo (slift (CheckValidMessage (ne_chain N) m))) (\<lambda>(isValid, amsg).
     if \<not> isValid then pdo (distrust_peer N addr)
     else
     pbind (pdo (at_peers (ValidRegisterPeer addr))) (\<lambda>_.
     let head = bytes_string (Head (tm_BaseMessage amsg)) in
     if head = ''hi'' then pdo (on_height N addr amsg (n_height n))
     else if head = ''sh'' then on_headers N addr amsg (n_height n)
     else if head = ''gh'' then pdo (on_get_headers N addr amsg)
     else pdo (sret ())))) n"

section \<open>What is asked for\<close>

lemma asked_range_bounds:
  assumes "0 \<le> sint h" and "sint h < sint height" and "sint height < 2 ^ 63 - 1" and "asked_range h height = (b, e)"
  shows "0 \<le> sint b" and "sint b \<le> sint h" and "sint h < sint e" and "sint e \<le> sint height" and "sint e - sint b \<le> 21"
proof -
  have n: "sint NumberOfHashesInBucket = 20" by (simp add: NumberOfHashesInBucket_def)
  have d: "sint (height - h) = sint height - sint h" using assms(1-3) by (intro sint_i64_diff) auto
  then have d1: "sint (height - h + 1) = sint height - sint h + 1" using assms(1-3) by (subst sint_i64_add) auto
  define s2p where "s2p = (if sint (height - h + 1) > sint NumberOfHashesInBucket then NumberOfHashesInBucket else height - h + 1)"
  have s: "sint s2p = min 20 (sint height - sint h + 1)" using n d1 by (auto simp: s2p_def)
  have b0: "sint (height - s2p) = sint height - sint s2p" using assms(1-3) s by (intro sint_i64_diff) auto
  have e0: "sint (h + s2p) = sint h + sint s2p" if "sint height - s > sint h" "s = sint s2p" for s
    using assms(1-3) s that by (intro sint_i64_add) auto
  show "0 \<le> sint b" "sint b \<le> sint h" "sint h < sint e" "sint e \<le> sint height" "sint e - sint b \<le> 21"
    using assms b0 e0 s unfolding asked_range_def s2p_def [symmetric] Let_def
    by (auto split: if_splits)
qed

lemma heights_from_ends:
  assumes "sint b \<le> sint e"
  shows "heights_from b e \<noteq> []" and "hd (heights_from b e) = b" and "last (heights_from b e) = e"
    and "length (heights_from b e) = nat (sint e - sint b + 1)"
proof -
  show "heights_from b e \<noteq> []" "length (heights_from b e) = nat (sint e - sint b + 1)"
    using assms by (auto simp: heights_from_def)
  show "hd (heights_from b e) = b" using assms by (simp add: heights_from_def upto_rec1)
  show "last (heights_from b e) = e" using assms by (simp add: heights_from_def upto_rec2)
qed

lemma rmap_Ok: "(\<And>x. x \<in> set xs \<Longrightarrow> f x = Ok (g x)) \<Longrightarrow> rmap f xs = Ok (map g xs)"
  by (induction xs) auto

lemma rmap_map: "rmap f (map g xs) = rmap (\<lambda>x. f (g x)) xs"
  by (induction xs) auto

lemma load_range_Ok:
  "(\<And>i. i \<in> set is \<Longrightarrow> LoadBlock K ec i d = Ok (f i)) \<Longrightarrow> load_range K ec d is = Ok (map (\<lambda>i. Block_GetBytes (f i)) is)"
  by (induction "is") auto

section \<open>The first pass\<close>

text \<open>A reset from the first pass ends in a panic.\<close>

lemma fail_reset_not_Ok: "fail_reset N hmax index n \<noteq> Some (Ok c, n')" "reset_behind N index n \<noteq> Some (Ok c, n')"
  by (auto simp: fail_reset_def pdefer_def reset_behind_def pbind_def pdo_def slift_def
      split: option.splits prod.splits result.splits)

text \<open>What the checks of a new block establish, given the block before it.\<close>

definition follows :: "'d nenv \<Rightarrow> Block \<Rightarrow> i64 \<Rightarrow> Block \<Rightarrow> bool" where
  "follows N oldBlock index block \<longleftrightarrow>
     bh_Height (GetHeader block) = index \<and> PreviousHash (GetHeader block) = BlockHash oldBlock \<and>
     sint (Supply (bl_BaseBlock block)) \<le> sint MaxTotalSupply \<and>
     CheckProofOfSynergy (ne_log2 N) (bl_BaseBlock block) = Ok True \<and>
     CalcBlockHash (e_H256 (ne_env N)) block = BlockHash block"

lemma node_CheckBaseBlock_Ok:
  assumes "node_CheckBaseBlock N block oldBlock n = (Ok tree, n')" and "bh_Height (GetHeader block) = index"
  shows "follows N oldBlock index block"
  using assms CheckBaseBlock_Ok
  by (fastforce simp: node_CheckBaseBlock_def follows_def sbind_def sget_def zoom_def split: prod.splits)

text \<open>The first pass changes only votes and peers.\<close>

definition node_chain :: "'d node \<Rightarrow> AccountsType \<times> staking \<times> 'd \<times> i64 \<times> EncryptionConfig" where
  "node_chain n = (w_accounts n, w_staking n, w_db n, n_height n, n_ec n)"

lemma node_CheckBaseBlock_chain: "keeps node_chain (node_CheckBaseBlock N b l)"
  unfolding node_CheckBaseBlock_def by (auto intro!: effects keeps_zoom simp: node_chain_def split: prod.split)

lemma check_known_Ok:
  assumes "check_known N hmax index block c n = Some (Ok c', n')"
  shows "LoadHashOfBlock (ne_kv N) index (w_db n) = Ok (BlockHash block)" and "n' = n"
    and "c' = c\<lparr>lastGoodBlock := index\<rparr>"
  using assms fail_reset_not_Ok(1) [of N hmax index n c' n']
  by (auto simp: check_known_def pbind_def pdo_def sget_def slift_def sret_def split: result.splits if_splits)

lemma previous_block_Ok:
  assumes "previous_block N prev index n = (r, n')"
  shows "n' = n" and "r = Ok b \<Longrightarrow> prev = Some b \<or> prev = None \<and> LoadBlock (ne_kv N) (n_ec n) (index - 1) (w_db n) = Ok b"
  using assms by (auto simp: previous_block_def smust_def sread_eq sret_def split: option.splits result.splits)

lemma check_next_Ok:
  assumes "check_next N addr hmax b index block c n = Some (Ok c', n')"
  obtains tree miss where "follows N b index block" and "node_chain n' = node_chain n"
    and "IsAllTransactions (ne_kv N) block (w_db n) = Ok miss"
    and "c' = c\<lparr>hashesMissingAll := hashesMissingAll c @ miss, merkleTries := (index, tree) # merkleTries c\<rparr>"
proof -
  obtain r n1 where base: "node_CheckBaseBlock N block b n = (r, n1)" by fastforce
  have same: "node_chain n1 = node_chain n" using base by (rule keepsD [OF node_CheckBaseBlock_chain])
  have hgt: "bh_Height (GetHeader block) = index"
    using assms fail_reset_not_Ok(1) [of N hmax index n c' n'] by (auto simp: check_next_def split: if_splits)
  obtain tree where r: "r = Ok tree"
    using assms hgt base
    by (cases r) (auto simp: check_next_def pbind_pdo scatch_def slift_def fail_reset_not_Ok split: prod.splits result.splits)
  have "follows N b index block" using node_CheckBaseBlock_Ok [OF _ hgt] base r by blast
  with assms hgt base r same that show thesis
    by (auto simp: check_next_def pbind_pdo scatch_def sread_eq sret_def node_chain_def split: result.splits)
qed

lemma check_new_Ok:
  assumes "check_new N addr hmax prev index block c n = Some (Ok c', n')"
  obtains b tree miss where "prev = Some b \<or> prev = None \<and> LoadBlock (ne_kv N) (n_ec n) (index - 1) (w_db n) = Ok b"
    and "follows N b index block" and "node_chain n' = node_chain n" and "IsAllTransactions (ne_kv N) block (w_db n) = Ok miss"
    and "c' = c\<lparr>hashesMissingAll := hashesMissingAll c @ miss, merkleTries := (index, tree) # merkleTries c\<rparr>"
proof -
  obtain r n0 where o: "previous_block N prev index n = (r, n0)" by fastforce
  note O = previous_block_Ok [OF o]
  have second: "snd (read_second N index n) = n"
    by (simp add: read_second_def sdrop_def sread_eq sret_def split: result.split)
  obtain b where b: "r = Ok b" using assms o by (cases r) (simp_all add: check_new_def pbind_pdo)
  with assms o O(1) second have "check_next N addr hmax b index block c n = Some (Ok c', n')"
    by (auto simp: check_new_def pbind_pdo split: prod.splits result.splits)
  then show thesis by (rule check_next_Ok) (use that O(2) [OF b] in blast)
qed

text \<open>
  What the first pass lets through, for the block at every position of the message: at a height the node has, it is
  the node's own block; at a later height it follows the block before it in the message, or for the first such block
  the one that the node has stored.
\<close>

definition let_through :: "'d nenv \<Rightarrow> 'd node \<Rightarrow> i64 \<Rightarrow> Block option \<Rightarrow> i64 list \<Rightarrow> Block list \<Rightarrow> nat \<Rightarrow> bool" where
  "let_through N n h prev is bs i \<longleftrightarrow>
     (if sint (is ! i) \<le> sint h then LoadHashOfBlock (ne_kv N) (is ! i) (w_db n) = Ok (BlockHash (bs ! i))
      else if \<exists>j < i. sint (is ! j) > sint h then follows N (bs ! (i - 1)) (is ! i) (bs ! i)
      else case prev of
        Some b \<Rightarrow> follows N (if i = 0 then b else bs ! (i - 1)) (is ! i) (bs ! i)
      | None \<Rightarrow> \<exists>b. LoadBlock (ne_kv N) (n_ec n) (is ! i - 1) (w_db n) = Ok b \<and> follows N b (is ! i) (bs ! i))"

lemma let_through_cong: "node_chain n' = node_chain n \<Longrightarrow> let_through N n' h prev is bs i = let_through N n h prev is bs i"
  by (cases prev) (auto simp: let_through_def node_chain_def)

lemma let_through_Suc:
  assumes "let_through N n h prev' is bs i"
    and "prev' = (if sint index > sint h then Some block else map_option (\<lambda>_. block) prev)"
  shows "let_through N n h prev (index # is) (block # bs) (Suc i)"
proof -
  have "(\<exists>j < Suc i. sint ((index # is) ! j) > sint h) \<longleftrightarrow> sint index > sint h \<or> (\<exists>j < i. sint (is ! j) > sint h)"
    using less_Suc_eq_0_disj by auto
  with assms show ?thesis
    by (cases prev) (auto simp: let_through_def nth_Cons' split: if_splits option.splits)
qed

lemma check_pass_Ok:
  assumes "check_pass N addr h hmax prev is bs c n = Some (Ok c', n')" and "0 \<le> sint h"
  shows "node_chain n' = node_chain n \<and> length bs \<le> length is \<and>
    (\<forall>i < length bs. sint (is ! i) > 0 \<longrightarrow> let_through N n h prev is bs i)"
  using assms(1)
proof (induction bs arbitrary: prev "is" c n)
  case (Cons block bs prev is1)
  then obtain index "is" where is1: "is1 = index # is" by (cases is1) (simp_all add: slift_def)
  note run = Cons.prems(1) [unfolded is1]
  let ?new = "sint index > sint h"
  define prev' where "prev' = (if ?new then Some block else map_option (\<lambda>_. block) prev)"
  obtain c1 n1 where rest: "check_pass N addr h hmax prev' is bs c1 n1 = Some (Ok c', n')"
    and n1: "node_chain n1 = node_chain n" and first: "sint index > 0 \<Longrightarrow> let_through N n h prev (index # is) (block # bs) 0"
  proof (cases "sint index \<le> 0")
    case True
    with run assms(2) show thesis using that [of c n] by (auto simp: prev'_def Let_def)
  next
    case pos: False
    show thesis
    proof (cases ?new)
      case True
      with run pos obtain c1 n1 where "check_new N addr hmax prev index block c n = Some (Ok c1, n1)"
        "check_pass N addr h hmax prev' is bs c1 n1 = Some (Ok c', n')"
        by (auto simp: prev'_def Let_def elim!: pbind_SomeE)
      with True that show thesis by (auto elim!: check_new_Ok simp: let_through_def split: option.split)
    next
      case False
      with run pos obtain c1 n1 where known: "check_known N hmax index block c n = Some (Ok c1, n1)"
        and "check_pass N addr h hmax prev' is bs c1 n1 = Some (Ok c', n')"
        by (auto simp: prev'_def Let_def elim!: pbind_SomeE)
      with False check_known_Ok [OF known] show thesis by (intro that [of c1 n1]) (auto simp: let_through_def)
    qed
  qed
  have "node_chain n' = node_chain n1 \<and> length bs \<le> length is \<and>
    (\<forall>i < length bs. sint (is ! i) > 0 \<longrightarrow> let_through N n1 h prev' is bs i)"
    using Cons.IH rest by blast
  then show ?case
    using n1 first by (auto simp: is1 less_Suc_eq_0_disj let_through_cong [OF n1] intro!: let_through_Suc [OF _ prev'_def])
qed (simp_all add: slift_def sret_def)

section \<open>Properties\<close>



text \<open>A syncing node at height 7, whose blocks from 5 on are all the sample block, and a block that follows.\<close>

definition chain_keys :: memdb where
  "chain_keys = (BlocksDBPrefix @ replicate 32 7, Block_GetBytes sample_block) #
     map (\<lambda>i. (BlockByHeightDBPrefix @ GetByteInt64 i, replicate 32 7)) [5, 6, 7]"

definition sync_node :: "memdb node" where
  "sync_node = sample_node\<lparr>w_db := chain_keys, n_height := 7, n_syncing := True\<rparr>"

definition eighth_block :: Block where
  "eighth_block = (let bb = bl_BaseBlock sample_block in forge sample_digest (
     sample_block\<lparr>TransactionsHashes := [], bl_BaseBlock := bb\<lparr>
       bb_BaseHeader := (bb_BaseHeader bb)\<lparr>PreviousHash := replicate 32 7, bh_Height := 8, Encryption1 := [1],
         RootMerkleTree := EmptyHash\<rparr>, Supply := 0\<rparr>\<rparr>))"

lemma sync_node_blocks:
  assumes "i \<in> {5, 6, 7}"
  shows "LoadBlock mem_kv initEncryptionConfigInstance i chain_keys = Ok (Block_norm sample_block)"
  using assms by (auto simp: LoadBlock_def memdb.DB_Get_content chain_keys_def Block_GetFromBytes_GetBytes [OF sample_block_ok])

lemma sync_node_fields: "ne_kv sample_nenv = mem_kv" "n_ec sync_node = initEncryptionConfigInstance" "w_db sync_node = chain_keys"
  by (simp_all add: sample_nenv_def ne_kv_def sync_node_def sample_node_def world.defs)


lemma eighth_block_passes:
  "node_CheckBaseBlock sample_nenv eighth_block (Block_norm sample_block) sync_node = (Ok \<lparr>Root = [], TxHashes = []\<rparr>, sync_node)"
proof -
  define b where "b = sample_block\<lparr>TransactionsHashes := [], bl_BaseBlock := (bl_BaseBlock sample_block)\<lparr>
       bb_BaseHeader := (GetHeader sample_block)\<lparr>PreviousHash := replicate 32 7, bh_Height := 8, Encryption1 := [1],
         RootMerkleTree := EmptyHash\<rparr>, Supply := 0\<rparr>\<rparr>"
  let ?E = "env_at sample_nenv sync_node" and ?s = "w_staking sync_node" and ?old = "Block_norm sample_block"
  have b: "TransactionsHashes b = []" "PreviousHash (GetHeader b) = BlockHash ?old" "RootMerkleTree (GetHeader b) = EmptyHash"
    "Encryption1 (GetHeader b) \<noteq> []" "Encryption2 (GetHeader b) \<noteq> []" "Supply (bl_BaseBlock b) = 0"
    by (simp_all add: b_def sample_block_def Block_norm_def)
  have E: "e_H256 (ne_env sample_nenv) = sample_digest" "e_syncing ?E" "ne_oqs sample_nenv = sample_oqs" "ne_log2 sample_nenv = (\<lambda>_. NInf)"
    by (simp_all add: sample_nenv_def sync_node_def)
  have "CheckBaseBlock ?E sample_oqs (\<lambda>_. NInf) ?s (forge (e_H256 ?E) b) ?old v = check_content ?E sample_oqs ?s b ?old v" for v
    by (rule forge_passes) (simp_all add: b MaxTotalSupply_def)
  moreover have "BuildMerkleTree sample_digest [] = Ok \<lparr>Root = [], TxHashes = []\<rparr>" by code_simp
  then have "check_content ?E sample_oqs ?s b ?old v = (Ok \<lparr>Root = [], TxHashes = []\<rparr>, v)" for v
    using b E by (simp add: check_content_def base_block_leaves_def Let_def sbind_def slift_def sret_def GetRootHash_def)
  moreover have "eighth_block = forge sample_digest b" by (simp add: eighth_block_def b_def Let_def)
  ultimately show ?thesis
    using E by (simp add: node_CheckBaseBlock_def sbind_def sget_def zoom_def)
qed


end
