(* ===== verification/EVM_Code.thy ===== *)
theory EVM_Code
  imports StateDB Partial
begin

text \<open>
  The code of a contract: \<^verbatim>\<open>src/core/evm/analysis.go\<close> and the jump destinations of
  \<^verbatim>\<open>src/core/evm/contract.go\<close>.  The analysis marks, in a bit vector with one bit per byte of code, the bytes
  that are arguments of PUSH instructions.  Positions are natural numbers: the length of a slice is below \<open>2 ^ 63\<close>.
  An index past the end of the vector panics.

  The lemmas: the vector that is filled 16, 8 and fewer bits at a time is the one that a byte-by-byte reading of the
  code gives, and no index is out of range.
\<close>

unbundle bit_operations_syntax

type_synonym u64 = "64 word"
type_synonym u256 = "256 word"

section \<open>Bit vectors\<close>

type_synonym bitvec = "byte list"

text \<open>\<^verbatim>\<open>bits[i] = f(bits[i])\<close>\<close>

definition bset :: "nat \<Rightarrow> (byte \<Rightarrow> byte) \<Rightarrow> bitvec \<Rightarrow> bitvec result" where
  "bset i f bits = (if i < length bits then Ok (bits[i := f (bits ! i)]) else Panic)"

definition set1 :: "nat \<Rightarrow> bitvec \<Rightarrow> bitvec result" where
  "set1 pos bits = bset (pos div 8) (\<lambda>b. b OR push_bit (pos mod 8) 1) bits"

definition setN :: "16 word \<Rightarrow> nat \<Rightarrow> bitvec \<Rightarrow> bitvec result" where
  "setN flag pos bits =
     (let a = push_bit (pos mod 8) flag in
      rbind (bset (pos div 8) (\<lambda>b. b OR ucast a) bits) (\<lambda>bits'.
      let b = (ucast (drop_bit 8 a) :: byte) in
      if b \<noteq> 0 then bset (pos div 8 + 1) (\<lambda>_. b) bits' else Ok bits'))"

definition set8 :: "nat \<Rightarrow> bitvec \<Rightarrow> bitvec result" where
  "set8 pos bits =
     (let a = push_bit (pos mod 8) 0xFF in
      rbind (bset (pos div 8) (\<lambda>b. b OR a) bits) (\<lambda>bits'.
      bset (pos div 8 + 1) (\<lambda>_. NOT a) bits'))"

definition set16 :: "nat \<Rightarrow> bitvec \<Rightarrow> bitvec result" where
  "set16 pos bits =
     (let a = push_bit (pos mod 8) 0xFF in
      rbind (bset (pos div 8) (\<lambda>b. b OR a) bits) (\<lambda>bits1.
      rbind (bset (pos div 8 + 1) (\<lambda>_. 0xFF) bits1) (\<lambda>bits2.
      bset (pos div 8 + 2) (\<lambda>_. NOT a) bits2)))"

definition codeSegment :: "nat \<Rightarrow> bitvec \<Rightarrow> bool result" where
  "codeSegment pos bits =
     (if pos div 8 < length bits then Ok (drop_bit (pos mod 8) (bits ! (pos div 8)) AND 1 = 0) else Panic)"

text \<open>The marks for the \<open>numbits\<close> bytes behind a PUSH; the masks are \<open>2 ^ numbits - 1\<close>.\<close>

fun push_marks :: "nat \<Rightarrow> nat \<Rightarrow> bitvec \<Rightarrow> bitvec result" where
  "push_marks numbits pc bits =
     (if numbits \<ge> 16 then rbind (set16 pc bits) (push_marks (numbits - 16) (pc + 16))
      else if numbits \<ge> 8 then rbind (set8 pc bits) (push_marks (numbits - 8) (pc + 8))
      else if numbits = 0 then Ok bits
      else if numbits = 1 then set1 pc bits
      else setN (mask numbits) pc bits)"

declare push_marks.simps [simp del]

abbreviation PUSH1 :: byte where "PUSH1 \<equiv> 0x60"

function codeBitmapInternal :: "bytes \<Rightarrow> nat \<Rightarrow> bitvec \<Rightarrow> bitvec result" where
  "codeBitmapInternal code pc bits =
     (if pc < length code then
        let opc = code ! pc in
        if sint opc < sint PUSH1 then codeBitmapInternal code (pc + 1) bits
        else let numbits = unat (opc - PUSH1 + 1) in
          rbind (push_marks numbits (pc + 1) bits) (codeBitmapInternal code (pc + 1 + numbits))
      else Ok bits)"
  by pat_completeness auto
termination by (relation "measure (\<lambda>(code, pc, bits). length code - pc)") auto

declare codeBitmapInternal.simps [simp del]

definition codeBitmap :: "bytes \<Rightarrow> bitvec result" where
  "codeBitmap code = codeBitmapInternal code 0 (replicate (length code div 8 + 1 + 4) 0)"

section \<open>Reading the code byte by byte\<close>

definition push_size :: "byte \<Rightarrow> nat" where
  "push_size opc = (if 0x60 \<le> opc \<and> opc \<le> 0x7f then unat opc - 0x5f else 0)"

text \<open>For every byte of the code whether it is an instruction.\<close>

fun instruction_marks :: "bytes \<Rightarrow> bool list" where
  "instruction_marks [] = []"
| "instruction_marks (opc # rest) =
     True # replicate (min (push_size opc) (length rest)) False @ instruction_marks (drop (push_size opc) rest)"

lemma length_instruction_marks [simp]: "length (instruction_marks code) = length code"
  by (induction code rule: instruction_marks.induct) auto

section \<open>The marks\<close>

text \<open>The bit of a position, and setting a range of bits.\<close>

definition bit_at :: "bitvec \<Rightarrow> nat \<Rightarrow> bool" where
  "bit_at bits p \<longleftrightarrow> bit (bits ! (p div 8)) (p mod 8)"

definition marks :: "nat \<Rightarrow> nat \<Rightarrow> bitvec \<Rightarrow> bitvec \<Rightarrow> bool" where
  "marks pos k bits bits' \<longleftrightarrow> length bits' = length bits \<and>
     (\<forall>p < 8 * length bits. bit_at bits' p \<longleftrightarrow> bit_at bits p \<or> pos \<le> p \<and> p < pos + k)"

definition clear_from :: "nat \<Rightarrow> bitvec \<Rightarrow> bool" where
  "clear_from pos bits \<longleftrightarrow> (\<forall>p < 8 * length bits. pos \<le> p \<longrightarrow> \<not> bit_at bits p)"

lemma codeSegment_bit_at: "pos < 8 * length bits \<Longrightarrow> codeSegment pos bits = Ok (\<not> bit_at bits pos)"
  by (simp add: codeSegment_def bit_at_def bit_iff_odd_drop_bit and_one_eq odd_iff_mod_2_eq_one even_iff_mod_2_eq_zero
      flip: mod_2_eq_odd)

lemma marksI:
  assumes "length bits' = length bits"
    and "\<And>i j. i < length bits \<Longrightarrow> j < 8 \<Longrightarrow>
      bit (bits' ! i) j \<longleftrightarrow> bit (bits ! i) j \<or> q * 8 + r \<le> 8 * i + j \<and> 8 * i + j < q * 8 + r + k"
    and "pos = q * 8 + r"
  shows "marks pos k bits bits'"
  unfolding marks_def bit_at_def
proof (intro conjI allI impI)
  fix p assume "p < 8 * length bits"
  then show "bit (bits' ! (p div 8)) (p mod 8) \<longleftrightarrow> bit (bits ! (p div 8)) (p mod 8) \<or> pos \<le> p \<and> p < pos + k"
    using assms(2) [of "p div 8" "p mod 8"] assms(3) by (simp add: less_mult_imp_div_less mult.commute)
qed (fact assms(1))

lemma clear_fromD: "clear_from pos bits \<Longrightarrow> i < length bits \<Longrightarrow> j < 8 \<Longrightarrow> pos \<le> 8 * i + j \<Longrightarrow> \<not> bit (bits ! i) j"
  unfolding clear_from_def bit_at_def by (drule spec [of _ "8 * i + j"]) simp

lemma marks_clear: "marks pos k bits bits' \<Longrightarrow> clear_from pos bits \<Longrightarrow> clear_from (pos + k) bits'"
  by (auto simp: marks_def clear_from_def)

lemma marks_trans: "marks pos k bits bits1 \<Longrightarrow> marks (pos + k) m bits1 bits2 \<Longrightarrow> marks pos (k + m) bits bits2"
  by (auto simp: marks_def)

lemma marks_zero [simp]: "marks pos 0 bits bits"
  by (auto simp: marks_def)

lemma byte_position:
  obtains q r where "pos = q * 8 + r" and "r < 8" and "pos div 8 = q" and "pos mod 8 = (r :: nat)"
  by (rule that [of "pos div 8" "pos mod 8"]) simp_all

lemma bit_byte_ones: "j < 8 \<Longrightarrow> bit (0xFF :: byte) j"
  by (auto simp: less_Suc_eq numeral_eq_Suc)

lemma set1_marks:
  assumes "pos div 8 < length bits"
  shows "\<exists>bits'. set1 pos bits = Ok bits' \<and> marks pos 1 bits bits'"
proof -
  obtain q r where pos: "pos = q * 8 + r" "r < 8" "pos div 8 = q" "pos mod 8 = r" by (rule byte_position)
  have "marks pos 1 bits (bits[q := bits ! q OR push_bit r 1])"
  proof (rule marksI [where q = q and r = r])
    fix i j assume ij: "i < length bits" "j < (8 :: nat)"
    then show "bit (bits[q := bits ! q OR push_bit r 1] ! i) j \<longleftrightarrow>
        bit (bits ! i) j \<or> q * 8 + r \<le> 8 * i + j \<and> 8 * i + j < q * 8 + r + 1"
      using pos(2) by (cases "i = q") (auto simp: bit_or_iff bit_exp_iff)
  qed (simp_all add: pos)
  then show ?thesis using assms by (simp add: set1_def bset_def pos)
qed

lemma setN_marks:
  assumes "clear_from pos bits" and "pos + k \<le> 8 * length bits" and "k \<le> 7" and "0 < k"
  shows "\<exists>bits'. setN (mask k) pos bits = Ok bits' \<and> marks pos k bits bits'"
proof -
  obtain q r where pos: "pos = q * 8 + r" "r < 8" "pos div 8 = q" "pos mod 8 = r" by (rule byte_position)
  define a :: "16 word" where "a = push_bit r (mask k)"
  define b :: byte where "b = ucast (drop_bit 8 a)"
  have low: "bit (ucast a :: byte) j \<longleftrightarrow> r \<le> j \<and> j < r + k" if "j < 8" for j
    using that assms(3) by (auto simp: a_def bit_ucast_iff bit_push_bit_iff bit_mask_iff)
  have high: "bit b j \<longleftrightarrow> j + 8 < r + k" if "j < 8" for j
    using that assms(3) pos(2) by (auto simp: b_def a_def bit_ucast_iff bit_drop_bit_eq bit_push_bit_iff bit_mask_iff)
  have none: "\<not> bit b j" if "b = 0" for j using that by simp
  define bits' where "bits' = (if b = 0 then bits[q := bits ! q OR ucast a] else bits[q := bits ! q OR ucast a, q + 1 := b])"
  have "marks pos k bits bits'"
  proof (rule marksI [where q = q and r = r])
    fix i j assume ij: "i < length bits" "j < (8 :: nat)"
    consider "i = q" | "i = q + 1" | "i < q" | "i > q + 1" by linarith
    then show "bit (bits' ! i) j \<longleftrightarrow> bit (bits ! i) j \<or> q * 8 + r \<le> 8 * i + j \<and> 8 * i + j < q * 8 + r + k"
    proof cases
      case 1 with ij low pos(2) show ?thesis by (auto simp: bits'_def bit_or_iff)
    next
      case 2
      then have "\<not> bit (bits ! i) j" using clear_fromD [OF assms(1) ij] pos by simp
      with 2 ij high [OF ij(2)] none [of j] pos(2) show ?thesis by (auto simp: bits'_def)
    next
      case 3 with ij pos(2) assms(3) show ?thesis by (auto simp: bits'_def)
    next
      case 4 with ij pos(2) assms(3) show ?thesis by (auto simp: bits'_def)
    qed
  qed (simp_all add: bits'_def pos)
  moreover have "q < length bits" using assms(2,4) pos by linarith
  moreover have "q + 1 < length bits" if "b \<noteq> 0"
  proof -
    obtain j where j: "bit b j" using \<open>b \<noteq> 0\<close> by (auto simp: bit_eq_iff)
    then have "j < 8" using bit_imp_le_length [of b j] by simp
    with j high [of j] assms(2) pos show ?thesis by linarith
  qed
  ultimately show ?thesis
    by (auto simp: setN_def bset_def bits'_def Let_def pos a_def [symmetric] b_def [symmetric])
qed

lemma set8_marks:
  assumes "clear_from pos bits" and "pos div 8 + 1 < length bits"
  shows "\<exists>bits'. set8 pos bits = Ok bits' \<and> marks pos 8 bits bits'"
proof -
  obtain q r where pos: "pos = q * 8 + r" "r < 8" "pos div 8 = q" "pos mod 8 = r" by (rule byte_position)
  define a :: byte where "a = push_bit r 0xFF"
  have a: "bit a j \<longleftrightarrow> r \<le> j" if "j < 8" for j
    using that bit_byte_ones [of "j - r"] by (auto simp: a_def bit_push_bit_iff)
  define bits' where "bits' = bits[q := bits ! q OR a, q + 1 := NOT a]"
  have "marks pos 8 bits bits'"
  proof (rule marksI [where q = q and r = r])
    fix i j assume ij: "i < length bits" "j < (8 :: nat)"
    consider "i = q" | "i = q + 1" | "i < q" | "i > q + 1" by linarith
    then show "bit (bits' ! i) j \<longleftrightarrow> bit (bits ! i) j \<or> q * 8 + r \<le> 8 * i + j \<and> 8 * i + j < q * 8 + r + 8"
    proof cases
      case 1 with ij a pos(2) show ?thesis by (auto simp: bits'_def bit_or_iff)
    next
      case 2
      then have "\<not> bit (bits ! i) j" using clear_fromD [OF assms(1) ij] pos by simp
      with 2 ij a [OF ij(2)] pos(2) show ?thesis by (auto simp: bits'_def bit_not_iff)
    qed (use ij pos(2) in \<open>auto simp: bits'_def\<close>)
  qed (simp_all add: bits'_def pos)
  then show ?thesis
    using assms(2) by (simp add: set8_def bset_def bits'_def Let_def pos a_def [symmetric])
qed

lemma set16_marks:
  assumes "clear_from pos bits" and "pos div 8 + 2 < length bits"
  shows "\<exists>bits'. set16 pos bits = Ok bits' \<and> marks pos 16 bits bits'"
proof -
  obtain q r where pos: "pos = q * 8 + r" "r < 8" "pos div 8 = q" "pos mod 8 = r" by (rule byte_position)
  define a :: byte where "a = push_bit r 0xFF"
  have a: "bit a j \<longleftrightarrow> r \<le> j" if "j < 8" for j
    using that bit_byte_ones [of "j - r"] by (auto simp: a_def bit_push_bit_iff)
  define bits' where "bits' = bits[q := bits ! q OR a, q + 1 := 0xFF, q + 2 := NOT a]"
  have "marks pos 16 bits bits'"
  proof (rule marksI [where q = q and r = r])
    fix i j assume ij: "i < length bits" "j < (8 :: nat)"
    consider "i = q" | "i = q + 1" | "i = q + 2" | "i < q" | "i > q + 2" by linarith
    then show "bit (bits' ! i) j \<longleftrightarrow> bit (bits ! i) j \<or> q * 8 + r \<le> 8 * i + j \<and> 8 * i + j < q * 8 + r + 16"
    proof cases
      case 1 with ij a pos(2) show ?thesis by (auto simp: bits'_def bit_or_iff)
    next
      case 2 with ij pos(2) bit_byte_ones [OF ij(2)] show ?thesis by (auto simp: bits'_def)
    next
      case 3
      then have "\<not> bit (bits ! i) j" using clear_fromD [OF assms(1) ij] pos by simp
      with 3 ij a [OF ij(2)] pos(2) show ?thesis by (auto simp: bits'_def bit_not_iff)
    qed (use ij pos(2) in \<open>auto simp: bits'_def\<close>)
  qed (simp_all add: bits'_def pos)
  then show ?thesis
    using assms(2) by (simp add: set16_def bset_def bits'_def Let_def pos a_def [symmetric])
qed

text \<open>All marks of a PUSH, and all of the code: nothing is out of range.\<close>

lemma push_marks_ok:
  assumes "clear_from pos bits" and "pos + k < 8 * length bits"
  shows "\<exists>bits'. push_marks k pos bits = Ok bits' \<and> marks pos k bits bits'"
  using assms
proof (induction k arbitrary: pos bits rule: less_induct)
  case (less k)
  have step: "\<exists>bits'. rbind r (push_marks (k - m) (pos + m)) = Ok bits' \<and> marks pos k bits bits'"
    if m: "0 < m" "m \<le> k" and r: "\<exists>bits1. r = Ok bits1 \<and> marks pos m bits bits1" for m r
  proof -
    obtain bits1 where b1: "r = Ok bits1" "marks pos m bits bits1" using r by blast
    have len: "length bits1 = length bits" using b1(2) by (simp add: marks_def)
    obtain bits2 where "push_marks (k - m) (pos + m) bits1 = Ok bits2" "marks (pos + m) (k - m) bits1 bits2"
      using less.IH [of "k - m" "pos + m" bits1] m less.prems marks_clear [OF b1(2)] len by auto
    with b1 marks_trans [OF b1(2), of "k - m" bits2] m show ?thesis by auto
  qed
  consider "k \<ge> 16" | "k < 16" "k \<ge> 8" | "k = 0" | "k = 1" | "k \<ge> 2" "k < 8" by linarith
  then show ?case
  proof cases
    case 1
    then have "\<exists>bits1. set16 pos bits = Ok bits1 \<and> marks pos 16 bits bits1"
      using less.prems by (intro set16_marks) auto
    from step [OF _ 1 this] 1 show ?thesis by (subst push_marks.simps) simp
  next
    case 2
    then have "\<exists>bits1. set8 pos bits = Ok bits1 \<and> marks pos 8 bits bits1"
      using less.prems by (intro set8_marks) auto
    from step [OF _ 2(2) this] 2 show ?thesis by (subst push_marks.simps) simp
  next
    case 3 then show ?thesis by (subst push_marks.simps) simp
  next
    case 4
    then have "pos div 8 < length bits" using less.prems by auto
    from set1_marks [OF this] 4 show ?thesis by (subst push_marks.simps) simp
  next
    case 5
    with setN_marks [OF less.prems(1), of k] less.prems(2) show ?thesis by (subst push_marks.simps) simp
  qed
qed

lemma push_size_signed:
  "sint opc < sint PUSH1 \<longleftrightarrow> push_size opc = 0" "\<not> sint opc < sint PUSH1 \<Longrightarrow> unat (opc - PUSH1 + 1) = push_size opc"
  "push_size opc \<le> 32"
proof -
  have "\<forall>b \<in> set (map word_of_nat [0..<256] :: byte list). (sint b < sint PUSH1 \<longleftrightarrow> push_size b = 0) \<and>
      (\<not> sint b < sint PUSH1 \<longrightarrow> unat (b - PUSH1 + 1) = push_size b) \<and> push_size b \<le> 32" by code_simp
  moreover have "opc \<in> set (map word_of_nat [0..<256] :: byte list)"
    using unsigned_less [of opc] by (auto intro!: image_eqI [of _ _ "unat opc"])
  ultimately show "sint opc < sint PUSH1 \<longleftrightarrow> push_size opc = 0"
    "\<not> sint opc < sint PUSH1 \<Longrightarrow> unat (opc - PUSH1 + 1) = push_size opc" "push_size opc \<le> 32" by blast+
qed

lemma instruction_marks_drop:
  assumes "pc < length code" and "pc \<le> p" and "p < length code"
  shows "instruction_marks (drop pc code) ! (p - pc) \<longleftrightarrow>
    p = pc \<or> pc + 1 + push_size (code ! pc) \<le> p \<and>
      instruction_marks (drop (pc + 1 + push_size (code ! pc)) code) ! (p - (pc + 1 + push_size (code ! pc)))"
proof -
  let ?k = "push_size (code ! pc)"
  have "drop pc code = code ! pc # drop (pc + 1) code" using assms(1) by (simp add: Cons_nth_drop_Suc)
  then have eq: "instruction_marks (drop pc code) =
      True # replicate (min ?k (length code - (pc + 1))) False @ instruction_marks (drop (pc + 1 + ?k) code)"
    by (simp add: add.commute)
  show ?thesis
    unfolding eq using assms by (auto simp: nth_Cons' nth_append split: if_splits)
qed

lemma codeBitmapInternal_marks:
  assumes "clear_from pc bits" and "length code + 32 < 8 * length bits"
  shows "\<exists>bits'. codeBitmapInternal code pc bits = Ok bits' \<and> length bits' = length bits \<and>
    (\<forall>p < length code. bit_at bits' p \<longleftrightarrow> bit_at bits p \<or> pc \<le> p \<and> \<not> instruction_marks (drop pc code) ! (p - pc))"
  using assms
proof (induction code pc bits rule: codeBitmapInternal.induct)
  case (1 code pc bits)
  show ?case
  proof (cases "pc < length code")
    case True
    let ?k = "push_size (code ! pc)"
    obtain bits1 where b1: "marks (pc + 1) ?k bits bits1"
      and run: "codeBitmapInternal code pc bits = codeBitmapInternal code (pc + 1 + ?k) bits1"
      and ih: "\<exists>bits'. codeBitmapInternal code (pc + 1 + ?k) bits1 = Ok bits' \<and> length bits' = length bits1 \<and>
        (\<forall>p < length code. bit_at bits' p \<longleftrightarrow> bit_at bits1 p \<or>
          pc + 1 + ?k \<le> p \<and> \<not> instruction_marks (drop (pc + 1 + ?k) code) ! (p - (pc + 1 + ?k)))"
    proof (cases "sint (code ! pc) < sint PUSH1")
      case small: True
      then have k: "?k = 0" using push_size_signed(1) by simp
      have "clear_from (pc + 1) bits" using 1(3) by (simp add: clear_from_def)
      from 1(1) [OF True refl small this 1(4)] small True show thesis
        by (intro that [of bits]) (simp_all add: k codeBitmapInternal.simps [of code pc bits])
    next
      case False
      have k: "unat (code ! pc - 95) = ?k" using push_size_signed(2) [OF False] by simp
      have clear: "clear_from (pc + 1) bits" using 1(3) by (simp add: clear_from_def)
      obtain bits1 where b1: "push_marks ?k (pc + 1) bits = Ok bits1" "marks (pc + 1) ?k bits bits1"
        using push_marks_ok [OF clear, of ?k] push_size_signed(3) [of "code ! pc"] True 1(4) by auto
      have "length bits1 = length bits" using b1(2) by (simp add: marks_def)
      with 1(2) [OF True refl False refl, of bits1] marks_clear [OF b1(2) clear] 1(4) b1 False True show thesis
        by (intro that [of bits1]) (simp_all add: k codeBitmapInternal.simps [of code pc bits] Let_def)
    qed
    from ih obtain bits' where fin: "codeBitmapInternal code (pc + 1 + ?k) bits1 = Ok bits'" "length bits' = length bits1"
      "\<And>p. p < length code \<Longrightarrow> bit_at bits' p \<longleftrightarrow> bit_at bits1 p \<or>
          pc + 1 + ?k \<le> p \<and> \<not> instruction_marks (drop (pc + 1 + ?k) code) ! (p - (pc + 1 + ?k))" by blast
    have "bit_at bits' p \<longleftrightarrow> bit_at bits p \<or> pc \<le> p \<and> \<not> instruction_marks (drop pc code) ! (p - pc)" if "p < length code" for p
      using fin(3) [OF that] b1 1(4) that instruction_marks_drop [OF True _ that] by (auto simp: marks_def)
    with fin run b1 show ?thesis by (auto simp: marks_def)
  qed (simp add: codeBitmapInternal.simps)
qed

section \<open>Properties\<close>

text \<open>
  C39: the analysis of the code is right.  It never indexes outside its bit vector, and for every byte of the code the
  bit says whether the byte is an instruction or an argument of a PUSH, as reading the code from its first byte does.
\<close>

theorem codeBitmap_marks_instructions:
  "\<exists>bits. codeBitmap code = Ok bits \<and>
    (\<forall>pos < length code. codeSegment pos bits = Ok (instruction_marks code ! pos))"
proof -
  let ?zeros = "replicate (length code div 8 + 1 + 4) (0 :: byte)"
  have "clear_from 0 ?zeros" by (auto simp: clear_from_def bit_at_def)
  moreover have room: "length code + 32 < 8 * length ?zeros" by simp
  ultimately obtain bits where "codeBitmap code = Ok bits" "length bits = length ?zeros"
    "\<And>p. p < length code \<Longrightarrow> bit_at bits p \<longleftrightarrow> bit_at ?zeros p \<or> \<not> instruction_marks code ! p"
    using codeBitmapInternal_marks [of 0 ?zeros code] by (auto simp: codeBitmap_def)
  moreover have "\<not> bit_at ?zeros p" if "p < length code" for p
    using that room by (simp add: bit_at_def less_mult_imp_div_less)
  ultimately show ?thesis
    using room codeSegment_bit_at [of _ bits] by (intro exI [of _ bits]) auto
qed

theorem codeBitmap_marks_instructions_witness:
  "\<exists>bits. codeBitmap [0x60, 0x5b, 0x5b] = Ok bits \<and> codeSegment 1 bits = Ok False \<and> codeSegment 2 bits = Ok True"
proof -
  have m: "instruction_marks [0x60, 0x5b, 0x5b] = [True, False, True]" by code_simp
  obtain bits where "codeBitmap [0x60, 0x5b, 0x5b] = Ok bits"
    "\<forall>pos < length [0x60 :: byte, 0x5b, 0x5b]. codeSegment pos bits = Ok (instruction_marks [0x60, 0x5b, 0x5b] ! pos)"
    using codeBitmap_marks_instructions [of "[0x60, 0x5b, 0x5b]"] by blast
  moreover from this(2) have "codeSegment 1 bits = Ok False" "codeSegment 2 bits = Ok True"
    unfolding m by (auto dest: spec [of _ 1] spec [of _ 2])
  ultimately show ?thesis by blast
qed

end
