(* ===== verification/EVM_Base.thy ===== *)
theory EVM_Base
  imports EVM_Code
begin

text \<open>
  The state of the virtual machine: stack, memory and contract of \<^verbatim>\<open>src/core/evm/stack.go\<close>, \<^verbatim>\<open>memory.go\<close> and
  \<^verbatim>\<open>contract.go\<close>, the helpers of \<^verbatim>\<open>common.go\<close> and \<^verbatim>\<open>src/common/math/integer.go\<close>, the errors of
  \<^verbatim>\<open>errors.go\<close> and the precompiled contracts that \<^verbatim>\<open>contracts.go\<close> selects.

  A \<^verbatim>\<open>uint256.Int\<close> is a word of 256 bits, a \<^verbatim>\<open>*big.Int\<close> an integer; what the library computes beyond the operations
  of the word type is the parameter \<open>u256_lib\<close>.  The stack is a list with the top in front.  The cache of
  jump analyses, a map that all contracts of one call share, is a field of the machine.  A slice of the memory past its
  length panics (Go would allow it up to the capacity).
\<close>

section \<open>Words\<close>

definition IsUint64 :: "u256 \<Rightarrow> bool" where
  "IsUint64 x \<longleftrightarrow> uint x < 2 ^ 64"

definition Uint64 :: "u256 \<Rightarrow> u64" where
  "Uint64 x = ucast x"

definition Uint64WithOverflow :: "u256 \<Rightarrow> u64 \<times> bool" where
  "Uint64WithOverflow x = (Uint64 x, \<not> IsUint64 x)"

definition Bytes32 :: "u256 \<Rightarrow> bytes" where
  "Bytes32 x = be_bytes 32 x"

definition Bytes20 :: "u256 \<Rightarrow> bytes" where
  "Bytes20 x = drop 12 (Bytes32 x)"

definition SetBytes :: "bytes \<Rightarrow> u256" where
  "SetBytes b = be_word (drop (length b - 32) b)"

definition FromBig :: "int \<Rightarrow> u256" where
  "FromBig i = word_of_int i"

text \<open>The arithmetic of the library that is not an operation of words.\<close>

record u256_lib =
  u_Div :: "u256 \<Rightarrow> u256 \<Rightarrow> u256"
  u_SDiv :: "u256 \<Rightarrow> u256 \<Rightarrow> u256"
  u_Mod :: "u256 \<Rightarrow> u256 \<Rightarrow> u256"
  u_SMod :: "u256 \<Rightarrow> u256 \<Rightarrow> u256"
  u_Exp :: "u256 \<Rightarrow> u256 \<Rightarrow> u256"
  u_ExtendSign :: "u256 \<Rightarrow> u256 \<Rightarrow> u256"
  u_Byte :: "u256 \<Rightarrow> u256 \<Rightarrow> u256"
  u_AddMod :: "u256 \<Rightarrow> u256 \<Rightarrow> u256 \<Rightarrow> u256"
  u_MulMod :: "u256 \<Rightarrow> u256 \<Rightarrow> u256 \<Rightarrow> u256"
  u_SRsh :: "u256 \<Rightarrow> nat \<Rightarrow> u256"
  u_BitLen :: "u256 \<Rightarrow> nat"

text \<open>Sums and products with their overflow.\<close>

definition SafeAdd :: "u64 \<Rightarrow> u64 \<Rightarrow> u64 \<times> bool" where
  "SafeAdd x y = (x + y, uint x + uint y \<ge> 2 ^ 64)"

definition SafeMul :: "u64 \<Rightarrow> u64 \<Rightarrow> u64 \<times> bool" where
  "SafeMul x y = (x * y, uint x * uint y \<ge> 2 ^ 64)"

definition MaxUint64 :: u64 where "MaxUint64 = - 1"

section \<open>Errors\<close>

datatype vmerr =
    ErrOutOfGas | ErrCodeStoreOutOfGas | ErrDepth | ErrInsufficientBalance | ErrContractAddressCollision
  | ErrExecutionReverted | ErrMaxCodeSizeExceeded | ErrInvalidJump | ErrWriteProtection | ErrReturnDataOutOfBounds
  | ErrGasUintOverflow | ErrInvalidCode | ErrNonceUintOverflow | errStopToken
  | ErrStackUnderflow int int | ErrStackOverflow int int | ErrInvalidOpCode byte | ErrPrecompiled string

section \<open>Addresses\<close>

definition SetByteAddress :: "bytes \<Rightarrow> Address" where
  "SetByteAddress b = (case Address_Init zero_Address b of Ok a \<Rightarrow> a | _ \<Rightarrow> zero_Address)"

text \<open>A failing \<^verbatim>\<open>Init\<close> leaves the zero address.\<close>

definition BytesToVMAddress :: "bytes \<Rightarrow> Address" where
  "BytesToVMAddress b =
     (case Address_Init zero_Address (if length b > AddressLength then drop (length b - AddressLength) b else b) of
        Ok a \<Rightarrow> a | _ \<Rightarrow> zero_Address)"

definition word_address :: "u256 \<Rightarrow> Address" where
  "word_address x = SetByteAddress (Bytes20 x)"

section \<open>Helpers\<close>

definition RightPadBytes :: "bytes \<Rightarrow> int \<Rightarrow> bytes" where
  "RightPadBytes b l = (if l \<le> int (length b) then b else b @ replicate (nat l - length b) 0)"

definition LeftPadBytes :: "bytes \<Rightarrow> int \<Rightarrow> bytes" where
  "LeftPadBytes b l = (if l \<le> int (length b) then b else replicate (nat l - length b) 0 @ b)"

definition calcMemSize64WithUint :: "u256 \<Rightarrow> u64 \<Rightarrow> u64 \<times> bool" where
  "calcMemSize64WithUint off length64 =
     (if length64 = 0 then (0, False)
      else let (offset64, overflow) = Uint64WithOverflow off in
        if overflow then (0, True)
        else let val = offset64 + length64 in (val, val < offset64))"

definition calcMemSize64 :: "u256 \<Rightarrow> u256 \<Rightarrow> u64 \<times> bool" where
  "calcMemSize64 off l = (if \<not> IsUint64 l then (0, True) else calcMemSize64WithUint off (Uint64 l))"

definition getData :: "bytes \<Rightarrow> u64 \<Rightarrow> u64 \<Rightarrow> bytes result" where
  "getData data start sz =
     (let len = len64 data;
          start' = (if start > len then len else start);
          end0 = start' + sz;
          end' = (if end0 > len then len else end0)
      in rbind (slice data (unat start') (unat end')) (\<lambda>b. Ok (RightPadBytes b (sint sz))))"

definition toWordSize :: "u64 \<Rightarrow> u64" where
  "toWordSize sz = (if sz > MaxUint64 - 31 then MaxUint64 div 32 + 1 else (sz + 31) div 32)"

section \<open>Stack\<close>

definition Back :: "nat \<Rightarrow> u256 list \<Rightarrow> u256 result" where
  "Back n st = (if n < length st then Ok (st ! n) else Panic)"

section \<open>Memory\<close>

record Memory =
  store :: bytes
  lastGasCost :: u64

definition NewMemory :: Memory where "NewMemory = \<lparr>store = [], lastGasCost = 0\<rparr>"

definition Memory_Set :: "u64 \<Rightarrow> u64 \<Rightarrow> bytes \<Rightarrow> Memory \<Rightarrow> Memory result" where
  "Memory_Set offset sz v m =
     (if sz = 0 then Ok m
      else let e = offset + sz; b = store m in
        if unat e > length b \<or> unat offset > unat e then Panic
        else Ok (m\<lparr>store := take (unat offset) b @ copy_into (take (unat e - unat offset) (drop (unat offset) b)) v @ drop (unat e) b\<rparr>))"

definition Set32 :: "u64 \<Rightarrow> u256 \<Rightarrow> Memory \<Rightarrow> Memory result" where
  "Set32 offset val m =
     (let b = store m in
      if unat (offset + 32) > length b \<or> unat offset > length b then Panic
      else Ok (m\<lparr>store := take (unat offset) b @ copy_into (drop (unat offset) b) (Bytes32 val)\<rparr>))"

text \<open>\<^verbatim>\<open>m.store[off] = v\<close>\<close>

definition set_byte :: "u64 \<Rightarrow> byte \<Rightarrow> Memory \<Rightarrow> Memory result" where
  "set_byte off v m = (if unat off < length (store m) then Ok (m\<lparr>store := (store m)[unat off := v]\<rparr>) else Panic)"

definition Resize :: "u64 \<Rightarrow> Memory \<Rightarrow> Memory" where
  "Resize sz m = (if length (store m) < unat sz
     then m\<lparr>store := store m @ replicate (unat sz - length (store m)) 0\<rparr> else m)"

definition GetPtr :: "i64 \<Rightarrow> i64 \<Rightarrow> Memory \<Rightarrow> bytes result" where
  "GetPtr offset sz m =
     (if sz = 0 then Ok []
      else if int (length (store m)) > sint offset
      then if sint offset < 0 \<or> sint (offset + sz) < 0 then Panic
        else slice (store m) (nat (sint offset)) (nat (sint (offset + sz)))
      else Ok [])"

text \<open>The copy has the length \<^verbatim>\<open>size\<close>, which must not be negative.\<close>

definition GetCopy :: "i64 \<Rightarrow> i64 \<Rightarrow> Memory \<Rightarrow> bytes result" where
  "GetCopy offset sz m =
     (if sz = 0 then Ok []
      else if int (length (store m)) > sint offset
      then if sint sz < 0 \<or> sint offset < 0 \<or> sint (offset + sz) < 0 then Panic
        else rbind (slice (store m) (nat (sint offset)) (nat (sint (offset + sz)))) (\<lambda>b.
          Ok (copy_into (replicate (nat (sint sz)) 0) b))
      else Ok [])"

section \<open>Contracts\<close>

record Contract =
  CallerAddress :: Address
  c_self :: Address
  c_analysis :: "bitvec option"
  c_Code :: bytes
  c_CodeHash :: hash
  c_Input :: bytes
  Gas :: u64
  c_value :: int

datatype ContractRef = AccountRef Address | ContractRef Contract

fun ref_Address :: "ContractRef \<Rightarrow> Address" where
  "ref_Address (AccountRef a) = a"
| "ref_Address (ContractRef c) = c_self c"

text \<open>The machine, without the frame of the running call.\<close>

record evm =
  evm_StateDB :: StateAccount
  evm_depth :: int
  callGasTemp :: u64
  in_readOnly :: bool
  in_returnData :: bytes
  jumpdests :: "(hash, bitvec) gomap"
  log_Output :: bytes

text \<open>A contract without a contract as its caller gets a new cache.\<close>

definition NewContract :: "ContractRef \<Rightarrow> Address \<Rightarrow> int \<Rightarrow> u64 \<Rightarrow> (evm, Contract) op" where
  "NewContract caller object v gas =
     sbind (case caller of ContractRef _ \<Rightarrow> sret () | AccountRef _ \<Rightarrow> supd (\<lambda>e. e\<lparr>jumpdests := []\<rparr>)) (\<lambda>_.
     sret \<lparr>CallerAddress = ref_Address caller, c_self = object, c_analysis = None, c_Code = [], c_CodeHash = EmptyHash,
       c_Input = [], Gas = gas, c_value = v\<rparr>)"

definition AsDelegate :: "Contract \<Rightarrow> Contract \<Rightarrow> Contract" where
  "AsDelegate parent c = c\<lparr>CallerAddress := CallerAddress parent, c_value := c_value parent\<rparr>"

definition SetCallCode :: "hash \<Rightarrow> bytes \<Rightarrow> Contract \<Rightarrow> Contract" where
  "SetCallCode hash code c = c\<lparr>c_Code := code, c_CodeHash := hash\<rparr>"

definition GetOp :: "u64 \<Rightarrow> Contract \<Rightarrow> byte" where
  "GetOp n c = (if unat n < length (c_Code c) then c_Code c ! unat n else 0)"

definition UseGas :: "u64 \<Rightarrow> Contract \<Rightarrow> bool \<times> Contract" where
  "UseGas gas c = (if Gas c < gas then (False, c) else (True, c\<lparr>Gas := Gas c - gas\<rparr>))"

section \<open>The running call\<close>

record vm =
  ev :: evm
  pc :: u64
  stack :: "u256 list"
  mem :: Memory
  contract :: Contract

abbreviation on_ev :: "(evm, 'a) op \<Rightarrow> (vm, 'a) op" where
  "on_ev \<equiv> zoom ev ev_update"

definition pop :: "(vm, u256) op" where
  "pop s = (case stack s of [] \<Rightarrow> (Panic, s) | x # xs \<Rightarrow> (Ok x, s\<lparr>stack := xs\<rparr>))"

definition push :: "u256 \<Rightarrow> (vm, unit) op" where
  "push x = supd (\<lambda>s. s\<lparr>stack := x # stack s\<rparr>)"

definition peek :: "(vm, u256) op" where
  "peek = sread (\<lambda>s. Back 0 (stack s))"

text \<open>A write through the pointer that \<^verbatim>\<open>peek\<close> returns.\<close>

definition set_top :: "u256 \<Rightarrow> (vm, unit) op" where
  "set_top x s = (case stack s of [] \<Rightarrow> (Panic, s) | _ # xs \<Rightarrow> (Ok (), s\<lparr>stack := x # xs\<rparr>))"

definition dup :: "nat \<Rightarrow> (vm, unit) op" where
  "dup n = sbind (sread (\<lambda>s. if n = 0 then Panic else Back (n - 1) (stack s))) push"

definition swap :: "nat \<Rightarrow> (vm, unit) op" where
  "swap n s = (let st = stack s in
     if n = 0 \<or> length st < n then (Panic, s)
     else (Ok (), s\<lparr>stack := st[0 := st ! (n - 1), n - 1 := st ! 0]\<rparr>))"

text \<open>\<^verbatim>\<open>isCode\<close>, with the analysis kept in the contract and, under the hash of the code, in the cache.\<close>

definition isCode :: "nat \<Rightarrow> (vm, bool) op" where
  "isCode udest =
     sbind (sget contract) (\<lambda>c.
     case c_analysis c of
       Some bits \<Rightarrow> slift (codeSegment udest bits)
     | None \<Rightarrow>
         if c_CodeHash c \<noteq> EmptyHash then
           sbind (sget (\<lambda>s. map_of (jumpdests (ev s)) (c_CodeHash c))) (\<lambda>cached.
           sbind (case cached of
               Some bits \<Rightarrow> sret bits
             | None \<Rightarrow> sbind (slift (codeBitmap (c_Code c))) (\<lambda>bits.
                 sbind (on_ev (supd (\<lambda>e. e\<lparr>jumpdests := mput (c_CodeHash c) bits (jumpdests e)\<rparr>))) (\<lambda>_. sret bits))) (\<lambda>bits.
           sbind (supd (\<lambda>s. s\<lparr>contract := (contract s)\<lparr>c_analysis := Some bits\<rparr>\<rparr>)) (\<lambda>_.
           slift (codeSegment udest bits))))
         else
           sbind (slift (codeBitmap (c_Code c))) (\<lambda>bits.
           sbind (supd (\<lambda>s. s\<lparr>contract := (contract s)\<lparr>c_analysis := Some bits\<rparr>\<rparr>)) (\<lambda>_.
           slift (codeSegment udest bits))))"

abbreviation JUMPDEST :: byte where "JUMPDEST \<equiv> 0x5b"

definition validJumpdest :: "u256 \<Rightarrow> (vm, bool) op" where
  "validJumpdest dest =
     sbind (sget (\<lambda>s. c_Code (contract s))) (\<lambda>code.
     if \<not> IsUint64 dest \<or> unat (Uint64 dest) \<ge> length code then sret False
     else if code ! unat (Uint64 dest) \<noteq> JUMPDEST then sret False
     else isCode (unat (Uint64 dest)))"

section \<open>Precompiled contracts\<close>

text \<open>The interface, as its two methods; \<open>sha256\<close>, \<open>ripemd\<close> and \<open>keccak\<close> are the digests.\<close>

record PrecompiledContract =
  RequiredGas :: "bytes \<Rightarrow> u64"
  pc_Run :: "bytes \<Rightarrow> (bytes \<times> vmerr option) result"

definition per_word :: "bytes \<Rightarrow> u64 \<Rightarrow> u64 \<Rightarrow> u64" where
  "per_word input word_gas base = (len64 input + 31) div 32 * word_gas + base"

definition ecrecover :: "(bytes \<Rightarrow> bytes) \<Rightarrow> PrecompiledContract" where
  "ecrecover keccak = \<lparr>RequiredGas = (\<lambda>_. 3000), pc_Run = (\<lambda>input.
     rbind (slice (RightPadBytes input 128) 0 32) (\<lambda>b.
     case Address_Init zero_Address b of
       Ok a \<Rightarrow> rbind (slice_from (keccak (addr_ByteValue a)) 12) (\<lambda>d. Ok (LeftPadBytes d 32, None))
     | _ \<Rightarrow> Ok ([], None)))\<rparr>"

definition sha256hash :: "(bytes \<Rightarrow> bytes) \<Rightarrow> PrecompiledContract" where
  "sha256hash sha256 = \<lparr>RequiredGas = (\<lambda>input. per_word input 12 60), pc_Run = (\<lambda>input. Ok (sha256 input, None))\<rparr>"

definition ripemd160hash :: "(bytes \<Rightarrow> bytes) \<Rightarrow> PrecompiledContract" where
  "ripemd160hash ripemd = \<lparr>RequiredGas = (\<lambda>input. per_word input 120 600),
     pc_Run = (\<lambda>input. Ok (LeftPadBytes (ripemd input) 32, None))\<rparr>"

definition dataCopy :: PrecompiledContract where
  "dataCopy = \<lparr>RequiredGas = (\<lambda>input. per_word input 3 15), pc_Run = (\<lambda>input. Ok (input, None))\<rparr>"

text \<open>A map literal: of entries with the same key the last one stays.\<close>

definition PrecompiledContractsHomestead ::
  "(bytes \<Rightarrow> bytes) \<Rightarrow> (bytes \<Rightarrow> bytes) \<Rightarrow> (bytes \<Rightarrow> bytes) \<Rightarrow> (Address, PrecompiledContract) gomap" where
  "PrecompiledContractsHomestead keccak sha256 ripemd =
     mput (BytesToVMAddress [4]) dataCopy (
     mput (BytesToVMAddress [3]) (ripemd160hash ripemd) (
     mput (BytesToVMAddress [2]) (sha256hash sha256) (
     mput (BytesToVMAddress [1]) (ecrecover keccak) [])))"

definition RunPrecompiledContract :: "PrecompiledContract \<Rightarrow> bytes \<Rightarrow> u64 \<Rightarrow> (bytes \<times> u64 \<times> vmerr option) result" where
  "RunPrecompiledContract p input suppliedGas =
     (let gasCost = RequiredGas p input in
      if suppliedGas < gasCost then Ok ([], 0, Some ErrOutOfGas)
      else rbind (pc_Run p input) (\<lambda>(output, err). Ok (output, suppliedGas - gasCost, err)))"

text \<open>
  All four keys are the zero address, because an address of one byte cannot be initialised: the map has one
  entry, and no address that a contract can name finds it.
\<close>

lemma BytesToVMAddress_short: "length b < 20 \<Longrightarrow> BytesToVMAddress b = zero_Address"
  by (simp add: BytesToVMAddress_def Address_Init_def AddressLength_def)

lemma PrecompiledContractsHomestead_one: "PrecompiledContractsHomestead keccak sha256 ripemd = [(zero_Address, dataCopy)]"
  by (simp add: PrecompiledContractsHomestead_def BytesToVMAddress_short)

lemma length_Bytes20 [simp]: "length (Bytes20 x) = 20"
  by (simp add: Bytes20_def Bytes32_def)

lemma word_address_primary: "addr_Primary (word_address x)"
  by (simp add: word_address_def SetByteAddress_def Address_Init_def AddressLength_def)

lemma precompiled_unreachable: "map_of (PrecompiledContractsHomestead keccak sha256 ripemd) (word_address x) = None"
  using word_address_primary [of x] by (auto simp: PrecompiledContractsHomestead_one zero_Address_def)

end
