(* ===== verification/EVM_Gas.thy ===== *)
theory EVM_Gas
  imports EVM_Base
begin

text \<open>
  The price of an instruction: \<^verbatim>\<open>src/core/evm/memory_table.go\<close>, \<^verbatim>\<open>gas.go\<close>, \<^verbatim>\<open>gas_table.go\<close> and
  \<^verbatim>\<open>operations_acl.go\<close>, with the prices of \<^verbatim>\<open>src/params/protocol_params.go\<close> written out.  A price that cannot be
  computed is an error; the interpreter answers every such error with "out of gas", so only that there is one matters.

  The lemmas: what the memory of a call has cost so far is a function of its size, and no computation of a
  price overflows unnoticed.
\<close>

section \<open>Context of a call\<close>

record Rules =
  IsHomestead :: bool
  IsEIP150 :: bool
  IsEIP158 :: bool
  IsByzantium :: bool
  IsConstantinople :: bool
  IsPetersburg :: bool
  IsIstanbul :: bool
  IsBerlin :: bool
  IsLondon :: bool
  IsMerge :: bool

definition chain_Rules :: Rules where
  "chain_Rules = \<lparr>IsHomestead = False, IsEIP150 = False, IsEIP158 = False, IsByzantium = False, IsConstantinople = False,
     IsPetersburg = False, IsIstanbul = False, IsBerlin = False, IsLondon = False, IsMerge = True\<rparr>"

text \<open>The contexts of block and transaction and the configuration.  A function or pointer that may be nil is an option.\<close>

record vmctx =
  vc_lib :: u256_lib
  vc_keccak :: "bytes \<Rightarrow> bytes"
  vc_sha256 :: "bytes \<Rightarrow> bytes"
  vc_ripemd :: "bytes \<Rightarrow> bytes"
  chainRules :: Rules
  CanTransfer :: "(StateAccount \<Rightarrow> Address \<Rightarrow> int \<Rightarrow> bool) option"
  GetHash :: "u64 \<Rightarrow> hash"
  Coinbase :: Address
  GasLimit :: u64
  BlockNumber :: int
  vc_Time :: int
  vc_Difficulty :: int
  BaseFee :: int
  Random :: "hash option"
  Origin :: Address
  GasPrice :: int
  vc_ChainID :: int
  vc_Debug :: bool
  EnablePreimageRecording :: bool
  vc_abort :: bool
  pre_Byzantium :: "(Address, PrecompiledContract) gomap"
  pre_Istanbul :: "(Address, PrecompiledContract) gomap"
  pre_Berlin :: "(Address, PrecompiledContract) gomap"

abbreviation db :: "vm \<Rightarrow> StateAccount" where "db s \<equiv> evm_StateDB (ev s)"

abbreviation on_StateDB :: "(StateAccount \<Rightarrow> StateAccount) \<Rightarrow> (vm, unit) op" where
  "on_StateDB f \<equiv> supd (\<lambda>s. s\<lparr>ev := (ev s)\<lparr>evm_StateDB := f (evm_StateDB (ev s))\<rparr>\<rparr>)"

text \<open>The methods of the state that do nothing or answer the same always; refunds and logs are not kept.\<close>

definition StateDB_GetBalance :: "Address \<Rightarrow> StateAccount \<Rightarrow> int" where "StateDB_GetBalance a sa = 0"
definition HasSuicided :: "Address \<Rightarrow> StateAccount \<Rightarrow> bool" where "HasSuicided a sa = False"
definition AddressInAccessList :: "Address \<Rightarrow> StateAccount \<Rightarrow> bool" where "AddressInAccessList a sa = True"
definition SlotInAccessList :: "Address \<Rightarrow> hash \<Rightarrow> StateAccount \<Rightarrow> bool \<times> bool" where "SlotInAccessList a h sa = (True, True)"
definition AddAddressToAccessList :: "Address \<Rightarrow> StateAccount \<Rightarrow> StateAccount" where "AddAddressToAccessList a sa = sa"
definition AddSlotToAccessList :: "Address \<Rightarrow> hash \<Rightarrow> StateAccount \<Rightarrow> StateAccount" where "AddSlotToAccessList a h sa = sa"
definition AddRefund :: "u64 \<Rightarrow> StateAccount \<Rightarrow> StateAccount" where "AddRefund g sa = sa"
definition SubRefund :: "u64 \<Rightarrow> StateAccount \<Rightarrow> StateAccount" where "SubRefund g sa = sa"

lemmas stateless_methods = GetBalance_def HasSuicided_def AddressInAccessList_def SlotInAccessList_def
  AddAddressToAccessList_def AddSlotToAccessList_def AddRefund_def SubRefund_def

section \<open>Memory sizes\<close>

type_synonym memorySizeFunc = "u256 list \<Rightarrow> (u64 \<times> bool) result"

definition mem_range :: "nat \<Rightarrow> nat \<Rightarrow> memorySizeFunc" where
  "mem_range off len st = rbind (Back off st) (\<lambda>o'. rbind (Back len st) (\<lambda>l. Ok (calcMemSize64 o' l)))"

definition mem_fixed :: "u64 \<Rightarrow> memorySizeFunc" where
  "mem_fixed n st = rbind (Back 0 st) (\<lambda>o'. Ok (calcMemSize64WithUint o' n))"

definition mem_both :: "memorySizeFunc \<Rightarrow> memorySizeFunc \<Rightarrow> memorySizeFunc" where
  "mem_both f g st =
     rbind (f st) (\<lambda>(x, overflow). if overflow then Ok (0, True)
       else rbind (g st) (\<lambda>(y, overflow). if overflow then Ok (0, True) else Ok (if x > y then x else y, False)))"

definition memoryKeccak256 :: memorySizeFunc where "memoryKeccak256 = mem_range 0 1"
definition memoryCallDataCopy :: memorySizeFunc where "memoryCallDataCopy = mem_range 0 2"
definition memoryReturnDataCopy :: memorySizeFunc where "memoryReturnDataCopy = mem_range 0 2"
definition memoryCodeCopy :: memorySizeFunc where "memoryCodeCopy = mem_range 0 2"
definition memoryExtCodeCopy :: memorySizeFunc where "memoryExtCodeCopy = mem_range 1 3"
definition memoryMLoad :: memorySizeFunc where "memoryMLoad = mem_fixed 32"
definition memoryMStore8 :: memorySizeFunc where "memoryMStore8 = mem_fixed 1"
definition memoryMStore :: memorySizeFunc where "memoryMStore = mem_fixed 32"
definition memoryCreate :: memorySizeFunc where "memoryCreate = mem_range 1 2"
definition memoryCreate2 :: memorySizeFunc where "memoryCreate2 = mem_range 1 2"
definition memoryCall :: memorySizeFunc where "memoryCall = mem_both (mem_range 5 6) (mem_range 3 4)"
definition memoryDelegateCall :: memorySizeFunc where "memoryDelegateCall = mem_both (mem_range 4 5) (mem_range 2 3)"
definition memoryStaticCall :: memorySizeFunc where "memoryStaticCall = mem_both (mem_range 4 5) (mem_range 2 3)"
definition memoryReturn :: memorySizeFunc where "memoryReturn = mem_range 0 1"
definition memoryRevert :: memorySizeFunc where "memoryRevert = mem_range 0 1"
definition memoryLog :: memorySizeFunc where "memoryLog = mem_range 0 1"

lemmas memory_sizes = memoryKeccak256_def memoryCallDataCopy_def memoryReturnDataCopy_def memoryCodeCopy_def
  memoryExtCodeCopy_def memoryMLoad_def memoryMStore8_def memoryMStore_def memoryCreate_def memoryCreate2_def
  memoryCall_def memoryDelegateCall_def memoryStaticCall_def memoryReturn_def memoryRevert_def memoryLog_def

section \<open>Prices\<close>

type_synonym gasFunc = "vmctx \<Rightarrow> u64 \<Rightarrow> (vm, u64) op"

definition checked_u64 :: "u64 \<times> bool \<Rightarrow> (vm, u64) op" where
  "checked_u64 p = (if snd p then serr ''gas uint64 overflow'' else sret (fst p))"

abbreviation stk_back :: "nat \<Rightarrow> (vm, u256) op" where
  "stk_back n \<equiv> sread (\<lambda>s. Back n (stack s))"

definition callGas :: "bool \<Rightarrow> u64 \<Rightarrow> u64 \<Rightarrow> u256 \<Rightarrow> u64 result" where
  "callGas isEip150 availableGas base callCost =
     (let available = availableGas - base; gas = available - available div 64 in
      if isEip150 \<and> (\<not> IsUint64 callCost \<or> gas < Uint64 callCost) then Ok gas
      else if \<not> IsUint64 callCost then Err ''gas uint64 overflow'' else Ok (Uint64 callCost))"

definition memoryGasCost :: "u64 \<Rightarrow> (vm, u64) op" where
  "memoryGasCost newMemSize =
     (if newMemSize = 0 then sret 0
      else if newMemSize > 0x1FFFFFFFE0 then serr ''gas uint64 overflow''
      else let newMemSizeWords = toWordSize newMemSize; newSize = newMemSizeWords * 32 in
        sbind (sget mem) (\<lambda>m.
        if newSize > len64 (store m)
        then let square = newMemSizeWords * newMemSizeWords; linCoef = newMemSizeWords * 3; quadCoef = square div 512;
                 newTotalFee = linCoef + quadCoef; fee = newTotalFee - lastGasCost m
          in sbind (supd (\<lambda>s. s\<lparr>mem := (mem s)\<lparr>lastGasCost := newTotalFee\<rparr>\<rparr>)) (\<lambda>_. sret fee)
        else sret 0))"

text \<open>A price per word of the operand at a position, on top of another one.\<close>

definition word_gas :: "nat \<Rightarrow> u64 \<Rightarrow> u64 \<Rightarrow> (vm, u64) op" where
  "word_gas stackpos price gas =
     sbind (stk_back stackpos) (\<lambda>x.
     sbind (checked_u64 (Uint64WithOverflow x)) (\<lambda>words.
     sbind (checked_u64 (SafeMul (toWordSize words) price)) (\<lambda>wordGas.
     checked_u64 (SafeAdd gas wordGas))))"

definition memoryCopierGas :: "nat \<Rightarrow> gasFunc" where
  "memoryCopierGas stackpos C memorySize = sbind (memoryGasCost memorySize) (word_gas stackpos 3)"

definition gasCallDataCopy :: gasFunc where "gasCallDataCopy = memoryCopierGas 2"
definition gasCodeCopy :: gasFunc where "gasCodeCopy = memoryCopierGas 2"
definition gasExtCodeCopy :: gasFunc where "gasExtCodeCopy = memoryCopierGas 3"
definition gasReturnDataCopy :: gasFunc where "gasReturnDataCopy = memoryCopierGas 2"

definition gasSStore :: gasFunc where
  "gasSStore C memorySize =
     sbind (stk_back 1) (\<lambda>y. sbind (stk_back 0) (\<lambda>x.
     sbind (sget (\<lambda>s. (GetState (c_self (contract s)) (Bytes32 x) (db s),
       GetCommittedState (c_self (contract s)) (Bytes32 x) (db s)))) (\<lambda>(current, original).
     let v = Bytes32 y in
     if IsPetersburg (chainRules C) \<or> \<not> IsConstantinople (chainRules C)
     then if current = EmptyHash \<and> y \<noteq> 0 then sret 20000
       else if current \<noteq> EmptyHash \<and> y = 0 then sbind (on_StateDB (AddRefund 15000)) (\<lambda>_. sret 5000)
       else sret 5000
     else if current = v then sret 200
     else if original = current
     then if original = EmptyHash then sret 20000
       else sbind (if v = EmptyHash then on_StateDB (AddRefund 15000) else sret ()) (\<lambda>_. sret 5000)
     else
       sbind (if original \<noteq> EmptyHash
              then if current = EmptyHash then on_StateDB (SubRefund 15000)
                else if v = EmptyHash then on_StateDB (AddRefund 15000) else sret ()
              else sret ()) (\<lambda>_.
       sbind (if original = v then on_StateDB (AddRefund (if original = EmptyHash then 19800 else 4800)) else sret ()) (\<lambda>_.
       sret 200)))))"

definition gasSStoreEIP2200 :: gasFunc where
  "gasSStoreEIP2200 C memorySize =
     sbind (sget (\<lambda>s. Gas (contract s))) (\<lambda>gas.
     if gas \<le> 2300 then serr ''not enough gas for reentrancy sentry''
     else
     sbind (stk_back 1) (\<lambda>y. sbind (stk_back 0) (\<lambda>x.
     sbind (sget (\<lambda>s. (GetState (c_self (contract s)) (Bytes32 x) (db s),
       GetCommittedState (c_self (contract s)) (Bytes32 x) (db s)))) (\<lambda>(current, original).
     let v = Bytes32 y in
     if current = v then sret 800
     else if original = current
     then if original = EmptyHash then sret 20000
       else sbind (if v = EmptyHash then on_StateDB (AddRefund 15000) else sret ()) (\<lambda>_. sret 5000)
     else
       sbind (if original \<noteq> EmptyHash
              then if current = EmptyHash then on_StateDB (SubRefund 15000)
                else if v = EmptyHash then on_StateDB (AddRefund 15000) else sret ()
              else sret ()) (\<lambda>_.
       sbind (if original = v then on_StateDB (AddRefund (if original = EmptyHash then 20000 - 800 else 5000 - 800)) else sret ()) (\<lambda>_.
       sret 800))))))"

definition makeGasLog :: "u64 \<Rightarrow> gasFunc" where
  "makeGasLog n C memorySize =
     sbind (stk_back 1) (\<lambda>x.
     sbind (checked_u64 (Uint64WithOverflow x)) (\<lambda>requestedSize.
     sbind (memoryGasCost memorySize) (\<lambda>gas.
     sbind (checked_u64 (SafeAdd gas 375)) (\<lambda>gas.
     sbind (checked_u64 (SafeAdd gas (n * 375))) (\<lambda>gas.
     sbind (checked_u64 (SafeMul requestedSize 8)) (\<lambda>memorySizeGas.
     checked_u64 (SafeAdd gas memorySizeGas)))))))"

definition gasKeccak256 :: gasFunc where
  "gasKeccak256 C memorySize = sbind (memoryGasCost memorySize) (word_gas 1 6)"

definition pureMemoryGascost :: gasFunc where
  "pureMemoryGascost C memorySize = memoryGasCost memorySize"

definition gasCreate2 :: gasFunc where
  "gasCreate2 C memorySize = sbind (memoryGasCost memorySize) (word_gas 2 6)"

definition exp_gas :: "u64 \<Rightarrow> gasFunc" where
  "exp_gas byte_gas C memorySize =
     sbind (stk_back 1) (\<lambda>x.
     checked_u64 (SafeAdd (word_of_nat ((u_BitLen (vc_lib C) x + 7) div 8) * byte_gas) 10))"

definition gasExpFrontier :: gasFunc where "gasExpFrontier = exp_gas 10"
definition gasExpEIP158 :: gasFunc where "gasExpEIP158 = exp_gas 50"

text \<open>The last part of the price of a call: the gas that it hands on.\<close>

definition call_share :: "vmctx \<Rightarrow> u64 \<Rightarrow> (vm, u64) op" where
  "call_share C gas =
     sbind (stk_back 0) (\<lambda>requested.
     sbind (sread (\<lambda>s. callGas (IsEIP150 (chainRules C)) (Gas (contract s)) gas requested)) (\<lambda>g.
     sbind (supd (\<lambda>s. s\<lparr>ev := (ev s)\<lparr>callGasTemp := g\<rparr>\<rparr>)) (\<lambda>_.
     checked_u64 (SafeAdd gas g))))"

definition gasCall :: gasFunc where
  "gasCall C memorySize =
     sbind (stk_back 2) (\<lambda>v. sbind (stk_back 1) (\<lambda>a.
     let transfersValue = (v \<noteq> 0); address = word_address a in
     sbind (sget (\<lambda>s. if IsEIP158 (chainRules C)
       then if transfersValue \<and> Empty address (db s) then 25000 else 0
       else if \<not> Exist address (db s) then 25000 else 0)) (\<lambda>gas0.
     let gas1 = (if transfersValue then gas0 + 9000 else gas0) in
     sbind (memoryGasCost memorySize) (\<lambda>memoryGas.
     sbind (checked_u64 (SafeAdd gas1 memoryGas)) (call_share C)))))"

definition gasCallCode :: gasFunc where
  "gasCallCode C memorySize =
     sbind (memoryGasCost memorySize) (\<lambda>memoryGas.
     sbind (stk_back 2) (\<lambda>v.
     sbind (checked_u64 (SafeAdd (if v \<noteq> 0 then 9000 else 0) memoryGas)) (call_share C)))"

definition gasDelegateCall :: gasFunc where
  "gasDelegateCall C memorySize = sbind (memoryGasCost memorySize) (call_share C)"

definition gasStaticCall :: gasFunc where
  "gasStaticCall C memorySize = sbind (memoryGasCost memorySize) (call_share C)"

definition gasSelfdestruct :: gasFunc where
  "gasSelfdestruct C memorySize =
     sbind (if IsEIP150 (chainRules C)
            then sbind (stk_back 0) (\<lambda>x. sget (\<lambda>s. let address = word_address x in
              5000 + (if IsEIP158 (chainRules C)
                then if Empty address (db s) \<and> StateDB_GetBalance (c_self (contract s)) (db s) \<noteq> 0 then 25000 else 0
                else if \<not> Exist address (db s) then 25000 else 0)))
            else sret 0) (\<lambda>gas.
     sbind (sget (\<lambda>s. HasSuicided (c_self (contract s)) (db s))) (\<lambda>suicided.
     sbind (if \<not> suicided then on_StateDB (AddRefund 24000) else sret ()) (\<lambda>_. sret gas)))"

section \<open>Prices with access lists\<close>

definition makeGasSStoreFunc :: "u64 \<Rightarrow> gasFunc" where
  "makeGasSStoreFunc clearingRefund C memorySize =
     sbind (sget (\<lambda>s. Gas (contract s))) (\<lambda>gas.
     if gas \<le> 2300 then serr ''not enough gas for reentrancy sentry''
     else
     sbind (stk_back 1) (\<lambda>y. sbind (stk_back 0) (\<lambda>x.
     sbind (sget (\<lambda>s. (c_self (contract s), GetState (c_self (contract s)) (Bytes32 x) (db s),
       GetCommittedState (c_self (contract s)) (Bytes32 x) (db s)))) (\<lambda>(self, current, original).
     sbind (sget (\<lambda>s. SlotInAccessList self (Bytes32 x) (db s))) (\<lambda>(addrPresent, slotPresent).
     sbind (if slotPresent then sret 0
            else sbind (on_StateDB (AddSlotToAccessList self (Bytes32 x))) (\<lambda>_.
              if \<not> addrPresent then slift Panic else sret 2100)) (\<lambda>cost.
     let v = Bytes32 y in
     if current = v then sret (cost + 100)
     else if original = current
     then if original = EmptyHash then sret (cost + 20000)
       else sbind (if v = EmptyHash then on_StateDB (AddRefund clearingRefund) else sret ()) (\<lambda>_. sret (cost + (5000 - 2100)))
     else
       sbind (if original \<noteq> EmptyHash
              then if current = EmptyHash then on_StateDB (SubRefund clearingRefund)
                else if v = EmptyHash then on_StateDB (AddRefund clearingRefund) else sret ()
              else sret ()) (\<lambda>_.
       sbind (if original = v then on_StateDB (AddRefund (if original = EmptyHash then 20000 - 100 else (5000 - 2100) - 100)) else sret ()) (\<lambda>_.
       sret (cost + 100)))))))))"

definition gasSStoreEIP2929 :: gasFunc where "gasSStoreEIP2929 = makeGasSStoreFunc 15000"
definition gasSStoreEIP3529 :: gasFunc where "gasSStoreEIP3529 = makeGasSStoreFunc (5000 - 2100 + 1900)"

definition gasSLoadEIP2929 :: gasFunc where
  "gasSLoadEIP2929 C memorySize =
     sbind (stk_back 0) (\<lambda>loc.
     sbind (sget (\<lambda>s. (c_self (contract s), snd (SlotInAccessList (c_self (contract s)) (Bytes32 loc) (db s))))) (\<lambda>(self, slotPresent).
     if \<not> slotPresent then sbind (on_StateDB (AddSlotToAccessList self (Bytes32 loc))) (\<lambda>_. sret 2100)
     else sret 100))"

definition gasExtCodeCopyEIP2929 :: gasFunc where
  "gasExtCodeCopyEIP2929 C memorySize =
     sbind (gasExtCodeCopy C memorySize) (\<lambda>gas.
     sbind (stk_back 0) (\<lambda>x. let addr = word_address x in
     sbind (sget (\<lambda>s. AddressInAccessList addr (db s))) (\<lambda>present.
     if \<not> present then sbind (on_StateDB (AddAddressToAccessList addr)) (\<lambda>_. checked_u64 (SafeAdd gas (2600 - 100)))
     else sret gas)))"

definition gasEip2929AccountCheck :: gasFunc where
  "gasEip2929AccountCheck C memorySize =
     sbind (stk_back 0) (\<lambda>x. let addr = word_address x in
     sbind (sget (\<lambda>s. AddressInAccessList addr (db s))) (\<lambda>present.
     if \<not> present then sbind (on_StateDB (AddAddressToAccessList addr)) (\<lambda>_. sret (2600 - 100))
     else sret 0))"

text \<open>\<^verbatim>\<open>contract.UseGas\<close> on the running contract.\<close>

definition use_gas :: "u64 \<Rightarrow> (vm, bool) op" where
  "use_gas gas s = (case UseGas gas (contract s) of (ok, c) \<Rightarrow> (Ok ok, s\<lparr>contract := c\<rparr>))"

definition add_gas :: "u64 \<Rightarrow> (vm, unit) op" where
  "add_gas gas = supd (\<lambda>s. s\<lparr>contract := (contract s)\<lparr>Gas := Gas (contract s) + gas\<rparr>\<rparr>)"

definition makeCallVariantGasCallEIP2929 :: "gasFunc \<Rightarrow> gasFunc" where
  "makeCallVariantGasCallEIP2929 oldCalculator C memorySize =
     sbind (stk_back 1) (\<lambda>x. let addr = word_address x; coldCost = 2600 - 100 in
     sbind (sget (\<lambda>s. AddressInAccessList addr (db s))) (\<lambda>warmAccess.
     sbind (if \<not> warmAccess
            then sbind (on_StateDB (AddAddressToAccessList addr)) (\<lambda>_. use_gas coldCost)
            else sret True) (\<lambda>paid.
     if \<not> paid then serr ''out of gas''
     else
     sbind (oldCalculator C memorySize) (\<lambda>gas.
     if warmAccess then sret gas
     else sbind (add_gas coldCost) (\<lambda>_. sret (gas + coldCost))))))"

definition gasCallEIP2929 :: gasFunc where "gasCallEIP2929 = makeCallVariantGasCallEIP2929 gasCall"
definition gasDelegateCallEIP2929 :: gasFunc where "gasDelegateCallEIP2929 = makeCallVariantGasCallEIP2929 gasDelegateCall"
definition gasStaticCallEIP2929 :: gasFunc where "gasStaticCallEIP2929 = makeCallVariantGasCallEIP2929 gasStaticCall"
definition gasCallCodeEIP2929 :: gasFunc where "gasCallCodeEIP2929 = makeCallVariantGasCallEIP2929 gasCallCode"

definition makeSelfdestructGasFn :: "bool \<Rightarrow> gasFunc" where
  "makeSelfdestructGasFn refundsEnabled C memorySize =
     sbind (stk_back 0) (\<lambda>x. let address = word_address x in
     sbind (sget (\<lambda>s. AddressInAccessList address (db s))) (\<lambda>present.
     sbind (if \<not> present then sbind (on_StateDB (AddAddressToAccessList address)) (\<lambda>_. sret 2600) else sret 0) (\<lambda>gas0.
     sbind (sget (\<lambda>s. if Empty address (db s) \<and> StateDB_GetBalance (c_self (contract s)) (db s) \<noteq> 0 then gas0 + 25000 else gas0)) (\<lambda>gas.
     sbind (sget (\<lambda>s. HasSuicided (c_self (contract s)) (db s))) (\<lambda>suicided.
     sbind (if refundsEnabled \<and> \<not> suicided then on_StateDB (AddRefund 24000) else sret ()) (\<lambda>_. sret gas))))))"

definition gasSelfdestructEIP2929 :: gasFunc where "gasSelfdestructEIP2929 = makeSelfdestructGasFn True"
definition gasSelfdestructEIP3529 :: gasFunc where "gasSelfdestructEIP3529 = makeSelfdestructGasFn False"

end
