(* ===== verification/RLP.thy ===== *)
theory RLP
  imports Prelude
begin

text \<open>
  The recursive length prefix format: \<^verbatim>\<open>src/rlp/encode.go\<close>, \<^verbatim>\<open>encbuffer.go\<close>, \<^verbatim>\<open>raw.go\<close> and
  \<^verbatim>\<open>iterator.go\<close>.  A value is a tree with one constructor for each kind of Go value that has a writer; that reflection
  chooses the writer of the kind, and the pool the buffers come from, are not modelled.  Lengths of slices are natural
  numbers.  Structs with optional fields are not modelled: no type of the repository has one.

  The writer keeps the headers of lists beside the text and merges them at the end; the lemmas show that this gives
  the recursive encoding, and that the splitting functions find what was encoded.
\<close>

section \<open>Integers and headers\<close>

definition putint :: "i64 \<Rightarrow> bytes" where
  "putint i =
     (if i < 0x100 then be_bytes 1 i
      else if i < 0x10000 then be_bytes 2 i
      else if i < 0x1000000 then be_bytes 3 i
      else if i < 0x100000000 then be_bytes 4 i
      else if i < 0x10000000000 then be_bytes 5 i
      else if i < 0x1000000000000 then be_bytes 6 i
      else if i < 0x100000000000000 then be_bytes 7 i
      else be_bytes 8 i)"

lemma unat_drop_bit: "unat (drop_bit n (i :: i64)) = unat i div 2 ^ n"
  by (simp only: unat_drop_bit_eq) (simp add: drop_bit_eq_div)

lemma drop_bit_8_less: "i \<noteq> 0 \<Longrightarrow> unat (drop_bit 8 (i :: i64)) < unat i"
  unfolding unat_drop_bit by (simp add: unat_gt_0)

function intsize :: "i64 \<Rightarrow> nat" where
  "intsize i = (let i' = drop_bit 8 i in if i' = 0 then 1 else Suc (intsize i'))"
  by auto

termination by (relation "measure unat") (auto intro: drop_bit_8_less)

declare intsize.simps [simp del]

definition headsize :: "i64 \<Rightarrow> nat" where
  "headsize sz = (if sz < 56 then 1 else 1 + intsize sz)"

definition puthead :: "byte \<Rightarrow> byte \<Rightarrow> i64 \<Rightarrow> bytes" where
  "puthead smalltag largetag sz =
     (if sz < 56 then [smalltag + ucast sz]
      else let s = putint sz in (largetag + word_of_nat (length s)) # s)"

section \<open>The buffer of the encoder\<close>

record listhead =
  lh_offset :: nat
  lh_size :: nat

record encBuffer =
  eb_str :: bytes
  lheads :: "listhead list"
  lhsize :: nat

definition listhead_encode :: "listhead \<Rightarrow> bytes" where
  "listhead_encode head = puthead 0xC0 0xF7 (word_of_nat (lh_size head))"

definition getEncBuffer :: encBuffer where
  "getEncBuffer = \<lparr>eb_str = [], lheads = [], lhsize = 0\<rparr>"

definition encBuffer_size :: "encBuffer \<Rightarrow> nat" where
  "encBuffer_size w = length (eb_str w) + lhsize w"

text \<open>The text between two headers, and then the header.\<close>

fun copyTo :: "bytes \<Rightarrow> nat \<Rightarrow> listhead list \<Rightarrow> bytes" where
  "copyTo str strpos [] = drop strpos str"
| "copyTo str strpos (head # hs) =
     take (lh_offset head - strpos) (drop strpos str) @ listhead_encode head @ copyTo str (max strpos (lh_offset head)) hs"

definition makeBytes :: "encBuffer \<Rightarrow> bytes" where
  "makeBytes w = copy_into (replicate (encBuffer_size w) 0) (copyTo (eb_str w) 0 (lheads w))"

definition encBuffer_Write :: "bytes \<Rightarrow> encBuffer \<Rightarrow> encBuffer" where
  "encBuffer_Write b w = w\<lparr>eb_str := eb_str w @ b\<rparr>"

definition writeBool :: "bool \<Rightarrow> encBuffer \<Rightarrow> encBuffer" where
  "writeBool b = encBuffer_Write [if b then 0x01 else 0x80]"

definition writeUint64 :: "i64 \<Rightarrow> encBuffer \<Rightarrow> encBuffer" where
  "writeUint64 i =
     (if i = 0 then encBuffer_Write [0x80]
      else if i < 128 then encBuffer_Write [ucast i]
      else let s = putint i in encBuffer_Write ((0x80 + word_of_nat (length s)) # s))"

definition encodeStringHeader :: "nat \<Rightarrow> encBuffer \<Rightarrow> encBuffer" where
  "encodeStringHeader sz =
     (if sz < 56 then encBuffer_Write [0x80 + word_of_nat sz]
      else let s = putint (word_of_nat sz) in encBuffer_Write ((0xB7 + word_of_nat (length s)) # s))"

definition writeBytes :: "bytes \<Rightarrow> encBuffer \<Rightarrow> encBuffer" where
  "writeBytes b =
     (if length b = 1 \<and> hd b \<le> 0x7F then encBuffer_Write [hd b]
      else (\<lambda>w. encBuffer_Write b (encodeStringHeader (length b) w)))"

text \<open>The bytes of a number, the first one not zero, and its integer encoding: up to 64 bits as a word.\<close>

fun nat_bytes :: "nat \<Rightarrow> bytes" where
  "nat_bytes n = (if n = 0 then [] else nat_bytes (n div 256) @ [word_of_nat n])"

declare nat_bytes.simps [simp del]

definition writeBigInt :: "int \<Rightarrow> encBuffer \<Rightarrow> encBuffer" where
  "writeBigInt i =
     (if \<bar>i\<bar> < 2 ^ 64 then writeUint64 (word_of_int \<bar>i\<bar>)
      else (\<lambda>w. encBuffer_Write (nat_bytes (nat \<bar>i\<bar>)) (encodeStringHeader (length (nat_bytes (nat \<bar>i\<bar>))) w)))"

definition rlp_list :: "encBuffer \<Rightarrow> nat \<times> encBuffer" where
  "rlp_list w = (length (lheads w), w\<lparr>lheads := lheads w @ [\<lparr>lh_offset = length (eb_str w), lh_size = lhsize w\<rparr>]\<rparr>)"

definition listEnd :: "nat \<Rightarrow> encBuffer \<Rightarrow> encBuffer" where
  "listEnd index w =
     (let lh = lheads w ! index; sz = encBuffer_size w - lh_offset lh - lh_size lh in
      w\<lparr>lheads := (lheads w)[index := lh\<lparr>lh_size := sz\<rparr>],
        lhsize := lhsize w + (if sz < 56 then 1 else 1 + intsize (word_of_nat sz))\<rparr>)"

section \<open>Writers\<close>

datatype rval =
    VRaw bytes
  | VBigPtr "int option"
  | VBig int
  | VUint i64
  | VBool bool
  | VString bytes
  | VBytes bytes
  | VByteArray bytes
  | VSlice "rval list"
  | VStruct "rval list"
  | VNil
  | VNilPtr bool

definition makeByteArrayWriter :: "bytes \<Rightarrow> encBuffer \<Rightarrow> encBuffer" where
  "makeByteArrayWriter b =
     (case b of
        [] \<Rightarrow> encBuffer_Write [0x80]
      | [x] \<Rightarrow> if x \<le> 0x7f then encBuffer_Write [x] else encBuffer_Write [0x81, x]
      | _ \<Rightarrow> (\<lambda>w. encBuffer_Write b (encodeStringHeader (length b) w)))"

definition write_big :: "int \<Rightarrow> (encBuffer, unit) op" where
  "write_big i = (if i < 0 then serr ''rlp: cannot encode negative big.Int'' else supd (writeBigInt i))"

definition in_list :: "(encBuffer, unit) op \<Rightarrow> (encBuffer, unit) op" where
  "in_list m =
     sbind (\<lambda>w. case rlp_list w of (index, w') \<Rightarrow> (Ok index, w')) (\<lambda>index.
     sbind m (\<lambda>_. supd (listEnd index)))"

text \<open>The writer of a value; a nil pointer is written as an empty list or, for the types of kind string, an empty string.\<close>

fun rlp_write :: "rval \<Rightarrow> (encBuffer, unit) op" and rlp_writes :: "rval list \<Rightarrow> (encBuffer, unit) op" where
  "rlp_write (VRaw b) = supd (encBuffer_Write b)"
| "rlp_write (VBigPtr None) = supd (encBuffer_Write [0x80])"
| "rlp_write (VBigPtr (Some i)) = write_big i"
| "rlp_write (VBig i) = write_big i"
| "rlp_write (VUint i) = supd (writeUint64 i)"
| "rlp_write (VBool b) = supd (writeBool b)"
| "rlp_write (VString s) = supd (writeBytes s)"
| "rlp_write (VBytes b) = supd (writeBytes b)"
| "rlp_write (VByteArray b) = supd (makeByteArrayWriter b)"
| "rlp_write (VSlice vs) = (if vs = [] then supd (encBuffer_Write [0xC0]) else in_list (rlp_writes vs))"
| "rlp_write (VStruct vs) = in_list (rlp_writes vs)"
| "rlp_write VNil = supd (encBuffer_Write [0xC0])"
| "rlp_write (VNilPtr is_string) = supd (encBuffer_Write [if is_string then 0x80 else 0xC0])"
| "rlp_writes [] = sret ()"
| "rlp_writes (v # vs) = sbind (rlp_write v) (\<lambda>_. rlp_writes vs)"

definition EncodeToBytes :: "rval \<Rightarrow> bytes result" where
  "EncodeToBytes v = (case rlp_write v getEncBuffer of
     (Ok _, w) \<Rightarrow> Ok (makeBytes w) | (Err e, w) \<Rightarrow> Err e | (Panic, w) \<Rightarrow> Panic)"

section \<open>Splitting\<close>

datatype Kind = Byte | String | List

definition readSize :: "bytes \<Rightarrow> byte \<Rightarrow> i64 result" where
  "readSize b slen =
     (if unat slen > length b then Err ''unexpected EOF''
      else let s = (if slen \<in> {1..8} then be_word (take (unat slen) b) else 0) in
        if s < 56 then Err ''rlp: non-canonical size information''
        else if b = [] then Panic
        else if hd b = 0 then Err ''rlp: non-canonical size information'' else Ok s)"

text \<open>The tag is within the input (\<^verbatim>\<open>readSize\<close> has checked it), so that the subtraction does not wrap around.\<close>

definition readKind :: "bytes \<Rightarrow> (Kind \<times> i64 \<times> i64) result" where
  "readKind buf =
     (if buf = [] then Err ''unexpected EOF''
      else let b = hd buf in
        rbind
          (if b < 0x80 then Ok (Byte, 0, 1)
           else if b < 0xB8
           then let contentsize = ucast (b - 0x80) in
             if contentsize = 1 \<and> length buf > 1 \<and> buf ! 1 < 128 then Err ''rlp: non-canonical size information''
             else Ok (String, 1, contentsize)
           else if b < 0xC0 then rbind (readSize (tl buf) (b - 0xB7)) (\<lambda>cs. Ok (String, ucast (b - 0xB7) + 1, cs))
           else if b < 0xF8 then Ok (List, 1, ucast (b - 0xC0))
           else rbind (readSize (tl buf) (b - 0xF7)) (\<lambda>cs. Ok (List, ucast (b - 0xF7) + 1, cs)))
          (\<lambda>(k, tagsize, contentsize).
             if unat contentsize > length buf - unat tagsize then Err ''rlp: value size exceeds available input length''
             else Ok (k, tagsize, contentsize)))"

definition Split :: "bytes \<Rightarrow> (Kind \<times> bytes \<times> bytes) result" where
  "Split b =
     rbind (readKind b) (\<lambda>(k, ts, cs).
     rbind (slice b (unat ts) (unat (ts + cs))) (\<lambda>content.
     rbind (slice_from b (unat (ts + cs))) (\<lambda>rest. Ok (k, content, rest))))"

definition SplitString :: "bytes \<Rightarrow> (bytes \<times> bytes) result" where
  "SplitString b = rbind (Split b) (\<lambda>(k, content, rest).
     if k = List then Err ''rlp: expected String or Byte'' else Ok (content, rest))"

definition SplitList :: "bytes \<Rightarrow> (bytes \<times> bytes) result" where
  "SplitList b = rbind (Split b) (\<lambda>(k, content, rest).
     if k \<noteq> List then Err ''rlp: expected List'' else Ok (content, rest))"

definition SplitUint64 :: "bytes \<Rightarrow> (i64 \<times> bytes) result" where
  "SplitUint64 b = rbind (SplitString b) (\<lambda>(content, rest).
     if length content = 0 then Ok (0, rest)
     else if length content = 1
     then if hd content = 0 then Err ''rlp: non-canonical integer format'' else Ok (ucast (hd content), rest)
     else if length content > 8 then Err ''rlp: uint overflow''
     else case readSize content (word_of_nat (length content)) of
        Ok x \<Rightarrow> Ok (x, rest) | Err e \<Rightarrow> Err ''rlp: non-canonical integer format'' | Panic \<Rightarrow> Panic)"

definition AppendUint64 :: "bytes \<Rightarrow> i64 \<Rightarrow> bytes" where
  "AppendUint64 b i =
     b @ (if i = 0 then [0x80]
      else if i < 128 then [ucast i]
      else if i < 0x100 then 0x81 # be_bytes 1 i
      else if i < 0x10000 then 0x82 # be_bytes 2 i
      else if i < 0x1000000 then 0x83 # be_bytes 3 i
      else if i < 0x100000000 then 0x84 # be_bytes 4 i
      else if i < 0x10000000000 then 0x85 # be_bytes 5 i
      else if i < 0x1000000000000 then 0x86 # be_bytes 6 i
      else if i < 0x100000000000000 then 0x87 # be_bytes 7 i
      else 0x88 # be_bytes 8 i)"

definition ListSize :: "i64 \<Rightarrow> i64" where
  "ListSize contentSize = word_of_nat (headsize contentSize) + contentSize"

definition IntSize :: "i64 \<Rightarrow> nat" where
  "IntSize x = (if x < 0x80 then 1 else 1 + intsize x)"

section \<open>Iterator\<close>

record listIterator =
  it_data :: bytes
  it_next :: bytes
  it_err :: "string option"

definition NewListIterator :: "bytes \<Rightarrow> listIterator result" where
  "NewListIterator data =
     rbind (readKind data) (\<lambda>(k, t, c).
     if k \<noteq> List then Err ''rlp: expected List''
     else rbind (slice data (unat t) (unat (t + c))) (\<lambda>d. Ok \<lparr>it_data = d, it_next = [], it_err = None\<rparr>))"

text \<open>When the kind cannot be read both sizes are zero.\<close>

definition listIterator_Next :: "(listIterator, bool) op" where
  "listIterator_Next =
     sbind (sget it_data) (\<lambda>data.
     if data = [] then sret False
     else
     sbind (slift (case readKind data of
         Ok (_, t, c) \<Rightarrow> Ok (t + c, None) | Err e \<Rightarrow> Ok (0, Some e) | Panic \<Rightarrow> Panic)) (\<lambda>(n, err).
     sbind (slift (slice data 0 (unat n))) (\<lambda>nxt.
     sbind (slift (slice_from data (unat n))) (\<lambda>rest.
     sbind (supd (\<lambda>it. it\<lparr>it_next := nxt, it_data := rest, it_err := err\<rparr>)) (\<lambda>_. sret True)))))"

section \<open>Facts on headers\<close>

lemma intsize_step: "0x100 \<le> i \<Longrightarrow> intsize i = Suc (intsize (drop_bit 8 i))" "i < 0x100 \<Longrightarrow> intsize i = 1"
proof -
  have "drop_bit 8 i = 0 \<longleftrightarrow> i < 0x100"
    unfolding word_unat_eq_iff unat_drop_bit word_less_nat_alt by (simp add: div_eq_0_iff)
  then show "0x100 \<le> i \<Longrightarrow> intsize i = Suc (intsize (drop_bit 8 i))" "i < 0x100 \<Longrightarrow> intsize i = 1"
    by (subst intsize.simps; auto simp: Let_def)+
qed

lemma be_bytes_Suc: "be_bytes (Suc n) w = ucast (drop_bit (8 * n) w) # be_bytes n w"
proof -
  have "le_bytes (Suc n) w = le_bytes n w @ [ucast (drop_bit (8 * n) w)]"
  proof (induction n arbitrary: w)
    case (Suc n)
    show ?case
      by (subst le_bytes.simps(2), subst Suc) (simp add: drop_bit_drop_bit algebra_simps)
  qed simp
  then show ?thesis by (simp add: be_bytes_def)
qed

text \<open>An integer as the bytes it needs.\<close>

definition minimal :: "i64 \<Rightarrow> bytes \<Rightarrow> bool" where
  "minimal i b \<longleftrightarrow> length b \<in> {1..8} \<and> be_word b = i \<and> (i \<noteq> 0 \<longrightarrow> hd b \<noteq> 0) \<and> length b = intsize i"

lemma intsize_range:
  assumes "unat i < 2 ^ (8 * Suc n)" "n = 0 \<or> 2 ^ (8 * n) \<le> unat i"
  shows "intsize i = Suc n"
  using assms
proof (induction n arbitrary: i)
  case 0
  then show ?case by (simp add: intsize_step(2) word_less_nat_alt)
next
  case (Suc n)
  have "2 ^ 8 \<le> unat i" using Suc.prems power_increasing [of 8 "8 * Suc n" "2::nat"] by simp
  then have "intsize i = Suc (intsize (drop_bit 8 i))" by (simp add: intsize_step(1) word_le_nat_alt)
  moreover have "unat (drop_bit 8 i) < 2 ^ (8 * Suc n)"
    using Suc.prems(1) unfolding unat_drop_bit by (simp add: div_less_iff_less_mult power_add)
  moreover have "2 ^ (8 * n) \<le> unat (drop_bit 8 i)"
    using Suc.prems(2) unfolding unat_drop_bit by (simp add: less_eq_div_iff_mult_less_eq power_add)
  ultimately show ?case using Suc.IH by auto
qed

lemma minimal_be_bytes:
  assumes "unat i < 2 ^ (8 * Suc n)" "n = 0 \<or> 2 ^ (8 * n) \<le> unat i" "Suc n \<le> 8"
  shows "minimal i (be_bytes (Suc n) i)"
proof -
  have "unat (take_bit (8 * Suc n) i) = unat i"
    using assms(1) by (simp only: unsigned_take_bit_eq take_bit_nat_eq_self_iff)
  then have "be_word (be_bytes (Suc n) i) = i" unfolding be_word_be_bytes by (simp only: word_unat_eq_iff)
  moreover have "hd (be_bytes (Suc n) i) \<noteq> 0" if "i \<noteq> 0"
  proof -
    have "unat (drop_bit (8 * n) i) < 256"
      using assms(1) unfolding unat_drop_bit by (simp add: div_less_iff_less_mult power_add)
    moreover have "unat (drop_bit (8 * n) i) \<noteq> 0"
      using assms(2) that unfolding unat_drop_bit by (auto simp: div_eq_0_iff unat_eq_0)
    ultimately have "unat (ucast (drop_bit (8 * n) i) :: byte) \<noteq> 0"
      by (simp add: unsigned_ucast_eq take_bit_eq_mod)
    then show ?thesis by (auto simp: be_bytes_Suc)
  qed
  ultimately show ?thesis using assms intsize_range by (simp add: minimal_def)
qed

lemma minimal_putint: "minimal i (putint i)"
proof -
  have r: "minimal i (be_bytes k i)"
    if "unat i < 2 ^ (8 * k)" "k = 1 \<or> 2 ^ (8 * (k - 1)) \<le> unat i" "k \<in> {1..8}" for k
    using minimal_be_bytes [of i "k - 1"] that by (cases k) auto
  have "unat i < 2 ^ 64" using unsigned_less [of i] by simp
  then show ?thesis
    unfolding putint_def word_less_nat_alt by (auto intro!: r)
qed

lemma putint_facts:
  "length (putint i) = intsize i" "be_word (putint i) = i" "i \<noteq> 0 \<Longrightarrow> hd (putint i) \<noteq> 0" "putint i \<noteq> []"
  "1 \<le> length (putint i)" "length (putint i) \<le> 8"
  using minimal_putint [of i] by (auto simp: minimal_def)

lemma length_puthead: "length (puthead st lt sz) = headsize sz"
  by (simp add: puthead_def headsize_def Let_def putint_facts)

lemma intsize_le: "1 \<le> intsize i" "intsize i \<le> 8"
  using putint_facts(5,6) [of i] by (simp_all add: putint_facts)

lemma len64_small: "n < 2 ^ 64 \<Longrightarrow> (word_of_nat n < (56 :: i64)) = (n < 56)" "n < 2 ^ 64 \<Longrightarrow> unat (word_of_nat n :: i64) = n"
  by (simp_all add: word_less_nat_alt unat_of_nat)

lemma headsize_of_nat: "n < 2 ^ 64 \<Longrightarrow> headsize (word_of_nat n) = (if n < 56 then 1 else 1 + intsize (word_of_nat n))"
  by (simp add: headsize_def len64_small)

section \<open>The recursive encoding\<close>

text \<open>A string: one small byte stands for itself, everything else follows its header.\<close>

definition enc_str :: "bytes \<Rightarrow> bytes" where
  "enc_str b = (if length b = 1 \<and> hd b \<le> 0x7F then b else puthead 0x80 0xB7 (len64 b) @ b)"

definition enc_list :: "bytes \<Rightarrow> bytes" where
  "enc_list c = puthead 0xC0 0xF7 (len64 c) @ c"

definition uint_bytes :: "i64 \<Rightarrow> bytes" where
  "uint_bytes i = (if i = 0 then [] else putint i)"

definition big_bytes :: "int \<Rightarrow> bytes" where
  "big_bytes i = (if i < 2 ^ 64 then uint_bytes (word_of_int i) else nat_bytes (nat i))"

fun rlp_enc :: "rval \<Rightarrow> bytes" where
  "rlp_enc (VRaw b) = b"
| "rlp_enc (VBigPtr None) = enc_str []"
| "rlp_enc (VBigPtr (Some i)) = enc_str (big_bytes i)"
| "rlp_enc (VBig i) = enc_str (big_bytes i)"
| "rlp_enc (VUint i) = enc_str (uint_bytes i)"
| "rlp_enc (VBool b) = enc_str (uint_bytes (if b then 1 else 0))"
| "rlp_enc (VString s) = enc_str s"
| "rlp_enc (VBytes b) = enc_str b"
| "rlp_enc (VByteArray b) = enc_str b"
| "rlp_enc (VSlice vs) = enc_list (concat (map rlp_enc vs))"
| "rlp_enc (VStruct vs) = enc_list (concat (map rlp_enc vs))"
| "rlp_enc VNil = enc_list []"
| "rlp_enc (VNilPtr is_string) = (if is_string then enc_str [] else enc_list [])"

text \<open>The values that have an encoding: no negative number.\<close>

fun encodable :: "rval \<Rightarrow> bool" where
  "encodable (VBigPtr (Some i)) = (0 \<le> i)"
| "encodable (VBig i) = (0 \<le> i)"
| "encodable (VSlice vs) = list_all encodable vs"
| "encodable (VStruct vs) = list_all encodable vs"
| "encodable _ = True"

text \<open>
  A writer emits \<open>e\<close>: it adds text and headers, the headers at offsets in the text it added, so that both merge to
  \<open>e\<close>, and it counts the bytes of the headers.
\<close>

definition shift :: "nat \<Rightarrow> listhead \<Rightarrow> listhead" where
  "shift n h = h\<lparr>lh_offset := n + lh_offset h\<rparr>"

lemma shift_simps [simp]:
  "lh_offset (shift n h) = n + lh_offset h" "listhead_encode (shift n h) = listhead_encode h"
  "shift n \<lparr>lh_offset = a, lh_size = b\<rparr> = \<lparr>lh_offset = n + a, lh_size = b\<rparr>" "shift n (shift m h) = shift (n + m) h"
  by (simp_all add: shift_def listhead_encode_def add.assoc)

definition added :: "bytes \<Rightarrow> listhead list \<Rightarrow> nat \<Rightarrow> encBuffer \<Rightarrow> encBuffer" where
  "added s hs k w = w\<lparr>eb_str := eb_str w @ s, lheads := lheads w @ map (shift (length (eb_str w))) hs, lhsize := lhsize w + k\<rparr>"

definition emits :: "(encBuffer, unit) op \<Rightarrow> bytes \<Rightarrow> bool" where
  "emits m e \<longleftrightarrow> (\<exists>s hs k. (\<forall>w. m w = (Ok (), added s hs k w)) \<and> copyTo s 0 hs = e \<and> length e = length s + k \<and>
     list_all (\<lambda>h. lh_offset h \<le> length s) hs)"

lemma copyTo_shift: "copyTo (s1 @ s2) (length s1 + q) (map (shift (length s1)) hs) = copyTo s2 q hs"
  by (induction hs arbitrary: q) (simp_all add: max_def)

lemma copyTo_append:
  assumes "p \<le> length s1" "list_all (\<lambda>h. lh_offset h \<le> length s1) hs1"
  shows "copyTo (s1 @ s2) p (hs1 @ map (shift (length s1)) hs2) = copyTo s1 p hs1 @ copyTo s2 0 hs2"
  using assms
proof (induction hs1 arbitrary: p)
  case Nil
  then show ?case
  proof (cases hs2)
    case (Cons h hs)
    have "max p (length s1 + lh_offset h) = length s1 + lh_offset h" using Nil by simp
    then show ?thesis
      using Nil Cons copyTo_shift [of s1 s2 "lh_offset h" hs]
      by simp
  qed simp
next
  case (Cons h hs1)
  then show ?case by simp
qed

lemma emits_Write: "emits (supd (encBuffer_Write e)) e"
  unfolding emits_def
  by (rule exI [of _ e], rule exI [of _ "[]"], rule exI [of _ 0]) (simp add: supd_def encBuffer_Write_def added_def)

lemma added_added:
  "added s2 hs2 k2 (added s1 hs1 k1 w) = added (s1 @ s2) (hs1 @ map (shift (length s1)) hs2) (k1 + k2) w"
  by (simp add: added_def comp_def add.assoc)

lemma emits_bind:
  assumes "emits m e" "emits m' e'"
  shows "emits (sbind m (\<lambda>_. m')) (e @ e')"
proof -
  obtain s1 hs1 k1 s2 hs2 k2 where *: "\<And>w. m w = (Ok (), added s1 hs1 k1 w)" "copyTo s1 0 hs1 = e" "length e = length s1 + k1"
    "list_all (\<lambda>h. lh_offset h \<le> length s1) hs1"
    "\<And>w. m' w = (Ok (), added s2 hs2 k2 w)" "copyTo s2 0 hs2 = e'" "length e' = length s2 + k2"
    "list_all (\<lambda>h. lh_offset h \<le> length s2) hs2"
    using assms by (auto simp: emits_def)
  show ?thesis
    unfolding emits_def
    by (rule exI [of _ "s1 @ s2"], rule exI [of _ "hs1 @ map (shift (length s1)) hs2"], rule exI [of _ "k1 + k2"])
      (use * in \<open>auto simp: sbind_def added_added copyTo_append list_all_iff\<close>)
qed

lemma emits_in_list:
  assumes "emits m e" "length e < 2 ^ 64"
  shows "emits (in_list m) (enc_list e)"
proof -
  obtain s hs k where *: "\<And>w. m w = (Ok (), added s hs k w)" "copyTo s 0 hs = e" "length e = length s + k"
    "list_all (\<lambda>h. lh_offset h \<le> length s) hs"
    using assms(1) by (auto simp: emits_def)
  let ?h = "\<lparr>lh_offset = 0, lh_size = length e\<rparr>"
  have "in_list m w = (Ok (), added s (?h # hs) (k + headsize (len64 e)) w)" for w
    using headsize_of_nat [OF assms(2)] *(3)
    by (simp add: in_list_def rlp_list_def sbind_def supd_def *(1) listEnd_def added_def encBuffer_size_def
        Let_def nth_append del: of_nat_add)
  moreover have "copyTo s 0 (?h # hs) = enc_list e"
    using *(2) by (simp add: enc_list_def listhead_encode_def)
  ultimately show ?thesis
    unfolding emits_def using *
    by (intro exI [of _ s] exI [of _ "?h # hs"] exI [of _ "k + headsize (len64 e)"])
      (simp add: enc_list_def length_puthead)
qed

lemma emits_eq: "emits m e \<Longrightarrow> (\<And>w. m' w = m w) \<Longrightarrow> e = e' \<Longrightarrow> emits m' e'"
  by (simp add: emits_def)

lemma emits_Write2: "emits (supd (\<lambda>w. encBuffer_Write b (encBuffer_Write a w))) (a @ b)"
  by (rule emits_eq [OF emits_Write [of "a @ b"]]) (simp_all add: supd_def encBuffer_Write_def)

lemma ucast_len64: "n < 2 ^ 64 \<Longrightarrow> ucast (word_of_nat n :: i64) = (word_of_nat n :: byte)"
  by (simp add: unsigned_of_nat take_bit_nat_eq_self)

lemma encodeStringHeader_eq: "n < 2 ^ 64 \<Longrightarrow> encodeStringHeader n = encBuffer_Write (puthead 0x80 0xB7 (word_of_nat n))"
  by (simp add: encodeStringHeader_def puthead_def len64_small Let_def ucast_len64)

lemma emits_header: "length b < 2 ^ 64 \<Longrightarrow>
  emits (supd (\<lambda>w. encBuffer_Write b (encodeStringHeader (length b) w))) (puthead 0x80 0xB7 (len64 b) @ b)"
  by (simp add: encodeStringHeader_eq emits_Write2)

lemma emits_writeBytes: "length b < 2 ^ 64 \<Longrightarrow> emits (supd (writeBytes b)) (enc_str b)"
  using emits_Write [of b] emits_header [of b]
  by (cases b) (auto simp: writeBytes_def enc_str_def)

lemma putint_small: "i < 0x100 \<Longrightarrow> putint i = [ucast i]"
  by (simp add: putint_def be_bytes_def)

lemma byte_le_127: "(x :: byte) \<le> 0x7F \<Longrightarrow> (ucast x :: i64) < 128"
  by (simp add: word_less_nat_alt word_le_nat_alt unsigned_ucast_eq take_bit_nat_eq_self)

lemma enc_uint_small:
  assumes "i < 128" "i \<noteq> 0"
  shows "enc_str (uint_bytes i) = [ucast i]"
proof -
  have "(ucast i :: byte) \<le> 0x7F" "i < 0x100"
    using assms(1) by (simp_all add: word_less_nat_alt word_le_nat_alt unsigned_ucast_eq take_bit_nat_eq_self)
  with assms show ?thesis by (simp add: enc_str_def uint_bytes_def putint_small)
qed

lemma enc_uint_large:
  assumes "\<not> i < 128"
  shows "enc_str (uint_bytes i) = (0x80 + word_of_nat (length (putint i))) # putint i"
proof -
  have "\<not> (length (putint i) = 1 \<and> hd (putint i) \<le> 0x7F)"
  proof
    assume "length (putint i) = 1 \<and> hd (putint i) \<le> 0x7F"
    then obtain x where "putint i = [x]" "x \<le> 0x7F" by (cases "putint i") auto
    then have "i = ucast x" using putint_facts(2) [of i] by (simp add: be_word_def)
    with assms \<open>x \<le> 0x7F\<close> show False using byte_le_127 [of x] by simp
  qed
  moreover have "length (putint i) < 56" using putint_facts(6) [of i] by simp
  then have "puthead 0x80 0xB7 (len64 (putint i)) = [0x80 + word_of_nat (length (putint i))]"
    by (simp add: puthead_def len64_small ucast_len64)
  ultimately show ?thesis using assms by (auto simp: enc_str_def uint_bytes_def)
qed

lemma enc_uint_zero: "enc_str (uint_bytes 0) = [0x80]"
  by (simp add: enc_str_def uint_bytes_def puthead_def)

lemma writeUint64_eq: "writeUint64 i = encBuffer_Write (enc_str (uint_bytes i))"
  by (auto simp: writeUint64_def enc_uint_zero enc_uint_small enc_uint_large Let_def)

lemma emits_writeUint64: "emits (supd (writeUint64 i)) (enc_str (uint_bytes i))"
  by (simp add: writeUint64_eq emits_Write)

lemma emits_makeByteArrayWriter:
  assumes "length b < 2 ^ 64"
  shows "emits (supd (makeByteArrayWriter b)) (enc_str b)"
proof -
  consider "b = []" | x where "b = [x]" | x y c where "b = x # y # c" by (metis neq_Nil_conv)
  then show ?thesis
    using emits_Write [of b] emits_Write [of "0x81 # b"] emits_Write [of "[0x80]"] emits_header [OF assms]
    by cases (auto simp: makeByteArrayWriter_def enc_str_def puthead_def)
qed

text \<open>A number of more than 64 bits has more than one byte.\<close>

lemma nat_bytes_length: "256 ^ k \<le> n \<Longrightarrow> k < length (nat_bytes n)"
proof (induction k arbitrary: n)
  case 0
  then show ?case by (subst nat_bytes.simps) simp
next
  case (Suc k)
  then have "256 ^ k \<le> n div 256" by (simp add: less_eq_div_iff_mult_less_eq mult.commute)
  moreover have "n \<noteq> 0" using Suc.prems by (cases n) auto
  ultimately show ?case using Suc.IH by (subst nat_bytes.simps) simp
qed

lemma emits_write_big:
  assumes "0 \<le> i" "length (big_bytes i) < 2 ^ 64"
  shows "emits (write_big i) (enc_str (big_bytes i))"
proof (cases "i < 2 ^ 64")
  case True
  with assms show ?thesis
    by (simp add: write_big_def writeBigInt_def big_bytes_def emits_writeUint64)
next
  case False
  then have "1 < length (nat_bytes (nat i))" using nat_bytes_length [of 1 "nat i"] by simp
  with False assms emits_header [of "nat_bytes (nat i)"] show ?thesis
    by (simp add: write_big_def writeBigInt_def big_bytes_def enc_str_def)
qed

lemma length_enc_ge: "length b \<le> length (enc_str b)" "length c \<le> length (enc_list c)"
  by (simp_all add: enc_str_def enc_list_def)

lemma enc_str_bound: "length (enc_str b) < n \<Longrightarrow> length b < n"
  using length_enc_ge(1) [of b] by simp

lemma emits_rlp_write:
  "encodable v \<Longrightarrow> length (rlp_enc v) < 2 ^ 64 \<Longrightarrow> emits (rlp_write v) (rlp_enc v)"
  "list_all encodable vs \<Longrightarrow> length (concat (map rlp_enc vs)) < 2 ^ 64 \<Longrightarrow> emits (rlp_writes vs) (concat (map rlp_enc vs))"
proof (induction v and vs rule: rlp_write_rlp_writes.induct)
  case (10 vs)
  show ?case
  proof (cases "vs = []")
    case True
    then show ?thesis using emits_Write [of "[0xC0]"] by (simp add: enc_list_def puthead_def)
  next
    case False
    with 10 length_enc_ge(2) [of "concat (map rlp_enc vs)"] show ?thesis by (simp add: emits_in_list)
  qed
next
  case (11 vs)
  with length_enc_ge(2) [of "concat (map rlp_enc vs)"] show ?case by (simp add: emits_in_list)
next
  case (15 v vs)
  then show ?case by (simp add: emits_bind)
next
  case 14
  show ?case using emits_Write [of "[]"]
    by (rule emits_eq) (simp_all add: supd_def sret_def encBuffer_Write_def)
next
  case (6 b)
  have "writeBool b = writeUint64 (if b then 1 else 0)" by (simp add: writeBool_def writeUint64_def)
  then show ?case by (simp add: emits_writeUint64)
qed (use emits_Write [of "[0x80]"] emits_Write [of "[0xC0]"] in
  \<open>auto simp: emits_Write emits_writeUint64 enc_list_def enc_str_def [of "[]"] puthead_def intro!: emits_write_big emits_writeBytes
    emits_makeByteArrayWriter dest: enc_str_bound\<close>)

lemma makeBytes_emits: "emits m e \<Longrightarrow> \<exists>w. m getEncBuffer = (Ok (), w) \<and> makeBytes w = e"
proof -
  assume "emits m e"
  then obtain s hs k where *: "\<And>w. m w = (Ok (), added s hs k w)" "copyTo s 0 hs = e" "length e = length s + k"
    by (auto simp: emits_def)
  have "map (shift 0) hs = hs" by (simp add: shift_def map_idI)
  with * show ?thesis by (simp add: makeBytes_def encBuffer_size_def added_def getEncBuffer_def)
qed

lemma EncodeToBytes_eq:
  assumes "encodable v" "length (rlp_enc v) < 2 ^ 64"
  shows "EncodeToBytes v = Ok (rlp_enc v)"
  using makeBytes_emits [OF emits_rlp_write(1) [OF assms]] by (auto simp: EncodeToBytes_def)

section \<open>Splitting what was encoded\<close>

lemma readSize_putint:
  assumes "56 \<le> i"
  shows "readSize (putint i @ b) (word_of_nat (length (putint i))) = Ok i"
proof -
  define n where "n = length (putint i)"
  have n: "n \<in> {1..8}" using putint_facts(5,6) [of i] by (simp add: n_def)
  then have "unat (word_of_nat n :: byte) = n" by (simp add: unat_of_nat)
  moreover from this n have "(word_of_nat n :: byte) \<in> {1..8}" by (simp add: word_le_nat_alt)
  moreover have "i \<noteq> 0" using assms by auto
  ultimately show ?thesis
    using putint_facts(2-4) [of i] assms unfolding n_def [symmetric]
    by (simp add: readSize_def n_def Let_def hd_append not_less)
qed

lemma byte_plus: "a + m < 256 \<Longrightarrow> unat (word_of_nat a + word_of_nat m :: byte) = a + m"
  by (simp add: unat_word_ariths unat_of_nat)

lemma ucast_of_nat_byte: "m < 256 \<Longrightarrow> (ucast (word_of_nat m :: byte) :: i64) = word_of_nat m"
  by (simp add: unsigned_of_nat take_bit_nat_eq_self)

text \<open>A header, for the two pairs of tags, with small and with large sizes.\<close>

lemma readKind_small:
  assumes "length c < 56" "length c + length rest + 1 < 2 ^ 64"
  shows "(\<forall>x. c = [x] \<longrightarrow> \<not> x < 128) \<Longrightarrow>
      readKind ((0x80 + word_of_nat (length c)) # c @ rest) = Ok (String, 1, len64 c)"
    "readKind ((0xC0 + word_of_nat (length c)) # c @ rest) = Ok (List, 1, len64 c)"
proof -
  let ?m = "word_of_nat (length c) :: byte"
  have s: "unat (0x80 + ?m) = 128 + length c" using byte_plus [of 128 "length c"] assms(1) by simp
  have l: "unat (0xC0 + ?m) = 192 + length c" using byte_plus [of 192 "length c"] assms(1) by simp
  have u: "(ucast ?m :: i64) = len64 c" using assms(1) by (simp add: ucast_of_nat_byte)
  have one: "len64 c = (1 :: i64) \<longleftrightarrow> length c = 1"
    using assms(1) by (simp add: word_unat_eq_iff unat_of_nat)
  have r: "unat (len64 c :: i64) = length c" using assms(2) by (simp add: len64_small(2))
  show "readKind ((0xC0 + ?m) # c @ rest) = Ok (List, 1, len64 c)"
    using r l assms(1) by (simp add: readKind_def word_less_nat_alt u Let_def)
  assume "\<forall>x. c = [x] \<longrightarrow> \<not> x < 128"
  then have "\<not> (length c = 1 \<and> (c @ rest) ! 0 < 128)" by (cases c) auto
  then show "readKind ((0x80 + ?m) # c @ rest) = Ok (String, 1, len64 c)"
    using r s assms(1) one by (auto simp: readKind_def word_less_nat_alt u Let_def)
qed

lemma readKind_long:
  assumes "unat cs \<le> length (t # buf) - unat (ucast (t - base) + 1 :: i64)" "readSize buf (t - base) = Ok cs"
  shows "base = 0xB7 \<Longrightarrow> 0xB8 \<le> t \<Longrightarrow> t < 0xC0 \<Longrightarrow> readKind (t # buf) = Ok (String, ucast (t - base) + 1, cs)"
    "base = 0xF7 \<Longrightarrow> 0xF8 \<le> t \<Longrightarrow> readKind (t # buf) = Ok (List, ucast (t - base) + 1, cs)"
proof -
  show "readKind (t # buf) = Ok (String, ucast (t - base) + 1, cs)" if "base = 0xB7" "0xB8 \<le> t" "t < 0xC0"
  proof -
    have "\<not> t < 0x80" "\<not> t < 0xB8" using that(2) by (auto simp: word_less_nat_alt word_le_nat_alt)
    with that assms show ?thesis by (simp add: readKind_def)
  qed
  show "readKind (t # buf) = Ok (List, ucast (t - base) + 1, cs)" if "base = 0xF7" "0xF8 \<le> t"
  proof -
    have "\<not> t < 0x80" "\<not> t < 0xB8" "\<not> t < 0xC0" "\<not> t < 0xF8" using that(2) by (auto simp: word_less_nat_alt word_le_nat_alt)
    with that assms show ?thesis by (simp add: readKind_def)
  qed
qed

lemma readKind_large:
  assumes "56 \<le> length c" "length c + length rest + 9 < 2 ^ 64"
  shows "readKind ((0xB7 + word_of_nat (length (putint (len64 c)))) # putint (len64 c) @ c @ rest) =
      Ok (String, word_of_nat (1 + length (putint (len64 c))), len64 c)"
    "readKind ((0xF7 + word_of_nat (length (putint (len64 c)))) # putint (len64 c) @ c @ rest) =
      Ok (List, word_of_nat (1 + length (putint (len64 c))), len64 c)"
proof -
  define p where "p = putint (len64 c)"
  let ?n = "word_of_nat (length p) :: byte"
  have n: "1 \<le> length p" "length p \<le> 8" using putint_facts(5,6) [of "len64 c"] by (simp_all add: p_def)
  have s: "unat (0xB7 + ?n) = 183 + length p" using byte_plus [of 183 "length p"] n by simp
  have l: "unat (0xF7 + ?n) = 247 + length p" using byte_plus [of 247 "length p"] n by simp
  have u: "(ucast ?n :: i64) = word_of_nat (length p)" using n by (simp add: ucast_of_nat_byte)
  have "length c < 2 ^ 64" using assms(2) by simp
  then have "(56 :: i64) \<le> len64 c" using assms(1) by (simp add: word_le_nat_alt len64_small(2))
  from readSize_putint [OF this] have rs: "readSize (p @ c @ rest) ?n = Ok (len64 c)" by (simp add: p_def)
  have r: "unat (len64 c :: i64) \<le> length (t # p @ c @ rest) - unat (word_of_nat (1 + length p) :: i64)" for t :: byte
    using n assms(2) len64_small(2) [of "length c"] len64_small(2) [of "1 + length p"] by simp
  have d: "0xB7 + ?n - 0xB7 = ?n" "0xF7 + ?n - 0xF7 = ?n" by simp_all
  have w: "ucast ?n + 1 = (word_of_nat (1 + length p) :: i64)" using u by simp
  show "readKind ((0xB7 + ?n) # p @ c @ rest) = Ok (String, word_of_nat (1 + length p), len64 c)"
    using readKind_long(1) [where t = "0xB7 + ?n" and buf = "p @ c @ rest" and base = "0xB7" and cs = "len64 c"] r [of "0xB7 + ?n"] s n rs
    unfolding d w by (simp add: word_less_nat_alt word_le_nat_alt)
  show "readKind ((0xF7 + ?n) # p @ c @ rest) = Ok (List, word_of_nat (1 + length p), len64 c)"
    using readKind_long(2) [where t = "0xF7 + ?n" and buf = "p @ c @ rest" and base = "0xF7" and cs = "len64 c"] r [of "0xF7 + ?n"] l n rs
    unfolding d w by (simp add: word_less_nat_alt word_le_nat_alt)
qed

lemma readKind_puthead:
  assumes "length c + length rest + 9 < 2 ^ 64"
  shows "(\<forall>x. c = [x] \<longrightarrow> \<not> x < 128) \<Longrightarrow>
      readKind (puthead 0x80 0xB7 (len64 c) @ c @ rest) = Ok (String, word_of_nat (headsize (len64 c)), len64 c)"
    "readKind (puthead 0xC0 0xF7 (len64 c) @ c @ rest) = Ok (List, word_of_nat (headsize (len64 c)), len64 c)"
proof -
  have len: "length c < 2 ^ 64" using assms by simp
  note sizes = puthead_def headsize_def len64_small [OF len] ucast_len64 [OF len] Let_def putint_facts(1)
  show "readKind (puthead 0xC0 0xF7 (len64 c) @ c @ rest) = Ok (List, word_of_nat (headsize (len64 c)), len64 c)"
    using assms readKind_small(2) [of c rest] readKind_large(2) [of c rest]
    by (cases "length c < 56") (simp_all add: sizes)
  show "readKind (puthead 0x80 0xB7 (len64 c) @ c @ rest) = Ok (String, word_of_nat (headsize (len64 c)), len64 c)"
    if "\<forall>x. c = [x] \<longrightarrow> \<not> x < 128"
    using assms readKind_small(1) [of c rest] readKind_large(1) [of c rest] that
    by (cases "length c < 56") (simp_all add: sizes)
qed

text \<open>Where the kind is known, so are the parts.\<close>

lemma Split_parts:
  assumes "readKind (h @ c @ rest) = Ok (k, word_of_nat (length h), len64 c)" "length h + length c < 2 ^ 64"
  shows "Split (h @ c @ rest) = Ok (k, c, rest)"
proof -
  have "unat (word_of_nat (length h) :: i64) = length h" using assms(2) by (simp add: len64_small(2))
  moreover have "unat (word_of_nat (length h) + len64 c :: i64) = length h + length c"
    using assms(2) len64_small(2) [of "length h + length c"] by simp
  ultimately show ?thesis using assms(1) by (simp add: Split_def slice_def slice_from_def)
qed

lemma headsize_le: "headsize i \<le> 9"
  using intsize_le [of i] by (simp add: headsize_def)

lemma Split_enc_list:
  assumes "length c + length rest + 9 < 2 ^ 64"
  shows "Split (enc_list c @ rest) = Ok (List, c, rest)"
  using Split_parts [of "puthead 0xC0 0xF7 (len64 c)" c rest List] readKind_puthead(2) [OF assms] assms headsize_le [of "len64 c"]
  by (simp add: enc_list_def length_puthead)

lemma Split_enc_str:
  assumes "length b + length rest + 9 < 2 ^ 64"
  shows "Split (enc_str b @ rest) = Ok (if length b = 1 \<and> hd b \<le> 0x7F then Byte else String, b, rest)"
proof (cases "length b = 1 \<and> hd b \<le> 0x7F")
  case True
  then obtain x where "b = [x]" "x \<le> 0x7F" by (cases b) auto
  then have "x < 0x80" by (simp add: word_less_nat_alt word_le_nat_alt)
  then have "readKind (x # rest) = Ok (Byte, 0, 1)" by (simp add: readKind_def)
  then show ?thesis using True \<open>b = [x]\<close> Split_parts [of "[]" b rest Byte] by (simp add: enc_str_def)
next
  case False
  then have "\<forall>x. b = [x] \<longrightarrow> \<not> x < 128" by (auto simp: word_less_nat_alt word_le_nat_alt)
  then show ?thesis
    using False Split_parts [of "puthead 0x80 0xB7 (len64 b)" b rest String] readKind_puthead(1) [OF assms] assms headsize_le [of "len64 b"]
    by (auto simp: enc_str_def length_puthead)
qed

text \<open>The kind and the sizes that are read lie within the input, and are not both zero.\<close>

lemma readSize_Ok: "readSize b n = Ok s \<Longrightarrow> unat n \<le> length b"
  by (auto simp: readSize_def Let_def split: if_splits)

lemma byte_succ_64: "unat (ucast (x :: byte) + 1 :: i64) = unat x + 1"
proof -
  have "unat (ucast x :: i64) = unat x"
    using unsigned_less [of x, where 'a = nat] by (simp add: unsigned_ucast_eq take_bit_nat_eq_self)
  then show ?thesis using unsigned_less [of x, where 'a = nat] by (simp add: unat_word_ariths)
qed

lemma readKind_sizes:
  assumes "readKind b = Ok (k, ts, cs)"
  shows "unat ts + unat cs \<le> length b" "0 < unat ts + unat cs"
proof -
  obtain t bs where b: "b = t # bs" using assms by (cases b) (auto simp: readKind_def)
  have "unat cs \<le> length b - unat ts" "unat ts \<le> length b" "0 < unat ts \<or> 0 < unat cs"
    using assms by (auto simp: b readKind_def Let_def rbind_Ok_iff byte_succ_64 dest!: readSize_Ok split: if_splits)
  then show "unat ts + unat cs \<le> length b" "0 < unat ts + unat cs" by auto
qed

text \<open>The number of values in a text.  The end of a value is within the text, where the sum of the sizes does not overflow.\<close>

function CountValues :: "bytes \<Rightarrow> nat result" where
  "CountValues b =
     (if b = [] then Ok 0
      else rbind (readKind b) (\<lambda>(k, tagsize, sz).
        rbind (slice_from b (unat tagsize + unat sz)) (\<lambda>b'.
        rbind (CountValues b') (\<lambda>n. Ok (Suc n)))))"
  by auto

termination
  by (relation "measure length") (auto simp: slice_from_def slice_def dest: readKind_sizes split: if_splits)

declare CountValues.simps [simp del]

text \<open>A value of the format, however it came about, is read with its content.\<close>

fun content :: "rval \<Rightarrow> Kind \<times> bytes" where
  "content (VSlice vs) = (List, concat (map rlp_enc vs))"
| "content (VStruct vs) = (List, concat (map rlp_enc vs))"
| "content VNil = (List, [])"
| "content (VNilPtr s) = (if s then String else List, [])"
| "content (VRaw b) = (Byte, b)"
| "content v = (let b = (case v of
       VBigPtr (Some i) \<Rightarrow> big_bytes i | VBig i \<Rightarrow> big_bytes i | VUint i \<Rightarrow> uint_bytes i
     | VBool b \<Rightarrow> uint_bytes (if b then 1 else 0) | VString s \<Rightarrow> s | VBytes b \<Rightarrow> b | VByteArray b \<Rightarrow> b | _ \<Rightarrow> [])
     in (if length b = 1 \<and> hd b \<le> 0x7F then Byte else String, b))"

text \<open>The values whose text is not handed in ready.\<close>

fun typed :: "rval \<Rightarrow> bool" where
  "typed (VRaw _) = False"
| "typed (VSlice vs) = list_all typed vs"
| "typed (VStruct vs) = list_all typed vs"
| "typed _ = True"

definition str_kind :: "bytes \<Rightarrow> Kind" where
  "str_kind b = (if length b = 1 \<and> hd b \<le> 0x7F then Byte else String)"

lemma content_cases:
  assumes "typed v"
  obtains b where "rlp_enc v = enc_str b" "content v = (str_kind b, b)"
  | c where "rlp_enc v = enc_list c" "content v = (List, c)"
proof (cases v)
  case (VBigPtr p)
  then show thesis using that(1) by (cases p) (auto simp: Let_def str_kind_def)
next
  case (VNilPtr is_string)
  then show thesis using that by (cases is_string) (auto simp: str_kind_def)
qed (use assms that in \<open>auto simp: Let_def str_kind_def split: if_splits\<close>)

lemma Split_rlp_enc:
  assumes "typed v" "length (rlp_enc v) + length rest + 9 < 2 ^ 64"
  shows "Split (rlp_enc v @ rest) = Ok (fst (content v), snd (content v), rest)"
  using assms(1)
proof (cases v rule: content_cases)
  case (1 b)
  then show ?thesis using assms(2) length_enc_ge(1) [of b] by (simp add: Split_enc_str str_kind_def)
next
  case (2 c)
  then show ?thesis using assms(2) length_enc_ge(2) [of c] by (simp add: Split_enc_list)
qed

lemma Split_readKind:
  assumes "Split b = Ok (k, c, rest)" "length b < 2 ^ 64"
  obtains ts cs where "readKind b = Ok (k, ts, cs)" "unat ts + unat cs = unat (ts + cs)" "unat (ts + cs) \<le> length b"
    "drop (unat (ts + cs)) b = rest"
proof -
  obtain ts cs where r: "readKind b = Ok (k, ts, cs)" "drop (unat (ts + cs)) b = rest" "unat (ts + cs) \<le> length b"
    using assms(1) by (auto simp: Split_def rbind_Ok_iff slice_def slice_from_def split: if_splits)
  moreover have "unat ts + unat cs = unat (ts + cs)"
    using readKind_sizes(1) [OF r(1)] assms(2) by (simp add: unat_word_ariths)
  ultimately show thesis using that by blast
qed

lemma readKind_Nil: "readKind [] = Err ''unexpected EOF''"
  by (simp add: readKind_def)

lemma CountValues_Split:
  assumes "Split b = Ok (k, c, rest)" "length b < 2 ^ 64"
  shows "CountValues b = rbind (CountValues rest) (\<lambda>n. Ok (Suc n))"
proof -
  obtain ts cs where r: "readKind b = Ok (k, ts, cs)" "unat ts + unat cs = unat (ts + cs)"
    "unat (ts + cs) \<le> length b" "drop (unat (ts + cs)) b = rest"
    using assms by (rule Split_readKind)
  then have "b \<noteq> []" by (auto simp: readKind_Nil)
  moreover have "slice_from b (unat (ts + cs)) = Ok rest" using r by (simp add: slice_from_def slice_def flip: r(4))
  ultimately show ?thesis using r by (subst CountValues.simps) simp
qed

lemma CountValues_enc:
  assumes "list_all typed vs" "length (concat (map rlp_enc vs)) + 9 < 2 ^ 64"
  shows "CountValues (concat (map rlp_enc vs)) = Ok (length vs)"
  using assms
proof (induction vs)
  case Nil
  then show ?case by (simp add: CountValues.simps)
next
  case (Cons v vs)
  let ?rest = "concat (map rlp_enc vs)"
  have "Split (rlp_enc v @ ?rest) = Ok (fst (content v), snd (content v), ?rest)"
    using Cons.prems by (intro Split_rlp_enc) auto
  from CountValues_Split [OF this] show ?case using Cons by simp
qed

text \<open>One step of the iterator over the elements of a list.\<close>

lemma listIterator_Next_enc:
  assumes "typed v" "it_data it = rlp_enc v @ rest" "length (it_data it) + 9 < 2 ^ 64"
  shows "listIterator_Next it = (Ok True, it\<lparr>it_next := rlp_enc v, it_data := rest, it_err := None\<rparr>)"
proof -
  have sp: "Split (it_data it) = Ok (fst (content v), snd (content v), rest)"
    unfolding assms(2) by (rule Split_rlp_enc) (use assms in auto)
  moreover have "length (it_data it) < 2 ^ 64" using assms(3) by simp
  ultimately obtain ts cs where r: "readKind (it_data it) = Ok (fst (content v), ts, cs)"
    "unat (ts + cs) \<le> length (it_data it)" "drop (unat (ts + cs)) (it_data it) = rest"
    by (rule Split_readKind) blast
  then have "unat (ts + cs) = length (rlp_enc v)"
    using assms(2) by (metis append_eq_conv_conj append_take_drop_id length_append add_right_cancel length_take min_absorb2)
  with r assms(2) show ?thesis
    by (auto simp: listIterator_Next_def effect_defs slice_def slice_from_def readKind_def)
qed

lemma AppendUint64_eq: "AppendUint64 b i = b @ rlp_enc (VUint i)"
proof -
  consider "i = 0" | "i \<noteq> 0" "i < 128" | "\<not> i < 128" by blast
  then show ?thesis
  proof cases
    case 3
    then show ?thesis by (auto simp: AppendUint64_def enc_uint_large putint_def)
  qed (simp_all add: AppendUint64_def enc_uint_zero enc_uint_small)
qed

lemma uint_bytes_read:
  "length (uint_bytes i) = 0 \<Longrightarrow> i = 0"
  "length (uint_bytes i) = 1 \<Longrightarrow> hd (uint_bytes i) \<noteq> 0 \<and> ucast (hd (uint_bytes i)) = i"
  "2 \<le> length (uint_bytes i) \<Longrightarrow> readSize (uint_bytes i) (word_of_nat (length (uint_bytes i))) = Ok i"
proof -
  note p = putint_facts [of i]
  show "length (uint_bytes i) = 0 \<Longrightarrow> i = 0" using p by (auto simp: uint_bytes_def split: if_splits)
  show "hd (uint_bytes i) \<noteq> 0 \<and> ucast (hd (uint_bytes i)) = i" if "length (uint_bytes i) = 1"
  proof -
    from that have "i \<noteq> 0" "length (putint i) = 1" by (auto simp: uint_bytes_def split: if_splits)
    moreover from this(2) obtain x where "putint i = [x]" by (auto simp: length_Suc_conv)
    ultimately show ?thesis using p by (simp add: uint_bytes_def be_word_def)
  qed
  show "readSize (uint_bytes i) (word_of_nat (length (uint_bytes i))) = Ok i" if "2 \<le> length (uint_bytes i)"
  proof -
    from that have "i \<noteq> 0" "2 \<le> length (putint i)" by (auto simp: uint_bytes_def split: if_splits)
    then have "\<not> i < 0x100" using putint_small [of i] by auto
    then have "56 \<le> i" by (simp add: word_less_nat_alt word_le_nat_alt)
    from readSize_putint [OF this, of "[]"] \<open>i \<noteq> 0\<close> show ?thesis by (simp add: uint_bytes_def)
  qed
qed

lemma length_uint_bytes: "length (uint_bytes i) \<le> 8"
  using putint_facts(6) [of i] by (simp add: uint_bytes_def)

lemma SplitUint64_enc:
  assumes "length rest + 18 < 2 ^ 64"
  shows "SplitUint64 (rlp_enc (VUint i) @ rest) = Ok (i, rest)"
proof -
  let ?c = "uint_bytes i"
  have sp: "SplitString (rlp_enc (VUint i) @ rest) = Ok (?c, rest)"
    using Split_enc_str [of ?c rest] length_uint_bytes [of i] assms by (simp add: SplitString_def)
  consider "length ?c = 0" | "length ?c = 1" | "2 \<le> length ?c" by linarith
  then show ?thesis
  proof cases
    case 3
    then show ?thesis using uint_bytes_read(3) [of i] length_uint_bytes [of i] unfolding SplitUint64_def sp by auto
  qed (use uint_bytes_read(1,2) [of i] in \<open>unfold SplitUint64_def sp, auto\<close>)
qed

section \<open>Properties\<close>

text \<open>
  C40: what the encoder writes, the splitting functions read.  A struct of values without negative numbers and ready-made
  text is encoded as its recursive encoding; in front of any text it is split off as a list, its content counts
  as many values as the struct has fields, and each field in turn is split off with its own content.
\<close>

theorem encoded_struct_splits:
  assumes "list_all typed vs" "list_all encodable vs" "length (rlp_enc (VStruct vs)) + length rest + 9 < 2 ^ 64"
  shows "EncodeToBytes (VStruct vs) = Ok (rlp_enc (VStruct vs)) \<and>
    SplitList (rlp_enc (VStruct vs) @ rest) = Ok (concat (map rlp_enc vs), rest) \<and>
    CountValues (concat (map rlp_enc vs)) = Ok (length vs) \<and>
    (\<forall>us v ws. vs = us @ v # ws \<longrightarrow>
      Split (rlp_enc v @ concat (map rlp_enc ws)) = Ok (fst (content v), snd (content v), concat (map rlp_enc ws)))"
proof -
  let ?c = "concat (map rlp_enc vs)"
  have b: "length ?c \<le> length (rlp_enc (VStruct vs))" using length_enc_ge(2) [of ?c] by simp
  have "EncodeToBytes (VStruct vs) = Ok (rlp_enc (VStruct vs))"
    using assms by (intro EncodeToBytes_eq) simp_all
  moreover have "SplitList (rlp_enc (VStruct vs) @ rest) = Ok (?c, rest)"
    using b assms(3) Split_enc_list [of ?c rest] by (simp add: SplitList_def)
  moreover have "CountValues ?c = Ok (length vs)"
    using b assms by (intro CountValues_enc) simp_all
  moreover have "Split (rlp_enc v @ concat (map rlp_enc ws)) = Ok (fst (content v), snd (content v), concat (map rlp_enc ws))"
    if "vs = us @ v # ws" for us v ws
    using b assms that by (intro Split_rlp_enc) simp_all
  ultimately show ?thesis by blast
qed

theorem encoded_struct_splits_witness:
  "EncodeToBytes (VStruct [VByteArray (replicate 20 7), VBool True, VUint 1000]) = Ok (0xD9 # 0x94 # replicate 20 7 @ [1, 0x82, 3, 0xE8]) \<and>
    SplitList (0xD9 # 0x94 # replicate 20 7 @ [1, 0x82, 3, 0xE8]) = Ok (0x94 # replicate 20 7 @ [1, 0x82, 3, 0xE8], [])"
proof -
  have e: "map rlp_enc [VByteArray (replicate 20 7), VBool True, VUint 1000] = [0x94 # replicate 20 7, [1], [0x82, 3, 0xE8]]"
    by code_simp
  show ?thesis
    using encoded_struct_splits [of "[VByteArray (replicate 20 7), VBool True, VUint 1000]" "[]"]
    by (simp only: rlp_enc.simps e) (simp add: enc_list_def puthead_def)
qed

end
