(* ===== verification/EVM_Calls.thy ===== *)
theory EVM_Calls
  imports EVM_Gas RLP
begin

text \<open>
  Calls between contracts and their creation: \<^verbatim>\<open>src/core/evm/evm.go\<close>, with the addresses of new contracts of
  \<^verbatim>\<open>src/crypto/crypto.go\<close>.  The interpreter that runs the code of the callee is the argument \<open>run\<close> (the interpreter calls
  these functions in turn, see \<open>EVM_Run\<close>); it returns the contract with the gas that is left.  Of the tracer only
  the output of the last inner call is kept, because the program reads it.
\<close>

type_synonym vmret = "bytes \<times> vmerr option"
type_synonym runner = "Contract \<Rightarrow> bytes \<Rightarrow> bool \<Rightarrow> (evm, vmret \<times> Contract) pop"

abbreviation pret :: "'a \<Rightarrow> ('s, 'a) pop" where "pret x \<equiv> pdo (sret x)"

section \<open>Addresses of new contracts\<close>

definition CreateAddress :: "vmctx \<Rightarrow> Address \<Rightarrow> u64 \<Rightarrow> Address" where
  "CreateAddress C b nonce =
     (let data = (case EncodeToBytes (VSlice [VStruct [VByteArray (addr_ByteValue b), VBool (addr_Primary b)], VUint nonce]) of
         Ok d \<Rightarrow> d | _ \<Rightarrow> [])
      in case BytesToAddress (drop 12 (vc_keccak C data)) of Ok a \<Rightarrow> a | _ \<Rightarrow> zero_Address)"

definition CreateAddress2 :: "vmctx \<Rightarrow> Address \<Rightarrow> bytes \<Rightarrow> bytes \<Rightarrow> Address" where
  "CreateAddress2 C b salt inithash =
     (case BytesToAddress (drop 12 (vc_keccak C ([0xff] @ addr_ByteValue b @ salt @ inithash))) of
        Ok a \<Rightarrow> a | _ \<Rightarrow> zero_Address)"

section \<open>Calls\<close>

definition precompile :: "vmctx \<Rightarrow> Address \<Rightarrow> PrecompiledContract option" where
  "precompile C addr =
     map_of (if IsBerlin (chainRules C) then pre_Berlin C
       else if IsIstanbul (chainRules C) then pre_Istanbul C
       else if IsByzantium (chainRules C) then pre_Byzantium C
       else PrecompiledContractsHomestead (vc_keccak C) (vc_sha256 C) (vc_ripemd C)) addr"

abbreviation CallCreateDepth :: int where "CallCreateDepth \<equiv> 1024"

definition CaptureExit :: "vmctx \<Rightarrow> bytes \<Rightarrow> (evm, unit) op" where
  "CaptureExit C out = (if vc_Debug C then supd (\<lambda>e. e\<lparr>log_Output := out\<rparr>) else sret ())"

abbreviation in_db :: "(StateAccount, 'a) op \<Rightarrow> (evm, 'a) op" where
  "in_db \<equiv> zoom evm_StateDB evm_StateDB_update"

text \<open>The end of a call: an error takes the state back to the snapshot, and the gas unless it was a revert.\<close>

definition end_call :: "int \<Rightarrow> bytes \<times> u64 \<times> vmerr option \<Rightarrow> (evm, bytes \<times> u64 \<times> vmerr option) op" where
  "end_call snapshot = (\<lambda>(ret, gas, err).
     case err of
       None \<Rightarrow> sret (ret, gas, None)
     | Some e \<Rightarrow> sbind (in_db (RevertToSnapshot snapshot)) (\<lambda>_.
         sret (ret, if e \<noteq> ErrExecutionReverted then 0 else gas, Some e)))"

definition run_code :: "runner \<Rightarrow> Contract \<Rightarrow> bytes \<Rightarrow> bool \<Rightarrow> (evm, bytes \<times> u64 \<times> vmerr option) pop" where
  "run_code run c input readOnly =
     pbind (run c input readOnly) (\<lambda>((ret, err), c'). pret (ret, Gas c', err))"

definition run_precompiled :: "PrecompiledContract \<Rightarrow> bytes \<Rightarrow> u64 \<Rightarrow> (evm, bytes \<times> u64 \<times> vmerr option) op" where
  "run_precompiled p input gas = slift (RunPrecompiledContract p input gas)"

definition Call :: "vmctx \<Rightarrow> runner \<Rightarrow> ContractRef \<Rightarrow> Address \<Rightarrow> bytes \<Rightarrow> u64 \<Rightarrow> int \<Rightarrow>
  (evm, bytes \<times> u64 \<times> vmerr option) pop" where
  "Call C run caller addr input gas v =
     pbind (pdo (sget id)) (\<lambda>e0.
     if evm_depth e0 > CallCreateDepth then pret ([], gas, Some ErrDepth)
     else
     let sa = evm_StateDB e0; snapshot = Snapshot sa; p = precompile C addr; inner = (evm_depth e0 \<noteq> 0) in
     if \<not> Exist addr sa \<and> p = None \<and> v = 0
     then pbind (pdo (if inner then CaptureExit C [] else sret ())) (\<lambda>_. pret ([], gas, None))
     else
     pbind (pdo (if \<not> Exist addr sa then in_db (supd (CreateAccount addr)) else sret ())) (\<lambda>_.
     pbind (case p of
         Some p \<Rightarrow> pdo (run_precompiled p input gas)
       | None \<Rightarrow>
           pbind (pdo (sget (\<lambda>e. (GetCode addr (evm_StateDB e), GetCodeHash addr (evm_StateDB e))))) (\<lambda>(code, hash).
           if code = [] then pret ([], gas, None)
           else pbind (pdo (NewContract caller addr v gas)) (\<lambda>c. run_code run (SetCallCode hash code c) input False))) (\<lambda>r.
     pbind (pdo (end_call snapshot r)) (\<lambda>r.
     pbind (pdo (if inner then CaptureExit C (fst r) else sret ())) (\<lambda>_. pret r)))))"

text \<open>What the three other calls do after their first checks.\<close>

definition call_with :: "vmctx \<Rightarrow> runner \<Rightarrow> ContractRef \<Rightarrow> Address \<Rightarrow> (Contract \<Rightarrow> Contract result) \<Rightarrow> Address \<Rightarrow> bytes \<Rightarrow> u64 \<Rightarrow> int \<Rightarrow> bool \<Rightarrow>
  (evm, bytes \<times> u64 \<times> vmerr option) pop" where
  "call_with C run caller self as addr input gas v readOnly =
     pbind (pdo (sget (\<lambda>e. Snapshot (evm_StateDB e)))) (\<lambda>snapshot.
     pbind (case precompile C addr of
         Some p \<Rightarrow> pdo (run_precompiled p input gas)
       | None \<Rightarrow>
           pbind (pdo (NewContract caller self v gas)) (\<lambda>c.
           pbind (pdo (slift (as c))) (\<lambda>c.
           pbind (pdo (sget (\<lambda>e. (GetCode addr (evm_StateDB e), GetCodeHash addr (evm_StateDB e))))) (\<lambda>(code, hash).
           run_code run (SetCallCode hash code c) input readOnly)))) (\<lambda>r.
     pbind (pdo (end_call snapshot r)) (\<lambda>r.
     pbind (pdo (CaptureExit C (fst r))) (\<lambda>_. pret r))))"

definition CallCode :: "vmctx \<Rightarrow> runner \<Rightarrow> ContractRef \<Rightarrow> Address \<Rightarrow> bytes \<Rightarrow> u64 \<Rightarrow> int \<Rightarrow>
  (evm, bytes \<times> u64 \<times> vmerr option) pop" where
  "CallCode C run caller addr input gas v =
     pbind (pdo (sget id)) (\<lambda>e0.
     if evm_depth e0 > CallCreateDepth then pret ([], gas, Some ErrDepth)
     else case CanTransfer C of
       None \<Rightarrow> pdo (slift Panic)
     | Some can \<Rightarrow>
         if \<not> can (evm_StateDB e0) (ref_Address caller) v then pret ([], gas, Some ErrInsufficientBalance)
         else call_with C run caller (ref_Address caller) Ok addr input gas v False)"

text \<open>The caller of a delegate call is a contract, or the conversion in \<^verbatim>\<open>AsDelegate\<close> panics.\<close>

definition DelegateCall :: "vmctx \<Rightarrow> runner \<Rightarrow> ContractRef \<Rightarrow> Address \<Rightarrow> bytes \<Rightarrow> u64 \<Rightarrow>
  (evm, bytes \<times> u64 \<times> vmerr option) pop" where
  "DelegateCall C run caller addr input gas =
     pbind (pdo (sget evm_depth)) (\<lambda>depth.
     if depth > CallCreateDepth then pret ([], gas, Some ErrDepth)
     else call_with C run caller (ref_Address caller)
       (case caller of ContractRef parent \<Rightarrow> (\<lambda>c. Ok (AsDelegate parent c)) | AccountRef _ \<Rightarrow> (\<lambda>c. Panic)) addr input gas 0 False)"

definition StaticCall :: "vmctx \<Rightarrow> runner \<Rightarrow> ContractRef \<Rightarrow> Address \<Rightarrow> bytes \<Rightarrow> u64 \<Rightarrow>
  (evm, bytes \<times> u64 \<times> vmerr option) pop" where
  "StaticCall C run caller addr input gas =
     pbind (pdo (sget evm_depth)) (\<lambda>depth.
     if depth > CallCreateDepth then pret ([], gas, Some ErrDepth)
     else call_with C run caller addr Ok addr input gas 0 True)"

section \<open>Creation\<close>

text \<open>What the deployment code returned, checked.\<close>

definition deploy_error :: "vmctx \<Rightarrow> vmret \<Rightarrow> vmerr option" where
  "deploy_error C = (\<lambda>(ret, err).
     if err = None \<and> IsEIP158 (chainRules C) \<and> length ret > 24576 then Some ErrMaxCodeSizeExceeded
     else if err = None \<and> ret \<noteq> [] \<and> hd ret = 0xEF \<and> IsLondon (chainRules C) then Some ErrInvalidCode
     else err)"

text \<open>Without an error the code is paid for and stored.\<close>

definition store_code :: "vmctx \<Rightarrow> Address \<Rightarrow> bytes \<Rightarrow> vmerr option \<Rightarrow> Contract \<Rightarrow> (evm, vmerr option \<times> Contract) op" where
  "store_code C address ret err c =
     (if err \<noteq> None then sret (err, c)
      else case UseGas (len64 ret * 200) c of
        (True, c') \<Rightarrow> sbind (in_db (supd (SetCode (vc_keccak C) address ret))) (\<lambda>_. sret (None, c'))
      | (False, c') \<Rightarrow> sret (Some ErrCodeStoreOutOfGas, c'))"

definition end_create :: "vmctx \<Rightarrow> int \<Rightarrow> vmerr option \<Rightarrow> Contract \<Rightarrow> (evm, Contract) op" where
  "end_create C snapshot err c =
     (if err \<noteq> None \<and> (IsHomestead (chainRules C) \<or> err \<noteq> Some ErrCodeStoreOutOfGas)
      then sbind (in_db (RevertToSnapshot snapshot)) (\<lambda>_.
        sret (if err \<noteq> Some ErrExecutionReverted then snd (UseGas (Gas c) c) else c))
      else sret c)"

definition create :: "vmctx \<Rightarrow> runner \<Rightarrow> ContractRef \<Rightarrow> bytes \<Rightarrow> hash \<Rightarrow> u64 \<Rightarrow> Address \<Rightarrow>
  (evm, bytes \<times> Address \<times> u64 \<times> vmerr option) pop" where
  "create C run caller code hash gas address =
     pbind (pdo (sget id)) (\<lambda>e0.
     let nonce = GetNonce (ref_Address caller) (evm_StateDB e0); inner = (evm_depth e0 \<noteq> 0) in
     if evm_depth e0 > CallCreateDepth then pret ([], zero_Address, gas, Some ErrDepth)
     else if nonce + 1 < nonce then pret ([], zero_Address, gas, Some ErrNonceUintOverflow)
     else
     pbind (pdo (in_db (supd (SetNonce (ref_Address caller) (nonce + 1))))) (\<lambda>_.
     pbind (pdo (if IsBerlin (chainRules C) then in_db (supd (AddAddressToAccessList address)) else sret ())) (\<lambda>_.
     pbind (pdo (sget evm_StateDB)) (\<lambda>sa.
     let contractHash = GetCodeHash address sa in
     if GetNonce address sa \<noteq> 0 \<or> (contractHash \<noteq> EmptyHash \<and> contractHash \<noteq> vc_keccak C [])
     then pret ([], zero_Address, 0, Some ErrContractAddressCollision)
     else
     let snapshot = Snapshot sa in
     pbind (pdo (in_db (supd (CreateAccount address)))) (\<lambda>_.
     pbind (pdo (if IsEIP158 (chainRules C) then in_db (supd (SetNonce address 1)) else sret ())) (\<lambda>_.
     pbind (pdo (NewContract caller address 0 gas)) (\<lambda>c.
     pbind (run (SetCallCode hash code c) [] False) (\<lambda>((ret, err), c).
     pbind (pdo (store_code C address ret (deploy_error C (ret, err)) c)) (\<lambda>(err, c).
     pbind (pdo (end_create C snapshot err c)) (\<lambda>c.
     pbind (pdo (if inner then CaptureExit C ret else sret ())) (\<lambda>_.
     pret (ret, address, Gas c, err))))))))))))"

text \<open>The value of a creation is only used for the address.\<close>

definition Create :: "vmctx \<Rightarrow> runner \<Rightarrow> ContractRef \<Rightarrow> bytes \<Rightarrow> u64 \<Rightarrow> int \<Rightarrow> u64 \<Rightarrow>
  (evm, bytes \<times> Address \<times> u64 \<times> vmerr option) pop" where
  "Create C run caller code gas v nonce =
     (let hash = vc_keccak C code;
          b = copy_into (replicate 32 0) (RightPadBytes (GetByteInt64 (word_of_int v)) 32);
          contractAddr = CreateAddress2 C (ref_Address caller) b hash
      in create C run caller code hash gas (CreateAddress C contractAddr nonce))"

definition Create2 :: "vmctx \<Rightarrow> runner \<Rightarrow> ContractRef \<Rightarrow> bytes \<Rightarrow> u64 \<Rightarrow> u256 \<Rightarrow>
  (evm, bytes \<times> Address \<times> u64 \<times> vmerr option) pop" where
  "Create2 C run caller code gas salt =
     (let hash = vc_keccak C code
      in create C run caller code hash gas (CreateAddress2 C (ref_Address caller) (Bytes32 salt) hash))"

end
