(* ===== verification/EVM_Ops.thy ===== *)
theory EVM_Ops
  imports EVM_Calls
begin

text \<open>
  The instructions: \<^verbatim>\<open>src/core/evm/instructions.go\<close> and those of \<^verbatim>\<open>eips.go\<close>, one definition for each function.  An instruction
  works on the running call and returns its output and its error, where \<^verbatim>\<open>errStopToken\<close> ends the call without one.
  The instructions that call or create contracts get the interpreter as the argument \<open>run\<close>.
\<close>

type_synonym vmop = "(vm, vmret) op"

definition nothing :: vmop where "nothing = sret ([], None)"
definition fail :: "vmerr \<Rightarrow> vmop" where "fail e = sret ([], Some e)"

text \<open>The shape of most instructions: operands from the stack, the result in the place of the last one.\<close>

definition unop :: "(u256 \<Rightarrow> u256) \<Rightarrow> vmop" where
  "unop f = sbind peek (\<lambda>x. sbind (set_top (f x)) (\<lambda>_. nothing))"

definition binop :: "(u256 \<Rightarrow> u256 \<Rightarrow> u256) \<Rightarrow> vmop" where
  "binop f = sbind pop (\<lambda>x. sbind peek (\<lambda>y. sbind (set_top (f x y)) (\<lambda>_. nothing)))"

definition ternop :: "(u256 \<Rightarrow> u256 \<Rightarrow> u256 \<Rightarrow> u256) \<Rightarrow> vmop" where
  "ternop f = sbind pop (\<lambda>x. sbind pop (\<lambda>y. sbind peek (\<lambda>z. sbind (set_top (f x y z)) (\<lambda>_. nothing))))"

definition push_val :: "(vm \<Rightarrow> u256) \<Rightarrow> vmop" where
  "push_val f = sbind (sget f) (\<lambda>x. sbind (push x) (\<lambda>_. nothing))"

definition truth :: "bool \<Rightarrow> u256" where "truth b = (if b then 1 else 0)"

section \<open>Arithmetic and logic\<close>

definition opAdd :: vmop where "opAdd = binop (+)"
definition opSub :: vmop where "opSub = binop (-)"
definition opMul :: vmop where "opMul = binop (*)"
definition opDiv :: "vmctx \<Rightarrow> vmop" where "opDiv C = binop (u_Div (vc_lib C))"
definition opSdiv :: "vmctx \<Rightarrow> vmop" where "opSdiv C = binop (u_SDiv (vc_lib C))"
definition opMod :: "vmctx \<Rightarrow> vmop" where "opMod C = binop (u_Mod (vc_lib C))"
definition opSmod :: "vmctx \<Rightarrow> vmop" where "opSmod C = binop (u_SMod (vc_lib C))"
definition opExp :: "vmctx \<Rightarrow> vmop" where "opExp C = binop (u_Exp (vc_lib C))"
definition opSignExtend :: "vmctx \<Rightarrow> vmop" where "opSignExtend C = binop (\<lambda>b num. u_ExtendSign (vc_lib C) num b)"
definition opNot :: vmop where "opNot = unop (NOT)"
definition opLt :: vmop where "opLt = binop (\<lambda>x y. truth (x < y))"
definition opGt :: vmop where "opGt = binop (\<lambda>x y. truth (x > y))"
definition opSlt :: vmop where "opSlt = binop (\<lambda>x y. truth (sint x < sint y))"
definition opSgt :: vmop where "opSgt = binop (\<lambda>x y. truth (sint x > sint y))"
definition opEq :: vmop where "opEq = binop (\<lambda>x y. truth (x = y))"
definition opIszero :: vmop where "opIszero = unop (\<lambda>x. truth (x = 0))"
definition opAnd :: vmop where "opAnd = binop (AND)"
definition opOr :: vmop where "opOr = binop (OR)"
definition opXor :: vmop where "opXor = binop (XOR)"
definition opByte :: "vmctx \<Rightarrow> vmop" where "opByte C = binop (\<lambda>th val. u_Byte (vc_lib C) val th)"
definition opAddmod :: "vmctx \<Rightarrow> vmop" where
  "opAddmod C = ternop (\<lambda>x y z. if z = 0 then 0 else u_AddMod (vc_lib C) x y z)"
definition opMulmod :: "vmctx \<Rightarrow> vmop" where "opMulmod C = ternop (u_MulMod (vc_lib C))"

definition opSHL :: vmop where
  "opSHL = binop (\<lambda>shift value. if uint shift < 256 then push_bit (unat (Uint64 shift)) value else 0)"

definition opSHR :: vmop where
  "opSHR = binop (\<lambda>shift value. if uint shift < 256 then drop_bit (unat (Uint64 shift)) value else 0)"

definition opSAR :: "vmctx \<Rightarrow> vmop" where
  "opSAR C = binop (\<lambda>shift value.
     if uint shift > 256 then if sint value \<ge> 0 then 0 else - 1
     else u_SRsh (vc_lib C) value (unat (Uint64 shift)))"

section \<open>Environment\<close>

definition opKeccak256 :: "vmctx \<Rightarrow> vmop" where
  "opKeccak256 C =
     sbind pop (\<lambda>offset. sbind peek (\<lambda>sz.
     sbind (sread (\<lambda>s. GetPtr (Uint64 offset) (Uint64 sz) (mem s))) (\<lambda>data.
     let h = vc_keccak C data in
     sbind (if EnablePreimageRecording C then on_StateDB (AddPreimage h data) else sret ()) (\<lambda>_.
     sbind (set_top (SetBytes h)) (\<lambda>_. nothing)))))"

definition opAddress :: vmop where "opAddress = push_val (\<lambda>s. SetBytes (addr_ByteValue (c_self (contract s))))"

definition opBalance :: vmop where
  "opBalance = sbind peek (\<lambda>slot. sbind (sget (\<lambda>s. FromBig (StateDB_GetBalance (word_address slot) (db s)))) (\<lambda>v.
     sbind (set_top v) (\<lambda>_. nothing)))"

definition opOrigin :: "vmctx \<Rightarrow> vmop" where "opOrigin C = push_val (\<lambda>s. SetBytes (addr_ByteValue (Origin C)))"
definition opCaller :: vmop where "opCaller = push_val (\<lambda>s. SetBytes (addr_ByteValue (CallerAddress (contract s))))"
definition opCallValue :: vmop where "opCallValue = push_val (\<lambda>s. FromBig (c_value (contract s)))"

definition opCallDataLoad :: vmop where
  "opCallDataLoad = sbind peek (\<lambda>x. let (offset, overflow) = Uint64WithOverflow x in
     if \<not> overflow
     then sbind (sread (\<lambda>s. getData (c_Input (contract s)) offset 32)) (\<lambda>data. sbind (set_top (SetBytes data)) (\<lambda>_. nothing))
     else sbind (set_top 0) (\<lambda>_. nothing))"

definition opCallDataSize :: vmop where "opCallDataSize = push_val (\<lambda>s. ucast (len64 (c_Input (contract s)) :: u64))"

text \<open>A copy into the memory; the bytes are computed first.\<close>

definition copy_to_mem :: "u256 \<Rightarrow> u256 \<Rightarrow> (vm \<Rightarrow> bytes result) \<Rightarrow> vmop" where
  "copy_to_mem memOffset len data =
     sbind (sread data) (\<lambda>d.
     sbind (sread (\<lambda>s. Memory_Set (Uint64 memOffset) (Uint64 len) d (mem s))) (\<lambda>m.
     sbind (supd (\<lambda>s. s\<lparr>mem := m\<rparr>)) (\<lambda>_. nothing)))"

definition data_offset :: "u256 \<Rightarrow> u64" where
  "data_offset off = (let (offset64, overflow) = Uint64WithOverflow off in if overflow then MaxUint64 else offset64)"

definition opCallDataCopy :: vmop where
  "opCallDataCopy = sbind pop (\<lambda>memOffset. sbind pop (\<lambda>dataOffset. sbind pop (\<lambda>len.
     copy_to_mem memOffset len (\<lambda>s. getData (c_Input (contract s)) (data_offset dataOffset) (Uint64 len)))))"

definition opReturnDataSize :: vmop where "opReturnDataSize = push_val (\<lambda>s. ucast (len64 (in_returnData (ev s)) :: u64))"

definition opReturnDataCopy :: vmop where
  "opReturnDataCopy = sbind pop (\<lambda>memOffset. sbind pop (\<lambda>dataOffset. sbind pop (\<lambda>len.
     let (offset64, overflow) = Uint64WithOverflow dataOffset in
     if overflow then fail ErrReturnDataOutOfBounds
     else let (end64, overflow) = Uint64WithOverflow (dataOffset + len) in
     sbind (sget (\<lambda>s. in_returnData (ev s))) (\<lambda>returnData.
     if overflow \<or> length returnData < unat end64 then fail ErrReturnDataOutOfBounds
     else copy_to_mem memOffset len (\<lambda>s. slice returnData (unat offset64) (unat end64))))))"

definition opExtCodeSize :: vmop where
  "opExtCodeSize = sbind peek (\<lambda>slot. sbind (sget (\<lambda>s. ucast (word_of_nat (GetCodeSize (word_address slot) (db s)) :: u64))) (\<lambda>v.
     sbind (set_top v) (\<lambda>_. nothing)))"

definition opCodeSize :: vmop where "opCodeSize = push_val (\<lambda>s. ucast (len64 (c_Code (contract s)) :: u64))"

definition opCodeCopy :: vmop where
  "opCodeCopy = sbind pop (\<lambda>memOffset. sbind pop (\<lambda>codeOffset. sbind pop (\<lambda>len.
     copy_to_mem memOffset len (\<lambda>s. getData (c_Code (contract s)) (data_offset codeOffset) (Uint64 len)))))"

definition opExtCodeCopy :: vmop where
  "opExtCodeCopy = sbind pop (\<lambda>a. sbind pop (\<lambda>memOffset. sbind pop (\<lambda>codeOffset. sbind pop (\<lambda>len.
     copy_to_mem memOffset len (\<lambda>s. getData (GetCode (word_address a) (db s)) (data_offset codeOffset) (Uint64 len))))))"

definition opExtCodeHash :: vmop where
  "opExtCodeHash = sbind peek (\<lambda>slot. let address = word_address slot in
     sbind (sget (\<lambda>s. if Empty address (db s) then 0 else SetBytes (GetCodeHash address (db s)))) (\<lambda>v.
     sbind (set_top v) (\<lambda>_. nothing)))"

definition opGasprice :: "vmctx \<Rightarrow> vmop" where "opGasprice C = push_val (\<lambda>s. FromBig (GasPrice C))"

definition opBlockhash :: "vmctx \<Rightarrow> vmop" where
  "opBlockhash C = unop (\<lambda>num. let (num64, overflow) = Uint64WithOverflow num in
     if overflow then 0
     else let upper = word_of_int (BlockNumber C) :: u64; lower = (if upper < 257 then 0 else upper - 256) in
       if num64 \<ge> lower \<and> num64 < upper then SetBytes (GetHash C num64) else 0)"

definition opCoinbase :: "vmctx \<Rightarrow> vmop" where "opCoinbase C = push_val (\<lambda>s. SetBytes (addr_ByteValue (Coinbase C)))"
definition opTimestamp :: "vmctx \<Rightarrow> vmop" where "opTimestamp C = push_val (\<lambda>s. FromBig (vc_Time C))"
definition opNumber :: "vmctx \<Rightarrow> vmop" where "opNumber C = push_val (\<lambda>s. FromBig (BlockNumber C))"
definition opDifficulty :: "vmctx \<Rightarrow> vmop" where "opDifficulty C = push_val (\<lambda>s. FromBig (vc_Difficulty C))"

text \<open>The random value is a pointer, which is followed without a check.\<close>

definition opRandom :: "vmctx \<Rightarrow> vmop" where
  "opRandom C = (case Random C of None \<Rightarrow> slift Panic | Some h \<Rightarrow> push_val (\<lambda>s. SetBytes h))"

definition opGasLimit :: "vmctx \<Rightarrow> vmop" where "opGasLimit C = push_val (\<lambda>s. ucast (GasLimit C))"
definition opSelfBalance :: vmop where "opSelfBalance = push_val (\<lambda>s. FromBig (StateDB_GetBalance (c_self (contract s)) (db s)))"
definition opChainID :: "vmctx \<Rightarrow> vmop" where "opChainID C = push_val (\<lambda>s. FromBig (vc_ChainID C))"
definition opBaseFee :: "vmctx \<Rightarrow> vmop" where "opBaseFee C = push_val (\<lambda>s. FromBig (BaseFee C))"
definition opPush0 :: vmop where "opPush0 = push_val (\<lambda>s. 0)"

section \<open>Stack, memory, storage and jumps\<close>

definition opPop :: vmop where "opPop = sbind pop (\<lambda>_. nothing)"

definition opMload :: vmop where
  "opMload = sbind peek (\<lambda>v. sbind (sread (\<lambda>s. GetPtr (Uint64 v) 32 (mem s))) (\<lambda>data.
     sbind (set_top (SetBytes data)) (\<lambda>_. nothing)))"

definition opMstore :: vmop where
  "opMstore = sbind pop (\<lambda>mStart. sbind pop (\<lambda>val.
     sbind (sread (\<lambda>s. Set32 (Uint64 mStart) val (mem s))) (\<lambda>m. sbind (supd (\<lambda>s. s\<lparr>mem := m\<rparr>)) (\<lambda>_. nothing))))"

definition opMstore8 :: vmop where
  "opMstore8 = sbind pop (\<lambda>off. sbind pop (\<lambda>val.
     sbind (sread (\<lambda>s. set_byte (Uint64 off) (ucast (Uint64 val)) (mem s))) (\<lambda>m. sbind (supd (\<lambda>s. s\<lparr>mem := m\<rparr>)) (\<lambda>_. nothing))))"

definition opSload :: vmop where
  "opSload = sbind peek (\<lambda>loc. sbind (sget (\<lambda>s. SetBytes (GetState (c_self (contract s)) (Bytes32 loc) (db s)))) (\<lambda>v.
     sbind (set_top v) (\<lambda>_. nothing)))"

text \<open>Instructions that a read-only call refuses.\<close>

definition guarded :: "vmop \<Rightarrow> vmop" where
  "guarded m = sbind (sget (\<lambda>s. in_readOnly (ev s))) (\<lambda>ro. if ro then fail ErrWriteProtection else m)"

definition opSstore :: vmop where
  "opSstore = guarded (sbind pop (\<lambda>loc. sbind pop (\<lambda>val.
     sbind (sget (\<lambda>s. c_self (contract s))) (\<lambda>self.
     sbind (on_StateDB (SetState self (Bytes32 loc) (Bytes32 val))) (\<lambda>_. nothing)))))"

definition jump_to :: "u256 \<Rightarrow> vmop" where
  "jump_to pos = sbind (validJumpdest pos) (\<lambda>ok.
     if \<not> ok then fail ErrInvalidJump else sbind (supd (\<lambda>s. s\<lparr>pc := Uint64 pos - 1\<rparr>)) (\<lambda>_. nothing))"

definition opJump :: "vmctx \<Rightarrow> vmop" where
  "opJump C = (if vc_abort C then fail errStopToken else sbind pop jump_to)"

definition opJumpi :: "vmctx \<Rightarrow> vmop" where
  "opJumpi C = (if vc_abort C then fail errStopToken
     else sbind pop (\<lambda>pos. sbind pop (\<lambda>cond. if cond \<noteq> 0 then jump_to pos else nothing)))"

definition opJumpdest :: vmop where "opJumpdest = nothing"
definition opPc :: vmop where "opPc = push_val (\<lambda>s. ucast (pc s))"
definition opMsize :: vmop where "opMsize = push_val (\<lambda>s. ucast (len64 (store (mem s)) :: u64))"
definition opGas :: vmop where "opGas = push_val (\<lambda>s. ucast (Gas (contract s)))"

definition ret_mem :: "(bytes \<Rightarrow> vmop) \<Rightarrow> vmop" where
  "ret_mem f = sbind pop (\<lambda>offset. sbind pop (\<lambda>sz. sbind (sread (\<lambda>s. GetPtr (Uint64 offset) (Uint64 sz) (mem s))) f))"

definition set_returnData :: "bytes \<Rightarrow> (vm, unit) op" where
  "set_returnData ret = supd (\<lambda>s. s\<lparr>ev := (ev s)\<lparr>in_returnData := ret\<rparr>\<rparr>)"

definition opReturn :: vmop where "opReturn = ret_mem (\<lambda>ret. sret (ret, Some errStopToken))"
definition opRevert :: vmop where
  "opRevert = ret_mem (\<lambda>ret. sbind (set_returnData ret) (\<lambda>_. sret (ret, Some ErrExecutionReverted)))"

definition opUndefined :: vmop where
  "opUndefined = sbind (sread (\<lambda>s. if unat (pc s) < length (c_Code (contract s)) then Ok (c_Code (contract s) ! unat (pc s)) else Panic))
     (\<lambda>op. fail (ErrInvalidOpCode op))"

definition opStop :: vmop where "opStop = fail errStopToken"

text \<open>Balances are not kept and nothing is destroyed.\<close>

definition opSelfdestruct :: "vmctx \<Rightarrow> vmop" where
  "opSelfdestruct C = guarded (sbind pop (\<lambda>beneficiary. sbind (on_ev (CaptureExit C [])) (\<lambda>_. fail errStopToken)))"

fun pop_topics :: "nat \<Rightarrow> (vm, hash list) op" where
  "pop_topics 0 = sret []"
| "pop_topics (Suc n) = sbind pop (\<lambda>a. sbind (pop_topics n) (\<lambda>ts. sret (Bytes32 a # ts)))"

text \<open>The entry that is logged, which the state drops.\<close>

definition AddLog :: "Address \<Rightarrow> hash list \<Rightarrow> bytes \<Rightarrow> u64 \<Rightarrow> StateAccount \<Rightarrow> StateAccount" where
  "AddLog a topics data n sa = sa"

definition makeLog :: "nat \<Rightarrow> vmctx \<Rightarrow> vmop" where
  "makeLog n C = guarded (sbind pop (\<lambda>mStart. sbind pop (\<lambda>mSize. sbind (pop_topics n) (\<lambda>topics.
     sbind (sread (\<lambda>s. GetCopy (Uint64 mStart) (Uint64 mSize) (mem s))) (\<lambda>d.
     sbind (sget (\<lambda>s. c_self (contract s))) (\<lambda>self.
     sbind (on_StateDB (AddLog self topics d (word_of_int (BlockNumber C)))) (\<lambda>_. nothing)))))))"

definition opPush1 :: vmop where
  "opPush1 = sbind (supd (\<lambda>s. s\<lparr>pc := pc s + 1\<rparr>)) (\<lambda>_.
     push_val (\<lambda>s. if unat (pc s) < length (c_Code (contract s)) then ucast (c_Code (contract s) ! unat (pc s)) else 0))"

definition makePush :: "u64 \<Rightarrow> nat \<Rightarrow> vmop" where
  "makePush sz pushByteSize =
     sbind (sread (\<lambda>s.
       let code = c_Code (contract s); codeLen = int (length code);
           startMin = (if sint (pc s + 1) < codeLen then sint (pc s + 1) else codeLen);
           endMin = (if startMin + int pushByteSize < codeLen then startMin + int pushByteSize else codeLen)
       in if startMin < 0 then Panic else slice code (nat startMin) (nat endMin))) (\<lambda>b.
     sbind (push (SetBytes (RightPadBytes b (int pushByteSize)))) (\<lambda>_.
     sbind (supd (\<lambda>s. s\<lparr>pc := pc s + sz\<rparr>)) (\<lambda>_. nothing)))"

definition makeDup :: "nat \<Rightarrow> vmop" where "makeDup n = sbind (dup n) (\<lambda>_. nothing)"
definition makeSwap :: "nat \<Rightarrow> vmop" where "makeSwap n = sbind (swap (n + 1)) (\<lambda>_. nothing)"

section \<open>Calls and creation\<close>

definition in_ev :: "(evm, 'a) pop \<Rightarrow> (vm, 'a) pop" where
  "in_ev m s = (case m (ev s) of None \<Rightarrow> None | Some (r, e) \<Rightarrow> Some (r, s\<lparr>ev := e\<rparr>))"

text \<open>\<^verbatim>\<open>scope.Contract\<close> as the caller.\<close>

definition with_self :: "(ContractRef \<Rightarrow> (evm, 'a) pop) \<Rightarrow> (vm, 'a) pop" where
  "with_self f s = in_ev (f (ContractRef (contract s))) s"

text \<open>After a creation: the address or zero on the stack, the gas that came back, and the output of a revert.\<close>

definition end_creation :: "bool \<Rightarrow> bytes \<times> Address \<times> u64 \<times> vmerr option \<Rightarrow> vmop" where
  "end_creation failed = (\<lambda>(res, addr, returnGas, suberr).
     sbind (push (if failed then 0 else SetBytes (addr_ByteValue addr))) (\<lambda>_.
     sbind (add_gas returnGas) (\<lambda>_.
     if suberr = Some ErrExecutionReverted then sbind (set_returnData res) (\<lambda>_. sret (res, None))
     else sbind (set_returnData []) (\<lambda>_. nothing))))"

definition pguarded :: "(vm, vmret) pop \<Rightarrow> (vm, vmret) pop" where
  "pguarded m = pbind (pdo (sget (\<lambda>s. in_readOnly (ev s)))) (\<lambda>ro. if ro then pdo (fail ErrWriteProtection) else m)"

definition opCreate :: "vmctx \<Rightarrow> runner \<Rightarrow> (vm, vmret) pop" where
  "opCreate C run = pguarded (
     pbind (pdo pop) (\<lambda>v. pbind (pdo pop) (\<lambda>offset. pbind (pdo pop) (\<lambda>sz.
     pbind (pdo (sread (\<lambda>s. GetCopy (Uint64 offset) (Uint64 sz) (mem s)))) (\<lambda>input.
     pbind (pdo (sget (\<lambda>s. Gas (contract s)))) (\<lambda>gas.
     let gas = (if IsEIP150 (chainRules C) then gas - gas div 64 else gas) in
     pbind (pdo (use_gas gas)) (\<lambda>_.
     pbind (with_self (\<lambda>self. Create C run self input gas (uint v) 23)) (\<lambda>(res, addr, returnGas, suberr).
     pdo (end_creation (IsHomestead (chainRules C) \<and> suberr = Some ErrCodeStoreOutOfGas \<or>
       suberr \<noteq> None \<and> suberr \<noteq> Some ErrCodeStoreOutOfGas) (res, addr, returnGas, suberr))))))))))"

definition opCreate2 :: "vmctx \<Rightarrow> runner \<Rightarrow> (vm, vmret) pop" where
  "opCreate2 C run = pguarded (
     pbind (pdo pop) (\<lambda>endowment. pbind (pdo pop) (\<lambda>offset. pbind (pdo pop) (\<lambda>sz. pbind (pdo pop) (\<lambda>salt.
     pbind (pdo (sread (\<lambda>s. GetCopy (Uint64 offset) (Uint64 sz) (mem s)))) (\<lambda>input.
     pbind (pdo (sget (\<lambda>s. Gas (contract s)))) (\<lambda>gas.
     let gas = gas - gas div 64 in
     pbind (pdo (use_gas gas)) (\<lambda>_.
     pbind (with_self (\<lambda>self. Create2 C run self input gas salt)) (\<lambda>(res, addr, returnGas, suberr).
     pdo (end_creation (suberr \<noteq> None) (res, addr, returnGas, suberr)))))))))))"

text \<open>After a call: the success on the stack, the output in the memory and the gas that came back.\<close>

definition end_op_call :: "u256 \<Rightarrow> u256 \<Rightarrow> bytes \<times> u64 \<times> vmerr option \<Rightarrow> vmop" where
  "end_op_call retOffset retSize = (\<lambda>(ret, returnGas, err).
     sbind (push (truth (err = None))) (\<lambda>_.
     sbind (if err = None \<or> err = Some ErrExecutionReverted
            then sbind (sread (\<lambda>s. Memory_Set (Uint64 retOffset) (Uint64 retSize) ret (mem s))) (\<lambda>m. supd (\<lambda>s. s\<lparr>mem := m\<rparr>))
            else sret ()) (\<lambda>_.
     sbind (add_gas returnGas) (\<lambda>_.
     sbind (set_returnData ret) (\<lambda>_. sret (ret, None))))))"

definition call_args :: "u256 \<Rightarrow> u256 \<Rightarrow> (vm, bytes) op" where
  "call_args inOffset inSize = sread (\<lambda>s. GetPtr (Uint64 inOffset) (Uint64 inSize) (mem s))"

definition opCall :: "vmctx \<Rightarrow> runner \<Rightarrow> (vm, vmret) pop" where
  "opCall C run =
     pbind (pdo pop) (\<lambda>_. pbind (pdo (sget (\<lambda>s. callGasTemp (ev s)))) (\<lambda>gas.
     pbind (pdo pop) (\<lambda>addr. pbind (pdo pop) (\<lambda>v. pbind (pdo pop) (\<lambda>inOffset. pbind (pdo pop) (\<lambda>inSize.
     pbind (pdo pop) (\<lambda>retOffset. pbind (pdo pop) (\<lambda>retSize.
     pbind (pdo (call_args inOffset inSize)) (\<lambda>args.
     pbind (pdo (sget (\<lambda>s. in_readOnly (ev s)))) (\<lambda>ro.
     if ro \<and> v \<noteq> 0 then pdo (fail ErrWriteProtection)
     else
     pbind (with_self (\<lambda>self. Call C run self (word_address addr) args (if v \<noteq> 0 then gas + 2300 else gas) (uint v))) (\<lambda>r.
     pdo (end_op_call retOffset retSize r))))))))))))"

definition opCallCode :: "vmctx \<Rightarrow> runner \<Rightarrow> (vm, vmret) pop" where
  "opCallCode C run =
     pbind (pdo pop) (\<lambda>_. pbind (pdo (sget (\<lambda>s. callGasTemp (ev s)))) (\<lambda>gas.
     pbind (pdo pop) (\<lambda>addr. pbind (pdo pop) (\<lambda>v. pbind (pdo pop) (\<lambda>inOffset. pbind (pdo pop) (\<lambda>inSize.
     pbind (pdo pop) (\<lambda>retOffset. pbind (pdo pop) (\<lambda>retSize.
     pbind (pdo (call_args inOffset inSize)) (\<lambda>args.
     pbind (with_self (\<lambda>self. CallCode C run self (word_address addr) args (if v \<noteq> 0 then gas + 2300 else gas) (uint v))) (\<lambda>r.
     pdo (end_op_call retOffset retSize r)))))))))))"

definition opDelegateCall :: "vmctx \<Rightarrow> runner \<Rightarrow> (vm, vmret) pop" where
  "opDelegateCall C run =
     pbind (pdo pop) (\<lambda>_. pbind (pdo (sget (\<lambda>s. callGasTemp (ev s)))) (\<lambda>gas.
     pbind (pdo pop) (\<lambda>addr. pbind (pdo pop) (\<lambda>inOffset. pbind (pdo pop) (\<lambda>inSize.
     pbind (pdo pop) (\<lambda>retOffset. pbind (pdo pop) (\<lambda>retSize.
     pbind (pdo (call_args inOffset inSize)) (\<lambda>args.
     pbind (with_self (\<lambda>self. DelegateCall C run self (word_address addr) args gas)) (\<lambda>r.
     pdo (end_op_call retOffset retSize r))))))))))"

definition opStaticCall :: "vmctx \<Rightarrow> runner \<Rightarrow> (vm, vmret) pop" where
  "opStaticCall C run =
     pbind (pdo pop) (\<lambda>_. pbind (pdo (sget (\<lambda>s. callGasTemp (ev s)))) (\<lambda>gas.
     pbind (pdo pop) (\<lambda>addr. pbind (pdo pop) (\<lambda>inOffset. pbind (pdo pop) (\<lambda>inSize.
     pbind (pdo pop) (\<lambda>retOffset. pbind (pdo pop) (\<lambda>retSize.
     pbind (pdo (call_args inOffset inSize)) (\<lambda>args.
     pbind (with_self (\<lambda>self. StaticCall C run self (word_address addr) args gas)) (\<lambda>r.
     pdo (end_op_call retOffset retSize r))))))))))"

end
