(* ===== verification/EVM_Table.thy ===== *)
theory EVM_Table
  imports EVM_Ops
begin

text \<open>
  The instruction sets: \<^verbatim>\<open>src/core/evm/jump_table.go\<close>, \<^verbatim>\<open>stack_table.go\<close>, the changes of \<^verbatim>\<open>eips.go\<close> and the names of
  \<^verbatim>\<open>opcodes.go\<close>.  A table is a function from the operation code; prices of \<^verbatim>\<open>src/params/protocol_params.go\<close> are written out.
  The check of \<^verbatim>\<open>validate\<close>, which would stop the program at its start, is a lemma.
\<close>

section \<open>Operations\<close>

datatype executionFunc =
    Plain "vmctx \<Rightarrow> vmop"
  | Calling "vmctx \<Rightarrow> runner \<Rightarrow> (vm, vmret) pop"

primrec run_operation :: "executionFunc \<Rightarrow> vmctx \<Rightarrow> runner \<Rightarrow> (vm, vmret) pop" where
  "run_operation (Plain f) C run = pdo (f C)"
| "run_operation (Calling f) C run = f C run"

record operation =
  execute :: executionFunc
  constantGas :: u64
  dynamicGas :: "gasFunc option"
  op_minStack :: int
  op_maxStack :: int
  memorySize :: "memorySizeFunc option"

definition minStack :: "int \<Rightarrow> int \<Rightarrow> int" where "minStack pops pushs = pops"
definition maxStack :: "int \<Rightarrow> int \<Rightarrow> int" where "maxStack pops pushs = 1024 + pops - pushs"
definition minSwapStack :: "int \<Rightarrow> int" where "minSwapStack n = minStack n n"
definition maxSwapStack :: "int \<Rightarrow> int" where "maxSwapStack n = maxStack n n"
definition minDupStack :: "int \<Rightarrow> int" where "minDupStack n = minStack n (n + 1)"
definition maxDupStack :: "int \<Rightarrow> int" where "maxDupStack n = maxStack n (n + 1)"

lemmas stack_table = minStack_def maxStack_def minSwapStack_def maxSwapStack_def minDupStack_def maxDupStack_def

definition operation_of :: "executionFunc \<Rightarrow> u64 \<Rightarrow> gasFunc option \<Rightarrow> int \<Rightarrow> int \<Rightarrow> memorySizeFunc option \<Rightarrow> operation" where
  "operation_of f c d pops pushs m = \<lparr>execute = f, constantGas = c, dynamicGas = d, op_minStack = minStack pops pushs,
     op_maxStack = maxStack pops pushs, memorySize = m\<rparr>"

type_synonym JumpTable = "byte \<Rightarrow> operation"

abbreviation GasQuickStep :: u64 where "GasQuickStep \<equiv> 2"
abbreviation GasFastestStep :: u64 where "GasFastestStep \<equiv> 3"
abbreviation GasFastStep :: u64 where "GasFastStep \<equiv> 5"
abbreviation GasMidStep :: u64 where "GasMidStep \<equiv> 8"
abbreviation GasSlowStep :: u64 where "GasSlowStep \<equiv> 10"
abbreviation GasExtStep :: u64 where "GasExtStep \<equiv> 20"

definition gasReturn :: gasFunc where "gasReturn = pureMemoryGascost"
definition gasRevert :: gasFunc where "gasRevert = pureMemoryGascost"
definition gasMLoad :: gasFunc where "gasMLoad = pureMemoryGascost"
definition gasMStore8 :: gasFunc where "gasMStore8 = pureMemoryGascost"
definition gasMStore :: gasFunc where "gasMStore = pureMemoryGascost"
definition gasCreate :: gasFunc where "gasCreate = pureMemoryGascost"

lemmas pure_memory_gas = gasReturn_def gasRevert_def gasMLoad_def gasMStore8_def gasMStore_def gasCreate_def

section \<open>Operation codes\<close>

abbreviation OP_STOP :: byte where "OP_STOP \<equiv> 0x0"
abbreviation OP_ADD :: byte where "OP_ADD \<equiv> 0x1"
abbreviation OP_MUL :: byte where "OP_MUL \<equiv> 0x2"
abbreviation OP_SUB :: byte where "OP_SUB \<equiv> 0x3"
abbreviation OP_DIV :: byte where "OP_DIV \<equiv> 0x4"
abbreviation OP_SDIV :: byte where "OP_SDIV \<equiv> 0x5"
abbreviation OP_MOD :: byte where "OP_MOD \<equiv> 0x6"
abbreviation OP_SMOD :: byte where "OP_SMOD \<equiv> 0x7"
abbreviation OP_ADDMOD :: byte where "OP_ADDMOD \<equiv> 0x8"
abbreviation OP_MULMOD :: byte where "OP_MULMOD \<equiv> 0x9"
abbreviation OP_EXP :: byte where "OP_EXP \<equiv> 0xa"
abbreviation OP_SIGNEXTEND :: byte where "OP_SIGNEXTEND \<equiv> 0xb"
abbreviation OP_LT :: byte where "OP_LT \<equiv> 0x10"
abbreviation OP_GT :: byte where "OP_GT \<equiv> 0x11"
abbreviation OP_SLT :: byte where "OP_SLT \<equiv> 0x12"
abbreviation OP_SGT :: byte where "OP_SGT \<equiv> 0x13"
abbreviation OP_EQ :: byte where "OP_EQ \<equiv> 0x14"
abbreviation OP_ISZERO :: byte where "OP_ISZERO \<equiv> 0x15"
abbreviation OP_AND :: byte where "OP_AND \<equiv> 0x16"
abbreviation OP_XOR :: byte where "OP_XOR \<equiv> 0x18"
abbreviation OP_OR :: byte where "OP_OR \<equiv> 0x17"
abbreviation OP_NOT :: byte where "OP_NOT \<equiv> 0x19"
abbreviation OP_BYTE :: byte where "OP_BYTE \<equiv> 0x1a"
abbreviation OP_KECCAK256 :: byte where "OP_KECCAK256 \<equiv> 0x20"
abbreviation OP_ADDRESS :: byte where "OP_ADDRESS \<equiv> 0x30"
abbreviation OP_BALANCE :: byte where "OP_BALANCE \<equiv> 0x31"
abbreviation OP_ORIGIN :: byte where "OP_ORIGIN \<equiv> 0x32"
abbreviation OP_CALLER :: byte where "OP_CALLER \<equiv> 0x33"
abbreviation OP_CALLVALUE :: byte where "OP_CALLVALUE \<equiv> 0x34"
abbreviation OP_CALLDATALOAD :: byte where "OP_CALLDATALOAD \<equiv> 0x35"
abbreviation OP_CALLDATASIZE :: byte where "OP_CALLDATASIZE \<equiv> 0x36"
abbreviation OP_CALLDATACOPY :: byte where "OP_CALLDATACOPY \<equiv> 0x37"
abbreviation OP_CODESIZE :: byte where "OP_CODESIZE \<equiv> 0x38"
abbreviation OP_CODECOPY :: byte where "OP_CODECOPY \<equiv> 0x39"
abbreviation OP_GASPRICE :: byte where "OP_GASPRICE \<equiv> 0x3a"
abbreviation OP_EXTCODESIZE :: byte where "OP_EXTCODESIZE \<equiv> 0x3b"
abbreviation OP_EXTCODECOPY :: byte where "OP_EXTCODECOPY \<equiv> 0x3c"
abbreviation OP_BLOCKHASH :: byte where "OP_BLOCKHASH \<equiv> 0x40"
abbreviation OP_COINBASE :: byte where "OP_COINBASE \<equiv> 0x41"
abbreviation OP_TIMESTAMP :: byte where "OP_TIMESTAMP \<equiv> 0x42"
abbreviation OP_NUMBER :: byte where "OP_NUMBER \<equiv> 0x43"
abbreviation OP_DIFFICULTY :: byte where "OP_DIFFICULTY \<equiv> 0x44"
abbreviation OP_GASLIMIT :: byte where "OP_GASLIMIT \<equiv> 0x45"
abbreviation OP_POP :: byte where "OP_POP \<equiv> 0x50"
abbreviation OP_MLOAD :: byte where "OP_MLOAD \<equiv> 0x51"
abbreviation OP_MSTORE :: byte where "OP_MSTORE \<equiv> 0x52"
abbreviation OP_MSTORE8 :: byte where "OP_MSTORE8 \<equiv> 0x53"
abbreviation OP_SLOAD :: byte where "OP_SLOAD \<equiv> 0x54"
abbreviation OP_SSTORE :: byte where "OP_SSTORE \<equiv> 0x55"
abbreviation OP_JUMP :: byte where "OP_JUMP \<equiv> 0x56"
abbreviation OP_JUMPI :: byte where "OP_JUMPI \<equiv> 0x57"
abbreviation OP_PC :: byte where "OP_PC \<equiv> 0x58"
abbreviation OP_MSIZE :: byte where "OP_MSIZE \<equiv> 0x59"
abbreviation OP_GAS :: byte where "OP_GAS \<equiv> 0x5a"
abbreviation OP_PUSH1 :: byte where "OP_PUSH1 \<equiv> 0x60"
abbreviation OP_CREATE :: byte where "OP_CREATE \<equiv> 0xf0"
abbreviation OP_CALL :: byte where "OP_CALL \<equiv> 0xf1"
abbreviation OP_CALLCODE :: byte where "OP_CALLCODE \<equiv> 0xf2"
abbreviation OP_RETURN :: byte where "OP_RETURN \<equiv> 0xf3"
abbreviation OP_SELFDESTRUCT :: byte where "OP_SELFDESTRUCT \<equiv> 0xff"
abbreviation OP_DELEGATECALL :: byte where "OP_DELEGATECALL \<equiv> 0xf4"
abbreviation OP_STATICCALL :: byte where "OP_STATICCALL \<equiv> 0xfa"
abbreviation OP_RETURNDATASIZE :: byte where "OP_RETURNDATASIZE \<equiv> 0x3d"
abbreviation OP_RETURNDATACOPY :: byte where "OP_RETURNDATACOPY \<equiv> 0x3e"
abbreviation OP_REVERT :: byte where "OP_REVERT \<equiv> 0xfd"
abbreviation OP_SHL :: byte where "OP_SHL \<equiv> 0x1b"
abbreviation OP_SHR :: byte where "OP_SHR \<equiv> 0x1c"
abbreviation OP_SAR :: byte where "OP_SAR \<equiv> 0x1d"
abbreviation OP_EXTCODEHASH :: byte where "OP_EXTCODEHASH \<equiv> 0x3f"
abbreviation OP_CREATE2 :: byte where "OP_CREATE2 \<equiv> 0xf5"
abbreviation OP_CHAINID :: byte where "OP_CHAINID \<equiv> 0x46"
abbreviation OP_SELFBALANCE :: byte where "OP_SELFBALANCE \<equiv> 0x47"
abbreviation OP_BASEFEE :: byte where "OP_BASEFEE \<equiv> 0x48"
abbreviation OP_PUSH0 :: byte where "OP_PUSH0 \<equiv> 0x5f"
abbreviation OP_RANDOM :: byte where "OP_RANDOM \<equiv> 0x44"

section \<open>The first set\<close>

text \<open>The families of pushes, copies, exchanges and logs are written as one entry for each member.\<close>

definition push_entries :: "(byte \<times> operation) list" where
  "push_entries = map (\<lambda>n. (0x5f + word_of_nat n, operation_of (Plain (\<lambda>_. makePush (word_of_nat n) n)) GasFastestStep None 0 1 None)) [2..<33]"

definition dup_entries :: "(byte \<times> operation) list" where
  "dup_entries = map (\<lambda>n. (0x7f + word_of_nat n, \<lparr>execute = Plain (\<lambda>_. makeDup n), constantGas = GasFastestStep, dynamicGas = None,
     op_minStack = minDupStack (int n), op_maxStack = maxDupStack (int n), memorySize = None\<rparr>)) [1..<17]"

definition swap_entries :: "(byte \<times> operation) list" where
  "swap_entries = map (\<lambda>n. (0x8f + word_of_nat n, \<lparr>execute = Plain (\<lambda>_. makeSwap n), constantGas = GasFastestStep, dynamicGas = None,
     op_minStack = minSwapStack (int n + 1), op_maxStack = maxSwapStack (int n + 1), memorySize = None\<rparr>)) [1..<17]"

definition log_entries :: "(byte \<times> operation) list" where
  "log_entries = map (\<lambda>n. (0xa0 + word_of_nat n,
     operation_of (Plain (makeLog n)) 0 (Some (makeGasLog (word_of_nat n))) (int n + 2) 0 (Some memoryLog))) [0..<5]"

definition single_entries :: "(byte \<times> operation) list" where
  "single_entries = [
     (OP_STOP, operation_of (Plain (\<lambda>_. opStop)) 0 (None) 0 0 (None)),
     (OP_ADD, operation_of (Plain (\<lambda>_. opAdd)) GasFastestStep (None) 2 1 (None)),
     (OP_MUL, operation_of (Plain (\<lambda>_. opMul)) GasFastStep (None) 2 1 (None)),
     (OP_SUB, operation_of (Plain (\<lambda>_. opSub)) GasFastestStep (None) 2 1 (None)),
     (OP_DIV, operation_of (Plain opDiv) GasFastStep (None) 2 1 (None)),
     (OP_SDIV, operation_of (Plain opSdiv) GasFastStep (None) 2 1 (None)),
     (OP_MOD, operation_of (Plain opMod) GasFastStep (None) 2 1 (None)),
     (OP_SMOD, operation_of (Plain opSmod) GasFastStep (None) 2 1 (None)),
     (OP_ADDMOD, operation_of (Plain opAddmod) GasMidStep (None) 3 1 (None)),
     (OP_MULMOD, operation_of (Plain opMulmod) GasMidStep (None) 3 1 (None)),
     (OP_EXP, operation_of (Plain opExp) 0 (Some gasExpFrontier) 2 1 (None)),
     (OP_SIGNEXTEND, operation_of (Plain opSignExtend) GasFastStep (None) 2 1 (None)),
     (OP_LT, operation_of (Plain (\<lambda>_. opLt)) GasFastestStep (None) 2 1 (None)),
     (OP_GT, operation_of (Plain (\<lambda>_. opGt)) GasFastestStep (None) 2 1 (None)),
     (OP_SLT, operation_of (Plain (\<lambda>_. opSlt)) GasFastestStep (None) 2 1 (None)),
     (OP_SGT, operation_of (Plain (\<lambda>_. opSgt)) GasFastestStep (None) 2 1 (None)),
     (OP_EQ, operation_of (Plain (\<lambda>_. opEq)) GasFastestStep (None) 2 1 (None)),
     (OP_ISZERO, operation_of (Plain (\<lambda>_. opIszero)) GasFastestStep (None) 1 1 (None)),
     (OP_AND, operation_of (Plain (\<lambda>_. opAnd)) GasFastestStep (None) 2 1 (None)),
     (OP_XOR, operation_of (Plain (\<lambda>_. opXor)) GasFastestStep (None) 2 1 (None)),
     (OP_OR, operation_of (Plain (\<lambda>_. opOr)) GasFastestStep (None) 2 1 (None)),
     (OP_NOT, operation_of (Plain (\<lambda>_. opNot)) GasFastestStep (None) 1 1 (None)),
     (OP_BYTE, operation_of (Plain opByte) GasFastestStep (None) 2 1 (None)),
     (OP_KECCAK256, operation_of (Plain opKeccak256) 30 (Some gasKeccak256) 2 1 (Some memoryKeccak256)),
     (OP_ADDRESS, operation_of (Plain (\<lambda>_. opAddress)) GasQuickStep (None) 0 1 (None)),
     (OP_BALANCE, operation_of (Plain (\<lambda>_. opBalance)) 20 (None) 1 1 (None)),
     (OP_ORIGIN, operation_of (Plain opOrigin) GasQuickStep (None) 0 1 (None)),
     (OP_CALLER, operation_of (Plain (\<lambda>_. opCaller)) GasQuickStep (None) 0 1 (None)),
     (OP_CALLVALUE, operation_of (Plain (\<lambda>_. opCallValue)) GasQuickStep (None) 0 1 (None)),
     (OP_CALLDATALOAD, operation_of (Plain (\<lambda>_. opCallDataLoad)) GasFastestStep (None) 1 1 (None)),
     (OP_CALLDATASIZE, operation_of (Plain (\<lambda>_. opCallDataSize)) GasQuickStep (None) 0 1 (None)),
     (OP_CALLDATACOPY, operation_of (Plain (\<lambda>_. opCallDataCopy)) GasFastestStep (Some gasCallDataCopy) 3 0 (Some memoryCallDataCopy)),
     (OP_CODESIZE, operation_of (Plain (\<lambda>_. opCodeSize)) GasQuickStep (None) 0 1 (None)),
     (OP_CODECOPY, operation_of (Plain (\<lambda>_. opCodeCopy)) GasFastestStep (Some gasCodeCopy) 3 0 (Some memoryCodeCopy)),
     (OP_GASPRICE, operation_of (Plain opGasprice) GasQuickStep (None) 0 1 (None)),
     (OP_EXTCODESIZE, operation_of (Plain (\<lambda>_. opExtCodeSize)) 20 (None) 1 1 (None)),
     (OP_EXTCODECOPY, operation_of (Plain (\<lambda>_. opExtCodeCopy)) 20 (Some gasExtCodeCopy) 4 0 (Some memoryExtCodeCopy)),
     (OP_BLOCKHASH, operation_of (Plain opBlockhash) GasExtStep (None) 1 1 (None)),
     (OP_COINBASE, operation_of (Plain opCoinbase) GasQuickStep (None) 0 1 (None)),
     (OP_TIMESTAMP, operation_of (Plain opTimestamp) GasQuickStep (None) 0 1 (None)),
     (OP_NUMBER, operation_of (Plain opNumber) GasQuickStep (None) 0 1 (None)),
     (OP_DIFFICULTY, operation_of (Plain opDifficulty) GasQuickStep (None) 0 1 (None)),
     (OP_GASLIMIT, operation_of (Plain opGasLimit) GasQuickStep (None) 0 1 (None)),
     (OP_POP, operation_of (Plain (\<lambda>_. opPop)) GasQuickStep (None) 1 0 (None)),
     (OP_MLOAD, operation_of (Plain (\<lambda>_. opMload)) GasFastestStep (Some gasMLoad) 1 1 (Some memoryMLoad)),
     (OP_MSTORE, operation_of (Plain (\<lambda>_. opMstore)) GasFastestStep (Some gasMStore) 2 0 (Some memoryMStore)),
     (OP_MSTORE8, operation_of (Plain (\<lambda>_. opMstore8)) GasFastestStep (Some gasMStore8) 2 0 (Some memoryMStore8)),
     (OP_SLOAD, operation_of (Plain (\<lambda>_. opSload)) 50 (None) 1 1 (None)),
     (OP_SSTORE, operation_of (Plain (\<lambda>_. opSstore)) 0 (Some gasSStore) 2 0 (None)),
     (OP_JUMP, operation_of (Plain opJump) GasMidStep (None) 1 0 (None)),
     (OP_JUMPI, operation_of (Plain opJumpi) GasSlowStep (None) 2 0 (None)),
     (OP_PC, operation_of (Plain (\<lambda>_. opPc)) GasQuickStep (None) 0 1 (None)),
     (OP_MSIZE, operation_of (Plain (\<lambda>_. opMsize)) GasQuickStep (None) 0 1 (None)),
     (OP_GAS, operation_of (Plain (\<lambda>_. opGas)) GasQuickStep (None) 0 1 (None)),
     (JUMPDEST, operation_of (Plain (\<lambda>_. opJumpdest)) 1 (None) 0 0 (None)),
     (OP_PUSH1, operation_of (Plain (\<lambda>_. opPush1)) GasFastestStep (None) 0 1 (None)),
     (OP_CREATE, operation_of (Calling opCreate) 32000 (Some gasCreate) 3 1 (Some memoryCreate)),
     (OP_CALL, operation_of (Calling opCall) 40 (Some gasCall) 7 1 (Some memoryCall)),
     (OP_CALLCODE, operation_of (Calling opCallCode) 40 (Some gasCallCode) 7 1 (Some memoryCall)),
     (OP_RETURN, operation_of (Plain (\<lambda>_. opReturn)) 0 (Some gasReturn) 2 0 (Some memoryReturn)),
     (OP_SELFDESTRUCT, operation_of (Plain opSelfdestruct) 0 (Some gasSelfdestruct) 1 0 (None))]"

definition undefined_operation :: operation where
  "undefined_operation = \<lparr>execute = Plain (\<lambda>_. opUndefined), constantGas = 0, dynamicGas = None, op_minStack = 0,
     op_maxStack = maxStack 0 0, memorySize = None\<rparr>"

definition newFrontierInstructionSet :: JumpTable where
  "newFrontierInstructionSet op =
     (case map_of (single_entries @ push_entries @ dup_entries @ swap_entries @ log_entries) op of
        Some e \<Rightarrow> e | None \<Rightarrow> undefined_operation)"

section \<open>Later sets\<close>

abbreviation jt_upd :: "byte \<Rightarrow> (operation \<Rightarrow> operation) \<Rightarrow> JumpTable \<Rightarrow> JumpTable" where
  "jt_upd op f jt \<equiv> jt(op := f (jt op))"

definition set_cost :: "byte \<Rightarrow> u64 \<Rightarrow> JumpTable \<Rightarrow> JumpTable" where
  "set_cost op c jt = jt_upd op (\<lambda>e. e\<lparr>constantGas := c\<rparr>) jt"

definition set_gas :: "byte \<Rightarrow> gasFunc \<Rightarrow> JumpTable \<Rightarrow> JumpTable" where
  "set_gas op g jt = jt_upd op (\<lambda>e. e\<lparr>dynamicGas := Some g\<rparr>) jt"

definition newHomesteadInstructionSet :: JumpTable where
  "newHomesteadInstructionSet = newFrontierInstructionSet(
     OP_DELEGATECALL := operation_of (Calling opDelegateCall) 40 (Some gasDelegateCall) 6 1 (Some memoryDelegateCall))"

definition newTangerineWhistleInstructionSet :: JumpTable where
  "newTangerineWhistleInstructionSet =
     set_cost OP_DELEGATECALL 700 (set_cost OP_CALLCODE 700 (set_cost OP_CALL 700 (set_cost OP_EXTCODECOPY 700
     (set_cost OP_SLOAD 200 (set_cost OP_EXTCODESIZE 700 (set_cost OP_BALANCE 400 newHomesteadInstructionSet))))))"

definition newSpuriousDragonInstructionSet :: JumpTable where
  "newSpuriousDragonInstructionSet = set_gas OP_EXP gasExpEIP158 newTangerineWhistleInstructionSet"

definition newByzantiumInstructionSet :: JumpTable where
  "newByzantiumInstructionSet = newSpuriousDragonInstructionSet(
     OP_STATICCALL := operation_of (Calling opStaticCall) 700 (Some gasStaticCall) 6 1 (Some memoryStaticCall),
     OP_RETURNDATASIZE := operation_of (Plain (\<lambda>_. opReturnDataSize)) GasQuickStep None 0 1 None,
     OP_RETURNDATACOPY := operation_of (Plain (\<lambda>_. opReturnDataCopy)) GasFastestStep (Some gasReturnDataCopy) 3 0 (Some memoryReturnDataCopy),
     OP_REVERT := operation_of (Plain (\<lambda>_. opRevert)) 0 (Some gasRevert) 2 0 (Some memoryRevert))"

definition newConstantinopleInstructionSet :: JumpTable where
  "newConstantinopleInstructionSet = newByzantiumInstructionSet(
     OP_SHL := operation_of (Plain (\<lambda>_. opSHL)) GasFastestStep None 2 1 None,
     OP_SHR := operation_of (Plain (\<lambda>_. opSHR)) GasFastestStep None 2 1 None,
     OP_SAR := operation_of (Plain opSAR) GasFastestStep None 2 1 None,
     OP_EXTCODEHASH := operation_of (Plain (\<lambda>_. opExtCodeHash)) 400 None 1 1 None,
     OP_CREATE2 := operation_of (Calling opCreate2) 32000 (Some gasCreate2) 4 1 (Some memoryCreate2))"

definition enable1344 :: "JumpTable \<Rightarrow> JumpTable" where
  "enable1344 jt = jt(OP_CHAINID := operation_of (Plain opChainID) GasQuickStep None 0 1 None)"

definition enable1884 :: "JumpTable \<Rightarrow> JumpTable" where
  "enable1884 jt = (set_cost OP_EXTCODEHASH 700 (set_cost OP_BALANCE 700 (set_cost OP_SLOAD 800 jt)))
     (OP_SELFBALANCE := operation_of (Plain (\<lambda>_. opSelfBalance)) GasFastStep None 0 1 None)"

definition enable2200 :: "JumpTable \<Rightarrow> JumpTable" where
  "enable2200 jt = set_gas OP_SSTORE gasSStoreEIP2200 (set_cost OP_SLOAD 800 jt)"

definition newIstanbulInstructionSet :: JumpTable where
  "newIstanbulInstructionSet = enable2200 (enable1884 (enable1344 newConstantinopleInstructionSet))"

text \<open>The price of an entry is set together with its computation.\<close>

definition reprice :: "byte \<Rightarrow> u64 \<Rightarrow> gasFunc \<Rightarrow> JumpTable \<Rightarrow> JumpTable" where
  "reprice op c g jt = jt_upd op (\<lambda>e. e\<lparr>constantGas := c, dynamicGas := Some g\<rparr>) jt"

definition enable2929 :: "JumpTable \<Rightarrow> JumpTable" where
  "enable2929 jt =
     reprice OP_SELFDESTRUCT 5000 gasSelfdestructEIP2929 (
     reprice OP_DELEGATECALL 100 gasDelegateCallEIP2929 (
     reprice OP_STATICCALL 100 gasStaticCallEIP2929 (
     reprice OP_CALLCODE 100 gasCallCodeEIP2929 (
     reprice OP_CALL 100 gasCallEIP2929 (
     reprice OP_BALANCE 100 gasEip2929AccountCheck (
     reprice OP_EXTCODEHASH 100 gasEip2929AccountCheck (
     reprice OP_EXTCODESIZE 100 gasEip2929AccountCheck (
     reprice OP_EXTCODECOPY 100 gasExtCodeCopyEIP2929 (
     reprice OP_SLOAD 0 gasSLoadEIP2929 (
     set_gas OP_SSTORE gasSStoreEIP2929 jt))))))))))"

definition newBerlinInstructionSet :: JumpTable where
  "newBerlinInstructionSet = enable2929 newIstanbulInstructionSet"

definition enable3529 :: "JumpTable \<Rightarrow> JumpTable" where
  "enable3529 jt = set_gas OP_SELFDESTRUCT gasSelfdestructEIP3529 (set_gas OP_SSTORE gasSStoreEIP3529 jt)"

definition enable3198 :: "JumpTable \<Rightarrow> JumpTable" where
  "enable3198 jt = jt(OP_BASEFEE := operation_of (Plain opBaseFee) GasQuickStep None 0 1 None)"

definition enable3855 :: "JumpTable \<Rightarrow> JumpTable" where
  "enable3855 jt = jt(OP_PUSH0 := operation_of (Plain (\<lambda>_. opPush0)) GasQuickStep None 0 1 None)"

definition newLondonInstructionSet :: JumpTable where
  "newLondonInstructionSet = enable3198 (enable3529 newBerlinInstructionSet)"

definition newMergeInstructionSet :: JumpTable where
  "newMergeInstructionSet = newLondonInstructionSet(OP_RANDOM := operation_of (Plain opRandom) GasQuickStep None 0 1 None)"

text \<open>The set that the interpreter is given.\<close>

definition GetGenericJumpTable :: JumpTable where "GetGenericJumpTable = newMergeInstructionSet"

definition valid_operation :: "operation \<Rightarrow> bool" where
  "valid_operation op \<longleftrightarrow> memorySize op = None \<or> dynamicGas op \<noteq> None"

definition validate :: "JumpTable \<Rightarrow> JumpTable result" where
  "validate jt = (if list_all (\<lambda>i. valid_operation (jt (word_of_nat i))) [0..<256] then Ok jt else Panic)"

section \<open>Names\<close>

definition OpCode_IsPush :: "byte \<Rightarrow> bool" where
  "OpCode_IsPush op \<longleftrightarrow> op \<in> {0x60..0x7f}"

definition opCodeToString :: "(byte \<times> string) list" where
  "opCodeToString = [
    (0x0, ''STOP''), (0x1, ''ADD''), (0x2, ''MUL''), (0x3, ''SUB''), (0x4, ''DIV''), (0x5, ''SDIV''),
    (0x6, ''MOD''), (0x7, ''SMOD''), (0xa, ''EXP''), (0x19, ''NOT''), (0x10, ''LT''), (0x11, ''GT''),
    (0x12, ''SLT''), (0x13, ''SGT''), (0x14, ''EQ''), (0x15, ''ISZERO''), (0xb, ''SIGNEXTEND''), (0x16, ''AND''),
    (0x17, ''OR''), (0x18, ''XOR''), (0x1a, ''BYTE''), (0x1b, ''SHL''), (0x1c, ''SHR''), (0x1d, ''SAR''),
    (0x8, ''ADDMOD''), (0x9, ''MULMOD''), (0x20, ''KECCAK256''), (0x30, ''ADDRESS''), (0x31, ''BALANCE''),
    (0x32, ''ORIGIN''), (0x33, ''CALLER''), (0x34, ''CALLVALUE''), (0x35, ''CALLDATALOAD''),
    (0x36, ''CALLDATASIZE''), (0x37, ''CALLDATACOPY''), (0x38, ''CODESIZE''), (0x39, ''CODECOPY''),
    (0x3a, ''GASPRICE''), (0x3b, ''EXTCODESIZE''), (0x3c, ''EXTCODECOPY''), (0x3d, ''RETURNDATASIZE''),
    (0x3e, ''RETURNDATACOPY''), (0x3f, ''EXTCODEHASH''), (0x40, ''BLOCKHASH''), (0x41, ''COINBASE''),
    (0x42, ''TIMESTAMP''), (0x43, ''NUMBER''), (0x44, ''DIFFICULTY''), (0x45, ''GASLIMIT''), (0x46, ''CHAINID''),
    (0x47, ''SELFBALANCE''), (0x48, ''BASEFEE''), (0x50, ''POP''), (0x51, ''MLOAD''), (0x52, ''MSTORE''),
    (0x53, ''MSTORE8''), (0x54, ''SLOAD''), (0x55, ''SSTORE''), (0x56, ''JUMP''), (0x57, ''JUMPI''),
    (0x58, ''PC''), (0x59, ''MSIZE''), (0x5a, ''GAS''), (0x5b, ''JUMPDEST''), (0x5f, ''PUSH0''),
    (0x60, ''PUSH1''), (0x61, ''PUSH2''), (0x62, ''PUSH3''), (0x63, ''PUSH4''), (0x64, ''PUSH5''),
    (0x65, ''PUSH6''), (0x66, ''PUSH7''), (0x67, ''PUSH8''), (0x68, ''PUSH9''), (0x69, ''PUSH10''),
    (0x6a, ''PUSH11''), (0x6b, ''PUSH12''), (0x6c, ''PUSH13''), (0x6d, ''PUSH14''), (0x6e, ''PUSH15''),
    (0x6f, ''PUSH16''), (0x70, ''PUSH17''), (0x71, ''PUSH18''), (0x72, ''PUSH19''), (0x73, ''PUSH20''),
    (0x74, ''PUSH21''), (0x75, ''PUSH22''), (0x76, ''PUSH23''), (0x77, ''PUSH24''), (0x78, ''PUSH25''),
    (0x79, ''PUSH26''), (0x7a, ''PUSH27''), (0x7b, ''PUSH28''), (0x7c, ''PUSH29''), (0x7d, ''PUSH30''),
    (0x7e, ''PUSH31''), (0x7f, ''PUSH32''), (0x80, ''DUP1''), (0x81, ''DUP2''), (0x82, ''DUP3''),
    (0x83, ''DUP4''), (0x84, ''DUP5''), (0x85, ''DUP6''), (0x86, ''DUP7''), (0x87, ''DUP8''), (0x88, ''DUP9''),
    (0x89, ''DUP10''), (0x8a, ''DUP11''), (0x8b, ''DUP12''), (0x8c, ''DUP13''), (0x8d, ''DUP14''),
    (0x8e, ''DUP15''), (0x8f, ''DUP16''), (0x90, ''SWAP1''), (0x91, ''SWAP2''), (0x92, ''SWAP3''),
    (0x93, ''SWAP4''), (0x94, ''SWAP5''), (0x95, ''SWAP6''), (0x96, ''SWAP7''), (0x97, ''SWAP8''),
    (0x98, ''SWAP9''), (0x99, ''SWAP10''), (0x9a, ''SWAP11''), (0x9b, ''SWAP12''), (0x9c, ''SWAP13''),
    (0x9d, ''SWAP14''), (0x9e, ''SWAP15''), (0x9f, ''SWAP16''), (0xa0, ''LOG0''), (0xa1, ''LOG1''),
    (0xa2, ''LOG2''), (0xa3, ''LOG3''), (0xa4, ''LOG4''), (0xf0, ''CREATE''), (0xf1, ''CALL''),
    (0xf3, ''RETURN''), (0xf2, ''CALLCODE''), (0xf4, ''DELEGATECALL''), (0xf5, ''CREATE2''),
    (0xfa, ''STATICCALL''), (0xfd, ''REVERT''), (0xfe, ''INVALID''), (0xff, ''SELFDESTRUCT'')]"

definition stringToOp :: "(string \<times> byte) list" where
  "stringToOp = [
    (''STOP'', 0x0), (''ADD'', 0x1), (''MUL'', 0x2), (''SUB'', 0x3), (''DIV'', 0x4), (''SDIV'', 0x5),
    (''MOD'', 0x6), (''SMOD'', 0x7), (''EXP'', 0xa), (''NOT'', 0x19), (''LT'', 0x10), (''GT'', 0x11),
    (''SLT'', 0x12), (''SGT'', 0x13), (''EQ'', 0x14), (''ISZERO'', 0x15), (''SIGNEXTEND'', 0xb), (''AND'', 0x16),
    (''OR'', 0x17), (''XOR'', 0x18), (''BYTE'', 0x1a), (''SHL'', 0x1b), (''SHR'', 0x1c), (''SAR'', 0x1d),
    (''ADDMOD'', 0x8), (''MULMOD'', 0x9), (''KECCAK256'', 0x20), (''ADDRESS'', 0x30), (''BALANCE'', 0x31),
    (''ORIGIN'', 0x32), (''CALLER'', 0x33), (''CALLVALUE'', 0x34), (''CALLDATALOAD'', 0x35),
    (''CALLDATASIZE'', 0x36), (''CALLDATACOPY'', 0x37), (''CHAINID'', 0x46), (''BASEFEE'', 0x48),
    (''DELEGATECALL'', 0xf4), (''STATICCALL'', 0xfa), (''CODESIZE'', 0x38), (''CODECOPY'', 0x39),
    (''GASPRICE'', 0x3a), (''EXTCODESIZE'', 0x3b), (''EXTCODECOPY'', 0x3c), (''RETURNDATASIZE'', 0x3d),
    (''RETURNDATACOPY'', 0x3e), (''EXTCODEHASH'', 0x3f), (''BLOCKHASH'', 0x40), (''COINBASE'', 0x41),
    (''TIMESTAMP'', 0x42), (''NUMBER'', 0x43), (''DIFFICULTY'', 0x44), (''GASLIMIT'', 0x45),
    (''SELFBALANCE'', 0x47), (''POP'', 0x50), (''MLOAD'', 0x51), (''MSTORE'', 0x52), (''MSTORE8'', 0x53),
    (''SLOAD'', 0x54), (''SSTORE'', 0x55), (''JUMP'', 0x56), (''JUMPI'', 0x57), (''PC'', 0x58), (''MSIZE'', 0x59),
    (''GAS'', 0x5a), (''JUMPDEST'', 0x5b), (''PUSH0'', 0x5f), (''PUSH1'', 0x60), (''PUSH2'', 0x61),
    (''PUSH3'', 0x62), (''PUSH4'', 0x63), (''PUSH5'', 0x64), (''PUSH6'', 0x65), (''PUSH7'', 0x66),
    (''PUSH8'', 0x67), (''PUSH9'', 0x68), (''PUSH10'', 0x69), (''PUSH11'', 0x6a), (''PUSH12'', 0x6b),
    (''PUSH13'', 0x6c), (''PUSH14'', 0x6d), (''PUSH15'', 0x6e), (''PUSH16'', 0x6f), (''PUSH17'', 0x70),
    (''PUSH18'', 0x71), (''PUSH19'', 0x72), (''PUSH20'', 0x73), (''PUSH21'', 0x74), (''PUSH22'', 0x75),
    (''PUSH23'', 0x76), (''PUSH24'', 0x77), (''PUSH25'', 0x78), (''PUSH26'', 0x79), (''PUSH27'', 0x7a),
    (''PUSH28'', 0x7b), (''PUSH29'', 0x7c), (''PUSH30'', 0x7d), (''PUSH31'', 0x7e), (''PUSH32'', 0x7f),
    (''DUP1'', 0x80), (''DUP2'', 0x81), (''DUP3'', 0x82), (''DUP4'', 0x83), (''DUP5'', 0x84), (''DUP6'', 0x85),
    (''DUP7'', 0x86), (''DUP8'', 0x87), (''DUP9'', 0x88), (''DUP10'', 0x89), (''DUP11'', 0x8a), (''DUP12'', 0x8b),
    (''DUP13'', 0x8c), (''DUP14'', 0x8d), (''DUP15'', 0x8e), (''DUP16'', 0x8f), (''SWAP1'', 0x90),
    (''SWAP2'', 0x91), (''SWAP3'', 0x92), (''SWAP4'', 0x93), (''SWAP5'', 0x94), (''SWAP6'', 0x95),
    (''SWAP7'', 0x96), (''SWAP8'', 0x97), (''SWAP9'', 0x98), (''SWAP10'', 0x99), (''SWAP11'', 0x9a),
    (''SWAP12'', 0x9b), (''SWAP13'', 0x9c), (''SWAP14'', 0x9d), (''SWAP15'', 0x9e), (''SWAP16'', 0x9f),
    (''LOG0'', 0xa0), (''LOG1'', 0xa1), (''LOG2'', 0xa2), (''LOG3'', 0xa3), (''LOG4'', 0xa4), (''CREATE'', 0xf0),
    (''CREATE2'', 0xf5), (''CALL'', 0xf1), (''RETURN'', 0xf3), (''CALLCODE'', 0xf2), (''REVERT'', 0xfd),
    (''INVALID'', 0xfe), (''SELFDESTRUCT'', 0xff)]"

definition StringToOp :: "string \<Rightarrow> byte" where
  "StringToOp str = (case map_of stringToOp str of Some op \<Rightarrow> op | None \<Rightarrow> 0)"

section \<open>The table of the interpreter\<close>

lemma frontier_lookups:
  "newFrontierInstructionSet OP_CALL = operation_of (Calling opCall) 40 (Some gasCall) 7 1 (Some memoryCall)"
  "newFrontierInstructionSet OP_CALLCODE = operation_of (Calling opCallCode) 40 (Some gasCallCode) 7 1 (Some memoryCall)"
  "newFrontierInstructionSet OP_BALANCE = operation_of (Plain (\<lambda>_. opBalance)) 20 None 1 1 None"
  "newFrontierInstructionSet OP_EXTCODESIZE = operation_of (Plain (\<lambda>_. opExtCodeSize)) 20 None 1 1 None"
  "newFrontierInstructionSet OP_EXTCODECOPY = operation_of (Plain (\<lambda>_. opExtCodeCopy)) 20 (Some gasExtCodeCopy) 4 0 (Some memoryExtCodeCopy)"
  "newFrontierInstructionSet OP_SLOAD = operation_of (Plain (\<lambda>_. opSload)) 50 None 1 1 None"
  "newFrontierInstructionSet OP_SSTORE = operation_of (Plain (\<lambda>_. opSstore)) 0 (Some gasSStore) 2 0 None"
  "newFrontierInstructionSet OP_EXP = operation_of (Plain opExp) 0 (Some gasExpFrontier) 2 1 None"
  "newFrontierInstructionSet OP_SELFDESTRUCT = operation_of (Plain opSelfdestruct) 0 (Some gasSelfdestruct) 1 0 None"
  by (simp_all add: newFrontierInstructionSet_def single_entries_def)

lemma operation_of_upd:
  "(operation_of f c d pops pushs m)\<lparr>constantGas := c'\<rparr> = operation_of f c' d pops pushs m"
  "(operation_of f c d pops pushs m)\<lparr>dynamicGas := d'\<rparr> = operation_of f c d' pops pushs m"
  by (simp_all add: operation_of_def)

lemmas instruction_sets = newLondonInstructionSet_def enable3198_def enable3529_def newBerlinInstructionSet_def
  enable2929_def newIstanbulInstructionSet_def enable2200_def enable1884_def enable1344_def newConstantinopleInstructionSet_def
  newByzantiumInstructionSet_def newSpuriousDragonInstructionSet_def newTangerineWhistleInstructionSet_def
  newHomesteadInstructionSet_def set_cost_def set_gas_def reprice_def

text \<open>What the later sets change in the first one, all told.\<close>

definition changed_entries :: "(byte \<times> operation) list" where
  "changed_entries = [
     (OP_RANDOM, operation_of (Plain opRandom) GasQuickStep None 0 1 None),
     (OP_BASEFEE, operation_of (Plain opBaseFee) GasQuickStep None 0 1 None),
     (OP_SELFDESTRUCT, operation_of (Plain opSelfdestruct) 5000 (Some gasSelfdestructEIP3529) 1 0 None),
     (OP_SSTORE, operation_of (Plain (\<lambda>_. opSstore)) 0 (Some gasSStoreEIP3529) 2 0 None),
     (OP_DELEGATECALL, operation_of (Calling opDelegateCall) 100 (Some gasDelegateCallEIP2929) 6 1 (Some memoryDelegateCall)),
     (OP_STATICCALL, operation_of (Calling opStaticCall) 100 (Some gasStaticCallEIP2929) 6 1 (Some memoryStaticCall)),
     (OP_CALLCODE, operation_of (Calling opCallCode) 100 (Some gasCallCodeEIP2929) 7 1 (Some memoryCall)),
     (OP_CALL, operation_of (Calling opCall) 100 (Some gasCallEIP2929) 7 1 (Some memoryCall)),
     (OP_BALANCE, operation_of (Plain (\<lambda>_. opBalance)) 100 (Some gasEip2929AccountCheck) 1 1 None),
     (OP_EXTCODEHASH, operation_of (Plain (\<lambda>_. opExtCodeHash)) 100 (Some gasEip2929AccountCheck) 1 1 None),
     (OP_EXTCODESIZE, operation_of (Plain (\<lambda>_. opExtCodeSize)) 100 (Some gasEip2929AccountCheck) 1 1 None),
     (OP_EXTCODECOPY, operation_of (Plain (\<lambda>_. opExtCodeCopy)) 100 (Some gasExtCodeCopyEIP2929) 4 0 (Some memoryExtCodeCopy)),
     (OP_SLOAD, operation_of (Plain (\<lambda>_. opSload)) 0 (Some gasSLoadEIP2929) 1 1 None),
     (OP_SELFBALANCE, operation_of (Plain (\<lambda>_. opSelfBalance)) GasFastStep None 0 1 None),
     (OP_CHAINID, operation_of (Plain opChainID) GasQuickStep None 0 1 None),
     (OP_CREATE2, operation_of (Calling opCreate2) 32000 (Some gasCreate2) 4 1 (Some memoryCreate2)),
     (OP_SAR, operation_of (Plain opSAR) GasFastestStep None 2 1 None),
     (OP_SHR, operation_of (Plain (\<lambda>_. opSHR)) GasFastestStep None 2 1 None),
     (OP_SHL, operation_of (Plain (\<lambda>_. opSHL)) GasFastestStep None 2 1 None),
     (OP_REVERT, operation_of (Plain (\<lambda>_. opRevert)) 0 (Some gasRevert) 2 0 (Some memoryRevert)),
     (OP_RETURNDATACOPY, operation_of (Plain (\<lambda>_. opReturnDataCopy)) GasFastestStep (Some gasReturnDataCopy) 3 0 (Some memoryReturnDataCopy)),
     (OP_RETURNDATASIZE, operation_of (Plain (\<lambda>_. opReturnDataSize)) GasQuickStep None 0 1 None),
     (OP_EXP, operation_of (Plain opExp) 0 (Some gasExpEIP158) 2 1 None)]"

lemma GetGenericJumpTable_changed:
  "GetGenericJumpTable = foldr (\<lambda>(op, e) jt. jt(op := e)) changed_entries newFrontierInstructionSet"
  by (simp add: GetGenericJumpTable_def newMergeInstructionSet_def changed_entries_def instruction_sets frontier_lookups operation_of_upd)

definition kept_entries :: "(byte \<times> operation) list" where
  "kept_entries = filter (\<lambda>(op, e). op \<notin> fst ` set changed_entries) single_entries"

lemma foldr_upd: "(foldr (\<lambda>(op, e) jt. jt(op := e)) es jt) op = (case map_of es op of Some e \<Rightarrow> e | None \<Rightarrow> jt op)"
  by (induction es) auto

text \<open>A property of every entry of the table is checked entry by entry, for the families once.\<close>

lemma dup_swap_operations:
  "\<lparr>execute = f, constantGas = c, dynamicGas = d, op_minStack = minDupStack n, op_maxStack = maxDupStack n, memorySize = m\<rparr> =
    operation_of f c d n (n + 1) m"
  "\<lparr>execute = f, constantGas = c, dynamicGas = d, op_minStack = minSwapStack n, op_maxStack = maxSwapStack n, memorySize = m\<rparr> =
    operation_of f c d n n m"
  by (simp_all add: operation_of_def stack_table)

lemma GetGenericJumpTable_all:
  assumes changed: "list_all (\<lambda>(op, e). P e) changed_entries"
    and kept: "list_all (\<lambda>(op, e). P e) kept_entries"
    and family: "\<And>n. n \<in> {2..<33} \<Longrightarrow> P (operation_of (Plain (\<lambda>_. makePush (word_of_nat n) n)) GasFastestStep None 0 1 None)"
      "\<And>n. n \<in> {1..<17} \<Longrightarrow> P (operation_of (Plain (\<lambda>_. makeDup n)) GasFastestStep None (int n) (int n + 1) None)"
      "\<And>n. n \<in> {1..<17} \<Longrightarrow> P (operation_of (Plain (\<lambda>_. makeSwap n)) GasFastestStep None (int n + 1) (int n + 1) None)"
      "\<And>n. n < 5 \<Longrightarrow> P (operation_of (Plain (makeLog n)) 0 (Some (makeGasLog (word_of_nat n))) (int n + 2) 0 (Some memoryLog))"
    and undef: "P undefined_operation"
  shows "P (GetGenericJumpTable op)"
proof (cases "map_of changed_entries op")
  case (Some e)
  then have "(op, e) \<in> set changed_entries" by (rule map_of_SomeD)
  with Some changed show ?thesis by (auto simp: GetGenericJumpTable_changed foldr_upd list_all_iff)
next
  case None
  then have new: "op \<notin> fst ` set changed_entries" by (simp add: map_of_eq_None_iff)
  have eq: "GetGenericJumpTable op = newFrontierInstructionSet op"
    using None by (simp add: GetGenericJumpTable_changed foldr_upd)
  show ?thesis
  proof (cases "map_of (single_entries @ push_entries @ dup_entries @ swap_entries @ log_entries) op")
    case (Some e)
    have fam: "list_all (\<lambda>(op, e). P e) (push_entries @ dup_entries @ swap_entries @ log_entries)"
      unfolding push_entries_def dup_entries_def swap_entries_def log_entries_def dup_swap_operations list_all_append
      by (simp only: list_all_iff set_map set_upt ball_simps prod.case) (use family in simp)
    from Some have "(op, e) \<in> set (single_entries @ push_entries @ dup_entries @ swap_entries @ log_entries)" by (rule map_of_SomeD)
    with new kept fam have "P e" by (auto simp: kept_entries_def list_all_iff)
    with Some show ?thesis unfolding eq newFrontierInstructionSet_def by simp
  next
    case None
    with undef show ?thesis unfolding eq newFrontierInstructionSet_def by (simp only: option.case)
  qed
qed

lemma GetGenericJumpTable_valid: "validate GetGenericJumpTable = Ok GetGenericJumpTable"
proof -
  have "valid_operation (GetGenericJumpTable op)" for op
    by (rule GetGenericJumpTable_all)
      (simp_all add: changed_entries_def kept_entries_def single_entries_def valid_operation_def operation_of_def undefined_operation_def)
  then show ?thesis by (simp add: validate_def list_all_iff)
qed

end
