(* ===== verification/EVM_Run.thy ===== *)
theory EVM_Run
  imports EVM_Table
begin

text \<open>
  The interpreter: \<^verbatim>\<open>src/core/evm/interpreter.go\<close>.  The loop and the calls it makes take one fuel; without fuel
  they do not return.  One step is the body of the loop.
\<close>

section \<open>The loop\<close>

text \<open>The price of the memory and of the operands; the memory grows when it is paid.\<close>

definition memory_need :: "operation \<Rightarrow> vm \<Rightarrow> (u64 \<times> bool) result" where
  "memory_need oper s = (case memorySize oper of
     None \<Rightarrow> Ok (0, False)
   | Some f \<Rightarrow> rbind (f (stack s)) (\<lambda>(memSize, overflow).
       if overflow then Ok (0, True) else Ok (SafeMul (toWordSize memSize) 32)))"

definition charge_dynamic :: "vmctx \<Rightarrow> operation \<Rightarrow> (vm, vmerr option) op" where
  "charge_dynamic C oper = (case dynamicGas oper of
     None \<Rightarrow> sret None
   | Some g \<Rightarrow>
       sbind (sread (memory_need oper)) (\<lambda>(memSz, overflow).
       if overflow then sret (Some ErrGasUintOverflow)
       else
       sbind (scatch (g C memSz)) (\<lambda>r. case r of
         Ok dynamicCost \<Rightarrow>
           sbind (use_gas dynamicCost) (\<lambda>ok.
           if \<not> ok then sret (Some ErrOutOfGas)
           else sbind (supd (\<lambda>s. if memSz > 0 then s\<lparr>mem := Resize memSz (mem s)\<rparr> else s)) (\<lambda>_. sret None))
       | _ \<Rightarrow> sret (Some ErrOutOfGas))))"

text \<open>One round of the loop: nothing when it goes on, or what the loop is left with.\<close>

definition perform :: "vmctx \<Rightarrow> operation \<Rightarrow> runner \<Rightarrow> (vm, vmret option) pop" where
  "perform C oper run =
     pbind (pdo (use_gas (constantGas oper))) (\<lambda>ok.
     if \<not> ok then pret (Some ([], Some ErrOutOfGas))
     else
     pbind (pdo (charge_dynamic C oper)) (\<lambda>charged. case charged of
       Some e \<Rightarrow> pret (Some ([], Some e))
     | None \<Rightarrow>
         pbind (run_operation (execute oper) C run) (\<lambda>(res, err). case err of
           None \<Rightarrow> pbind (pdo (supd (\<lambda>s. s\<lparr>pc := pc s + 1\<rparr>))) (\<lambda>_. pret None)
         | Some e \<Rightarrow> pret (Some (res, Some e)))))"

definition step :: "vmctx \<Rightarrow> JumpTable \<Rightarrow> runner \<Rightarrow> (vm, vmret option) pop" where
  "step C jt run =
     pbind (pdo (sget id)) (\<lambda>s.
     let oper = jt (GetOp (pc s) (contract s)); sLen = int (length (stack s)) in
     if sLen < op_minStack oper then pret (Some ([], Some (ErrStackUnderflow sLen (op_minStack oper))))
     else if sLen > op_maxStack oper then pret (Some ([], Some (ErrStackOverflow sLen (op_maxStack oper))))
     else perform C oper run)"

text \<open>The function \<^verbatim>\<open>Run\<close> around the loop.  The flag for read-only calls is taken back by the call that has set it.\<close>

definition Run_with :: "(vm, vmret) pop \<Rightarrow> runner" where
  "Run_with lp c input readOnly =
     pbind (pdo (sget (\<lambda>e. readOnly \<and> \<not> in_readOnly e))) (\<lambda>sets.
     pbind (pdo (supd (\<lambda>e. e\<lparr>evm_depth := evm_depth e + 1, in_readOnly := in_readOnly e \<or> readOnly, in_returnData := []\<rparr>))) (\<lambda>_.
     pbind (if c_Code c = [] then pret (([], None), c)
            else (\<lambda>e. case lp \<lparr>ev = e, pc = 0, stack = [], mem = NewMemory, contract = c\<lparr>c_Input := input\<rparr>\<rparr> of
                None \<Rightarrow> None
              | Some (r, s) \<Rightarrow> Some (rbind r (\<lambda>x. Ok (x, contract s)), ev s))) (\<lambda>r.
     pbind (pdo (supd (\<lambda>e. e\<lparr>evm_depth := evm_depth e - 1, in_readOnly := in_readOnly e \<and> \<not> sets\<rparr>))) (\<lambda>_. pret r))))"

primrec loop :: "nat \<Rightarrow> vmctx \<Rightarrow> JumpTable \<Rightarrow> (vm, vmret) pop" where
  "loop 0 C jt = (\<lambda>s. None)"
| "loop (Suc n) C jt =
     pbind (step C jt (Run_with (loop n C jt))) (\<lambda>r. case r of
       None \<Rightarrow> loop n C jt
     | Some (res, err) \<Rightarrow> pret (res, if err = Some errStopToken then None else err))"

text \<open>The table of an interpreter that was given none.\<close>

definition default_JumpTable :: "Rules \<Rightarrow> JumpTable" where
  "default_JumpTable rules =
     (if IsMerge rules then newMergeInstructionSet
      else if IsLondon rules then newLondonInstructionSet
      else if IsBerlin rules then newBerlinInstructionSet
      else if IsIstanbul rules then newIstanbulInstructionSet
      else if IsConstantinople rules then newConstantinopleInstructionSet
      else if IsByzantium rules then newByzantiumInstructionSet
      else if IsEIP158 rules then newSpuriousDragonInstructionSet
      else if IsEIP150 rules then newTangerineWhistleInstructionSet
      else if IsHomestead rules then newHomesteadInstructionSet
      else newFrontierInstructionSet)"

definition Run :: "nat \<Rightarrow> vmctx \<Rightarrow> runner" where
  "Run n C = Run_with (loop n C GetGenericJumpTable)"

end
