(* ===== verification/EVM_Frames.thy ===== *)
theory EVM_Frames
  imports EVM_Run
begin

text \<open>
  What an instruction leaves alone.  A frame is anything that can be read from the running call and that stack, memory,
  position and the caches have no part in; every instruction that calls no contract keeps every frame, except that
  those which write to the state may change what is read from there.
\<close>

section \<open>Frames\<close>

locale machine_part =
  fixes h :: "vm \<Rightarrow> 'v"
  assumes h_mem: "h (s\<lparr>mem := m\<rparr>) = h s"
    and h_pc: "h (s\<lparr>pc := p\<rparr>) = h s"
    and h_analysis: "h (s\<lparr>contract := (contract s)\<lparr>c_analysis := a\<rparr>\<rparr>) = h s"
    and h_jumpdests: "h (s\<lparr>ev := (ev s)\<lparr>jumpdests := j\<rparr>\<rparr>) = h s"
    and h_returnData: "h (s\<lparr>ev := (ev s)\<lparr>in_returnData := r\<rparr>\<rparr>) = h s"
    and h_callGasTemp: "h (s\<lparr>ev := (ev s)\<lparr>callGasTemp := g\<rparr>\<rparr>) = h s"
    and h_Output: "h (s\<lparr>ev := (ev s)\<lparr>log_Output := out\<rparr>\<rparr>) = h s"
begin

lemmas part_simps = h_mem h_pc h_analysis h_jumpdests h_returnData h_callGasTemp h_Output

lemma keeps_part_upd:
  "keeps h (supd (\<lambda>s. s\<lparr>mem := g s\<rparr>))" "keeps h (supd (\<lambda>s. s\<lparr>pc := p s\<rparr>))"
  "keeps h (supd (\<lambda>s. s\<lparr>contract := (contract s)\<lparr>c_analysis := a s\<rparr>\<rparr>))"
  "keeps h (supd (\<lambda>s. s\<lparr>ev := (ev s)\<lparr>in_returnData := r s\<rparr>\<rparr>))" "keeps h (supd (\<lambda>s. s\<lparr>ev := (ev s)\<lparr>callGasTemp := c s\<rparr>\<rparr>))"
  by (simp_all add: keeps_def supd_def part_simps)

lemma keeps_on_ev: "(\<And>s. h (s\<lparr>ev := f (ev s)\<rparr>) = h s) \<Longrightarrow> keeps h (on_ev (supd f))"
  by (simp add: keeps_def zoom_def supd_def)

lemma keeps_cond: "keeps h m \<Longrightarrow> keeps h m' \<Longrightarrow> keeps h (if b then m else m')"
  by simp

lemma keeps_isCode: "keeps h (isCode n)"
proof -
  have j: "keeps h (on_ev (supd (\<lambda>e. e\<lparr>jumpdests := f e\<rparr>)))" for f by (rule keeps_on_ev) (simp add: part_simps)
  show ?thesis
    unfolding isCode_def by (auto intro!: effects j keeps_part_upd split: option.split)
qed

lemma keeps_validJumpdest: "keeps h (validJumpdest d)"
  unfolding validJumpdest_def by (auto intro!: effects keeps_isCode)

lemma keeps_stateless: "keeps h (on_StateDB (AddRefund g))" "keeps h (on_StateDB (SubRefund g))"
  "keeps h (on_StateDB (AddAddressToAccessList a))" "keeps h (on_StateDB (AddSlotToAccessList a k))"
  "keeps h (on_StateDB (AddLog a ts d n))"
  by (simp_all add: keeps_def supd_def AddRefund_def SubRefund_def AddAddressToAccessList_def AddSlotToAccessList_def AddLog_def)

lemmas keeps_part = keeps_part_upd keeps_validJumpdest keeps_stateless keeps_cond

text \<open>Prices.\<close>

lemma keeps_checked: "keeps h (checked_u64 p)"
  by (simp add: checked_u64_def effects)

lemma keeps_memoryGasCost: "keeps h (memoryGasCost n)"
  by (auto simp: memoryGasCost_def Let_def intro!: effects keeps_part_upd)

lemma keeps_word_gas: "keeps h (word_gas p c g)"
  unfolding word_gas_def by (intro effects keeps_checked)

lemma keeps_call_share: "keeps h (call_share C g)"
  unfolding call_share_def by (intro effects keeps_checked keeps_part_upd)

lemma keeps_gas:
  "keeps h (memoryCopierGas p C n)" "keeps h (gasSStoreEIP2200 C n)" "keeps h (makeGasLog k C n)" "keeps h (gasKeccak256 C n)"
  "keeps h (pureMemoryGascost C n)" "keeps h (gasCreate2 C n)" "keeps h (exp_gas b C n)" "keeps h (gasCall C n)" "keeps h (gasCallCode C n)"
  "keeps h (gasDelegateCall C n)" "keeps h (gasStaticCall C n)" "keeps h (makeGasSStoreFunc r C n)" "keeps h (gasSLoadEIP2929 C n)"
  "keeps h (gasEip2929AccountCheck C n)" "keeps h (makeSelfdestructGasFn b2 C n)"
  by (auto simp: memoryCopierGas_def gasSStoreEIP2200_def makeGasLog_def gasKeccak256_def pureMemoryGascost_def gasCreate2_def exp_gas_def
      gasCall_def gasCallCode_def gasDelegateCall_def gasStaticCall_def makeGasSStoreFunc_def gasSLoadEIP2929_def gasEip2929AccountCheck_def
      makeSelfdestructGasFn_def Let_def intro!: effects keeps_part keeps_checked keeps_memoryGasCost keeps_word_gas keeps_call_share
      split: prod.splits)

text \<open>Every address counts as accessed before.\<close>

lemma keeps_EIP2929: "(\<And>n. keeps h (old C n)) \<Longrightarrow> keeps h (makeCallVariantGasCallEIP2929 old C n)"
  by (auto simp: makeCallVariantGasCallEIP2929_def AddressInAccessList_def sget_def sbind_def keeps_def sread_eq sret_def Let_def
      split: prod.splits result.splits; metis snd_conv)

lemma keeps_gasExtCodeCopyEIP2929: "keeps h (gasExtCodeCopyEIP2929 C n)"
  unfolding gasExtCodeCopyEIP2929_def gasExtCodeCopy_def Let_def
  by (intro effects keeps_gas keeps_part keeps_checked)

end

locale machine_frame = machine_part +
  assumes h_stack: "h (s\<lparr>stack := st\<rparr>) = h s"
begin

lemmas frame_simps = h_stack part_simps

lemma keeps_upd_stack: "keeps h (supd (\<lambda>s. s\<lparr>stack := f s\<rparr>))"
  by (simp add: keeps_def supd_def h_stack)

lemmas keeps_upd = keeps_upd_stack keeps_part_upd

lemma keeps_stack_ops: "keeps h pop" "keeps h (push x)" "keeps h peek" "keeps h (set_top x)" "keeps h (dup n)" "keeps h (swap n)"
  by (auto simp: keeps_def pop_def push_def supd_def peek_def sread_eq set_top_def dup_def swap_def sbind_def Let_def frame_simps
      split: list.splits result.splits prod.splits)

lemma keeps_shapes:
  "keeps h nothing" "keeps h (fail e)" "keeps h (unop f1)" "keeps h (binop f2)" "keeps h (ternop f3)" "keeps h (push_val g)"
  "keeps h (copy_to_mem a b d)" "keeps h (jump_to x)" "keeps h (set_returnData r)"
  by (auto simp: nothing_def fail_def unop_def binop_def ternop_def push_val_def copy_to_mem_def jump_to_def set_returnData_def
      intro!: effects keeps_stack_ops keeps_upd keeps_validJumpdest)

lemma keeps_ret_mem: "(\<And>b. keeps h (f b)) \<Longrightarrow> keeps h (ret_mem f)"
  unfolding ret_mem_def by (intro effects keeps_stack_ops)

lemmas keeps_machine = keeps_stack_ops keeps_upd keeps_validJumpdest keeps_shapes keeps_ret_mem keeps_stateless keeps_cond

lemma keeps_pure_ops:
  "keeps h opAdd" "keeps h opSub" "keeps h opMul" "keeps h (opDiv C)" "keeps h (opSdiv C)" "keeps h (opMod C)" "keeps h (opSmod C)"
  "keeps h (opExp C)" "keeps h (opSignExtend C)" "keeps h opNot" "keeps h opLt" "keeps h opGt" "keeps h opSlt" "keeps h opSgt"
  "keeps h opEq" "keeps h opIszero" "keeps h opAnd" "keeps h opOr" "keeps h opXor" "keeps h (opByte C)" "keeps h (opAddmod C)"
  "keeps h (opMulmod C)" "keeps h opSHL" "keeps h opSHR" "keeps h (opSAR C)"
  by (simp_all add: opAdd_def opSub_def opMul_def opDiv_def opSdiv_def opMod_def opSmod_def opExp_def opSignExtend_def opNot_def
      opLt_def opGt_def opSlt_def opSgt_def opEq_def opIszero_def opAnd_def opOr_def opXor_def opByte_def opAddmod_def opMulmod_def
      opSHL_def opSHR_def opSAR_def keeps_shapes)

lemma keeps_env_ops:
  "keeps h opAddress" "keeps h (opOrigin C)" "keeps h opCaller" "keeps h opCallValue" "keeps h opCallDataSize" "keeps h opReturnDataSize"
  "keeps h opCodeSize" "keeps h (opGasprice C)" "keeps h (opBlockhash C)" "keeps h (opCoinbase C)" "keeps h (opTimestamp C)"
  "keeps h (opNumber C)" "keeps h (opDifficulty C)" "keeps h (opGasLimit C)" "keeps h opSelfBalance" "keeps h (opChainID C)"
  "keeps h (opBaseFee C)" "keeps h opPush0" "keeps h opPc" "keeps h opMsize" "keeps h opGas" "keeps h opJumpdest" "keeps h opStop"
  by (simp_all add: opAddress_def opOrigin_def opCaller_def opCallValue_def opCallDataSize_def opReturnDataSize_def opCodeSize_def
      opGasprice_def opBlockhash_def opCoinbase_def opTimestamp_def opNumber_def opDifficulty_def opGasLimit_def opSelfBalance_def
      opChainID_def opBaseFee_def opPush0_def opPc_def opMsize_def opGas_def opJumpdest_def opStop_def keeps_shapes)

lemma keeps_memory_ops:
  "keeps h opBalance" "keeps h opCallDataLoad" "keeps h opCallDataCopy" "keeps h opReturnDataCopy" "keeps h opExtCodeSize" "keeps h opCodeCopy"
  "keeps h opExtCodeCopy" "keeps h opExtCodeHash" "keeps h opPop" "keeps h opMload" "keeps h opMstore" "keeps h opMstore8" "keeps h opSload"
  "keeps h (opJump C)" "keeps h (opJumpi C)" "keeps h opReturn" "keeps h opRevert" "keeps h opUndefined"
  "keeps h opPush1" "keeps h (makePush k n)" "keeps h (makeDup n)" "keeps h (makeSwap n)"
  by (auto simp: opBalance_def opCallDataLoad_def opCallDataCopy_def opReturnDataCopy_def opExtCodeSize_def opCodeCopy_def opExtCodeCopy_def
      opExtCodeHash_def opPop_def opMload_def opMstore_def opMstore8_def opSload_def opJump_def opJumpi_def opReturn_def opRevert_def
      opUndefined_def opPush1_def makePush_def makeDup_def makeSwap_def Let_def
      intro!: effects keeps_machine split: prod.splits)

lemma keeps_opRandom: "keeps h (opRandom C)"
  by (auto simp: opRandom_def intro: effects keeps_shapes split: option.split)

lemma keeps_pop_topics: "keeps h (pop_topics n)"
  by (induction n) (auto intro!: effects keeps_stack_ops)

lemma keeps_guarded: "keeps h m \<Longrightarrow> keeps h (guarded m)"
  unfolding guarded_def by (auto intro!: effects keeps_shapes)

lemma keeps_makeLog: "keeps h (makeLog n C)"
  unfolding makeLog_def by (intro keeps_guarded effects keeps_machine keeps_pop_topics)

lemma keeps_opSelfdestruct: "keeps h (opSelfdestruct C)"
proof -
  have "keeps h (on_ev (CaptureExit C out))" for out
    by (simp add: CaptureExit_def keeps_def zoom_def supd_def sret_def frame_simps)
  then show ?thesis unfolding opSelfdestruct_def by (intro keeps_guarded effects keeps_machine)
qed

end

definition plain_keeps :: "(vm \<Rightarrow> 'v) \<Rightarrow> vmctx \<Rightarrow> operation \<Rightarrow> bool" where
  "plain_keeps h C e = (case execute e of Plain f \<Rightarrow> keeps h (f C) | Calling _ \<Rightarrow> True)"

definition gas_keeps :: "(vm \<Rightarrow> 'v) \<Rightarrow> vmctx \<Rightarrow> operation \<Rightarrow> bool" where
  "gas_keeps h C e = (case dynamicGas e of Some g \<Rightarrow> \<forall>n. keeps h (g C n) | None \<Rightarrow> True)"

lemmas table_entries = changed_entries_def kept_entries_def single_entries_def undefined_operation_def

context machine_part
begin

lemma gas_keeps_table: "gas_keeps h C (GetGenericJumpTable op)"
  by (rule GetGenericJumpTable_all)
    (simp_all add: table_entries operation_of_def gas_keeps_def pure_memory_gas keeps_gas keeps_gasExtCodeCopyEIP2929
      gasCallDataCopy_def gasCodeCopy_def gasReturnDataCopy_def gasExpEIP158_def gasSStoreEIP3529_def gasSelfdestructEIP3529_def
      gasCallEIP2929_def gasCallCodeEIP2929_def gasDelegateCallEIP2929_def gasStaticCallEIP2929_def keeps_EIP2929)

lemma keeps_charge_dynamic:
  assumes "gas_keeps h C e" "\<And>g. keeps h (use_gas g)"
  shows "keeps h (charge_dynamic C e)"
proof -
  have r: "keeps h (supd (\<lambda>s. if b then s\<lparr>mem := f s\<rparr> else s))" for b f
    by (simp add: keeps_def supd_def part_simps)
  show ?thesis
    using assms unfolding charge_dynamic_def gas_keeps_def
    by (auto intro!: effects r split: option.split result.split prod.split)
qed

end

context machine_frame
begin

text \<open>The two instructions that write to the state are left to the frame.\<close>

lemma plain_keeps_table:
  assumes "keeps h opSstore" "keeps h (opKeccak256 C)"
  shows "plain_keeps h C (GetGenericJumpTable op)"
  by (rule GetGenericJumpTable_all)
    (simp_all add: table_entries operation_of_def plain_keeps_def assms keeps_pure_ops keeps_env_ops keeps_memory_ops keeps_opRandom
      keeps_makeLog keeps_opSelfdestruct)

lemma keeps_opKeccak256:
  assumes "\<And>k b. keeps h (on_StateDB (AddPreimage k b))"
  shows "keeps h (opKeccak256 C)"
proof -
  have "keeps h (if EnablePreimageRecording C then on_StateDB (AddPreimage k b) else sret ())" for k b
    using assms by (auto intro: effects)
  then show ?thesis unfolding opKeccak256_def Let_def by (intro effects keeps_stack_ops keeps_shapes)
qed

end

section \<open>Frames without the state\<close>

text \<open>The gas, the depth and the flag of the running call.\<close>

definition meter :: "vm \<Rightarrow> u64 \<times> int \<times> bool" where
  "meter s = (Gas (contract s), evm_depth (ev s), in_readOnly (ev s))"

interpretation meter: machine_frame meter
  by unfold_locales (simp_all add: meter_def)

lemma keeps_meter_db: "keeps meter (on_StateDB d)"
  by (simp add: keeps_def supd_def meter_def)

lemma keeps_meter_opSstore: "keeps meter opSstore"
  unfolding opSstore_def by (intro meter.keeps_guarded effects meter.keeps_machine keeps_meter_db)

lemma plain_keeps_meter: "plain_keeps meter C (GetGenericJumpTable op)"
  by (intro meter.plain_keeps_table keeps_meter_opSstore meter.keeps_opKeccak256 keeps_meter_db)

text \<open>
  The state of the contracts, while the call is read-only: all but the recorded preimages, which no operation reads.
\<close>

definition without_preimages :: "StateAccount \<Rightarrow> StateAccount" where
  "without_preimages sa = sa\<lparr>States := []\<rparr>"

lemma without_preimages_AddPreimage [simp]: "without_preimages (AddPreimage k b sa) = without_preimages sa"
  by (simp add: without_preimages_def AddPreimage_def)

definition frozen :: "vm \<Rightarrow> bool \<times> StateAccount option" where
  "frozen s = (in_readOnly (ev s), if in_readOnly (ev s) then Some (without_preimages (db s)) else None)"

interpretation frozen: machine_frame frozen
  by unfold_locales (simp_all add: frozen_def)

lemma keeps_frozen_opSstore: "keeps frozen opSstore"
  unfolding keeps_def
proof
  fix s
  have "keeps meter (opSstore)" by (rule keeps_meter_opSstore)
  then have ro: "in_readOnly (ev (snd (opSstore s))) = in_readOnly (ev s)" by (simp add: keeps_def meter_def)
  show "frozen (snd (opSstore s)) = frozen s"
  proof (cases "in_readOnly (ev s)")
    case True
    then show ?thesis by (simp add: opSstore_def guarded_def sbind_def sget_def fail_def sret_def)
  qed (use ro in \<open>simp add: frozen_def\<close>)
qed

lemma plain_keeps_frozen: "plain_keeps frozen C (GetGenericJumpTable op)"
  by (intro frozen.plain_keeps_table keeps_frozen_opSstore frozen.keeps_opKeccak256)
    (simp add: keeps_def supd_def frozen_def)

end
