(* ===== verification/EVM_Metering.thy ===== *)
theory EVM_Metering
  imports EVM_Frames
begin

text \<open>
  Every run of the interpreter ends, and gives back at most the gas it was given: each round of the loop that goes on
  costs gas, and a call hands on less gas than its caller had.  The contract between the instructions and the interpreter that
  runs the code they call is the locale \<open>metered_runner\<close>.
\<close>

section \<open>Running an operation\<close>

lemma pbind_pop: "pbind (pdo pop) f s = (case stack s of [] \<Rightarrow> Some (Panic, s) | x # xs \<Rightarrow> f x (s\<lparr>stack := xs\<rparr>))"
  by (simp add: pbind_pdo pop_def split: list.split)

lemma pbind_sget: "pbind (pdo (sget g)) f s = f (g s) s"
  by (simp add: pbind_pdo sget_def)

lemma pbind_sread: "pbind (pdo (sread g)) f s = (case g s of Ok x \<Rightarrow> f x s | Err e \<Rightarrow> Some (Err e, s) | Panic \<Rightarrow> Some (Panic, s))"
  by (simp add: pbind_pdo sread_eq split: result.split)

lemmas run_simps = pbind_pop pbind_sget pbind_sread

lemma pspec_pdo_True: "pspec P (pdo m) (\<lambda>_ _. True)"
  by (rule pspec_pdo) (simp add: triple_def)

lemma pspec_then: "(\<And>x. pspec (\<lambda>_. True) (f x) Q) \<Longrightarrow> pspec P (pbind (pdo m) f) Q"
  by (rule pspec_pbind [OF pspec_pdo_True])

lemma pspec_at: "(\<And>s. P s \<Longrightarrow> pspec (\<lambda>t. t = s) m Q) \<Longrightarrow> pspec P m Q"
  by (simp add: pspec_def)

text \<open>An outcome: it exists, and a success is in a state with \<open>Q\<close>.\<close>

definition ends :: "('s \<Rightarrow> bool) \<Rightarrow> ('a result \<times> 's) option \<Rightarrow> bool" where
  "ends Q r = (case r of None \<Rightarrow> False | Some (r, s) \<Rightarrow> is_ok r \<longrightarrow> Q s)"

lemma ends_Some [simp]: "ends Q (Some (Panic, s))" "ends Q (Some (Err e, s))" "ends Q (Some (Ok x, s)) = Q s" "ends Q (pret x s) = Q s"
  by (simp_all add: ends_def pdo_def sret_def)

lemma ends_iff: "ends Q p \<longleftrightarrow> (\<exists>r s'. p = Some (r, s') \<and> (\<forall>x. r = Ok x \<longrightarrow> Q s'))"
proof (cases p)
  case (Some q)
  obtain r s' where "q = (r, s')" by (cases q)
  with Some show ?thesis by (cases r) (auto simp: ends_def)
qed (simp add: ends_def)

lemma pspec_ends: "pspec P m (\<lambda>_. Q) \<longleftrightarrow> (\<forall>s. P s \<longrightarrow> ends Q (m s))"
  by (simp only: pspec_def ends_iff)

section \<open>Calls\<close>

abbreviation at_most :: "u64 \<Rightarrow> bytes \<times> u64 \<times> vmerr option \<Rightarrow> evm \<Rightarrow> bool" where
  "at_most gas r e \<equiv> fst (snd r) \<le> gas"

lemma end_call_gas: "fst (snd r) \<le> gas \<Longrightarrow> triple (\<lambda>_. True) (end_call sn r) (at_most gas)"
  unfolding end_call_def
  by (cases r) (auto simp: triple_def sbind_def sret_def split: option.splits prod.splits result.splits)

lemma RunPrecompiledContract_gas: "RunPrecompiledContract p input gas = Ok r \<Longrightarrow> fst (snd r) \<le> gas"
  by (auto simp: RunPrecompiledContract_def Let_def rbind_Ok_iff word_sub_le_iff split: if_splits)

lemma NewContract_gas: "triple P (NewContract caller self v gas) (\<lambda>c _. Gas c = gas)"
  by (auto simp: triple_def NewContract_def sbind_def supd_def sret_def split: ContractRef.splits)

text \<open>What the price of a call has set aside for it: the gas handed on and, with a value, the stipend.\<close>

definition call_room :: "nat \<Rightarrow> vm \<Rightarrow> bool" where
  "call_room k s \<longleftrightarrow> unat (callGasTemp (ev s)) \<le> k \<and>
     (2 < length (stack s) \<longrightarrow> unat (callGasTemp (ev s)) + (if stack s ! 2 \<noteq> 0 then 2300 else 0) \<le> k)"

locale metered_runner =
  fixes run :: runner and m :: nat
  assumes run_returns: "unat (Gas c) < m \<Longrightarrow>
    \<exists>r e'. run c inp ro e = Some (r, e') \<and> (\<forall>ret c'. r = Ok (ret, c') \<longrightarrow> Gas c' \<le> Gas c)"
begin

lemma pspec_run: "unat (Gas c) < m \<Longrightarrow> pspec (\<lambda>_. True) (run c inp ro) (\<lambda>(ret, c') _. Gas c' \<le> Gas c)"
  using run_returns [of c inp ro] by (auto simp: pspec_def)

lemma pspec_run_code: "unat gas < m \<Longrightarrow> Gas c = gas \<Longrightarrow> pspec P (run_code run c inp ro) (at_most gas)"
  unfolding run_code_def
  by (rule pspec_pbind [where R = "\<lambda>(ret, c') _. Gas c' \<le> Gas c"], rule pspec_conseq [OF pspec_run])
    (auto intro: pspec_pret)

lemma pspec_precompiled: "pspec P (pdo (run_precompiled p input gas)) (at_most gas)"
  unfolding run_precompiled_def by (rule pspec_pdo, rule triple_slift) (rule RunPrecompiledContract_gas)

lemma pspec_end:
  "pspec (at_most gas r) (pbind (pdo (end_call sn r)) (\<lambda>r. pbind (pdo (x r)) (\<lambda>_. pret r))) (at_most gas)"
proof (rule pspec_at)
  fix e assume "at_most gas r e"
  then have "pspec (\<lambda>_. True) (pdo (end_call sn r)) (at_most gas)" by (intro pspec_pdo end_call_gas)
  then have "pspec (\<lambda>t. t = e) (pdo (end_call sn r)) (at_most gas)" by (rule pspec_conseq) auto
  then show "pspec (\<lambda>t. t = e) (pbind (pdo (end_call sn r)) (\<lambda>r. pbind (pdo (x r)) (\<lambda>_. pret r))) (at_most gas)"
  proof (rule pspec_pbind)
    fix r' :: "bytes \<times> u64 \<times> vmerr option"
    show "pspec (at_most gas r') (pbind (pdo (x r')) (\<lambda>_. pret r')) (at_most gas)"
      by (rule pspec_at, rule pspec_then) (auto intro: pspec_pret)
  qed
qed

lemma Call_gas:
  assumes "unat gas < m"
  shows "pspec P (Call C run caller addr input gas v) (at_most gas)"
proof -
  have c: "pspec Q (pbind (pdo (NewContract caller a v' gas)) (\<lambda>c. run_code run (SetCallCode h code c) i ro)) (at_most gas)" for Q a v' h code i ro
    by (rule pspec_pbind [OF pspec_pdo [OF NewContract_gas]], rule pspec_at) (rule pspec_run_code, use assms in \<open>auto simp: SetCallCode_def\<close>)
  show ?thesis
    unfolding Call_def Let_def
    by (auto intro!: pspec_then pspec_pret pspec_pbind [OF _ pspec_end] pspec_precompiled c split: option.split prod.split)
qed

lemma call_with_gas:
  assumes "unat gas < m" "\<And>c c'. as c = Ok c' \<Longrightarrow> Gas c' = Gas c"
  shows "pspec P (call_with C run caller self as addr input gas v ro) (at_most gas)"
proof -
  have r: "pspec (\<lambda>_. Gas c = gas) (pbind (pdo (sget g)) (\<lambda>(code, hash). run_code run (SetCallCode hash code c) input ro)) (at_most gas)" for c g
    by (rule pspec_at, rule pspec_then) (use assms(1) in \<open>auto intro: pspec_run_code simp: SetCallCode_def\<close>)
  have a: "pspec (\<lambda>_. Gas c = gas) (pdo (slift (as c))) (\<lambda>c' _. Gas c' = gas)" for c
    by (rule pspec_pdo, rule triple_slift) (use assms(2) in auto)
  show ?thesis
    unfolding call_with_def
    by (auto intro!: pspec_then [of _ _ _ "sget _"] pspec_pbind [OF _ pspec_end] pspec_precompiled
        pspec_pbind [OF pspec_pdo [OF NewContract_gas]] pspec_pbind [OF a r] split: option.split)
qed

lemma other_calls_gas:
  assumes "unat gas < m"
  shows "pspec P (CallCode C run caller addr input gas v) (at_most gas)"
    "pspec P (DelegateCall C run caller addr input gas) (at_most gas)"
    "pspec P (StaticCall C run caller addr input gas) (at_most gas)"
  unfolding CallCode_def DelegateCall_def StaticCall_def
  by (auto intro!: pspec_then pspec_pret call_with_gas assms pspec_pdo triple_slift triple_sret simp: AsDelegate_def
      split: option.split ContractRef.splits)

abbreviation created :: "u64 \<Rightarrow> bytes \<times> Address \<times> u64 \<times> vmerr option \<Rightarrow> evm \<Rightarrow> bool" where
  "created gas r e \<equiv> fst (snd (snd r)) \<le> gas"

lemma UseGas_le: "Gas (snd (UseGas g c)) \<le> Gas c"
  by (auto simp: UseGas_def word_sub_le_iff)

lemma store_code_gas: "triple P (store_code C a ret err c) (\<lambda>(err, c') _. Gas c' \<le> Gas c)"
  using UseGas_le [of "len64 ret * 200" c]
  by (auto simp: store_code_def triple_def sret_def sbind_def split: prod.splits bool.splits result.splits if_splits)

lemma end_create_gas: "triple P (end_create C sn err c) (\<lambda>c' _. Gas c' \<le> Gas c)"
  using UseGas_le [of "Gas c" c]
  by (auto simp: end_create_def triple_def sret_def sbind_def split: prod.splits result.splits if_splits)

lemma create_gas:
  assumes "unat gas < m"
  shows "pspec P (create C run caller code hash gas address) (created gas)"
proof -
  have fin: "pspec (\<lambda>_. Gas c \<le> gas) (pbind (pdo x) (\<lambda>_. pret (ret, address, Gas c, err))) (created gas)" for c ret err x
    by (rule pspec_at, rule pspec_then) (auto intro: pspec_pret)
  have e: "pspec (\<lambda>_. Gas c \<le> gas) (pdo (end_create C sn err c)) (\<lambda>c' _. Gas c' \<le> gas)" for sn err c
    by (rule pspec_at, rule pspec_conseq [OF pspec_pdo [OF end_create_gas]]) auto
  have st: "pspec (\<lambda>_. Gas c \<le> gas) (pdo (store_code C a ret err c)) (\<lambda>(err, c') _. Gas c' \<le> gas)" for a ret err c
    by (rule pspec_at, rule pspec_conseq [OF pspec_pdo [OF store_code_gas]]) auto
  have r: "pspec (\<lambda>_. Gas c = gas) (run (SetCallCode h code c) [] False) (\<lambda>(ret, c') _. Gas c' \<le> gas)" for c h
    by (rule pspec_at, rule pspec_conseq [OF pspec_run]) (use assms in \<open>auto simp: SetCallCode_def\<close>)
  show ?thesis
    unfolding create_def Let_def
    by (auto intro!: pspec_then [of _ _ _ "sget _"] pspec_then [of _ _ _ "in_db _"] pspec_then [of _ _ _ "sret ()"] pspec_pret
        pspec_pbind [OF pspec_pdo [OF NewContract_gas]] pspec_pbind [OF r] pspec_pbind [OF st] pspec_pbind [OF e fin] split: prod.splits)
qed

lemma Creates_gas:
  assumes "unat gas < m"
  shows "pspec P (Create C run caller code gas v nonce) (created gas)" "pspec P (Create2 C run caller code gas salt) (created gas)"
  unfolding Create_def Create2_def Let_def by (rule create_gas [OF assms])+

text \<open>The instructions around a call or a creation: what comes back is added to what the caller has kept.\<close>

lemma pspec_with_self:
  assumes "\<And>self. pspec (\<lambda>_. True) (f self) (\<lambda>r _. Q r)"
  shows "pspec (\<lambda>s. Gas (contract s) = G) (with_self f) (\<lambda>r s. Q r \<and> Gas (contract s) = G)"
proof (rule pspecI)
  fix s :: vm assume "Gas (contract s) = G"
  moreover obtain r e where "f (ContractRef (contract s)) (ev s) = Some (r, e)" "\<And>x. r = Ok x \<Longrightarrow> Q x"
    using assms [of "ContractRef (contract s)"] by (rule pspecE) auto
  ultimately show "\<exists>r s'. with_self f s = Some (r, s') \<and> (\<forall>x. r = Ok x \<longrightarrow> Q x \<and> Gas (contract s') = G)"
    by (auto simp: with_self_def in_ev_def)
qed

lemma add_gas_bound: "unat G + unat g \<le> k \<Longrightarrow> k < 2 ^ 64 \<Longrightarrow> unat (G + g :: u64) \<le> k"
  by (simp add: unat_word_ariths)

lemma end_op_call_gas:
  assumes "Gas (contract s) = G" "unat G + unat g \<le> k" "k < 2 ^ 64" "end_op_call a b (ret, g, err) s = (Ok x, s')"
  shows "unat (Gas (contract s')) \<le> k"
  using assms add_gas_bound [OF assms(2,3)]
  by (auto simp: end_op_call_def sbind_def push_def supd_def sread_eq add_gas_def set_returnData_def sret_def split: result.splits if_splits)

lemma call_tail:
  assumes "\<And>self. pspec (\<lambda>_. True) (F self) (\<lambda>r _. unat (fst (snd r)) \<le> k)" "unat G + k < 2 ^ 64"
  shows "pspec (\<lambda>s. Gas (contract s) = G) (pbind (with_self F) (\<lambda>r. pdo (end_op_call a b r))) (\<lambda>_ s. unat (Gas (contract s)) \<le> unat G + k)"
proof (rule pspec_pbind [OF pspec_with_self [OF assms(1)]])
  fix r :: "bytes \<times> u64 \<times> vmerr option"
  obtain ret g err where r: "r = (ret, g, err)" by (cases r)
  show "pspec (\<lambda>s. unat (fst (snd r)) \<le> k \<and> Gas (contract s) = G) (pdo (end_op_call a b r)) (\<lambda>_ s. unat (Gas (contract s)) \<le> unat G + k)"
    by (rule pspec_pdo) (use assms(2) end_op_call_gas [of _ G g "unat G + k"] in \<open>auto simp: triple_def r\<close>)
qed

lemma call_stipend: "unat t + (if v \<noteq> 0 then 2300 else 0) \<le> k \<Longrightarrow> k < 2 ^ 64 \<Longrightarrow>
  unat (if v \<noteq> 0 then t + 2300 else t :: u64) \<le> k" for v :: u256
  by (auto simp: unat_word_ariths)

lemma Call_at_most: "unat gas < m \<Longrightarrow> unat gas \<le> k \<Longrightarrow> pspec P (Call C run caller addr input gas v) (\<lambda>r _. unat (fst (snd r)) \<le> k)"
  by (rule pspec_conseq [OF Call_gas]) (auto simp: word_le_nat_alt)

lemma other_calls_at_most:
  assumes "unat gas < m" "unat gas \<le> k"
  shows "pspec P (CallCode C run caller addr input gas v) (\<lambda>r _. unat (fst (snd r)) \<le> k)"
    "pspec P (DelegateCall C run caller addr input gas) (\<lambda>r _. unat (fst (snd r)) \<le> k)"
    "pspec P (StaticCall C run caller addr input gas) (\<lambda>r _. unat (fst (snd r)) \<le> k)"
  by (rule pspec_conseq [OF other_calls_gas(1)] pspec_conseq [OF other_calls_gas(2)] pspec_conseq [OF other_calls_gas(3)];
      use assms in \<open>auto simp: word_le_nat_alt\<close>)+

lemma call_tail_at:
  assumes "\<And>self. pspec (\<lambda>_. True) (F self) (\<lambda>r _. unat (fst (snd r)) \<le> k)" "unat G + k < 2 ^ 64" "Gas (contract t) = G"
  shows "ends (\<lambda>s. unat (Gas (contract s)) \<le> unat G + k) (pbind (with_self F) (\<lambda>r. pdo (end_op_call a b r)) t)"
proof -
  have "pspec (\<lambda>s. Gas (contract s) = G) (pbind (with_self F) (\<lambda>r. pdo (end_op_call a b r))) (\<lambda>_ s. unat (Gas (contract s)) \<le> unat G + k)"
    by (rule call_tail) (rule assms)+
  then show ?thesis using assms(3) unfolding pspec_ends by blast
qed

lemma opCall_gas:
  assumes "k < m" "unat G + k < 2 ^ 64"
  shows "pspec (\<lambda>s. Gas (contract s) = G \<and> call_room k s) (opCall C run) (\<lambda>_ s. unat (Gas (contract s)) \<le> unat G + k)"
    "pspec (\<lambda>s. Gas (contract s) = G \<and> call_room k s) (opCallCode C run) (\<lambda>_ s. unat (Gas (contract s)) \<le> unat G + k)"
proof -
  have room: "unat (if v \<noteq> 0 then callGasTemp (ev s) + 2300 else callGasTemp (ev s)) \<le> k"
    if "call_room k s" "stack s = z1 # z2 # v # zs" for v :: u256 and s z1 z2 zs
    using call_stipend [of "callGasTemp (ev s)" v k] that assms(2) by (auto simp: call_room_def)
  show "pspec (\<lambda>s. Gas (contract s) = G \<and> call_room k s) (opCall C run) (\<lambda>_ s. unat (Gas (contract s)) \<le> unat G + k)"
  proof (unfold pspec_ends, intro allI impI)
    fix s assume s: "Gas (contract s) = G \<and> call_room k s"
    have tail: "ends (\<lambda>s. unat (Gas (contract s)) \<le> unat G + k)
        (pbind (with_self (\<lambda>self. Call C run self ad args (if v \<noteq> 0 then callGasTemp (ev s) + 2300 else callGasTemp (ev s)) w))
        (\<lambda>r. pdo (end_op_call a b r)) t)"
      if "Gas (contract t) = G" "stack s = z1 # z2 # v # zs" for ad args w a b t and v :: u256 and z1 z2 zs
      by (rule call_tail_at) (use room [of s z1 z2 v zs] s that assms in \<open>auto intro!: Call_at_most\<close>)
    show "ends (\<lambda>s. unat (Gas (contract s)) \<le> unat G + k) (opCall C run s)"
      unfolding opCall_def call_args_def
      using s tail by (auto simp: run_simps fail_def split: list.split result.split)
  qed
  show "pspec (\<lambda>s. Gas (contract s) = G \<and> call_room k s) (opCallCode C run) (\<lambda>_ s. unat (Gas (contract s)) \<le> unat G + k)"
  proof (unfold pspec_ends, intro allI impI)
    fix s assume s: "Gas (contract s) = G \<and> call_room k s"
    have tail: "ends (\<lambda>s. unat (Gas (contract s)) \<le> unat G + k)
        (pbind (with_self (\<lambda>self. CallCode C run self ad args (if v \<noteq> 0 then callGasTemp (ev s) + 2300 else callGasTemp (ev s)) w))
        (\<lambda>r. pdo (end_op_call a b r)) t)"
      if "Gas (contract t) = G" "stack s = z1 # z2 # v # zs" for ad args w a b t and v :: u256 and z1 z2 zs
      by (rule call_tail_at) (use room [of s z1 z2 v zs] s that assms in \<open>auto intro!: other_calls_at_most\<close>)
    show "ends (\<lambda>s. unat (Gas (contract s)) \<le> unat G + k) (opCallCode C run s)"
      unfolding opCallCode_def call_args_def
      using s tail by (auto simp: run_simps split: list.split result.split)
  qed
qed

lemma opDelegateCall_gas:
  assumes "k < m" "unat G + k < 2 ^ 64"
  shows "pspec (\<lambda>s. Gas (contract s) = G \<and> unat (callGasTemp (ev s)) \<le> k) (opDelegateCall C run) (\<lambda>_ s. unat (Gas (contract s)) \<le> unat G + k)"
    "pspec (\<lambda>s. Gas (contract s) = G \<and> unat (callGasTemp (ev s)) \<le> k) (opStaticCall C run) (\<lambda>_ s. unat (Gas (contract s)) \<le> unat G + k)"
  using assms unfolding opDelegateCall_def opStaticCall_def call_args_def
  by (auto simp: run_simps pspec_ends intro!: call_tail_at other_calls_at_most split: list.split result.split)

lemma end_creation_gas:
  assumes "unat (Gas (contract s)) + unat g \<le> k" "k < 2 ^ 64" "end_creation b (ret, a, g, err) s = (Ok x, s')"
  shows "unat (Gas (contract s')) \<le> k"
  using assms add_gas_bound [OF assms(1,2)]
  by (auto simp: end_creation_def sbind_def push_def supd_def add_gas_def set_returnData_def nothing_def sret_def split: if_splits)

lemma create_tail:
  assumes F: "\<And>self. pspec (\<lambda>_. True) (F self) (created gas)" and t: "gas \<le> Gas (contract t)"
  shows "ends (\<lambda>s. unat (Gas (contract s)) \<le> unat (Gas (contract t))) (pbind (pdo (use_gas gas)) (\<lambda>_.
    pbind (with_self F) (\<lambda>(res, addr, g, err). pdo (end_creation (b err) (res, addr, g, err)))) t)"
proof -
  define t' where "t' = t\<lparr>contract := (contract t)\<lparr>Gas := Gas (contract t) - gas\<rparr>\<rparr>"
  have u: "use_gas gas t = (Ok True, t')" using t by (simp add: use_gas_def UseGas_def t'_def)
  have g': "unat (Gas (contract t')) + unat gas = unat (Gas (contract t))"
    using t by (simp add: t'_def unat_sub word_le_nat_alt)
  have k: "unat (Gas (contract t)) < 2 ^ 64" using unsigned_less [of "Gas (contract t)", where 'a = nat] by simp
  have ws: "pspec (\<lambda>s. Gas (contract s) = Gas (contract t')) (with_self F) (\<lambda>r s. fst (snd (snd r)) \<le> gas \<and> Gas (contract s) = Gas (contract t'))"
    by (rule pspec_with_self) (rule F)
  have "pspec (\<lambda>s. Gas (contract s) = Gas (contract t')) (pbind (with_self F) (\<lambda>(res, addr, g, err). pdo (end_creation (b err) (res, addr, g, err))))
    (\<lambda>_ s. unat (Gas (contract s)) \<le> unat (Gas (contract t)))"
    by (rule pspec_pbind [OF ws])
      (use g' k in \<open>auto intro!: pspec_pdo tripleI elim!: end_creation_gas [rotated 2] simp: word_le_nat_alt split: prod.split\<close>)
  then show ?thesis using u by (simp add: pbind_pdo pspec_ends)
qed

lemma div64_le: "x - x div 64 \<le> (x :: u64)"
proof -
  have "x div 64 \<le> x" by (simp add: word_le_nat_alt unat_div)
  then show ?thesis by (simp add: word_sub_le)
qed

lemma opCreate_gas:
  assumes "unat G < m"
  shows "pspec (\<lambda>s. Gas (contract s) = G) (opCreate C run) (\<lambda>_ s. unat (Gas (contract s)) \<le> unat G)"
    "pspec (\<lambda>s. Gas (contract s) = G) (opCreate2 C run) (\<lambda>_ s. unat (Gas (contract s)) \<le> unat G)"
proof -
  have g: "unat (G - G div 64) < m" using div64_le [of G] assms by (simp add: word_le_nat_alt)
  have t1: "ends (\<lambda>s. unat (Gas (contract s)) \<le> unat H) (pbind (pdo (use_gas gas)) (\<lambda>_.
      pbind (with_self (\<lambda>self. Create C run self i gas v n)) (\<lambda>(res, addr, g, err). pdo (end_creation (b err) (res, addr, g, err)))) t)"
    if "gas = H \<or> gas = H - H div 64" "Gas (contract t) = H" "H = G" for gas i v n b t H
    using create_tail [of "\<lambda>self. Create C run self i gas v n" gas t b] Creates_gas(1) g assms div64_le [of G] that by auto
  have t2: "ends (\<lambda>s. unat (Gas (contract s)) \<le> unat H) (pbind (pdo (use_gas gas)) (\<lambda>_.
      pbind (with_self (\<lambda>self. Create2 C run self i gas v)) (\<lambda>(res, addr, g, err). pdo (end_creation (b err) (res, addr, g, err)))) t)"
    if "gas = H - H div 64" "Gas (contract t) = H" "H = G" for gas i v b t H
    using create_tail [of "\<lambda>self. Create2 C run self i gas v" gas t b] Creates_gas(2) g assms div64_le [of G] that by auto
  show "pspec (\<lambda>s. Gas (contract s) = G) (opCreate C run) (\<lambda>_ s. unat (Gas (contract s)) \<le> unat G)"
    unfolding opCreate_def pguarded_def Let_def pspec_ends
    by (auto simp: run_simps fail_def intro!: t1 split: list.split result.split)
  show "pspec (\<lambda>s. Gas (contract s) = G) (opCreate2 C run) (\<lambda>_ s. unat (Gas (contract s)) \<le> unat G)"
    unfolding opCreate2_def pguarded_def Let_def pspec_ends
    by (auto simp: run_simps fail_def intro!: t2 split: list.split result.split)
qed

end

section \<open>Prices\<close>

lemma checked_u64_Ok: "checked_u64 p s = (Ok x, s') \<longleftrightarrow> \<not> snd p \<and> x = fst p \<and> s' = s"
  by (auto simp: checked_u64_def serr_def sret_def)

lemma SafeAdd_Ok: "\<not> snd (SafeAdd x y) \<Longrightarrow> unat (fst (SafeAdd x y)) = unat x + unat y"
proof -
  assume "\<not> snd (SafeAdd x y)"
  then have "int (unat x + unat y) < int (2 ^ 64)" by (simp add: SafeAdd_def)
  then have "unat x + unat y < 2 ^ 64" by (simp only: of_nat_less_iff)
  then show ?thesis by (simp add: SafeAdd_def unat_word_ariths)
qed

lemma sread_bind_Ok: "sbind (sread f) g s = (Ok x, s') \<longleftrightarrow> (\<exists>y. f s = Ok y \<and> g y s = (Ok x, s'))"
  by (auto simp: sbind_def sread_eq split: result.splits)

lemma sget_bind: "sbind (sget f) g s = g (f s) s"
  by (simp add: sbind_def sget_def)

lemma call_share_Ok:
  assumes "call_share C gas s = (Ok c, s')"
  shows "stack s' = stack s" "unat c = unat gas + unat (callGasTemp (ev s'))"
  using assms SafeAdd_Ok [of gas]
  by (auto simp: call_share_def sread_bind_Ok supd_def sbind_def [of "supd _"] checked_u64_Ok)

lemma keeps_stack_memoryGasCost: "keeps stack (memoryGasCost n)"
proof -
  have "keeps stack (supd (\<lambda>s. s\<lparr>mem := f s\<rparr>))" for f by (simp add: keeps_def supd_def)
  then show ?thesis by (auto simp: memoryGasCost_def Let_def intro!: effects)
qed

lemma memoryGasCost_stack: "memoryGasCost n s = (r, s') \<Longrightarrow> stack s' = stack s"
  by (rule keepsD [OF keeps_stack_memoryGasCost])

lemma EIP2929_Ok: "makeCallVariantGasCallEIP2929 old C n s = (Ok c, s') \<Longrightarrow> old C n s = (Ok c, s')"
  by (auto simp: makeCallVariantGasCallEIP2929_def AddressInAccessList_def sread_eq sget_bind Let_def
      sbind_def sret_def sget_def split: prod.splits result.splits)

text \<open>The last steps of the price of a call: the price of the value and of the memory, and what is handed on.\<close>

lemma shared_price:
  assumes "sbind (checked_u64 (SafeAdd g mg)) (call_share C) t = (Ok c, s')"
  shows "stack s' = stack t \<and> unat c = unat g + unat mg + unat (callGasTemp (ev s'))"
  using assms SafeAdd_Ok [of g mg] by (auto simp: checked_u64_Ok elim!: sbind_OkE dest: call_share_Ok)

lemma gasCall_room: "gasCall C n s = (Ok c, s') \<Longrightarrow> call_room (unat c) s'"
  by (auto simp: gasCall_def sread_bind_Ok sget_bind Let_def call_room_def Back_def split: if_splits
      elim!: sbind_OkE [of "memoryGasCost n"] dest!: shared_price memoryGasCost_stack)

lemma gasCallCode_room: "gasCallCode C n s = (Ok c, s') \<Longrightarrow> call_room (unat c) s'"
  by (auto simp: gasCallCode_def sread_bind_Ok call_room_def Back_def split: if_splits
      elim!: sbind_OkE [of "memoryGasCost n"] dest!: shared_price memoryGasCost_stack)

lemma gasDelegateCall_room:
  "gasDelegateCall C n s = (Ok c, s') \<Longrightarrow> unat (callGasTemp (ev s')) \<le> unat c"
  "gasStaticCall C n s = (Ok c, s') \<Longrightarrow> unat (callGasTemp (ev s')) \<le> unat c"
  by (auto simp: gasDelegateCall_def gasStaticCall_def dest!: call_share_Ok(2) elim!: sbind_OkE)

section \<open>Rounds of the loop\<close>

lemma use_gas_eq: "use_gas g s = (if Gas (contract s) < g then (Ok False, s)
   else (Ok True, s\<lparr>contract := (contract s)\<lparr>Gas := Gas (contract s) - g\<rparr>\<rparr>))"
  by (simp add: use_gas_def UseGas_def)

text \<open>What a paid round leaves: the price taken from the gas, and the frames of the price as they were.\<close>

lemma charge_dynamic_None:
  assumes "charge_dynamic C e s = (Ok None, s')"
  obtains "dynamicGas e = None" "s' = s"
  | g n c t where "dynamicGas e = Some g" "g C n s = (Ok c, t)" "c \<le> Gas (contract t)"
      "s' = t\<lparr>contract := (contract t)\<lparr>Gas := Gas (contract t) - c\<rparr>, mem := Resize n (mem t)\<rparr> \<or>
       s' = t\<lparr>contract := (contract t)\<lparr>Gas := Gas (contract t) - c\<rparr>\<rparr>"
proof (cases "dynamicGas e")
  case None
  then show thesis using assms that(1) by (simp add: charge_dynamic_def sret_def)
next
  case (Some g)
  obtain n where n: "sbind (scatch (g C n)) (\<lambda>r. case r of
         Ok dynamicCost \<Rightarrow>
           sbind (use_gas dynamicCost) (\<lambda>ok.
           if \<not> ok then sret (Some ErrOutOfGas)
           else sbind (supd (\<lambda>s. if n > 0 then s\<lparr>mem := Resize n (mem s)\<rparr> else s)) (\<lambda>_. sret None))
       | _ \<Rightarrow> sret (Some ErrOutOfGas)) s = (Ok None, s')"
    using assms Some by (auto simp: charge_dynamic_def sread_bind_Ok sret_def split: if_splits)
  then show thesis
    using Some that(2) [of g n]
    by (auto simp: sbind_def scatch_def sret_def supd_def use_gas_eq split: prod.splits result.splits if_splits)
qed

definition rounds :: "u64 \<Rightarrow> (vmret option result \<times> vm) option \<Rightarrow> bool" where
  "rounds G r = (case r of
     None \<Rightarrow> False
   | Some (Ok None, s) \<Rightarrow> Gas (contract s) < G
   | Some (Ok (Some _), s) \<Rightarrow> Gas (contract s) \<le> G
   | Some (_, s) \<Rightarrow> True)"

lemma rounds_pret: "rounds G (pret (Some x) s) \<longleftrightarrow> Gas (contract s) \<le> G"
  by (simp add: rounds_def pdo_def sret_def)

lemma gas_keeps_meter: "dynamicGas (GetGenericJumpTable op) = Some g \<Longrightarrow> g C n s = (r, t) \<Longrightarrow> Gas (contract t) = Gas (contract s)"
  using meter.gas_keeps_table [of C op] by (auto simp: gas_keeps_def meter_def dest!: spec [of _ n] keepsD)

lemma charge_dynamic_le:
  assumes "gas_keeps meter C e" "charge_dynamic C e s = (Ok x, s')"
  shows "Gas (contract s') \<le> Gas (contract s)"
proof (cases "dynamicGas e")
  case (Some g)
  have k: "Gas (contract t) = Gas (contract s)" if "g C n s = (r, t)" for n r t
    using assms(1) Some that by (auto simp: gas_keeps_def meter_def dest!: spec [of _ n] keepsD)
  then show ?thesis
    using assms(2) Some
    by (auto simp: charge_dynamic_def sread_bind_Ok sbind_def [of "scatch _"] sbind_def [of "use_gas _"] sbind_def [of "supd _"] scatch_def
        sret_def supd_def use_gas_eq word_sub_le_iff not_less dest!: k split: prod.splits result.splits if_splits)
qed (use assms(2) in \<open>simp add: charge_dynamic_def sret_def\<close>)

lemma perform_rounds:
  assumes keeps: "gas_keeps meter C e" and G: "Gas (contract s) = G"
    and exec: "\<And>s1 s2. constantGas e \<le> G \<Longrightarrow> Gas (contract s1) = G - constantGas e \<Longrightarrow> charge_dynamic C e s1 = (Ok None, s2) \<Longrightarrow>
      \<exists>r s3. run_operation (execute e) C run s2 = Some (r, s3) \<and>
        (\<forall>res err. r = Ok (res, err) \<longrightarrow> Gas (contract s3) \<le> G \<and> (err = None \<longrightarrow> Gas (contract s3) < G))"
  shows "rounds G (perform C e run s)"
proof (cases "G < constantGas e")
  case True
  then show ?thesis using G by (simp add: perform_def pbind_pdo use_gas_eq rounds_def pdo_def sret_def)
next
  case False
  define s1 where "s1 = s\<lparr>contract := (contract s)\<lparr>Gas := G - constantGas e\<rparr>\<rparr>"
  have s1: "Gas (contract s1) = G - constantGas e" "G - constantGas e \<le> G" using False by (simp_all add: s1_def word_sub_le_iff not_less)
  obtain r s2 where r: "charge_dynamic C e s1 = (r, s2)" by (cases "charge_dynamic C e s1")
  have p: "perform C e run s = pbind (pdo (charge_dynamic C e)) (\<lambda>charged. case charged of
       Some e \<Rightarrow> pret (Some ([], Some e))
     | None \<Rightarrow> pbind (run_operation (execute e) C run) (\<lambda>(res, err). case err of
           None \<Rightarrow> pbind (pdo (supd (\<lambda>s. s\<lparr>pc := pc s + 1\<rparr>))) (\<lambda>_. pret None)
         | Some e \<Rightarrow> pret (Some (res, Some e)))) s1"
    using False G by (simp add: perform_def pbind_pdo use_gas_eq s1_def)
  show ?thesis
  proof (cases "r = Ok None")
    case True
    then obtain r3 s3 where "run_operation (execute e) C run s2 = Some (r3, s3)"
      "\<And>res err. r3 = Ok (res, err) \<Longrightarrow> Gas (contract s3) \<le> G \<and> (err = None \<longrightarrow> Gas (contract s3) < G)"
      using exec [of s1 s2] False s1(1) r by (auto simp: not_less)
    then show ?thesis
      using r True unfolding p
      by (cases r3) (auto simp: pbind_pdo pbind_def [of "run_operation _ _ _"] rounds_def pdo_def sret_def supd_def split: option.splits)
  next
    case False
    have "Gas (contract s2) \<le> G" if "r = Ok x" for x
      using charge_dynamic_le [OF keeps, of s1 x s2] r that s1 by simp
    then show ?thesis
      using r False unfolding p by (cases r) (auto simp: pbind_pdo rounds_def pdo_def sret_def split: option.split)
  qed
qed

text \<open>An instruction that calls no contract costs something, or it ends the run.\<close>

definition never_goes_on :: "vmop \<Rightarrow> bool" where
  "never_goes_on f \<longleftrightarrow> (\<forall>s res s'. f s \<noteq> (Ok (res, None), s'))"

definition costs :: "vmctx \<Rightarrow> gasFunc \<Rightarrow> bool" where
  "costs C g \<longleftrightarrow> (\<forall>n s c s'. g C n s = (Ok c, s') \<longrightarrow> c \<noteq> 0)"

definition pays :: "vmctx \<Rightarrow> operation \<Rightarrow> bool" where
  "pays C e \<longleftrightarrow> constantGas e \<noteq> 0 \<or> (case dynamicGas e of Some g \<Rightarrow> costs C g | None \<Rightarrow> False) \<or>
     (case execute e of Plain f \<Rightarrow> never_goes_on (f C) | Calling _ \<Rightarrow> False)"

lemma word_less_sub: "c \<noteq> 0 \<Longrightarrow> c \<le> G \<Longrightarrow> G - c < (G :: u64)"
proof -
  assume "c \<noteq> 0" "c \<le> G"
  moreover from this(1) have "0 < unat c" by (simp add: unat_gt_0)
  ultimately show ?thesis by (simp add: word_less_nat_alt word_le_nat_alt unat_sub)
qed

lemma charged_gas:
  assumes "gas_keeps meter C e" "charge_dynamic C e s = (Ok None, s')"
  shows "Gas (contract s') \<le> Gas (contract s) \<and>
    ((case dynamicGas e of Some g \<Rightarrow> costs C g | None \<Rightarrow> False) \<longrightarrow> Gas (contract s') < Gas (contract s))"
  using assms(2)
proof (cases rule: charge_dynamic_None)
  case (2 g n c t)
  have k: "Gas (contract t) = Gas (contract s)"
    using assms(1) 2 by (auto simp: gas_keeps_def meter_def dest!: spec [of _ n] keepsD)
  have "c \<noteq> 0" if "costs C g" using that 2 unfolding costs_def by blast
  then show ?thesis using 2 k word_less_sub [of c "Gas (contract s)"] by (auto simp: word_sub_le_iff)
qed simp

lemma plain_rounds:
  assumes "execute e = Plain f" "plain_keeps meter C e" "gas_keeps meter C e" "pays C e" "Gas (contract s) = G"
  shows "rounds G (perform C e run s)"
proof (rule perform_rounds [OF assms(3,5)])
  fix s1 s2 assume *: "constantGas e \<le> G" "Gas (contract s1) = G - constantGas e" "charge_dynamic C e s1 = (Ok None, s2)"
  obtain r s3 where r: "f C s2 = (r, s3)" by (cases "f C s2")
  have g3: "Gas (contract s3) = Gas (contract s2)" using assms(1,2) r by (auto simp: plain_keeps_def meter_def dest: keepsD)
  have le: "G - constantGas e \<le> G" using *(1) by (simp add: word_sub_le_iff)
  have "Gas (contract s3) < G" if "r = Ok (res, None)" for res
  proof -
    from assms(4) consider "constantGas e \<noteq> 0" | "case dynamicGas e of Some g \<Rightarrow> costs C g | None \<Rightarrow> False" | "never_goes_on (f C)"
      using assms(1) by (auto simp: pays_def)
    then show ?thesis
    proof cases
      case 1
      then show ?thesis using word_less_sub [OF 1 *(1)] charged_gas [OF assms(3) *(3)] *(2) g3 by auto
    next
      case 2
      then show ?thesis using charged_gas [OF assms(3) *(3)] *(2) g3 le by auto
    next
      case 3
      then show ?thesis using r that unfolding never_goes_on_def by blast
    qed
  qed
  moreover have "Gas (contract s3) \<le> G" using charged_gas [OF assms(3) *(3)] *(2) g3 le by auto
  ultimately show "\<exists>r s3. run_operation (execute e) C run s2 = Some (r, s3) \<and>
      (\<forall>res err. r = Ok (res, err) \<longrightarrow> Gas (contract s3) \<le> G \<and> (err = None \<longrightarrow> Gas (contract s3) < G))"
    using r assms(1) by (auto simp: pdo_def)
qed

context metered_runner
begin

lemma calling_rounds:
  assumes e: "execute e = Calling f" "dynamicGas e = Some g" "constantGas e \<noteq> 0" "gas_keeps meter C e"
    and room: "\<And>n t c t'. g C n t = (Ok c, t') \<Longrightarrow> room (unat c) t'"
      "\<And>k s c. room k s \<Longrightarrow> room k (s\<lparr>contract := c\<rparr>)" "\<And>k s c mm. room k s \<Longrightarrow> room k (s\<lparr>contract := c, mem := mm\<rparr>)"
    and spec: "\<And>k G. k < m \<Longrightarrow> unat G + k < 2 ^ 64 \<Longrightarrow>
      pspec (\<lambda>s. Gas (contract s) = G \<and> room k s) (f C run) (\<lambda>_ s. unat (Gas (contract s)) \<le> unat G + k)"
    and G: "Gas (contract s) = G" "unat G \<le> m"
  shows "rounds G (perform C e run s)"
proof (rule perform_rounds [OF e(4) G(1)])
  fix s1 s2 assume *: "constantGas e \<le> G" "Gas (contract s1) = G - constantGas e" "charge_dynamic C e s1 = (Ok None, s2)"
  from *(3) e(2) obtain n c t where c: "g C n s1 = (Ok c, t)" "c \<le> Gas (contract t)" "Gas (contract s2) = Gas (contract t) - c" "room (unat c) s2"
  proof (cases rule: charge_dynamic_None)
    case (2 g' n c t)
    then have "room (unat c) t" using e(2) room(1) by simp
    then have "room (unat c) s2" using 2(4) room(2,3) by auto
    moreover have "Gas (contract s2) = Gas (contract t) - c" using 2(4) by auto
    ultimately show thesis using that [of n c t] 2 e(2) by simp
  qed (use e(2) in simp)
  have t: "Gas (contract t) = G - constantGas e"
    using e(2,4) c(1) *(2) by (auto simp: gas_keeps_def meter_def dest!: spec [of _ n] keepsD)
  have lt: "unat (G - constantGas e) < unat G" using word_less_sub [OF e(3) *(1)] by (simp add: word_less_nat_alt)
  have sum: "unat (Gas (contract s2)) + unat c = unat (G - constantGas e)"
    using c(2,3) t by (simp add: word_le_nat_alt unat_sub)
  moreover have "unat G < 2 ^ 64" using unsigned_less [of G, where 'a = nat] by simp
  ultimately have "pspec (\<lambda>s. Gas (contract s) = Gas (contract s2) \<and> room (unat c) s) (f C run)
      (\<lambda>_ s. unat (Gas (contract s)) \<le> unat (Gas (contract s2)) + unat c)"
    using lt G(2) by (intro spec) simp_all
  then obtain r s3 where "f C run s2 = Some (r, s3)" "\<And>x. r = Ok x \<Longrightarrow> unat (Gas (contract s3)) < unat G"
    using sum lt c(4) unfolding pspec_def by fastforce
  then show "\<exists>r s3. run_operation (execute e) C run s2 = Some (r, s3) \<and>
      (\<forall>res err. r = Ok (res, err) \<longrightarrow> Gas (contract s3) \<le> G \<and> (err = None \<longrightarrow> Gas (contract s3) < G))"
    using e(1) by (auto simp: word_less_nat_alt word_le_nat_alt)
qed

lemma creating_rounds:
  assumes e: "execute e = Calling f" "constantGas e \<noteq> 0" "gas_keeps meter C e"
    and spec: "\<And>G. unat G < m \<Longrightarrow> pspec (\<lambda>s. Gas (contract s) = G) (f C run) (\<lambda>_ s. unat (Gas (contract s)) \<le> unat G)"
    and G: "Gas (contract s) = G" "unat G \<le> m"
  shows "rounds G (perform C e run s)"
proof (rule perform_rounds [OF e(3) G(1)])
  fix s1 s2 assume *: "constantGas e \<le> G" "Gas (contract s1) = G - constantGas e" "charge_dynamic C e s1 = (Ok None, s2)"
  have lt: "unat (G - constantGas e) < unat G" using word_less_sub [OF e(2) *(1)] by (simp add: word_less_nat_alt)
  moreover have le: "unat (Gas (contract s2)) \<le> unat (G - constantGas e)"
    using charged_gas [OF e(3) *(3)] *(2) by (simp add: word_le_nat_alt)
  ultimately have "pspec (\<lambda>s. Gas (contract s) = Gas (contract s2)) (f C run) (\<lambda>_ s. unat (Gas (contract s)) \<le> unat (Gas (contract s2)))"
    using G(2) by (intro spec) simp
  then obtain r s3 where "f C run s2 = Some (r, s3)" "\<And>x. r = Ok x \<Longrightarrow> unat (Gas (contract s3)) < unat G"
    using lt le unfolding pspec_def by fastforce
  then show "\<exists>r s3. run_operation (execute e) C run s2 = Some (r, s3) \<and>
      (\<forall>res err. r = Ok (res, err) \<longrightarrow> Gas (contract s3) \<le> G \<and> (err = None \<longrightarrow> Gas (contract s3) < G))"
    using e(1) by (auto simp: word_less_nat_alt word_le_nat_alt)
qed

end

section \<open>The table\<close>

lemma SafeAdd_nonzero: "\<not> snd (SafeAdd x y) \<Longrightarrow> x \<noteq> 0 \<or> y \<noteq> 0 \<Longrightarrow> fst (SafeAdd x y) \<noteq> 0"
  using SafeAdd_Ok [of x y] by (auto simp: unat_eq_0 dest: arg_cong [where f = unat])

lemma costs_exp: "costs C (exp_gas b)"
  by (auto simp: costs_def exp_gas_def sread_bind_Ok checked_u64_Ok dest: SafeAdd_nonzero)

lemma costs_log: "costs C (makeGasLog n)"
proof -
  have "fst (SafeAdd (fst (SafeAdd (fst (SafeAdd g 375)) k)) l) \<noteq> 0"
    if "\<not> snd (SafeAdd g 375)" "\<not> snd (SafeAdd (fst (SafeAdd g 375)) k)" "\<not> snd (SafeAdd (fst (SafeAdd (fst (SafeAdd g 375)) k)) l)" for g k l
    using that SafeAdd_nonzero by simp
  then show ?thesis
    unfolding costs_def makeGasLog_def by (auto simp: checked_u64_Ok elim!: sbind_OkE)
qed

lemma triple_then: "(\<And>x. triple (\<lambda>_. True) (f x) Q) \<Longrightarrow> triple P (sbind m f) Q"
  by (rule triple_bind [where R = "\<lambda>_ _. True"]) (simp_all add: triple_def)

lemma costs_triple: "(\<And>n. triple (\<lambda>_. True) (g C n) (\<lambda>c _. c \<noteq> 0)) \<Longrightarrow> costs C g"
  unfolding costs_def triple_def by blast

lemma costs_storage: "costs C (makeGasSStoreFunc r)" "costs C gasSLoadEIP2929"
proof -
  have c: "triple P (if b then sret 0 else sbind m' (\<lambda>_. if b' then slift Panic else sret 2100)) (\<lambda>c _. c = 0 \<or> c = (2100 :: u64))"
    for P b b' and m' :: "(vm, unit) op"
    by (auto intro!: triple_sret triple_slift triple_then)
  show "costs C (makeGasSStoreFunc r)"
    unfolding makeGasSStoreFunc_def Let_def
    by (rule costs_triple) (auto intro!: triple_then [of _ _ _ "sget _"] triple_then [of _ _ _ "sread _"] triple_then [of _ _ _ "on_StateDB _"] triple_serr
        triple_bind [OF c] triple_sret simp: triple_def [of _ "sbind (if _ then _ else _) _"] sbind_def sret_def supd_def split: prod.splits)
  show "costs C gasSLoadEIP2929"
    unfolding gasSLoadEIP2929_def by (rule costs_triple) (auto intro!: triple_then triple_sret)
qed

lemma ends_runs: "never_goes_on opStop" "never_goes_on opReturn" "never_goes_on opRevert" "never_goes_on opUndefined"
  by (auto simp: never_goes_on_def opStop_def opReturn_def opRevert_def opUndefined_def ret_mem_def fail_def sret_def elim!: sbind_OkE)

lemma pays_table: "pays C (GetGenericJumpTable op)"
  by (rule GetGenericJumpTable_all)
    (simp_all add: table_entries operation_of_def pays_def costs_exp costs_log costs_storage ends_runs
      gasExpEIP158_def gasSStoreEIP3529_def)

definition calling_entries :: "operation list" where
  "calling_entries = [
     operation_of (Calling opDelegateCall) 100 (Some gasDelegateCallEIP2929) 6 1 (Some memoryDelegateCall),
     operation_of (Calling opStaticCall) 100 (Some gasStaticCallEIP2929) 6 1 (Some memoryStaticCall),
     operation_of (Calling opCallCode) 100 (Some gasCallCodeEIP2929) 7 1 (Some memoryCall),
     operation_of (Calling opCall) 100 (Some gasCallEIP2929) 7 1 (Some memoryCall),
     operation_of (Calling opCreate2) 32000 (Some gasCreate2) 4 1 (Some memoryCreate2),
     operation_of (Calling opCreate) 32000 (Some gasCreate) 3 1 (Some memoryCreate)]"

lemma calling_table: "(\<exists>f. execute (GetGenericJumpTable op) = Plain f) \<or> GetGenericJumpTable op \<in> set calling_entries"
  by (rule GetGenericJumpTable_all [where P = "\<lambda>e. (\<exists>f. execute e = Plain f) \<or> e \<in> set calling_entries"])
    (simp_all add: table_entries calling_entries_def, simp_all add: operation_of_def)

context metered_runner
begin

lemma perform_table:
  assumes G: "Gas (contract s) = G" "unat G \<le> m"
  shows "rounds G (perform C (GetGenericJumpTable op) run s)"
proof -
  let ?e = "GetGenericJumpTable op"
  have k: "gas_keeps meter C ?e" by (rule meter.gas_keeps_table)
  note e = operation_of_def
  consider f where "execute ?e = Plain f"
    | "?e = operation_of (Calling opDelegateCall) 100 (Some gasDelegateCallEIP2929) 6 1 (Some memoryDelegateCall)"
    | "?e = operation_of (Calling opStaticCall) 100 (Some gasStaticCallEIP2929) 6 1 (Some memoryStaticCall)"
    | "?e = operation_of (Calling opCallCode) 100 (Some gasCallCodeEIP2929) 7 1 (Some memoryCall)"
    | "?e = operation_of (Calling opCall) 100 (Some gasCallEIP2929) 7 1 (Some memoryCall)"
    | "?e = operation_of (Calling opCreate2) 32000 (Some gasCreate2) 4 1 (Some memoryCreate2)"
    | "?e = operation_of (Calling opCreate) 32000 (Some gasCreate) 3 1 (Some memoryCreate)"
    using calling_table [of op] by (auto simp: calling_entries_def)
  then show ?thesis
  proof cases
    case (1 f)
    then show ?thesis using plain_keeps_meter k pays_table G(1) by (rule plain_rounds)
  next
    case 2
    show ?thesis
    proof (rule calling_rounds [where f = opDelegateCall and g = gasDelegateCallEIP2929 and room = "\<lambda>k s. unat (callGasTemp (ev s)) \<le> k"])
      show "unat (callGasTemp (ev t')) \<le> unat c" if "gasDelegateCallEIP2929 C n t = (Ok c, t')" for n t c t'
        using that unfolding gasDelegateCallEIP2929_def by (blast intro: gasDelegateCall_room dest: EIP2929_Ok)
    qed (use k G opDelegateCall_gas in \<open>simp_all add: 2 e call_room_def\<close>)
  next
    case 3
    show ?thesis
    proof (rule calling_rounds [where f = opStaticCall and g = gasStaticCallEIP2929 and room = "\<lambda>k s. unat (callGasTemp (ev s)) \<le> k"])
      show "unat (callGasTemp (ev t')) \<le> unat c" if "gasStaticCallEIP2929 C n t = (Ok c, t')" for n t c t'
        using that unfolding gasStaticCallEIP2929_def by (blast intro: gasDelegateCall_room dest: EIP2929_Ok)
    qed (use k G opDelegateCall_gas in \<open>simp_all add: 3 e call_room_def\<close>)
  next
    case 4
    show ?thesis
    proof (rule calling_rounds [where f = opCallCode and g = gasCallCodeEIP2929 and room = "call_room"])
      show "call_room (unat c) t'" if "gasCallCodeEIP2929 C n t = (Ok c, t')" for n t c t'
        using that unfolding gasCallCodeEIP2929_def by (blast intro: gasCallCode_room dest: EIP2929_Ok)
    qed (use k G opCall_gas in \<open>simp_all add: 4 e call_room_def\<close>)
  next
    case 5
    show ?thesis
    proof (rule calling_rounds [where f = opCall and g = gasCallEIP2929 and room = "call_room"])
      show "call_room (unat c) t'" if "gasCallEIP2929 C n t = (Ok c, t')" for n t c t'
        using that unfolding gasCallEIP2929_def by (blast intro: gasCall_room dest: EIP2929_Ok)
    qed (use k G opCall_gas in \<open>simp_all add: 5 e call_room_def\<close>)
  next
    case 6
    show ?thesis by (rule creating_rounds [where f = opCreate2]) (use k G opCreate_gas in \<open>simp_all add: 6 e\<close>)
  next
    case 7
    show ?thesis by (rule creating_rounds [where f = opCreate]) (use k G opCreate_gas in \<open>simp_all add: 7 e\<close>)
  qed
qed

lemma step_rounds:
  assumes "unat (Gas (contract s)) \<le> m"
  shows "rounds (Gas (contract s)) (step C GetGenericJumpTable run s)"
  using perform_table [OF refl assms] by (simp add: step_def pbind_sget Let_def rounds_pret)

end

section \<open>The interpreter\<close>

lemma Run_with_metered:
  assumes "\<And>s. unat (Gas (contract s)) < n \<Longrightarrow> ends (\<lambda>s'. Gas (contract s') \<le> Gas (contract s)) (lp s)"
  shows "metered_runner (Run_with lp) n"
proof
  fix c :: Contract and inp ro and e :: evm
  assume c: "unat (Gas c) < n"
  define e1 where "e1 = e\<lparr>evm_depth := evm_depth e + 1, in_readOnly := in_readOnly e \<or> ro, in_returnData := []\<rparr>"
  define s where "s = \<lparr>ev = e1, pc = 0, stack = [], mem = NewMemory, contract = c\<lparr>c_Input := inp\<rparr>\<rparr>"
  have g: "ends (\<lambda>s'. Gas (contract s') \<le> Gas c) (lp s)" using assms [of s] c by (simp add: s_def)
  show "\<exists>r e'. Run_with lp c inp ro e = Some (r, e') \<and> (\<forall>ret c'. r = Ok (ret, c') \<longrightarrow> Gas c' \<le> Gas c)"
  proof (cases "c_Code c = []")
    case True
    then show ?thesis by (auto simp: Run_with_def pbind_pdo sget_def supd_def sret_def pdo_def pbind_def)
  next
    case False
    from g obtain r s' where "lp s = Some (r, s')" "is_ok r \<longrightarrow> Gas (contract s') \<le> Gas c"
      by (auto simp: ends_def split: option.splits prod.splits)
    with False show ?thesis
      by (cases r) (auto simp: Run_with_def pbind_pdo sget_def supd_def sret_def pdo_def pbind_def s_def e1_def)
  qed
qed

lemma loop_metered:
  "unat (Gas (contract s)) < n \<Longrightarrow> ends (\<lambda>s'. Gas (contract s') \<le> Gas (contract s)) (loop n C GetGenericJumpTable s)"
proof (induction n arbitrary: s)
  case (Suc n)
  have "metered_runner (Run_with (loop n C GetGenericJumpTable)) n"
    by (rule Run_with_metered) (rule Suc.IH)
  then have s: "rounds (Gas (contract s)) (step C GetGenericJumpTable (Run_with (loop n C GetGenericJumpTable)) s)"
    by (rule metered_runner.step_rounds) (use Suc.prems in linarith)
  then obtain r t where st: "step C GetGenericJumpTable (Run_with (loop n C GetGenericJumpTable)) s = Some (r, t)"
    by (cases "step C GetGenericJumpTable (Run_with (loop n C GetGenericJumpTable)) s") (auto simp: rounds_def)
  with s have r: "rounds (Gas (contract s)) (Some (r, t))" by simp
  show ?case
  proof (cases "r = Ok None")
    case True
    with r have lt: "Gas (contract t) < Gas (contract s)" by (simp add: rounds_def)
    with Suc.prems have "unat (Gas (contract t)) < n" by (simp add: word_less_nat_alt)
    then have "ends (\<lambda>s'. Gas (contract s') \<le> Gas (contract t)) (loop n C GetGenericJumpTable t)" by (rule Suc.IH)
    with st True lt show ?thesis by (auto simp: pbind_def ends_def split: option.splits prod.splits)
  next
    case False
    with st r show ?thesis
      by (cases r) (auto simp: pbind_def rounds_def pdo_def sret_def split: option.splits prod.splits)
  qed
qed simp

text \<open>The interpreter keeps the contract that the instructions rely on, for the fuel that it has.\<close>

interpretation interpreter: metered_runner "Run n C" n for n C
  unfolding Run_def by (rule Run_with_metered) (rule loop_metered)

end
