(* ===== verification/EVM_Limits.thy ===== *)
theory EVM_Limits
  imports EVM_Metering
begin

text \<open>
  The fuel of the interpreter bounds nothing: more fuel never changes an outcome, and fuel above the gas of a call is
  always enough.
\<close>

section \<open>More fuel\<close>

text \<open>The second call does what the first does, where the first returns.\<close>

definition pless :: "('s, 'a) pop \<Rightarrow> ('s, 'a) pop \<Rightarrow> bool" where
  "pless m m' \<longleftrightarrow> (\<forall>s. m s = None \<or> m' s = m s)"

lemma pless_refl: "pless m m"
  by (simp add: pless_def)

lemma plessE: "pless m m' \<Longrightarrow> m s = None \<or> m' s = m s"
  by (simp add: pless_def)

lemma pless_bind:
  assumes "pless m m'" "\<And>x. pless (f x) (f' x)"
  shows "pless (pbind m f) (pbind m' f')"
  unfolding pless_def
proof
  fix s
  show "pbind m f s = None \<or> pbind m' f' s = pbind m f s"
  proof (cases "m s")
    case (Some p)
    then have "m' s = Some p" using plessE [OF assms(1), of s] by simp
    with Some plessE [OF assms(2)] show ?thesis by (auto simp: pbind_def split: prod.splits result.splits)
  qed (simp add: pbind_def)
qed

text \<open>A call on a part of the state.\<close>

lemma pless_part:
  assumes "\<And>s. pless (f s) (f' s)"
  shows "pless (\<lambda>s. case f s (g s) of None \<Rightarrow> None | Some (r, t) \<Rightarrow> h s r t) (\<lambda>s. case f' s (g s) of None \<Rightarrow> None | Some (r, t) \<Rightarrow> h s r t)"
  unfolding pless_def
proof
  fix s
  show "(case f s (g s) of None \<Rightarrow> None | Some (r, t) \<Rightarrow> h s r t) = None \<or>
    (case f' s (g s) of None \<Rightarrow> None | Some (r, t) \<Rightarrow> h s r t) = (case f s (g s) of None \<Rightarrow> None | Some (r, t) \<Rightarrow> h s r t)"
    using plessE [OF assms, of s "g s"] by (cases "f s (g s)") auto
qed

lemma pless_with_self:
  assumes "\<And>self. pless (f self) (f' self)"
  shows "pless (with_self f) (with_self f')"
  using pless_part [where f = "\<lambda>s. f (ContractRef (contract s))" and f' = "\<lambda>s. f' (ContractRef (contract s))" and g = ev and h = "\<lambda>s r e. Some (r, s\<lparr>ev := e\<rparr>)"] assms
  by (simp add: pless_def with_self_def in_ev_def)

locale less_fuel =
  fixes run run' :: runner
  assumes more: "pless (run c inp ro) (run' c inp ro)"
begin

lemma calls_more:
  "pless (Call C run caller addr input gas v) (Call C run' caller addr input gas v)"
  "pless (CallCode C run caller addr input gas v) (CallCode C run' caller addr input gas v)"
  "pless (DelegateCall C run caller addr input gas) (DelegateCall C run' caller addr input gas)"
  "pless (StaticCall C run caller addr input gas) (StaticCall C run' caller addr input gas)"
  unfolding Call_def CallCode_def DelegateCall_def StaticCall_def call_with_def run_code_def Let_def
  by (auto intro!: pless_bind pless_refl more split: option.split prod.split)

lemma create_more: "pless (create C run caller code hash gas address) (create C run' caller code hash gas address)"
  unfolding create_def Let_def by (auto intro!: pless_bind pless_refl more split: option.split prod.split)

lemma creates_more:
  "pless (Create C run caller code gas v nonce) (Create C run' caller code gas v nonce)"
  "pless (Create2 C run caller code gas salt) (Create2 C run' caller code gas salt)"
  unfolding Create_def Create2_def Let_def by (rule create_more)+

lemma instructions_more:
  "pless (opCall C run) (opCall C run')" "pless (opCallCode C run) (opCallCode C run')"
  "pless (opDelegateCall C run) (opDelegateCall C run')" "pless (opStaticCall C run) (opStaticCall C run')"
  "pless (opCreate C run) (opCreate C run')" "pless (opCreate2 C run) (opCreate2 C run')"
  unfolding opCall_def opCallCode_def opDelegateCall_def opStaticCall_def opCreate_def opCreate2_def pguarded_def Let_def
  by (auto intro!: pless_bind pless_refl pless_with_self calls_more creates_more split: prod.split)

lemma run_operation_more: "pless (run_operation (execute (GetGenericJumpTable op)) C run) (run_operation (execute (GetGenericJumpTable op)) C run')"
  using calling_table [of op]
  by (auto simp: calling_entries_def operation_of_def intro!: pless_refl instructions_more)

lemma step_more: "pless (step C GetGenericJumpTable run) (step C GetGenericJumpTable run')"
  unfolding step_def perform_def Let_def
  by (auto intro!: pless_bind pless_refl run_operation_more split: option.split prod.split)

end

lemma Run_with_more: "pless lp lp' \<Longrightarrow> less_fuel (Run_with lp) (Run_with lp')"
proof
  fix c :: Contract and inp ro assume "pless lp lp'"
  note pless_part [where f = "\<lambda>_. lp" and f' = "\<lambda>_. lp'" and g = "\<lambda>e. \<lparr>ev = e, pc = 0, stack = [], mem = NewMemory, contract = c\<lparr>c_Input := inp\<rparr>\<rparr>"
      and h = "\<lambda>_ r s. Some (rbind r (\<lambda>x. Ok (x, contract s)), ev s)", OF this]
  then show "pless (Run_with lp c inp ro) (Run_with lp' c inp ro)"
    unfolding Run_with_def by (intro pless_bind pless_refl) (simp add: pless_refl)
qed

lemma loop_more: "pless (loop n C GetGenericJumpTable) (loop (Suc n) C GetGenericJumpTable)"
proof (induction n)
  case 0
  show ?case by (simp add: pless_def)
next
  case (Suc n)
  have "pless (step C GetGenericJumpTable (Run_with (loop n C GetGenericJumpTable)))
    (step C GetGenericJumpTable (Run_with (loop (Suc n) C GetGenericJumpTable)))"
    by (intro less_fuel.step_more Run_with_more Suc.IH)
  then show ?case
    unfolding loop.simps(2) [of n] loop.simps(2) [of "Suc n"]
    by (rule pless_bind) (auto split: option.split intro: pless_refl Suc.IH [unfolded loop.simps(2)])
qed

lemma pless_trans: "pless m m' \<Longrightarrow> pless m' m'' \<Longrightarrow> pless m m''"
  unfolding pless_def by metis

lemma loop_mono: "n \<le> k \<Longrightarrow> pless (loop n C GetGenericJumpTable) (loop k C GetGenericJumpTable)"
  by (induction k rule: dec_induct) (blast intro: pless_refl pless_trans loop_more)+

lemma Run_mono: "n \<le> k \<Longrightarrow> less_fuel (Run n C) (Run k C)"
  unfolding Run_def by (intro Run_with_more loop_mono)

text \<open>The interpreter with one more unit of fuel.\<close>

interpretation refuelled: less_fuel "Run n C" "Run (Suc n) C" for n C
  by (rule Run_mono) simp

section \<open>Calls end\<close>

text \<open>From some fuel on, the outcome is the same, and a success gives back no more than \<open>gas\<close>.\<close>

definition returns_within :: "u64 \<Rightarrow> ('a \<Rightarrow> u64) \<Rightarrow> (nat \<Rightarrow> (evm, 'a) pop) \<Rightarrow> evm \<Rightarrow> nat \<Rightarrow> bool" where
  "returns_within gas left call e n \<longleftrightarrow>
     (\<exists>r e'. (\<forall>k \<ge> n. call k e = Some (r, e')) \<and> (\<forall>x. r = Ok x \<longrightarrow> left x \<le> gas))"

lemma returns_withinI:
  assumes "pspec (\<lambda>_. True) (call n) (\<lambda>x _. left x \<le> gas)" "\<And>k. n \<le> k \<Longrightarrow> pless (call n) (call k)"
  shows "returns_within gas left call e n"
proof -
  obtain r e' where "call n e = Some (r, e')" "\<And>x. r = Ok x \<Longrightarrow> left x \<le> gas"
    using assms(1) by (rule pspecE [where s = e]) auto
  moreover from this(1) have "call k e = Some (r, e')" if "n \<le> k" for k
    using assms(2) [OF that] unfolding pless_def by (metis option.distinct(1))
  ultimately show ?thesis unfolding returns_within_def by blast
qed

lemma Call_returns: "unat gas < n \<Longrightarrow> returns_within gas (\<lambda>(ret, left, err). left) (\<lambda>k. Call C (Run k C) caller addr input gas v) e n"
proof (rule returns_withinI)
  assume "unat gas < n"
  then show "pspec (\<lambda>_. True) (Call C (Run n C) caller addr input gas v) (\<lambda>x _. (case x of (ret, left, err) \<Rightarrow> left) \<le> gas)"
    by (intro pspec_conseq [OF interpreter.Call_gas]) auto
qed (simp add: less_fuel.calls_more Run_mono)

lemma StaticCall_returns: "unat gas < n \<Longrightarrow> returns_within gas (\<lambda>(ret, left, err). left) (\<lambda>k. StaticCall C (Run k C) caller addr input gas) e n"
proof (rule returns_withinI)
  assume "unat gas < n"
  then show "pspec (\<lambda>_. True) (StaticCall C (Run n C) caller addr input gas) (\<lambda>x _. (case x of (ret, left, err) \<Rightarrow> left) \<le> gas)"
    by (intro pspec_conseq [OF interpreter.other_calls_gas(3)]) auto
qed (simp add: less_fuel.calls_more Run_mono)

lemma Create_returns: "unat gas < n \<Longrightarrow> returns_within gas (\<lambda>(ret, a, left, err). left) (\<lambda>k. Create C (Run k C) caller code gas v nonce) e n"
proof (rule returns_withinI)
  assume "unat gas < n"
  then show "pspec (\<lambda>_. True) (Create C (Run n C) caller code gas v nonce) (\<lambda>x _. (case x of (ret, a, left, err) \<Rightarrow> left) \<le> gas)"
    by (intro pspec_conseq [OF interpreter.Creates_gas(1)]) auto
qed (simp add: less_fuel.creates_more Run_mono)

text \<open>
  C6: every call and every creation ends, and gives back at most the gas that it was given: the outcome does not depend
  on the fuel of the interpreter once it is above the gas.\<close>

theorem calls_end_within_gas:
  assumes "unat gas < n"
  shows "returns_within gas (\<lambda>(ret, left, err). left) (\<lambda>k. Call C (Run k C) caller addr input gas v) e n \<and>
    returns_within gas (\<lambda>(ret, left, err). left) (\<lambda>k. StaticCall C (Run k C) caller addr input gas) e n \<and>
    returns_within gas (\<lambda>(ret, a, left, err). left) (\<lambda>k. Create C (Run k C) caller code gas v nonce) e n"
  using assms by (intro conjI Call_returns StaticCall_returns Create_returns)

text \<open>A context, and a machine with a contract that writes to its storage: \<^verbatim>\<open>PUSH1 1, PUSH1 0, SSTORE\<close>.\<close>

definition sample_lib :: u256_lib where
  "sample_lib = \<lparr>u_Div = (div), u_SDiv = (\<lambda>x y. word_of_int (sint x div sint y)), u_Mod = (mod), u_SMod = (\<lambda>x y. word_of_int (sint x mod sint y)),
     u_Exp = (\<lambda>x y. x ^ unat y), u_ExtendSign = (\<lambda>x y. x), u_Byte = (\<lambda>x y. x), u_AddMod = (\<lambda>x y z. (x + y) mod z),
     u_MulMod = (\<lambda>x y z. (x * y) mod z), u_SRsh = (\<lambda>x n. signed_drop_bit n x), u_BitLen = (\<lambda>x. 256)\<rparr>"

definition sample_ctx :: vmctx where
  "sample_ctx = \<lparr>vc_lib = sample_lib, vc_keccak = (\<lambda>b. replicate 32 1), vc_sha256 = (\<lambda>b. replicate 32 2), vc_ripemd = (\<lambda>b. replicate 20 3),
     chainRules = chain_Rules, CanTransfer = None, GetHash = (\<lambda>_. EmptyHash), Coinbase = zero_Address, GasLimit = 137000000,
     BlockNumber = 5, vc_Time = 1700000000, vc_Difficulty = 20, BaseFee = 0, Random = None, Origin = zero_Address, GasPrice = 0,
     vc_ChainID = 1337, vc_Debug = True, EnablePreimageRecording = True, vc_abort = False, pre_Byzantium = [], pre_Istanbul = [], pre_Berlin = []\<rparr>"

definition sample_contract :: Address where
  "sample_contract = \<lparr>addr_ByteValue = replicate 20 7, addr_Primary = True\<rparr>"

definition sample_evm :: evm where
  "sample_evm = \<lparr>evm_StateDB = SetCode (vc_keccak sample_ctx) sample_contract [0x60, 1, 0x60, 0, 0x55] (CreateAccount sample_contract CreateStateDB),
     evm_depth = 0, callGasTemp = 0, in_readOnly = False, in_returnData = [], jumpdests = [], log_Output = []\<rparr>"

theorem calls_end_within_gas_witness:
  "returns_within 100000 (\<lambda>(ret, left, err). left) (\<lambda>k. Call sample_ctx (Run k sample_ctx) (AccountRef zero_Address) sample_contract [] 100000 0) sample_evm 100001"
  using calls_end_within_gas [of 100000 100001 sample_ctx "AccountRef zero_Address" sample_contract "[]" 0 sample_evm "[]" 0] by simp

end
