(* ===== verification/EVM_Types.thy ===== *)
theory EVM_Types
  imports EVM_Limits
begin

text \<open>
  The stack discipline of the virtual machine.  The instruction tables declare for every opcode how many values it takes
  from the stack and how many it leaves there (\<^verbatim>\<open>src/core/evm/stack_table.go\<close>, \<^verbatim>\<open>jump_table.go\<close>).  Here every instruction of
  the table is shown to do exactly what its entry declares, so that no step of a running call leaves more than 1024
  values on the stack.
\<close>

section \<open>The effect of an instruction\<close>

definition height :: "vm \<Rightarrow> int" where
  "height s = int (length (stack s))"

text \<open>Every normal outcome changes the height of the stack by \<open>d\<close>.\<close>

definition shifts :: "int \<Rightarrow> (vm, 'a) op \<Rightarrow> bool" where
  "shifts d m \<longleftrightarrow> (\<forall>s x s'. m s = (Ok x, s') \<longrightarrow> height s' = height s + d)"

text \<open>The same for outcomes after which the call goes on.\<close>

definition moves :: "int \<Rightarrow> vmop \<Rightarrow> bool" where
  "moves d m \<longleftrightarrow> (\<forall>s res s'. m s = (Ok (res, None), s') \<longrightarrow> height s' = height s + d)"

definition pmoves :: "int \<Rightarrow> (vm, vmret) pop \<Rightarrow> bool" where
  "pmoves d m \<longleftrightarrow> (\<forall>s res s'. m s = Some (Ok (res, None), s') \<longrightarrow> height s' = height s + d)"

lemma moves_bind: "shifts a m \<Longrightarrow> (\<And>x. moves (d - a) (f x)) \<Longrightarrow> moves d (sbind m f)"
  by (fastforce simp: shifts_def moves_def elim: sbind_OkE)

lemma shifts_bind: "shifts a m \<Longrightarrow> (\<And>x. shifts (d - a) (f x)) \<Longrightarrow> shifts d (sbind m f)"
  by (fastforce simp: shifts_def elim: sbind_OkE)

lemma moves_cases:
  "moves d m \<Longrightarrow> moves d m' \<Longrightarrow> moves d (if b then m else m')" "(\<And>a b. moves d (f a b)) \<Longrightarrow> moves d (case p of (a, b) \<Rightarrow> f a b)"
  by (simp_all split: prod.split)

lemma keeps_shifts: "keeps stack m \<Longrightarrow> shifts 0 m"
  by (auto simp: shifts_def height_def dest: keepsD)

interpretation stack: machine_part stack
  by unfold_locales simp_all

lemma shifts_stack: "shifts (- 1) pop" "shifts 1 (push x)" "shifts 0 peek" "shifts 0 (set_top x)" "shifts 1 (dup n)" "shifts 0 (swap n)"
  by (auto simp: shifts_def height_def pop_def push_def supd_def peek_def sread_eq set_top_def dup_def swap_def sbind_def Let_def
      split: list.splits result.splits if_splits)

lemma shifts_still: "shifts 0 (sget g)" "shifts 0 (sread f)" "shifts 0 (sret x)" "shifts 0 (set_returnData r)" "shifts 0 (add_gas a)" "shifts 0 (use_gas a)"
  "shifts 0 (on_StateDB u)"
  by (rule keeps_shifts, auto simp: keeps_def sget_def sread_eq sret_def set_returnData_def supd_def add_gas_def use_gas_def
      split: prod.splits result.splits)+

lemmas shifts_rules = shifts_stack shifts_still stack.keeps_part_upd [THEN keeps_shifts] stack.keeps_validJumpdest [THEN keeps_shifts]

lemma moves_ends: "moves d (fail e)" "d = 0 \<Longrightarrow> moves d nothing" "d = 0 \<Longrightarrow> moves d (sret (r, None))" "moves d (sret (r, Some e))"
  by (simp_all add: moves_def fail_def nothing_def sret_def)

lemma moves_steps:
  "(\<And>x. moves (d + 1) (f x)) \<Longrightarrow> moves d (sbind pop f)" "moves (d - 1) (k ()) \<Longrightarrow> moves d (sbind (push x) k)"
  "moves (d - 1) (k ()) \<Longrightarrow> moves d (sbind (dup n) k)" "shifts 0 m \<Longrightarrow> (\<And>x. moves d (g x)) \<Longrightarrow> moves d (sbind m g)"
  using moves_bind [OF shifts_stack(1), of d f] moves_bind [OF shifts_stack(2), of d k x] moves_bind [OF shifts_stack(5), of d k n]
    moves_bind [of 0 m d g] by simp_all

lemmas moves_rules = moves_steps moves_cases moves_ends shifts_rules

section \<open>Instructions\<close>

lemma moves_shapes: "moves 0 (unop f1)" "moves (- 1) (binop f2)" "moves (- 2) (ternop f3)" "moves 1 (push_val g)"
  by (simp_all only: unop_def binop_def ternop_def push_val_def, (intro moves_rules; simp)+)

lemma moves_copy_to_mem: "d = 0 \<Longrightarrow> moves d (copy_to_mem a b f)"
  unfolding copy_to_mem_def by (intro moves_rules) simp

lemma moves_jump_to: "d = 0 \<Longrightarrow> moves d (jump_to x)"
  unfolding jump_to_def by (intro moves_rules) simp

lemma moves_guarded: "moves d m \<Longrightarrow> moves d (guarded m)"
  unfolding guarded_def by (intro moves_rules) simp_all

lemma moves_pure_ops:
  "moves (- 1) opAdd" "moves (- 1) opSub" "moves (- 1) opMul" "moves (- 1) (opDiv C)" "moves (- 1) (opSdiv C)" "moves (- 1) (opMod C)"
  "moves (- 1) (opSmod C)" "moves (- 1) (opExp C)" "moves (- 1) (opSignExtend C)" "moves 0 opNot" "moves (- 1) opLt" "moves (- 1) opGt"
  "moves (- 1) opSlt" "moves (- 1) opSgt" "moves (- 1) opEq" "moves 0 opIszero" "moves (- 1) opAnd" "moves (- 1) opOr" "moves (- 1) opXor"
  "moves (- 1) (opByte C)" "moves (- 2) (opAddmod C)" "moves (- 2) (opMulmod C)" "moves (- 1) opSHL" "moves (- 1) opSHR" "moves (- 1) (opSAR C)"
  by (simp_all add: opAdd_def opSub_def opMul_def opDiv_def opSdiv_def opMod_def opSmod_def opExp_def opSignExtend_def opNot_def
      opLt_def opGt_def opSlt_def opSgt_def opEq_def opIszero_def opAnd_def opOr_def opXor_def opByte_def opAddmod_def opMulmod_def
      opSHL_def opSHR_def opSAR_def moves_shapes)

lemma moves_env_ops:
  "moves 1 opAddress" "moves 1 (opOrigin C)" "moves 1 opCaller" "moves 1 opCallValue" "moves 1 opCallDataSize" "moves 1 opReturnDataSize"
  "moves 1 opCodeSize" "moves 1 (opGasprice C)" "moves 0 (opBlockhash C)" "moves 1 (opCoinbase C)" "moves 1 (opTimestamp C)"
  "moves 1 (opNumber C)" "moves 1 (opDifficulty C)" "moves 1 (opGasLimit C)" "moves 1 opSelfBalance" "moves 1 (opChainID C)"
  "moves 1 (opBaseFee C)" "moves 1 opPush0" "moves 1 opPc" "moves 1 opMsize" "moves 1 opGas" "moves 0 opJumpdest" "moves d opStop"
  by (simp_all add: opAddress_def opOrigin_def opCaller_def opCallValue_def opCallDataSize_def opReturnDataSize_def opCodeSize_def
      opGasprice_def opBlockhash_def opCoinbase_def opTimestamp_def opNumber_def opDifficulty_def opGasLimit_def opSelfBalance_def
      opChainID_def opBaseFee_def opPush0_def opPc_def opMsize_def opGas_def opJumpdest_def opStop_def moves_shapes moves_ends)

lemma moves_memory_ops:
  "moves 0 opBalance" "moves 0 opCallDataLoad" "moves (- 3) opCallDataCopy" "moves (- 3) opReturnDataCopy" "moves 0 opExtCodeSize"
  "moves (- 3) opCodeCopy" "moves (- 4) opExtCodeCopy" "moves 0 opExtCodeHash" "moves (- 1) opPop" "moves 0 opMload" "moves (- 2) opMstore"
  "moves (- 2) opMstore8" "moves 0 opSload" "moves (- 1) (opJump C)" "moves (- 2) (opJumpi C)" "moves d opReturn" "moves d opRevert"
  "moves d opUndefined" "moves 1 (makePush k n)" "moves 1 (makeDup n)" "moves 0 (makeSwap n)" "moves (- 2) opSstore"
  by (simp_all only: opBalance_def opCallDataLoad_def opCallDataCopy_def opReturnDataCopy_def opExtCodeSize_def opCodeCopy_def opExtCodeCopy_def
      opExtCodeHash_def opPop_def opMload_def opMstore_def opMstore8_def opSload_def opJump_def opJumpi_def opReturn_def opRevert_def
      ret_mem_def opUndefined_def makePush_def makeDup_def makeSwap_def opSstore_def Let_def,
      (intro moves_rules moves_copy_to_mem moves_jump_to moves_guarded; simp)+)

lemma moves_opPush1: "moves 1 opPush1"
  unfolding opPush1_def using moves_shapes(4) by (intro moves_rules) simp

lemma shifts_pop_topics: "shifts (- int n) (pop_topics n)"
proof (induction n)
  case (Suc n)
  have "shifts (- int n) (sbind (pop_topics n) (\<lambda>ts. sret (Bytes32 a # ts)))" for a
    by (rule shifts_bind [OF Suc]) (simp add: shifts_still)
  then show ?case by (simp add: shifts_bind [OF shifts_stack(1)])
qed (simp add: shifts_still)

lemma moves_other_ops:
  "moves (- 1) (opKeccak256 C)" "moves 1 (opRandom C)" "moves (- 2 - int n) (makeLog n C)" "moves d (opSelfdestruct C)"
proof -
  have pre: "shifts 0 (if b then on_StateDB u else sret ())" for b u by (simp add: shifts_still)
  show "moves (- 1) (opKeccak256 C)"
    unfolding opKeccak256_def Let_def by (intro moves_rules pre) simp
  show "moves 1 (opRandom C)"
    using moves_shapes(4) by (simp add: opRandom_def moves_def slift_def split: option.split)
  have topics: "(\<And>ts. moves (d + int n) (f ts)) \<Longrightarrow> moves d (sbind (pop_topics n) f)" for d f
    using moves_bind [OF shifts_pop_topics [of n], of d f] by simp
  show "moves (- 2 - int n) (makeLog n C)"
    unfolding makeLog_def by (intro moves_guarded moves_rules topics) simp
  have "shifts 0 (on_ev (CaptureExit C [])) "
    by (rule keeps_shifts) (auto simp: keeps_def CaptureExit_def zoom_def supd_def sret_def)
  then show "moves d (opSelfdestruct C)"
    unfolding opSelfdestruct_def by (intro moves_guarded moves_rules)
qed

section \<open>Calls and creations\<close>

lemma pmoves_steps:
  "(\<And>x. pmoves (d + 1) (f x)) \<Longrightarrow> pmoves d (pbind (pdo pop) f)" "shifts 0 m \<Longrightarrow> (\<And>x. pmoves d (g x)) \<Longrightarrow> pmoves d (pbind (pdo m) g)"
  "(\<And>x. pmoves d (h x)) \<Longrightarrow> pmoves d (pbind (with_self c) h)" "moves d k \<Longrightarrow> pmoves d (pdo k)"
  "pmoves d p \<Longrightarrow> pmoves d p' \<Longrightarrow> pmoves d (if b then p else p')" 
  using shifts_stack(1)
  by (fastforce simp: pmoves_def shifts_def moves_def with_self_def in_ev_def height_def elim!: pbind_SomeE split: option.splits)+

lemma pmoves_case: "(\<And>a b c e. pmoves d (f a b c e)) \<Longrightarrow> pmoves d (case r of (a, b, c, e) \<Rightarrow> f a b c e)"
  by (simp split: prod.split)

lemma moves_call_ends: "d = 1 \<Longrightarrow> moves d (end_op_call a b r)" "d = 1 \<Longrightarrow> moves d (end_creation c r2)"
proof -
  have out: "shifts 0 (if c then sbind (sread f) (\<lambda>m. supd (\<lambda>s. s\<lparr>mem := m\<rparr>)) else sret ())" for c and f :: "vm \<Rightarrow> Memory result"
  proof -
    have "shifts 0 (supd (\<lambda>s. s\<lparr>mem := m\<rparr>))" for m by (rule stack.keeps_part_upd(1) [THEN keeps_shifts])
    then show ?thesis using shifts_bind [OF shifts_still(2) [of f], of 0 "\<lambda>m. supd (\<lambda>s. s\<lparr>mem := m\<rparr>)"] by (simp add: shifts_still)
  qed
  assume "d = 1"
  then show "moves d (end_op_call a b r)"
    unfolding end_op_call_def by (cases r) (simp only: prod.case, intro moves_rules out; simp)
  show "moves d (end_creation c r2)"
    using \<open>d = 1\<close> unfolding end_creation_def by (cases r2) (simp only: prod.case, intro moves_rules; simp)
qed

lemma pmoves_calls:
  "pmoves (- 6) (opCall C run)" "pmoves (- 6) (opCallCode C run)" "pmoves (- 5) (opDelegateCall C run)" "pmoves (- 5) (opStaticCall C run)"
  "pmoves (- 2) (opCreate C run)" "pmoves (- 3) (opCreate2 C run)"
  by (simp_all only: opCall_def opCallCode_def opDelegateCall_def opStaticCall_def opCreate_def opCreate2_def pguarded_def call_args_def Let_def,
      (intro pmoves_steps moves_ends(1) moves_call_ends pmoves_case shifts_rules; simp)+)

section \<open>The table\<close>

text \<open>An instruction does to the stack what its entry declares.\<close>

definition declared :: "vmctx \<Rightarrow> runner \<Rightarrow> operation \<Rightarrow> bool" where
  "declared C run e = pmoves (1024 - op_maxStack e) (run_operation (execute e) C run)"

lemma declared_table: "declared C run (GetGenericJumpTable op)"
  by (rule GetGenericJumpTable_all)
    (simp_all add: table_entries operation_of_def declared_def maxStack_def pmoves_steps(4) moves_pure_ops moves_env_ops moves_memory_ops
      moves_opPush1 moves_other_ops pmoves_calls)

text \<open>What a round of the loop does before it executes the instruction leaves the stack alone.\<close>

lemma keeps_stack_charge: "keeps stack (use_gas g)" "keeps stack (charge_dynamic C (GetGenericJumpTable op))"
proof -
  show u: "keeps stack (use_gas g)" for g by (simp add: keeps_def use_gas_def split: prod.split)
  show "keeps stack (charge_dynamic C (GetGenericJumpTable op))"
    by (rule stack.keeps_charge_dynamic [OF stack.gas_keeps_table u])
qed

lemma step_effect:
  assumes "step C GetGenericJumpTable run s = Some (Ok None, s')"
  defines "e \<equiv> GetGenericJumpTable (GetOp (pc s) (contract s))"
  shows "op_minStack e \<le> height s" "height s \<le> op_maxStack e" "height s' = height s + 1024 - op_maxStack e"
proof -
  have run: "perform C e run s = Some (Ok None, s')" and b: "op_minStack e \<le> height s" "height s \<le> op_maxStack e"
    using assms(1) by (auto simp: step_def e_def height_def Let_def pbind_pdo sget_def pdo_def sret_def split: if_splits)
  show "op_minStack e \<le> height s" "height s \<le> op_maxStack e" by (fact b)+
  obtain s1 s2 s3 res where s1: "use_gas (constantGas e) s = (Ok True, s1)" and s2: "charge_dynamic C e s1 = (Ok None, s2)"
    and s3: "run_operation (execute e) C run s2 = Some (Ok (res, None), s3)" and s': "s' = s3\<lparr>pc := pc s3 + 1\<rparr>"
    using run unfolding perform_def
    by (elim pbind_SomeE) (auto simp: sret_def supd_def elim!: pbind_SomeE split: if_splits option.splits)
  have "stack s2 = stack s"
    using keepsD [OF keeps_stack_charge(1) s1] keepsD [OF keeps_stack_charge(2) s2 [unfolded e_def]] by simp
  moreover have "height s3 = height s2 + (1024 - op_maxStack e)"
    using declared_table [of C run] s3 unfolding declared_def pmoves_def e_def by blast
  ultimately show "height s' = height s + 1024 - op_maxStack e" by (simp add: s' height_def)
qed

section \<open>Running calls\<close>

text \<open>The states of a call between two rounds of its loop.\<close>

inductive running :: "vmctx \<Rightarrow> runner \<Rightarrow> vm \<Rightarrow> vm \<Rightarrow> bool" for C run s where
  running_start: "running C run s s"
| running_step: "running C run s t \<Longrightarrow> step C GetGenericJumpTable run t = Some (Ok None, u) \<Longrightarrow> running C run s u"

lemma running_height: "running C run s t \<Longrightarrow> height s \<le> 1024 \<Longrightarrow> height t \<le> 1024"
proof (induction rule: running.induct)
  case (running_step t u)
  then show ?case using step_effect(2,3) [OF running_step.hyps(2)] by linarith
qed
text \<open>
  C8: the stack discipline of the virtual machine.  However many instructions a call has executed, its stack holds at
  most 1024 values; an instruction is only executed when the stack holds the values that its table entry declares, and
  it changes the height of the stack by exactly what the entry declares.
\<close>

theorem stack_discipline:
  assumes "running C run s t" and "height s \<le> 1024"
  shows "height t \<le> 1024 \<and> (\<forall>u. step C GetGenericJumpTable run t = Some (Ok None, u) \<longrightarrow>
    (let e = GetGenericJumpTable (GetOp (pc t) (contract t)) in
     op_minStack e \<le> height t \<and> height u = height t + 1024 - op_maxStack e))"
  unfolding Let_def using running_height [OF assms] step_effect [of C run t] by blast

text \<open>The first steps of a call: \<^verbatim>\<open>PUSH1 1, PUSH1 0, SSTORE\<close>.\<close>

definition sample_call :: vm where
  "sample_call = \<lparr>ev = sample_evm, pc = 0, stack = [], mem = \<lparr>store = [], lastGasCost = 0\<rparr>,
     contract = \<lparr>CallerAddress = zero_Address, c_self = sample_contract, c_analysis = None, c_Code = [0x60, 1, 0x60, 0, 0x55],
       c_CodeHash = EmptyHash, c_Input = [], Gas = 100000, c_value = 0\<rparr>\<rparr>"

lemma table_PUSH1: "GetGenericJumpTable 0x60 = operation_of (Plain (\<lambda>_. opPush1)) GasFastestStep None 0 1 None"
  by (simp add: GetGenericJumpTable_changed foldr_upd changed_entries_def newFrontierInstructionSet_def single_entries_def)

lemma sample_first_step:
  "\<exists>t. step sample_ctx GetGenericJumpTable (\<lambda>_ _ _ _. None) sample_call = Some (Ok None, t) \<and> height t = 1"
  by (simp add: step_def perform_def pbind_def pdo_def sget_def sample_call_def GetOp_def table_PUSH1 operation_of_def minStack_def maxStack_def
      Let_def use_gas_def UseGas_def charge_dynamic_def sret_def opPush1_def push_val_def sbind_def supd_def push_def nothing_def height_def)

theorem stack_discipline_witness:
  "\<exists>t. running sample_ctx (\<lambda>_ _ _ _. None) sample_call t \<and> height t = 1 \<and> height t \<le> 1024"
proof -
  obtain t where t: "step sample_ctx GetGenericJumpTable (\<lambda>_ _ _ _. None) sample_call = Some (Ok None, t)" "height t = 1"
    using sample_first_step by blast
  have "running sample_ctx (\<lambda>_ _ _ _. None) sample_call t" by (rule running_step [OF running_start t(1)])
  then show ?thesis using stack_discipline [of sample_ctx _ sample_call t] t(2) by (auto simp: height_def sample_call_def)
qed

end
