(* ===== verification/SCData.thy ===== *)
theory SCData
  imports Float64 EVM_Base
begin

text \<open>
  The data that the node exchanges with contracts: hexadecimal strings of \<^verbatim>\<open>src/common/bytes.go\<close>, integers and strings
  in the words that contracts use of \<^verbatim>\<open>src/common/typesVM.go\<close>, and the decimal rounding of amounts of
  \<^verbatim>\<open>typesVM.go\<close> and \<^verbatim>\<open>src/account/helper.go\<close>.

  The lemmas: what was written as hexadecimal digits is read back, and an amount written as a word is read back.
\<close>

section \<open>Hexadecimal strings\<close>

definition hex_digit :: "nat \<Rightarrow> char" where
  "hex_digit n = (if n < 10 then char_of (48 + n) else char_of (87 + n))"

definition hex_val :: "char \<Rightarrow> nat option" where
  "hex_val c = (let n = of_char c :: nat in
     if 48 \<le> n \<and> n \<le> 57 then Some (n - 48)
     else if 97 \<le> n \<and> n \<le> 102 then Some (n - 87)
     else if 65 \<le> n \<and> n \<le> 70 then Some (n - 55)
     else None)"

definition Bytes2Hex :: "bytes \<Rightarrow> string" where
  "Bytes2Hex d = concat (map (\<lambda>b. [hex_digit (unat b div 16), hex_digit (unat b mod 16)]) d)"

text \<open>The error of the decoder is dropped: what it had read before the error is the result.\<close>

fun Hex2Bytes :: "string \<Rightarrow> bytes" where
  "Hex2Bytes (a # b # s) = (case (hex_val a, hex_val b) of
     (Some x, Some y) \<Rightarrow> word_of_nat (16 * x + y) # Hex2Bytes s | _ \<Rightarrow> [])"
| "Hex2Bytes _ = []"

lemma hex_val_digit: "n < 16 \<Longrightarrow> hex_val (hex_digit n) = Some n"
  by (auto simp: hex_val_def hex_digit_def Let_def)

lemma Hex2Bytes_Bytes2Hex [simp, codec]: "Hex2Bytes (Bytes2Hex d @ s) = d @ Hex2Bytes s"
proof (induction d)
  case (Cons b d)
  have "unat b < 256" using unsigned_less [of b, where 'a = nat] by simp
  then have "unat b div 16 < 16" by simp
  moreover have "16 * (unat b div 16) + unat b mod 16 = unat b" by simp
  ultimately show ?case using Cons by (simp add: Bytes2Hex_def hex_val_digit)
qed (simp add: Bytes2Hex_def)

lemma Hex2Bytes_all [simp, codec]: "Hex2Bytes (Bytes2Hex d) = d"
  using Hex2Bytes_Bytes2Hex [of d "[]"] by simp

lemma Bytes2Hex_empty [simp]: "Bytes2Hex d = [] \<longleftrightarrow> d = []"
  by (cases d) (simp_all add: Bytes2Hex_def)

section \<open>Words of contracts\<close>

definition GetInt64FromSCByte :: "bytes \<Rightarrow> i64 result" where
  "GetInt64FromSCByte bs = rbind (slice_from bs 24) (\<lambda>b. rbind (slice b 0 8) (\<lambda>w. Ok (be_word w)))"

definition GetUintFromSCByte :: "bytes \<Rightarrow> u64 result" where
  "GetUintFromSCByte bs = rbind (slice_from bs 24) (\<lambda>b. rbind (slice b 0 8) (\<lambda>w. Ok (be_word w)))"

definition GetInt64ToBytesSC :: "i64 \<Rightarrow> bytes" where
  "GetInt64ToBytesSC v = replicate 24 0 @ be_bytes 8 v"

text \<open>The word at the start is taken for the length.\<close>

definition GetStringFromSCBytes :: "bytes \<Rightarrow> u64 \<Rightarrow> bytes result" where
  "GetStringFromSCBytes code startIndex =
     rbind (slice code (unat startIndex) (unat (startIndex + 32))) (\<lambda>o1.
     rbind (GetUintFromSCByte o1) (\<lambda>l.
     slice code (unat (startIndex + 64)) (unat (startIndex + 64 + l))))"

lemma GetInt64FromSCByte_GetInt64ToBytesSC [codec]: "GetInt64FromSCByte (GetInt64ToBytesSC v @ rest) = Ok v"
  by (simp add: GetInt64FromSCByte_def GetInt64ToBytesSC_def slice_def slice_from_def be_word_be_bytes take_bit_word_full)

text \<open>A contract that answers with less than a word makes the reader panic.\<close>

lemma GetInt64FromSCByte_short: "length bs < 32 \<Longrightarrow> GetInt64FromSCByte bs = Panic"
  by (auto simp: GetInt64FromSCByte_def slice_def slice_from_def)

lemma GetStringFromSCBytes_short: "length bs < 32 \<Longrightarrow> GetStringFromSCBytes bs 0 = Panic"
  by (simp add: GetStringFromSCBytes_def slice_def)

definition BytesToHash :: "bytes \<Rightarrow> hash" where
  "BytesToHash b = (let b' = (if length b > HashLength then drop (length b - HashLength) b else b) in
     replicate (HashLength - length b') 0 @ b')"

section \<open>Decimals\<close>

definition Decimals :: byte where "Decimals = 8"

text \<open>\<^verbatim>\<open>math.Pow10\<close>: from two tables of correctly rounded powers.\<close>

definition Pow10 :: "int \<Rightarrow> f64" where
  "Pow10 n =
     (if 0 \<le> n \<and> n \<le> 308 then f64_mul (f64_round (10 ^ (32 * (nat n div 32)))) (f64_round (10 ^ (nat n mod 32)))
      else if -323 \<le> n \<and> n \<le> 0
      then f64_div (f64_round (1 / 10 ^ (32 * (nat (- n) div 32)))) (f64_round (10 ^ (nat (- n) mod 32)))
      else if n > 0 then PInf else Fin 0)"

definition RoundCoin :: "f64 \<Rightarrow> f64" where
  "RoundCoin v = f64_mul (f64_Round (f64_mul v (Pow10 (uint Decimals)))) (Pow10 (- uint Decimals))"

definition RoundToken :: "f64 \<Rightarrow> int \<Rightarrow> f64" where
  "RoundToken v decimal = f64_mul (f64_Round (f64_mul v (Pow10 decimal))) (Pow10 (- decimal))"

definition Int64toFloat64 :: "i64 \<Rightarrow> f64" where
  "Int64toFloat64 v = f64_mul (i64_to_f64 v) (Pow10 (- uint Decimals))"

definition Int64toFloat64ByDecimals :: "i64 \<Rightarrow> byte \<Rightarrow> f64" where
  "Int64toFloat64ByDecimals v decimals = f64_mul (i64_to_f64 v) (Pow10 (- uint decimals))"

text \<open>\<^verbatim>\<open>CalcNewDEXPrice\<close> and the conversions of \<^verbatim>\<open>uint64\<close>.\<close>

definition CalcNewDEXPrice :: "f64 \<Rightarrow> f64 \<Rightarrow> f64 \<Rightarrow> f64" where
  "CalcNewDEXPrice myTokens poolAmountTokens poolAmountCoins =
     (let pricePool = (if f64_less (Fin 0) poolAmountTokens then f64_div poolAmountCoins poolAmountTokens else Fin 0);
          after = f64_sub poolAmountTokens (f64_neg (f64_mul (Fin 2) myTokens))
      in if f64_less (Fin 0) pricePool \<and> f64_less (Fin 0) after then f64_div poolAmountCoins after else Fin 0)"

definition u64_to_f64 :: "u64 \<Rightarrow> f64" where
  "u64_to_f64 x = f64_round (of_int (uint x))"

fun f64_to_u64 :: "f64 \<Rightarrow> u64" where
  "f64_to_u64 (Fin x) = (let t = rat_trunc x in if 0 \<le> t \<and> t < 2 ^ 64 then word_of_int t else 0x8000000000000000)"
| "f64_to_u64 _ = 0x8000000000000000"

end
