(* ===== verification/Hexutil.thy ===== *)
theory Hexutil
  imports SCData
begin

text \<open>
  Hexadecimal text: \<^verbatim>\<open>src/common/hexutil/hexutil.go\<close> and the parts of \<^verbatim>\<open>encoding/hex\<close> and \<^verbatim>\<open>strconv\<close> that it uses.  A
  \<^verbatim>\<open>*big.Int\<close> is an integer; the words that \<^verbatim>\<open>DecodeBig\<close> fills are words of 64 bits.

  The lemmas: what was written as bytes, as a quantity of 64 bits or as a quantity of 256 bits is read back.
\<close>

section \<open>The libraries\<close>

text \<open>\<^verbatim>\<open>hex.DecodeString\<close>: a bad digit is reported before an odd length.\<close>

definition InvalidByte :: string where "InvalidByte = ''encoding/hex: invalid byte''"
definition ErrLength :: string where "ErrLength = ''encoding/hex: odd length hex string''"

fun DecodeString :: "string \<Rightarrow> bytes result" where
  "DecodeString [] = Ok []"
| "DecodeString [c] = Err (if hex_val c = None then InvalidByte else ErrLength)"
| "DecodeString (a # b # s) = (case (hex_val a, hex_val b) of
     (Some x, Some y) \<Rightarrow> rbind (DecodeString s) (\<lambda>d. Ok (word_of_nat (16 * x + y) # d))
   | _ \<Rightarrow> Err InvalidByte)"

text \<open>\<^verbatim>\<open>strconv.ParseUint(s, 16, 64)\<close>, which stops at the first digit that is bad or too much.\<close>

fun parse_digits :: "u64 \<Rightarrow> string \<Rightarrow> u64 result" where
  "parse_digits n [] = Ok n"
| "parse_digits n (c # s) = (case hex_val c of None \<Rightarrow> Err ''invalid syntax''
   | Some d \<Rightarrow> if 0x1000000000000000 \<le> n then Err ''value out of range'' else parse_digits (n * 16 + word_of_nat d) s)"

definition ParseUint :: "string \<Rightarrow> u64 result" where
  "ParseUint s = (if s = [] then Err ''invalid syntax'' else parse_digits 0 s)"

text \<open>\<^verbatim>\<open>strconv.AppendUint\<close> and \<^verbatim>\<open>big.Int.Text\<close> in base 16, for a number that is not negative.\<close>

function hex_text :: "int \<Rightarrow> string" where
  "hex_text n = (if n < 16 then [hex_digit (nat n)] else hex_text (n div 16) @ [hex_digit (nat (n mod 16))])"
  by pat_completeness auto
termination by (relation "measure nat") auto

declare hex_text.simps [simp del]

section \<open>The operations\<close>

definition ErrEmptyString :: string where "ErrEmptyString = ''empty hex string''"
definition ErrSyntax :: string where "ErrSyntax = ''invalid hex string''"
definition ErrMissingPrefix :: string where "ErrMissingPrefix = ''hex string without 0x prefix''"
definition ErrOddLength :: string where "ErrOddLength = ''hex string of odd length''"
definition ErrEmptyNumber :: string where "ErrEmptyNumber = ''hex string '' @ [CHR 0x22] @ ''0x'' @ [CHR 0x22]"
definition ErrLeadingZero :: string where "ErrLeadingZero = ''hex number with leading zero digits''"
definition ErrUint64Range :: string where "ErrUint64Range = ''hex number > 64 bits''"
definition ErrBig256Range :: string where "ErrBig256Range = ''hex number > 256 bits''"

definition mapError :: "string \<Rightarrow> string" where
  "mapError err = (if err = ''value out of range'' then ErrUint64Range
     else if err = ''invalid syntax'' \<or> err = InvalidByte then ErrSyntax
     else if err = ErrLength then ErrOddLength else err)"

definition map_err :: "'a result \<Rightarrow> 'a result" where
  "map_err r = (case r of Err e \<Rightarrow> Err (mapError e) | _ \<Rightarrow> r)"

definition has0xPrefix :: "string \<Rightarrow> bool" where
  "has0xPrefix input \<longleftrightarrow> length input \<ge> 2 \<and> input ! 0 = CHR ''0'' \<and> (input ! 1 = CHR ''x'' \<or> input ! 1 = CHR ''X'')"

definition Decode :: "string \<Rightarrow> bytes result" where
  "Decode input = (if input = [] then Err ErrEmptyString else if \<not> has0xPrefix input then Err ErrMissingPrefix
     else map_err (DecodeString (drop 2 input)))"

definition MustDecode :: "string \<Rightarrow> bytes result" where
  "MustDecode input = (case Decode input of Err e \<Rightarrow> Panic | r \<Rightarrow> r)"

definition Encode :: "bytes \<Rightarrow> string" where
  "Encode b = ''0x'' @ Bytes2Hex b"

definition checkNumber :: "string \<Rightarrow> string result" where
  "checkNumber input = (if input = [] then Err ErrEmptyString else if \<not> has0xPrefix input then Err ErrMissingPrefix
     else let input = drop 2 input in
       if input = [] then Err ErrEmptyNumber
       else if length input > 1 \<and> input ! 0 = CHR ''0'' then Err ErrLeadingZero
       else Ok input)"

definition DecodeUint64 :: "string \<Rightarrow> u64 result" where
  "DecodeUint64 input = rbind (checkNumber input) (\<lambda>raw. map_err (ParseUint raw))"

definition MustDecodeUint64 :: "string \<Rightarrow> u64 result" where
  "MustDecodeUint64 input = (case DecodeUint64 input of Err e \<Rightarrow> Panic | r \<Rightarrow> r)"

definition EncodeUint64 :: "u64 \<Rightarrow> string" where
  "EncodeUint64 i = ''0x'' @ hex_text (uint i)"

text \<open>\<^verbatim>\<open>bigWordNibbles\<close> is 16; \<open>decodeNibble\<close> has no value on a character that is not a digit.\<close>

definition decodeNibble :: "char \<Rightarrow> u64 option" where
  "decodeNibble c = map_option word_of_nat (hex_val c)"

fun big_word :: "u64 \<Rightarrow> string \<Rightarrow> u64 result" where
  "big_word w [] = Ok w"
| "big_word w (c # s) = (case decodeNibble c of None \<Rightarrow> Err ErrSyntax | Some nib \<Rightarrow> big_word (w * 16 + nib) s)"

text \<open>The words from the end of the text on.\<close>

fun big_words :: "nat \<Rightarrow> string \<Rightarrow> u64 list result" where
  "big_words 0 raw = Ok []"
| "big_words (Suc k) raw = (let start = length raw - 16 in
     rbind (big_word 0 (drop start raw)) (\<lambda>w. rbind (big_words k (take start raw)) (\<lambda>ws. Ok (w # ws))))"

definition SetBits :: "u64 list \<Rightarrow> int" where
  "SetBits ws = foldr (\<lambda>w n. uint w + 2 ^ 64 * n) ws 0"

definition DecodeBig :: "string \<Rightarrow> int result" where
  "DecodeBig input = rbind (checkNumber input) (\<lambda>raw.
     if length raw > 64 then Err ErrBig256Range
     else rbind (big_words (length raw div 16 + 1) raw) (\<lambda>words. Ok (SetBits words)))"

definition MustDecodeBig :: "string \<Rightarrow> int result" where
  "MustDecodeBig input = (case DecodeBig input of Err e \<Rightarrow> Panic | r \<Rightarrow> r)"

definition EncodeBig :: "int \<Rightarrow> string" where
  "EncodeBig n = (if n = 0 then ''0x0'' else if n > 0 then ''0x'' @ hex_text n else ''-0x'' @ hex_text (- n))"

section \<open>Round trips\<close>

lemma DecodeString_Bytes2Hex [simp, codec]: "DecodeString (Bytes2Hex b) = Ok b"
proof (induction b)
  case (Cons x b)
  have "unat x < 256" using unsigned_less [of x, where 'a = nat] by simp
  then have "unat x div 16 < 16" by simp
  moreover have "16 * (unat x div 16) + unat x mod 16 = unat x" by simp
  ultimately show ?case using Cons by (simp add: Bytes2Hex_def hex_val_digit)
qed (simp add: Bytes2Hex_def)

lemma Decode_Encode [codec]: "Decode (Encode b) = Ok b"
  by (simp add: Decode_def Encode_def has0xPrefix_def map_err_def)

text \<open>The digits of a number, and that a number other than zero does not start with the digit zero.\<close>

lemma hex_digit_zero: "n < 16 \<Longrightarrow> hex_digit n = CHR ''0'' \<longleftrightarrow> n = 0"
proof -
  assume n: "n < 16"
  have zero: "hex_digit 0 = CHR ''0''" by code_simp
  have "n = 0" if "hex_digit n = CHR ''0''" using hex_val_digit [OF n] hex_val_digit [of 0] that zero by simp
  then show ?thesis using zero by blast
qed

lemma hex_text_ne [simp]: "hex_text n \<noteq> []"
  by (subst hex_text.simps) simp

lemma hex_text_start: "0 < n \<Longrightarrow> hex_text n ! 0 \<noteq> CHR ''0''"
proof (induction n rule: hex_text.induct)
  case (1 n)
  then show ?case
    by (subst hex_text.simps) (auto simp: hex_digit_zero nth_append)
qed

lemma checkNumber_hex_text: "0 \<le> n \<Longrightarrow> checkNumber (''0x'' @ hex_text n) = Ok (hex_text n)"
  using hex_text_start [of n] hex_text.simps [of 0]
  by (cases "n = 0") (auto simp: checkNumber_def has0xPrefix_def Let_def)

lemma parse_digits_append: "parse_digits n (s @ t) = rbind (parse_digits n s) (\<lambda>n. parse_digits n t)"
  by (induction n s rule: parse_digits.induct) (auto split: option.split)

lemma parse_digits_hex_text: "0 \<le> n \<Longrightarrow> n < 2 ^ 64 \<Longrightarrow> parse_digits 0 (hex_text n) = Ok (word_of_int n)"
proof (induction n rule: hex_text.induct)
  case (1 n)
  show ?case
  proof (cases "n < 16")
    case True
    then show ?thesis using 1 by (subst hex_text.simps) (simp add: hex_val_digit)
  next
    case False
    have "parse_digits 0 (hex_text (n div 16)) = Ok (word_of_int (n div 16))" using 1 False by simp
    moreover have "\<not> (0x1000000000000000 \<le> (word_of_int (n div 16) :: u64))"
      using 1 False by (simp add: word_le_def uint_word_of_int)
    moreover have "word_of_int (n div 16) * 16 + word_of_int (n mod 16) = (word_of_int (n div 16 * 16 + n mod 16) :: u64)"
      by (simp only: of_int_add of_int_mult of_int_numeral)
    ultimately show ?thesis
      by (subst hex_text.simps) (simp add: False parse_digits_append hex_val_digit)
  qed
qed

lemma DecodeUint64_EncodeUint64 [codec]: "DecodeUint64 (EncodeUint64 i) = Ok i"
proof -
  have "uint i < 2 ^ 64" using uint_lt2p [of i] by simp
  then show ?thesis
    using checkNumber_hex_text [of "uint i"] parse_digits_hex_text [of "uint i"]
    by (simp add: DecodeUint64_def EncodeUint64_def ParseUint_def map_err_def)
qed

text \<open>The number that a text of digits names.\<close>

definition digit_step :: "int \<Rightarrow> char \<Rightarrow> int" where
  "digit_step n c = 16 * n + (case hex_val c of Some d \<Rightarrow> int d | None \<Rightarrow> 0)"

definition hex_value :: "string \<Rightarrow> int" where
  "hex_value s = foldl digit_step 0 s"

lemma hex_val_small: "hex_val c = Some d \<Longrightarrow> d < 16"
  by (auto simp: hex_val_def Let_def split: if_splits)

lemma digits_from: "foldl digit_step n s = n * 16 ^ length s + hex_value s"
proof (induction s arbitrary: n)
  case (Cons c s)
  have "digit_step n c = 16 * n + digit_step 0 c" by (simp add: digit_step_def)
  then show ?case using Cons [of "digit_step n c"] Cons [of "digit_step 0 c"]
    by (simp add: hex_value_def algebra_simps)
qed (simp add: hex_value_def)

lemma hex_value_append: "hex_value (s @ t) = hex_value s * 16 ^ length t + hex_value t"
  using digits_from [of "hex_value s" t] by (simp add: hex_value_def)

lemma hex_value_bounds: "0 \<le> hex_value s \<and> hex_value s < 16 ^ length s"
proof (induction s rule: rev_induct)
  case (snoc c s)
  have "0 \<le> (case hex_val c of Some d \<Rightarrow> int d | None \<Rightarrow> 0) \<and> (case hex_val c of Some d \<Rightarrow> int d | None \<Rightarrow> 0) < 16"
    by (auto split: option.split dest: hex_val_small)
  then show ?case using snoc by (simp add: hex_value_append) (simp add: hex_value_def digit_step_def)
qed (simp add: hex_value_def)

lemma hex_text_value:
  "0 \<le> n \<Longrightarrow> hex_value (hex_text n) = n \<and> (\<forall>c \<in> set (hex_text n). hex_val c \<noteq> None)"
proof (induction n rule: hex_text.induct)
  case (1 n)
  then show ?case
    by (subst (1 2) hex_text.simps) (auto simp: hex_value_append hex_val_digit hex_value_def digit_step_def)
qed

lemma hex_text_length: "0 \<le> n \<Longrightarrow> n < 16 ^ k \<Longrightarrow> 0 < k \<Longrightarrow> length (hex_text n) \<le> k"
proof (induction k arbitrary: n)
  case (Suc k)
  show ?case
  proof (cases "n < 16")
    case True
    then show ?thesis by (subst hex_text.simps) simp
  next
    case False
    then have "0 < k" using Suc.prems by (cases k) auto
    moreover have "n div 16 < 16 ^ k" using Suc.prems by (simp add: div_less_iff_less_mult mult.commute)
    ultimately have "length (hex_text (n div 16)) \<le> k" using Suc.IH Suc.prems(1) by simp
    then show ?thesis using False by (subst hex_text.simps) simp
  qed
qed simp

lemma big_word_value:
  "\<forall>c \<in> set s. hex_val c \<noteq> None \<Longrightarrow> big_word (word_of_int n) s = Ok (word_of_int (foldl digit_step n s))"
proof (induction s arbitrary: n)
  case (Cons c s)
  then obtain d where d: "hex_val c = Some d" by auto
  have "word_of_int n * 16 + word_of_nat d = (word_of_int (digit_step n c) :: u64)" by (simp add: digit_step_def d mult.commute)
  then show ?case using Cons d by (simp add: decodeNibble_def)
qed simp

lemma big_words_value:
  "\<forall>c \<in> set raw. hex_val c \<noteq> None \<Longrightarrow> length raw \<le> 16 * k \<Longrightarrow> \<exists>ws. big_words k raw = Ok ws \<and> SetBits ws = hex_value raw"
proof (induction k arbitrary: raw)
  case 0
  then show ?case by (simp add: SetBits_def hex_value_def)
next
  case (Suc k)
  let ?n = "length raw - 16"
  obtain ws where ws: "big_words k (take ?n raw) = Ok ws" "SetBits ws = hex_value (take ?n raw)"
    using Suc.IH [of "take ?n raw"] Suc.prems in_set_takeD [of _ ?n raw] by fastforce
  have w: "big_word 0 (drop ?n raw) = Ok (word_of_int (hex_value (drop ?n raw)))"
    using big_word_value [of "drop ?n raw" 0] Suc.prems(1) by (auto simp: hex_value_def dest: in_set_dropD)
  have len: "length (drop ?n raw) \<le> 16" by simp
  have "hex_value (drop ?n raw) < 16 ^ 16"
    using hex_value_bounds [of "drop ?n raw"] power_increasing [OF len, of "16 :: int"] by linarith
  then have u: "uint (word_of_int (hex_value (drop ?n raw)) :: u64) = hex_value (drop ?n raw)"
    using hex_value_bounds [of "drop ?n raw"] by (simp add: uint_word_of_int)
  have "hex_value raw = hex_value (take ?n raw) * 16 ^ length (drop ?n raw) + hex_value (drop ?n raw)"
    using hex_value_append [of "take ?n raw" "drop ?n raw"] by simp
  moreover have "hex_value (take ?n raw) * 16 ^ length (drop ?n raw) = 2 ^ 64 * hex_value (take ?n raw)"
    by (cases "16 \<le> length raw") (simp_all add: hex_value_def)
  ultimately show ?case using ws w u by (simp add: SetBits_def)
qed

lemma DecodeBig_EncodeBig [codec]:
  assumes "0 \<le> n" "n < 2 ^ 256"
  shows "DecodeBig (EncodeBig n) = Ok n"
proof -
  have "EncodeBig n = ''0x'' @ hex_text n"
  proof (cases "n = 0")
    case True
    have "hex_text 0 = ''0''" by code_simp
    then show ?thesis using True by (simp add: EncodeBig_def)
  qed (use assms in \<open>simp add: EncodeBig_def\<close>)
  moreover have "length (hex_text n) \<le> 64" using hex_text_length [of n 64] assms by simp
  moreover have "length (hex_text n) \<le> 16 * (length (hex_text n) div 16 + 1)"
    by (rule order.strict_implies_order) (simp add: dividend_less_div_times)
  ultimately show ?thesis
    using big_words_value [of "hex_text n" "length (hex_text n) div 16 + 1"] hex_text_value [OF assms(1)] checkNumber_hex_text [OF assms(1)]
    by (auto simp: DecodeBig_def)
qed

text \<open>A number below zero is written and not read back.\<close>

lemma DecodeBig_negative: "n < 0 \<Longrightarrow> DecodeBig (EncodeBig n) = Err ErrMissingPrefix"
  by (simp add: DecodeBig_def EncodeBig_def checkNumber_def has0xPrefix_def)

end
