(* ===== verification/Genesis.thy ===== *)
theory Genesis
  imports Chain Hexutil StakingStore Wallet
begin

text \<open>
  The first block: \<^verbatim>\<open>src/genesis/genesis.go\<close> and the tables that \<^verbatim>\<open>src/cmd/mining/main.go\<close> sets up before it.  The
  configuration file arrives decoded, as the record \<open>Genesis\<close>; \<^verbatim>\<open>logger.Fatal\<close>, which ends the program, is an error.  The
  values of the file that are global variables in Go are the record \<open>Globals\<close>; those that the other theories have as
  constants are the ones of the files under \<^verbatim>\<open>src/genesis/config\<close>.  The two values of type \<^verbatim>\<open>float32\<close> are only copied, and every
  \<^verbatim>\<open>float32\<close> is a value of \<open>f64\<close>.

  The lemmas are in \<open>GenesisLedger\<close>.
\<close>

section \<open>The configuration\<close>

record GenesisStaking =
  gs_Account :: string
  gs_Amount :: i64
  gs_LockedAmount :: i64
  gs_ReleasedPerBlock :: i64
  gs_DelegatedAccount :: i16
  gs_OperationalAccount :: bool
  gs_PubKey :: string
  gs_PubKey2 :: string

record GenesisTransactions =
  gt_Account :: string
  gt_Amount :: i64
  gt_LockedAmount :: i64
  gt_ReleasedPerBlock :: i64
  gt_DelegatedAccount :: i16
  gt_PubKey :: string
  gt_Signature :: string
  gt_EscrowTransactionsDelay :: i64
  gt_MultiSignNumber :: byte
  gt_MultiSignAddresses :: string

record Globals =
  g_Height :: i64
  g_ChainID :: i16
  g_RewardRatio :: f64
  g_BlockTimeInterval :: f64
  g_MaxTotalSupply :: i64
  g_InitSupply :: i64
  g_DifficultyMultiplier :: i32
  g_DifficultyChange :: f64
  g_MaxGasUsage :: i64
  g_MaxGasPrice :: i64
  g_MaxTransactionsPerBlock :: i16
  g_MaxTransactionInPool :: int
  g_MaxPeersConnected :: int
  g_NumberOfHashesInBucket :: i64
  g_NumberOfBlocksInBucket :: i64
  g_MinStakingForNode :: i64
  g_MinStakingUser :: i64
  g_OraclesHeightDistance :: i64
  g_VotingHeightDistance :: i64

record Genesis =
  gen_Timestamp :: i64
  gen_ChainID :: i16
  gen_Difficulty :: i32
  gen_RewardRatio :: f64
  gen_BlockTimeInterval :: f64
  gen_MaxTotalSupply :: i64
  gen_InitSupply :: i64
  gen_DifficultyMultiplier :: i32
  gen_DifficultyChange :: f64
  gen_MaxGasUsage :: i64
  gen_MaxGasPrice :: i64
  gen_MaxTransactionsPerBlock :: i16
  gen_MaxTransactionInPool :: int
  gen_MaxPeersConnected :: int
  gen_NumberOfHashesInBucket :: i64
  gen_NumberOfBlocksInBucket :: i64
  gen_MinStakingForNode :: i64
  gen_MinStakingUser :: i64
  gen_OraclesHeightDistance :: i64
  gen_VotingHeightDistance :: i64
  StakedBalances :: "GenesisStaking list"
  gen_Transactions :: "GenesisTransactions list"
  gen_Signature :: string
  OperatorPubKey :: string

text \<open>Every variable is set, so nothing of their old values is left.\<close>

definition setInitParams :: "Genesis \<Rightarrow> Globals" where
  "setInitParams g = \<lparr>g_Height = 0, g_ChainID = gen_ChainID g, g_RewardRatio = gen_RewardRatio g,
     g_BlockTimeInterval = gen_BlockTimeInterval g, g_MaxTotalSupply = gen_MaxTotalSupply g, g_InitSupply = gen_InitSupply g,
     g_DifficultyMultiplier = gen_DifficultyMultiplier g, g_DifficultyChange = gen_DifficultyChange g,
     g_MaxGasUsage = gen_MaxGasUsage g, g_MaxGasPrice = gen_MaxGasPrice g, g_MaxTransactionsPerBlock = gen_MaxTransactionsPerBlock g,
     g_MaxTransactionInPool = gen_MaxTransactionInPool g, g_MaxPeersConnected = gen_MaxPeersConnected g,
     g_NumberOfHashesInBucket = gen_NumberOfHashesInBucket g, g_NumberOfBlocksInBucket = gen_NumberOfBlocksInBucket g,
     g_MinStakingForNode = gen_MinStakingForNode g, g_MinStakingUser = gen_MinStakingUser g,
     g_OraclesHeightDistance = gen_OraclesHeightDistance g, g_VotingHeightDistance = gen_VotingHeightDistance g\<rparr>"

section \<open>Text\<close>

definition GetSignatureFromString :: "EncryptionConfig \<Rightarrow> string \<Rightarrow> Address \<Rightarrow> Signature result" where
  "GetSignatureFromString ec s address = rbind (DecodeString s) (\<lambda>b. Signature_Init ec b address)"

text \<open>\<^verbatim>\<open>strings.Split\<close> at one character.\<close>

fun split_at :: "char \<Rightarrow> string \<Rightarrow> string list" where
  "split_at c [] = [[]]"
| "split_at c (x # xs) = (if x = c then [] # split_at c xs
     else case split_at c xs of [] \<Rightarrow> [[x]] | w # ws \<Rightarrow> (x # w) # ws)"

section \<open>The first block\<close>

definition storeGenesisPubKey :: "'d env \<Rightarrow> string \<Rightarrow> bool \<Rightarrow> (('d, 'z) world_scheme, PubKey) op" where
  "storeGenesisPubKey E pubkeystr primary =
     sbind (slift (DecodeString pubkeystr)) (\<lambda>b.
     sbind (slift (PubKeyToAddress (e_H160 E) b primary)) (\<lambda>addressOp1.
     sbind (slift (PubKey_Init (e_H160 E) (e_ec E) b addressOp1)) (\<lambda>pk.
     sbind (on_db (StorePubKey E pk)) (\<lambda>_.
     sbind (on_db (StorePubKeyInPatriciaTrie E pk)) (\<lambda>_. sret pk)))))"

fun genesis_msa :: "string list \<Rightarrow> addr20 list result" where
  "genesis_msa [] = Ok []"
| "genesis_msa (as # rest) = (if as = [] then genesis_msa rest
     else rbind (DecodeString as) (\<lambda>a. rbind (slice a 0 AddressLength) (\<lambda>b.
       rbind (genesis_msa rest) (\<lambda>bs. Ok (copy_into (replicate 20 0) b # bs)))))"

definition GenesisTransaction ::
  "'d env \<Rightarrow> i16 \<Rightarrow> Address \<Rightarrow> Address \<Rightarrow> GenesisTransactions \<Rightarrow> i16 \<Rightarrow> i64 \<Rightarrow> (('d, 'z) world_scheme, Transaction) op" where
  "GenesisTransaction E chain sender recipient genTx walletNonce timestamp =
     sbind (slift (DecodeString (gt_PubKey genTx))) (\<lambda>pkb.
     sbind (slift (PubKey_Init (e_H160 E) (e_ec E) pkb recipient)) (\<lambda>pk.
     sbind (on_db (StorePubKey E pk)) (\<lambda>_.
     sbind (slift (genesis_msa (split_at CHR '','' (gt_MultiSignAddresses genTx)))) (\<lambda>msa.
     sbind (slift (GetDelegatedAccountAddress (gt_DelegatedAccount genTx))) (\<lambda>del.
     let txdata = zero_TxData\<lparr>Recipient := recipient, Amount := gt_Amount genTx, tx_LockedAmount := gt_LockedAmount genTx,
           tx_ReleasePerBlock := gt_ReleasedPerBlock genTx, DelegatedAccountForLocking := del,
           EscrowTransactionsDelay := gt_EscrowTransactionsDelay genTx, tx_MultiSignNumber := gt_MultiSignNumber genTx,
           tx_MultiSignAddresses := msa\<rparr>;
         txParam = zero_TxParam\<lparr>TxParam.ChainID := chain, Sender := sender, SendingTime := timestamp, Nonce := walletNonce\<rparr>;
         t = CalcHashAndSet (e_H256 E) (zero_Transaction\<lparr>tx_Data := txdata, tx_Param := txParam\<rparr>) in
     sbind (slift (GetSignatureFromString (e_ec E) (gt_Signature genTx) sender)) (\<lambda>signature.
     sbind (sget (\<lambda>w. Transaction_Verify (e_kv E) (e_unjson E) (e_oqs_len E) (e_oqs_verify E) (e_H256 E) (e_ec E)
       (w_accounts w) (w_db w) (t\<lparr>tx_Signature := signature\<rparr>))) (\<lambda>(r, t').
     sbind (slift r) (\<lambda>ok.
     if \<not> ok then serr ''genesis transaction cannot be verified'' else sret t'))))))))"

text \<open>The transactions of the file, with a nonce that counts up and may wrap.\<close>

fun genesis_txs ::
  "'d env \<Rightarrow> Genesis \<Rightarrow> Address \<Rightarrow> i16 \<Rightarrow> GenesisTransactions list \<Rightarrow> (('d, 'z) world_scheme, hash list) op" where
  "genesis_txs E g addressOp1 walletNonce [] = sret []"
| "genesis_txs E g addressOp1 walletNonce (genTx # rest) =
     sbind (slift (DecodeString (gt_Account genTx))) (\<lambda>ab.
     sbind (slift (BytesToAddress ab)) (\<lambda>a.
     sbind (GenesisTransaction E (gen_ChainID g) addressOp1 a genTx walletNonce (gen_Timestamp g)) (\<lambda>tx.
     let tx = CalcHashAndSet (e_H256 E) tx in
     sbind (on_db (StoreToDBPoolTx (e_kv E) TransactionPoolHashesDBPrefix tx)) (\<lambda>_.
     sbind (genesis_txs E g addressOp1 (walletNonce + 1) rest) (\<lambda>hs. sret (tx_Hash tx # hs))))))"

definition genesis_stake :: "'d env \<Rightarrow> Genesis \<Rightarrow> GenesisStaking \<Rightarrow> (('d, 'z) world_scheme, unit) op" where
  "genesis_stake E g stkTx =
     sbind (slift (DecodeString (gs_Account stkTx))) (\<lambda>ab.
     let addrb = copy_into (replicate 20 0) ab in
     sbind (slift (GetDelegatedAccountAddress (gs_DelegatedAccount stkTx))) (\<lambda>firstDel.
     let as = zero_StakingAccount\<lparr>StakedBalance := gs_Amount stkTx, sa_DelegatedAccount := addr_ByteValue firstDel,
           sa_Address := addrb, OperationalAccount := gs_OperationalAccount stkTx, LockedInitBlock := [0],
           LockedAmount := [gs_LockedAmount stkTx], ReleasePerBlock := [gs_ReleasedPerBlock stkTx],
           StakingDetails := [(0, [\<lparr>sd_Amount = gs_Amount stkTx, sd_Reward = 0, sd_LastUpdated = gen_Timestamp g\<rparr>])]\<rparr> in
     sbind (storeGenesisPubKey E (gs_PubKey stkTx) True) (\<lambda>pk1.
     sbind (if gs_PubKey2 stkTx \<noteq> []
            then sbind (storeGenesisPubKey E (gs_PubKey2 stkTx) False) (\<lambda>pk2.
              on_db (AddPubKeyToAddress (e_kv E) (e_enc E) (e_H256 E) (e_H160 E) pk2 (pk_Address pk1)))
            else sret ()) (\<lambda>_.
     on_staking (staking_store (sint (gs_DelegatedAccount stkTx)) addrb as)))))"

definition genesis_header :: "'d env \<Rightarrow> Wallet \<Rightarrow> Genesis \<Rightarrow> Address \<Rightarrow> hash \<Rightarrow> (('d, 'z) world_scheme, BaseHeader) op" where
  "genesis_header E myWallet g addressOp1 rootHash =
     sbind (slift (GetDelegatedAccountAddress 1)) (\<lambda>del1.
     let bh = \<lparr>PreviousHash = EmptyHash, Difficulty = gen_Difficulty g, bh_Height = 0, bh_DelegatedAccount = del1,
           OperatorAccount = addressOp1, RootMerkleTree = rootHash, Encryption1 = [], Encryption2 = [],
           bh_Signature = zero_Signature, SignatureMessage = []\<rparr>;
         message = BaseHeader_GetBytesWithoutSignature bh in
     sbind (slift (Wallet_Sign (e_ec E) myWallet (e_H256 E message) True)) (\<lambda>_.
     sbind (slift (GetSignatureFromString (e_ec E) (gen_Signature g) addressOp1)) (\<lambda>signature.
     let bh = bh\<lparr>SignatureMessage := message, bh_Signature := signature\<rparr> in
     sbind (sread (\<lambda>w. BaseHeader_Verify (e_kv E) (e_unjson E) (e_oqs_len E) (e_oqs_verify E) (e_H256 E) (e_ec E) (e_pref E) (e_coin E)
       (w_db w) bh)) (\<lambda>ok.
     if \<not> ok then serr ''Block Header signature in genesis block fails to verify'' else sret bh))))"

definition genesis_block :: "digest \<Rightarrow> Genesis \<Rightarrow> BaseHeader \<Rightarrow> hash list \<Rightarrow> Block" where
  "genesis_block H256 g bh hs =
     (let bb = \<lparr>bb_BaseHeader = bh, BlockHeaderHash = BaseHeader_CalcHash H256 bh, BlockTimeStamp = gen_Timestamp g,
            RewardPercentage = 0, Supply = gen_InitSupply g + GetReward (gen_InitSupply g), PriceOracle = 0, RandOracle = 0,
            PriceOracleData = [], RandOracleData = []\<rparr>;
          bl = \<lparr>bl_BaseBlock = bb, TransactionsHashes = hs, BlockHash = EmptyHash, BlockFee = 0\<rparr>
      in bl\<lparr>BlockHash := CalcBlockHash H256 bl\<rparr>)"

definition CreateBlockFromGenesis :: "'d env \<Rightarrow> Wallet \<Rightarrow> Genesis \<Rightarrow> (('d, 'z) world_scheme, Block) op" where
  "CreateBlockFromGenesis E myWallet g =
     (let initSupplyWithoutStaked = gen_InitSupply g - sum_list (map gs_Amount (StakedBalances g)) in
     sbind (storeGenesisPubKey E (OperatorPubKey g) True) (\<lambda>pkOp1.
     let addressOp1 = pk_Address pkOp1; k = addr_ByteValue addressOp1 in
     sbind (on_accounts (supd (\<lambda>s. s\<lparr>AllAccounts := mput k
       ((mgetd zero_Account (AllAccounts s) k)\<lparr>Balance := initSupplyWithoutStaked, acc_Address := k\<rparr>) (AllAccounts s)\<rparr>))) (\<lambda>_.
     sbind (genesis_txs E g addressOp1 0 (gen_Transactions g)) (\<lambda>hs.
     sbind (sfor (genesis_stake E g) (StakedBalances g)) (\<lambda>_.
     sbind (sget w_staking) (\<lambda>st.
     sbind (on_db (StoreStakingAccounts (e_kv E) 0 st)) (\<lambda>_.
     sbind (slift (BuildMerkleTree (e_H256 E) hs)) (\<lambda>tree.
     sbind (on_db (StoreTree (e_kv E) (e_enc E) tree 0)) (\<lambda>_.
     sbind (genesis_header E myWallet g addressOp1 (GetHashFromBytes (GetRootHash tree))) (\<lambda>bh.
     sret (genesis_block (e_H256 E) g bh hs)))))))))))"

definition InitGenesis :: "'d env \<Rightarrow> Wallet \<Rightarrow> Genesis \<Rightarrow> (('d, 'z) world_scheme, Globals \<times> Block) op" where
  "InitGenesis E myWallet g =
     (let globals = setInitParams g in
     sbind (CreateBlockFromGenesis E myWallet g) (\<lambda>genesisBlock.
     sbind (ProcessBlockTransfers E genesisBlock (GetReward (gen_InitSupply g))) (\<lambda>_.
     sbind (on_db (StoreBlock (e_kv E) genesisBlock)) (\<lambda>_.
     sbind (sget w_accounts) (\<lambda>acs.
     sbind (on_db (StoreAccounts (e_kv E) (g_Height globals) 0 acs)) (\<lambda>_.
     sbind (sget w_staking) (\<lambda>st.
     sbind (on_db (StoreStakingAccounts (e_kv E) 0 st)) (\<lambda>_. sret (globals, genesisBlock)))))))))"

section \<open>The tables before the first block\<close>

definition start_accounts :: "addr20 \<Rightarrow> AccountsType" where
  "start_accounts addrbytes = \<lparr>AllAccounts = [(addrbytes, zero_Account\<lparr>Balance := 0, acc_Address := addrbytes\<rparr>)], acs_Height = 0\<rparr>"

text \<open>The entry of the wallet does not carry its own address.\<close>

definition start_staking_account :: "i16 \<Rightarrow> StakingAccount result" where
  "start_staking_account i = rbind (GetDelegatedAccountAddress i) (\<lambda>del.
     Ok (zero_StakingAccount\<lparr>sa_DelegatedAccount := copy_into (replicate 20 0) (addr_ByteValue del)\<rparr>))"

fun start_maps :: "addr20 \<Rightarrow> i16 list \<Rightarrow> staking result" where
  "start_maps addrbytes [] = Ok []"
| "start_maps addrbytes (i # is) = rbind (start_staking_account i) (\<lambda>sa. rbind (start_maps addrbytes is) (\<lambda>ms.
     Ok ([(addrbytes, sa)] # ms)))"

definition start_staking :: "addr20 \<Rightarrow> staking result" where
  "start_staking addrbytes = rbind (start_maps addrbytes (map word_of_nat [1..<256])) (\<lambda>ms. Ok ([] # ms))"

end
