(* ===== verification/EVM_Static.thy ===== *)
theory EVM_Static
  imports EVM_Limits
begin

text \<open>
  Read-only calls: what a static call runs, and all that it calls in turn, leaves the state of the contracts as it was,
  except for the recorded preimages.  The contract between the instructions and the interpreter is the locale
  \<open>static_runner\<close>.
\<close>

section \<open>The state under a read-only flag\<close>

definition stays :: "bool \<Rightarrow> StateAccount \<Rightarrow> evm \<Rightarrow> bool" where
  "stays b F e \<longleftrightarrow> in_readOnly e = b \<and> without_preimages (evm_StateDB e) = F"

text \<open>A call that returns, returns in a state in \<open>I\<close>.\<close>

definition pok :: "('s \<Rightarrow> bool) \<Rightarrow> ('s, 'a) pop \<Rightarrow> bool" where
  "pok I m \<longleftrightarrow> (\<forall>s x s'. I s \<longrightarrow> m s = Some (Ok x, s') \<longrightarrow> I s')"

lemma pok_pdo: "preserves I m \<Longrightarrow> pok I (pdo m)"
  unfolding pok_def preserves_def by (metis pdo_Some snd_conv)

lemma pok_pbind: "pok I m \<Longrightarrow> (\<And>x. pok I (f x)) \<Longrightarrow> pok I (pbind m f)"
  unfolding pok_def by (blast elim: pbind_SomeE)

lemma pok_sget: "(\<And>s. I s \<Longrightarrow> pok I (f (g s))) \<Longrightarrow> pok I (pbind (pdo (sget g)) f)"
  unfolding pok_def pbind_sget by blast

lemma pok_same: "pok I (pdo (sret x))" "pok I (pdo (slift r))" "pok I (pdo (sread h))"
  by (simp_all add: pok_pdo effects)

lemma stays_ends: "stays b F e \<Longrightarrow> Snapshot (evm_StateDB e) = SnapShotNum F"
  by (auto simp: stays_def Snapshot_def without_preimages_def)

lemma stays_readOnly: "stays b F e \<Longrightarrow> in_readOnly e = b"
  by (simp add: stays_def)

text \<open>Nothing was written since the snapshot, and the call that failed takes nothing back.\<close>

lemma revert_nothing: "preserves (\<lambda>sa. without_preimages sa = F) (RevertToSnapshot (SnapShotNum F))"
proof -
  have "without_preimages (sa\<lparr>SnapShotNum := SnapShotNum F\<rparr>) = F" if "without_preimages sa = F" for sa
    using that by (auto simp: without_preimages_def)
  moreover have "SnapShotNum sa = SnapShotNum F" if "without_preimages sa = F" for sa
    using that by (auto simp: without_preimages_def)
  ultimately show ?thesis
    by (simp add: preserves_def RevertToSnapshot_def sbind_def sget_def supd_def sret_def)
qed

lemma preserves_end_call: "preserves (stays b F) (end_call (SnapShotNum F) r)"
  unfolding end_call_def
  by (auto intro!: effects preserves_zoom [OF revert_nothing] simp: stays_def split: prod.split option.split)

lemma preserves_machine: "preserves (stays b F) (CaptureExit C out)" "preserves (stays b F) (NewContract caller self v gas)"
  "preserves (stays b F) (run_precompiled p input gas)"
  by (auto simp: CaptureExit_def NewContract_def run_precompiled_def stays_def intro!: effects preserves_supd preserves_if split: ContractRef.split)

section \<open>Calls\<close>

locale static_runner =
  fixes run :: runner
  assumes run_static: "b \<or> ro \<Longrightarrow> pok (stays b F) (run c inp ro)"
begin

lemma run_code_static: "b \<or> ro \<Longrightarrow> pok (stays b F) (run_code run c inp ro)"
  unfolding run_code_def by (auto intro!: pok_pbind run_static pok_same split: prod.split)

lemma call_with_static: "b \<or> ro \<Longrightarrow> pok (stays b F) (call_with C run caller self as addr input gas v ro)"
  unfolding call_with_def
  by (rule pok_sget)
    (auto intro!: pok_pbind pok_pdo preserves_machine preserves_end_call effects run_code_static simp: stays_ends split: option.split)

lemma other_calls_static:
  "pok (stays True F) (CallCode C run caller addr input gas v)"
  "pok (stays True F) (DelegateCall C run caller addr input gas)"
  "pok (stays b F) (StaticCall C run caller addr input gas)"
  unfolding CallCode_def DelegateCall_def StaticCall_def
  by (auto intro!: pok_sget pok_same call_with_static split: option.split)

lemma Call_static: "precompile C addr = None \<Longrightarrow> pok (stays True F) (Call C run caller addr input gas 0)"
  unfolding Call_def Let_def
  by (rule pok_sget)
    (auto intro!: pok_pbind pok_pdo preserves_machine preserves_end_call effects run_code_static pok_same pok_sget preserves_if
      simp: stays_ends split: prod.split)

text \<open>The same for the running call.\<close>

lemma static_with_self: "(\<And>self. pok (stays b F) (f self)) \<Longrightarrow> pok (\<lambda>s. stays b F (ev s)) (with_self f)"
  by (auto simp: pok_def with_self_def in_ev_def split: option.splits)

lemma frozen_static: "keeps frozen m \<Longrightarrow> preserves (\<lambda>s. stays True F (ev s)) m"
  by (auto simp: keeps_def preserves_def frozen_def stays_def split: if_splits)

lemma instructions_static:
  assumes "\<And>x. precompile C (word_address x) = None"
  shows "pok (\<lambda>s. stays True F (ev s)) (opCall C run)" "pok (\<lambda>s. stays True F (ev s)) (opCallCode C run)"
    "pok (\<lambda>s. stays True F (ev s)) (opDelegateCall C run)" "pok (\<lambda>s. stays True F (ev s)) (opStaticCall C run)"
    "pok (\<lambda>s. stays True F (ev s)) (opCreate C run)" "pok (\<lambda>s. stays True F (ev s)) (opCreate2 C run)"
proof -
  have m: "preserves (\<lambda>s. stays True F (ev s)) pop" "preserves (\<lambda>s. stays True F (ev s)) (call_args x y)"
    "preserves (\<lambda>s. stays True F (ev s)) (end_op_call x y r)" "preserves (\<lambda>s. stays True F (ev s)) (fail err)" for x y r err
    by (auto simp: call_args_def end_op_call_def fail_def add_gas_def set_returnData_def push_def stays_def
        intro!: effects preserves_supd split: prod.split)
      (simp_all add: preserves_def pop_def split: list.splits)
  note i = pok_pbind [OF pok_pdo] pok_pbind [OF static_with_self] pok_pdo m effects
  show "pok (\<lambda>s. stays True F (ev s)) (opCall C run)"
    unfolding opCall_def
    by (intro pok_pbind [OF pok_pdo [OF m(1)]] pok_pbind [OF pok_pdo [OF m(2)]] pok_sget)
      (auto intro!: i Call_static assms simp: stays_readOnly)
  show "pok (\<lambda>s. stays True F (ev s)) (opCallCode C run)"
    unfolding opCallCode_def by (intro i other_calls_static)
  show "pok (\<lambda>s. stays True F (ev s)) (opDelegateCall C run)"
    unfolding opDelegateCall_def by (intro i other_calls_static)
  show "pok (\<lambda>s. stays True F (ev s)) (opStaticCall C run)"
    unfolding opStaticCall_def by (intro i other_calls_static)
  show "pok (\<lambda>s. stays True F (ev s)) (opCreate C run)" "pok (\<lambda>s. stays True F (ev s)) (opCreate2 C run)"
    unfolding opCreate_def opCreate2_def pguarded_def by (rule pok_sget; simp add: stays_readOnly pok_pdo m)+
qed

lemma step_static:
  assumes "\<And>x. precompile C (word_address x) = None"
  shows "pok (\<lambda>s. stays True F (ev s)) (step C GetGenericJumpTable run)"
proof -
  have r: "pok (\<lambda>s. stays True F (ev s)) (run_operation (execute (GetGenericJumpTable op)) C run)" for op
    using calling_table [of op] plain_keeps_frozen [of C op] instructions_static [OF assms]
    by (auto simp: calling_entries_def operation_of_def plain_keeps_def intro!: pok_pdo frozen_static)
  have u: "keeps frozen (use_gas g)" for g
    by (auto simp: keeps_def use_gas_eq frozen_def)
  note c = frozen_static [OF frozen.keeps_charge_dynamic [OF frozen.gas_keeps_table u]] frozen_static [OF u]
  show ?thesis
    unfolding step_def perform_def Let_def
    by (auto intro!: pok_sget pok_pbind r pok_pdo c effects preserves_supd split: option.split prod.split)
qed

end

section \<open>The interpreter\<close>

lemma Run_with_static:
  assumes "\<And>F. pok (\<lambda>s. stays True F (ev s)) lp"
  shows "static_runner (Run_with lp)"
proof
  fix b ro F and c :: Contract and inp assume ro: "b \<or> ro"
  show "pok (stays b F) (Run_with lp c inp ro)"
    unfolding pok_def
  proof (intro allI impI)
    fix e x e' assume e: "stays b F e" and run: "Run_with lp c inp ro e = Some (Ok x, e')"
    define e1 where "e1 = e\<lparr>evm_depth := evm_depth e + 1, in_readOnly := in_readOnly e \<or> ro, in_returnData := []\<rparr>"
    define s where "s = \<lparr>ev = e1, pc = 0, stack = [], mem = NewMemory, contract = c\<lparr>c_Input := inp\<rparr>\<rparr>"
    have s: "stays True F (ev s)" using e ro by (auto simp: s_def e1_def stays_def)
    show "stays b F e'"
    proof (cases "c_Code c = []")
      case True
      then show ?thesis using run e by (auto simp: Run_with_def pbind_pdo sget_def supd_def sret_def pdo_def pbind_def stays_def)
    next
      case False
      from run False obtain y s' where q: "lp s = Some (Ok y, s')"
        and e': "e' = (ev s')\<lparr>evm_depth := evm_depth (ev s') - 1, in_readOnly := in_readOnly (ev s') \<and> \<not> (ro \<and> \<not> in_readOnly e)\<rparr>"
        unfolding Run_with_def
        by (auto simp: pbind_pdo sget_def supd_def sret_def pdo_def s_def e1_def elim!: pbind_SomeE split: option.splits)
          (auto simp: rbind_Ok_iff)
      with s assms [of F] have "stays True F (ev s')" by (auto simp: pok_def)
      with e e' ro show ?thesis by (auto simp: stays_def)
    qed
  qed
qed

lemma loop_static:
  assumes "\<And>x. precompile C (word_address x) = None"
  shows "pok (\<lambda>s. stays True F (ev s)) (loop n C GetGenericJumpTable)"
proof (induction n arbitrary: F)
  case 0
  show ?case by (simp add: pok_def)
next
  case (Suc n)
  have "static_runner (Run_with (loop n C GetGenericJumpTable))"
    by (rule Run_with_static) (rule Suc.IH)
  from static_runner.step_static [OF this assms] show ?case
    unfolding loop.simps by (rule pok_pbind) (auto intro!: Suc.IH pok_same split: option.split)
qed

text \<open>With the rules of the chain no address that a contract can name is the one of a precompiled contract.\<close>

lemma chain_precompile: "chainRules C = chain_Rules \<Longrightarrow> precompile C (word_address x) = None"
  by (simp add: precompile_def chain_Rules_def precompiled_unreachable)

lemma Run_static: "chainRules C = chain_Rules \<Longrightarrow> static_runner (Run n C)"
  unfolding Run_def by (intro Run_with_static loop_static chain_precompile)

text \<open>The interpreter with the rules of the chain.\<close>

interpretation chain_interpreter: static_runner "Run n (C\<lparr>chainRules := chain_Rules\<rparr>)" for n C
  by (rule Run_static) simp

text \<open>
  C7: a static call ends, whatever code it runs and whatever that code calls, and when it returns the state of all
  contracts is as it was before the call, except for the recorded preimages; the flag for read-only calls is as before.\<close>

theorem StaticCall_changes_nothing:
  assumes "chainRules C = chain_Rules" and "unat gas < n"
  shows "\<exists>r e'. (\<forall>k \<ge> n. StaticCall C (Run k C) caller addr input gas e = Some (r, e')) \<and>
    (\<forall>x. r = Ok x \<longrightarrow> (evm_StateDB e')\<lparr>States := []\<rparr> = (evm_StateDB e)\<lparr>States := []\<rparr> \<and> in_readOnly e' = in_readOnly e)"
proof -
  have "returns_within gas (\<lambda>(ret, left, err). left) (\<lambda>k. StaticCall C (Run k C) caller addr input gas) e n"
    by (rule StaticCall_returns) (rule assms(2))
  then obtain r e' where r: "\<forall>k \<ge> n. StaticCall C (Run k C) caller addr input gas e = Some (r, e')"
    unfolding returns_within_def by blast
  have "stays (in_readOnly e) (without_preimages (evm_StateDB e)) e'" if "r = Ok x" for x
    using static_runner.other_calls_static(3) [OF Run_static [OF assms(1)]] r that
    unfolding pok_def by (metis order_refl stays_def)
  then have "\<forall>x. r = Ok x \<longrightarrow> (evm_StateDB e')\<lparr>States := []\<rparr> = (evm_StateDB e)\<lparr>States := []\<rparr> \<and> in_readOnly e' = in_readOnly e"
    by (simp add: stays_def without_preimages_def)
  with r show ?thesis by blast
qed

theorem StaticCall_changes_nothing_witness:
  "\<exists>r e'. (\<forall>k \<ge> 100001. StaticCall sample_ctx (Run k sample_ctx) (AccountRef zero_Address) sample_contract [] 100000 sample_evm = Some (r, e')) \<and>
    (\<forall>x. r = Ok x \<longrightarrow> (evm_StateDB e')\<lparr>States := []\<rparr> = (evm_StateDB sample_evm)\<lparr>States := []\<rparr> \<and> in_readOnly e' = in_readOnly sample_evm)"
  by (rule StaticCall_changes_nothing) (simp_all add: sample_ctx_def)

end
