(* ===== verification/Evaluate.thy ===== *)
theory Evaluate
  imports Node EVM_Static SCData
begin

text \<open>
  The contracts of a block: \<^verbatim>\<open>src/blocks/evaluate.go\<close> and \<^verbatim>\<open>EvaluateSmartContracts\<close> of
  \<^verbatim>\<open>src/blocks/processBlock.go\<close>, on the node.  Every call of the machine starts with a new interpreter on the shared
  state of the contracts; its fuel is above its gas, which is always enough.

  The library functions of the machine are the context \<open>ex_vm\<close>, of which all fields that the code sets are overwritten.
  The text that the tracer collects for a transaction holds durations that the clock measured; it is the parameter
  \<open>ex_trace\<close>.

  That an evaluation makes and destroys no coins is shown in \<open>EvaluateLedger\<close>.
\<close>

section \<open>The machine of a transaction\<close>

record evaluator =
  ex_vm :: vmctx
  ex_trace :: "Transaction \<Rightarrow> evm \<Rightarrow> string"

definition MaxGasUsage :: i64 where "MaxGasUsage = 13700000"

definition block_ctx :: "evaluator \<Rightarrow> 'd env \<Rightarrow> 'd \<Rightarrow> Block \<Rightarrow> Address \<Rightarrow> u64 \<Rightarrow> vmctx" where
  "block_ctx X E d bl origin limit = (ex_vm X)\<lparr>
     chainRules := chain_Rules, CanTransfer := None,
     GetHash := (\<lambda>height. BytesToHash (case LoadHashOfBlock (e_kv E) height d of Ok b \<Rightarrow> b | _ \<Rightarrow> [])),
     Coinbase := EmptyAddress, GasLimit := limit, BlockNumber := sint (bh_Height (GetHeader bl)), vc_Time := sint (e_now E),
     vc_Difficulty := sint (scast (Difficulty (GetHeader bl)) :: i64), BaseFee := 0, Random := None, Origin := origin,
     vmctx.GasPrice := 0, vc_ChainID := 1337, vc_Debug := True, EnablePreimageRecording := True, vc_abort := False\<rparr>"

definition NewEVM :: "StateAccount \<Rightarrow> evm" where
  "NewEVM sa = \<lparr>evm_StateDB = sa, evm_depth = 0, callGasTemp = 0, in_readOnly = False, in_returnData = [], jumpdests = [], log_Output = []\<rparr>"

text \<open>A call of a new machine on the state of the node, with fuel above its gas.\<close>

definition in_evm :: "u64 \<Rightarrow> (nat \<Rightarrow> (evm, 'a) pop) \<Rightarrow> ('d node, 'a \<times> evm) op" where
  "in_evm gas call n = (case call (Suc (unat gas)) (NewEVM (n_State n)) of
     None \<Rightarrow> (Panic, n)
   | Some (r, e) \<Rightarrow> (rbind r (\<lambda>x. Ok (x, e)), n\<lparr>n_State := evm_StateDB e\<rparr>))"

text \<open>The fuel is always enough: no call of a new machine is cut off.\<close>

lemma in_evm_returns:
  "Create C (Run (Suc (unat gas)) C) caller code gas v nonce e \<noteq> None"
  "Call C (Run (Suc (unat gas)) C) caller addr input gas v e \<noteq> None"
  "StaticCall C (Run (Suc (unat gas)) C) caller addr input gas e \<noteq> None"
  using Create_returns [of gas "Suc (unat gas)" C caller code v nonce e] Call_returns [of gas "Suc (unat gas)" C caller addr input v e]
    StaticCall_returns [of gas "Suc (unat gas)" C caller addr input e]
  by (auto simp: returns_within_def)

type_synonym evaluated = "string \<times> bytes \<times> Address \<times> u64 \<times> vmerr option"

definition left_gas :: "u64 \<Rightarrow> vmerr option \<Rightarrow> u64" where
  "left_gas left err = (if err = None then f64_to_u64 (f64_div (u64_to_f64 left) (Fin 10)) else left)"

definition EvaluateSC :: "evaluator \<Rightarrow> 'd env \<Rightarrow> Transaction \<Rightarrow> Block \<Rightarrow> ('d node, evaluated) op" where
  "EvaluateSC X E tx bl =
     (if OptData (tx_Data tx) = [] then sret ([], [], zero_Address, 0, None)
      else
      let origin = Sender (tx_Param tx); code = OptData (tx_Data tx); gas = GasUsage tx * 10 :: u64;
          nonce = scast (Nonce (tx_Param tx)) :: u64; address = Recipient (tx_Data tx) in
      sbind (sget (\<lambda>n. block_ctx X E (w_db n) bl origin (MaxGasUsage * 10))) (\<lambda>C.
      if address = EmptyAddress
      then sbind (in_evm gas (\<lambda>k. Create C (Run k C) (AccountRef origin) code gas 0 nonce)) (\<lambda>((ret, a, left, err), e).
        sret (ex_trace X tx e, ret, a, left_gas left err, err))
      else sbind (in_evm gas (\<lambda>k. Call C (Run k C) (AccountRef origin) address code gas 0)) (\<lambda>((ret, left, err), e).
        sret (ex_trace X tx e, ret, address, left_gas left err, err))))"

definition EvaluateSCDex :: "evaluator \<Rightarrow> 'd env \<Rightarrow> Address \<Rightarrow> Address \<Rightarrow> bytes \<Rightarrow> Transaction \<Rightarrow> Block \<Rightarrow> ('d node, evaluated) op" where
  "EvaluateSCDex X E tokenAddress sender optData tx bl =
     sbind (sget (\<lambda>n. block_ctx X E (w_db n) bl sender (MaxGasUsage * 10))) (\<lambda>C.
     sbind (in_evm 210000 (\<lambda>k. Call C (Run k C) (AccountRef sender) tokenAddress optData 210000 0)) (\<lambda>((ret, left, err), e).
     sret (ex_trace X tx e, ret, tokenAddress, left_gas left err, err)))"

text \<open>The error of the call is overwritten by the one of the decoder, which cannot fail on what the tracer has encoded.\<close>

definition GetViewFunctionReturns :: "evaluator \<Rightarrow> 'd env \<Rightarrow> Address \<Rightarrow> bytes \<Rightarrow> Block \<Rightarrow> ('d node, string \<times> bytes \<times> bytes \<times> u64) op" where
  "GetViewFunctionReturns X E contractAddr input bl =
     sbind (sget (\<lambda>n. block_ctx X E (w_db n) bl EmptyAddress MaxGasUsage)) (\<lambda>C.
     sbind (in_evm MaxGasUsage (\<lambda>k. StaticCall C (Run k C) (AccountRef EmptyAddress) contractAddr input MaxGasUsage)) (\<lambda>((ret, left, err), e).
     let outp = Bytes2Hex (log_Output e) in sret (outp, Hex2Bytes outp, ret, left)))"

section \<open>Tokens\<close>

definition BalanceOfFunc :: bytes where "BalanceOfFunc = [0x70, 0xa0, 0x82, 0x31]"
definition TransferFunc :: bytes where "TransferFunc = [0x6a, 0xfd, 0x30, 0x7b]"
definition NameFunc :: bytes where "NameFunc = [0x06, 0xfd, 0xde, 0x03]"
definition SymbolFunc :: bytes where "SymbolFunc = [0x95, 0xd8, 0x9b, 0x41]"
definition DecimalsFunc :: bytes where "DecimalsFunc = [0x31, 0x3c, 0xe5, 0x67]"

text \<open>\<^verbatim>\<open>bytes.Index(code, sep) >= 0\<close>\<close>

fun has_bytes :: "bytes \<Rightarrow> bytes \<Rightarrow> bool" where
  "has_bytes sep [] = (sep = [])"
| "has_bytes sep (b # s) = (take (length sep) (b # s) = sep \<or> has_bytes sep s)"

definition IsTokenToRegister :: "bytes \<Rightarrow> bool" where
  "IsTokenToRegister code \<longleftrightarrow>
     has_bytes NameFunc code \<and> has_bytes BalanceOfFunc code \<and> has_bytes TransferFunc code \<and> has_bytes SymbolFunc code \<and> has_bytes DecimalsFunc code"

definition SC_GetBalance :: "evaluator \<Rightarrow> 'd env \<Rightarrow> Address \<Rightarrow> Address \<Rightarrow> ('d node, i64) op" where
  "SC_GetBalance X E coin owner =
     sbind (sread (\<lambda>n. LoadBlock (e_kv E) (e_ec E) (n_height n - 1) (w_db n))) (\<lambda>bl.
     sbind (GetViewFunctionReturns X E coin (BalanceOfFunc @ LeftPadBytes (addr_ByteValue owner) 32) bl) (\<lambda>(outp, _, _, _).
     if outp \<noteq> [] then slift (GetInt64FromSCByte (Hex2Bytes outp)) else sret 0))"

definition view_word :: "evaluator \<Rightarrow> 'd env \<Rightarrow> Address \<Rightarrow> bytes \<Rightarrow> Block \<Rightarrow> ('d node, bytes) op" where
  "view_word X E a func bl = sbind (GetViewFunctionReturns X E a func bl) (\<lambda>(outp, _, _, _). sret (Hex2Bytes outp))"

text \<open>The registration of a new token: its name, symbol and decimals are asked from the contract.\<close>

definition register_token :: "evaluator \<Rightarrow> 'd env \<Rightarrow> Address \<Rightarrow> Block \<Rightarrow> ('d node, unit) op" where
  "register_token X E address bl =
     sbind (view_word X E address NameFunc bl) (\<lambda>b.
     sbind (slift (GetStringFromSCBytes b 0)) (\<lambda>nm.
     sbind (view_word X E address SymbolFunc bl) (\<lambda>b.
     sbind (slift (GetStringFromSCBytes b 0)) (\<lambda>symbol.
     sbind (view_word X E address DecimalsFunc bl) (\<lambda>b.
     sbind (slift (GetUintFromSCByte b)) (\<lambda>decimals.
     on_State (supd (RegisterNewToken address (map (char_of \<circ> unat) nm) (map (char_of \<circ> unat) symbol) (ucast decimals)))))))))"

section \<open>The exchange\<close>

abbreviation on_dex :: "(dex, 'a) op \<Rightarrow> ('d node, 'a) op" where
  "on_dex \<equiv> zoom n_dex n_dex_update"

definition positive :: "f64 \<Rightarrow> bool" where
  "positive x = f64_less (Fin 0) x"

text \<open>
  The amounts that a trade moves from the exchange to the sender, in coins and in tokens, and its price; \<open>coin\<close> and
  \<open>token\<close> are the amounts of the transaction, \<open>dec\<close> the decimals of the token.
\<close>

definition trade_amounts :: "f64 \<Rightarrow> f64 \<Rightarrow> byte \<Rightarrow> f64 \<Rightarrow> i64 \<times> i64 \<times> f64" where
  "trade_amounts coinPool tokenPool dec token =
     (let after = f64_sub tokenPool (f64_mul (Fin 2) token);
          price = (if positive coinPool \<and> positive after then RoundToken (f64_div coinPool after) (uint (Decimals + dec)) else Fin 0)
      in if positive price
         then (f64_to_i64 (f64_mul (RoundCoin (f64_mul (f64_neg price) token)) (Pow10 (uint Decimals))),
               f64_to_i64 (f64_mul token (Pow10 (uint dec))), price)
         else (0, 0, price))"

definition dex_amounts :: "int \<Rightarrow> f64 \<Rightarrow> f64 \<Rightarrow> byte \<Rightarrow> f64 \<Rightarrow> f64 \<Rightarrow> (i64 \<times> i64 \<times> f64) option" where
  "dex_amounts operation coinPool tokenPool dec coin token =
     (let poolPrice = (if positive coinPool \<and> positive tokenPool
            then RoundToken (f64_div coinPool tokenPool) (uint (Decimals + dec)) else Fin 0) in
      if operation = 2 then
        Some (f64_to_i64 (f64_mul (f64_neg coin) (Pow10 (uint Decimals))), f64_to_i64 (f64_mul (f64_neg token) (Pow10 (uint dec))),
          RoundToken (f64_div coin token) (uint (Decimals + dec)))
      else if operation = 5 then
        Some (if positive poolPrice
          then (f64_to_i64 (f64_mul (RoundCoin (f64_mul poolPrice token)) (Pow10 (uint Decimals))),
                f64_to_i64 (f64_mul token (Pow10 (uint dec))), poolPrice)
          else (0, 0, Fin 0))
      else if operation = 6 then
        Some (if positive poolPrice
          then (f64_to_i64 (f64_mul coin (Pow10 (uint Decimals))),
                f64_to_i64 (f64_mul (RoundToken (f64_mul (f64_div (Fin 1) poolPrice) coin) (uint dec)) (Pow10 (uint dec))), poolPrice)
          else (0, 0, Fin 0))
      else if operation = 3 then Some (trade_amounts coinPool tokenPool dec token)
      else if operation = 4 then Some (trade_amounts coinPool tokenPool dec (f64_mul token (Fin (- 1))))
      else None)"

definition zero_CoinTokenDetails :: CoinTokenDetails where
  "zero_CoinTokenDetails = \<lparr>CoinBalance = 0, TokenBalance = 0\<rparr>"

definition shares_of :: "DexAccount \<Rightarrow> addr20 \<Rightarrow> CoinTokenDetails" where
  "shares_of acc a = mgetd zero_CoinTokenDetails (Balances acc) a"

text \<open>The call of the token contract that moves the tokens, and who makes it.\<close>

definition transfer_data :: "addr20 \<Rightarrow> Address \<Rightarrow> i64 \<Rightarrow> bytes \<times> Address" where
  "transfer_data senderAcc sender amountToken =
     (if sint amountToken > 0
      then (Hex2Bytes (Bytes2Hex TransferFunc @ Bytes2Hex (LeftPadBytes senderAcc 32) @ Bytes2Hex (LeftPadBytes (GetInt64ToBytesSC amountToken) 32)),
            GetDexAccountAddress)
      else if sint amountToken < 0
      then (Hex2Bytes (Bytes2Hex TransferFunc @ Bytes2Hex (LeftPadBytes (addr_ByteValue GetDexAccountAddress) 32) @
              Bytes2Hex (LeftPadBytes (GetInt64ToBytesSC (- amountToken)) 32)), sender)
      else ([], zero_Address))"

definition GenerateOptDataDEX ::
  "evaluator \<Rightarrow> 'd env \<Rightarrow> Transaction \<Rightarrow> int \<Rightarrow> ('d node, bytes \<times> Address \<times> i64 \<times> i64 \<times> f64) op" where
  "GenerateOptDataDEX X E tx operation =
     sbind (slift (GetInt64FromByte (OptData (tx_Data tx)))) (\<lambda>amountToken.
     let sender = Sender (tx_Param tx); token = ContractAddress tx; amount = Amount (tx_Data tx) in
     if operation = 2 \<and> (sint amount < 0 \<or> sint amountToken < 0) \<or> (operation = 3 \<or> operation = 4) \<and> amountToken = 0 \<or>
        operation = 5 \<and> amountToken = 0 \<or> operation = 6 \<and> amount = 0
     then serr ''withdraw one can perform on one currency the second should be 0''
     else
     sbind (sread (\<lambda>n. GetDexAccountByAddressBytes (addr_ByteValue token) (n_dex n))) (\<lambda>accDex.
     sbind (SC_GetBalance X E token sender) (\<lambda>balanceToken.
     sbind (sget (\<lambda>n. map_of (Tokens (n_State n)) (addr_ByteValue token))) (\<lambda>ti.
     case ti of None \<Rightarrow> serr ''no token with a given address'' | Some ti \<Rightarrow>
     (case dex_amounts operation (Int64toFloat64 (CoinPool accDex)) (Int64toFloat64ByDecimals (TokenPool accDex) (ti_Decimals ti)) (ti_Decimals ti)
         (Int64toFloat64ByDecimals amount Decimals) (Int64toFloat64ByDecimals amountToken (ti_Decimals ti)) of
       None \<Rightarrow> serr ''wrong operation on dex''
     | Some (coinAmt, tokenAmt, price) \<Rightarrow>
     sbind (sread (\<lambda>n. GetAccountByAddressBytes (addr_ByteValue sender) (w_accounts n))) (\<lambda>senderAccount.
     if acc_Address senderAccount \<noteq> addr_ByteValue sender then serr ''no account found in dex transfer''
     else
     sbind (on_accounts (SetAccountByAddressBytes (addr_ByteValue GetDexAccountAddress))) (\<lambda>dexAccount.
     if sint (Balance dexAccount - coinAmt) < 0 then serr ''not enough coins in dex account''
     else
     sbind (SC_GetBalance X E token GetDexAccountAddress) (\<lambda>balanceDexToken.
     if sint (balanceDexToken - tokenAmt) < 0 then serr ''not enough tokens in dex account''
     else if sint (Balance senderAccount + coinAmt) < 0 then serr ''not enough coins in account''
     else if sint (balanceToken + tokenAmt) < 0 then serr ''not enough tokens in account''
     else if sint (CoinBalance (shares_of accDex (acc_Address senderAccount)) - coinAmt) < 0 \<and> (operation = 6 \<or> operation = 5)
     then serr ''not enough coins in dex account''
     else if sint (TokenBalance (shares_of accDex (acc_Address senderAccount)) - tokenAmt) < 0 \<and> (operation = 6 \<or> operation = 5)
     then serr ''not enough tokens in dex account''
     else let (optData, from) = transfer_data (acc_Address senderAccount) sender tokenAmt in
       sret (optData, from, coinAmt, tokenAmt, price)))))))))"

text \<open>What a trade does to the shares of the liquidity providers and to the pools.\<close>

definition trade_share :: "f64 \<Rightarrow> f64 \<Rightarrow> byte \<Rightarrow> CoinTokenDetails \<Rightarrow> CoinTokenDetails" where
  "trade_share coinPercent tokenPercent dec acc = \<lparr>
     CoinBalance = CoinBalance acc + f64_to_i64 (RoundToken (f64_mul coinPercent (i64_to_f64 (CoinBalance acc))) (uint Decimals)),
     TokenBalance = TokenBalance acc + f64_to_i64 (RoundToken (f64_mul tokenPercent (i64_to_f64 (TokenBalance acc))) (uint dec))\<rparr>"

definition update_pool :: "int \<Rightarrow> addr20 \<Rightarrow> i64 \<Rightarrow> i64 \<Rightarrow> f64 \<Rightarrow> byte \<Rightarrow> DexAccount \<Rightarrow> DexAccount" where
  "update_pool operation a coinAmt tokenAmt price dec acc =
     (let acc' = acc\<lparr>TokenPrice := f64_to_i64 (f64_mul price (Pow10 (uint (Decimals + dec))))\<rparr>;
          bals = (if operation = 2 \<or> operation > 4
            then mput a \<lparr>CoinBalance = CoinBalance (shares_of acc a) - coinAmt, TokenBalance = TokenBalance (shares_of acc a) - tokenAmt\<rparr> (Balances acc)
            else map (\<lambda>(k, v). (k, trade_share (f64_div (i64_to_f64 (- coinAmt)) (i64_to_f64 (CoinPool acc)))
              (f64_div (i64_to_f64 (- tokenAmt)) (i64_to_f64 (TokenPool acc))) dec v)) (Balances acc))
      in acc'\<lparr>Balances := bals, TokenPool := TokenPool acc - tokenAmt, CoinPool := CoinPool acc - coinAmt\<rparr>)"

section \<open>The transactions of a block\<close>

text \<open>What the evaluation collects: logs, addresses and returned bytes of a transaction, and the code of an address.\<close>

record collected =
  sc_logs :: "(hash, string) gomap"
  sc_addresses :: "(hash, Address) gomap"
  sc_optDatas :: "(addr20, bytes) gomap"
  sc_rets :: "(hash, bytes) gomap"

text \<open>A trade on the exchange.  The outcome is whether the block goes on.\<close>

definition evaluate_trade :: "evaluator \<Rightarrow> 'd env \<Rightarrow> Block \<Rightarrow> bytes \<Rightarrow> Transaction \<Rightarrow> int \<Rightarrow> ('d node, bool) op" where
  "evaluate_trade X E bl poolprefix t operation =
     sbind (scatch (GenerateOptDataDEX X E t operation)) (\<lambda>r.
     case r of Panic \<Rightarrow> slift Panic | Err _ \<Rightarrow> sret False
     | Ok (dexOptData, fromAddress, coinAmount, tokenAmount, price) \<Rightarrow>
     sbind (EvaluateSCDex X E (ContractAddress t) fromAddress dexOptData t bl) (\<lambda>(l, _, _, _, err).
     if err \<noteq> None then sret False
     else
     sbind (scatch (on_db (StoreToDBPoolTx (e_kv E) poolprefix (t\<lparr>OutputLogs := string_bytes l\<rparr>)))) (\<lambda>r.
     case r of Panic \<Rightarrow> slift Panic | Err _ \<Rightarrow> sret False | Ok _ \<Rightarrow>
     let aa = addr_ByteValue (Sender (tx_Param t)) in
     sbind (scatch (on_accounts (AddBalance aa coinAmount))) (\<lambda>r.
     case r of Panic \<Rightarrow> slift Panic | Err _ \<Rightarrow> sret False | Ok _ \<Rightarrow>
     sbind (scatch (on_accounts (AddBalance (addr_ByteValue GetDexAccountAddress) (- coinAmount)))) (\<lambda>r.
     case r of Panic \<Rightarrow> slift Panic | Err _ \<Rightarrow> sret False | Ok _ \<Rightarrow>
     sbind (sget (\<lambda>n. map_of (Tokens (n_State n)) (addr_ByteValue (ContractAddress t)))) (\<lambda>ti.
     case ti of None \<Rightarrow> sret False | Some ti \<Rightarrow>
     sbind (sread (\<lambda>n. GetDexAccountByAddressBytes (addr_ByteValue (ContractAddress t)) (n_dex n))) (\<lambda>accDex.
     sbind (on_dex (SetDexAccountByAddressBytes (addr_ByteValue (ContractAddress t))
       (update_pool operation aa coinAmount tokenAmount price (ti_Decimals ti) accDex))) (\<lambda>_. sret True))))))))"

text \<open>A transaction with code or a call.\<close>

definition evaluate_contract :: "evaluator \<Rightarrow> 'd env \<Rightarrow> Block \<Rightarrow> bytes \<Rightarrow> Transaction \<Rightarrow> collected \<Rightarrow> ('d node, collected option) op" where
  "evaluate_contract X E bl poolprefix t acc =
     sbind (EvaluateSC X E t bl) (\<lambda>(l, ret, address, _, err).
     sbind (if Recipient (tx_Data t) = EmptyAddress \<and> IsTokenToRegister (OptData (tx_Data t)) \<and> err = None
            then register_token X E address bl else sret ()) (\<lambda>_.
     if err \<noteq> None then sret None
     else
     let t' = t\<lparr>ContractAddress := address, OutputLogs := string_bytes l\<rparr> in
     sbind (scatch (on_db (StoreToDBPoolTx (e_kv E) poolprefix t'))) (\<lambda>r.
     case r of Panic \<Rightarrow> slift Panic | Err _ \<Rightarrow> sret None | Ok _ \<Rightarrow>
     let hh = tx_Hash t in
     sret (Some (acc\<lparr>sc_rets := mput hh ret (sc_rets acc), sc_addresses := mput hh address (sc_addresses acc),
       sc_logs := mput hh l (sc_logs acc), sc_optDatas := mput (addr_ByteValue address) (OptData (tx_Data t)) (sc_optDatas acc)\<rparr>)))))"

text \<open>A transaction of the pool or, when it is not there, of the chain.\<close>

definition load_for_evaluation :: "'d env \<Rightarrow> hash \<Rightarrow> ('d node, bytes \<times> Transaction) op" where
  "load_for_evaluation E th =
     sbind (scatch (LoadPoolTx E TransactionPoolHashesDBPrefix th)) (\<lambda>r.
     case r of
       Ok t \<Rightarrow> sret (TransactionPoolHashesDBPrefix, t)
     | Err _ \<Rightarrow> sbind (LoadPoolTx E TransactionDBPrefix th) (\<lambda>t. sret (TransactionDBPrefix, t))
     | Panic \<Rightarrow> slift Panic)"

definition evaluate_tx :: "evaluator \<Rightarrow> 'd env \<Rightarrow> Block \<Rightarrow> hash \<Rightarrow> collected \<Rightarrow> ('d node, collected option) op" where
  "evaluate_tx X E bl th acc =
     sbind (scatch (load_for_evaluation E th)) (\<lambda>r.
     case r of Panic \<Rightarrow> slift Panic | Err _ \<Rightarrow> sret None | Ok (poolprefix, t) \<Rightarrow>
     sbind (sread (\<lambda>n. GetAccountByAddressBytes (addr_ByteValue (Sender (tx_Param t))) (w_accounts n))) (\<lambda>senderAcc.
     if sint (TransactionDelay senderAcc) > 0 \<and>
        sint (tx_Height t + TransactionDelay senderAcc) > sint (bh_Height (GetHeader bl)) then sret (Some acc)
     else if MultiSignNumber senderAcc > 0 then sret (Some acc)
     else
     sbind (slift (IntDelegatedAccountFromAddress (Recipient (tx_Data t)))) (\<lambda>(n, err).
     if err = None \<and> n > 512
     then sbind (evaluate_trade X E bl poolprefix t (n - 512)) (\<lambda>ok. sret (if ok then Some acc else None))
     else if err = None then sret (Some acc)
     else if OptData (tx_Data t) = [] then sret (Some acc)
     else evaluate_contract X E bl poolprefix t acc)))"

fun evaluate_txs :: "evaluator \<Rightarrow> 'd env \<Rightarrow> Block \<Rightarrow> hash list \<Rightarrow> collected \<Rightarrow> ('d node, collected option) op" where
  "evaluate_txs X E bl [] acc = sret (Some acc)"
| "evaluate_txs X E bl (th # ths) acc =
     sbind (evaluate_tx X E bl th acc) (\<lambda>r. case r of None \<Rightarrow> sret None | Some acc' \<Rightarrow> evaluate_txs X E bl ths acc')"

definition EvaluateSCForBlock :: "evaluator \<Rightarrow> 'd env \<Rightarrow> Block \<Rightarrow> ('d node, collected option) op" where
  "EvaluateSCForBlock X E bl =
     evaluate_txs X E bl (TransactionsHashes bl) \<lparr>sc_logs = [], sc_addresses = [], sc_optDatas = [], sc_rets = []\<rparr>"

definition OutputLogsHashesDBPrefix :: bytes where "OutputLogsHashesDBPrefix = [0x4F, 0x30]"
definition OutputAddressesHashesDBPrefix :: bytes where "OutputAddressesHashesDBPrefix = [0x43, 0x30]"

fun store_outputs :: "'d env \<Rightarrow> collected \<Rightarrow> (hash \<times> Address) list \<Rightarrow> ('d node, bool) op" where
  "store_outputs E c [] = sret True"
| "store_outputs E c ((th, a) # rest) =
     sbind (scatch (on_db (DB_Put (e_kv E) (OutputLogsHashesDBPrefix @ th) (string_bytes (mgetd [] (sc_logs c) th))))) (\<lambda>r.
     case r of Panic \<Rightarrow> slift Panic | Err _ \<Rightarrow> sret False | Ok _ \<Rightarrow>
     sbind (scatch (on_db (DB_Put (e_kv E) (OutputAddressesHashesDBPrefix @ th) (mgetd [] (sc_optDatas c) (addr_ByteValue a))))) (\<lambda>r.
     case r of Panic \<Rightarrow> slift Panic | Err _ \<Rightarrow> sret False | Ok _ \<Rightarrow> store_outputs E c rest))"

definition EvaluateSmartContracts :: "evaluator \<Rightarrow> 'd env \<Rightarrow> Block \<Rightarrow> ('d node, bool) op" where
  "EvaluateSmartContracts X E bl =
     sbind (EvaluateSCForBlock X E bl) (\<lambda>r.
     case r of None \<Rightarrow> sret False
     | Some c \<Rightarrow>
         sbind (on_State (supd (\<lambda>sa. SetSnapShotNum (bh_Height (GetHeader bl)) (Snapshot sa) sa))) (\<lambda>_.
         store_outputs E c (sc_addresses c)))"

end
