(* ===== verification/EvaluateLedger.thy ===== *)
theory EvaluateLedger
  imports Evaluate
begin

text \<open>
  The evaluation of contracts and the ledger: evaluating the contracts of a block conserves the coins of the node and
  leaves the fees of the pooled transactions alone, which is what the acceptance of a block asks of it.  With that, the
  conservation of coins over a block holds for the contracts that the virtual machine runs.
\<close>

section \<open>What the machine leaves alone\<close>

definition ledger_part :: "'d node \<Rightarrow> (AccountsType \<times> staking \<times> TransactionPool \<times> TransactionPool) \<times> 'd" where
  "ledger_part n = (off_db n, w_db n)"

lemma ledger_part_zooms [effects]: "keeps ledger_part (on_State m)" "keeps ledger_part (on_dex m2)"
  by (rule keeps_zoom, simp add: ledger_part_def off_db_def)+

lemma ledger_part_evm [effects]: "keeps ledger_part (in_evm gas call)"
  by (simp add: keeps_def in_evm_def ledger_part_def off_db_def split: option.split)

lemma evaluations_ledger_part [effects]:
  "keeps ledger_part (EvaluateSC X E t bl)" "keeps ledger_part (EvaluateSCDex X E a s d t bl)"
  "keeps ledger_part (GetViewFunctionReturns X E a i bl)"
  unfolding EvaluateSC_def EvaluateSCDex_def GetViewFunctionReturns_def Let_def
  by (auto intro!: effects split: prod.split)

lemma tokens_ledger_part [effects]:
  "keeps ledger_part (SC_GetBalance X E a owner)" "keeps ledger_part (register_token X E a bl)"
  unfolding SC_GetBalance_def register_token_def view_word_def by (auto intro!: effects split: prod.split)

section \<open>The ledger with the fees of the pool\<close>

definition pool_fees :: "'d env \<Rightarrow> 'd \<Rightarrow> bytes \<Rightarrow> (i64 \<times> i64) option" where
  "pool_fees E d h = map_option (\<lambda>t. (tx_fee t, charged_fee t)) (pooled_tx E d h)"

text \<open>Pooled transactions are stored under their hash, and can be stored again with other logs.\<close>

definition restorable :: "'d env \<Rightarrow> Transaction \<Rightarrow> bool" where
  "restorable E t \<longleftrightarrow> Transaction_ok (e_H160 E) (e_ec E) (t\<lparr>OutputLogs := []\<rparr>)"

definition pool_wf :: "'d env \<Rightarrow> 'd \<Rightarrow> bool" where
  "pool_wf E d \<longleftrightarrow> (\<forall>h t. pooled_tx E d h = Some t \<longrightarrow> tx_Hash t = h \<and> restorable E t)"

definition fees_kept :: "'d env \<Rightarrow> (bytes \<Rightarrow> (i64 \<times> i64) option) \<Rightarrow> 'd \<Rightarrow> bool" where
  "fees_kept E F d \<longleftrightarrow> pool_fees E d = F \<and> pool_wf E d"

lemma fees_kept_pooled: "(\<And>h. pooled_tx E d' h = pooled_tx E d h) \<Longrightarrow> fees_kept E F d \<Longrightarrow> fees_kept E F d'"
  by (simp add: fees_kept_def pool_fees_def [abs_def] pool_wf_def)

lemma restorable_ok:
  assumes "restorable E t" "length l < 2 ^ 32" "Address_ok a"
  shows "Transaction_ok (e_H160 E) (e_ec E) (t\<lparr>ContractAddress := a, OutputLogs := l\<rparr>)"
proof -
  have "length (Transaction_GetBytes (t\<lparr>OutputLogs := []\<rparr>)) \<le> length (Transaction_GetBytes (t\<lparr>ContractAddress := a, OutputLogs := l\<rparr>))"
    using assms by (simp add: Transaction_GetBytes_def GetBytesWithoutSignature_def restorable_def Transaction_ok_def Address_ok_def)
  with assms show ?thesis by (auto simp: restorable_def Transaction_ok_def)
qed

text \<open>The flag of an address is not written, and does not change which delegated account it is.\<close>

lemma flag_irrelevant [simp]:
  "IntDelegatedAccountFromAddress (a\<lparr>addr_Primary := f\<rparr>) = IntDelegatedAccountFromAddress a"
  "Address_ok (a\<lparr>addr_Primary := f\<rparr>) = Address_ok a"
  "TxData_body (md\<lparr>DelegatedAccountForLocking := (DelegatedAccountForLocking md)\<lparr>addr_Primary := f\<rparr>\<rparr>) = TxData_body md"
  unfolding IntDelegatedAccountFromAddress_def Address_ok_def TxData_body_def by (auto simp: Let_def)

lemma restorable_norm: "restorable E t \<Longrightarrow> restorable E (Transaction_norm t)"
  by (auto simp: restorable_def Transaction_ok_def Transaction_norm_def TxData_ok_def Transaction_GetBytes_def
      GetBytesWithoutSignature_def TxData_GetBytes_def)

lemma restorable_logs [simp]: "restorable E (t\<lparr>OutputLogs := l\<rparr>) = restorable E t"
  by (simp add: restorable_def)

lemma target_norm: "tx_target (Transaction_norm t) = tx_target t"
  by (simp add: Transaction_norm_def tx_target_def)

lemma charged_fee_cong:
  assumes "tx_target t' = tx_target t" "Amount (tx_Data t') = Amount (tx_Data t)" "tx_fee t' = tx_fee t"
  shows "charged_fee t' = charged_fee t"
  unfolding charged_fee_def assms ..

lemma fees_norm [simp]: "tx_fee (Transaction_norm t) = tx_fee t" "charged_fee (Transaction_norm t) = charged_fee t"
proof -
  show fee: "tx_fee (Transaction_norm t) = tx_fee t" by (simp add: Transaction_norm_def tx_fee_def)
  show "charged_fee (Transaction_norm t) = charged_fee t"
    by (rule charged_fee_cong [OF target_norm _ fee]) (simp add: Transaction_norm_def)
qed

lemma fees_outputs [simp]:
  "tx_fee (t\<lparr>ContractAddress := a, OutputLogs := l\<rparr>) = tx_fee t"
  "charged_fee (t\<lparr>ContractAddress := a, OutputLogs := l\<rparr>) = charged_fee t"
proof -
  show fee: "tx_fee (t\<lparr>ContractAddress := a, OutputLogs := l\<rparr>) = tx_fee t" by (simp add: tx_fee_def)
  show "charged_fee (t\<lparr>ContractAddress := a, OutputLogs := l\<rparr>) = charged_fee t"
    by (rule charged_fee_cong [OF _ _ fee]) (simp_all add: tx_target_def)
qed

section \<open>The pool in the database\<close>

context rocksdb
begin

lemma fees_kept_Put_other:
  assumes "e_kv E = K" "k \<noteq> []" "\<And>h. k \<noteq> TransactionPoolHashesDBPrefix @ h" "fees_kept E F d"
  shows "fees_kept E F (snd (DB_Put K k v d))"
proof -
  have "pooled_tx E (snd (DB_Put K k v d)) x = pooled_tx E d x" for x
    using assms(3) [of x] by (subst (1 2) stored_tx_content [OF assms(1)]) (simp_all add: DB_Put_Ok [OF assms(2)])
  with assms(4) show ?thesis by (rule fees_kept_pooled [rotated])
qed

lemma fees_kept_Load:
  assumes "e_kv E = K" "prefix \<noteq> []" "fees_kept E F d"
  shows "fees_kept E F (snd (LoadFromDBPoolTx K H160 ec prefix h d))"
proof -
  have "content d (prefix @ h) = Some []" if "LoadFromDBPoolTx K H160 ec prefix h d = (r, d')" "d' \<noteq> d" for r d'
    using that by (auto simp: LoadFromDBPoolTx_def DB_Get_content effect_defs split: option.splits result.splits prod.splits if_splits)
  moreover have "snd (LoadFromDBPoolTx K H160 ec prefix h d) = snd (DB_Delete K (prefix @ h) d)"
    if "content d (prefix @ h) = Some []"
    using that by (auto simp: LoadFromDBPoolTx_def DB_Get_content effect_defs split: result.split prod.split)
  moreover have "pooled_tx E (snd (DB_Delete K (prefix @ h) d)) x = pooled_tx E d x"
    if "content d (prefix @ h) = Some []" for x
    using DB_Delete_Ok [of "prefix @ h" d] assms(2) that
    by (subst (1 2) stored_tx_content [OF assms(1)]) (auto split: option.split)
  ultimately have "pooled_tx E (snd (LoadFromDBPoolTx K H160 ec prefix h d)) x = pooled_tx E d x" for x
    by (cases "LoadFromDBPoolTx K H160 ec prefix h d") (metis snd_conv)
  with assms(3) show ?thesis by (rule fees_kept_pooled [rotated])
qed

text \<open>Storing a pooled transaction again with the outputs of its evaluation.\<close>

lemma fees_kept_Store:
  assumes "e_kv E = K" "fees_kept E F d" "pooled_tx E d h = Some t" "Address_ok a" "length l < 2 ^ 32"
  shows "fees_kept E F (snd (StoreToDBPoolTx K TransactionPoolHashesDBPrefix (t\<lparr>ContractAddress := a, OutputLogs := l\<rparr>) d))"
proof -
  let ?t = "t\<lparr>ContractAddress := a, OutputLogs := l\<rparr>"
  let ?d = "snd (StoreToDBPoolTx K TransactionPoolHashesDBPrefix ?t d)"
  have wf: "tx_Hash t = h" "restorable E t" using assms(2,3) by (auto simp: fees_kept_def pool_wf_def)
  have ok: "Transaction_ok (e_H160 E) (e_ec E) ?t" by (rule restorable_ok [OF wf(2) assms(5,4)])
  have ne: "Transaction_GetBytes ?t \<noteq> []"
    by (simp add: Transaction_GetBytes_def BytesToLenAndBytes_def be_bytes_def numeral_eq_Suc)
  have c: "content ?d = (content d)(TransactionPoolHashesDBPrefix @ h \<mapsto> Transaction_GetBytes ?t)"
    using DB_Put_Ok [of "TransactionPoolHashesDBPrefix @ h"] ne wf(1) by (simp add: StoreToDBPoolTx_def)
  have self: "pooled_tx E ?d h = Some (Transaction_norm ?t)"
    using stored_tx_content [OF assms(1), of TransactionPoolHashesDBPrefix ?d h] c ne
      Transaction_GetFromBytes_GetBytes [OF ok, of "[]"] by simp
  have other: "pooled_tx E ?d x = pooled_tx E d x" if "x \<noteq> h" for x
    using stored_tx_content [OF assms(1), of TransactionPoolHashesDBPrefix] c that by simp
  have "restorable E (Transaction_norm ?t)"
    by (rule restorable_norm) (use restorable_ok [OF wf(2) _ assms(4), of "[]"] in \<open>simp add: restorable_def\<close>)
  moreover have "tx_Hash (Transaction_norm ?t) = h" using wf(1) by (simp add: Transaction_norm_def)
  moreover have "pool_wf E d" using assms(2) by (simp add: fees_kept_def)
  ultimately have "pool_wf E ?d"
    unfolding pool_wf_def using self other by (metis option.inject)
  moreover have "pool_fees E ?d x = pool_fees E d x" for x
    using self other assms(3) by (cases "x = h") (simp_all add: pool_fees_def)
  ultimately show ?thesis using assms(2) by (simp add: fees_kept_def fun_eq_iff)
qed

end

section \<open>What an evaluation returns\<close>

lemma zero_Address_ok [simp]: "Address_ok zero_Address"
  by (simp add: Address_ok_def zero_Address_def)

lemma CreateAddress_ok: "Address_ok (CreateAddress C b nonce)"
  by (auto simp: CreateAddress_def Let_def dest: BytesToAddress_ok split: result.split)

lemma create_address:
  assumes "create C run caller code hash gas address e = Some (Ok (ret, a, left, err), e')"
  shows "a \<in> {address, zero_Address}"
  using assms unfolding create_def Let_def
  by (auto simp: sret_def elim!: pbind_SomeE split: if_splits result.splits)

lemma in_evm_Ok:
  assumes "in_evm gas call n = (Ok (x, e), n')"
  shows "call (Suc (unat gas)) (NewEVM (n_State n)) = Some (Ok x, e)"
  using assms by (auto simp: in_evm_def rbind_Ok_iff split: option.splits)

lemma EvaluateSC_outputs:
  assumes "EvaluateSC X E t bl n = (Ok (l, ret, a, left, err), n')" "Address_ok (Recipient (tx_Data t))"
    and "\<And>t e. length (ex_trace X t e) < 2 ^ 32"
  shows "Address_ok a \<and> length (string_bytes l) < 2 ^ 32"
proof -
  let ?C = "block_ctx X E (w_db n) bl (Sender (tx_Param t)) (MaxGasUsage * 10)"
  have create: "Address_ok a"
    if "in_evm gas (\<lambda>k. Create ?C (Run k ?C) caller code gas v nonce) n = (Ok ((ret, a, left', err), e), n')"
    for gas v nonce caller code left' e
    using create_address [OF in_evm_Ok [OF that, unfolded Create_def Let_def]] CreateAddress_ok by auto
  show ?thesis
    using assms(1)
    by (auto simp: EvaluateSC_def Let_def sget_def sret_def string_bytes_def assms(2) assms(3) [simplified] create
        elim!: sbind_OkE split: if_splits)
qed

section \<open>The purse of the node\<close>

text \<open>The ledger with its coins, and the fees of the pool.\<close>

definition purse :: "'d env \<Rightarrow> i64 \<Rightarrow> int \<Rightarrow> (bytes \<Rightarrow> (i64 \<times> i64) option) \<Rightarrow> 'd node \<Rightarrow> bool" where
  "purse E t h F n \<longleftrightarrow> ledger_at t n \<and> held_coins (w_accounts n) = h \<and>
     pool_all (\<lambda>tx. 0 \<le> sint (Amount (tx_Data tx)) \<and> tx_wt tx) (PoolTxEscrow n) \<and> fees_kept E F (w_db n)"

lemma purse_ledger_part: "ledger_part n' = ledger_part n \<Longrightarrow> purse E t h F n' = purse E t h F n"
  by (simp add: purse_def ledger_part_def off_db_def ledger_at_def coins_def)

lemma purse_keeps: "keeps ledger_part m \<Longrightarrow> m n = (r, n') \<Longrightarrow> purse E t h F n \<Longrightarrow> purse E t h F n'"
  using keepsD purse_ledger_part by metis

lemma purse_on_db:
  assumes "on_db m n = (r, n')" "purse E t h F n" "fees_kept E F (snd (m (w_db n)))"
  shows "purse E t h F n'"
proof -
  have "n' = n\<lparr>w_db := snd (m (w_db n))\<rparr>" using assms(1) by (simp add: zoom_def split: prod.splits)
  with assms(2,3) show ?thesis by (simp add: purse_def ledger_at_def coins_def)
qed

lemma SetAccountByAddressBytes_held:
  assumes "accounts_ok s" "length a = 20" "SetAccountByAddressBytes a s = (Ok acc, s')"
  shows "held_coins s' = held_coins s"
proof (cases "acc_Address (mgetd zero_Account (AllAccounts s) a) = a")
  case False
  then have "GetBalance a s = 0"
    using accounts_ok_lookup [OF assms(1), of a] by (auto simp: GetBalance_def mgetd_def split: option.splits)
  with False assms show ?thesis by (auto simp: SetAccountByAddressBytes_def Let_def held_coins_mput)
qed (use assms in \<open>auto simp: SetAccountByAddressBytes_def\<close>)

lemma sint_uminus_debit: "0 \<le> sint (b :: i64) \<Longrightarrow> 0 \<le> sint (b + x) \<Longrightarrow> sint (- x) = - sint x"
  using nonneg_add_exact [of b x] sint_i64_bounds [of b] sint_i64_bounds [of x]
  by (subst sint_word_ariths(4)) (simp add: signed_take_bit_int_eq_self)

lemma purse_SetAccount:
  assumes "on_accounts (SetAccountByAddressBytes a) n = (Ok acc, n')" "length a = 20" "purse E t h F n"
  shows "purse E t h F n'"
proof -
  obtain s where s: "SetAccountByAddressBytes a (w_accounts n) = (Ok acc, s)" "n' = n\<lparr>w_accounts := s\<rparr>"
    using assms(1) by (auto simp: zoom_Ok)
  have L: "ledger_at t n" "accounts_ok (w_accounts n)" using assms(3) by (auto simp: purse_def ledger_at_def)
  have "accounts_ok s \<and> GetSupplyInAccounts s = GetSupplyInAccounts (w_accounts n)"
    using tripleD [OF SetAccountByAddressBytes_triple [OF assms(2)] _ s(1), of "GetSupplyInAccounts (w_accounts n)"] L(2) by simp
  then have "ledger_at t n'" using ledger_at_accounts [OF L(1), of s 0] s(2) by simp
  moreover have "held_coins s = held_coins (w_accounts n)"
    using SetAccountByAddressBytes_held [OF L(2) assms(2) s(1)] .
  ultimately show ?thesis using assms(3) s(2) by (simp add: purse_def)
qed

lemma purse_transfer:
  assumes "on_accounts (AddBalance a x) n = (Ok (), n1)" "on_accounts (AddBalance b (- x)) n1 = (Ok (), n')"
    and "length a = 20" "length b = 20" "purse E t h F n"
  shows "purse E t h F n'"
proof -
  have "ledger_at t n" using assms(5) by (simp add: purse_def)
  then have L: "ledger_at (t + x) n1" by (rule tripleD [OF ledger_AddBalance [OF assms(3)] _ assms(1)])
  then have "ledger_at t n'" using tripleD [OF ledger_AddBalance [OF assms(4)] L assms(2)] by simp
  moreover obtain s1 s2 where s: "AddBalance a x (w_accounts n) = (Ok (), s1)" "n1 = n\<lparr>w_accounts := s1\<rparr>"
    "AddBalance b (- x) s1 = (Ok (), s2)" "n' = n1\<lparr>w_accounts := s2\<rparr>"
    using assms(1,2) by (auto simp: zoom_Ok)
  have ok: "accounts_ok (w_accounts n)" "accounts_ok s1" using assms(5) L s by (auto simp: purse_def ledger_at_def)
  have "0 \<le> sint (GetBalance a (w_accounts n) + x)"
    using AddBalance_result [of a x "w_accounts n"] s(1) by (auto split: if_splits)
  then have "sint (- x) = - sint x"
    by (rule sint_uminus_debit [OF accounts_ok_mgetd [OF ok(1), folded GetBalance_def]])
  then have "held_coins s2 = held_coins (w_accounts n)"
    using AddBalance_held [OF ok(1) assms(3) s(1)] AddBalance_held [OF ok(2) assms(4) s(3)] by simp
  ultimately show ?thesis using assms(5) s by (simp add: purse_def)
qed

text \<open>What every step keeps, the whole keeps.\<close>

lemma triple_inv_bind: "triple I m (\<lambda>_. I) \<Longrightarrow> (\<And>x. triple I (f x) (\<lambda>_. I)) \<Longrightarrow> triple I (sbind m f) (\<lambda>_. I)"
  by (rule triple_bind)

lemma kept_pure:
  "triple I (sread f) (\<lambda>_. I)" "triple I (sget g) (\<lambda>_. I)" "triple I (sret x) (\<lambda>_. I)"
  "triple I (serr e) (\<lambda>_. I)" "triple I (slift r) (\<lambda>_. I)"
  by (rule triple_preserves, intro effects)+

section \<open>The transactions of a block\<close>

text \<open>A transaction under evaluation is the one the pool has, or it is stored outside of the pool.\<close>

definition evaluated_from :: "'d env \<Rightarrow> 'd \<Rightarrow> bytes \<Rightarrow> Transaction \<Rightarrow> bool" where
  "evaluated_from E d prefix tx \<longleftrightarrow> prefix = TransactionDBPrefix \<or>
     prefix = TransactionPoolHashesDBPrefix \<and> (\<exists>h. pooled_tx E d h = Some tx)"

context rocksdb
begin

lemma purse_Put:
  assumes "e_kv E = K" "on_db (DB_Put K k v) n = (r, n')" "purse E t h F n"
    and "k \<noteq> []" "\<And>h. k \<noteq> TransactionPoolHashesDBPrefix @ h"
  shows "purse E t h F n'"
  using fees_kept_Put_other [OF assms(1,4,5)] assms(3) by (intro purse_on_db [OF assms(2,3)]) (simp add: purse_def)

lemma purse_Load:
  assumes "e_kv E = K" "LoadPoolTx E prefix th n = (r, n')" "purse E t h F n" "prefix \<noteq> []"
  shows "purse E t h F n'"
proof (rule purse_on_db [OF _ assms(3)])
  show "on_db (LoadFromDBPoolTx K (e_H160 E) (e_ec E) prefix th) n = (r, n')"
    using assms(1,2) by (simp add: LoadPoolTx_def)
  show "fees_kept E F (snd (LoadFromDBPoolTx K (e_H160 E) (e_ec E) prefix th (w_db n)))"
    using fees_kept_Load [OF assms(1,4)] assms(3) by (simp add: purse_def)
qed

lemma load_for_evaluation_Ok:
  assumes "e_kv E = K" "load_for_evaluation E th n = (Ok (prefix, tx), n')" "purse E t h F n"
  shows "purse E t h F n' \<and> tx_wt tx \<and> evaluated_from E (w_db n') prefix tx"
  using assms(2) unfolding load_for_evaluation_def
proof (elim sbind_OkE)
  fix r n1
  assume "scatch (LoadPoolTx E TransactionPoolHashesDBPrefix th) n = (Ok r, n1)"
    and rest: "(case r of Ok t \<Rightarrow> sret (TransactionPoolHashesDBPrefix, t)
     | Err _ \<Rightarrow> sbind (LoadPoolTx E TransactionDBPrefix th) (\<lambda>t. sret (TransactionDBPrefix, t))
     | Panic \<Rightarrow> slift Panic) n1 = (Ok (prefix, tx), n')"
  then have ld: "LoadPoolTx E TransactionPoolHashesDBPrefix th n = (r, n1)" by (simp add: scatch_Ok)
  note p1 = purse_Load [OF assms(1) ld assms(3)]
  show ?thesis
  proof (cases r)
    case (Ok x)
    with rest ld p1 show ?thesis
      by (auto simp: sret_def evaluated_from_def dest!: LoadPoolTx_Ok)
  next
    case (Err x)
    with rest have "LoadPoolTx E TransactionDBPrefix th n1 = (Ok tx, n')" "prefix = TransactionDBPrefix"
      by (auto simp: sret_def elim!: sbind_OkE)
    then show ?thesis using p1 purse_Load [OF assms(1) _ p1] by (auto simp: evaluated_from_def dest: LoadPoolTx_Ok)
  qed (use rest in \<open>simp add: slift_def\<close>)
qed

lemma purse_Store:
  assumes "e_kv E = K" "evaluated_from E (w_db n) prefix tx" "prefix \<noteq> TransactionDBPrefix \<Longrightarrow> Address_ok a" "length l < 2 ^ 32"
    and "on_db (StoreToDBPoolTx K prefix (tx\<lparr>ContractAddress := a, OutputLogs := l\<rparr>)) n = (r, n')" "purse E t h F n"
  shows "purse E t h F n'"
proof (rule purse_on_db [OF assms(5,6)])
  have F: "fees_kept E F (w_db n)" using assms(6) by (simp add: purse_def)
  show "fees_kept E F (snd (StoreToDBPoolTx K prefix (tx\<lparr>ContractAddress := a, OutputLogs := l\<rparr>) (w_db n)))"
    using assms(2) unfolding evaluated_from_def
  proof (elim disjE conjE exE)
    assume "prefix = TransactionDBPrefix"
    then show ?thesis
      using F fees_kept_Put_other [OF assms(1) _ _ F] by (simp add: StoreToDBPoolTx_def Let_def serr_def)
  next
    fix h assume "prefix = TransactionPoolHashesDBPrefix" "pooled_tx E (w_db n) h = Some tx"
    then show ?thesis using fees_kept_Store [OF assms(1) F _ assms(3,4)] by simp
  qed
qed

text \<open>A trade looks at the ledger, opens the account of the exchange at most, and calls the token contract.\<close>

lemma GenerateOptDataDEX_Ok:
  "triple (\<lambda>n. purse E t h F n \<and> w_db n = d) (GenerateOptDataDEX X E tx operation) (\<lambda>_ n. purse E t h F n \<and> w_db n = d)"
    (is "triple ?I _ _")
proof -
  have dex20: "length (addr_ByteValue GetDexAccountAddress) = 20" by (simp add: GetDexAccountAddress_def)
  have keep: "triple ?I (SC_GetBalance X E a owner) (\<lambda>_. ?I)" for a owner
    using purse_keeps [OF tokens_ledger_part(1)] keepsD [OF tokens_ledger_part(1)] by (fastforce simp: triple_def ledger_part_def)
  have set: "triple ?I (on_accounts (SetAccountByAddressBytes (addr_ByteValue GetDexAccountAddress))) (\<lambda>_. ?I)"
    using purse_SetAccount [OF _ dex20] keepsD [OF keeps_db(1)] by (fastforce simp: triple_def)
  show ?thesis
    unfolding GenerateOptDataDEX_def Let_def
    by (intro conjI impI allI triple_inv_bind triple_if keep set kept_pure | split prod.split option.split)+
qed

lemma evaluate_trade_Ok:
  assumes "evaluate_trade X E bl prefix tx operation n = (Ok True, n')"
  obtains opt payer c tk p n1 l r a g n2 n3 n4 n5 acc where
    "GenerateOptDataDEX X E tx operation n = (Ok (opt, payer, c, tk, p), n1)"
    and "EvaluateSCDex X E (ContractAddress tx) payer opt tx bl n1 = (Ok (l, r, a, g, None), n2)"
    and "on_db (StoreToDBPoolTx (e_kv E) prefix (tx\<lparr>OutputLogs := string_bytes l\<rparr>)) n2 = (Ok (), n3)"
    and "on_accounts (AddBalance (tx_sender tx) c) n3 = (Ok (), n4)"
    and "on_accounts (AddBalance (addr_ByteValue GetDexAccountAddress) (- c)) n4 = (Ok (), n5)"
    and "on_dex (SetDexAccountByAddressBytes (addr_ByteValue (ContractAddress tx)) acc) n5 = (Ok (), n')"
  using assms unfolding evaluate_trade_def Let_def
  by (elim sbind_OkE)
    (auto simp: scatch_Ok sret_def slift_def sget_def sread_eq elim!: sbind_OkE split: result.splits if_splits option.splits prod.splits)

lemma trade_kept:
  assumes "e_kv E = K" "evaluate_trade X E bl prefix tx operation n = (Ok True, n')" "purse E t h F n"
    and "tx_wt tx" "evaluated_from E (w_db n) prefix tx" "\<And>t e. length (ex_trace X t e) < 2 ^ 32"
  shows "purse E t h F n'"
proof (rule evaluate_trade_Ok [OF assms(2)])
  fix opt payer c tk p n1 l r a g n2 n3 n4 n5 acc
  assume gen: "GenerateOptDataDEX X E tx operation n = (Ok (opt, payer, c, tk, p), n1)"
    and ev: "EvaluateSCDex X E (ContractAddress tx) payer opt tx bl n1 = (Ok (l, r, a, g, None), n2)"
    and st: "on_db (StoreToDBPoolTx (e_kv E) prefix (tx\<lparr>OutputLogs := string_bytes l\<rparr>)) n2 = (Ok (), n3)"
    and add: "on_accounts (AddBalance (tx_sender tx) c) n3 = (Ok (), n4)"
      "on_accounts (AddBalance (addr_ByteValue GetDexAccountAddress) (- c)) n4 = (Ok (), n5)"
    and dx: "on_dex (SetDexAccountByAddressBytes (addr_ByteValue (ContractAddress tx)) acc) n5 = (Ok (), n')"
  have p1: "purse E t h F n1" "w_db n1 = w_db n"
    using tripleD [OF GenerateOptDataDEX_Ok [of E t h F "w_db n"] _ gen] assms(3) by auto
  have p2: "purse E t h F n2" "w_db n2 = w_db n"
    using purse_keeps [OF evaluations_ledger_part(2) ev p1(1)] keepsD [OF evaluations_ledger_part(2) ev] p1(2)
    by (simp_all add: ledger_part_def)
  have len: "length (string_bytes l) < 2 ^ 32"
    using ev assms(6) by (auto simp: EvaluateSCDex_def sget_def sret_def string_bytes_def elim!: sbind_OkE)
  have addr: "Address_ok (ContractAddress tx)" if "prefix \<noteq> TransactionDBPrefix"
    using assms(3,5) that
    by (auto simp: evaluated_from_def purse_def fees_kept_def pool_wf_def restorable_def Transaction_ok_def)
  have "on_db (StoreToDBPoolTx K prefix (tx\<lparr>ContractAddress := ContractAddress tx, OutputLogs := string_bytes l\<rparr>)) n2 = (Ok (), n3)"
    using st unfolding assms(1) by simp
  then have p3: "purse E t h F n3"
    using purse_Store [OF assms(1) assms(5) [folded p2(2)] addr len _ p2(1)] by blast
  have "purse E t h F n5"
    by (rule purse_transfer [OF add _ _ p3]) (use assms(4) in \<open>simp_all add: tx_wt_def GetDexAccountAddress_def\<close>)
  then show ?thesis by (rule purse_keeps [OF ledger_part_zooms(2) dx])
qed

lemma contract_kept:
  assumes "e_kv E = K" "evaluate_contract X E bl prefix tx acc n = (Ok (Some acc'), n')" "purse E t h F n"
    and "tx_wt tx" "evaluated_from E (w_db n) prefix tx" "\<And>t e. length (ex_trace X t e) < 2 ^ 32"
  shows "purse E t h F n'"
proof -
  obtain l ret a left n1 n2 where ev: "EvaluateSC X E tx bl n = (Ok (l, ret, a, left, None), n1)"
    and reg: "(if Recipient (tx_Data tx) = EmptyAddress \<and> IsTokenToRegister (OptData (tx_Data tx))
      then register_token X E a bl else sret ()) n1 = (Ok (), n2)"
    and st: "on_db (StoreToDBPoolTx (e_kv E) prefix (tx\<lparr>ContractAddress := a, OutputLogs := string_bytes l\<rparr>)) n2 = (Ok (), n')"
    using assms(2) unfolding evaluate_contract_def Let_def
    by (elim sbind_OkE) (auto simp: scatch_Ok sret_def slift_def elim!: sbind_OkE split: result.splits if_splits prod.splits)
  have out: "Address_ok a \<and> length (string_bytes l) < 2 ^ 32"
    by (rule EvaluateSC_outputs [OF ev]) (use assms(4,6) in \<open>simp_all add: tx_wt_def Address_ok_def\<close>)
  have "keeps ledger_part (if Recipient (tx_Data tx) = EmptyAddress \<and> IsTokenToRegister (OptData (tx_Data tx))
      then register_token X E a bl else sret ())" by (auto intro: effects)
  note same = keepsD [OF this reg] keepsD [OF evaluations_ledger_part(1) ev]
  from same have "ledger_part n2 = ledger_part n" by simp
  then have p2: "purse E t h F n2 \<and> w_db n2 = w_db n"
    using assms(3) purse_ledger_part [of n2 n] by (simp add: ledger_part_def)
  have "evaluated_from E (w_db n2) prefix tx" using assms(5) p2 by simp
  from purse_Store [OF assms(1) this _ _ st [unfolded assms(1)]] p2 out show ?thesis by blast
qed

lemma evaluate_tx_kept:
  assumes "e_kv E = K" "evaluate_tx X E bl th acc n = (Ok (Some acc'), n')" "purse E t h F n"
    and "\<And>t e. length (ex_trace X t e) < 2 ^ 32"
  shows "purse E t h F n'"
proof -
  obtain prefix tx n1 where ld: "load_for_evaluation E th n = (Ok (prefix, tx), n1)"
    and rest: "n' = n1 \<or> (\<exists>k. evaluate_trade X E bl prefix tx k n1 = (Ok True, n')) \<or>
      evaluate_contract X E bl prefix tx acc n1 = (Ok (Some acc'), n')"
    using assms(2) unfolding evaluate_tx_def
    by (elim sbind_OkE) (auto simp: scatch_Ok sret_def slift_def sread_eq elim!: sbind_OkE
        split: result.splits if_splits prod.splits; blast)
  have p1: "purse E t h F n1" "tx_wt tx" "evaluated_from E (w_db n1) prefix tx"
    using load_for_evaluation_Ok [OF assms(1) ld assms(3)] by auto
  from rest show ?thesis
    using p1 trade_kept [OF assms(1) _ p1 assms(4)] contract_kept [OF assms(1) _ p1 assms(4)] by blast
qed

lemma evaluate_txs_kept:
  assumes "e_kv E = K" "\<And>t e. length (ex_trace X t e) < 2 ^ 32"
  shows "evaluate_txs X E bl ths acc n = (Ok (Some acc'), n') \<Longrightarrow> purse E t h F n \<Longrightarrow> purse E t h F n'"
proof (induction ths arbitrary: acc n)
  case (Cons th ths)
  obtain acc1 n1 where ev: "evaluate_tx X E bl th acc n = (Ok (Some acc1), n1)"
    and rest: "evaluate_txs X E bl ths acc1 n1 = (Ok (Some acc'), n')"
    using Cons.prems(1) by (auto simp: sret_def elim!: sbind_OkE split: option.splits)
  show ?case by (rule Cons.IH [OF rest evaluate_tx_kept [OF assms(1) ev Cons.prems(2) assms(2)]])
qed (simp add: sret_def)

lemma store_outputs_kept:
  assumes "e_kv E = K"
  shows "store_outputs E c as n = (Ok True, n') \<Longrightarrow> purse E t h F n \<Longrightarrow> purse E t h F n'"
proof (induction as arbitrary: n)
  case (Cons x as)
  obtain th a where x: "x = (th, a)" by fastforce
  obtain n1 n2 where put: "on_db (DB_Put K (OutputLogsHashesDBPrefix @ th) (string_bytes (mgetd [] (sc_logs c) th))) n = (Ok (), n1)"
      "on_db (DB_Put K (OutputAddressesHashesDBPrefix @ th) (mgetd [] (sc_optDatas c) (addr_ByteValue a))) n1 = (Ok (), n2)"
    and rest: "store_outputs E c as n2 = (Ok True, n')"
    using Cons.prems(1) unfolding x store_outputs.simps assms
    by (elim sbind_OkE) (auto simp: scatch_Ok sret_def slift_def elim!: sbind_OkE split: result.splits)
  have "purse E t h F n2"
    by (rule purse_Put [OF assms put(2) purse_Put [OF assms put(1) Cons.prems(2)]])
      (simp_all add: OutputLogsHashesDBPrefix_def OutputAddressesHashesDBPrefix_def TransactionPoolHashesDBPrefix_def)
  then show ?case by (rule Cons.IH [OF rest])
qed (simp add: sret_def)

lemma EvaluateSmartContracts_kept:
  assumes "e_kv E = K" "\<And>t e. length (ex_trace X t e) < 2 ^ 32"
    and "EvaluateSmartContracts X E bl n = (Ok True, n')" "purse E t h F n"
  shows "purse E t h F n'"
proof -
  obtain c n1 n2 where ev: "EvaluateSCForBlock X E bl n = (Ok (Some c), n1)"
    and snap: "on_State (supd (\<lambda>sa. SetSnapShotNum (bh_Height (GetHeader bl)) (Snapshot sa) sa)) n1 = (Ok (), n2)"
    and st: "store_outputs E c (sc_addresses c) n2 = (Ok True, n')"
    using assms(3) unfolding EvaluateSmartContracts_def
    by (elim sbind_OkE) (auto simp: sret_def elim!: sbind_OkE split: option.splits)
  have "purse E t h F n1"
    by (rule evaluate_txs_kept [OF assms(1,2) ev [unfolded EvaluateSCForBlock_def] assms(4)])
  then have "purse E t h F n2" by (rule purse_keeps [OF ledger_part_zooms(1) snap])
  then show ?thesis by (rule store_outputs_kept [OF assms(1) st])
qed

end

section \<open>The contract of the acceptance of blocks\<close>

lemma evaluated_purse:
  assumes "rocksdb (e_kv E) kvs" "ledger_ok n" "pool_wf E (w_db n)" "\<And>t e. length (ex_trace X t e) < 2 ^ 32"
    and "EvaluateSmartContracts X E bl n = (Ok True, n')"
  shows "coins n' = coins n \<and> held_coins (w_accounts n') = held_coins (w_accounts n) \<and> ledger_ok n' \<and>
    pool_fees E (w_db n') = pool_fees E (w_db n)"
proof -
  have "purse E (coins n) (held_coins (w_accounts n)) (pool_fees E (w_db n)) n"
    using assms(2,3) by (simp add: purse_def ledger_ok_def fees_kept_def)
  then have "purse E (coins n) (held_coins (w_accounts n)) (pool_fees E (w_db n)) n'"
    by (rule rocksdb.EvaluateSmartContracts_kept [OF assms(1) refl assms(4,5)])
  then show ?thesis using assms(2) by (auto simp: purse_def fees_kept_def ledger_ok_def ledger_at_def)
qed

lemma EvaluateSmartContracts_ok:
  assumes "rocksdb (e_kv E) kvs" "ledger_ok n" "pool_wf E (w_db n)" "\<And>t e. length (ex_trace X t e) < 2 ^ 32"
  shows "contracts_ok E (EvaluateSmartContracts X E) n"
  unfolding contracts_ok_def using evaluated_purse [OF assms] by (metis pool_fees_def)

section \<open>Properties\<close>

text \<open>
  C3: evaluating the contracts and the exchange trades of a block makes and destroys no coins.  When the evaluation of a
  block succeeds, whatever its contracts do, the coins of the node are what they were, the accounts hold exactly the same
  sum, no balance is negative, and every transaction of the pool has the fees it had.
\<close>

theorem EvaluateSmartContracts_conserves_coins:
  assumes "rocksdb (e_kv E) kvs" and "ledger_ok n" and "pool_wf E (w_db n)"
    and "\<And>t e. length (ex_trace X t e) < 2 ^ 32"
    and "EvaluateSmartContracts X E bl n = (Ok True, n')"
  shows "coins n' = coins n \<and> held_coins (w_accounts n') = held_coins (w_accounts n) \<and> ledger_ok n' \<and>
    pool_fees E (w_db n') = pool_fees E (w_db n)"
  using evaluated_purse [OF assms] .

text \<open>
  C2: conservation of coins over a block whose contracts the virtual machine of the node runs.  When a node that is not
  syncing accepts a block, with its contracts and exchange trades evaluated, the coins in accounts, stakes and rewards
  together with the fee account of the block are the supply that the block states, plus the fees that were counted and
  never charged.
\<close>

theorem block_with_contracts_conserves_coins:
  assumes "rocksdb (e_kv E) kvs" and "\<not> e_syncing E" and "ledger_ok n" and "pool_wf E (w_db n)"
    and "\<And>t e. length (ex_trace X t e) < 2 ^ 32"
    and "\<And>b l. keeps w_accounts (encryption b l)" and "\<And>b l. keeps w_staking (encryption b l)"
    and "CheckBlockAndTransferFunds E (EvaluateSmartContracts X E) encryption newBlock lastBlock tree n = (Ok bl, n')"
  shows "\<exists>txs. map (pooled_tx E (w_db n)) (TransactionsHashes newBlock) = map Some txs \<and>
    BlockFee bl = BlockFee lastBlock + sum_list (map tx_fee txs) \<and>
    coins n' + BlockFee bl = Supply (bl_BaseBlock bl) + sum_list (map (\<lambda>t. tx_fee t - charged_fee t) txs) \<and>
    Supply (bl_BaseBlock bl) = Supply (bl_BaseBlock lastBlock) + GetReward (Supply (bl_BaseBlock lastBlock)) \<and>
    accounts_ok (w_accounts n') \<and> staking_ok (w_staking n')"
  by (rule accepted_block_balance [OF assms(1-3) EvaluateSmartContracts_ok [OF assms(1,3-5)] assms(6-8)])

section \<open>Witnesses\<close>

definition sample_evaluator :: evaluator where
  "sample_evaluator = \<lparr>ex_vm = sample_ctx, ex_trace = (\<lambda>_ _. ''done'')\<rparr>"

text \<open>The sample node with one pooled transaction, and a block with it.\<close>

definition pooled_node :: "memdb node" where
  "pooled_node = sample_node\<lparr>w_db := [(TransactionPoolHashesDBPrefix @ EmptyHash, Transaction_GetBytes sample_tx)]\<rparr>"

definition pooled_block :: Block where
  "pooled_block = next_sample\<lparr>TransactionsHashes := [EmptyHash]\<rparr>"

lemma restorable_sample: "restorable sample_env (Transaction_norm sample_tx)"
  by (rule restorable_norm) (use sample_tx_logs_ok [of "[]"] in \<open>simp add: restorable_def\<close>)

lemma sample_pooled:
  "pooled_tx sample_env (w_db pooled_node) h = (if h = EmptyHash then Some (Transaction_norm sample_tx) else None)"
  "pooled_tx sample_env sample_keys h = None"
proof -
  have "Transaction_GetBytes sample_tx \<noteq> []"
    by (simp add: Transaction_GetBytes_def BytesToLenAndBytes_def be_bytes_def numeral_eq_Suc)
  then show "pooled_tx sample_env (w_db pooled_node) h = (if h = EmptyHash then Some (Transaction_norm sample_tx) else None)"
    using Transaction_GetFromBytes_GetBytes [OF sample_tx_ok, of "e_H160 sample_env" "[]"]
    by (simp add: rocksdb.stored_tx_content [OF memdb.rocksdb_axioms] pooled_node_def)
  show "pooled_tx sample_env sample_keys h = None"
    by (simp add: rocksdb.stored_tx_content [OF memdb.rocksdb_axioms] sample_keys_def TransactionPoolHashesDBPrefix_def
        PubKeyBytesMerkleTrieDBPrefix_def PubKeyMarshalDBPrefix_def)
qed

lemma sample_pools_wf: "pool_wf sample_env (w_db pooled_node)" "pool_wf sample_env (w_db sample_node)"
proof -
  have "tx_Hash (Transaction_norm sample_tx) = EmptyHash" by (simp add: Transaction_norm_def)
  with restorable_sample show "pool_wf sample_env (w_db pooled_node)"
    unfolding pool_wf_def sample_pooled by (metis option.discI option.inject)
  show "pool_wf sample_env (w_db sample_node)"
    using sample_node_tables unfolding pool_wf_def sample_tables_def by (auto simp only: sample_pooled)
qed

lemma pooled_node_ok: "ledger_ok pooled_node"
  using sample_tables_ok [OF sample_node_tables] ledger_ok_off_db [of pooled_node sample_node]
  by (simp add: pooled_node_def off_db_def)

lemma pooled_loads: "LoadPoolTx sample_env TransactionPoolHashesDBPrefix EmptyHash pooled_node = (Ok (Transaction_norm sample_tx), pooled_node)"
proof -
  have "Transaction_GetBytes sample_tx \<noteq> []"
    by (simp add: Transaction_GetBytes_def BytesToLenAndBytes_def be_bytes_def numeral_eq_Suc)
  then show ?thesis
    using Transaction_GetFromBytes_GetBytes [OF sample_tx_ok, of "e_H160 sample_env" "[]"]
    by (simp add: LoadPoolTx_def zoom_def LoadFromDBPoolTx_def memdb.DB_Get_content sbind_def sget_def slift_def sret_def pooled_node_def)
qed

lemma pooled_run: "fst (EvaluateSmartContracts sample_evaluator sample_env pooled_block pooled_node) = Ok True"
proof -
  have acc: "GetAccountByAddressBytes (addr_ByteValue zero_Address) (w_accounts pooled_node) = Ok zero_Account"
    using sample_node_tables
    by (simp add: pooled_node_def sample_tables_def GetAccountByAddressBytes_def zero_Address_def slice_def mgetd_def)
  have del: "IntDelegatedAccountFromAddress zero_Address = Ok (-1, Some ''this is not correct delegated account'')"
    by code_simp
  have flds: "tx_Param (Transaction_norm sample_tx) = zero_TxParam" "Recipient (tx_Data (Transaction_norm sample_tx)) = zero_Address"
    "OptData (tx_Data (Transaction_norm sample_tx)) = []"
    by (simp_all add: Transaction_norm_def zero_TxData_def)
  have "load_for_evaluation sample_env EmptyHash pooled_node = (Ok (TransactionPoolHashesDBPrefix, Transaction_norm sample_tx), pooled_node)"
    unfolding load_for_evaluation_def sbind_def scatch_def pooled_loads by (simp add: sret_def)
  then have "evaluate_tx sample_evaluator sample_env pooled_block EmptyHash c pooled_node = (Ok (Some c), pooled_node)" for c
    using acc del
    by (simp add: evaluate_tx_def sbind_def scatch_def sret_def sread_eq slift_def flds zero_Account_def)
  then show ?thesis
    by (simp add: EvaluateSmartContracts_def EvaluateSCForBlock_def pooled_block_def sbind_def sret_def zoom_def supd_def)
qed

theorem EvaluateSmartContracts_conserves_coins_witness:
  "\<exists>n'. EvaluateSmartContracts sample_evaluator sample_env pooled_block pooled_node = (Ok True, n') \<and>
     coins n' = coins pooled_node \<and> pool_fees sample_env (w_db n') EmptyHash \<noteq> None"
proof -
  obtain n' where run: "EvaluateSmartContracts sample_evaluator sample_env pooled_block pooled_node = (Ok True, n')"
    using pooled_run by (metis prod.collapse)
  have "rocksdb (e_kv sample_env) map_of" using memdb.rocksdb_axioms by simp
  from EvaluateSmartContracts_conserves_coins [OF this pooled_node_ok sample_pools_wf(1) _ run]
  have "coins n' = coins pooled_node \<and> pool_fees sample_env (w_db n') = pool_fees sample_env (w_db pooled_node)"
    by (simp add: sample_evaluator_def)
  moreover have "pool_fees sample_env (w_db pooled_node) EmptyHash \<noteq> None"
    unfolding pool_fees_def sample_pooled by simp
  ultimately show ?thesis using run by (intro exI [of _ n'] conjI) simp_all
qed

theorem block_with_contracts_conserves_coins_witness:
  "\<exists>bl n'. CheckBlockAndTransferFunds sample_env (EvaluateSmartContracts sample_evaluator sample_env) (\<lambda>_ _. sret ())
      next_sample last_sample (Some \<lparr>Root = [], TxHashes = []\<rparr>) sample_node = (Ok bl, n') \<and>
    coins n' + BlockFee bl = Supply (bl_BaseBlock bl)"
proof -
  let ?con = "EvaluateSmartContracts sample_evaluator sample_env"
  obtain n1 where con: "?con (next_sample\<lparr>BlockFee := 229900000000000000\<rparr>) sample_node = (Ok True, n1)" and n1: "sample_tables n1"
    using sample_node_tables
    by (simp add: EvaluateSmartContracts_def EvaluateSCForBlock_def sbind_def sret_def zoom_def supd_def sample_tables_def)
  obtain bl n' where run: "CheckBlockAndTransferFunds sample_env ?con (\<lambda>_ _. sret ())
      next_sample last_sample (Some \<lparr>Root = [], TxHashes = []\<rparr>) sample_node = (Ok bl, n')"
    using sample_block_accepted_with [where contracts = ?con and encryption = "\<lambda>_ _. sret ()", OF sample_node_tables con n1]
    by (auto simp: sret_def)
  have "rocksdb (e_kv sample_env) map_of" "\<not> e_syncing sample_env" using memdb.rocksdb_axioms by simp_all
  from block_with_contracts_conserves_coins [OF this sample_tables_ok [OF sample_node_tables] sample_pools_wf(2) _ _ _ run]
  show ?thesis using run by (auto simp: sample_evaluator_def effects)
qed

end
