(* ===== verification/GenesisLedger.thy ===== *)
theory GenesisLedger
  imports Genesis EvaluateLedger
begin

text \<open>
  The ledger of a fresh node.  The first block moves the initial supply into the account of the operator and into the
  stakes of the configuration, and pays the first reward; its transactions are free.  So the node starts balanced: its
  coins are the supply of the first block.
\<close>

section \<open>Free transactions in the pool\<close>

definition free_pool :: "'d env \<Rightarrow> 'd \<Rightarrow> bool" where
  "free_pool E d \<longleftrightarrow> (\<forall>h t. pooled_tx E d h = Some t \<longrightarrow> charged_fee t = 0)"

lemma free_charged_fee: "Transaction.GasPrice t = 0 \<Longrightarrow> charged_fee t = 0"
  by (auto simp: charged_fee_def tx_fee_def split: result.split prod.split option.split)

context rocksdb
begin

lemma free_pool_less:
  assumes "e_kv E = K" "\<And>m0. preserves (\<lambda>d. pool_part d \<subseteq>\<^sub>m m0) m"
  shows "preserves (free_pool E) m"
  unfolding preserves_def free_pool_def
proof (intro allI impI)
  fix d h t
  assume free: "\<forall>h t. pooled_tx E d h = Some t \<longrightarrow> charged_fee t = 0" and t: "pooled_tx E (snd (m d)) h = Some t"
  have "pool_part (snd (m d)) \<subseteq>\<^sub>m pool_part d"
    using assms(2) [of "pool_part d"] by (simp add: preserves_def)
  from stored_tx_mono [OF assms(1) this t] free show "charged_fee t = 0" by blast
qed

lemma free_pool_keys:
  assumes "e_kv E = K"
  shows "preserves (free_pool E) (StorePubKey E pk)" "preserves (free_pool E) (StorePubKeyInPatriciaTrie E pk)"
    "preserves (free_pool E) (AddPubKeyToAddress K enc H H160 pk a)" "preserves (free_pool E) (StoreTree K enc t height)"
    "preserves (free_pool E) (StoreStakingAccounts K height s)"
proof -
  show "preserves (free_pool E) (StorePubKey E pk)" "preserves (free_pool E) (StorePubKeyInPatriciaTrie E pk)"
    by (rule free_pool_less [OF assms], rule pubkeys_pool_part [OF assms])+
  show "preserves (free_pool E) (StoreTree K enc t height)"
    by (rule free_pool_less [OF assms]) (rule StoreTree_pool_part)
  have tree: "preserves (\<lambda>d. pool_part d \<subseteq>\<^sub>m m0) (AddressTree_StoreTree K enc t a)" for enc t a m0
    unfolding AddressTree_StoreTree_def by (intro effects DB_Put_pool_part) simp_all
  show "preserves (free_pool E) (AddPubKeyToAddress K enc H H160 pk a)"
    by (rule free_pool_less [OF assms]) (auto simp: AddPubKeyToAddress_def Let_def intro!: effects tree [simplified])
  have "preserves (\<lambda>d. pool_part d \<subseteq>\<^sub>m m0) (sfor (store_staking K height s) is)" for m0 "is"
    by (induction "is") (auto simp: store_staking_def staking_key_def intro!: effects DB_Put_pool_part [simplified])
  then show "preserves (free_pool E) (StoreStakingAccounts K height s)"
    unfolding StoreStakingAccounts_def by (intro free_pool_less [OF assms])
qed

text \<open>A free transaction that is stored is read back as it is, or not at all when it is too short.\<close>

lemma free_pool_Store:
  assumes "e_kv E = K" "free_pool E d" "Transaction.GasPrice t = 0" "tx_Hash t \<noteq> []"
    and "Transaction_ok (e_H160 E) (e_ec E) t \<or> Transaction_GetFromBytes (e_H160 E) (e_ec E) (Transaction_GetBytes t) = Err e"
  shows "free_pool E (snd (StoreToDBPoolTx K TransactionPoolHashesDBPrefix t d))"
proof -
  let ?d = "snd (StoreToDBPoolTx K TransactionPoolHashesDBPrefix t d)"
  have ne: "Transaction_GetBytes t \<noteq> []"
    by (simp add: Transaction_GetBytes_def BytesToLenAndBytes_def be_bytes_def numeral_eq_Suc)
  have c: "content ?d = (content d)(TransactionPoolHashesDBPrefix @ tx_Hash t \<mapsto> Transaction_GetBytes t)"
    using DB_Put_Ok [of "TransactionPoolHashesDBPrefix @ tx_Hash t"] ne by (simp add: StoreToDBPoolTx_def)
  have self: "charged_fee x = 0" if "pooled_tx E ?d (tx_Hash t) = Some x" for x
    using assms(5)
  proof
    assume ok: "Transaction_ok (e_H160 E) (e_ec E) t"
    have "x = Transaction_norm t"
      using that stored_tx_content [OF assms(1), of TransactionPoolHashesDBPrefix ?d "tx_Hash t"] c ne
        Transaction_GetFromBytes_GetBytes [OF ok, of "[]"] by simp
    then show ?thesis using free_charged_fee [OF assms(3)] by simp
  qed (use that stored_tx_content [OF assms(1), of TransactionPoolHashesDBPrefix ?d "tx_Hash t"] c ne in simp)
  have other: "pooled_tx E ?d x = pooled_tx E d x" if "x \<noteq> tx_Hash t" for x
    using stored_tx_content [OF assms(1), of TransactionPoolHashesDBPrefix] c that by simp
  show ?thesis using assms(2) self other unfolding free_pool_def by metis
qed

end

section \<open>The transactions of the configuration\<close>

text \<open>The addresses that may approve fit the format of a transaction.\<close>

definition genesis_tx_ok :: "GenesisTransactions \<Rightarrow> bool" where
  "genesis_tx_ok genTx \<longleftrightarrow> (case genesis_msa (split_at CHR '','' (gt_MultiSignAddresses genTx)) of
     Ok msa \<Rightarrow> length msa \<le> 4 \<and> (msa = [] \<or> unat (gt_MultiSignNumber genTx) \<le> length msa) | _ \<Rightarrow> True)"

lemma genesis_msa_lengths: "genesis_msa as = Ok bs \<Longrightarrow> \<forall>x \<in> set bs. length x = 20"
  by (induction as arbitrary: bs) (auto simp: rbind_Ok_iff split: if_splits)

lemma Signature_Init_made: "Signature_Init ec b a = Ok s \<Longrightarrow> Signature_ok ec s \<and> sig_Address s = a"
  by (auto simp: Signature_Init_def Signature_ok_def Let_def split: if_splits)

lemma GetDelegatedAccountAddress_ok: "GetDelegatedAccountAddress n = Ok a \<Longrightarrow> Address_ok a"
  by (auto simp: GetDelegatedAccountAddress_def Address_Init_def Address_ok_def zero_Address_def Let_def split: result.splits if_splits)

lemma genesis_tx_readable:
  assumes "Address_ok (Recipient td)" "Address_ok (DelegatedAccountForLocking td)" "OptData td = []" "Pubkey td = zero_PubKey"
    and "\<forall>x \<in> set (tx_MultiSignAddresses td). length x = 20" "length (tx_MultiSignAddresses td) \<le> 4"
    and "tx_MultiSignAddresses td = [] \<or> unat (tx_MultiSignNumber td) \<le> length (tx_MultiSignAddresses td)"
    and "TxParam_ok tp" "Signature_ok initEncryptionConfigInstance sg" "sig_Address sg = Sender tp" "length h = 32"
  defines "t \<equiv> zero_Transaction\<lparr>tx_Data := td, tx_Param := tp, tx_Signature := sg, tx_Hash := h\<rparr>"
  shows "Transaction_ok H160 initEncryptionConfigInstance t \<or>
    (\<exists>e. Transaction_GetFromBytes H160 initEncryptionConfigInstance (Transaction_GetBytes t) = Err e)"
proof -
  let ?ec = initEncryptionConfigInstance
  have L: "SignatureLength ?ec = 752" "SignatureLength2 ?ec = 964"
    by (simp_all add: SignatureLength_def SignatureLength2_def initEncryptionConfigInstance_def)
  have "length (TxData_body td) < 2 ^ 32"
    using assms(2-6) by (simp add: TxData_body_def length_msa_bytes zero_PubKey_def GetBytesWithPrimary_def zero_Address_def Address_ok_def)
  moreover have "Pubkey_ok H160 ?ec zero_PubKey" using sample_TxData_ok [of H160] by (simp add: TxData_ok_def zero_TxData_def)
  ultimately have td: "TxData_ok H160 ?ec td" using assms(1-7) by (simp add: TxData_ok_def)
  have sg: "length (sig_ByteValue sg) < 2 ^ 32" using assms(9) L by (auto simp: Signature_ok_def split: if_splits)
  show ?thesis
  proof (cases "76 + min (SignatureLength ?ec) (SignatureLength2 ?ec) + 1 \<le> int (length (Transaction_GetBytes t))")
    case True
    then show ?thesis
      using td sg assms(6,8-11) by (simp add: Transaction_ok_def t_def zero_Transaction_def)
  qed (use L in \<open>auto simp: Transaction_GetFromBytes_def\<close>)
qed

definition readable :: "'d env \<Rightarrow> Transaction \<Rightarrow> bool" where
  "readable E t \<longleftrightarrow> Transaction_ok (e_H160 E) (e_ec E) t \<or>
     (\<exists>e. Transaction_GetFromBytes (e_H160 E) (e_ec E) (Transaction_GetBytes t) = Err e)"

text \<open>Checking a transaction sets its hash and nothing else.\<close>

lemma Transaction_Verify_keeps: "keeps (\<lambda>t. t\<lparr>tx_Hash := h\<rparr>) (Transaction_Verify K unjson oqs_len oqs_verify H256 ec acs d)"
proof -
  have "keeps (\<lambda>t. t\<lparr>tx_Hash := h\<rparr>) (supd (CalcHashAndSet H256))" by (simp add: keeps_def supd_def CalcHashAndSet_def)
  then show ?thesis unfolding Transaction_Verify_def by (auto intro!: effects simp: Let_def split: result.split prod.split)
qed

lemma GenesisTransaction_Ok:
  assumes "GenesisTransaction E chain sender recipient genTx nonce ts w = (Ok t, w')"
    and "e_ec E = initEncryptionConfigInstance" "genesis_tx_ok genTx" "Address_ok sender" "Address_ok recipient"
  shows "readable E (CalcHashAndSet (e_H256 E) t) \<and> Transaction.GasPrice t = 0"
    and "\<exists>pk r. on_db (StorePubKey E pk) w = (r, w')"
proof -
  obtain pk msa del sg r t0 where pk: "on_db (StorePubKey E pk) w = (Ok (), w')"
    and msa: "genesis_msa (split_at CHR '','' (gt_MultiSignAddresses genTx)) = Ok msa"
    and del: "GetDelegatedAccountAddress (gt_DelegatedAccount genTx) = Ok del"
    and sg: "GetSignatureFromString (e_ec E) (gt_Signature genTx) sender = Ok sg"
    and t0: "t0 = CalcHashAndSet (e_H256 E) (zero_Transaction\<lparr>tx_Data := zero_TxData\<lparr>Recipient := recipient, Amount := gt_Amount genTx,
      tx_LockedAmount := gt_LockedAmount genTx, tx_ReleasePerBlock := gt_ReleasedPerBlock genTx, DelegatedAccountForLocking := del,
      EscrowTransactionsDelay := gt_EscrowTransactionsDelay genTx, tx_MultiSignNumber := gt_MultiSignNumber genTx,
      tx_MultiSignAddresses := msa\<rparr>,
      tx_Param := zero_TxParam\<lparr>TxParam.ChainID := chain, Sender := sender, SendingTime := ts, Nonce := nonce\<rparr>\<rparr>)"
    and v: "Transaction_Verify (e_kv E) (e_unjson E) (e_oqs_len E) (e_oqs_verify E) (e_H256 E) (e_ec E) (w_accounts w') (w_db w')
      (t0\<lparr>tx_Signature := sg\<rparr>) = (r, t)"
    using assms(1) unfolding GenesisTransaction_def Let_def
    by (elim sbind_OkE) (auto simp: sget_def slift_def sret_def serr_def elim!: sbind_OkE split: prod.splits if_splits)
  show "\<exists>pk r. on_db (StorePubKey E pk) w = (r, w')" using pk by blast
  let ?h = "GetHashFromBytes (e_H256 E (GetBytesWithoutSignature False t))"
  let ?td = "tx_Data t0" and ?tp = "tx_Param t0"
  have t: "CalcHashAndSet (e_H256 E) t = zero_Transaction\<lparr>tx_Data := ?td, tx_Param := ?tp, tx_Signature := sg, tx_Hash := ?h\<rparr>"
    using keepsD [OF Transaction_Verify_keeps [of ?h] v] by (simp add: CalcHashAndSet_def t0)
  have "readable E (CalcHashAndSet (e_H256 E) t)"
    unfolding t readable_def assms(2)
  proof (rule genesis_tx_readable)
    show "Signature_ok initEncryptionConfigInstance sg" "sig_Address sg = Sender ?tp"
      using sg assms(2) by (auto simp: GetSignatureFromString_def rbind_Ok_iff t0 CalcHashAndSet_def dest!: Signature_Init_made)
    show "TxParam_ok ?tp" using assms(4) by (simp add: t0 CalcHashAndSet_def TxParam_ok_def zero_TxParam_def)
    show "\<forall>x \<in> set (tx_MultiSignAddresses ?td). length x = 20" "length (tx_MultiSignAddresses ?td) \<le> 4"
      "tx_MultiSignAddresses ?td = [] \<or> unat (tx_MultiSignNumber ?td) \<le> length (tx_MultiSignAddresses ?td)"
      using genesis_msa_lengths [OF msa] assms(3) msa by (simp_all add: t0 CalcHashAndSet_def genesis_tx_ok_def)
  qed (use assms(5) GetDelegatedAccountAddress_ok [OF del] in
      \<open>simp_all add: t0 CalcHashAndSet_def zero_TxData_def length_GetHashFromBytes\<close>)
  moreover have "Transaction.GasPrice t = 0"
    using arg_cong [OF t, of Transaction.GasPrice] by (simp add: CalcHashAndSet_def zero_Transaction_def)
  ultimately show "readable E (CalcHashAndSet (e_H256 E) t) \<and> Transaction.GasPrice t = 0" by blast
qed

section \<open>Funding\<close>

definition funded :: "'d env \<Rightarrow> i64 \<Rightarrow> TransactionPool \<Rightarrow> ('d, 'z) world_scheme \<Rightarrow> bool" where
  "funded E t pe w \<longleftrightarrow> ledger_at t w \<and> held_coins (w_accounts w) < 2 ^ 63 \<and> PoolTxEscrow w = pe \<and> free_pool E (w_db w)"

lemma funded_on_db: "preserves (free_pool E) m \<Longrightarrow> triple (funded E t pe) (on_db m) (\<lambda>_. funded E t pe)"
  by (auto simp: triple_def funded_def zoom_Ok ledger_at_def coins_def dest: preservesD)

lemma funded_operator:
  assumes "funded E 0 pe w" "AllAccounts (w_accounts w) = [(owner, zero_Account\<lparr>acc_Address := owner\<rparr>)]" "length k = 20" "0 \<le> sint x"
  shows "funded E x pe (w\<lparr>w_accounts := (w_accounts w)\<lparr>AllAccounts :=
    mput k ((mgetd zero_Account (AllAccounts (w_accounts w)) k)\<lparr>Balance := x, acc_Address := k\<rparr>) (AllAccounts (w_accounts w))\<rparr>\<rparr>)"
    (is "funded E x pe (w\<lparr>w_accounts := ?s\<rparr>)")
proof -
  have ok: "accounts_ok (w_accounts w)" using assms(1) by (simp add: funded_def ledger_at_def)
  have zero: "GetBalance k (w_accounts w) = 0" "held_coins (w_accounts w) = 0"
    using assms(2) by (simp_all add: GetBalance_def mgetd_def held_coins_def)
  have "accounts_ok ?s" by (rule accounts_ok_mput [OF ok assms(3)]) (use assms(4) in simp_all)
  moreover have "GetSupplyInAccounts ?s = GetSupplyInAccounts (w_accounts w) + x" "held_coins ?s = sint x"
    using GetSupplyInAccounts_mput [OF ok, of k] held_coins_mput [OF ok, of k] zero by simp_all
  ultimately show ?thesis
    using assms(1) sint_i64_bounds [of x] by (simp add: funded_def ledger_at_def coins_def algebra_simps)
qed

text \<open>The place of a staked entry, and that nothing is staked there yet.\<close>

definition staked_key :: "GenesisStaking \<Rightarrow> int \<times> addr20" where
  "staked_key s = (sint (gs_DelegatedAccount s),
     case DecodeString (gs_Account s) of Ok ab \<Rightarrow> copy_into (replicate 20 0) ab | _ \<Rightarrow> [])"

definition unstaked :: "(int \<times> addr20) list \<Rightarrow> staking \<Rightarrow> bool" where
  "unstaked ks st \<longleftrightarrow> (\<forall>(i, a) \<in> set ks. \<forall>m. staking_at i st = Ok m \<longrightarrow>
     StakedBalance (mgetd zero_StakingAccount m a) = 0 \<and> StakingRewards (mgetd zero_StakingAccount m a) = 0)"

lemma storeGenesisPubKey_staking: "keeps w_staking (storeGenesisPubKey E str primary)"
  unfolding storeGenesisPubKey_def by (intro effects)

lemma storeGenesisPubKey_accounts: "keeps w_accounts (storeGenesisPubKey E str primary)"
  unfolding storeGenesisPubKey_def by (intro effects)

lemma genesis_txs_staking: "keeps w_staking (genesis_txs E g op nonce txs)"
proof (induction txs arbitrary: nonce)
  case (Cons genTx txs)
  have "keeps w_staking (GenesisTransaction E chain op a genTx n ts)" for chain a n ts
    unfolding GenesisTransaction_def Let_def by (intro effects) (auto intro!: effects split: prod.split)
  with Cons show ?case by (auto simp: Let_def intro!: effects)
qed (auto intro: effects)

context rocksdb
begin

lemma funded_storeGenesisPubKey:
  assumes "e_kv E = K"
  shows "triple (funded E t pe :: ('d, 'z) world_scheme \<Rightarrow> bool) (storeGenesisPubKey E str primary) (\<lambda>pk w. funded E t pe w \<and> Address_ok (pk_Address pk))"
proof (rule tripleI)
  fix w pk and w' :: "('d, 'z) world_scheme"
  assume w: "funded E t pe w" and run: "storeGenesisPubKey E str primary w = (Ok pk, w')"
  obtain b a w1 where pk: "PubKey_Init (e_H160 E) (e_ec E) b a = Ok pk" and s1: "on_db (StorePubKey E pk) w = (Ok (), w1)"
    and s2: "on_db (StorePubKeyInPatriciaTrie E pk) w1 = (Ok (), w')"
    using run unfolding storeGenesisPubKey_def by (auto simp: slift_def sret_def elim!: sbind_OkE)
  have "funded E t pe w'"
    by (rule tripleD [OF funded_on_db [OF free_pool_keys(2) [OF assms]] tripleD [OF funded_on_db [OF free_pool_keys(1) [OF assms]] w s1] s2])
  moreover have "Address_ok (pk_Address pk)"
    using pk by (auto simp: PubKey_Init_def Let_def rbind_Ok_iff PubKeyToAddress_def split: if_splits dest: BytesToAddress_ok)
  ultimately show "funded E t pe w' \<and> Address_ok (pk_Address pk)" by blast
qed

lemma funded_genesis_txs:
  assumes "e_kv E = K" "e_ec E = initEncryptionConfigInstance" "Address_ok op"
  shows "\<forall>genTx \<in> set txs. genesis_tx_ok genTx \<Longrightarrow> triple (funded E t pe :: ('d, 'z) world_scheme \<Rightarrow> bool) (genesis_txs E g op nonce txs) (\<lambda>_. funded E t pe)"
proof (induction txs arbitrary: nonce)
  case Nil
  then show ?case by (simp add: triple_sret)
next
  case (Cons genTx txs)
  show ?case
  proof (rule tripleI)
    fix w hs and w' :: "('d, 'z) world_scheme"
    assume w: "funded E t pe w" and run: "genesis_txs E g op nonce (genTx # txs) w = (Ok hs, w')"
    obtain ab a tx w1 w2 hs' where a: "BytesToAddress ab = Ok a"
      and tx: "GenesisTransaction E (gen_ChainID g) op a genTx nonce (gen_Timestamp g) w = (Ok tx, w1)"
      and st: "on_db (StoreToDBPoolTx K TransactionPoolHashesDBPrefix (CalcHashAndSet (e_H256 E) tx)) w1 = (Ok (), w2)"
      and rest: "genesis_txs E g op (nonce + 1) txs w2 = (Ok hs', w')"
      using run assms(1) by (auto simp: slift_def sret_def Let_def elim!: sbind_OkE)
    note gt = GenesisTransaction_Ok [OF tx assms(2) _ assms(3) BytesToAddress_ok [OF a]]
    obtain pk r where "on_db (StorePubKey E pk) w = (r, w1)" using gt(2) Cons.prems by auto
    then have w1: "funded E t pe w1"
      using w preservesD [OF free_pool_keys(1) [OF assms(1)]]
      by (auto simp: funded_def zoom_def ledger_at_def coins_def split: prod.splits)
    have "free_pool E (snd (StoreToDBPoolTx K TransactionPoolHashesDBPrefix (CalcHashAndSet (e_H256 E) tx) (w_db w1)))"
    proof -
      have r: "readable E (CalcHashAndSet (e_H256 E) tx)" "Transaction.GasPrice (CalcHashAndSet (e_H256 E) tx) = 0"
        using gt(1) Cons.prems by (auto simp: CalcHashAndSet_def)
      have "length (tx_Hash (CalcHashAndSet (e_H256 E) tx)) = 32"
        by (simp add: CalcHashAndSet_def length_GetHashFromBytes)
      then have "tx_Hash (CalcHashAndSet (e_H256 E) tx) \<noteq> []" by auto
      with r show ?thesis using free_pool_Store [OF assms(1)] w1 unfolding readable_def funded_def by blast
    qed
    then have "funded E t pe w2"
      using w1 st by (auto simp: funded_def zoom_Ok ledger_at_def coins_def)
    moreover have "\<forall>genTx \<in> set txs. genesis_tx_ok genTx" using Cons.prems by simp
    ultimately show "funded E t pe w'" using tripleD [OF Cons.IH _ rest] by blast
  qed
qed

lemma funded_second_key:
  assumes "e_kv E = K"
  shows "triple (funded E t pe :: ('d, 'z) world_scheme \<Rightarrow> bool) (if str \<noteq> [] then sbind (storeGenesisPubKey E str False)
      (\<lambda>pk2. on_db (AddPubKeyToAddress (e_kv E) (e_enc E) (e_H256 E) (e_H160 E) pk2 a)) else sret ()) (\<lambda>_. funded E t pe)"
proof -
  have "triple (funded E t pe :: ('d, 'z) world_scheme \<Rightarrow> bool) (storeGenesisPubKey E str False) (\<lambda>_. funded E t pe)"
    by (rule triple_conseq [OF funded_storeGenesisPubKey [OF assms, where t = t and pe = pe]]) simp_all
  then show ?thesis
    by (intro triple_if triple_bind [where R = "\<lambda>_. funded E t pe"] triple_sret funded_on_db)
      (auto simp: assms intro: free_pool_keys [OF assms])
qed

text \<open>An entry of the staked balances is kept under its delegated account and its account.\<close>

lemma funded_genesis_stake:
  assumes "e_kv E = K" "staked_key s \<notin> set ks"
  shows "triple (\<lambda>w :: ('d, 'z) world_scheme. funded E t pe w \<and> unstaked (staked_key s # ks) (w_staking w)) (genesis_stake E g s)
    (\<lambda>_ w. funded E (t + gs_Amount s) pe w \<and> unstaked ks (w_staking w))"
proof (rule tripleI)
  fix w u and w' :: "('d, 'z) world_scheme"
  assume w: "funded E t pe w \<and> unstaked (staked_key s # ks) (w_staking w)" and run: "genesis_stake E g s w = (Ok u, w')"
  obtain ab del pk w1 w2 st where ab: "DecodeString (gs_Account s) = Ok ab"
    and del: "GetDelegatedAccountAddress (gs_DelegatedAccount s) = Ok del"
    and pk1: "storeGenesisPubKey E (gs_PubKey s) True w = (Ok pk, w1)"
    and pk2: "(if gs_PubKey2 s \<noteq> [] then sbind (storeGenesisPubKey E (gs_PubKey2 s) False)
      (\<lambda>pk2. on_db (AddPubKeyToAddress (e_kv E) (e_enc E) (e_H256 E) (e_H160 E) pk2 (pk_Address pk))) else sret ()) w1 = (Ok (), w2)"
    and store: "staking_store (sint (gs_DelegatedAccount s)) (copy_into (replicate 20 0) ab) (zero_StakingAccount\<lparr>
      StakedBalance := gs_Amount s, sa_DelegatedAccount := addr_ByteValue del, sa_Address := copy_into (replicate 20 0) ab,
      OperationalAccount := gs_OperationalAccount s, LockedInitBlock := [0], LockedAmount := [gs_LockedAmount s],
      ReleasePerBlock := [gs_ReleasedPerBlock s],
      StakingDetails := [(0, [\<lparr>sd_Amount = gs_Amount s, sd_Reward = 0, sd_LastUpdated = gen_Timestamp g\<rparr>])]\<rparr>) (w_staking w2) = (Ok (), st)"
    and w': "w' = w2\<lparr>w_staking := st\<rparr>"
    using run unfolding genesis_stake_def Let_def
    by (elim sbind_OkE) (auto simp: slift_def zoom_Ok)
  let ?a = "copy_into (replicate 20 0) ab" and ?i = "sint (gs_DelegatedAccount s)"
  have "funded E t pe w1" using tripleD [OF funded_storeGenesisPubKey [OF assms(1)] _ pk1] w by blast
  then have w2: "funded E t pe w2" by (rule tripleD [OF funded_second_key [OF assms(1)] _ pk2])
  have st2: "w_staking w2 = w_staking w"
    using keepsD [OF storeGenesisPubKey_staking pk1] pk2
    by (auto simp: sret_def zoom_Ok elim!: sbind_OkE split: if_splits dest!: keepsD [OF storeGenesisPubKey_staking])
  obtain m where m: "staking_at ?i (w_staking w) = Ok m" and st: "st = (w_staking w)[nat ?i := mput ?a (zero_StakingAccount\<lparr>
      StakedBalance := gs_Amount s, sa_DelegatedAccount := addr_ByteValue del, sa_Address := ?a,
      OperationalAccount := gs_OperationalAccount s, LockedInitBlock := [0], LockedAmount := [gs_LockedAmount s],
      ReleasePerBlock := [gs_ReleasedPerBlock s],
      StakingDetails := [(0, [\<lparr>sd_Amount = gs_Amount s, sd_Reward = 0, sd_LastUpdated = gen_Timestamp g\<rparr>])]\<rparr>) m]"
    using store by (auto simp: staking_store_Ok st2)
  have key: "staked_key s = (?i, ?a)" by (simp add: staked_key_def ab)
  have zero: "StakedBalance (mgetd zero_StakingAccount m ?a) = 0" "StakingRewards (mgetd zero_StakingAccount m ?a) = 0"
    using w m by (auto simp: unstaked_def key)
  have "staking_moves ?i ?a (gs_Amount s) 0 (w_staking w2) st"
    by (rule staking_movesI [OF m [folded st2] store])
      (use GetDelegatedAccountAddress_ok [OF del] zero in \<open>simp_all add: sa_ok_def Address_ok_def\<close>)
  then have "funded E (t + gs_Amount s) pe w'"
    using w2 staking_moves_totals [of "w_staking w2"]
    by (auto simp: funded_def ledger_at_def coins_def w')
  moreover have "unstaked ks st"
    unfolding unstaked_def
  proof (clarify)
    fix i a m'
    assume ia: "(i, a) \<in> set ks" and m': "staking_at i st = Ok m'"
    then have ne: "(i, a) \<noteq> (?i, ?a)" using assms(2) key by metis
    have at: "staking_at i (w_staking w) = Ok (w_staking w ! nat i)" using m' by (simp add: staking_at_Ok st)
    have "mgetd zero_StakingAccount m' a = mgetd zero_StakingAccount (w_staking w ! nat i) a"
      using m' m ne by (auto simp: staking_at_Ok st nth_list_update)
    then show "StakedBalance (mgetd zero_StakingAccount m' a) = 0 \<and> StakingRewards (mgetd zero_StakingAccount m' a) = 0"
      using w ia at by (auto simp: unstaked_def)
  qed
  ultimately show "funded E (t + gs_Amount s) pe w' \<and> unstaked ks (w_staking w')" by (simp add: w')
qed

lemma funded_genesis_stakes:
  assumes "e_kv E = K"
  shows "distinct (map staked_key ss) \<Longrightarrow>
    triple (\<lambda>w :: ('d, 'z) world_scheme. funded E t pe w \<and> unstaked (map staked_key ss) (w_staking w)) (sfor (genesis_stake E g) ss)
      (\<lambda>_. funded E (t + sum_list (map gs_Amount ss)) pe)"
proof (induction ss arbitrary: t)
  case Nil
  then show ?case by (simp add: triple_def sret_def)
next
  case (Cons s ss)
  show ?case
    using triple_bind [OF funded_genesis_stake [OF assms, where s = s and ks = "map staked_key ss"] Cons.IH] Cons.prems
    by (simp add: add.assoc)
qed

section \<open>A fresh node is balanced\<close>

lemma funded_genesis_header: "triple (funded E t pe) (genesis_header E myWallet g op rh) (\<lambda>_. funded E t pe)"
  unfolding genesis_header_def Let_def
  by (intro triple_bind [where R = "\<lambda>_. funded E t pe"] triple_slift triple_sread triple_if triple_serr triple_sret) simp_all

lemma CreateBlockFromGenesis_Ok:
  assumes "e_kv E = K" "e_ec E = initEncryptionConfigInstance" "distinct (map staked_key (StakedBalances g))"
    and "\<forall>genTx \<in> set (gen_Transactions g). genesis_tx_ok genTx"
    and "funded E 0 pe w" "unstaked (map staked_key (StakedBalances g)) (w_staking w)"
    and "AllAccounts (w_accounts w) = [(owner, zero_Account\<lparr>acc_Address := owner\<rparr>)]"
    and "0 \<le> sint (gen_InitSupply g - sum_list (map gs_Amount (StakedBalances g)))"
    and "CreateBlockFromGenesis E myWallet g w = (Ok bl, w')"
  shows "funded E (gen_InitSupply g) pe w' \<and> BlockFee bl = 0 \<and>
    Supply (bl_BaseBlock bl) = gen_InitSupply g + GetReward (gen_InitSupply g)"
proof -
  let ?x = "gen_InitSupply g - sum_list (map gs_Amount (StakedBalances g))"
  obtain pk w1 hs w2 w3 tree w4 w5 bh where
    pk: "storeGenesisPubKey E (OperatorPubKey g) True w = (Ok pk, w1)"
    and txs: "genesis_txs E g (pk_Address pk) 0 (gen_Transactions g) (w1\<lparr>w_accounts := (w_accounts w1)\<lparr>AllAccounts :=
      mput (addr_ByteValue (pk_Address pk)) ((mgetd zero_Account (AllAccounts (w_accounts w1)) (addr_ByteValue (pk_Address pk)))\<lparr>Balance := ?x,
        acc_Address := addr_ByteValue (pk_Address pk)\<rparr>) (AllAccounts (w_accounts w1))\<rparr>\<rparr>) = (Ok hs, w2)"
    and stk: "sfor (genesis_stake E g) (StakedBalances g) w2 = (Ok (), w3)"
    and st: "on_db (StoreStakingAccounts (e_kv E) 0 (w_staking w3)) w3 = (Ok (), w4)"
    and tr: "on_db (StoreTree (e_kv E) (e_enc E) tree 0) w4 = (Ok (), w5)"
    and bh: "genesis_header E myWallet g (pk_Address pk) (GetHashFromBytes (GetRootHash tree)) w5 = (Ok bh, w')"
    and bl: "bl = genesis_block (e_H256 E) g bh hs"
    using assms(9) unfolding CreateBlockFromGenesis_def Let_def
    by (elim sbind_OkE) (auto simp: slift_def sget_def sret_def supd_def zoom_Ok)
  let ?k = "addr_ByteValue (pk_Address pk)"
  have w1: "funded E 0 pe w1" "Address_ok (pk_Address pk)"
    using tripleD [OF funded_storeGenesisPubKey [OF assms(1)] assms(5) pk] by auto
  have same: "w_accounts w1 = w_accounts w" "w_staking w1 = w_staking w"
    using keepsD [OF storeGenesisPubKey_staking pk] keepsD [OF storeGenesisPubKey_accounts pk] by simp_all
  have "funded E ?x pe (w1\<lparr>w_accounts := (w_accounts w1)\<lparr>AllAccounts := mput ?k ((mgetd zero_Account (AllAccounts (w_accounts w1)) ?k)\<lparr>Balance := ?x,
      acc_Address := ?k\<rparr>) (AllAccounts (w_accounts w1))\<rparr>\<rparr>)"
    using funded_operator [OF w1(1)] assms(7,8) w1(2) same(1) by (simp add: Address_ok_def)
  from tripleD [OF funded_genesis_txs [OF assms(1,2) w1(2) assms(4)] this txs] have w2: "funded E ?x pe w2" .
  have "w_staking w2 = w_staking w" using keepsD [OF genesis_txs_staking txs] same(2) by simp
  with tripleD [OF funded_genesis_stakes [OF assms(1,3)] _ stk] w2 assms(6) have w3: "funded E (gen_InitSupply g) pe w3" by force
  have w4: "funded E (gen_InitSupply g) pe w4"
    by (rule tripleD [OF funded_on_db w3 st]) (simp add: assms(1) free_pool_keys [OF assms(1)])
  have w5: "funded E (gen_InitSupply g) pe w5"
    by (rule tripleD [OF funded_on_db w4 tr]) (simp add: assms(1) free_pool_keys [OF assms(1)])
  show ?thesis using tripleD [OF funded_genesis_header w5 bh] by (simp add: bl genesis_block_def Let_def)
qed

end

text \<open>The tables that a node has when it starts for the first time.\<close>

definition fresh_node :: "'d env \<Rightarrow> addr20 \<Rightarrow> ('d, 'z) world_scheme \<Rightarrow> bool" where
  "fresh_node E a w \<longleftrightarrow> length a = 20 \<and> w_accounts w = start_accounts a \<and> start_staking a = Ok (w_staking w) \<and>
     transactions (PoolTxEscrow w) = [] \<and> transactions (PoolTxMultiSign w) = [] \<and> free_pool E (w_db w)"

lemma start_maps_Ok:
  "start_maps a is = Ok ms \<Longrightarrow> length a = 20 \<Longrightarrow> length ms = length is \<and>
    (\<forall>m \<in> set ms. \<exists>sa. m = [(a, sa)] \<and> sa_ok a sa \<and> StakedBalance sa = 0 \<and> StakingRewards sa = 0)"
  by (induction "is" arbitrary: ms)
    (auto simp: rbind_Ok_iff start_staking_account_def sa_ok_def)

lemma start_staking_Ok:
  assumes "start_staking a = Ok st" "length a = 20"
  shows "staking_ok st" "GetSupplyInStakedAccounts st = (0, 0)" "unstaked ks st"
proof -
  obtain ms where ms: "start_maps a (map word_of_nat [1..<256]) = Ok ms" and st: "st = [] # ms"
    using assms(1) by (auto simp: start_staking_def rbind_Ok_iff)
  note p = start_maps_Ok [OF ms assms(2)]
  have zero: "m = [] \<or> (\<exists>sa. m = [(a, sa)] \<and> sa_ok a sa \<and> StakedBalance sa = 0 \<and> StakingRewards sa = 0)" if "m \<in> set st" for m
    using that p by (auto simp: st)
  show "staking_ok st" using p zero by (force simp: staking_ok_def st)
  have "msum StakedBalance m = 0 \<and> msum StakingRewards m = 0" if "m \<in> set st" for m using zero [OF that] by auto
  then show "GetSupplyInStakedAccounts st = (0, 0)" by (simp add: GetSupplyInStakedAccounts_def cong: map_cong)
  show "unstaked ks st"
    unfolding unstaked_def
  proof clarify
    fix i b m
    assume "staking_at i st = Ok m"
    then have "m \<in> set st" by (auto simp: staking_at_Ok)
    from zero [OF this] show "StakedBalance (mgetd zero_StakingAccount m b) = 0 \<and> StakingRewards (mgetd zero_StakingAccount m b) = 0"
      by (auto simp: mgetd_def)
  qed
qed

lemma fresh_node_funded:
  assumes "fresh_node E a w"
  shows "funded E 0 (PoolTxEscrow w) w"
  using assms start_staking_Ok [of a "w_staking w"]
  by (auto simp: fresh_node_def funded_def ledger_at_def coins_def start_accounts_def accounts_ok_def GetSupplyInAccounts_def held_coins_def
      pool_all_def)

text \<open>
  C4: after the first block a fresh node is balanced.  Its coins in accounts, stakes and rewards, with the fee account of the
  block, are the supply that the block states, so that the node can accept a next block; the tables of accounts and of stakes
  are well formed.  The staked entries of the configuration name different places, they do not stake more than the initial
  supply, and the addresses that may approve a transaction fit its format.
\<close>

theorem fresh_node_is_balanced:
  assumes "rocksdb (e_kv E) kvs" "e_ec E = initEncryptionConfigInstance" "fresh_node E a w"
    and "distinct (map staked_key (StakedBalances g))" "0 \<le> sint (gen_InitSupply g - sum_list (map gs_Amount (StakedBalances g)))"
    and "\<forall>genTx \<in> set (gen_Transactions g). genesis_tx_ok genTx"
    and "InitGenesis E myWallet g w = (Ok (globals, bl), w')"
  shows "coins w' + BlockFee bl = Supply (bl_BaseBlock bl) \<and> accounts_ok (w_accounts w') \<and> staking_ok (w_staking w')"
proof -
  obtain w1 w2 where create: "CreateBlockFromGenesis E myWallet g w = (Ok bl, w1)"
    and transfers: "ProcessBlockTransfers E bl (GetReward (gen_InitSupply g)) w1 = (Ok (), w2)"
    and stored: "w_accounts w' = w_accounts w2" "w_staking w' = w_staking w2"
    using assms(7) unfolding InitGenesis_def Let_def
    by (elim sbind_OkE) (auto simp: sget_def sret_def zoom_Ok)
  have acs: "AllAccounts (w_accounts w) = [(a, zero_Account\<lparr>acc_Address := a\<rparr>)]" and un: "unstaked (map staked_key (StakedBalances g)) (w_staking w)"
    using assms(3) start_staking_Ok(3) by (auto simp: fresh_node_def start_accounts_def zero_Account_def)
  note made = rocksdb.CreateBlockFromGenesis_Ok [OF assms(1) refl assms(2,4,6) fresh_node_funded [OF assms(3)] un acs assms(5) create]
  have "PoolTxEscrow w1 = PoolTxEscrow w" using made by (simp add: funded_def)
  then have ok: "ledger_ok w1"
    using made assms(3) by (simp add: funded_def ledger_ok_def ledger_at_def pool_all_def fresh_node_def)
  obtain txs where txs: "map (pooled_tx E (w_db w1)) (TransactionsHashes bl) = map Some txs"
    and led: "ledger_at (coins w1 + GetReward (gen_InitSupply g) - sum_list (map charged_fee txs)) w2"
    using ProcessBlockTransfers_coins [OF assms(1) ok transfers] by blast
  have "charged_fee t = 0" if t: "t \<in> set txs" for t
  proof -
    have "Some t \<in> set (map (pooled_tx E (w_db w1)) (TransactionsHashes bl))" unfolding txs using t by simp
    then obtain h where "pooled_tx E (w_db w1) h = Some t" by force
    then show ?thesis using made unfolding funded_def free_pool_def by blast
  qed
  then have "sum_list (map charged_fee txs) = 0" by (simp cong: map_cong)
  with led made show ?thesis
    by (simp add: ledger_at_def funded_def coins_def stored)
qed

section \<open>A small configuration\<close>

text \<open>
  An operator with an account of the whole supply less one stake, in a database that has its key: keys, address and signature
  are zeros, and the wallet and the scheme accept what they are given.
\<close>

definition genesis_env :: "memdb env" where
  "genesis_env = sample_env\<lparr>e_json := \<lambda>_. Ok [1]\<rparr>"

definition genesis_world :: "memdb world" where
  "genesis_world = \<lparr>w_db = [(PubKeyBytesMerkleTrieDBPrefix @ replicate 20 0, replicate 21 0), (PubKeyMarshalDBPrefix @ replicate 20 0, [1])],
     w_accounts = start_accounts (replicate 20 0), w_staking = (case start_staking (replicate 20 0) of Ok s \<Rightarrow> s | _ \<Rightarrow> []),
     PoolsTx = NewTransactionPool 10 0, PoolTxEscrow = NewTransactionPool 10 1, PoolTxMultiSign = NewTransactionPool 10 2\<rparr>"

definition genesis_config :: Genesis where
  "genesis_config = \<lparr>gen_Timestamp = 1, gen_ChainID = 23, gen_Difficulty = 10, gen_RewardRatio = Fin 0, gen_BlockTimeInterval = Fin 5, gen_MaxTotalSupply = MaxTotalSupply,
    gen_InitSupply = MaxTotalSupply, gen_DifficultyMultiplier = 1, gen_DifficultyChange = Fin 1, gen_MaxGasUsage = 1, gen_MaxGasPrice = 1,
    gen_MaxTransactionsPerBlock = 1, gen_MaxTransactionInPool = 1, gen_MaxPeersConnected = 1, gen_NumberOfHashesInBucket = 1, gen_NumberOfBlocksInBucket = 1,
    gen_MinStakingForNode = 1, gen_MinStakingUser = 1, gen_OraclesHeightDistance = 1, gen_VotingHeightDistance = 1,
    StakedBalances = [\<lparr>gs_Account = replicate 40 CHR ''0'', gs_Amount = 100, gs_LockedAmount = 0, gs_ReleasedPerBlock = 0, gs_DelegatedAccount = 1, gs_OperationalAccount = True,
      gs_PubKey = replicate 1794 CHR ''0'', gs_PubKey2 = []\<rparr>],
    gen_Transactions = [], gen_Signature = replicate 1506 CHR ''0'', OperatorPubKey = replicate 1794 CHR ''0''\<rparr>"

definition genesis_wallet :: Wallet where
  "genesis_wallet = \<lparr>wl_Address = zero_Address, wl_Address2 = zero_Address, wl_MainAddress = zero_Address,
     wl_PublicKey2 = zero_PubKey, signer = (\<lambda>_. Ok (replicate 752 0)), signer2 = (\<lambda>_. Ok [])\<rparr>"

definition holds_key :: "memdb \<Rightarrow> bool" where
  "holds_key d \<longleftrightarrow> map_of d (PubKeyBytesMerkleTrieDBPrefix @ replicate 20 0) = Some (replicate 21 0) \<and>
     map_of d (PubKeyMarshalDBPrefix @ replicate 20 0) = Some [1]"

lemma DecodeString_zeros: "DecodeString (replicate (2 * n) CHR ''0'') = Ok (replicate n 0)"
  by (induction n) (simp_all add: hex_val_def)

lemma holds_key_run:
  assumes "holds_key d" and "k \<noteq> []" "k \<noteq> PubKeyBytesMerkleTrieDBPrefix @ replicate 20 0" "k \<noteq> PubKeyMarshalDBPrefix @ replicate 20 0 \<or> v = [1]"
  shows "\<exists>d'. DB_Put mem_kv k v d = (Ok (), d') \<and> holds_key d'"
  using memdb.DB_Put_Ok [OF assms(2), of v d] assms(1,3,4)
  by (cases "DB_Put mem_kv k v d") (auto simp: holds_key_def)

lemma holds_key_addresses: "holds_key d \<Longrightarrow> LoadAddresses mem_kv EmptyAddress d = Ok [EmptyAddress]"
  by (simp add: holds_key_def LoadAddresses_def EmptyAddress_eq memdb.DB_Get_content) code_simp

definition genesis_pk :: PubKey where
  "genesis_pk = \<lparr>pk_ByteValue = replicate 897 0, pk_Address = EmptyAddress, pk_MainAddress = EmptyAddress, pk_Primary = True\<rparr>"

lemma genesis_env_fields [simp]:
  "e_kv genesis_env = mem_kv" "e_H256 genesis_env = sample_digest" "e_H160 genesis_env = copy_into (replicate 20 0)"
  "e_enc genesis_env = (\<lambda>ns. concat (map node_Data ns))" "e_unjson genesis_env = sample_unjson"
  "e_oqs_len genesis_env = (\<lambda>_. Some 1)" "e_oqs_verify genesis_env = (\<lambda>_ _ _ _. Ok True)"
  "e_ec genesis_env = initEncryptionConfigInstance" "e_pref genesis_env" "e_coin genesis_env" "e_json genesis_env = (\<lambda>_. Ok [1])" "e_now genesis_env = 0"
  by (simp_all add: genesis_env_def, simp add: sample_env_def)

lemma genesis_address: "PubKeyToAddress (copy_into (replicate 20 0)) (replicate 897 0) True = Ok EmptyAddress"
proof -
  have "copy_into (replicate 20 0) (replicate 897 0 :: bytes) = replicate 20 0" by (simp add: copy_into_def)
  then show ?thesis unfolding PubKeyToAddress_def EmptyAddress_eq by (simp only:) code_simp
qed

lemma holds_key_store:
  assumes "holds_key (w_db w)"
  shows "\<exists>d'. storeGenesisPubKey genesis_env (replicate 1794 CHR ''0'') True w = (Ok genesis_pk, w\<lparr>w_db := d'\<rparr>) \<and> holds_key d'"
proof -
  have dec: "DecodeString (replicate 1794 CHR ''0'') = Ok (replicate 897 0)" using DecodeString_zeros [of 897] by simp
  have init: "PubKey_Init (copy_into (replicate 20 0)) initEncryptionConfigInstance (replicate 897 0) EmptyAddress = Ok genesis_pk"
    using genesis_address by (simp add: PubKey_Init_def initEncryptionConfigInstance_def PubKeyLength_def genesis_pk_def)
  obtain d' where d': "DB_Put mem_kv (PubKeyMarshalDBPrefix @ replicate 20 0) [1] (w_db w) = (Ok (), d')" "holds_key d'"
    using holds_key_run [OF assms, of "PubKeyMarshalDBPrefix @ replicate 20 0" "[1]"] by auto
  have "StorePubKey genesis_env genesis_pk (w_db w) = (Ok (), d')"
    using d' genesis_address by (simp add: StorePubKey_def genesis_pk_def sbind_def slift_def EmptyAddress_eq)
  moreover have "StorePubKeyInPatriciaTrie genesis_env genesis_pk d' = (Ok (), d')"
    using holds_key_addresses [OF d'(2)]
    by (simp add: StorePubKeyInPatriciaTrie_def genesis_pk_def sbind_def scatch_def sread_eq sret_def)
  ultimately show ?thesis
    using dec init genesis_address d'(2) by (auto simp: storeGenesisPubKey_def sbind_def slift_def zoom_def sret_def)
qed


lemma GetDelegatedAccountAddress_total: "\<exists>a. GetDelegatedAccountAddress n = Ok a"
  by (simp add: GetDelegatedAccountAddress_def Address_Init_def)

lemma start_maps_total: "\<exists>ms. start_maps a is = Ok ms"
proof (induction "is")
  case (Cons i "is")
  obtain del where "GetDelegatedAccountAddress i = Ok del" using GetDelegatedAccountAddress_total by blast
  with Cons show ?case by (auto simp: start_staking_account_def)
qed simp

lemma genesis_staking:
  obtains s sa where "start_staking (replicate 20 0) = Ok s" "length s = 256" "s ! 1 = [(replicate 20 0, sa)]" "w_staking genesis_world = s"
proof -
  obtain ms where ms: "start_maps (replicate 20 0) (map word_of_nat [1..<256]) = Ok ms" using start_maps_total by blast
  note p = start_maps_Ok [OF ms]
  then have "ms ! 0 \<in> set ms" by (intro nth_mem) simp
  then obtain sa where "ms ! 0 = [(replicate 20 0, sa)]" using p by fastforce
  with ms p show thesis by (intro that [of "[] # ms" sa]) (simp_all add: start_staking_def genesis_world_def)
qed

lemma holds_key_StoreStaking:
  assumes "holds_key d" "staking_ok s"
  shows "\<exists>d'. StoreStakingAccounts mem_kv h s d = (Ok (), d') \<and> holds_key d'"
proof -
  have marshal: "\<exists>b. StakingAccountsType_Marshal m = Ok b" if "\<forall>(k, a) \<in> set m. sa_ok k a" for m
  proof -
    have "\<exists>b. marshal_entries m = Ok b" using that
    proof (induction m)
      case (Cons p m)
      obtain k a where p: "p = (k, a)" by fastforce
      have "lock_triples a = Ok (zip (LockedAmount a) (zip (ReleasePerBlock a) (LockedInitBlock a)))" 
        using Cons.prems p by (simp add: lock_triples_def sa_ok_def)
      then show ?case using Cons p by (auto simp: StakingAccount_Marshal_def)
    qed simp
    then show ?thesis by (auto simp: StakingAccountsType_Marshal_def)
  qed
  have "set is \<subseteq> {..<256} \<Longrightarrow> \<exists>d'. sfor (store_staking mem_kv h s) is d = (Ok (), d') \<and> holds_key d'" for "is"
    using assms(1)
  proof (induction "is" arbitrary: d)
    case (Cons i "is")
    have "staking_at (int i) s = Ok (s ! i)" "s ! i \<in> set s" using Cons.prems(1) assms(2) by (simp_all add: staking_at_def staking_ok_def)
    moreover from this obtain b where "StakingAccountsType_Marshal (s ! i) = Ok b" using marshal [of "s ! i"] assms(2) unfolding staking_ok_def by blast
    moreover obtain d1 where d1: "DB_Put mem_kv (staking_key h i) b d = (Ok (), d1)" "holds_key d1"
      using holds_key_run [OF Cons.prems(2), of "staking_key h i" b] by (auto simp: staking_key_def)
    ultimately show ?case using Cons.IH [OF _ d1(2)] Cons.prems(1) by (auto simp: sbind_def store_staking_def slift_def sdrop_def sret_def)
  qed (simp add: sret_def)
  from this [of "[0..<256]"] show ?thesis unfolding StoreStakingAccounts_def by (simp add: lessThan_atLeast0)
qed


definition genesis_account :: StakingAccount where
  "genesis_account = zero_StakingAccount\<lparr>StakedBalance := 100, sa_DelegatedAccount := be_bytes 2 (1 :: i16) @ replicate 18 0,
     sa_Address := replicate 20 0, OperationalAccount := True, LockedInitBlock := [0], LockedAmount := [0], ReleasePerBlock := [0],
     StakingDetails := [(0, [\<lparr>sd_Amount = 100, sd_Reward = 0, sd_LastUpdated = 1\<rparr>])]\<rparr>"

lemma genesis_del: "GetDelegatedAccountAddress 1 = Ok \<lparr>addr_ByteValue = be_bytes 2 (1 :: i16) @ replicate 18 0, addr_Primary = True\<rparr>"
  by code_simp

lemma genesis_stake_run:
  assumes "holds_key (w_db w)" "w_staking w = s" "length s = 256" "s ! 1 = [(replicate 20 0, sa)]"
  shows "\<exists>d'. sfor (genesis_stake genesis_env genesis_config) (StakedBalances genesis_config) w = (Ok (), w\<lparr>w_db := d', w_staking := s[1 := [(replicate 20 0, genesis_account)]]\<rparr>) \<and> holds_key d'"
proof -
  obtain d' where "storeGenesisPubKey genesis_env (replicate 1794 CHR ''0'') True w = (Ok genesis_pk, w\<lparr>w_db := d'\<rparr>)" "holds_key d'"
    using holds_key_store [OF assms(1)] by blast
  moreover have "DecodeString (replicate 40 CHR ''0'') = Ok (replicate 20 0)" using DecodeString_zeros [of 20] by simp
  ultimately show ?thesis
    using assms genesis_del
    by (intro exI [of _ d'] conjI) (simp_all add: genesis_config_def genesis_stake_def sbind_def slift_def sret_def zoom_def staking_store_def staking_at_def genesis_account_def Let_def)
qed

lemma genesis_header_run:
  assumes "holds_key (w_db w)"
  obtains bh where "genesis_header genesis_env genesis_wallet genesis_config EmptyAddress rh w = (Ok bh, w)" "bh_Height bh = 0" "OperatorAccount bh = EmptyAddress"
    "bh_DelegatedAccount bh = \<lparr>addr_ByteValue = be_bytes 2 (1 :: i16) @ replicate 18 0, addr_Primary = True\<rparr>"
proof -
  have "DecodeString (replicate 1506 CHR ''0'') = Ok (replicate 753 0)" using DecodeString_zeros [of 753] by simp
  then have sig: "GetSignatureFromString initEncryptionConfigInstance (gen_Signature genesis_config) EmptyAddress = Ok \<lparr>sig_ByteValue = replicate 753 0, sig_Address = EmptyAddress, sig_Primary = True\<rparr>"
    by (simp add: genesis_config_def GetSignatureFromString_def Signature_Init_def initEncryptionConfigInstance_def SignatureLength_def SignatureLength2_def)
  have sign: "\<exists>s. Wallet_Sign initEncryptionConfigInstance genesis_wallet (sample_digest b) True = Ok s" for b
    by (simp add: Wallet_Sign_def genesis_wallet_def sample_digest_def EmptyHash_def Signature_Init_def initEncryptionConfigInstance_def SignatureLength_def SignatureLength2_def)
  have load: "LoadPubKeyWithPrimary mem_kv sample_unjson EmptyAddress True (w_db w) = Ok (zero_PubKey\<lparr>pk_ByteValue := [1]\<rparr>)"
    using holds_key_addresses [OF assms] assms
    by (simp add: LoadPubKeyWithPrimary_def EmptyAddress_eq LoadPubKey_def memdb.DB_Get_content holds_key_def sample_unjson_def)
  let ?del = "\<lparr>addr_ByteValue = be_bytes 2 (1 :: i16) @ replicate 18 0, addr_Primary = True\<rparr>"
  let ?bh = "\<lparr>PreviousHash = EmptyHash, Difficulty = gen_Difficulty genesis_config, bh_Height = 0, bh_DelegatedAccount = ?del,
     OperatorAccount = EmptyAddress, RootMerkleTree = rh, Encryption1 = [], Encryption2 = [],
     bh_Signature = zero_Signature, SignatureMessage = []\<rparr>"
  let ?sg = "\<lparr>sig_ByteValue = replicate 753 0, sig_Address = EmptyAddress, sig_Primary = True\<rparr>"
  let ?b = "?bh\<lparr>SignatureMessage := BaseHeader_GetBytesWithoutSignature ?bh, bh_Signature := ?sg\<rparr>"
  obtain s where s: "Wallet_Sign initEncryptionConfigInstance genesis_wallet (sample_digest (BaseHeader_GetBytesWithoutSignature ?bh)) True = Ok s"
    using sign by blast
  have msg: "BaseHeader_GetBytesWithoutSignature ?b = BaseHeader_GetBytesWithoutSignature ?bh"
    by (simp add: BaseHeader_GetBytesWithoutSignature_def)
  have "BaseHeader_Verify mem_kv sample_unjson (\<lambda>_. Some 1) (\<lambda>_ _ _ _. Ok True) sample_digest initEncryptionConfigInstance True True (w_db w) ?b = Ok True"
    unfolding BaseHeader_Verify_def msg using load
    by (simp add: Let_def GetNodeSignPrimary_def Wallet_Verify_def IsPaused_def IsPaused2_def initEncryptionConfigInstance_def)
  then have "genesis_header genesis_env genesis_wallet genesis_config EmptyAddress rh w = (Ok ?b, w)"
    using s sig genesis_del by (simp add: genesis_header_def Let_def sbind_def slift_def sread_eq sret_def)
  then show thesis by (rule that) simp_all
qed

lemma genesis_reward_run:
  assumes "w_staking w = s[1 := [(replicate 20 0, genesis_account)]]" "length s = 256"
    and "bh_Height (GetHeader bl) = 0" "OperatorAccount (GetHeader bl) = EmptyAddress" "RewardPercentage (bl_BaseBlock bl) = 0"
    "bh_DelegatedAccount (GetHeader bl) = \<lparr>addr_ByteValue = be_bytes 2 (1 :: i16) @ replicate 18 0, addr_Primary = True\<rparr>"
  shows "\<exists>s'. reward_block genesis_env bl 0 w = (Ok (), w\<lparr>w_staking := s'\<rparr>)"
proof -
  have f: "i64_to_f64 100 = Fin 100" "i64_to_f64 0 = Fin 0"
    using f64_round_of_int [of 100] f64_round_of_int [of 0] by (simp_all add: i64_to_f64_def)
  have n: "IntDelegatedAccountFromAddress \<lparr>addr_ByteValue = be_bytes 2 (1 :: i16) @ replicate 18 0, addr_Primary = True\<rparr> = Ok (1, None)"
    by code_simp
  have start: "1 < length (w_staking w)" "sa_Address (mgetd zero_StakingAccount (w_staking w ! 1) (replicate 20 0)) = replicate 20 0"
    by (simp_all add: assms mgetd_def genesis_account_def)
  obtain s1 where s1: "Reward (replicate 20 0) 0 0 1 0 (w_staking w) = (Ok (), s1)"
    "1 < length s1" "sa_Address (mgetd zero_StakingAccount (s1 ! 1) (replicate 20 0)) = replicate 20 0"
    using Reward_zero_runs [OF start] by auto
  obtain s2 where s2: "Reward (replicate 20 0) 0 0 1 0 s1 = (Ok (), s2)" using Reward_zero_runs [OF s1(2,3)] by auto
  have "GetStakedInDelegatedAccount 1 (w_staking w) = Ok ([zero_Account\<lparr>Balance := 100, acc_Address := replicate 20 0\<rparr>], Fin 100,
      zero_Account\<lparr>Balance := 100, acc_Address := replicate 20 0\<rparr>)"
    using assms(1,2) f
    by (simp add: GetStakedInDelegatedAccount_def staking_at_def genesis_account_def zero_Account_def zero_StakingAccount_def Let_def)
  moreover have "f64_to_i64 (f64_div (f64_mul (Fin 0) (Fin z)) (Fin y)) = 0" if "y \<noteq> 0" for y z
    using zero_reward_f64 [OF refl that, of z] f by simp
  moreover have "addr_ByteValue EmptyAddress = replicate 20 0" by (simp add: EmptyAddress_eq)
  ultimately show ?thesis
    using f s1(1) s2 n assms(3-6)
    by (intro exI [of _ s2]) (simp add: reward_block_def sbind_def slift_def sread_eq Let_def sret_def zoom_def)
qed


lemma genesis_tree_run:
  assumes "holds_key d"
  shows "\<exists>tree d'. BuildMerkleTree sample_digest [] = Ok tree \<and> StoreTree mem_kv enc tree 0 d = (Ok (), d') \<and> holds_key d'"
proof -
  obtain tree where "BuildMerkleTree sample_digest [] = Ok tree" using BuildMerkleTree_total by blast
  moreover obtain d1 where d1: "DB_Put mem_kv (MerkleNodeDBPrefix @ GetByteInt64 0) (nodes_Marshal enc (Root tree)) d = (Ok (), d1)" "holds_key d1"
    using holds_key_run [OF assms, of "MerkleNodeDBPrefix @ GetByteInt64 0"] by auto
  moreover obtain d2 where d2: "DB_Put mem_kv (RootHashMerkleTreeDBPrefix @ GetByteInt64 0) (GetRootHash tree) d1 = (Ok (), d2)" "holds_key d2"
    using holds_key_run [OF d1(2), of "RootHashMerkleTreeDBPrefix @ GetByteInt64 0"] by auto
  moreover obtain d3 where d3: "DB_Put mem_kv (TransactionsHashesByHeightDBPrefix @ GetByteInt64 0) (concat (TxHashes tree)) d2 = (Ok (), d3)" "holds_key d3"
    using holds_key_run [OF d2(2), of "TransactionsHashesByHeightDBPrefix @ GetByteInt64 0"] by auto
  ultimately show ?thesis by (auto simp: StoreTree_def sbind_def)
qed

lemma genesis_create_run:
  obtains bl w1 s where "CreateBlockFromGenesis genesis_env genesis_wallet genesis_config genesis_world = (Ok bl, w1)" "w_staking w1 = s[1 := [(replicate 20 0, genesis_account)]]"
    "length s = 256" "bh_Height (GetHeader bl) = 0" "OperatorAccount (GetHeader bl) = EmptyAddress" "RewardPercentage (bl_BaseBlock bl) = 0"
    "bh_DelegatedAccount (GetHeader bl) = \<lparr>addr_ByteValue = be_bytes 2 (1 :: i16) @ replicate 18 0, addr_Primary = True\<rparr>"
    "TransactionsHashes bl = []" "PoolTxEscrow w1 = NewTransactionPool 10 1" "holds_key (w_db w1)"
proof -
  obtain s sa where s: "start_staking (replicate 20 0) = Ok s" "length s = 256" "s ! 1 = [(replicate 20 0, sa)]" "w_staking genesis_world = s"
    by (rule genesis_staking)
  have key: "holds_key (w_db genesis_world)" by (simp add: genesis_world_def holds_key_def)
  obtain d1 where d1: "storeGenesisPubKey genesis_env (replicate 1794 CHR ''0'') True genesis_world = (Ok genesis_pk, genesis_world\<lparr>w_db := d1\<rparr>)" "holds_key d1"
    using holds_key_store [OF key] by blast
  let ?acs = "\<lparr>AllAccounts = [(replicate 20 0, zero_Account\<lparr>Balance := MaxTotalSupply - 100, acc_Address := replicate 20 0\<rparr>)], acs_Height = 0\<rparr>"
  let ?w1 = "genesis_world\<lparr>w_db := d1, w_accounts := ?acs\<rparr>"
  let ?st = "s[1 := [(replicate 20 0, genesis_account)]]"
  obtain d2 where d2: "sfor (genesis_stake genesis_env genesis_config) (StakedBalances genesis_config) ?w1 = (Ok (), ?w1\<lparr>w_db := d2, w_staking := ?st\<rparr>)" "holds_key d2"
    using genesis_stake_run [of ?w1 s sa] d1(2) s by auto
  have "staking_ok s" using start_staking_Ok(1) [OF s(1)] by simp
  then have "staking_ok ?st"
    by (auto simp: staking_ok_def sa_ok_def genesis_account_def dest!: set_update_subset_insert [THEN subsetD])
  then obtain d3 where d3: "StoreStakingAccounts mem_kv 0 ?st d2 = (Ok (), d3)" "holds_key d3"
    using holds_key_StoreStaking [OF d2(2)] by blast
  obtain tree d4 where d4: "BuildMerkleTree sample_digest [] = Ok tree" "StoreTree mem_kv (e_enc genesis_env) tree 0 d3 = (Ok (), d4)" "holds_key d4"
    using genesis_tree_run [OF d3(2)] by blast
  let ?w4 = "?w1\<lparr>w_db := d4, w_staking := ?st\<rparr>"
  obtain bh where bh: "genesis_header genesis_env genesis_wallet genesis_config EmptyAddress (GetHashFromBytes (GetRootHash tree)) ?w4 = (Ok bh, ?w4)"
    "bh_Height bh = 0" "OperatorAccount bh = EmptyAddress"
    "bh_DelegatedAccount bh = \<lparr>addr_ByteValue = be_bytes 2 (1 :: i16) @ replicate 18 0, addr_Primary = True\<rparr>"
    using genesis_header_run [of ?w4] d4(3) by auto
  have g: "OperatorPubKey genesis_config = replicate 1794 CHR ''0''" "gen_Transactions genesis_config = []" "gen_InitSupply genesis_config = MaxTotalSupply"
    "sum_list (map gs_Amount (StakedBalances genesis_config)) = 100" by (simp_all add: genesis_config_def)
  have "on_accounts (supd (\<lambda>s. s\<lparr>AllAccounts := mput (replicate 20 0) ((mgetd zero_Account (AllAccounts s) (replicate 20 0))\<lparr>Balance := MaxTotalSupply - 100,
      acc_Address := replicate 20 0\<rparr>) (AllAccounts s)\<rparr>)) (genesis_world\<lparr>w_db := d1\<rparr>) = (Ok (), ?w1)"
    by (simp add: zoom_def supd_def genesis_world_def start_accounts_def mgetd_def)
  then have "CreateBlockFromGenesis genesis_env genesis_wallet genesis_config genesis_world = (Ok (genesis_block sample_digest genesis_config bh []), ?w4)"
    using d1 d2 d3 d4 bh g
    by (simp add: CreateBlockFromGenesis_def Let_def sbind_def genesis_pk_def EmptyAddress_eq sget_def slift_def sret_def zoom_def genesis_world_def)
  then show thesis
    using bh s d4 by (intro that [of "genesis_block sample_digest genesis_config bh []" ?w4 s]) (simp_all add: genesis_block_def Let_def genesis_world_def)
qed


lemma genesis_world_fresh: "fresh_node genesis_env (replicate 20 0) genesis_world"
proof -
  obtain s sa where s: "start_staking (replicate 20 0) = Ok s" "w_staking genesis_world = s" by (rule genesis_staking)
  have "free_pool genesis_env (w_db genesis_world)"
    using memdb.stored_tx_content [of genesis_env TransactionPoolHashesDBPrefix "w_db genesis_world"] by (simp add: free_pool_def genesis_world_def)
  then show ?thesis using s by (simp add: fresh_node_def genesis_world_def NewTransactionPool_def)
qed

lemma genesis_supply: "0 \<le> sint (gen_InitSupply genesis_config - sum_list (map gs_Amount (StakedBalances genesis_config)))"
  by (simp add: genesis_config_def MaxTotalSupply_def)

lemma genesis_run: "\<exists>globals bl w'. InitGenesis genesis_env genesis_wallet genesis_config genesis_world = (Ok (globals, bl), w')"
proof -
  obtain bl w1 s where create: "CreateBlockFromGenesis genesis_env genesis_wallet genesis_config genesis_world = (Ok bl, w1)"
    and st: "w_staking w1 = s[1 := [(replicate 20 0, genesis_account)]]" "length s = 256"
    and bl: "bh_Height (GetHeader bl) = 0" "OperatorAccount (GetHeader bl) = EmptyAddress" "RewardPercentage (bl_BaseBlock bl) = 0"
    "bh_DelegatedAccount (GetHeader bl) = \<lparr>addr_ByteValue = be_bytes 2 (1 :: i16) @ replicate 18 0, addr_Primary = True\<rparr>"
    "TransactionsHashes bl = []" and pe: "PoolTxEscrow w1 = NewTransactionPool 10 1" and key: "holds_key (w_db w1)"
    by (rule genesis_create_run)
  obtain s' where rew: "reward_block genesis_env bl 0 w1 = (Ok (), w1\<lparr>w_staking := s'\<rparr>)"
    using genesis_reward_run [OF st bl(1-4)] by blast
  have esc: "ProcessTransactionsEscrow genesis_env 0 w1 = (Ok (), w1)"
    using pe by (simp add: ProcessTransactionsEscrow_def sbind_def sget_def PeekTransactions_def NewTransactionPool_def sret_def)
  have transfers: "ProcessBlockTransfers genesis_env bl 0 w1 = (Ok (), w1\<lparr>w_staking := s'\<rparr>)"
    using rew esc bl by (simp add: ProcessBlockTransfers_def Let_def sbind_def sdrop_def sret_def)
  have un: "unstaked (map staked_key (StakedBalances genesis_config)) (w_staking genesis_world)" "AllAccounts (w_accounts genesis_world) = [(replicate 20 0, zero_Account\<lparr>acc_Address := replicate 20 0\<rparr>)]"
    using genesis_world_fresh start_staking_Ok(3) by (auto simp: fresh_node_def start_accounts_def zero_Account_def)
  have "funded genesis_env (gen_InitSupply genesis_config) (PoolTxEscrow genesis_world) w1"
    using rocksdb.CreateBlockFromGenesis_Ok [OF memdb.rocksdb_axioms, of genesis_env, OF _ _ _ _ fresh_node_funded [OF genesis_world_fresh] un genesis_supply create]
    by (simp add: genesis_config_def)
  moreover have "transactions (PoolTxEscrow w1) = []" using pe by (simp add: NewTransactionPool_def)
  ultimately have "ledger_ok w1" by (simp add: funded_def ledger_ok_def ledger_at_def pool_all_def)
  then have ok: "staking_ok s'"
    using ProcessBlockTransfers_coins [OF _ _ transfers] memdb.rocksdb_axioms by (auto simp: ledger_at_def)
  obtain d1 where d1: "DB_Put mem_kv (BlocksDBPrefix @ BlockHash bl) (Block_GetBytes bl) (w_db w1) = (Ok (), d1)" "holds_key d1"
    using holds_key_run [OF key, of "BlocksDBPrefix @ BlockHash bl"] by auto
  obtain d2 where d2: "DB_Put mem_kv (BlockByHeightDBPrefix @ GetByteInt64 0) (BlockHash bl) d1 = (Ok (), d2)" "holds_key d2"
    using holds_key_run [OF d1(2), of "BlockByHeightDBPrefix @ GetByteInt64 0"] by auto
  obtain d3 where d3: "StoreAccounts mem_kv 0 0 (w_accounts w1) d2 = (Ok (), d3)" "holds_key d3"
    using holds_key_run [OF d2(2), of "AccountsDBPrefix @ GetByteInt64 0"] by (auto simp: StoreAccounts_def)
  obtain d4 where "StoreStakingAccounts mem_kv 0 s' d3 = (Ok (), d4)" using holds_key_StoreStaking [OF d3(2) ok] by blast
  then show ?thesis
    using create transfers d1 d2 d3 bl(1)
    by (simp add: InitGenesis_def Let_def sbind_def zoom_def sget_def sret_def StoreBlock_def setInitParams_def genesis_config_def)
qed

theorem fresh_node_is_balanced_witness:
  "\<exists>globals bl w'. InitGenesis genesis_env genesis_wallet genesis_config genesis_world = (Ok (globals, bl), w') \<and>
     coins w' + BlockFee bl = Supply (bl_BaseBlock bl) \<and> accounts_ok (w_accounts w') \<and> staking_ok (w_staking w')"
proof -
  obtain globals bl w' where run: "InitGenesis genesis_env genesis_wallet genesis_config genesis_world = (Ok (globals, bl), w')" using genesis_run by blast
  have "distinct (map staked_key (StakedBalances genesis_config))" "gen_Transactions genesis_config = []" by (simp_all add: genesis_config_def)
  with fresh_node_is_balanced [OF _ _ genesis_world_fresh _ genesis_supply _ run, of map_of] memdb.rocksdb_axioms run show ?thesis by auto
qed

end
