(* ===== verification/Blake2b.thy ===== *)
theory Blake2b
  imports Buffer
begin

text \<open>
  The hash function of the node: \<^verbatim>\<open>src/crypto/blake2b/blake2b.go\<close> and the compression function of
  \<^verbatim>\<open>blake2b_generic.go\<close>, which the assembly of the other files replaces on some processors; \<^verbatim>\<open>common.CalcHashToByte\<close>
  and the hash of \<^verbatim>\<open>common.PubKeyToAddress\<close>, which the other theories have as a parameter; and the precompiled contract \<^verbatim>\<open>blake2F\<close> of
  \<^verbatim>\<open>src/core/evm/contracts.go\<close>.

  The reference is the text of RFC 7693: one \<open>rfc_G\<close> after the other, the words of the message in the order of \<open>sigma\<close>, and the message cut
  into blocks with the last one padded.  The code interleaves the steps of four \<open>G\<close>, has the order of the words computed
  in advance, keeps a block back between calls of \<^verbatim>\<open>Write\<close> and corrects its counter for the padding.
\<close>

section \<open>Constants\<close>

definition BlockSize :: nat where "BlockSize = 128"
definition Size :: nat where "Size = 64"
definition Size384 :: nat where "Size384 = 48"
definition Size256 :: nat where "Size256 = 32"
definition Size160 :: nat where "Size160 = 20"

lemmas blake_sizes [simp] = BlockSize_def Size_def Size384_def Size256_def Size160_def

definition iv :: "i64 list" where
  "iv = [0x6a09e667f3bcc908, 0xbb67ae8584caa73b, 0x3c6ef372fe94f82b, 0xa54ff53a5f1d36f1,
         0x510e527fade682d1, 0x9b05688c2b3e6c1f, 0x1f83d9abfb41bd6b, 0x5be0cd19137e2179]"

definition precomputed :: "nat list list" where
  "precomputed =
    [[0, 2, 4, 6, 1, 3, 5, 7, 8, 10, 12, 14, 9, 11, 13, 15],
     [14, 4, 9, 13, 10, 8, 15, 6, 1, 0, 11, 5, 12, 2, 7, 3],
     [11, 12, 5, 15, 8, 0, 2, 13, 10, 3, 7, 9, 14, 6, 1, 4],
     [7, 3, 13, 11, 9, 1, 12, 14, 2, 5, 4, 15, 6, 10, 0, 8],
     [9, 5, 2, 10, 0, 7, 4, 15, 14, 11, 6, 3, 1, 12, 8, 13],
     [2, 6, 0, 8, 12, 10, 11, 3, 4, 7, 15, 1, 13, 5, 14, 9],
     [12, 1, 14, 4, 5, 15, 13, 10, 0, 6, 9, 8, 7, 3, 2, 11],
     [13, 7, 12, 3, 11, 14, 1, 9, 5, 15, 8, 2, 0, 4, 6, 10],
     [6, 14, 11, 0, 15, 9, 3, 8, 12, 13, 1, 10, 2, 7, 4, 5],
     [10, 8, 7, 1, 2, 4, 6, 5, 15, 9, 3, 13, 11, 14, 12, 0]]"

section \<open>The compression function\<close>

text \<open>
  Seven statements of the body of the loop, for the words \<open>a\<close>, \<open>b\<close>, \<open>c\<close>, \<open>d\<close> of the state, entry \<open>i\<close> of the row \<open>s\<close> and the two rotations.
\<close>

definition mix :: "i64 list \<Rightarrow> nat list \<Rightarrow> nat \<times> nat \<times> nat \<times> nat \<times> nat \<times> nat \<times> nat \<Rightarrow> i64 list \<Rightarrow> i64 list" where
  "mix m s = (\<lambda>(i, a, b, c, d, r1, r2) v0.
     let v1 = v0[a := v0 ! a + m ! (s ! i)];
         v2 = v1[a := v1 ! a + v1 ! b];
         v3 = v2[d := v2 ! d XOR v2 ! a];
         v4 = v3[d := word_rotr r1 (v3 ! d)];
         v5 = v4[c := v4 ! c + v4 ! d];
         v6 = v5[b := v5 ! b XOR v5 ! c]
     in v6[b := word_rotr r2 (v6 ! b)])"

definition mixes :: "(nat \<times> nat \<times> nat \<times> nat \<times> nat \<times> nat \<times> nat) list" where
  "mixes =
    [(0, 0, 4, 8, 12, 32, 24), (1, 1, 5, 9, 13, 32, 24), (2, 2, 6, 10, 14, 32, 24), (3, 3, 7, 11, 15, 32, 24),
     (4, 0, 4, 8, 12, 16, 63), (5, 1, 5, 9, 13, 16, 63), (6, 2, 6, 10, 14, 16, 63), (7, 3, 7, 11, 15, 16, 63),
     (8, 0, 5, 10, 15, 32, 24), (9, 1, 6, 11, 12, 32, 24), (10, 2, 7, 8, 13, 32, 24), (11, 3, 4, 9, 14, 32, 24),
     (12, 0, 5, 10, 15, 16, 63), (13, 1, 6, 11, 12, 16, 63), (14, 2, 7, 8, 13, 16, 63), (15, 3, 4, 9, 14, 16, 63)]"

definition blake_round :: "i64 list \<Rightarrow> nat \<Rightarrow> i64 list \<Rightarrow> i64 list" where
  "blake_round m i = fold (mix m (precomputed ! (i mod 10))) mixes"

definition fGeneric :: "i64 list \<Rightarrow> i64 list \<Rightarrow> i64 \<Rightarrow> i64 \<Rightarrow> i64 \<Rightarrow> nat \<Rightarrow> i64 list" where
  "fGeneric h m c0 c1 flag rounds =
     (let v = h @ iv;
          v = v[12 := v ! 12 XOR c0, 13 := v ! 13 XOR c1, 14 := v ! 14 XOR flag];
          v = fold (blake_round m) [0..<rounds] v
      in map (\<lambda>i. h ! i XOR (v ! i XOR v ! (i + 8))) [0..<8])"

definition blake2b_F :: "i64 list \<Rightarrow> i64 list \<Rightarrow> i64 \<times> i64 \<Rightarrow> bool \<Rightarrow> i32 \<Rightarrow> i64 list" where
  "blake2b_F h m c final rounds = fGeneric h m (fst c) (snd c) (if final then 0xFFFFFFFFFFFFFFFF else 0) (unat rounds)"

section \<open>Hashing\<close>

text \<open>Sixteen words of a block; a short block makes \<^verbatim>\<open>binary.LittleEndian.Uint64\<close> panic.\<close>

definition block_words :: "bytes \<Rightarrow> i64 list" where
  "block_words b = map le_word (chunks 8 16 b)"

function hashBlocks :: "i64 \<Rightarrow> bytes \<Rightarrow> i64 list \<times> i64 \<times> i64 \<Rightarrow> (i64 list \<times> i64 \<times> i64) result" where
  "hashBlocks flag blocks (h, c0, c1) =
     (if blocks = [] then Ok (h, c0, c1)
      else if length blocks < BlockSize then Panic
      else let c0' = c0 + word_of_nat BlockSize;
               c1' = (if c0' < word_of_nat BlockSize then c1 + 1 else c1)
           in hashBlocks flag (drop BlockSize blocks) (fGeneric h (block_words (take BlockSize blocks)) c0' c1' flag 12, c0', c1'))"
  by pat_completeness auto
termination by (relation "measure (\<lambda>(_, blocks, _). length blocks)") auto

declare hashBlocks.simps [simp del]

definition put_words :: "i64 list \<Rightarrow> bytes" where
  "put_words ws = concat (map (le_bytes 8) ws)"

text \<open>The counter without the bytes of the padding, which \<open>hashBlocks\<close> will add.\<close>

definition uncount :: "nat \<Rightarrow> i64 \<times> i64 \<Rightarrow> i64 \<times> i64" where
  "uncount remaining c = (fst c - word_of_nat remaining, if fst c < word_of_nat remaining then snd c - 1 else snd c)"

text \<open>All blocks but the last one, which may be full.\<close>

definition whole_blocks :: "nat \<Rightarrow> nat" where
  "whole_blocks n = (let nn = n - n mod BlockSize in if n = nn then nn - BlockSize else nn)"

definition start_state :: "nat \<Rightarrow> nat \<Rightarrow> i64 list" where
  "start_state hashSize keyLen = iv[0 := iv ! 0 XOR (word_of_nat hashSize OR push_bit 8 (word_of_nat keyLen) OR 0x10000 OR 0x1000000)]"

definition checkSum :: "nat \<Rightarrow> bytes \<Rightarrow> bytes result" where
  "checkSum hashSize data =
     rbind (if length data > BlockSize
            then let n = whole_blocks (length data) in
              rbind (hashBlocks 0 (take n data) (start_state hashSize 0, 0, 0)) (\<lambda>s. Ok (s, drop n data))
            else Ok ((start_state hashSize 0, 0, 0), data)) (\<lambda>((h, c), data).
     let block = copy_into (replicate BlockSize 0) data in
     rbind (hashBlocks 0xFFFFFFFFFFFFFFFF block (h, uncount (BlockSize - length data) c)) (\<lambda>(h, c).
     Ok (copy_into (replicate Size 0) (put_words (take ((hashSize + 7) div 8) h)))))"

definition Sum512 :: "bytes \<Rightarrow> bytes result" where "Sum512 data = checkSum Size data"
definition Sum384 :: "bytes \<Rightarrow> bytes result" where "Sum384 data = rbind (checkSum Size384 data) (\<lambda>b. Ok (take Size384 b))"
definition Sum256 :: "bytes \<Rightarrow> bytes result" where "Sum256 data = rbind (checkSum Size256 data) (\<lambda>b. Ok (take Size256 b))"
definition Sum160 :: "bytes \<Rightarrow> bytes result" where "Sum160 data = rbind (checkSum Size160 data) (\<lambda>b. Ok (take Size160 b))"

section \<open>The running hash\<close>

record digest_state =
  dg_h :: "i64 list"
  dg_c :: "i64 \<times> i64"
  dg_size :: nat
  dg_block :: bytes
  dg_offset :: nat
  dg_key :: bytes
  dg_keyLen :: nat

definition digest_Reset :: "digest_state \<Rightarrow> digest_state" where
  "digest_Reset d =
     (let d = d\<lparr>dg_h := start_state (dg_size d) (dg_keyLen d), dg_offset := 0, dg_c := (0, 0)\<rparr>
      in if dg_keyLen d > 0 then d\<lparr>dg_block := dg_key d, dg_offset := BlockSize\<rparr> else d)"

definition newDigest :: "int \<Rightarrow> bytes \<Rightarrow> digest_state result" where
  "newDigest hashSize key =
     (if hashSize < 1 \<or> hashSize > int Size then Err ''blake2b: invalid hash size''
      else if length key > Size then Err ''blake2b: invalid key size''
      else Ok (digest_Reset \<lparr>dg_h = replicate 8 0, dg_c = (0, 0), dg_size = nat hashSize, dg_block = replicate BlockSize 0,
        dg_offset = 0, dg_key = copy_into (replicate BlockSize 0) key, dg_keyLen = length key\<rparr>))"

definition New512 :: "bytes \<Rightarrow> digest_state result" where "New512 key = newDigest (int Size) key"
definition New384 :: "bytes \<Rightarrow> digest_state result" where "New384 key = newDigest (int Size384) key"
definition New256 :: "bytes \<Rightarrow> digest_state result" where "New256 key = newDigest (int Size256) key"
definition New160 :: "bytes \<Rightarrow> digest_state result" where "New160 key = newDigest (int Size160) key"

text \<open>\<^verbatim>\<open>copy(d.block[off:], p)\<close>.\<close>

definition copy_at :: "nat \<Rightarrow> bytes \<Rightarrow> bytes \<Rightarrow> bytes" where
  "copy_at off p b = take off b @ copy_into (drop off b) p"

definition digest_hash :: "bytes \<Rightarrow> digest_state \<Rightarrow> digest_state result" where
  "digest_hash p d = rbind (hashBlocks 0 p (dg_h d, dg_c d)) (\<lambda>(h, c). Ok (d\<lparr>dg_h := h, dg_c := c\<rparr>))"

text \<open>The part of \<^verbatim>\<open>Write\<close> that starts on an empty block.\<close>

definition write_blocks :: "bytes \<Rightarrow> digest_state \<Rightarrow> digest_state result" where
  "write_blocks p d =
     rbind (if length p > BlockSize
            then let nn = whole_blocks (length p) in rbind (digest_hash (take nn p) d) (\<lambda>d. Ok (d, drop nn p))
            else Ok (d, p)) (\<lambda>(d, p).
     Ok (if length p > 0 then d\<lparr>dg_block := copy_into (dg_block d) p, dg_offset := dg_offset d + min BlockSize (length p)\<rparr> else d))"

text \<open>An offset past the block, which only \<^verbatim>\<open>UnmarshalBinary\<close> can bring, makes the slices panic.\<close>

definition digest_Write :: "bytes \<Rightarrow> digest_state \<Rightarrow> (digest_state \<times> nat) result" where
  "digest_Write p d =
     (let n = length p in
      if dg_offset d > 0
      then if dg_offset d > BlockSize then Panic
        else let remaining = BlockSize - dg_offset d in
          if n \<le> remaining
          then Ok (d\<lparr>dg_block := copy_at (dg_offset d) p (dg_block d), dg_offset := dg_offset d + n\<rparr>, n)
          else rbind (digest_hash (copy_at (dg_offset d) (take remaining p) (dg_block d))
              (d\<lparr>dg_block := copy_at (dg_offset d) (take remaining p) (dg_block d)\<rparr>)) (\<lambda>d.
            rbind (write_blocks (drop remaining p) (d\<lparr>dg_offset := 0\<rparr>)) (\<lambda>d. Ok (d, n)))
      else rbind (write_blocks p d) (\<lambda>d. Ok (d, n)))"

definition digest_finalize :: "digest_state \<Rightarrow> bytes result" where
  "digest_finalize d =
     (if dg_offset d > BlockSize then Panic
      else let block = copy_into (replicate BlockSize 0) (take (dg_offset d) (dg_block d)) in
        rbind (hashBlocks 0xFFFFFFFFFFFFFFFF block (dg_h d, uncount (BlockSize - dg_offset d) (dg_c d))) (\<lambda>(h, c).
        Ok (put_words h)))"

definition digest_Sum :: "bytes \<Rightarrow> digest_state \<Rightarrow> bytes result" where
  "digest_Sum b d = rbind (digest_finalize d) (\<lambda>hashSum. Ok (b @ take (dg_size d) hashSum))"

section \<open>Saving the state of a hash\<close>

definition blake_magic :: bytes where "blake_magic = [0x62, 0x32, 0x62]"

definition marshaledSize :: nat where "marshaledSize = length blake_magic + 8 * 8 + 2 * 8 + 1 + BlockSize + 1"

definition appendUint64 :: "bytes \<Rightarrow> i64 \<Rightarrow> bytes" where "appendUint64 b x = b @ be_bytes 8 x"

definition consumeUint64 :: "(bytes, i64) op" where
  "consumeUint64 b = (if length b < 8 then (Panic, b) else (Ok (be_word (take 8 b)), drop 8 b))"

definition digest_MarshalBinary :: "digest_state \<Rightarrow> bytes result" where
  "digest_MarshalBinary d =
     (if dg_keyLen d \<noteq> 0 then Err ''crypto/blake2b: cannot marshal MACs''
      else let b = foldl appendUint64 blake_magic (dg_h d);
               b = appendUint64 (appendUint64 b (fst (dg_c d))) (snd (dg_c d))
           in Ok (b @ [word_of_nat (dg_size d)] @ dg_block d @ [word_of_nat (dg_offset d)]))"

definition digest_UnmarshalBinary :: "bytes \<Rightarrow> digest_state \<Rightarrow> digest_state result" where
  "digest_UnmarshalBinary b d =
     (if length b < length blake_magic \<or> take (length blake_magic) b \<noteq> blake_magic then Err ''crypto/blake2b: invalid hash state identifier''
      else if length b \<noteq> marshaledSize then Err ''crypto/blake2b: invalid hash state size''
      else case read_n 10 consumeUint64 (drop (length blake_magic) b) of
        (Ok ws, b) \<Rightarrow> Ok (d\<lparr>dg_h := take 8 ws, dg_c := (ws ! 8, ws ! 9), dg_size := unat (b ! 0),
          dg_block := copy_into (dg_block d) (take BlockSize (drop 1 b)), dg_offset := unat (b ! (1 + BlockSize))\<rparr>)
      | (Err e, _) \<Rightarrow> Err e | (Panic, _) \<Rightarrow> Panic)"

section \<open>The callers\<close>

definition CalcHashToByte :: "bytes \<Rightarrow> bytes result" where
  "CalcHashToByte b = rbind (New256 []) (\<lambda>d. rbind (digest_Write b d) (\<lambda>(d, n). digest_Sum [] d))"

text \<open>The digest that \<^verbatim>\<open>PubKeyToAddress\<close> puts behind the byte of the scheme.\<close>

definition pubkey_hash :: "bytes \<Rightarrow> bytes result" where
  "pubkey_hash pb = rbind (New160 []) (\<lambda>d. rbind (digest_Write pb d) (\<lambda>(d, n). digest_Sum [] d))"

definition blake2FInputLength :: nat where "blake2FInputLength = 213"

definition blake2F_RequiredGas :: "bytes \<Rightarrow> i64" where
  "blake2F_RequiredGas input = (if length input \<noteq> blake2FInputLength then 0 else ucast (be_word (take 4 input) :: i32))"

definition blake2F_Run :: "bytes \<Rightarrow> bytes result" where
  "blake2F_Run input =
     (if length input \<noteq> blake2FInputLength then Err ''invalid input length''
      else if input ! 212 \<noteq> 0 \<and> input ! 212 \<noteq> 1 then Err ''invalid final flag''
      else let rounds = be_word (take 4 input);
               final = (input ! 212 = 1);
               h = map (\<lambda>i. le_word (take 8 (drop (4 + i * 8) input))) [0..<8];
               m = map (\<lambda>i. le_word (take 8 (drop (68 + i * 8) input))) [0..<16];
               t = (le_word (take 8 (drop 196 input)), le_word (take 8 (drop 204 input)))
           in Ok (put_words (blake2b_F h m t final rounds)))"

section \<open>RFC 7693\<close>

definition sigma :: "nat list list" where
  "sigma =
    [[0, 1, 2, 3, 4, 5, 6, 7, 8, 9, 10, 11, 12, 13, 14, 15],
     [14, 10, 4, 8, 9, 15, 13, 6, 1, 12, 0, 2, 11, 7, 5, 3],
     [11, 8, 12, 0, 5, 2, 15, 13, 10, 14, 3, 6, 7, 1, 9, 4],
     [7, 9, 3, 1, 13, 12, 11, 14, 2, 6, 5, 10, 4, 0, 15, 8],
     [9, 0, 5, 7, 2, 4, 10, 15, 14, 1, 11, 12, 6, 8, 3, 13],
     [2, 12, 6, 10, 0, 11, 8, 3, 4, 13, 7, 5, 15, 14, 1, 9],
     [12, 5, 1, 15, 14, 13, 4, 10, 0, 7, 6, 3, 9, 2, 8, 11],
     [13, 11, 7, 14, 12, 1, 3, 9, 5, 0, 15, 4, 8, 6, 2, 10],
     [6, 15, 14, 9, 11, 3, 0, 8, 12, 2, 13, 7, 1, 4, 10, 5],
     [10, 2, 8, 4, 7, 6, 1, 5, 15, 11, 9, 14, 3, 12, 13, 0]]"

definition rfc_G :: "nat \<times> nat \<times> nat \<times> nat \<Rightarrow> i64 \<Rightarrow> i64 \<Rightarrow> i64 list \<Rightarrow> i64 list" where
  "rfc_G = (\<lambda>(a, b, c, d) x y v.
     let v = v[a := v ! a + v ! b + x]; v = v[d := word_rotr 32 (v ! d XOR v ! a)];
         v = v[c := v ! c + v ! d]; v = v[b := word_rotr 24 (v ! b XOR v ! c)];
         v = v[a := v ! a + v ! b + y]; v = v[d := word_rotr 16 (v ! d XOR v ! a)];
         v = v[c := v ! c + v ! d]
     in v[b := word_rotr 63 (v ! b XOR v ! c)])"

definition rfc_round :: "i64 list \<Rightarrow> nat list \<Rightarrow> i64 list \<Rightarrow> i64 list" where
  "rfc_round m s v =
     (let v = rfc_G (0, 4, 8, 12) (m ! (s ! 0)) (m ! (s ! 1)) v;
          v = rfc_G (1, 5, 9, 13) (m ! (s ! 2)) (m ! (s ! 3)) v;
          v = rfc_G (2, 6, 10, 14) (m ! (s ! 4)) (m ! (s ! 5)) v;
          v = rfc_G (3, 7, 11, 15) (m ! (s ! 6)) (m ! (s ! 7)) v;
          v = rfc_G (0, 5, 10, 15) (m ! (s ! 8)) (m ! (s ! 9)) v;
          v = rfc_G (1, 6, 11, 12) (m ! (s ! 10)) (m ! (s ! 11)) v;
          v = rfc_G (2, 7, 8, 13) (m ! (s ! 12)) (m ! (s ! 13)) v
      in rfc_G (3, 4, 9, 14) (m ! (s ! 14)) (m ! (s ! 15)) v)"

text \<open>The counter \<open>t\<close> is a number of 128 bits.\<close>

definition rfc_F :: "i64 list \<Rightarrow> i64 list \<Rightarrow> nat \<Rightarrow> bool \<Rightarrow> i64 list" where
  "rfc_F h m t f =
     (let v = h @ iv;
          v = v[12 := v ! 12 XOR word_of_int (int t), 13 := v ! 13 XOR word_of_int (int t div 2 ^ 64)];
          v = (if f then v[14 := NOT (v ! 14)] else v);
          v = fold (\<lambda>i. rfc_round m (sigma ! (i mod 10))) [0..<12] v
      in map (\<lambda>i. h ! i XOR v ! i XOR v ! (i + 8)) [0..<8])"

definition pad_block :: "bytes \<Rightarrow> bytes" where
  "pad_block b = b @ replicate (128 - length b) 0"

function rfc_blocks :: "nat \<Rightarrow> bytes \<Rightarrow> i64 list \<Rightarrow> i64 list" where
  "rfc_blocks t d h =
     (if length d \<le> 128 then rfc_F h (block_words (pad_block d)) (t + length d) True
      else rfc_blocks (t + 128) (drop 128 d) (rfc_F h (block_words (take 128 d)) (t + 128) False))"
  by pat_completeness auto
termination by (relation "measure (\<lambda>(_, d, _). length d)") auto

declare rfc_blocks.simps [simp del]

definition rfc_blake2b :: "nat \<Rightarrow> bytes \<Rightarrow> bytes \<Rightarrow> bytes" where
  "rfc_blake2b nn key x =
     take nn (put_words (rfc_blocks 0 ((if key = [] then [] else pad_block key) @ x)
       (iv[0 := iv ! 0 XOR 0x01010000 XOR push_bit 8 (word_of_nat (length key)) XOR word_of_nat nn])))"

section \<open>The compression function is the one of the RFC\<close>

lemma precomputed_sigma:
  assumes "i < 10"
  shows "precomputed ! i = map (\<lambda>j. sigma ! i ! j) [0, 2, 4, 6, 1, 3, 5, 7, 8, 10, 12, 14, 9, 11, 13, 15]"
proof -
  have eq: "precomputed = map (\<lambda>s. map (\<lambda>j. s ! j) [0, 2, 4, 6, 1, 3, 5, 7, 8, 10, 12, 14, 9, 11, 13, 15]) sigma"
    by code_simp
  show ?thesis unfolding eq by (rule nth_map) (use assms in \<open>simp add: sigma_def\<close>)
qed

text \<open>A step reads and writes four words of the state; steps on other words commute with it.\<close>

definition quad :: "i64 list \<Rightarrow> nat \<times> nat \<times> nat \<times> nat \<Rightarrow> i64 \<times> i64 \<times> i64 \<times> i64" where
  "quad v = (\<lambda>(a, b, c, d). (v ! a, v ! b, v ! c, v ! d))"

definition put_quad :: "nat \<times> nat \<times> nat \<times> nat \<Rightarrow> i64 \<times> i64 \<times> i64 \<times> i64 \<Rightarrow> i64 list \<Rightarrow> i64 list" where
  "put_quad = (\<lambda>(a, b, c, d) (A, B, C, D) v. v[a := A, b := B, c := C, d := D])"

definition half :: "i64 \<Rightarrow> nat \<Rightarrow> nat \<Rightarrow> i64 \<times> i64 \<times> i64 \<times> i64 \<Rightarrow> i64 \<times> i64 \<times> i64 \<times> i64" where
  "half x r1 r2 = (\<lambda>(a, b, c, d). let a = a + x + b; d = word_rotr r1 (d XOR a); c = c + d in (a, word_rotr r2 (b XOR c), c, d))"

definition places :: "nat \<times> nat \<times> nat \<times> nat \<Rightarrow> nat list" where
  "places = (\<lambda>(a, b, c, d). [a, b, c, d])"

definition good :: "nat \<times> nat \<times> nat \<times> nat \<Rightarrow> i64 list \<Rightarrow> bool" where
  "good p v \<longleftrightarrow> distinct (places p) \<and> (\<forall>i \<in> set (places p). i < length v)"

lemma length_put_quad [simp]: "length (put_quad p q v) = length v"
  by (simp add: put_quad_def split: prod.split)

lemma good_put [simp]: "good p (put_quad p' q v) \<longleftrightarrow> good p v"
  by (simp add: good_def)

lemma quad_put [simp]: "good p v \<Longrightarrow> quad (put_quad p q v) p = q"
  by (cases p; cases q) (simp add: quad_def put_quad_def good_def places_def nth_list_update)

lemma quad_put_other: "set (places p) \<inter> set (places p') = {} \<Longrightarrow> quad (put_quad p' q v) p = quad v p"
  by (cases p; cases p'; cases q) (simp add: quad_def put_quad_def places_def)

lemma put_put [simp]: "good p v \<Longrightarrow> put_quad p q (put_quad p q' v) = put_quad p q v"
  by (cases p; cases q; cases q') (auto simp: put_quad_def good_def places_def intro!: nth_equalityI simp: nth_list_update)

lemma put_swap:
  "set (places p) \<inter> set (places p') = {} \<Longrightarrow> good p v \<Longrightarrow> good p' v \<Longrightarrow>
    put_quad p q (put_quad p' q' v) = put_quad p' q' (put_quad p q v)"
  by (cases p; cases p'; cases q; cases q') (simp add: put_quad_def places_def good_def list_update_swap)

lemma mix_put: "good (a, b, c, d) v \<Longrightarrow>
    mix m s (i, a, b, c, d, r1, r2) v = put_quad (a, b, c, d) (half (m ! (s ! i)) r1 r2 (quad v (a, b, c, d))) v"
  by (simp add: mix_def put_quad_def half_def quad_def good_def places_def Let_def list_update_swap)

definition rfc_half :: "nat \<times> nat \<times> nat \<times> nat \<Rightarrow> i64 \<Rightarrow> nat \<Rightarrow> nat \<Rightarrow> i64 list \<Rightarrow> i64 list" where
  "rfc_half = (\<lambda>(a, b, c, d) x r1 r2 v.
     let v = v[a := v ! a + v ! b + x]; v = v[d := word_rotr r1 (v ! d XOR v ! a)]; v = v[c := v ! c + v ! d]
     in v[b := word_rotr r2 (v ! b XOR v ! c)])"

lemma rfc_half_put: "good p v \<Longrightarrow> rfc_half p x r1 r2 v = put_quad p (half x r1 r2 (quad v p)) v"
  by (cases p) (simp add: rfc_half_def put_quad_def half_def quad_def good_def places_def Let_def list_update_swap add_ac)

lemma rfc_G_put: "good p v \<Longrightarrow> rfc_G p x y v = put_quad p (half y 16 63 (half x 32 24 (quad v p))) v"
proof -
  assume p: "good p v"
  have "rfc_G p x y v = rfc_half p y 16 63 (rfc_half p x 32 24 v)" by (cases p) (simp add: rfc_G_def rfc_half_def Let_def)
  then show ?thesis using p by (simp add: rfc_half_put)
qed

lemma length_rfc_G [simp]: "length (rfc_G p x y v) = length v"
  by (cases p) (simp add: rfc_G_def Let_def)

text \<open>Four steps on separate words, each followed by its second half, in the order of the code and in the order of the RFC.\<close>

lemma interleaved:
  assumes "good p0 v" "good p1 v" "good p2 v" "good p3 v"
    and "set (places p0) \<inter> set (places p1) = {}" "set (places p0) \<inter> set (places p2) = {}" "set (places p0) \<inter> set (places p3) = {}"
    and "set (places p1) \<inter> set (places p2) = {}" "set (places p1) \<inter> set (places p3) = {}" "set (places p2) \<inter> set (places p3) = {}"
  defines "H \<equiv> \<lambda>f p v. put_quad p (f (quad v p)) v"
  shows "H g3 p3 (H g2 p2 (H g1 p1 (H g0 p0 (H f3 p3 (H f2 p2 (H f1 p1 (H f0 p0 v))))))) =
    put_quad p3 (g3 (f3 (quad v p3))) (put_quad p2 (g2 (f2 (quad v p2))) (put_quad p1 (g1 (f1 (quad v p1))) (put_quad p0 (g0 (f0 (quad v p0))) v)))"
proof -
  have good: "good p (H f q v) = good p v" for p f q v by (simp add: H_def)
  have swap: "H g p (H f q u) = H f q (H g p u)" if "set (places p) \<inter> set (places q) = {}" "good p u" "good q u" for g p f q u
    using that put_swap [OF that] by (simp add: H_def quad_put_other Int_commute)
  have twice: "H g p (H f p u) = put_quad p (g (f (quad u p))) u" if "good p u" for g p f u using that by (simp add: H_def)
  show ?thesis
    using assms(1-10) by (simp add: good twice swap [of p0 p3] swap [of p0 p2] swap [of p0 p1] swap [of p1 p3] swap [of p1 p2] swap [of p2 p3] quad_put_other Int_commute)
qed


lemma four_G:
  fixes a0 b0 c0 d0 a1 b1 c1 d1 a2 b2 c2 d2 a3 b3 c3 d3 :: nat
  defines "p0 \<equiv> (a0, b0, c0, d0)" and "p1 \<equiv> (a1, b1, c1, d1)" and "p2 \<equiv> (a2, b2, c2, d2)" and "p3 \<equiv> (a3, b3, c3, d3)"
  assumes "distinct [a0, b0, c0, d0, a1, b1, c1, d1, a2, b2, c2, d2, a3, b3, c3, d3]"
    and "\<forall>i \<in> set [a0, b0, c0, d0, a1, b1, c1, d1, a2, b2, c2, d2, a3, b3, c3, d3]. i < length v"
  shows "fold (mix m s) [(i0, a0, b0, c0, d0, 32, 24), (i1, a1, b1, c1, d1, 32, 24), (i2, a2, b2, c2, d2, 32, 24), (i3, a3, b3, c3, d3, 32, 24),
      (i4, a0, b0, c0, d0, 16, 63), (i5, a1, b1, c1, d1, 16, 63), (i6, a2, b2, c2, d2, 16, 63), (i7, a3, b3, c3, d3, 16, 63)] v =
    rfc_G p3 (m ! (s ! i3)) (m ! (s ! i7)) (rfc_G p2 (m ! (s ! i2)) (m ! (s ! i6))
      (rfc_G p1 (m ! (s ! i1)) (m ! (s ! i5)) (rfc_G p0 (m ! (s ! i0)) (m ! (s ! i4)) v)))"
proof -
  have good: "good p0 v" "good p1 v" "good p2 v" "good p3 v"
    using assms(5,6) by (simp_all add: good_def places_def p0_def p1_def p2_def p3_def)
  have dis: "set (places p0) \<inter> set (places p1) = {}" "set (places p0) \<inter> set (places p2) = {}" "set (places p0) \<inter> set (places p3) = {}"
    "set (places p1) \<inter> set (places p2) = {}" "set (places p1) \<inter> set (places p3) = {}" "set (places p2) \<inter> set (places p3) = {}"
    using assms(5) by (auto simp: places_def p0_def p1_def p2_def p3_def)
  have dis': "set (places p1) \<inter> set (places p0) = {}" "set (places p2) \<inter> set (places p0) = {}" "set (places p3) \<inter> set (places p0) = {}"
    "set (places p2) \<inter> set (places p1) = {}" "set (places p3) \<inter> set (places p1) = {}" "set (places p3) \<inter> set (places p2) = {}"
    using dis by blast+
  have right: "rfc_G p3 (m ! (s ! i3)) (m ! (s ! i7)) (rfc_G p2 (m ! (s ! i2)) (m ! (s ! i6))
      (rfc_G p1 (m ! (s ! i1)) (m ! (s ! i5)) (rfc_G p0 (m ! (s ! i0)) (m ! (s ! i4)) v))) =
    put_quad p3 (half (m ! (s ! i7)) 16 63 (half (m ! (s ! i3)) 32 24 (quad v p3))) (put_quad p2 (half (m ! (s ! i6)) 16 63 (half (m ! (s ! i2)) 32 24 (quad v p2)))
      (put_quad p1 (half (m ! (s ! i5)) 16 63 (half (m ! (s ! i1)) 32 24 (quad v p1))) (put_quad p0 (half (m ! (s ! i4)) 16 63 (half (m ! (s ! i0)) 32 24 (quad v p0))) v)))"
    using good dis' by (simp add: rfc_G_put quad_put_other)
  show ?thesis
    unfolding right interleaved [OF good dis, symmetric] using good
    by (simp add: mix_put flip: p0_def p1_def p2_def p3_def)
qed

lemma mixes_front:
  "take 8 mixes = [(0, 0, 4, 8, 12, 32, 24), (1, 1, 5, 9, 13, 32, 24), (2, 2, 6, 10, 14, 32, 24), (3, 3, 7, 11, 15, 32, 24),
     (4, 0, 4, 8, 12, 16, 63), (5, 1, 5, 9, 13, 16, 63), (6, 2, 6, 10, 14, 16, 63), (7, 3, 7, 11, 15, 16, 63)]"
  by (simp add: mixes_def)

lemma mixes_back:
  "drop 8 mixes = [(8, 0, 5, 10, 15, 32, 24), (9, 1, 6, 11, 12, 32, 24), (10, 2, 7, 8, 13, 32, 24), (11, 3, 4, 9, 14, 32, 24),
     (12, 0, 5, 10, 15, 16, 63), (13, 1, 6, 11, 12, 16, 63), (14, 2, 7, 8, 13, 16, 63), (15, 3, 4, 9, 14, 16, 63)]"
  by (simp add: mixes_def)

lemma blake_round_rfc:
  assumes "length v = 16"
  shows "blake_round m i v = rfc_round m (sigma ! (i mod 10)) v"
proof -
  let ?s = "precomputed ! (i mod 10)" and ?t = "sigma ! (i mod 10)"
  have row: "?s = map (\<lambda>j. ?t ! j) [0, 2, 4, 6, 1, 3, 5, 7, 8, 10, 12, 14, 9, 11, 13, 15]"
    by (rule precomputed_sigma) simp
  have at: "?s ! 0 = ?t ! 0" "?s ! 1 = ?t ! 2" "?s ! 2 = ?t ! 4" "?s ! 3 = ?t ! 6" "?s ! 4 = ?t ! 1" "?s ! 5 = ?t ! 3" "?s ! 6 = ?t ! 5" "?s ! 7 = ?t ! 7"
    "?s ! 8 = ?t ! 8" "?s ! 9 = ?t ! 10" "?s ! 10 = ?t ! 12" "?s ! 11 = ?t ! 14" "?s ! 12 = ?t ! 9" "?s ! 13 = ?t ! 11" "?s ! 14 = ?t ! 13" "?s ! 15 = ?t ! 15"
    by (simp_all add: row)
  have first: "fold (mix m ?s) (take 8 mixes) v = rfc_G (3, 7, 11, 15) (m ! (?t ! 6)) (m ! (?t ! 7)) (rfc_G (2, 6, 10, 14) (m ! (?t ! 4)) (m ! (?t ! 5))
    (rfc_G (1, 5, 9, 13) (m ! (?t ! 2)) (m ! (?t ! 3)) (rfc_G (0, 4, 8, 12) (m ! (?t ! 0)) (m ! (?t ! 1)) v)))" (is "_ = ?w")
    unfolding at [symmetric] mixes_front by (rule four_G) (use assms in simp_all)
  have second: "fold (mix m ?s) (drop 8 mixes) u = rfc_G (3, 4, 9, 14) (m ! (?t ! 14)) (m ! (?t ! 15)) (rfc_G (2, 7, 8, 13) (m ! (?t ! 12)) (m ! (?t ! 13))
    (rfc_G (1, 6, 11, 12) (m ! (?t ! 10)) (m ! (?t ! 11)) (rfc_G (0, 5, 10, 15) (m ! (?t ! 8)) (m ! (?t ! 9)) u)))" if "length u = 16" for u
    unfolding at [symmetric] mixes_back by (rule four_G) (use that in simp_all)
  have "blake_round m i v = fold (mix m ?s) (drop 8 mixes) (fold (mix m ?s) (take 8 mixes) v)"
    unfolding blake_round_def by (metis append_take_drop_id comp_apply fold_append)
  also have "\<dots> = rfc_round m ?t v"
    unfolding first rfc_round_def Let_def by (rule second) (use assms in simp)
  finally show ?thesis .
qed

lemma length_rfc_round [simp]: "length (rfc_round m s v) = length v"
  by (simp add: rfc_round_def Let_def)

lemma blake_rounds_rfc:
  "length v = 16 \<Longrightarrow> fold (blake_round m) is v = fold (\<lambda>i. rfc_round m (sigma ! (i mod 10))) is v"
  by (induction "is" arbitrary: v) (simp_all add: blake_round_rfc)

lemma all_ones_xor: "x XOR (0xFFFFFFFFFFFFFFFF :: i64) = NOT x"
proof -
  have "(0xFFFFFFFFFFFFFFFF :: i64) = - 1" by simp
  then show ?thesis by (simp only: bit.xor_one_right)
qed

lemma fGeneric_rfc:
  assumes "length h = 8"
  shows "fGeneric h m (word_of_int (int t)) (word_of_int (int t div 2 ^ 64)) (if f then 0xFFFFFFFFFFFFFFFF else 0) 12 = rfc_F h m t f"
proof -
  let ?v = "(h @ iv)[12 := (h @ iv) ! 12 XOR word_of_int (int t), 13 := (h @ iv) ! 13 XOR word_of_int (int t div 2 ^ 64)]"
  have len: "length ?v = 16" using assms by (simp add: iv_def)
  have eq: "(h @ iv)[12 := (h @ iv) ! 12 XOR word_of_int (int t), 13 := (h @ iv) ! 13 XOR word_of_int (int t div 2 ^ 64),
      14 := (h @ iv) ! 14 XOR (if f then 0xFFFFFFFFFFFFFFFF else 0)] = (if f then ?v[14 := NOT (?v ! 14)] else ?v)"
    using list_update_id [of ?v 14] by (simp add: all_ones_xor)
  have len': "length (if f then ?v[14 := NOT (?v ! 14)] else ?v) = 16" using len by simp
  show ?thesis
    unfolding fGeneric_def rfc_F_def Let_def eq blake_rounds_rfc [OF len'] by (simp only: xor.assoc)
qed

section \<open>Blocks and the counter\<close>

text \<open>The two words of the counter, for a number of bytes that may be below zero while the padding is not counted.\<close>

definition ctr :: "int \<Rightarrow> i64 \<times> i64" where
  "ctr t = (word_of_int t, word_of_int (t div 2 ^ 64))"

lemma carry_div:
  fixes t :: int
  assumes "0 \<le> r" "r < 2 ^ 64"
  shows "(t + r) div 2 ^ 64 = (if (t + r) mod 2 ^ 64 < r then t div 2 ^ 64 + 1 else t div 2 ^ 64)"
proof -
  define q m where "q = t div 2 ^ 64" and "m = t mod 2 ^ 64"
  have m: "t = 2 ^ 64 * q + m" "0 \<le> m" "m < 2 ^ 64" by (simp_all add: q_def m_def)
  show ?thesis
  proof (cases "m + r < 2 ^ 64")
    case True
    have "(t + r) div 2 ^ 64 = q" by (rule int_div_pos_eq [where r = "m + r"]) (use True m assms in simp_all)
    moreover have "(t + r) mod 2 ^ 64 = m + r" by (rule int_mod_pos_eq [where q = q]) (use True m assms in simp_all)
    ultimately show ?thesis using m by (simp flip: q_def)
  next
    case False
    have "(t + r) div 2 ^ 64 = q + 1" by (rule int_div_pos_eq [where r = "m + r - 2 ^ 64"]) (use False m assms in simp_all)
    moreover have "(t + r) mod 2 ^ 64 = m + r - 2 ^ 64" by (rule int_mod_pos_eq [where q = "q + 1"]) (use False m assms in simp_all)
    ultimately show ?thesis using m by (simp flip: q_def)
  qed
qed

lemma word_less_iff: "r < 2 ^ 64 \<Longrightarrow> (word_of_int t :: i64) < word_of_nat r \<longleftrightarrow> t mod 2 ^ 64 < int r"
  by (simp add: word_less_def uint_word_of_int unsigned_of_nat take_bit_nat_eq_self unsigned_of_int take_bit_eq_mod take_bit_of_nat flip: of_nat_take_bit)

lemma count_up:
  "(word_of_int t + word_of_nat 128, if word_of_int t + word_of_nat 128 < (word_of_nat 128 :: i64) then word_of_int (t div 2 ^ 64) + 1 else word_of_int (t div 2 ^ 64))
    = ctr (t + 128)"
proof -
  have "word_of_int t + word_of_nat 128 = (word_of_int (t + 128) :: i64)" by simp
  moreover have "(word_of_int (t + 128) :: i64) < word_of_nat 128 \<longleftrightarrow> (t + 128) mod 2 ^ 64 < 128"
    using word_less_iff [of 128 "t + 128"] by simp
  ultimately show ?thesis using carry_div [of 128 t] by (simp add: ctr_def)
qed

lemma uncount_ctr:
  assumes "r \<le> 128"
  shows "uncount r (ctr t) = ctr (t - int r)"
proof -
  have "(word_of_int t :: i64) < word_of_nat r \<longleftrightarrow> t mod 2 ^ 64 < int r"
    by (rule word_less_iff) (use assms in simp)
  then show ?thesis using carry_div [of "int r" "t - int r"] assms by (auto simp: uncount_def ctr_def)
qed

lemma length_rfc_F [simp]: "length (rfc_F h m t f) = 8"
  by (simp add: rfc_F_def Let_def)

lemma front_block:
  assumes "Suc n = length d div 128"
  obtains b r where "d = b @ r" "length b = 128" "n = length r div 128"
proof
  have "128 \<le> length d" using assms by (metis div_less nat.simps(3) not_less)
  then show "d = take 128 d @ drop 128 d" "length (take 128 d) = 128" "n = length (drop 128 d) div 128" using assms by simp_all
qed

lemma hashBlocks_step:
  assumes "length b = 128" "length h = 8" "0 \<le> t + 128"
  shows "hashBlocks (if f then 0xFFFFFFFFFFFFFFFF else 0) (b @ blocks) (h, ctr t) =
    hashBlocks (if f then 0xFFFFFFFFFFFFFFFF else 0) blocks (rfc_F h (block_words b) (nat (t + 128)) f, ctr (t + 128))"
proof -
  have "ctr (t + 128) = (word_of_int (int (nat (t + 128))), word_of_int (int (nat (t + 128)) div 2 ^ 64))"
    using assms(3) by (simp only: nat_0_le ctr_def)
  then have "fGeneric h (block_words b) (fst (ctr (t + 128))) (snd (ctr (t + 128))) (if f then 0xFFFFFFFFFFFFFFFF else 0) 12 =
      rfc_F h (block_words b) (nat (t + 128)) f"
    using fGeneric_rfc [OF assms(2), of "block_words b" "nat (t + 128)" f] by simp
  moreover have "b \<noteq> []" using assms(1) by auto
  ultimately show ?thesis
    using assms(1) count_up [of t] by (simp add: hashBlocks.simps [of _ "b @ blocks"] ctr_def Let_def split: if_splits)
qed

lemma hashBlocks_Nil [simp]: "hashBlocks f [] s = Ok s"
  by (cases s) (simp add: hashBlocks.simps)

text \<open>Whole blocks that are not the last ones.\<close>

lemma hashBlocks_rfc:
  assumes "128 dvd length d" "length h = 8"
  shows "\<exists>h'. length h' = 8 \<and> hashBlocks 0 d (h, ctr (int t)) = Ok (h', ctr (int (t + length d))) \<and>
    (\<forall>e. e \<noteq> [] \<longrightarrow> rfc_blocks t (d @ e) h = rfc_blocks (t + length d) e h')"
  using assms
proof (induction "length d div 128" arbitrary: d h t)
  case 0
  then have "d = []" by (auto elim!: dvdE)
  then show ?case using 0 by simp
next
  case (Suc n)
  obtain b r where d: "d = b @ r" "length b = 128" and n: "n = length r div 128" using front_block [OF Suc.hyps(2)] by blast
  have r: "128 dvd length r" "n = length r div 128" using Suc.prems(1) n d by simp_all
  let ?h = "rfc_F h (block_words b) (t + 128) False"
  obtain h' where h': "length h' = 8" "hashBlocks 0 r (?h, ctr (int (t + 128))) = Ok (h', ctr (int (t + 128 + length r)))"
    "\<forall>e. e \<noteq> [] \<longrightarrow> rfc_blocks (t + 128) (r @ e) ?h = rfc_blocks (t + 128 + length r) e h'"
    using Suc.hyps(1) [OF r(2,1), of ?h "t + 128"] by auto
  have "hashBlocks 0 d (h, ctr (int t)) = Ok (h', ctr (int (t + length d)))"
    using hashBlocks_step [OF d(2) Suc.prems(2), of "int t" False r] h'(2) d by (simp add: nat_add_distrib algebra_simps)
  moreover have "rfc_blocks t (d @ e) h = rfc_blocks (t + length d) e h'" if "e \<noteq> []" for e
    using h'(3) that d by (subst rfc_blocks.simps) (simp add: algebra_simps)
  ultimately show ?case using h'(1) by blast
qed

lemma whole_blocks_split:
  assumes "128 < n"
  shows "128 dvd whole_blocks n" "whole_blocks n < n" "n \<le> whole_blocks n + 128"
proof -
  have m: "n mod 128 < 128" "128 dvd n - n mod 128" by simp_all
  show "128 dvd whole_blocks n"
  proof (cases "n mod 128 = 0")
    case True
    then show ?thesis by (auto simp: whole_blocks_def Let_def intro: dvd_diff_nat)
  next
    case False
    then have "n \<noteq> n - n mod 128" using assms by linarith
    then show ?thesis using m(2) by (simp add: whole_blocks_def Let_def)
  qed
  show "whole_blocks n < n" "n \<le> whole_blocks n + 128" using m(1) assms by (auto simp: whole_blocks_def Let_def)
qed

lemma hashBlocks_append:
  "128 dvd length a \<Longrightarrow> hashBlocks f (a @ b) s = rbind (hashBlocks f a s) (hashBlocks f b)"
proof (induction "length a div 128" arbitrary: a s)
  case 0
  then have "a = []" by (auto elim!: dvdE)
  then show ?case by simp
next
  case (Suc n)
  obtain u r where a: "a = u @ r" "length u = 128" "n = length r div 128" using front_block [OF Suc.hyps(2)] by blast
  obtain h c0 c1 where s: "s = (h, c0, c1)" by (cases s) auto
  have "hashBlocks f (r @ b) x = rbind (hashBlocks f r x) (hashBlocks f b)" for x
    using Suc a by (intro Suc.hyps(1)) simp_all
  moreover have "u \<noteq> []" using a(2) by auto
  ultimately show ?case using a by (simp add: s hashBlocks.simps [of f "u @ _"] Let_def)
qed

section \<open>The running hash is the hash of what was written\<close>

text \<open>
  A running hash stands for the bytes \<open>x\<close> written so far, its key block included: \<open>k\<close> of them are hashed, the others are in its block, and a
  block is kept until the next byte comes.
\<close>

definition rep :: "i64 list \<Rightarrow> bytes \<Rightarrow> digest_state \<Rightarrow> bool" where
  "rep h0 x d \<longleftrightarrow> length (dg_block d) = 128 \<and> dg_offset d \<le> 128 \<and> (dg_offset d = 0 \<longrightarrow> x = []) \<and>
     (\<exists>k. k + dg_offset d = length x \<and> 128 dvd k \<and> take (dg_offset d) (dg_block d) = drop k x \<and>
       hashBlocks 0 (take k x) (h0, 0, 0) = Ok (dg_h d, dg_c d))"

lemma write_blocks_rep:
  assumes "dg_offset d = 0" "length (dg_block d) = 128" "128 dvd length x" "hashBlocks 0 x (h0, 0, 0) = Ok (dg_h d, dg_c d)"
    and "length h0 = 8" "p \<noteq> [] \<or> x = []"
  shows "\<exists>d'. write_blocks p d = Ok d' \<and> rep h0 (x @ p) d' \<and> dg_size d' = dg_size d"
proof (cases "length p > 128")
  case True
  let ?n = "whole_blocks (length p)"
  note n = whole_blocks_split [OF True]
  have xs: "128 dvd length (x @ take ?n p)" using assms(3) n by simp
  obtain h' c' where hc: "hashBlocks 0 (x @ take ?n p) (h0, 0, 0) = Ok (h', c')"
    using hashBlocks_rfc [OF xs assms(5), of 0] by (auto simp: ctr_def)
  then have "hashBlocks 0 (take ?n p) (dg_h d, dg_c d) = Ok (h', c')"
    using hashBlocks_append [OF assms(3)] assms(4) by simp
  then have "write_blocks p d = Ok (d\<lparr>dg_h := h', dg_c := c', dg_block := copy_into (dg_block d) (drop ?n p), dg_offset := length p - ?n\<rparr>)"
    using True n assms(1) by (simp add: write_blocks_def digest_hash_def Let_def)
  moreover have "rep h0 (x @ p) (d\<lparr>dg_h := h', dg_c := c', dg_block := copy_into (dg_block d) (drop ?n p), dg_offset := length p - ?n\<rparr>)"
    unfolding rep_def using n hc assms(2) xs
    by (auto simp: copy_into_def intro!: exI [of _ "length x + ?n"])
  ultimately show ?thesis by simp
next
  case False
  have "rep h0 (x @ p) (if p \<noteq> [] then d\<lparr>dg_block := copy_into (dg_block d) p, dg_offset := length p\<rparr> else d)"
    unfolding rep_def using False assms by (auto simp: copy_into_def intro!: exI [of _ "length x"])
  then show ?thesis using False assms(1) by (auto simp: write_blocks_def)
qed

lemma digest_Write_rep:
  assumes "rep h0 x d" "length h0 = 8"
  shows "\<exists>d'. digest_Write p d = Ok (d', length p) \<and> rep h0 (x @ p) d' \<and> dg_size d' = dg_size d"
proof -
  obtain k where k: "k + dg_offset d = length x" "128 dvd k" "take (dg_offset d) (dg_block d) = drop k x"
    "hashBlocks 0 (take k x) (h0, 0, 0) = Ok (dg_h d, dg_c d)" and d: "length (dg_block d) = 128" "dg_offset d \<le> 128" "dg_offset d = 0 \<longrightarrow> x = []"
    using assms(1) by (auto simp: rep_def)
  let ?o = "dg_offset d"
  show ?thesis
  proof (cases "?o = 0")
    case True
    then show ?thesis using write_blocks_rep [of d x h0 p] d k assms(2) by (auto simp: digest_Write_def)
  next
    case off: False
    show ?thesis
    proof (cases "length p \<le> 128 - ?o")
      case True
      have "rep h0 (x @ p) (d\<lparr>dg_block := copy_at ?o p (dg_block d), dg_offset := ?o + length p\<rparr>)"
        unfolding rep_def using k d True off by (auto simp: copy_at_def copy_into_def intro!: exI [of _ k])
      then show ?thesis using off d True by (simp add: digest_Write_def Let_def)
    next
      case False
      let ?b = "copy_at ?o (take (128 - ?o) p) (dg_block d)" and ?y = "x @ take (128 - ?o) p"
      have b: "?b = drop k ?y" "length ?b = 128" using d k False by (auto simp: copy_at_def copy_into_def)
      have "length ?y = k + 128" using k(1) d(2) False by simp
      then have y: "?y = take k x @ ?b" "128 dvd length ?y" using k(1,2) b(1) by (simp, simp only: dvd_add_triv_right_iff)
      obtain h' c' where hc: "hashBlocks 0 ?y (h0, 0, 0) = Ok (h', c')"
        using hashBlocks_rfc [OF y(2) assms(2), of 0] by (auto simp: ctr_def)
      then have "hashBlocks 0 ?b (dg_h d, dg_c d) = Ok (h', c')"
        unfolding y(1) using hashBlocks_append [of "take k x"] k by simp
      then have run: "digest_Write p d = rbind (write_blocks (drop (128 - ?o) p) (d\<lparr>dg_block := ?b, dg_h := h', dg_c := c', dg_offset := 0\<rparr>)) (\<lambda>d. Ok (d, length p))"
        using off d False by (simp add: digest_Write_def digest_hash_def Let_def)
      have "drop (128 - ?o) p \<noteq> []" using False by simp
      then obtain d' where "write_blocks (drop (128 - ?o) p) (d\<lparr>dg_block := ?b, dg_h := h', dg_c := c', dg_offset := 0\<rparr>) = Ok d'"
        "rep h0 (?y @ drop (128 - ?o) p) d'" "dg_size d' = dg_size d"
        using write_blocks_rep [of "d\<lparr>dg_block := ?b, dg_h := h', dg_c := c', dg_offset := 0\<rparr>" ?y h0 "drop (128 - ?o) p", OF _ _ y(2) _ assms(2)] b(2) hc
        by fastforce
      then show ?thesis using run by simp
    qed
  qed
qed

text \<open>Several calls of \<^verbatim>\<open>Write\<close>.\<close>

fun digest_Writes :: "bytes list \<Rightarrow> digest_state \<Rightarrow> digest_state result" where
  "digest_Writes [] d = Ok d"
| "digest_Writes (p # ps) d = rbind (digest_Write p d) (\<lambda>(d, n). digest_Writes ps d)"

lemma digest_Writes_rep:
  "rep h0 x d \<Longrightarrow> length h0 = 8 \<Longrightarrow> \<exists>d'. digest_Writes ps d = Ok d' \<and> rep h0 (x @ concat ps) d' \<and> dg_size d' = dg_size d"
proof (induction ps arbitrary: d x)
  case (Cons p ps)
  obtain d1 where d1: "digest_Write p d = Ok (d1, length p)" "rep h0 (x @ p) d1" "dg_size d1 = dg_size d"
    using digest_Write_rep [OF Cons.prems] by blast
  then show ?case using Cons.IH [OF d1(2) Cons.prems(2)] by simp
qed simp

text \<open>The last block, with the bytes of the padding taken off the counter before the block is added to it.\<close>

lemma last_block:
  assumes "length e \<le> 128" "length h = 8"
  shows "hashBlocks 0xFFFFFFFFFFFFFFFF (copy_into (replicate 128 0) e) (h, uncount (128 - length e) (ctr (int t))) =
    Ok (rfc_blocks t e h, ctr (int (t + length e)))"
proof -
  have pad: "copy_into (replicate 128 0) e = pad_block e" using assms(1) by (simp add: copy_into_def pad_block_def)
  have "int t - int (128 - length e) + 128 = int (t + length e)" using assms(1) by simp
  then show ?thesis
    using hashBlocks_step [of "pad_block e" h "int t - int (128 - length e)" True "[]"] assms
    unfolding pad by (simp add: uncount_ctr rfc_blocks.simps [of t e] pad_block_def nat_int_add)
qed

lemma digest_finalize_rep:
  assumes "rep h0 x d" "length h0 = 8"
  shows "digest_finalize d = Ok (put_words (rfc_blocks 0 x h0))"
proof -
  obtain k where k: "k + dg_offset d = length x" "128 dvd k" "take (dg_offset d) (dg_block d) = drop k x"
    "hashBlocks 0 (take k x) (h0, 0, 0) = Ok (dg_h d, dg_c d)" and d: "dg_offset d \<le> 128" "dg_offset d = 0 \<longrightarrow> x = []"
    using assms(1) by (auto simp: rep_def)
  have len: "length (take k x) = k" using k(1) by simp
  obtain h' where h': "length h' = 8" "hashBlocks 0 (take k x) (h0, ctr (int 0)) = Ok (h', ctr (int k))"
    "\<forall>e. e \<noteq> [] \<longrightarrow> rfc_blocks 0 (take k x @ e) h0 = rfc_blocks k e h'"
    using hashBlocks_rfc [of "take k x" h0 0] k(2) assms(2) len by auto
  have st: "dg_h d = h'" "dg_c d = ctr (int k)" using h'(2) k(4) by (simp_all add: ctr_def)
  have off: "dg_offset d = length (drop k x)" using k(1) by simp
  have "rfc_blocks k (drop k x) h' = rfc_blocks 0 x h0"
  proof (cases "drop k x = []")
    case True
    have "dg_offset d = 0" unfolding off True by (rule list.size(3))
    then have x: "x = []" using d(2) by blast
    then have "k = 0" using k(1) by simp
    then show ?thesis using h'(2) x by simp
  next
    case False
    then show ?thesis using h'(3) [rule_format, OF False] by simp
  qed
  then show ?thesis
    using last_block [of "drop k x" h' k] d(1) h'(1) off k(3) by (simp add: digest_finalize_def st Let_def)
qed

text \<open>The parameter block: the fields of the word lie on separate bits.\<close>

lemma start_state_rfc:
  assumes "n < 128" "kl < 128"
  shows "start_state n kl = iv[0 := iv ! 0 XOR 0x01010000 XOR push_bit 8 (word_of_nat kl) XOR word_of_nat n]"
proof -
  have small: "bit (word_of_nat m :: i64) i \<Longrightarrow> i < 7" if "m < 128" for m i
  proof -
    have "word_of_nat m = take_bit 7 (word_of_nat m :: i64)" using that by (simp add: take_bit_of_nat take_bit_nat_eq_self)
    then show "bit (word_of_nat m :: i64) i \<Longrightarrow> i < 7" by (metis bit_take_bit_iff)
  qed
  have high: "16 \<le> i" if "bit (16842752 :: i64) i" for i
  proof -
    have "(16842752 :: i64) = push_bit 16 257" by simp
    then show ?thesis using that by (metis bit_push_bit_iff)
  qed
  have "word_of_nat n OR push_bit 8 (word_of_nat kl) OR 0x10000 OR 0x1000000 = (0x01010000 XOR push_bit 8 (word_of_nat kl) XOR word_of_nat n :: i64)"
    (is "?l = ?r")
  proof (rule bit_word_eqI)
    fix i
    show "bit ?l i \<longleftrightarrow> bit ?r i"
      using small [OF assms(1), of i] small [OF assms(2), of "i - 8"] high [of i] by (auto simp: bit_or_iff bit_xor_iff bit_push_bit_iff)
  qed
  then show ?thesis by (simp add: start_state_def xor.assoc)
qed

lemma newDigest_rep:
  assumes "1 \<le> n" "n \<le> 64" "length key \<le> 64"
  obtains d where "newDigest n key = Ok d" "dg_size d = nat n"
    "rep (start_state (nat n) (length key)) (if key = [] then [] else pad_block key) d"
proof -
  have "copy_into (replicate 128 0) key = pad_block key" "length (pad_block key) = 128" using assms(3) by (simp_all add: copy_into_def pad_block_def)
  with assms show thesis
    by (intro that [OF _ _ ]) (auto simp: newDigest_def digest_Reset_def rep_def Let_def)
qed

lemma length_start_state [simp]: "length (start_state n kl) = 8"
  by (simp add: start_state_def iv_def)

lemma written:
  assumes "1 \<le> n" "n \<le> 64" "length key \<le> 64"
  obtains d d' where "newDigest n key = Ok d" "digest_Writes ps d = Ok d'"
    "\<And>b. digest_Sum b d' = Ok (b @ rfc_blake2b (nat n) key (concat ps))"
proof -
  obtain d where d: "newDigest n key = Ok d" "dg_size d = nat n"
    "rep (start_state (nat n) (length key)) (if key = [] then [] else pad_block key) d"
    using newDigest_rep [OF assms] by blast
  obtain d' where d': "digest_Writes ps d = Ok d'" "dg_size d' = nat n"
    "rep (start_state (nat n) (length key)) ((if key = [] then [] else pad_block key) @ concat ps) d'"
    using digest_Writes_rep [OF d(3)] d(2) by auto
  have "start_state (nat n) (length key) = iv[0 := iv ! 0 XOR 0x01010000 XOR push_bit 8 (word_of_nat (length key)) XOR word_of_nat (nat n)]"
    by (rule start_state_rfc) (use assms in auto)
  then have "digest_Sum b d' = Ok (b @ rfc_blake2b (nat n) key (concat ps))" for b
    using d'(2) digest_finalize_rep [OF d'(3) length_start_state] unfolding rfc_blake2b_def
    by (simp only: digest_Sum_def rbind.simps)
  with d(1) d'(1) show thesis by (rule that)
qed

section \<open>Hashing at once, and the callers\<close>

lemma length_put_words: "length (put_words ws) = 8 * length ws"
  by (induction ws) (simp_all add: put_words_def)

lemma put_words_take: "put_words (take k ws) = take (8 * k) (put_words ws)"
  by (induction ws arbitrary: k) (simp_all add: put_words_def take_Cons split: nat.split)

lemma length_rfc_blocks: "length h = 8 \<Longrightarrow> length (rfc_blocks t d h) = 8"
  by (induction t d h rule: rfc_blocks.induct) (subst rfc_blocks.simps, simp)

lemma length_rfc_blake2b: "n \<le> 64 \<Longrightarrow> length (rfc_blake2b n key x) = n"
  using length_rfc_blocks [of "iv[0 := iv ! 0 XOR 0x01010000 XOR push_bit 8 (word_of_nat (length key)) XOR word_of_nat n]"]
  by (simp add: rfc_blake2b_def length_put_words iv_def)

text \<open>The hash at once keeps the last block back as the running hash does.\<close>

lemma checkSum_rfc:
  assumes "n \<le> 64"
  shows "\<exists>b. checkSum n data = Ok b \<and> length b = 64 \<and> take n b = rfc_blake2b n [] data"
proof -
  let ?h0 = "start_state n 0"
  define k where "k = (if length data > 128 then whole_blocks (length data) else 0)"
  have k: "128 dvd k" "k \<le> length data" "length data \<le> k + 128" "drop k data = [] \<longrightarrow> k = 0"
    using whole_blocks_split [of "length data"] by (auto simp: k_def)
  obtain h' where h': "length h' = 8" "hashBlocks 0 (take k data) (?h0, ctr (int 0)) = Ok (h', ctr (int k))"
    "\<forall>e. e \<noteq> [] \<longrightarrow> rfc_blocks 0 (take k data @ e) ?h0 = rfc_blocks k e h'"
    using hashBlocks_rfc [of "take k data" ?h0 0] k by auto
  have fin: "rfc_blocks k (drop k data) h' = rfc_blocks 0 data ?h0"
  proof (cases "drop k data = []")
    case True
    then have "k = 0" using k(4) by blast
    then show ?thesis using h'(2) by simp
  next
    case False
    then show ?thesis using h'(3) [rule_format, OF False] by simp
  qed
  have "rbind (if length data > BlockSize then let n' = whole_blocks (length data) in
      rbind (hashBlocks 0 (take n' data) (?h0, 0, 0)) (\<lambda>s. Ok (s, drop n' data)) else Ok ((?h0, 0, 0), data)) f =
    f ((h', ctr (int k)), drop k data)" for f :: "_ \<Rightarrow> bytes result"
    using h'(2) by (auto simp: k_def ctr_def Let_def)
  moreover have "hashBlocks 0xFFFFFFFFFFFFFFFF (copy_into (replicate 128 0) (drop k data)) (h', uncount (128 - length (drop k data)) (ctr (int k))) =
      Ok (rfc_blocks 0 data ?h0, ctr (int (k + length (drop k data))))"
    using last_block [of "drop k data" h' k] k(3) h'(1) fin by simp
  ultimately have "checkSum n data = Ok (copy_into (replicate 64 0) (put_words (take ((n + 7) div 8) (rfc_blocks 0 data ?h0))))"
    unfolding checkSum_def by simp
  moreover have "length (put_words (rfc_blocks 0 data ?h0)) = 64" by (simp add: length_put_words length_rfc_blocks)
  moreover have "start_state n 0 = iv[0 := iv ! 0 XOR 0x01010000 XOR word_of_nat n]" using start_state_rfc [of n 0] assms by simp
  moreover have "n \<le> 8 * ((n + 7) div 8)" by linarith
  ultimately show ?thesis using assms by (auto simp: rfc_blake2b_def copy_into_def put_words_take min_def)
qed

lemma Sums_rfc:
  "Sum512 data = Ok (rfc_blake2b 64 [] data)" "Sum384 data = Ok (rfc_blake2b 48 [] data)"
  "Sum256 data = Ok (rfc_blake2b 32 [] data)" "Sum160 data = Ok (rfc_blake2b 20 [] data)"
  using checkSum_rfc [of 64 data] checkSum_rfc [of 48 data] checkSum_rfc [of 32 data] checkSum_rfc [of 20 data]
  by (auto simp: Sum512_def Sum384_def Sum256_def Sum160_def)

lemma one_write:
  assumes "1 \<le> n" "n \<le> 64"
  shows "rbind (newDigest n []) (\<lambda>d. rbind (digest_Write x d) (\<lambda>(d, k). digest_Sum [] d)) = Ok (rfc_blake2b (nat n) [] x)"
  by (rule written [OF assms, of "[]" "[x]"]) (auto simp: rbind_Ok_iff split: prod.splits)

lemma CalcHashToByte_rfc: "CalcHashToByte b = Ok (rfc_blake2b 32 [] b)" "length (rfc_blake2b 32 [] b) = 32"
  using one_write [of 32 b] by (simp_all add: CalcHashToByte_def New256_def length_rfc_blake2b)

text \<open>An address can be made of every public key.\<close>

lemma pubkey_hash_rfc:
  "pubkey_hash pb = Ok (rfc_blake2b 20 [] pb)"
  "PubKeyToAddress (rfc_blake2b 20 []) pb primary = Ok \<lparr>addr_ByteValue = rfc_blake2b 20 [] pb, addr_Primary = primary\<rparr>"
  using one_write [of 20 pb] length_rfc_blake2b [of 20 "[]" pb]
  by (simp_all add: pubkey_hash_def New160_def PubKeyToAddress_def BytesToAddress_def Address_Init_def copy_into_def zero_Address_def Let_def)

text \<open>A hash without key is taken back from its saved state.\<close>

interpretation saved_word: codec_pair "be_bytes 8 :: i64 \<Rightarrow> bytes" consumeUint64 "\<lambda>_. True"
  by unfold_locales (simp add: consumeUint64_def be_word_be_bytes take_bit_word_full)

lemma UnmarshalBinary_MarshalBinary:
  assumes "dg_keyLen d = 0" "length (dg_h d) = 8" "length (dg_block d) = 128" "dg_size d < 256" "dg_offset d < 256"
    and "length (dg_block d0) = 128"
  shows "rbind (digest_MarshalBinary d) (\<lambda>b. digest_UnmarshalBinary b d0) =
    Ok (d0\<lparr>dg_h := dg_h d, dg_c := dg_c d, dg_size := dg_size d, dg_block := dg_block d, dg_offset := dg_offset d\<rparr>)"
proof -
  let ?ws = "dg_h d @ [fst (dg_c d), snd (dg_c d)]"
  let ?tl = "[word_of_nat (dg_size d)] @ dg_block d @ [word_of_nat (dg_offset d)]"
  have app: "foldl appendUint64 b ws = b @ concat (map (be_bytes 8) ws)" for b ws
    by (induction ws arbitrary: b) (simp_all add: appendUint64_def)
  have "digest_MarshalBinary d = Ok (blake_magic @ concat (map (be_bytes 8) ?ws) @ ?tl)"
    using assms(1) by (simp add: digest_MarshalBinary_def app appendUint64_def Let_def)
  moreover have "read_n 10 consumeUint64 (concat (map (be_bytes 8) ?ws) @ ?tl) = (Ok ?ws, ?tl)"
    using saved_word.read_n_concat [of ?ws ?tl] assms(2) by simp
  moreover have "length (concat (map (be_bytes 8) ?ws)) = 80"
    using assms(2) by (simp add: length_concat comp_def sum_list_triv)
  ultimately show ?thesis
    using assms by (simp add: digest_UnmarshalBinary_def blake_magic_def marshaledSize_def nth_append unsigned_of_nat take_bit_nat_eq_self)
qed

text \<open>The precompiled contract is the compression function of the RFC when it is asked for twelve rounds.\<close>

lemma blake2F_Run_rfc:
  assumes "length input = 213" "input ! 212 \<in> {0, 1}" "be_word (take 4 input) = (12 :: i32)"
  shows "blake2F_Run input = Ok (put_words (rfc_F (map (\<lambda>i. le_word (take 8 (drop (4 + i * 8) input))) [0..<8])
    (map (\<lambda>i. le_word (take 8 (drop (68 + i * 8) input))) [0..<16])
    (unat (le_word (take 8 (drop 196 input)) :: i64) + 2 ^ 64 * unat (le_word (take 8 (drop 204 input)) :: i64)) (input ! 212 = 1)))"
proof -
  have "word_of_int (int (unat x + 2 ^ 64 * unat y)) = x" "word_of_int (int (unat x + 2 ^ 64 * unat y) div 2 ^ 64) = y" for x y :: i64
  proof -
    have x: "int (unat x + 2 ^ 64 * unat y) = uint x + 2 ^ 64 * uint y" "uint x < 2 ^ 64" "0 \<le> uint x"
      using uint_lt2p [of x] by simp_all
    have "(2 ^ 64 :: i64) = 0" by simp
    then have "(word_of_int (uint x + 2 ^ 64 * uint y) :: i64) = x"
      by (simp only: of_int_add of_int_mult of_int_power of_int_numeral word_of_int_uint mult_zero_left add_0_right)
    then show "word_of_int (int (unat x + 2 ^ 64 * unat y)) = x" unfolding x(1) .
    have "(uint x + 2 ^ 64 * uint y) div 2 ^ 64 = uint y" using x(2,3) by simp
    then show "word_of_int (int (unat x + 2 ^ 64 * unat y) div 2 ^ 64) = y" unfolding x(1) by simp
  qed
  note w = this
  show ?thesis
    using assms fGeneric_rfc [of "map (\<lambda>i. le_word (take 8 (drop (4 + i * 8) input))) [0..<8]"
        "map (\<lambda>i. le_word (take 8 (drop (68 + i * 8) input))) [0..<16]"
        "unat (le_word (take 8 (drop 196 input)) :: i64) + 2 ^ 64 * unat (le_word (take 8 (drop 204 input)) :: i64)" "input ! 212 = 1", unfolded w]
    by (auto simp: blake2F_Run_def blake2FInputLength_def blake2b_F_def Let_def)
qed

section \<open>Properties\<close>

text \<open>
  C9: whatever the pieces are in which a message is written, the running hash is the BLAKE2b hash of RFC 7693 of the whole
  message, for every output size from 1 to 64 bytes and every key of up to 64 bytes; no write fails.
\<close>

theorem written_pieces_hash_as_RFC:
  assumes "1 \<le> n" "n \<le> 64" "length key \<le> 64"
  shows "rbind (newDigest n key) (\<lambda>d. rbind (digest_Writes ps d) (digest_Sum b)) = Ok (b @ rfc_blake2b (nat n) key (concat ps))"
  by (rule written [OF assms, of ps]) simp

theorem written_pieces_hash_as_RFC_witness:
  "rbind (newDigest 32 [7]) (\<lambda>d. rbind (digest_Writes [[1, 2], [], [3]] d) (digest_Sum [])) = Ok (rfc_blake2b 32 [7] [1, 2, 3])"
  using written_pieces_hash_as_RFC [of 32 "[7]" "[[1, 2], [], [3]]" "[]"] by simp

end
