(* ===== verification/Spec2Isabelle.thy ===== *)
theory Spec2Isabelle
  imports Sync EVM_Types GenesisLedger Blake2b
begin

text \<open>
  A verification development for the Okura node, a proof-of-stake blockchain node written in Go.

  \<^bold>\<open>The program.\<close>  A node keeps coin accounts, staking accounts of 256 delegated accounts, the accounts of an exchange
  and the state of smart contracts.  Users send signed transactions, which wait in pools.  Delegated accounts vote with
  nonce messages; one of them makes a block of pooled transactions, and every other node checks the block, runs its
  contracts, applies its transactions and stores the result in RocksDB under a key for each height.  A node that is behind
  asks its peers for blocks, and a node that fails in a block resets itself to what it had stored.  Signatures are those
  of two post-quantum schemes of liboqs, which the delegated accounts can vote to pause and to replace.

  \<^bold>\<open>How Go is modelled.\<close>
  \<^item> \<open>Prelude\<close>: machine integers are words, which wrap as Go's do; slices are lists, and an index out of range is a panic;
    a map is an association list whose order is one order of \<^verbatim>\<open>range\<close>; an outcome is \<open>Ok\<close>, \<open>Err\<close> or \<open>Panic\<close>; a global
    variable is part of a state that operations take and return, kept also on the way out through an error.
  \<^item> \<open>Partial\<close>: the same for calls that may not return, whose outcome is then \<open>None\<close>.
  \<^item> \<open>Float64\<close>: \<^verbatim>\<open>float64\<close> with its rounding.  \<open>Heap\<close>: \<^verbatim>\<open>container/heap\<close>.  \<open>Buffer\<close>: reading a \<^verbatim>\<open>bytes.Buffer\<close>.

  \<^bold>\<open>The data of the node.\<close>
  \<^item> \<open>Common\<close>: \<^verbatim>\<open>src/common\<close>, byte encodings, addresses, keys, signatures, delegated accounts.  Each encoder is inverted.
  \<^item> \<open>Database\<close>: \<^verbatim>\<open>src/database\<close>, the wrapper around RocksDB and the searches for the last stored height.
  \<^item> \<open>Merkle\<close>: \<^verbatim>\<open>src/transactionsPool/merkleTree.go\<close> and \<^verbatim>\<open>src/pubkeys/pubKeysTrie.go\<close>.  The root binds the leaves, up to a
    collision of the digest.
  \<^item> \<open>Pubkeys\<close>: \<^verbatim>\<open>src/pubkeys\<close>, the keys of a main address.
  \<^item> \<open>Account\<close>: \<^verbatim>\<open>src/account/baseAccount.go\<close>, \<^verbatim>\<open>accountsStates.go\<close> and the balances of \<^verbatim>\<open>src/blocks/blockAccountState.go\<close>.
  \<^item> \<open>Staking\<close>, \<open>StakingStore\<close>: \<^verbatim>\<open>src/account/stakeAccount.go\<close>, \<^verbatim>\<open>accountsStakingStates.go\<close>, \<^verbatim>\<open>reward.go\<close>.  Staking operations
    move the totals by what they are given, locked coins stay, the reward keeps the supply below its maximum, and the tables come
    back from the database.
  \<^item> \<open>Dex\<close>: \<^verbatim>\<open>src/account/dexAccount.go\<close>, \<^verbatim>\<open>accountsDexStates.go\<close>.
  \<^item> \<open>Transaction\<close>: \<^verbatim>\<open>src/transactionsDefinition\<close>.  The signed bytes determine the transaction, and it comes back from the
    database.
  \<^item> \<open>Pool\<close>: \<^verbatim>\<open>src/transactionsPool\<close>.  Map, heap and positions agree until the pool overflows.
  \<^item> \<open>Blocks\<close>: \<^verbatim>\<open>src/blocks/baseBlock.go\<close>, \<^verbatim>\<open>Block.go\<close>, the difficulty, and the encryption configuration of
    \<^verbatim>\<open>src/crypto/oqs/encryptSchemes.go\<close>.
  \<^item> \<open>Wallet\<close>: signing, of \<^verbatim>\<open>src/wallet/wallet.go\<close>.
  \<^item> \<open>Blake2b\<close>: \<^verbatim>\<open>src/crypto/blake2b\<close>, shown to be the function of RFC 7693 however a message is split over \<^verbatim>\<open>Write\<close>.
  \<^item> \<open>Hexutil\<close>, \<open>SCData\<close>: \<^verbatim>\<open>src/common/hexutil\<close>, \<^verbatim>\<open>src/common/bytes.go\<close>, \<^verbatim>\<open>typesVM.go\<close>, the text and words exchanged with contracts.

  \<^bold>\<open>Blocks and the ledger.\<close>
  \<^item> \<open>World\<close>, \<open>Ledger\<close>: \<^verbatim>\<open>src/blocks/processTransaction.go\<close> on the record \<open>world\<close> of accounts, stakes, pools and database.  Every
    transaction takes its fee and nothing else out of the coins; approvals count approvers; a stored transaction is refused.
  \<^item> \<open>Chain\<close>: \<^verbatim>\<open>src/blocks/processBlock.go\<close>, \<^verbatim>\<open>processPubKey.go\<close>.  An accepted block conserves the coins, and a node whose coins do not
    add up accepts none.
  \<^item> \<open>Consensus\<close>: the check of a block, \<^verbatim>\<open>proofOfSynergy.go\<close>, \<^verbatim>\<open>processEncryption.go\<close>.
  \<^item> \<open>Oracles\<close>, \<open>Voting\<close>: \<^verbatim>\<open>src/oracles\<close>, \<^verbatim>\<open>src/voting\<close>.  What is computed passes the check, and what the checks demand, exactly.
  \<^item> \<open>Rollback\<close>: what the acceptance of a block never touches.
  \<^item> \<open>Genesis\<close>, \<open>GenesisLedger\<close>: \<^verbatim>\<open>src/genesis/genesis.go\<close>, the first block.  A fresh node is balanced.

  \<^bold>\<open>The virtual machine.\<close>
  \<^item> \<open>StateDB\<close>: \<^verbatim>\<open>src/core/stateDB\<close>.  \<open>RLP\<close>: \<^verbatim>\<open>src/rlp\<close>, the encoder, the splitting functions and the list iterator.
  \<^item> \<open>EVM_Code\<close>, \<open>EVM_Base\<close>, \<open>EVM_Gas\<close>, \<open>EVM_Calls\<close>, \<open>EVM_Ops\<close>, \<open>EVM_Table\<close>, \<open>EVM_Run\<close>: \<^verbatim>\<open>src/core/evm\<close>, from the analysis of the
    code over stack, memory, prices, calls and all instructions to the instruction tables and the interpreter.
  \<^item> \<open>EVM_Frames\<close>, \<open>EVM_Metering\<close>, \<open>EVM_Limits\<close>, \<open>EVM_Static\<close>, \<open>EVM_Types\<close>: what an instruction leaves alone; every call ends within
    its gas; more fuel changes nothing; static calls change nothing; every instruction does to the stack what its table says.
  \<^item> \<open>Evaluate\<close>, \<open>EvaluateLedger\<close>: \<^verbatim>\<open>src/blocks/evaluate.go\<close>, the contracts and exchange trades of a block.  They conserve coins, so
    the conservation of \<open>Chain\<close> holds for the machine that the node runs.

  \<^bold>\<open>The node and its peers.\<close>
  \<^item> \<open>Message\<close>: \<^verbatim>\<open>src/message\<close>.  \<open>Peers\<close>: \<^verbatim>\<open>src/tcpip\<close>.  Messages come back from their bytes, also when they arrive in pieces.
  \<^item> \<open>Node\<close>: the record of everything in memory, the reset of \<^verbatim>\<open>src/services/helperReset.go\<close> and the block messages of
    \<^verbatim>\<open>src/services/nonceService\<close>.  A block message ends in a ledger that the database can give back; an applied block is the new
    end of the chain; a reset restores.
  \<^item> \<open>Services\<close>: block creation, nonce and transaction services.  \<open>Sync\<close>: \<^verbatim>\<open>src/services/syncService\<close>.  A node accepts what it proposes;
    the blocks a node lets through are linked to its own; what it asks for, it can use.

  \<^bold>\<open>Interfaces.\<close>
  \<^item> \<open>rocksdb\<close>: a get returns what was last put and not deleted.  It is the contract of a library that is not part of the
    sources; \<open>mem_kv\<close> meets it and is used where a theorem is applied to concrete data.  \<open>node_db\<close> extends it to a node.
  \<^item> \<open>codec_pair\<close>: a reader takes back what its encoder wrote; interpreted for integers, locks, staking details, exchange balances
    and the saved words of a hash.
  \<^item> \<open>go_heap\<close>: a heap over a strict weak order; interpreted for the order of the pool.
  \<^item> \<open>block_frame\<close>: an invariant that the writes of block processing keep; a sublocale relation gives it for every \<open>node_db\<close>.
  \<^item> \<open>machine_part\<close>, \<open>machine_frame\<close>: what can be read from a running call and an instruction keeps; interpreted for the gas, for
    the state of the contracts and for the stack.
  \<^item> \<open>metered_runner\<close>, \<open>less_fuel\<close>, \<open>static_runner\<close>: what the calling instructions ask of the interpreter they call; interpreted for the
    interpreter itself, by induction on its fuel.

  \<^bold>\<open>Parameters.\<close>  Code outside the sources is an argument: RocksDB, the key generation and the signatures of liboqs, the JSON encoder, the
  \<^verbatim>\<open>uint256\<close> library beyond the operations of a word, the Keccak digest and the curves of the precompiled contracts, \<^verbatim>\<open>math.Log2\<close>,
  the random generator, the clock, and what the sockets deliver.  The Blake2b digest is an argument too, so that the theorems do not rest on
  the values of a hash; \<open>Blake2b\<close> has what the code computes.  Each hypothesis on an argument states documented behaviour, and its
  theorem is applied to a concrete argument that meets it.

  \<^bold>\<open>Loops and fuel.\<close>  Loops over data are recursive functions that end.  The searches for a stored height may loop forever, which is an outcome of
  \<open>None\<close>; where a theorem speaks of their result it shows that they return.  The interpreter has fuel, and fuel above the gas of the call is
  enough, because every round of its loop costs gas; \<open>Evaluate\<close> runs it with that fuel.

  \<^bold>\<open>Concurrency.\<close>  A method that holds its mutex is one step.  Where the code only tries a lock, and in the tables of peers, the
  interleaving is explicit; a started goroutine and a message put on a channel are recorded in the node.

  \<^bold>\<open>Not modelled.\<close>  Sockets, threads, the loops around the handlers, log output, the desktop wallet and the command-line programs, because they are
  input and output; the encryption of keys in files; the third-party code copied into the repository that the node does not reach with
  data of its own (elliptic curves, ABI, assembler, compiler, the reflective decoder of RLP); the assembly versions of Blake2b.
\<close>

end
